(* ===== verification/KC_Prelude.thy ===== *)
theory KC_Prelude
  imports Main "HOL-Library.Monad_Syntax"
begin

text \<open>
  Shared vocabulary of the development: the types every component uses (byte strings,
  results, unbounded channels, clocks), the simplification collections the component
  proofs extend, and generic lemmas on lists, options and strings.

  Rust's \<open>String\<close> and \<open>&str\<close> are UTF-8 byte sequences whose \<open>len\<close> counts bytes, so
  both are modelled by \<open>string\<close>, whose elements are the 8-bit values \<open>char\<close>. A panic
  (\<open>unwrap\<close> on an error, an index out of range, a checked subtraction) is the value
  \<open>None\<close> of an \<open>option\<close>-typed operation. A fallible operation returns \<open>error + 'a\<close>.
\<close>

section \<open>Collections\<close>

named_theorems queue_simps \<open>unfolding rules of the execution queue\<close>
named_theorems state_simps \<open>unfolding rules of the kernel state operations\<close>
named_theorems ws_simps \<open>unfolding rules of the workspace registry\<close>

section \<open>Types\<close>

type_synonym instant = nat

text \<open>
  An \<open>async_channel::unbounded\<close> or \<open>mpsc::unbounded_channel\<close>: the buffered messages, oldest
  first, and whether a receiver still exists. \<open>chan_send\<close> is \<open>tx.send(x)\<close>: \<open>None\<close> is the
  \<open>SendError\<close> a closed channel returns.
\<close>

record 'a chan =
  ch_open :: bool
  ch_buf :: "'a list"

definition chan_new :: "'a chan" where
  "chan_new = \<lparr>ch_open = True, ch_buf = []\<rparr>"

definition chan_send :: "'a \<Rightarrow> 'a chan \<Rightarrow> 'a chan option" where
  "chan_send x c = (if ch_open c then Some (c\<lparr>ch_buf := ch_buf c @ [x]\<rparr>) else None)"

text \<open>\<open>let _ = tx.send(x)\<close> and the variants that only log a failed send.\<close>

definition chan_try :: "'a \<Rightarrow> 'a chan \<Rightarrow> 'a chan" where
  "chan_try x c = (case chan_send x c of Some c' \<Rightarrow> c' | None \<Rightarrow> c)"

text \<open>
  A fallible computation that can also panic: \<open>Done\<close> is \<open>Ok\<close>, \<open>Fail\<close> is \<open>Err\<close>, and \<open>Panic\<close>
  is the unwinding of the task. \<open>obind\<close> is the sequencing of the \<open>?\<close> operator.
\<close>

datatype ('e, 'a) outcome = Done 'a | Fail 'e | Panic

fun obind :: "('e, 'a) outcome \<Rightarrow> ('a \<Rightarrow> ('e, 'b) outcome) \<Rightarrow> ('e, 'b) outcome" where
  "obind (Done x) k = k x"
| "obind (Fail e) k = Fail e"
| "obind Panic k = Panic"

text \<open>\<open>Option::ok_or\<close> as used with \<open>?\<close>, and indexing \<open>xs[i]\<close>, which panics out of range.\<close>

definition ok_or :: "'e \<Rightarrow> 'a option \<Rightarrow> ('e, 'a) outcome" where
  "ok_or e x = (case x of Some v \<Rightarrow> Done v | None \<Rightarrow> Fail e)"

definition index_at :: "'a list \<Rightarrow> nat \<Rightarrow> ('e, 'a) outcome" where
  "index_at xs i = (if i < length xs then Done (xs ! i) else Panic)"

section \<open>Strings\<close>

definition nl :: string where
  "nl = [CHR 0x0A]"

text \<open>\<open>str::split(c)\<close>: the parts between occurrences of a separator, never empty.\<close>

fun split_on :: "'a \<Rightarrow> 'a list \<Rightarrow> 'a list list" where
  "split_on c [] = [[]]"
| "split_on c (x # xs) =
     (if x = c then [] # split_on c xs
      else (case split_on c xs of [] \<Rightarrow> [[x]] | p # ps \<Rightarrow> (x # p) # ps))"

text \<open>\<open>[String]::join(sep)\<close>.\<close>

fun join_with :: "'a list \<Rightarrow> 'a list list \<Rightarrow> 'a list" where
  "join_with sep [] = []"
| "join_with sep [x] = x"
| "join_with sep (x # y # ys) = x @ sep @ join_with sep (y # ys)"

text \<open>\<open>str::starts_with\<close>, \<open>str::contains\<close> and \<open>str::ends_with(char)\<close>.\<close>

fun starts_with :: "'a list \<Rightarrow> 'a list \<Rightarrow> bool" where
  "starts_with [] ys = True"
| "starts_with (x # xs) [] = False"
| "starts_with (x # xs) (y # ys) = (x = y \<and> starts_with xs ys)"

fun contains_str :: "'a list \<Rightarrow> 'a list \<Rightarrow> bool" where
  "contains_str pat [] = (pat = [])"
| "contains_str pat (y # ys) = (starts_with pat (y # ys) \<or> contains_str pat ys)"

definition ends_with_char :: "'a list \<Rightarrow> 'a \<Rightarrow> bool" where
  "ends_with_char xs c = (xs \<noteq> [] \<and> last xs = c)"

text \<open>\<open>str::split_once(c)\<close>: what precedes and what follows the first separator.\<close>

fun split_once :: "'a \<Rightarrow> 'a list \<Rightarrow> ('a list \<times> 'a list) option" where
  "split_once c [] = None"
| "split_once c (x # xs) =
     (if x = c then Some ([], xs) else map_option (\<lambda>(a, b). (x # a, b)) (split_once c xs))"

text \<open>Rendering of an unsigned number in decimal, as \<open>format!("{}", n)\<close>.\<close>

definition digit_char :: "nat \<Rightarrow> char" where
  "digit_char d = char_of (48 + d mod 10)"

fun show_nat :: "nat \<Rightarrow> string" where
  "show_nat n = (if n < 10 then [digit_char n] else show_nat (n div 10) @ [digit_char n])"

declare show_nat.simps [simp del]

section \<open>Shared lemmas\<close>

lemma chan_send_Some [simp]:
  "(chan_send x c = Some c') = (ch_open c \<and> c' = c\<lparr>ch_buf := ch_buf c @ [x]\<rparr>)"
  by (auto simp: chan_send_def)

lemma chan_send_None [simp]: "(chan_send x c = None) = (\<not> ch_open c)"
  by (simp add: chan_send_def)

lemma chan_try_open [simp]: "ch_open (chan_try x c) = ch_open c"
  by (auto simp: chan_try_def split: option.splits)

lemma chan_try_buf [simp]:
  "ch_buf (chan_try x c) = (if ch_open c then ch_buf c @ [x] else ch_buf c)"
  by (auto simp: chan_try_def split: option.splits)

lemma split_on_nonempty [simp]: "split_on c xs \<noteq> []"
  by (induction xs) (auto split: list.splits)

lemma split_on_no_sep: "c \<notin> set xs \<Longrightarrow> split_on c xs = [xs]"
  by (induction xs) auto

lemma split_on_append: "c \<notin> set w \<Longrightarrow> split_on c (w @ c # s) = w # split_on c s"
  by (induction w) auto

lemma split_on_words:
  assumes "ws \<noteq> []" and "\<forall>w \<in> set ws. c \<notin> set w"
  shows "split_on c (join_with [c] ws) = ws"
  using assms
proof (induction ws)
  case (Cons w ws)
  then show ?case
    using split_on_append [of c w] split_on_no_sep by (cases ws) auto
qed simp

lemma join_split_on: "join_with [c] (split_on c xs) = xs"
proof (induction xs)
  case Nil
  then show ?case by simp
next
  case (Cons x xs)
  obtain p ps where ps: "split_on c xs = p # ps"
    by (cases "split_on c xs") auto
  show ?case
    using Cons.IH ps by (cases ps) auto
qed

lemma starts_with_append [simp]: "starts_with xs (xs @ ys)"
  by (induction xs) auto

lemma starts_with_iff: "starts_with xs ys = (\<exists>zs. ys = xs @ zs)"
  by (induction xs ys rule: starts_with.induct) auto

lemma contains_str_iff: "contains_str pat ys = (\<exists>as bs. ys = as @ pat @ bs)"
proof (induction ys)
  case Nil
  then show ?case by auto
next
  case (Cons y ys)
  have "(\<exists>as bs. y # ys = as @ pat @ bs) =
        ((\<exists>bs. y # ys = pat @ bs) \<or> (\<exists>as bs. ys = as @ pat @ bs))"
    by (metis append_Cons append_Nil append_eq_Cons_conv)
  then show ?case
    using Cons.IH by (simp add: starts_with_iff)
qed

lemma ends_with_char_append [simp]: "ys \<noteq> [] \<Longrightarrow> ends_with_char (xs @ ys) c = ends_with_char ys c"
  by (simp add: ends_with_char_def)

lemma split_once_append: "c \<notin> set a \<Longrightarrow> split_once c (a @ c # b) = Some (a, b)"
  by (induction a) auto

lemma split_once_Some: "split_once c xs = Some (a, b) \<Longrightarrow> xs = a @ c # b \<and> c \<notin> set a"
  by (induction xs arbitrary: a) (auto split: if_splits)

lemma split_once_None: "split_once c s = None \<longleftrightarrow> c \<notin> set s"
  by (induction s) auto

lemma obind_Done [simp]: "(obind m k = Done y) = (\<exists>x. m = Done x \<and> k x = Done y)"
  by (cases m) auto

lemma obind_Panic [simp]: "(obind m k = Panic) = (m = Panic \<or> (\<exists>x. m = Done x \<and> k x = Panic))"
  by (cases m) auto

lemma ok_or_Done [simp]: "(ok_or e x = Done v) = (x = Some v)"
  by (cases x) (auto simp: ok_or_def)

lemma ok_or_Panic [simp]: "ok_or e x \<noteq> Panic"
  by (cases x) (auto simp: ok_or_def)

lemma ok_or_Some [simp]: "ok_or e (Some v) = Done v"
  by (simp add: ok_or_def)

lemma index_at_Done [simp]: "(index_at xs i = Done v) = (i < length xs \<and> xs ! i = v)"
  by (auto simp: index_at_def)

lemma index_at_Panic [simp]: "(index_at xs i = Panic) = (length xs \<le> i)"
  by (auto simp: index_at_def)

lemma index_at_lt [simp]: "i < length xs \<Longrightarrow> index_at xs i = Done (xs ! i)"
  by (simp add: index_at_def)

end
