(* ===== verification/KC_Json.thy ===== *)
theory KC_Json
  imports KC_Prelude
begin

text \<open>
  The part of \<open>serde_json\<close> that the source calls: the \<open>Value\<close> type with its accessors and
  the rules by which \<open>serde\<close>'s derived \<open>Deserialize\<close> reads a struct or a unit enum from a
  \<open>Value\<close>. Objects are association lists in the iteration order of \<open>serde_json::Map\<close>.
  Numbers outside the integers keep their text. Parsing and printing of JSON text is code
  outside the repository and appears as parameters where it is used.
\<close>

datatype json =
    JNull
  | JBool bool
  | JInt int
  | JFloat string
  | JString string
  | JArray "json list"
  | JObject "(string \<times> json) list"

text \<open>\<open>value.get(key)\<close> and \<open>value[key]\<close>: indexing a missing key gives \<open>Null\<close>.\<close>

fun json_get :: "string \<Rightarrow> json \<Rightarrow> json option" where
  "json_get k (JObject kvs) = map_of kvs k"
| "json_get k _ = None"

definition json_index :: "json \<Rightarrow> string \<Rightarrow> json" where
  "json_index v k = (case json_get k v of Some x \<Rightarrow> x | None \<Rightarrow> JNull)"

fun as_str :: "json \<Rightarrow> string option" where
  "as_str (JString s) = Some s"
| "as_str _ = None"

fun as_bool :: "json \<Rightarrow> bool option" where
  "as_bool (JBool b) = Some b"
| "as_bool _ = None"

fun as_array :: "json \<Rightarrow> json list option" where
  "as_array (JArray xs) = Some xs"
| "as_array _ = None"

fun as_object :: "json \<Rightarrow> (string \<times> json) list option" where
  "as_object (JObject kvs) = Some kvs"
| "as_object _ = None"

text \<open>\<open>as_i64\<close>: integers in the range of \<open>i64\<close>.\<close>

fun as_i64 :: "json \<Rightarrow> int option" where
  "as_i64 (JInt n) = (if - (2 ^ 63) \<le> n \<and> n < 2 ^ 63 then Some n else None)"
| "as_i64 _ = None"

text \<open>An unsigned integer of the given width, as \<open>Deserialize for u16\<close> and \<open>u32\<close>.\<close>

fun as_uint :: "nat \<Rightarrow> json \<Rightarrow> nat option" where
  "as_uint w (JInt n) = (if 0 \<le> n \<and> n < 2 ^ w then Some (nat n) else None)"
| "as_uint w _ = None"

text \<open>
  A derived struct is read from an object that has every field (further keys are ignored)
  or from an array with exactly one element per field.
\<close>

fun all_some :: "'a option list \<Rightarrow> 'a list option" where
  "all_some [] = Some []"
| "all_some (None # xs) = None"
| "all_some (Some x # xs) = map_option ((#) x) (all_some xs)"

fun struct_fields :: "string list \<Rightarrow> json \<Rightarrow> json list option" where
  "struct_fields fs (JObject kvs) = all_some (map (map_of kvs) fs)"
| "struct_fields fs (JArray xs) = (if length xs = length fs then Some xs else None)"
| "struct_fields fs _ = None"

text \<open>
  A unit variant of an externally tagged enum is read from its name, or from an object with
  that name as its only key and \<open>null\<close> as the value.
\<close>

fun unit_variant :: "json \<Rightarrow> string option" where
  "unit_variant (JString s) = Some s"
| "unit_variant (JObject [(k, JNull)]) = Some k"
| "unit_variant _ = None"

lemma json_index_object [simp]:
  "json_index (JObject kvs) k = (case map_of kvs k of Some x \<Rightarrow> x | None \<Rightarrow> JNull)"
  by (simp add: json_index_def)

lemma all_some_length: "all_some xs = Some ys \<Longrightarrow> length ys = length xs"
  by (induction xs arbitrary: ys rule: all_some.induct) auto

lemma struct_fields_length: "struct_fields fs v = Some xs \<Longrightarrow> length xs = length fs"
  by (induction fs v rule: struct_fields.induct)
     (auto simp: all_some_length split: if_splits dest!: all_some_length)

lemma as_uint_bound: "as_uint w v = Some n \<Longrightarrow> n < 2 ^ w"
  by (induction w v rule: as_uint.induct)
     (auto split: if_splits simp: nat_less_iff)

end
