(* ===== verification/KC_Messages.thy ===== *)
theory KC_Messages
  imports KC_Json
begin

text \<open>
  The message types of \<open>kcshared\<close> (\<open>jupyter_message.rs\<close>, \<open>kernel_message.rs\<close>,
  \<open>websocket_message.rs\<close>, \<open>handshake_protocol.rs\<close>), the API models the server state holds,
  and the classification \<open>JupyterMsg::from\<close> of \<open>jupyter_messages.rs\<close>.
\<close>

section \<open>Jupyter messages\<close>

record jupyter_header =
  msg_id :: string
  msg_type :: string

datatype jupyter_channel = Shell | Control | Stdin | IOPub | Heartbeat | Registration

record jupyter_message =
  header :: jupyter_header
  parent_header :: "jupyter_header option"
  channel :: jupyter_channel
  content :: json
  metadata :: json
  buffers :: "string list"

text \<open>The derived \<open>Serialize\<close> of a message; the keys come out in the order of the object map.\<close>

fun channel_name :: "jupyter_channel \<Rightarrow> string" where
  "channel_name Shell = ''shell''"
| "channel_name Control = ''control''"
| "channel_name Stdin = ''stdin''"
| "channel_name IOPub = ''iopub''"
| "channel_name Heartbeat = ''heartbeat''"
| "channel_name Registration = ''registration''"

definition header_json :: "jupyter_header \<Rightarrow> json" where
  "header_json h = JObject [(''msg_id'', JString (msg_id h)), (''msg_type'', JString (msg_type h))]"

definition message_json :: "jupyter_message \<Rightarrow> json" where
  "message_json m = JObject
     [(''buffers'', JArray (map JString (buffers m))),
      (''channel'', JString (channel_name (channel m))),
      (''content'', content m),
      (''header'', header_json (header m)),
      (''metadata'', metadata m),
      (''parent_header'',
        case parent_header m of None \<Rightarrow> JNull | Some h \<Rightarrow> header_json h)]"

section \<open>API models\<close>

datatype status = Uninitialized | Starting | Ready | Idle | Busy | Offline | Exited

fun status_name :: "status \<Rightarrow> string" where
  "status_name Uninitialized = ''uninitialized''"
| "status_name Starting = ''starting''"
| "status_name Ready = ''ready''"
| "status_name Idle = ''idle''"
| "status_name Busy = ''busy''"
| "status_name Offline = ''offline''"
| "status_name Exited = ''exited''"

record connection_info =
  control_port :: int
  shell_port :: int
  stdin_port :: int
  hb_port :: int
  iopub_port :: int
  signature_scheme :: string
  info_key :: string
  transport :: string
  ip :: string

datatype var_action_type = Replace | Append | Prepend

record var_action =
  action :: var_action_type
  var_name :: string
  var_value :: string

datatype interrupt_mode = SignalMode | MessageMode

datatype startup_environment = EnvNone | EnvShell | EnvCommand | EnvScript

datatype session_mode = Console | Notebook | Background

fun session_mode_name :: "session_mode \<Rightarrow> string" where
  "session_mode_name Console = ''console''"
| "session_mode_name Notebook = ''notebook''"
| "session_mode_name Background = ''background''"

record new_session =
  ns_session_id :: string
  ns_display_name :: string
  ns_language :: string
  ns_username :: string
  ns_input_prompt :: string
  ns_continuation_prompt :: string
  ns_argv :: "string list"
  ns_session_mode :: session_mode
  ns_working_directory :: string
  ns_notebook_uri :: "string option"
  ns_env :: "var_action list"
  ns_connection_timeout :: "int option"
  ns_interrupt_mode :: interrupt_mode
  ns_protocol_version :: "string option"
  ns_startup_environment :: startup_environment
  ns_startup_environment_arg :: "string option"
  ns_workspace_id :: "string option"

record resource_update =
  up_cpu_percent :: nat
  up_memory_bytes :: nat
  up_thread_count :: nat
  up_sampling_period_ms :: nat
  up_timestamp :: nat

record resource_usage =
  cpu_percent :: int
  memory_bytes :: int
  thread_count :: int
  sampling_period_ms :: int
  usage_timestamp :: int

section \<open>Kernel and WebSocket messages\<close>

datatype output_stream = Stdout | Stderr

record execution_attribution =
  attr_source :: string
  attr_agent_name :: "string option"
  attr_agent_version :: "string option"
  attr_workspace_id :: string
  attr_tool :: string

datatype kernel_message =
    StatusMsg status "string option"
  | Output output_stream string
  | ExecutionQueued string
  | WorkingDirChanged string
  | ResourceUsageMsg resource_update
  | ClientDisconnected string
  | ExitedMsg int
  | HandshakeCompleted string connection_info
  | ExecutionRequested string string instant execution_attribution

datatype websocket_message = Kernel kernel_message | Jupyter jupyter_message

section \<open>Message classification\<close>

datatype execution_state = StateBusy | StateIdle

record handshake_request =
  hr_shell_port :: nat
  hr_iopub_port :: nat
  hr_stdin_port :: nat
  hr_control_port :: nat
  hr_hb_port :: nat

datatype jupyter_msg =
    ExecuteRequest string
  | InterruptRequest
  | ShutdownRequest
  | HandshakeRequest handshake_request
  | Status execution_state
  | Other

definition parse_execute_request :: "json \<Rightarrow> string option" where
  "parse_execute_request v =
     (case struct_fields [''code''] v of
        Some [c] \<Rightarrow> as_str c
      | _ \<Rightarrow> None)"

definition parse_execution_state :: "json \<Rightarrow> execution_state option" where
  "parse_execution_state v =
     (case unit_variant v of
        Some s \<Rightarrow> (if s = ''busy'' then Some StateBusy
                   else if s = ''idle'' then Some StateIdle else None)
      | None \<Rightarrow> None)"

definition parse_status :: "json \<Rightarrow> execution_state option" where
  "parse_status v =
     (case struct_fields [''execution_state''] v of
        Some [s] \<Rightarrow> parse_execution_state s
      | _ \<Rightarrow> None)"

definition parse_handshake_request :: "json \<Rightarrow> handshake_request option" where
  "parse_handshake_request v =
     (case struct_fields [''shell_port'', ''iopub_port'', ''stdin_port'', ''control_port'', ''hb_port''] v of
        Some ps \<Rightarrow>
          (case all_some (map (as_uint 16) ps) of
             Some [a, b, c, d, e] \<Rightarrow>
               Some \<lparr>hr_shell_port = a, hr_iopub_port = b, hr_stdin_port = c,
                      hr_control_port = d, hr_hb_port = e\<rparr>
           | _ \<Rightarrow> None)
      | None \<Rightarrow> None)"

definition jupyter_msg_from :: "jupyter_message \<Rightarrow> jupyter_msg" where
  "jupyter_msg_from m =
     (let t = msg_type (header m) in
      if t = ''execute_request'' then
        (case parse_execute_request (content m) of Some c \<Rightarrow> ExecuteRequest c | None \<Rightarrow> Other)
      else if t = ''status'' then
        (case parse_status (content m) of Some s \<Rightarrow> Status s | None \<Rightarrow> Other)
      else if t = ''interrupt_request'' then InterruptRequest
      else if t = ''shutdown_request'' then ShutdownRequest
      else if t = ''handshake_request'' then
        (case parse_handshake_request (content m) of Some r \<Rightarrow> HandshakeRequest r | None \<Rightarrow> Other)
      else Other)"

lemma jupyter_msg_from_execute:
  "jupyter_msg_from m = ExecuteRequest c \<Longrightarrow> msg_type (header m) = ''execute_request''"
  by (auto simp: jupyter_msg_from_def Let_def split: if_splits option.splits)

lemma jupyter_msg_from_status:
  "jupyter_msg_from m = Status s \<Longrightarrow> msg_type (header m) = ''status''"
  by (auto simp: jupyter_msg_from_def Let_def split: if_splits option.splits)

text \<open>The ports a handshake carries fit their 16 bits.\<close>

lemma all_some_bounded:
  "all_some (map (as_uint w) ps) = Some ns \<Longrightarrow> n \<in> set ns \<Longrightarrow> n < 2 ^ w"
proof (induction ps arbitrary: ns)
  case (Cons p ps)
  then show ?case
    by (cases "as_uint w p") (auto dest: as_uint_bound)
qed simp

lemma parse_handshake_ports:
  assumes "parse_handshake_request v = Some r"
  shows "\<forall>p \<in> {hr_shell_port r, hr_iopub_port r, hr_stdin_port r, hr_control_port r, hr_hb_port r}.
           p < 65536"
  using assms all_some_bounded [where w = 16]
  by (auto simp: parse_handshake_request_def split: option.splits list.splits)

end
