(* ===== verification/KC_Fifo.thy ===== *)
theory KC_Fifo
  imports KC_Prelude "HOL-Library.Sublist"
begin

text \<open>
  The contract the ZeroMQ proxy relies on when it hands \<open>execute_request\<close> messages to a
  kernel: a queue that either dispatches a submitted request at once or keeps it waiting,
  and that yields the waiting requests one by one. The locale fixes the operations and
  their laws over the list of waiting requests; what follows for whole histories of calls
  is proved once, inside it. The model of \<open>execution_queue.rs\<close> interprets it.
\<close>

section \<open>Histories of queue operations\<close>

datatype ('a, 'k) queue_event = Submit 'a | Advance | Withdraw 'k | Reset

text \<open>The requests a history submits, in order.\<close>

fun submitted :: "('a, 'k) queue_event list \<Rightarrow> 'a list" where
  "submitted [] = []"
| "submitted (Submit x # es) = x # submitted es"
| "submitted (e # es) = submitted es"

text \<open>Histories in which nothing is withdrawn and the queue is never reset.\<close>

fun only_submit_advance :: "('a, 'k) queue_event list \<Rightarrow> bool" where
  "only_submit_advance [] = True"
| "only_submit_advance (Submit x # es) = only_submit_advance es"
| "only_submit_advance (Advance # es) = only_submit_advance es"
| "only_submit_advance (e # es) = False"

section \<open>The interface\<close>

locale execution_fifo =
  fixes submit :: "'a \<Rightarrow> 'q \<Rightarrow> bool \<times> 'q"
    and advance :: "'q \<Rightarrow> 'a option \<times> 'q"
    and withdraw :: "'k \<Rightarrow> 'q \<Rightarrow> bool \<times> 'q"
    and reset :: "'q \<Rightarrow> 'q"
    and waiting :: "'q \<Rightarrow> 'a list"
    and busy :: "'q \<Rightarrow> bool"
    and invar :: "'q \<Rightarrow> bool"
  assumes idle_empty: "invar q \<Longrightarrow> \<not> busy q \<Longrightarrow> waiting q = []"
    and submit_now: "invar q \<Longrightarrow> fst (submit x q) = (\<not> busy q)"
    and submit_waiting:
      "invar q \<Longrightarrow> waiting (snd (submit x q)) = (if busy q then waiting q @ [x] else [])"
    and submit_busy: "invar q \<Longrightarrow> busy (snd (submit x q))"
    and advance_out: "invar q \<Longrightarrow> fst (advance q) = (case waiting q of [] \<Rightarrow> None | x # _ \<Rightarrow> Some x)"
    and advance_waiting: "invar q \<Longrightarrow> waiting (snd (advance q)) = tl (waiting q)"
    and withdraw_waiting: "invar q \<Longrightarrow> subseq (waiting (snd (withdraw k q))) (waiting q)"
    and reset_waiting: "waiting (reset q) = []"
    and invar_submit: "invar q \<Longrightarrow> invar (snd (submit x q))"
    and invar_advance: "invar q \<Longrightarrow> invar (snd (advance q))"
    and invar_withdraw: "invar q \<Longrightarrow> invar (snd (withdraw k q))"
    and invar_reset: "invar (reset q)"
begin

text \<open>One event: the requests it dispatches and the queue it leaves.\<close>

fun step :: "('a, 'k) queue_event \<Rightarrow> 'q \<Rightarrow> 'a list \<times> 'q" where
  "step (Submit x) q = (if fst (submit x q) then [x] else [], snd (submit x q))"
| "step Advance q = (case fst (advance q) of None \<Rightarrow> [] | Some x \<Rightarrow> [x], snd (advance q))"
| "step (Withdraw k) q = ([], snd (withdraw k q))"
| "step Reset q = ([], reset q)"

fun run :: "('a, 'k) queue_event list \<Rightarrow> 'q \<Rightarrow> 'a list \<times> 'q" where
  "run [] q = ([], q)"
| "run (e # es) q = (let (out, q') = step e q; (outs, q'') = run es q' in (out @ outs, q''))"

lemma step_invar: "invar q \<Longrightarrow> invar (snd (step e q))"
  by (cases e) (simp_all add: invar_submit invar_advance invar_withdraw invar_reset)

lemma run_invar: "invar q \<Longrightarrow> invar (snd (run es q))"
proof (induction es arbitrary: q)
  case (Cons e es)
  then show ?case
    using step_invar [of q e] by (simp add: Let_def split_def)
qed simp

lemma step_exact:
  assumes "invar q" and "only_submit_advance [e]"
  shows "fst (step e q) @ waiting (snd (step e q)) = waiting q @ submitted [e]"
  using assms
  by (cases e) (auto simp: submit_now submit_waiting advance_out advance_waiting
      dest: idle_empty split: list.splits)

lemma step_subseq:
  assumes "invar q"
  shows "subseq (fst (step e q) @ waiting (snd (step e q))) (waiting q @ submitted [e])"
proof (cases e)
  case (Withdraw k)
  then show ?thesis
    using withdraw_waiting [OF assms] by simp
next
  case Reset
  then show ?thesis
    by (simp add: reset_waiting)
next
  case (Submit x)
  then show ?thesis
    using step_exact [OF assms, of e] by simp
next
  case Advance
  then show ?thesis
    using step_exact [OF assms, of e] by simp
qed

lemma submitted_Cons: "submitted (e # es) = submitted [e] @ submitted es"
  by (cases e) auto

lemma only_Cons: "only_submit_advance (e # es) = (only_submit_advance [e] \<and> only_submit_advance es)"
  by (cases e) auto

text \<open>
  Without withdrawals and resets, what a history dispatches followed by what still waits
  is exactly what waited before followed by what was submitted: first in, first out, and
  nothing lost or duplicated.
\<close>

lemma run_exact:
  "invar q \<Longrightarrow> only_submit_advance es \<Longrightarrow>
     fst (run es q) @ waiting (snd (run es q)) = waiting q @ submitted es"
proof (induction es arbitrary: q)
  case (Cons e es)
  let ?q = "snd (step e q)"
  have hd: "fst (step e q) @ waiting ?q = waiting q @ submitted [e]"
    using Cons.prems step_exact [of q e] only_Cons [of e es] by simp
  have tl: "fst (run es ?q) @ waiting (snd (run es ?q)) = waiting ?q @ submitted es"
    using Cons.prems only_Cons [of e es] by (intro Cons.IH step_invar) simp_all
  have "fst (run (e # es) q) @ waiting (snd (run (e # es) q)) =
        fst (step e q) @ waiting ?q @ submitted es"
    using tl by (simp add: Let_def split_def)
  also have "\<dots> = (waiting q @ submitted [e]) @ submitted es"
    using hd by (metis append.assoc)
  finally show ?case
    by (simp add: submitted_Cons [of e es])
qed simp

text \<open>In every history requests are dispatched in submission order and at most once.\<close>

lemma run_ordered:
  "invar q \<Longrightarrow> subseq (fst (run es q) @ waiting (snd (run es q))) (waiting q @ submitted es)"
proof (induction es arbitrary: q)
  case (Cons e es)
  let ?q = "snd (step e q)"
  have tl: "subseq (fst (run es ?q) @ waiting (snd (run es ?q))) (waiting ?q @ submitted es)"
    using Cons.prems by (intro Cons.IH step_invar)
  have "subseq (fst (step e q) @ fst (run es ?q) @ waiting (snd (run es ?q)))
               (fst (step e q) @ waiting ?q @ submitted es)"
    using tl by (simp add: list_emb_append_mono)
  also have "subseq \<dots> ((waiting q @ submitted [e]) @ submitted es)"
    using list_emb_append_mono [OF step_subseq [OF Cons.prems, of e] subseq_order.refl [of "submitted es"]]
    by simp
  finally show ?case
    by (simp add: Let_def split_def submitted_Cons [of e es])
qed simp

end

end
