(* ===== verification/KC_Queue.thy ===== *)
theory KC_Queue
  imports KC_Messages KC_Fifo "HOL-Library.Word"
begin

text \<open>
  \<open>execution_queue.rs\<close>: the queue of \<open>execute_request\<close> messages of a session. One request is
  active (it has been handed to the kernel), the rest wait. Every mutation of the source is
  a function from queues to queues; \<open>VecDeque\<close> is a list whose head is the front.
\<close>

record exec_queue =
  active :: "jupyter_message option"
  pending :: "jupyter_message list"

definition queue_new :: exec_queue where
  "queue_new = \<lparr>active = None, pending = []\<rparr>"

definition queue_clear :: "exec_queue \<Rightarrow> exec_queue" where
  "queue_clear q = (let q = q\<lparr>active := None\<rparr> in q\<lparr>pending := []\<rparr>)"

definition process_request :: "jupyter_message \<Rightarrow> exec_queue \<Rightarrow> bool \<times> exec_queue" where
  "process_request request q =
     (case active q of
        None \<Rightarrow> (True, q\<lparr>active := Some request\<rparr>)
      | Some a \<Rightarrow> (False, q\<lparr>pending := pending q @ [request]\<rparr>))"

definition remove_pending :: "string \<Rightarrow> exec_queue \<Rightarrow> bool \<times> exec_queue" where
  "remove_pending i q =
     (let before = length (pending q);
          q' = q\<lparr>pending := filter (\<lambda>m. msg_id (header m) \<noteq> i) (pending q)\<rparr>
      in (length (pending q') \<noteq> before, q'))"

definition next_request :: "exec_queue \<Rightarrow> jupyter_message option \<times> exec_queue" where
  "next_request q =
     (case pending q of
        req # rest \<Rightarrow> (Some req, q\<lparr>pending := rest, active := Some req\<rparr>)
      | [] \<Rightarrow> (None, q\<lparr>active := None\<rparr>))"

text \<open>The model reported to clients; \<open>length\<close> is the 32-bit cast of the number of waiting requests.\<close>

record queue_model =
  qm_active :: "json option"
  qm_length :: "32 word"
  qm_pending :: "json list"

definition queue_to_json :: "exec_queue \<Rightarrow> queue_model" where
  "queue_to_json q =
     (let p = map message_json (pending q) in
      \<lparr>qm_active = map_option message_json (active q), qm_length = of_nat (length p), qm_pending = p\<rparr>)"

text \<open>Requests wait only behind an active one.\<close>

definition queue_ok :: "exec_queue \<Rightarrow> bool" where
  "queue_ok q \<longleftrightarrow> (active q = None \<longrightarrow> pending q = [])"

text \<open>What one queue operation of the source sends to the kernel, and whole histories of them.\<close>

fun queue_step :: "(jupyter_message, string) queue_event \<Rightarrow> exec_queue \<Rightarrow> jupyter_message list \<times> exec_queue" where
  "queue_step (Submit m) q = (if fst (process_request m q) then [m] else [], snd (process_request m q))"
| "queue_step Advance q =
     (case fst (next_request q) of None \<Rightarrow> [] | Some m \<Rightarrow> [m], snd (next_request q))"
| "queue_step (Withdraw i) q = ([], snd (remove_pending i q))"
| "queue_step Reset q = ([], queue_clear q)"

fun queue_run :: "(jupyter_message, string) queue_event list \<Rightarrow> exec_queue \<Rightarrow> jupyter_message list \<times> exec_queue" where
  "queue_run [] q = ([], q)"
| "queue_run (e # es) q =
     (let (out, q') = queue_step e q; (outs, q'') = queue_run es q' in (out @ outs, q''))"

lemmas [queue_simps] =
  queue_new_def queue_clear_def process_request_def remove_pending_def next_request_def
  queue_ok_def Let_def

section \<open>The invariant\<close>

lemma queue_ok_new: "queue_ok queue_new"
  by (simp add: queue_simps)

lemma queue_ok_clear: "queue_ok (queue_clear q)"
  by (simp add: queue_simps)

lemma queue_ok_process: "queue_ok q \<Longrightarrow> queue_ok (snd (process_request m q))"
  by (simp add: queue_simps split: option.splits)

lemma queue_ok_remove: "queue_ok q \<Longrightarrow> queue_ok (snd (remove_pending i q))"
  by (simp add: queue_simps)

lemma queue_ok_next: "queue_ok (snd (next_request q))"
  by (simp add: queue_simps split: list.splits)

interpretation eq: execution_fifo
  process_request next_request remove_pending queue_clear pending "\<lambda>q. active q \<noteq> None" queue_ok
proof unfold_locales
  fix q :: exec_queue and m :: jupyter_message
  assume ok: "queue_ok q"
  show "\<not> active q \<noteq> None \<Longrightarrow> pending q = []"
    using ok by (simp add: queue_ok_def)
  show "fst (process_request m q) = (\<not> active q \<noteq> None)"
    by (simp add: process_request_def split: option.splits)
  show "pending (snd (process_request m q)) = (if active q \<noteq> None then pending q @ [m] else [])"
    using ok by (auto simp: queue_simps)
  show "active (snd (process_request m q)) \<noteq> None"
    by (auto simp: process_request_def split: option.splits)
next
  fix q :: exec_queue
  show "fst (next_request q) = (case pending q of [] \<Rightarrow> None | x # _ \<Rightarrow> Some x)"
    and "pending (snd (next_request q)) = tl (pending q)"
    by (simp_all add: next_request_def split: list.splits)
next
  fix q :: exec_queue and i
  show "subseq (pending (snd (remove_pending i q))) (pending q)"
    by (simp add: remove_pending_def Let_def)
next
  fix q :: exec_queue
  show "pending (queue_clear q) = []"
    by (simp add: queue_simps)
qed (simp_all add: queue_ok_process queue_ok_next queue_ok_remove queue_ok_clear)

lemma queue_step_eq: "queue_step e q = eq.step e q"
  by (cases e) simp_all

lemma queue_run_eq: "queue_run es q = eq.run es q"
  by (induction es arbitrary: q) (simp_all add: queue_step_eq)

section \<open>Properties\<close>

text \<open>
  First in, first out: over any history of submissions and completions on a well-formed
  queue, the requests handed to the kernel followed by those still waiting are exactly those
  that waited before followed by those submitted; none is lost, duplicated or reordered.
\<close>

theorem queue_dispatch_exact:
  assumes "queue_ok q" and "only_submit_advance es"
  shows "fst (queue_run es q) @ pending (snd (queue_run es q)) = pending q @ submitted es"
  unfolding queue_run_eq using assms by (rule eq.run_exact)

definition sample_request :: "string \<Rightarrow> jupyter_message" where
  "sample_request i = \<lparr>header = \<lparr>msg_id = i, msg_type = ''execute_request''\<rparr>, parent_header = None,
     channel = Shell, content = JObject [(''code'', JString ''x'')], metadata = JObject [],
     buffers = []\<rparr>"

theorem queue_dispatch_exact_witness:
  "fst (queue_run [Submit (sample_request ''a''), Submit (sample_request ''b''), Advance] queue_new) =
     [sample_request ''a'', sample_request ''b'']"
proof -
  let ?es = "[Submit (sample_request ''a''), Submit (sample_request ''b''), Advance]"
  have "pending (snd (queue_run ?es queue_new)) = []"
    by (simp add: queue_simps)
  moreover have "only_submit_advance ?es"
    by simp
  ultimately show ?thesis
    using queue_dispatch_exact [OF queue_ok_new, of ?es] by (simp add: queue_new_def)
qed

text \<open>
  In every history, with withdrawals of abandoned requests and with the resets that
  interrupts, shutdowns and exits cause, what the kernel receives and what still waits is a
  subsequence of what was submitted: requests never overtake each other and none runs twice.
  The queue also stays well-formed throughout.
\<close>

theorem queue_history_ordered:
  "subseq (fst (queue_run es queue_new) @ pending (snd (queue_run es queue_new))) (submitted es) \<and>
   queue_ok (snd (queue_run es queue_new))"
proof -
  have "subseq (fst (eq.run es queue_new) @ pending (snd (eq.run es queue_new)))
               (pending queue_new @ submitted es)"
    by (rule eq.run_ordered [OF queue_ok_new])
  then show ?thesis
    by (simp add: queue_run_eq queue_new_def eq.run_invar [OF queue_ok_new, unfolded queue_new_def])
qed

lemma remove_pending_effect:
  "remove_pending i q = (found, q') \<Longrightarrow>
     (found \<longleftrightarrow> (\<exists>m \<in> set (pending q). msg_id (header m) = i)) \<and> active q' = active q \<and>
     (\<forall>m \<in> set (pending q'). msg_id (header m) \<noteq> i)"
proof -
  assume eq: "remove_pending i q = (found, q')"
  have "(length (filter (\<lambda>m. msg_id (header m) \<noteq> i) (pending q)) \<noteq> length (pending q)) =
        (\<exists>m \<in> set (pending q). msg_id (header m) = i)"
    by (metis (mono_tags, lifting) filter_True length_filter_less less_irrefl)
  with eq show ?thesis
    by (auto simp: remove_pending_def Let_def)
qed

end
