(* ===== verification/KC_Machines.thy ===== *)
theory KC_Machines
  imports KC_Messages
begin

text \<open>
  Two contracts several components share.

  \<open>guarded_machine\<close>: operations that keep an invariant when they are called as they should be.
  The execution history, the workspace registry, the MCP endpoint, the server and the attachment
  of clients interpret it.

  \<open>status_cell\<close>: a place that holds the status of a session and tells its clients about every
  change. The heartbeat monitor, the proxy and the lifecycle code rely on it; the kernel state
  (\<open>kernel_state.rs\<close>) provides it.
\<close>

section \<open>Machines with an invariant\<close>

locale guarded_machine =
  fixes step :: "'op \<Rightarrow> 's \<Rightarrow> 's"
    and allowed :: "'op \<Rightarrow> bool"
    and inv :: "'s \<Rightarrow> bool"
  assumes step_inv: "inv s \<Longrightarrow> allowed op \<Longrightarrow> inv (step op s)"
begin

lemma run_inv: "inv s \<Longrightarrow> \<forall>op \<in> set ops. allowed op \<Longrightarrow> inv (fold step ops s)"
  by (induction ops arbitrary: s) (simp_all add: step_inv)

text \<open>The invariant also holds in every state on the way.\<close>

lemma all_inv:
  assumes "inv s" and "\<forall>op \<in> set ops. allowed op" and "n \<le> length ops"
  shows "inv (fold step (take n ops) s)"
  using assms by (intro run_inv) (auto dest: in_set_takeD)

end

section \<open>The status of a session\<close>

text \<open>
  A change is blocked when it changes nothing, and when it would bring an exited session back
  with an ordinary status message.
\<close>

definition blocked :: "status \<Rightarrow> status \<Rightarrow> bool" where
  "blocked st cur \<longleftrightarrow> cur = st \<or> cur = Exited \<and> (st = Idle \<or> st = Busy)"

text \<open>What clients are told when the status goes from one value to another.\<close>

definition announced :: "status \<Rightarrow> status \<Rightarrow> status list" where
  "announced st st' = (if st' = st then [] else [st'])"

lemma announced_same [simp]: "announced st st = []"
  by (simp add: announced_def)

locale status_cell =
  fixes set :: "'c \<Rightarrow> status \<Rightarrow> 's \<Rightarrow> 's option"
    and status :: "'s \<Rightarrow> status"
    and told :: "'s \<Rightarrow> status list"
    and live :: "'s \<Rightarrow> bool"
  assumes set_blocked: "blocked st (status s) \<Longrightarrow> set c st s = Some s"
    and set_total: "live s \<Longrightarrow> \<exists>s'. set c st s = Some s'"
    and set_status: "set c st s = Some s' \<Longrightarrow> \<not> blocked st (status s) \<Longrightarrow> status s' = st"
    and set_told: "set c st s = Some s' \<Longrightarrow> \<not> blocked st (status s) \<Longrightarrow> told s' = told s @ [st]"
    and set_live: "set c st s = Some s' \<Longrightarrow> live s' = live s"
begin

fun run :: "('c \<times> status) list \<Rightarrow> 's \<Rightarrow> 's option" where
  "run [] s = Some s"
| "run ((c, st) # cs) s = (case set c st s of None \<Rightarrow> None | Some s' \<Rightarrow> run cs s')"

text \<open>One change that is not blocked for good.\<close>

lemma set_announces:
  assumes "live s" and "status s \<noteq> Exited"
  obtains s' where "set c st s = Some s'" and "status s' = st" and "live s'"
    and "told s' = told s @ announced (status s) st"
proof -
  obtain s' where s': "set c st s = Some s'"
    using set_total [OF assms(1)] by blast
  show ?thesis
  proof (cases "status s = st")
    case True
    then show ?thesis
      using that [of s] set_blocked [of st s c] assms by (simp add: blocked_def)
  next
    case False
    then show ?thesis
      using that [OF s'] set_status [OF s'] set_told [OF s'] set_live [OF s'] assms
      by (simp add: blocked_def announced_def)
  qed
qed

lemma run_total: "live s \<Longrightarrow> \<exists>s'. run cs s = Some s' \<and> live s'"
proof (induction cs arbitrary: s)
  case (Cons x cs)
  obtain c st where x: "x = (c, st)"
    by fastforce
  obtain t where t: "set c st s = Some t"
    using set_total [OF Cons.prems] by blast
  then show ?case
    using Cons set_live [OF t] x by simp
qed simp

text \<open>
  Clients are told no status twice in a row, and the last they were told is the status: \<open>x\<close> is
  what they assumed before the first message.
\<close>

lemma run_told:
  assumes "run cs s = Some s'" and "distinct_adj (x # told s)" and "last (x # told s) = status s"
  shows "distinct_adj (x # told s') \<and> last (x # told s') = status s'"
  using assms
proof (induction cs arbitrary: s)
  case (Cons y cs)
  obtain c st where y: "y = (c, st)"
    by fastforce
  obtain t where t: "set c st s = Some t" and rest: "run cs t = Some s'"
    using Cons.prems(1) y by (auto split: option.splits)
  show ?case
  proof (cases "blocked st (status s)")
    case True
    then show ?thesis
      using t rest Cons.IH [of s] Cons.prems set_blocked [of st s c] by simp
  next
    case False
    then have "distinct_adj ((x # told s) @ [st])"
      using Cons.prems(2,3) by (subst distinct_adj_append_iff) (simp add: blocked_def)
    then show ?thesis
      using Cons.IH [OF rest] set_told [OF t False] set_status [OF t False] by simp
  qed
qed simp

lemma run_exited:
  "status s = Exited \<Longrightarrow> \<forall>c \<in> List.set cs. snd c = Idle \<or> snd c = Busy \<Longrightarrow> run cs s = Some s"
  by (induction cs) (auto simp: set_blocked blocked_def)

end

end
