(* ===== verification/KC_Clip.thy ===== *)
theory KC_Clip
  imports KC_Prelude
begin

text \<open>
  The text clipping of \<open>execution_history.rs\<close> (\<open>struct Clip\<close>): a buffer that keeps the first
  half and the most recent half of what it is given and counts the bytes it drops between
  them. Strings are bytes, so cutting must respect UTF-8 character boundaries.
\<close>

section \<open>Character boundaries\<close>

text \<open>Continuation bytes of UTF-8 are \<open>0x80..0xBF\<close>.\<close>

definition is_cont :: "char \<Rightarrow> bool" where
  "is_cont c \<longleftrightarrow> 128 \<le> (of_char c :: nat) \<and> (of_char c :: nat) < 192"

text \<open>\<open>str::is_char_boundary\<close>.\<close>

definition is_char_boundary :: "string \<Rightarrow> nat \<Rightarrow> bool" where
  "is_char_boundary t i =
     (if i = 0 then True else if i \<ge> length t then i = length t else \<not> is_cont (t ! i))"

fun floor_from :: "string \<Rightarrow> nat \<Rightarrow> nat" where
  "floor_from t i = (if is_char_boundary t i then i else case i of 0 \<Rightarrow> 0 | Suc j \<Rightarrow> floor_from t j)"

definition floor_boundary :: "string \<Rightarrow> nat \<Rightarrow> nat" where
  "floor_boundary t index = floor_from t (min index (length t))"

text \<open>The loop is entered at most at \<open>length t\<close>, where it stops.\<close>

function ceil_from :: "string \<Rightarrow> nat \<Rightarrow> nat" where
  "ceil_from t i = (if is_char_boundary t i \<or> length t < i then i else ceil_from t (Suc i))"
  by pat_completeness auto
termination
  by (relation "measure (\<lambda>(t, i). Suc (length t) - i)") auto

definition ceil_boundary :: "string \<Rightarrow> nat \<Rightarrow> nat" where
  "ceil_boundary t index = ceil_from t (min index (length t))"

declare floor_from.simps [simp del] ceil_from.simps [simp del]

text \<open>
  What every Rust string satisfies and the cuts rely on: it starts with the first byte of a
  character, and a character has at most three continuation bytes.
\<close>

fun utf8_from :: "nat \<Rightarrow> string \<Rightarrow> bool" where
  "utf8_from k [] = True"
| "utf8_from k (b # bs) =
     (if is_cont b then (case k of 0 \<Rightarrow> False | Suc j \<Rightarrow> utf8_from j bs) else utf8_from 3 bs)"

definition str_ok :: "string \<Rightarrow> bool" where
  "str_ok s = utf8_from 0 s"

section \<open>Clip\<close>

record clip =
  clip_max :: nat
  clip_head :: string
  clip_tail :: string
  omitted :: nat

definition clip_new :: "nat \<Rightarrow> clip" where
  "clip_new mx = \<lparr>clip_max = mx, clip_head = [], clip_tail = [], omitted = 0\<rparr>"

definition clip_push :: "string \<Rightarrow> clip \<Rightarrow> clip" where
  "clip_push tx c =
     (let half = clip_max c div 2;
          (c, tx) =
            (if clip_tail c = [] then
               let e = floor_boundary tx (half - length (clip_head c))
               in (c\<lparr>clip_head := clip_head c @ take e tx\<rparr>, drop e tx)
             else (c, tx))
      in if length tx \<ge> half then
           let start = ceil_boundary tx (length tx - half)
           in c\<lparr>omitted := omitted c + (length (clip_tail c) + start), clip_tail := drop start tx\<rparr>
         else
           let t = clip_tail c @ tx
           in if length t > half then
                let start = ceil_boundary t (length t - half)
                in c\<lparr>omitted := omitted c + start, clip_tail := drop start t\<rparr>
              else c\<lparr>clip_tail := t\<rparr>)"

definition clip_from :: "nat \<Rightarrow> string \<Rightarrow> clip" where
  "clip_from mx tx = clip_push tx (clip_new mx)"

definition clip_len :: "clip \<Rightarrow> nat" where
  "clip_len c = length (clip_head c) + length (clip_tail c)"

definition truncated :: "clip \<Rightarrow> bool" where
  "truncated c \<longleftrightarrow> omitted c > 0"

definition clip_to_string :: "clip \<Rightarrow> string" where
  "clip_to_string c =
     clip_head c @
     (if truncated c then nl @ ''[... '' @ show_nat (omitted c) @ '' bytes omitted ...]'' @ nl else []) @
     clip_tail c"

text \<open>The clip's contents against the whole text it was given.\<close>

definition clip_ok :: "string \<Rightarrow> clip \<Rightarrow> bool" where
  "clip_ok whole c \<longleftrightarrow>
     (\<exists>mid. whole = clip_head c @ mid @ clip_tail c \<and> length mid = omitted c) \<and>
     length (clip_head c) \<le> clip_max c div 2 \<and> length (clip_tail c) \<le> clip_max c div 2 \<and>
     (clip_tail c = [] \<longrightarrow> omitted c = 0) \<and> str_ok (clip_head c) \<and> str_ok (clip_tail c)"

section \<open>Cuts\<close>

lemma floor_from_spec:
  "is_char_boundary t (floor_from t i) \<and> floor_from t i \<le> i"
proof (induction i)
  case 0
  then show ?case
    by (subst (1 2) floor_from.simps) (simp add: is_char_boundary_def)
next
  case (Suc i)
  then show ?case
    by (subst (1 2) floor_from.simps) auto
qed

lemma floor_boundary_spec:
  "is_char_boundary t (floor_boundary t i) \<and> floor_boundary t i \<le> i \<and> floor_boundary t i \<le> length t"
  using floor_from_spec [of t "min i (length t)"] by (simp add: floor_boundary_def)

lemma ceil_from_spec:
  "i \<le> length t \<Longrightarrow>
     is_char_boundary t (ceil_from t i) \<and> i \<le> ceil_from t i \<and> ceil_from t i \<le> length t \<and>
     (\<forall>j. i \<le> j \<and> is_char_boundary t j \<longrightarrow> ceil_from t i \<le> j)"
proof (induction t i rule: ceil_from.induct)
  case (1 t i)
  show ?case
  proof (cases "is_char_boundary t i")
    case True
    then show ?thesis
      using "1.prems" by (simp add: ceil_from.simps [of t i])
  next
    case False
    then have lt: "i < length t"
      using "1.prems" by (cases "i = length t") (auto simp: is_char_boundary_def split: if_splits)
    have eq: "ceil_from t i = ceil_from t (Suc i)"
      using False lt by (simp add: ceil_from.simps [of t i])
    have IH: "is_char_boundary t (ceil_from t (Suc i)) \<and> Suc i \<le> ceil_from t (Suc i) \<and>
        ceil_from t (Suc i) \<le> length t \<and>
        (\<forall>j. Suc i \<le> j \<and> is_char_boundary t j \<longrightarrow> ceil_from t (Suc i) \<le> j)"
      using "1.IH" False lt by simp
    have "ceil_from t (Suc i) \<le> j" if "i \<le> j" "is_char_boundary t j" for j
      using IH that False by (cases "i = j") auto
    then show ?thesis
      using IH eq by auto
  qed
qed

lemma ceil_boundary_spec:
  "i \<le> length t \<Longrightarrow>
     is_char_boundary t (ceil_boundary t i) \<and> i \<le> ceil_boundary t i \<and> ceil_boundary t i \<le> length t \<and>
     (\<forall>j. i \<le> j \<and> is_char_boundary t j \<longrightarrow> ceil_boundary t i \<le> j)"
  using ceil_from_spec [of i t] by (simp add: ceil_boundary_def min_def)

section \<open>Valid strings are closed under the cuts\<close>

lemma utf8_from_append: "utf8_from k a \<Longrightarrow> utf8_from 0 b \<Longrightarrow> utf8_from k (a @ b)"
proof (induction a arbitrary: k)
  case Nil
  then show ?case
    by (cases b) (auto split: if_splits nat.splits)
qed (auto split: if_splits nat.splits)

lemma utf8_from_take: "utf8_from k s \<Longrightarrow> utf8_from k (take i s)"
  by (induction k s arbitrary: i rule: utf8_from.induct)
     (auto simp: take_Cons split: if_splits nat.splits)

lemma utf8_from_drop: "utf8_from k s \<Longrightarrow> k \<le> 3 \<Longrightarrow> \<exists>j \<le> 3. utf8_from j (drop i s)"
proof (induction k s arbitrary: i rule: utf8_from.induct)
  case (1 k)
  then show ?case by auto
next
  case (2 k b bs)
  show ?case
  proof (cases i)
    case 0
    with "2.prems" show ?thesis by (intro exI [of _ k]) simp
  next
    case (Suc i')
    show ?thesis
    proof (cases "is_cont b")
      case True
      with "2.prems" obtain j where j: "k = Suc j" "utf8_from j bs"
        by (auto split: nat.splits)
      with "2.IH"(1) [OF True, of j i'] "2.prems" Suc show ?thesis by auto
    next
      case False
      with "2.IH"(2) [of i'] "2.prems" Suc show ?thesis by auto
    qed
  qed
qed

lemma str_ok_append: "str_ok a \<Longrightarrow> str_ok b \<Longrightarrow> str_ok (a @ b)"
  by (simp add: str_ok_def utf8_from_append)

lemma str_ok_Nil [simp]: "str_ok []"
  by (simp add: str_ok_def)

lemma str_ok_join: "str_ok sep \<Longrightarrow> \<forall>x \<in> set xs. str_ok x \<Longrightarrow> str_ok (join_with sep xs)"
  by (induction sep xs rule: join_with.induct) (auto intro!: str_ok_append)

lemma str_ok_take: "str_ok s \<Longrightarrow> str_ok (take i s)"
  by (simp add: str_ok_def utf8_from_take)

lemma str_ok_drop: "str_ok s \<Longrightarrow> is_char_boundary s i \<Longrightarrow> str_ok (drop i s)"
proof -
  assume ok: "str_ok s" and bd: "is_char_boundary s i"
  show "str_ok (drop i s)"
  proof (cases "i = 0 \<or> length s \<le> i")
    case True
    then show ?thesis
      using ok by (auto simp: str_ok_def)
  next
    case False
    then have hd: "drop i s = s ! i # drop (Suc i) s" and nc: "\<not> is_cont (s ! i)"
      using bd by (simp_all add: Cons_nth_drop_Suc is_char_boundary_def split: if_splits)
    obtain j where "utf8_from j (drop i s)"
      using utf8_from_drop [of 0 s i] ok by (auto simp: str_ok_def)
    then show ?thesis
      using hd nc by (simp add: str_ok_def)
  qed
qed

lemma length_4_conv: "length xs = 4 \<Longrightarrow> \<exists>a b c d. xs = [a, b, c, d]"
  by (auto simp: numeral_eq_Suc length_Suc_conv)

text \<open>Among the last four bytes of a valid string one starts a character.\<close>

lemma boundary_near_end:
  assumes ok: "str_ok s" and n: "4 \<le> n" and len: "n \<le> length s"
  shows "\<exists>i. length s - n \<le> i \<and> i < length s \<and> is_char_boundary s i"
proof (rule ccontr)
  assume none: "\<not> ?thesis"
  obtain j where j: "j \<le> 3" "utf8_from j (drop (length s - 4) s)"
    using utf8_from_drop [of 0 s "length s - 4"] ok by (auto simp: str_ok_def)
  let ?d = "drop (length s - 4) s"
  have cont: "is_cont (?d ! k)" if "k < 4" for k
  proof -
    have "\<not> is_char_boundary s (length s - 4 + k)"
      using none that n len by auto
    then show ?thesis
      using that n len by (auto simp: is_char_boundary_def split: if_splits)
  qed
  have len4: "length ?d = 4"
    using n len by simp
  obtain a b c d where d: "?d = [a, b, c, d]"
    using length_4_conv [OF len4] by blast
  have "is_cont a" "is_cont b" "is_cont c" "is_cont d"
    using cont [of 0] cont [of 1] cont [of 2] cont [of 3] d by (simp_all add: numeral_3_eq_3)
  then show False
    using j d by (auto split: nat.splits)
qed

lemma ceil_boundary_less:
  assumes "str_ok s" and "4 \<le> n" and "n \<le> length s"
  shows "ceil_boundary s (length s - n) < length s"
proof -
  obtain i where "length s - n \<le> i" "i < length s" "is_char_boundary s i"
    using boundary_near_end [OF assms] by blast
  then show ?thesis
    using ceil_boundary_spec [of "length s - n" s] by fastforce
qed

section \<open>Pushing keeps the invariant\<close>

lemma clip_ok_new: "clip_ok [] (clip_new mx)"
  by (simp add: clip_ok_def clip_new_def str_ok_def)

text \<open>The two ways a push ends, on the text left over once the head is full.\<close>

lemma clip_ok_replace_tail:
  assumes ok: "clip_ok w c" and half: "4 \<le> clip_max c div 2"
    and valid: "str_ok tx" and long: "clip_max c div 2 \<le> length tx"
  defines "start \<equiv> ceil_boundary tx (length tx - clip_max c div 2)"
  shows "clip_ok (w @ tx)
    (c\<lparr>omitted := omitted c + (length (clip_tail c) + start), clip_tail := drop start tx\<rparr>)"
proof -
  obtain mid where mid: "w = clip_head c @ mid @ clip_tail c" "length mid = omitted c"
    using ok by (auto simp: clip_ok_def)
  have st: "is_char_boundary tx start" "length tx - clip_max c div 2 \<le> start" "start \<le> length tx"
    using ceil_boundary_spec [of "length tx - clip_max c div 2" tx] by (simp_all add: start_def)
  have lt: "start < length tx"
    using ceil_boundary_less [OF valid half long] by (simp add: start_def)
  have "w @ tx = clip_head c @ (mid @ clip_tail c @ take start tx) @ drop start tx"
    using mid by simp
  moreover have "length (mid @ clip_tail c @ take start tx) = omitted c + (length (clip_tail c) + start)"
    using mid st by simp
  ultimately have "\<exists>m. w @ tx = clip_head c @ m @ drop start tx \<and>
      length m = omitted c + (length (clip_tail c) + start)"
    by blast
  then show ?thesis
    using ok st lt str_ok_drop [OF valid st(1)] by (auto simp: clip_ok_def)
qed

lemma clip_ok_extend_tail:
  assumes ok: "clip_ok w c" and half: "4 \<le> clip_max c div 2" and valid: "str_ok tx"
  defines "t \<equiv> clip_tail c @ tx"
  defines "start \<equiv> ceil_boundary t (length t - clip_max c div 2)"
  shows "clip_ok (w @ tx)
    (if length t > clip_max c div 2
     then c\<lparr>omitted := omitted c + start, clip_tail := drop start t\<rparr> else c\<lparr>clip_tail := t\<rparr>)"
proof -
  obtain mid where mid: "w = clip_head c @ mid @ clip_tail c" "length mid = omitted c"
    using ok by (auto simp: clip_ok_def)
  have t: "str_ok t" "w @ tx = clip_head c @ mid @ t"
    using ok valid mid by (simp_all add: t_def clip_ok_def str_ok_append)
  show ?thesis
  proof (cases "length t > clip_max c div 2")
    case True
    have st: "is_char_boundary t start" "length t - clip_max c div 2 \<le> start" "start \<le> length t"
      using ceil_boundary_spec [of "length t - clip_max c div 2" t] by (simp_all add: start_def)
    have lt: "start < length t"
      using ceil_boundary_less [OF t(1) half] True by (simp add: start_def)
    have "w @ tx = clip_head c @ (mid @ take start t) @ drop start t"
      using t(2) by simp
    moreover have "length (mid @ take start t) = omitted c + start"
      using mid st by simp
    ultimately have "\<exists>m. w @ tx = clip_head c @ m @ drop start t \<and> length m = omitted c + start"
      by blast
    then show ?thesis
      using ok st lt True str_ok_drop [OF t(1) st(1)] by (auto simp: clip_ok_def)
  next
    case False
    then show ?thesis
      using ok t mid by (auto simp: clip_ok_def t_def)
  qed
qed

lemma clip_ok_fill_head:
  assumes ok: "clip_ok w c" and empty: "clip_tail c = []" and valid: "str_ok tx"
  defines "e \<equiv> floor_boundary tx (clip_max c div 2 - length (clip_head c))"
  shows "clip_ok (w @ take e tx) (c\<lparr>clip_head := clip_head c @ take e tx\<rparr>)"
    and "str_ok (drop e tx)"
proof -
  have e: "is_char_boundary tx e" "e \<le> clip_max c div 2 - length (clip_head c)" "e \<le> length tx"
    using floor_boundary_spec [of tx "clip_max c div 2 - length (clip_head c)"] by (simp_all add: e_def)
  show "str_ok (drop e tx)"
    by (rule str_ok_drop [OF valid e(1)])
  have "w = clip_head c"
    using ok empty by (auto simp: clip_ok_def)
  then show "clip_ok (w @ take e tx) (c\<lparr>clip_head := clip_head c @ take e tx\<rparr>)"
    using ok empty e str_ok_take [OF valid, of e] str_ok_append by (auto simp: clip_ok_def)
qed

definition push_rest :: "string \<Rightarrow> clip \<Rightarrow> clip" where
  "push_rest tx c =
     (if length tx \<ge> clip_max c div 2 then
        let start = ceil_boundary tx (length tx - clip_max c div 2)
        in c\<lparr>omitted := omitted c + (length (clip_tail c) + start), clip_tail := drop start tx\<rparr>
      else
        let t = clip_tail c @ tx
        in if length t > clip_max c div 2 then
             let start = ceil_boundary t (length t - clip_max c div 2)
             in c\<lparr>omitted := omitted c + start, clip_tail := drop start t\<rparr>
           else c\<lparr>clip_tail := t\<rparr>)"

lemma clip_push_eq:
  "clip_push tx c =
     (if clip_tail c = [] then
        let e = floor_boundary tx (clip_max c div 2 - length (clip_head c))
        in push_rest (drop e tx) (c\<lparr>clip_head := clip_head c @ take e tx\<rparr>)
      else push_rest tx c)"
  by (simp add: clip_push_def push_rest_def Let_def)

lemma push_rest_ok:
  "clip_ok w c \<Longrightarrow> 4 \<le> clip_max c div 2 \<Longrightarrow> str_ok tx \<Longrightarrow> clip_ok (w @ tx) (push_rest tx c)"
  using clip_ok_replace_tail [of w c tx] clip_ok_extend_tail [of w c tx]
  by (auto simp: push_rest_def Let_def split: if_splits)

lemma clip_push_max [simp]: "clip_max (clip_push tx c) = clip_max c"
  by (simp add: clip_push_eq push_rest_def Let_def)

lemma clip_push_ok:
  assumes "clip_ok w c" and "8 \<le> clip_max c" and "str_ok tx"
  shows "clip_ok (w @ tx) (clip_push tx c)"
proof (cases "clip_tail c = []")
  case True
  let ?e = "floor_boundary tx (clip_max c div 2 - length (clip_head c))"
  have "clip_ok ((w @ take ?e tx) @ drop ?e tx)
          (push_rest (drop ?e tx) (c\<lparr>clip_head := clip_head c @ take ?e tx\<rparr>))"
    by (rule push_rest_ok)
       (use clip_ok_fill_head [OF assms(1) True assms(3)] assms(2) in simp_all)
  then show ?thesis
    using True by (simp add: clip_push_eq Let_def)
next
  case False
  then show ?thesis
    using push_rest_ok [OF assms(1) _ assms(3)] assms(2) by (simp add: clip_push_eq)
qed

lemma clip_pushes_ok:
  "clip_ok w c \<Longrightarrow> 8 \<le> clip_max c \<Longrightarrow> \<forall>t \<in> set ts. str_ok t \<Longrightarrow>
     clip_ok (w @ concat ts) (fold clip_push ts c)"
proof (induction ts arbitrary: w c)
  case (Cons t ts)
  have "clip_ok (w @ t) (clip_push t c)"
    using Cons.prems by (intro clip_push_ok) simp_all
  then have "clip_ok ((w @ t) @ concat ts) (fold clip_push ts (clip_push t c))"
    using Cons.prems by (intro Cons.IH) simp_all
  then show ?case by simp
qed simp

lemma clip_ok_len: "clip_ok w c \<Longrightarrow> clip_len c \<le> clip_max c"
  by (auto simp: clip_ok_def clip_len_def)

lemma clip_ok_untruncated: "clip_ok w c \<Longrightarrow> \<not> truncated c \<Longrightarrow> clip_to_string c = w"
  by (auto simp: clip_ok_def truncated_def clip_to_string_def)

section \<open>Properties\<close>

text \<open>
  Whatever pieces of valid text a clip is given, it holds a prefix and a suffix of their
  concatenation within its budget, and \<open>omitted\<close> is exactly the number of bytes between
  the two; when nothing was dropped it renders as the text itself.
\<close>

theorem clip_keeps_both_ends:
  assumes "8 \<le> mx" and "\<forall>t \<in> set ts. str_ok t"
  defines "c \<equiv> fold clip_push ts (clip_new mx)"
  shows "(\<exists>mid. concat ts = clip_head c @ mid @ clip_tail c \<and> length mid = omitted c) \<and>
     clip_len c \<le> mx \<and> (\<not> truncated c \<longrightarrow> clip_to_string c = concat ts)"
proof -
  have ok: "clip_ok (concat ts) c"
    using clip_pushes_ok [OF clip_ok_new, of mx ts] assms by (simp add: clip_new_def)
  have "clip_max c = mx"
  proof -
    have "clip_max (fold clip_push us d) = clip_max d" for us d
      by (induction us arbitrary: d) simp_all
    then show ?thesis
      by (simp add: c_def clip_new_def)
  qed
  then show ?thesis
    using ok clip_ok_len [OF ok] clip_ok_untruncated [OF ok] by (auto simp: clip_ok_def)
qed

lemma clip_sample:
  "fold clip_push [''abc'', ''def'', ''ghijkl'', ''mn''] (clip_new 8) =
     \<lparr>clip_max = 8, clip_head = ''abcd'', clip_tail = ''klmn'', omitted = 6\<rparr>"
  by code_simp

theorem clip_keeps_both_ends_witness:
  "\<exists>mid. concat [''abc'', ''def'', ''ghijkl'', ''mn''] = ''abcd'' @ mid @ ''klmn'' \<and> length mid = 6"
proof -
  have "\<forall>t \<in> set [''abc'', ''def'', ''ghijkl'', ''mn'']. str_ok t"
    by code_simp
  then show ?thesis
    using clip_keeps_both_ends [of 8 "[''abc'', ''def'', ''ghijkl'', ''mn'']"]
    by (simp add: clip_sample)
qed

end
