(* ===== verification/KC_History.thy ===== *)
theory KC_History
  imports KC_Machines KC_Clip
begin

text \<open>
  \<open>execution_history.rs\<close>: the bounded record of what a session has run. An entry is opened
  when an \<open>execute_request\<close> is sent to the kernel and filled by the messages whose parent it
  is; only the last \<open>MAX_ENTRIES\<close> entries are kept. The clock of \<open>begin\<close> is an argument.
\<close>

definition MAX_ENTRIES :: nat where "MAX_ENTRIES = 100"
definition RECENT_ENTRIES :: nat where "RECENT_ENTRIES = 3"
definition MAX_INPUT_BYTES :: nat where "MAX_INPUT_BYTES = 4 * 1024"
definition MAX_OUTPUT_BYTES :: nat where "MAX_OUTPUT_BYTES = 4 * 1024"
definition MAX_ERROR_BYTES :: nat where "MAX_ERROR_BYTES = 4 * 1024"
definition MAX_ERROR_NAME_BYTES :: nat where "MAX_ERROR_NAME_BYTES = 256"

record execution_error =
  err_name :: string
  err_message :: string
  err_traceback :: "string list"

record hentry =
  he_msg_id :: string
  he_input :: clip
  he_output :: clip
  he_error :: "execution_error option"
  he_error_truncated :: bool
  he_timestamp :: instant
  he_source :: "string option"
  he_agent :: "string option"

record history_entry_model =
  hm_input :: string
  hm_output :: string
  hm_error :: "execution_error option"
  hm_timestamp :: int
  hm_source :: "string option"
  hm_agent :: "string option"
  hm_truncated :: bool

type_synonym history = "hentry list"

text \<open>\<open>text(content, key)\<close>: a string field of a message's content, or the empty string.\<close>

definition text_field :: "json \<Rightarrow> string \<Rightarrow> string" where
  "text_field c k = (case as_str (json_index c k) of Some s \<Rightarrow> s | None \<Rightarrow> [])"

text \<open>The \<open>take_while\<close> over the reversed traceback, with its running budget.\<close>

fun take_lines :: "nat \<Rightarrow> string list \<Rightarrow> string list" where
  "take_lines budget [] = []"
| "take_lines budget (l # ls) =
     (if length l \<le> budget then l # take_lines (budget - length l) ls else [])"

definition traceback_lines :: "json \<Rightarrow> string list" where
  "traceback_lines c =
     (case as_array (json_index c ''traceback'') of
        Some vs \<Rightarrow> List.map_filter as_str vs | None \<Rightarrow> [])"

definition set_error :: "json \<Rightarrow> hentry \<Rightarrow> hentry" where
  "set_error c e =
     (let name = clip_from MAX_ERROR_NAME_BYTES (text_field c ''ename'');
          message = clip_from (MAX_ERROR_BYTES div 2) (text_field c ''evalue'');
          lines = traceback_lines c;
          budget = MAX_ERROR_BYTES - clip_len name - clip_len message;
          traceback = rev (take_lines budget (rev lines))
      in e\<lparr>he_error_truncated := truncated name \<or> truncated message \<or> length traceback < length lines,
           he_error := Some \<lparr>err_name = clip_to_string name, err_message = clip_to_string message,
                             err_traceback = traceback\<rparr>\<rparr>)"

definition history_begin :: "instant \<Rightarrow> jupyter_message \<Rightarrow> history \<Rightarrow> history" where
  "history_begin now request h =
     (let c = content request in
      if as_bool (json_index c ''silent'') = Some True then h
      else
        let attribution = json_index (metadata request) ''attribution'';
            h = (if length h = MAX_ENTRIES then tl h else h)
        in h @ [\<lparr>he_msg_id = msg_id (header request),
                  he_input = clip_from MAX_INPUT_BYTES (text_field c ''code''),
                  he_output = clip_new MAX_OUTPUT_BYTES,
                  he_error = None, he_error_truncated = False, he_timestamp = now,
                  he_source = as_str (json_index attribution ''source''),
                  he_agent = as_str (json_index attribution ''agent_name'')\<rparr>])"

text \<open>\<open>entries.iter_mut().rev().find(p)\<close>: the update goes to the last entry that matches.\<close>

fun update_first :: "('a \<Rightarrow> bool) \<Rightarrow> ('a \<Rightarrow> 'a) \<Rightarrow> 'a list \<Rightarrow> 'a list" where
  "update_first p f [] = []"
| "update_first p f (x # xs) = (if p x then f x # xs else x # update_first p f xs)"

definition update_last :: "('a \<Rightarrow> bool) \<Rightarrow> ('a \<Rightarrow> 'a) \<Rightarrow> 'a list \<Rightarrow> 'a list" where
  "update_last p f xs = rev (update_first p f (rev xs))"

definition push_output :: "string \<Rightarrow> hentry \<Rightarrow> hentry" where
  "push_output s e = e\<lparr>he_output := clip_push s (he_output e)\<rparr>"

text \<open>What one message does to its entry: the \<open>match\<close> of \<open>record\<close>.\<close>

definition record_entry :: "jupyter_message \<Rightarrow> hentry \<Rightarrow> hentry" where
  "record_entry m e =
     (let c = content m; t = msg_type (header m) in
      if t = ''stream'' then push_output (text_field c ''text'') e
      else if t = ''execute_result'' \<or> t = ''display_data'' then
        let data = json_index c ''data'' in
        push_output nl
          (case as_str (json_index data ''text/plain'') of
             Some plain \<Rightarrow> push_output plain e
           | None \<Rightarrow>
               let types = (case as_object data of Some kvs \<Rightarrow> map fst kvs | None \<Rightarrow> [])
               in push_output (''['' @ join_with '', '' types @ '']'') e)
      else if t = ''error'' then set_error c e
      else if t = ''execute_reply'' \<and> json_index c ''status'' = JString ''error'' \<and> he_error e = None
        then set_error c e
      else e)"

definition history_record :: "jupyter_message \<Rightarrow> history \<Rightarrow> history" where
  "history_record m h =
     (case parent_header m of
        None \<Rightarrow> h
      | Some p \<Rightarrow> update_last (\<lambda>e. he_msg_id e = msg_id p) (record_entry m) h)"

definition entry_to_model :: "hentry \<Rightarrow> history_entry_model" where
  "entry_to_model e =
     \<lparr>hm_input = clip_to_string (he_input e), hm_output = clip_to_string (he_output e),
      hm_error = he_error e, hm_timestamp = int (he_timestamp e), hm_source = he_source e,
      hm_agent = he_agent e,
      hm_truncated = truncated (he_input e) \<or> truncated (he_output e) \<or> he_error_truncated e\<rparr>"

definition history_entries :: "history \<Rightarrow> history_entry_model list" where
  "history_entries h = map entry_to_model h"

definition history_recent :: "nat \<Rightarrow> history \<Rightarrow> history_entry_model list" where
  "history_recent count h = map entry_to_model (drop (length h - count) h)"

text \<open>The calls the proxy makes on a history.\<close>

datatype history_event = Begin instant jupyter_message | Record jupyter_message

fun history_step :: "history_event \<Rightarrow> history \<Rightarrow> history" where
  "history_step (Begin now m) h = history_begin now m h"
| "history_step (Record m) h = history_record m h"

text \<open>The strings a message carries are valid, as every Rust string is.\<close>

fun json_strings_ok :: "json \<Rightarrow> bool" where
  "json_strings_ok (JString s) = str_ok s"
| "json_strings_ok (JArray vs) = list_all json_strings_ok vs"
| "json_strings_ok (JObject kvs) = list_all (\<lambda>kv. str_ok (fst kv) \<and> json_strings_ok (snd kv)) kvs"
| "json_strings_ok _ = True"

fun event_ok :: "history_event \<Rightarrow> bool" where
  "event_ok (Begin now m) = json_strings_ok (content m)"
| "event_ok (Record m) = json_strings_ok (content m)"

text \<open>The text an entry keeps of the code, of the output and of an error's traceback.\<close>

definition clip_sane :: "clip \<Rightarrow> bool" where
  "clip_sane c \<longleftrightarrow> (\<exists>w. clip_ok w c)"

definition entry_ok :: "hentry \<Rightarrow> bool" where
  "entry_ok e \<longleftrightarrow>
     clip_sane (he_input e) \<and> clip_max (he_input e) = MAX_INPUT_BYTES \<and>
     clip_sane (he_output e) \<and> clip_max (he_output e) = MAX_OUTPUT_BYTES \<and>
     (\<forall>er. he_error e = Some er \<longrightarrow> sum_list (map length (err_traceback er)) \<le> MAX_ERROR_BYTES)"

definition history_ok :: "history \<Rightarrow> bool" where
  "history_ok h \<longleftrightarrow> length h \<le> MAX_ENTRIES \<and> (\<forall>e \<in> set h. entry_ok e)"

lemmas history_consts =
  MAX_ENTRIES_def RECENT_ENTRIES_def MAX_INPUT_BYTES_def MAX_OUTPUT_BYTES_def MAX_ERROR_BYTES_def
  MAX_ERROR_NAME_BYTES_def

section \<open>Clips of valid text\<close>

lemma text_field_ok: "json_strings_ok c \<Longrightarrow> str_ok (text_field c k)"
proof (cases c)
  case (JObject kvs)
  assume "json_strings_ok c"
  then show ?thesis
    using JObject
    by (auto simp: text_field_def list_all_iff str_ok_def split: option.splits
        dest!: map_of_SomeD elim!: as_str.elims)
qed (simp_all add: text_field_def json_index_def str_ok_def)

lemma json_index_ok: "json_strings_ok c \<Longrightarrow> json_strings_ok (json_index c k)"
  by (cases c) (auto simp: json_index_def list_all_iff split: option.splits dest!: map_of_SomeD)

lemma as_str_ok: "json_strings_ok v \<Longrightarrow> as_str v = Some s \<Longrightarrow> str_ok s"
  by (cases v) auto

lemma clip_from_sane: "str_ok t \<Longrightarrow> 8 \<le> mx \<Longrightarrow> clip_sane (clip_from mx t) \<and> clip_max (clip_from mx t) = mx"
  using clip_push_ok [OF clip_ok_new, of mx t] by (auto simp: clip_sane_def clip_from_def clip_new_def)

lemma clip_new_sane: "clip_sane (clip_new mx) \<and> clip_max (clip_new mx) = mx"
  using clip_ok_new [of mx] by (auto simp: clip_sane_def clip_new_def)

lemma clip_push_sane: "clip_sane c \<Longrightarrow> 8 \<le> clip_max c \<Longrightarrow> str_ok t \<Longrightarrow> clip_sane (clip_push t c)"
  using clip_push_ok by (auto simp: clip_sane_def)

lemma clip_sane_len: "clip_sane c \<Longrightarrow> clip_len c \<le> clip_max c"
  using clip_ok_len by (auto simp: clip_sane_def)

section \<open>The traceback budget\<close>

lemma take_lines_prefix: "\<exists>rest. ls = take_lines b ls @ rest"
  by (induction b ls rule: take_lines.induct) auto

lemma take_lines_sum: "sum_list (map length (take_lines b ls)) \<le> b"
  by (induction b ls rule: take_lines.induct) auto

text \<open>The budget left for a traceback never underflows: name and message take at most 2304 bytes.\<close>

lemma error_budget:
  assumes "json_strings_ok c"
  shows "clip_len (clip_from MAX_ERROR_NAME_BYTES (text_field c ''ename'')) +
         clip_len (clip_from (MAX_ERROR_BYTES div 2) (text_field c ''evalue'')) \<le> MAX_ERROR_BYTES"
proof -
  have "clip_len (clip_from MAX_ERROR_NAME_BYTES (text_field c ''ename'')) \<le> MAX_ERROR_NAME_BYTES"
    using clip_from_sane [OF text_field_ok [OF assms], of MAX_ERROR_NAME_BYTES "''ename''"]
      clip_sane_len [of "clip_from MAX_ERROR_NAME_BYTES (text_field c ''ename'')"]
    by (simp add: history_consts)
  moreover have "clip_len (clip_from (MAX_ERROR_BYTES div 2) (text_field c ''evalue'')) \<le> MAX_ERROR_BYTES div 2"
    using clip_from_sane [OF text_field_ok [OF assms], of "MAX_ERROR_BYTES div 2" "''evalue''"]
      clip_sane_len [of "clip_from (MAX_ERROR_BYTES div 2) (text_field c ''evalue'')"]
    by (simp add: history_consts)
  ultimately show ?thesis
    by (simp add: history_consts)
qed

section \<open>Every call keeps the history within bounds\<close>

lemma set_update_first: "x \<in> set (update_first p f xs) \<Longrightarrow> x \<in> set xs \<or> (\<exists>y \<in> set xs. p y \<and> x = f y)"
  by (induction xs) (auto split: if_splits)

lemma set_update_last: "x \<in> set (update_last p f xs) \<Longrightarrow> x \<in> set xs \<or> (\<exists>y \<in> set xs. p y \<and> x = f y)"
  using set_update_first [of x p f "rev xs"] by (simp add: update_last_def)

lemma length_update_last [simp]: "length (update_last p f xs) = length xs"
proof -
  have "length (update_first p f ys) = length ys" for ys
    by (induction ys) simp_all
  then show ?thesis by (simp add: update_last_def)
qed

lemma entry_ok_set_error: "entry_ok e \<Longrightarrow> entry_ok (set_error c e)"
proof -
  assume e: "entry_ok e"
  have "sum_list (map length (rev (take_lines b ls))) \<le> MAX_ERROR_BYTES"
    if "b \<le> MAX_ERROR_BYTES" for b ls
    using take_lines_sum [of b ls] that by (simp add: rev_map [symmetric])
  then show ?thesis
    using e by (simp add: entry_ok_def set_error_def Let_def)
qed

lemma entry_ok_push_output: "entry_ok e \<Longrightarrow> str_ok t \<Longrightarrow> entry_ok (push_output t e)"
  by (auto simp: entry_ok_def push_output_def history_consts intro: clip_push_sane)

lemma str_ok_types: "json_strings_ok (JObject kvs) \<Longrightarrow> str_ok (''['' @ join_with '', '' (map fst kvs) @ '']'')"
proof -
  assume ok: "json_strings_ok (JObject kvs)"
  have ascii: "str_ok ''[''" "str_ok '']''" "str_ok '', ''"
    by code_simp+
  have "str_ok (join_with '', '' (map fst kvs))"
    using ok by (intro str_ok_join ascii) (auto simp: list_all_iff)
  then show ?thesis
    using ascii by (metis str_ok_append)
qed

lemma entry_ok_record:
  assumes "entry_ok e" and "json_strings_ok (content m)"
  shows "entry_ok (record_entry m e)"
proof -
  let ?data = "json_index (content m) ''data''"
  have data: "json_strings_ok ?data"
    by (rule json_index_ok [OF assms(2)])
  have nl: "str_ok nl" and none: "str_ok (''['' @ join_with '', '' [] @ '']'')"
    by code_simp+
  have plain: "str_ok s" if "as_str (json_index ?data k) = Some s" for s k
    using as_str_ok [OF json_index_ok [OF data] that] .
  have types: "str_ok (''['' @ join_with '', '' (case as_object ?data of Some kvs \<Rightarrow> map fst kvs | None \<Rightarrow> []) @ '']'')"
    using data none str_ok_types by (cases ?data) (simp_all del: join_with.simps)
  show ?thesis
    using assms data nl plain types text_field_ok [OF assms(2)]
    by (auto simp: record_entry_def Let_def split: option.splits
        intro!: entry_ok_push_output entry_ok_set_error)
qed

lemma history_ok_snoc: "history_ok h \<Longrightarrow> entry_ok e \<Longrightarrow> length h \<noteq> MAX_ENTRIES \<Longrightarrow> history_ok (h @ [e])"
  by (auto simp: history_ok_def)

lemma history_ok_rotate: "history_ok h \<Longrightarrow> entry_ok e \<Longrightarrow> length h = MAX_ENTRIES \<Longrightarrow> history_ok (tl h @ [e])"
  by (cases h) (auto simp: history_ok_def history_consts)

lemma history_ok_step: "history_ok h \<Longrightarrow> event_ok ev \<Longrightarrow> history_ok (history_step ev h)"
proof (cases ev)
  case (Begin now m)
  assume h: "history_ok h" and ev: "event_ok ev"
  have "clip_sane (clip_from MAX_INPUT_BYTES (text_field (content m) ''code'')) \<and>
        clip_max (clip_from MAX_INPUT_BYTES (text_field (content m) ''code'')) = MAX_INPUT_BYTES"
    using ev Begin clip_from_sane [OF text_field_ok] by (simp add: history_consts)
  then show ?thesis
    using Begin h clip_new_sane [of MAX_OUTPUT_BYTES]
    by (auto simp: history_begin_def Let_def entry_ok_def
        intro!: history_ok_snoc history_ok_rotate)
next
  case (Record m)
  assume h: "history_ok h" and ev: "event_ok ev"
  then show ?thesis
    using Record
    by (auto simp: history_ok_def history_record_def entry_ok_record split: option.splits
        dest!: set_update_last)
qed

interpretation hist: guarded_machine history_step event_ok history_ok
  by unfold_locales (rule history_ok_step)

section \<open>Properties\<close>

text \<open>
  However many requests run and however much they print, the history never holds more
  than 100 entries, and each keeps at most 4096 bytes of code, 4096 bytes of output and 4096
  bytes of traceback lines.
\<close>

theorem history_bounded:
  assumes "\<forall>ev \<in> set evs. event_ok ev"
  defines "h \<equiv> fold history_step evs []"
  shows "length h \<le> 100 \<and>
    (\<forall>e \<in> set h. clip_len (he_input e) \<le> 4096 \<and> clip_len (he_output e) \<le> 4096 \<and>
       (\<forall>er. he_error e = Some er \<longrightarrow> sum_list (map length (err_traceback er)) \<le> 4096))"
proof -
  have "history_ok h"
    using hist.run_inv [of "[]" evs] assms by (simp add: history_ok_def)
  then show ?thesis
    using clip_sane_len by (fastforce simp: history_ok_def entry_ok_def history_consts)
qed

theorem history_bounded_witness:
  "length (fold history_step [Begin 7 \<lparr>header = \<lparr>msg_id = ''a'', msg_type = ''execute_request''\<rparr>,
     parent_header = None, channel = Shell, content = JObject [(''code'', JString ''1 + 1'')],
     metadata = JNull, buffers = []\<rparr>] []) \<le> 100"
proof -
  let ?evs = "[Begin 7 \<lparr>header = \<lparr>msg_id = ''a'', msg_type = ''execute_request''\<rparr>,
     parent_header = None, channel = Shell, content = JObject [(''code'', JString ''1 + 1'')],
     metadata = JNull, buffers = []\<rparr>]"
  have "\<forall>ev \<in> set ?evs. event_ok ev"
    by code_simp
  then show ?thesis
    using history_bounded [of ?evs] by blast
qed

lemma length_history_begin:
  "as_bool (json_index (content m) ''silent'') \<noteq> Some True \<Longrightarrow> length h \<le> MAX_ENTRIES \<Longrightarrow>
     length (history_begin now m h) = min MAX_ENTRIES (Suc (length h))"
  by (auto simp: history_begin_def Let_def history_consts)

text \<open>
  Output reaches the entry of the request it belongs to: a message is recorded in the most
  recent entry whose request is its parent, and every other entry is left as it was. A message
  whose parent is not remembered, or that has none, changes nothing.
\<close>

theorem history_record_targets_parent:
  "history_record m (before @ e # later) =
     (case parent_header m of
        None \<Rightarrow> before @ e # later
      | Some p \<Rightarrow>
          if he_msg_id e = msg_id p \<and> (\<forall>x \<in> set later. he_msg_id x \<noteq> msg_id p)
          then before @ record_entry m e # later
          else if (\<exists>x \<in> set later. he_msg_id x = msg_id p)
          then before @ e # update_last (\<lambda>x. he_msg_id x = msg_id p) (record_entry m) later
          else update_last (\<lambda>x. he_msg_id x = msg_id p) (record_entry m) before @ e # later)"
proof -
  have none: "update_first q f xs = xs" if "\<forall>x \<in> set xs. \<not> q x" for q f and xs :: history
    using that by (induction xs) auto
  have skip: "update_first q f (xs @ ys) = xs @ update_first q f ys"
    if "\<forall>x \<in> set xs. \<not> q x" for q f and xs ys :: history
    using that by (induction xs) auto
  have hit: "update_first q f (xs @ ys) = update_first q f xs @ ys"
    if "\<exists>x \<in> set xs. q x" for q f and xs ys :: history
    using that by (induction xs) auto
  show ?thesis
    by (auto simp: history_record_def update_last_def none skip hit split: option.splits)
qed

definition sample_entry :: "string \<Rightarrow> hentry" where
  "sample_entry i = \<lparr>he_msg_id = i, he_input = clip_new MAX_INPUT_BYTES, he_output = clip_new MAX_OUTPUT_BYTES,
     he_error = None, he_error_truncated = False, he_timestamp = 0, he_source = None, he_agent = None\<rparr>"

definition sample_stream :: "string \<Rightarrow> string \<Rightarrow> jupyter_message" where
  "sample_stream parent out = \<lparr>header = \<lparr>msg_id = ''s'', msg_type = ''stream''\<rparr>,
     parent_header = Some \<lparr>msg_id = parent, msg_type = ''execute_request''\<rparr>, channel = IOPub,
     content = JObject [(''text'', JString out)], metadata = JNull, buffers = []\<rparr>"

theorem history_record_targets_parent_witness:
  "history_record (sample_stream ''a'' ''hi'') [sample_entry ''a'', sample_entry ''a'', sample_entry ''b''] =
     [sample_entry ''a'', record_entry (sample_stream ''a'' ''hi'') (sample_entry ''a''), sample_entry ''b'']"
  using history_record_targets_parent [of "sample_stream ''a'' ''hi''" "[sample_entry ''a'']" "sample_entry ''a''" "[sample_entry ''b'']"]
  by (simp add: sample_entry_def sample_stream_def)

end
