(* ===== verification/KC_State.thy ===== *)
theory KC_State
  imports KC_Queue KC_History KC_Machines
begin

text \<open>
  \<open>kernel_state.rs\<close>: the mutable state of a kernel session. Every method that takes
  \<open>&mut self\<close> is a function on the record. The clock (\<open>Instant::now\<close>) and the reading of a
  process's working directory (\<open>get_process_cwd\<close>, an operating system query) are arguments.
  The two \<open>send(..).await.unwrap()\<close> calls panic when the client channel has no receiver left:
  the operations that contain them return an option, with \<open>None\<close> for the panic.
\<close>

record connection_file =
  cf_info :: connection_info

record kernel_state =
  ks_session_id :: string
  ks_status :: status
  ks_connected :: bool
  ks_restarting :: bool
  ks_working_directory :: string
  ks_env_vars :: "var_action list"
  ks_resolved_env :: "string \<rightharpoonup> string"
  ks_process_id :: "nat option"
  ks_queue :: exec_queue
  ks_history :: history
  ks_input_prompt :: string
  ks_continuation_prompt :: string
  ks_idle_since :: "instant option"
  ks_busy_since :: "instant option"
  ks_idle_nudge_tx :: "nat option chan"
  ks_ws_json_tx :: "websocket_message chan"
  ks_connection_file :: "connection_file option"
  ks_client_socket_path :: "string option"
  ks_kernel_info :: "json option"
  ks_resource_usage :: "resource_usage option"
  ks_rpc_listeners :: "string \<rightharpoonup> jupyter_message chan"

definition state_new ::
  "instant \<Rightarrow> new_session \<Rightarrow> string \<Rightarrow> nat option chan \<Rightarrow> websocket_message chan \<Rightarrow> kernel_state" where
  "state_new now session working_directory idle_nudge_tx ws_json_tx =
     \<lparr>ks_session_id = ns_session_id session, ks_status = Idle, ks_connected = False,
      ks_restarting = False, ks_working_directory = working_directory,
      ks_env_vars = ns_env session, ks_resolved_env = Map.empty, ks_process_id = None,
      ks_queue = queue_new, ks_history = [], ks_input_prompt = ns_input_prompt session,
      ks_continuation_prompt = ns_continuation_prompt session, ks_idle_since = Some now,
      ks_busy_since = None, ks_idle_nudge_tx = idle_nudge_tx, ks_ws_json_tx = ws_json_tx,
      ks_connection_file = None, ks_client_socket_path = None, ks_kernel_info = None,
      ks_resource_usage = None, ks_rpc_listeners = Map.empty\<rparr>"

text \<open>A failed nudge is only logged.\<close>

definition nudge_idle :: "kernel_state \<Rightarrow> kernel_state" where
  "nudge_idle s = s\<lparr>ks_idle_nudge_tx := chan_try None (ks_idle_nudge_tx s)\<rparr>"

definition set_connected :: "bool \<Rightarrow> kernel_state \<Rightarrow> kernel_state" where
  "set_connected b s = nudge_idle (s\<lparr>ks_connected := b\<rparr>)"

definition set_client_socket_path :: "string option \<Rightarrow> kernel_state \<Rightarrow> kernel_state" where
  "set_client_socket_path p s = s\<lparr>ks_client_socket_path := p\<rparr>"

definition set_kernel_info :: "json \<Rightarrow> kernel_state \<Rightarrow> kernel_state" where
  "set_kernel_info v s = s\<lparr>ks_kernel_info := Some v\<rparr>"

definition ws_send :: "websocket_message \<Rightarrow> kernel_state \<Rightarrow> kernel_state option" where
  "ws_send m s = map_option (\<lambda>c. s\<lparr>ks_ws_json_tx := c\<rparr>) (chan_send m (ks_ws_json_tx s))"

definition poll_working_dir :: "(nat \<Rightarrow> string option) \<Rightarrow> kernel_state \<Rightarrow> kernel_state option" where
  "poll_working_dir cwd s =
     (case ks_process_id s of
        None \<Rightarrow> Some s
      | Some pid \<Rightarrow>
          (case cwd pid of
             None \<Rightarrow> Some s
           | Some dir \<Rightarrow>
               if dir \<noteq> ks_working_directory s then
                 (case ws_send (Kernel (WorkingDirChanged dir)) s of
                    None \<Rightarrow> None
                  | Some s \<Rightarrow> Some (s\<lparr>ks_working_directory := dir\<rparr>))
               else Some s))"

text \<open>The bookkeeping of \<open>set_status\<close> between the two guards and the notification.\<close>

definition enter_status :: "instant \<Rightarrow> status \<Rightarrow> kernel_state \<Rightarrow> kernel_state" where
  "enter_status now st s =
     (let s = s\<lparr>ks_status := st\<rparr>;
          s = (if st = Exited then s\<lparr>ks_queue := queue_clear (ks_queue s), ks_process_id := None\<rparr> else s);
          s = (if st = Idle \<or> st = Ready \<or> st = Exited
               then nudge_idle (s\<lparr>ks_idle_since := Some now\<rparr>) else s\<lparr>ks_idle_since := None\<rparr>)
      in if st = Busy then s\<lparr>ks_busy_since := Some now\<rparr> else s\<lparr>ks_busy_since := None\<rparr>)"

definition set_status ::
  "(nat \<Rightarrow> string option) \<Rightarrow> instant \<Rightarrow> status \<Rightarrow> string option \<Rightarrow> kernel_state \<Rightarrow> kernel_state option" where
  "set_status cwd now st reason s =
     (if ks_status s = st then Some s
      else if ks_status s = Exited \<and> (st = Idle \<or> st = Busy) then Some s
      else
        (case ws_send (Kernel (StatusMsg st reason)) (enter_status now st s) of
           None \<Rightarrow> None
         | Some s' \<Rightarrow>
             if st = Idle \<and> reason = Some ''execute_request'' then poll_working_dir cwd s' else Some s'))"

text \<open>A sequence of status changes, as the heartbeat, the proxy and the lifecycle code make them.\<close>

type_synonym status_call = "instant \<times> status \<times> string option"

fun set_statuses :: "(nat \<Rightarrow> string option) \<Rightarrow> status_call list \<Rightarrow> kernel_state \<Rightarrow> kernel_state option" where
  "set_statuses cwd [] s = Some s"
| "set_statuses cwd ((now, st, reason) # cs) s =
     (case set_status cwd now st reason s of None \<Rightarrow> None | Some s' \<Rightarrow> set_statuses cwd cs s')"

text \<open>The statuses a client has been told, in order.\<close>

fun status_stream :: "websocket_message list \<Rightarrow> status list" where
  "status_stream [] = []"
| "status_stream (Kernel (StatusMsg st r) # ms) = st # status_stream ms"
| "status_stream (m # ms) = status_stream ms"

text \<open>The timers agree with the status, and the queue is well-formed.\<close>

definition timers_ok :: "kernel_state \<Rightarrow> bool" where
  "timers_ok s \<longleftrightarrow>
     (ks_idle_since s \<noteq> None \<longleftrightarrow> ks_status s = Idle \<or> ks_status s = Ready \<or> ks_status s = Exited) \<and>
     (ks_busy_since s \<noteq> None \<longleftrightarrow> ks_status s = Busy)"

definition state_ok :: "kernel_state \<Rightarrow> bool" where
  "state_ok s \<longleftrightarrow> timers_ok s \<and> queue_ok (ks_queue s)"

text \<open>A session for the witnesses.\<close>

definition sample_session :: new_session where
  "sample_session = \<lparr>ns_session_id = ''s'', ns_display_name = ''S'', ns_language = ''l'', ns_username = ''u'', ns_input_prompt = [],
     ns_continuation_prompt = [], ns_argv = [''kernel''], ns_session_mode = Console, ns_working_directory = ''/'',
     ns_notebook_uri = None, ns_env = [],
     ns_connection_timeout = None, ns_interrupt_mode = SignalMode, ns_protocol_version = None,
     ns_startup_environment = EnvNone, ns_startup_environment_arg = None, ns_workspace_id = None\<rparr>"

definition sample_state :: kernel_state where
  "sample_state = state_new 0 sample_session ''/'' chan_new chan_new"

lemmas [state_simps] =
  nudge_idle_def set_connected_def set_client_socket_path_def set_kernel_info_def enter_status_def
  Let_def

section \<open>Sending and polling\<close>

lemma ws_send_Some [simp]:
  "(ws_send m s = Some s') =
     (ch_open (ks_ws_json_tx s) \<and>
      s' = s\<lparr>ks_ws_json_tx := (ks_ws_json_tx s)\<lparr>ch_buf := ch_buf (ks_ws_json_tx s) @ [m]\<rparr>\<rparr>)"
  by (auto simp: ws_send_def)

lemma ws_send_None [simp]: "(ws_send m s = None) = (\<not> ch_open (ks_ws_json_tx s))"
  by (simp add: ws_send_def)

lemma poll_working_dir_total:
  "ch_open (ks_ws_json_tx s) \<Longrightarrow> \<exists>s'. poll_working_dir cwd s = Some s'"
  by (auto simp: poll_working_dir_def ws_send_def chan_send_def split: option.splits)

lemma poll_working_dir_cases:
  assumes "poll_working_dir cwd s = Some s'"
  shows "s' = s \<or> (\<exists>d. s' = s\<lparr>ks_ws_json_tx := (ks_ws_json_tx s)\<lparr>ch_buf := ch_buf (ks_ws_json_tx s) @
                  [Kernel (WorkingDirChanged d)]\<rparr>, ks_working_directory := d\<rparr>)"
proof (cases "ks_process_id s")
  case (Some pid)
  then show ?thesis
    using assms by (cases "cwd pid") (auto simp: poll_working_dir_def split: if_splits option.splits)
qed (use assms in \<open>simp add: poll_working_dir_def\<close>)

lemma status_stream_append: "status_stream (xs @ ys) = status_stream xs @ status_stream ys"
  by (induction xs rule: status_stream.induct) simp_all

text \<open>What polling leaves alone.\<close>

lemma poll_working_dir_frame:
  assumes "poll_working_dir cwd s = Some s'"
  shows "ks_status s' = ks_status s \<and> ks_idle_since s' = ks_idle_since s \<and>
    ks_busy_since s' = ks_busy_since s \<and> ks_queue s' = ks_queue s \<and> ks_process_id s' = ks_process_id s \<and>
    ks_history s' = ks_history s \<and> ks_restarting s' = ks_restarting s \<and>
    ks_connected s' = ks_connected s \<and> ks_rpc_listeners s' = ks_rpc_listeners s \<and>
    ks_connection_file s' = ks_connection_file s \<and> ks_env_vars s' = ks_env_vars s \<and>
    ks_kernel_info s' = ks_kernel_info s \<and>
    ch_open (ks_ws_json_tx s') = ch_open (ks_ws_json_tx s) \<and>
    status_stream (ch_buf (ks_ws_json_tx s')) = status_stream (ch_buf (ks_ws_json_tx s))"
  using poll_working_dir_cases [OF assms] by (elim disjE exE) (simp_all add: status_stream_append)

section \<open>Status changes\<close>

abbreviation change_blocked :: "status \<Rightarrow> kernel_state \<Rightarrow> bool" where
  "change_blocked st s \<equiv> ks_status s = st \<or> ks_status s = Exited \<and> (st = Idle \<or> st = Busy)"

lemma enter_status_ws [simp]: "ks_ws_json_tx (enter_status now st s) = ks_ws_json_tx s"
  by (simp add: enter_status_def nudge_idle_def Let_def)

lemma set_status_blocked: "change_blocked st s \<Longrightarrow> set_status cwd now st reason s = Some s"
  by (auto simp: set_status_def)

lemma set_status_change:
  assumes "set_status cwd now st reason s = Some s'" and "\<not> change_blocked st s"
  shows "ks_status s' = st \<and>
    status_stream (ch_buf (ks_ws_json_tx s')) = status_stream (ch_buf (ks_ws_json_tx s)) @ [st] \<and>
    ks_idle_since s' = (if st = Idle \<or> st = Ready \<or> st = Exited then Some now else None) \<and>
    ks_busy_since s' = (if st = Busy then Some now else None) \<and>
    ks_queue s' = (if st = Exited then queue_clear (ks_queue s) else ks_queue s) \<and>
    ks_process_id s' = (if st = Exited then None else ks_process_id s) \<and>
    ks_restarting s' = ks_restarting s \<and> ks_history s' = ks_history s \<and>
    ks_rpc_listeners s' = ks_rpc_listeners s \<and> ch_open (ks_ws_json_tx s')"
  using assms
  by (auto simp: set_status_def enter_status_def nudge_idle_def Let_def status_stream_append
      split: option.splits if_splits dest!: poll_working_dir_frame)

lemma set_status_total:
  "ch_open (ks_ws_json_tx s) \<Longrightarrow> \<exists>s'. set_status cwd now st reason s = Some s'"
proof (cases "change_blocked st s")
  case True
  then show ?thesis
    using set_status_blocked [of s st] by blast
next
  case False
  assume op: "ch_open (ks_ws_json_tx s)"
  have "ch_open (ks_ws_json_tx (enter_status now st s))"
    using op by simp
  then obtain s' where s': "ws_send (Kernel (StatusMsg st reason)) (enter_status now st s) = Some s'"
      "ch_open (ks_ws_json_tx s')"
    by simp
  have "set_status cwd now st reason s =
      (if st = Idle \<and> reason = Some ''execute_request'' then poll_working_dir cwd s' else Some s')"
    using False s'(1) by (auto simp: set_status_def simp del: ws_send_Some)
  then show ?thesis
    using poll_working_dir_total [OF s'(2), of cwd] by auto
qed

lemma set_status_open:
  assumes "set_status cwd now st reason s = Some s'"
  shows "ch_open (ks_ws_json_tx s') = ch_open (ks_ws_json_tx s)"
proof (cases "change_blocked st s")
  case True
  then show ?thesis using assms set_status_blocked [of s st] by simp
next
  case False
  then have "ch_open (ks_ws_json_tx s)"
    using assms by (auto simp: set_status_def split: option.splits)
  then show ?thesis
    using set_status_change [OF assms False] by simp
qed

lemma set_status_ok: "state_ok s \<Longrightarrow> set_status cwd now st reason s = Some s' \<Longrightarrow> state_ok s'"
proof (cases "change_blocked st s")
  case True
  assume "state_ok s" and "set_status cwd now st reason s = Some s'"
  then show ?thesis using True set_status_blocked [of s st] by simp
next
  case False
  assume "state_ok s" and eq: "set_status cwd now st reason s = Some s'"
  then show ?thesis
    using set_status_change [OF eq False] by (auto simp: state_ok_def timers_ok_def queue_ok_clear)
qed

lemma state_new_ok: "state_ok (state_new now ns wd nudge ws)"
  by (simp add: state_ok_def timers_ok_def state_new_def queue_ok_new)

section \<open>Sequences of status changes\<close>

lemma set_statuses_ok: "state_ok s \<Longrightarrow> set_statuses cwd cs s = Some s' \<Longrightarrow> state_ok s'"
  by (induction cwd cs s rule: set_statuses.induct) (auto split: option.splits dest: set_status_ok)

text \<open>The kernel state provides the contract the tasks of a session rely on.\<close>

abbreviation told_client :: "kernel_state \<Rightarrow> status list" where
  "told_client s \<equiv> status_stream (ch_buf (ks_ws_json_tx s))"

interpretation ks: status_cell "\<lambda>(cwd, now, reason) st. set_status cwd now st reason" ks_status told_client
  "\<lambda>s. ch_open (ks_ws_json_tx s)"
  by unfold_locales
     (auto simp: blocked_def set_status_blocked set_status_total set_status_open dest: set_status_change)

lemma set_statuses_run:
  "set_statuses cwd cs s = ks.run (map (\<lambda>(now, st, reason). ((cwd, now, reason), st)) cs) s"
  by (induction cwd cs s rule: set_statuses.induct) (auto split: option.split)

section \<open>Properties\<close>

text \<open>
  The client's view of the status is exact: after any sequence of status changes on a new
  session, the statuses it was sent never repeat, and the last one (or the initial \<open>Idle\<close>) is
  the session's status. As long as the client channel has a receiver, every such sequence
  completes without a panic.
\<close>

theorem status_stream_exact:
  assumes "ch_open ws" and "ch_buf ws = []"
  shows "\<exists>s'. set_statuses cwd cs (state_new now ns wd nudge ws) = Some s' \<and>
    distinct_adj (Idle # status_stream (ch_buf (ks_ws_json_tx s'))) \<and>
    last (Idle # status_stream (ch_buf (ks_ws_json_tx s'))) = ks_status s'"
proof -
  let ?s = "state_new now ns wd nudge ws" and ?cs = "map (\<lambda>(now, st, reason). ((cwd, now, reason), st)) cs"
  obtain s' where s': "ks.run ?cs ?s = Some s'"
    using ks.run_total [of ?s ?cs] assms by (auto simp: state_new_def)
  then show ?thesis
    using ks.run_told [OF s', of Idle] assms by (simp add: set_statuses_run state_new_def)
qed

theorem status_stream_exact_witness:
  "\<exists>s'. set_statuses (\<lambda>_. None) [(1, Busy, None), (2, Busy, None), (3, Idle, None)] sample_state = Some s' \<and>
     distinct_adj (Idle # status_stream (ch_buf (ks_ws_json_tx s'))) \<and>
     last (Idle # status_stream (ch_buf (ks_ws_json_tx s'))) = ks_status s'"
  unfolding sample_state_def by (rule status_stream_exact) (simp_all add: chan_new_def)

text \<open>
  The timers always agree with the status: however the status changes from a new session,
  the idle clock runs exactly in the states \<open>Idle\<close>, \<open>Ready\<close> and \<open>Exited\<close>, the busy clock
  exactly in \<open>Busy\<close>, and so never both.
\<close>

theorem timers_follow_status:
  assumes "set_statuses cwd cs (state_new now ns wd nudge ws) = Some s'"
  shows "(ks_idle_since s' \<noteq> None) = (ks_status s' \<in> {Idle, Ready, Exited}) \<and>
         (ks_busy_since s' \<noteq> None) = (ks_status s' = Busy)"
  using set_statuses_ok [OF state_new_ok assms] by (auto simp: state_ok_def timers_ok_def)

theorem timers_follow_status_witness:
  "\<exists>s'. set_statuses (\<lambda>_. None) [(1, Busy, None)] sample_state = Some s' \<and>
     (ks_busy_since s' \<noteq> None) = (ks_status s' = Busy)"
proof -
  have "ch_open (ks_ws_json_tx sample_state)"
    by (simp add: sample_state_def state_new_def chan_new_def)
  then obtain s' where s': "set_statuses (\<lambda>_. None) [(1, Busy, None)] sample_state = Some s'"
    using ks.run_total [of sample_state] unfolding set_statuses_run by blast
  then show ?thesis
    using timers_follow_status [OF s' [unfolded sample_state_def]] by blast
qed

text \<open>
  An exited kernel is not resurrected by late messages: any number of \<open>idle\<close> and \<open>busy\<close>
  statuses arriving after the exit leave the whole session state unchanged.
\<close>

theorem exited_ignores_late_status:
  assumes "ks_status s = Exited" and "\<forall>c \<in> set cs. fst (snd c) = Idle \<or> fst (snd c) = Busy"
  shows "set_statuses cwd cs s = Some s"
  unfolding set_statuses_run using assms by (intro ks.run_exited) auto

theorem exited_ignores_late_status_witness:
  "set_statuses (\<lambda>_. None) [(1, Idle, Some ''shutdown_request''), (2, Busy, None)]
     (sample_state\<lparr>ks_status := Exited\<rparr>) = Some (sample_state\<lparr>ks_status := Exited\<rparr>)"
  by (rule exited_ignores_late_status) simp_all

text \<open>
  The guard is on \<open>Idle\<close> and \<open>Busy\<close> only, so a lost-heartbeat report that arrives after the
  exit moves an exited kernel to \<open>Offline\<close>, and from there the next heartbeat makes it \<open>Idle\<close>
  without a restart.
\<close>

theorem exited_revived_through_offline:
  assumes "ks_status s = Exited" and "ch_open (ks_ws_json_tx s)"
  shows "\<exists>s'. set_statuses cwd [(t1, Offline, Some ''lost heartbeat''),
     (t2, Idle, Some ''heartbeat detected after offline'')] s = Some s' \<and> ks_status s' = Idle"
proof -
  obtain s1 where s1: "set_status cwd t1 Offline (Some ''lost heartbeat'') s = Some s1"
    using set_status_total [OF assms(2)] by blast
  have off: "ks_status s1 = Offline" "ch_open (ks_ws_json_tx s1)"
    using set_status_change [OF s1] assms by simp_all
  obtain s2 where s2: "set_status cwd t2 Idle (Some ''heartbeat detected after offline'') s1 = Some s2"
    using set_status_total [OF off(2)] by blast
  have "ks_status s2 = Idle"
    using set_status_change [OF s2] off by simp
  then show ?thesis
    using s1 s2 by simp
qed

theorem exited_revived_through_offline_witness:
  "\<exists>s'. set_statuses (\<lambda>_. None) [(1, Offline, Some ''lost heartbeat''),
     (2, Idle, Some ''heartbeat detected after offline'')] (sample_state\<lparr>ks_status := Exited\<rparr>) = Some s' \<and>
     ks_status s' = Idle"
  by (rule exited_revived_through_offline) (simp_all add: sample_state_def state_new_def chan_new_def)

end
