(* ===== verification/KC_Wire.thy ===== *)
theory KC_Wire
  imports KC_Messages KC_Clip
begin

text \<open>
  \<open>wire_message.rs\<close>, \<open>wire_message_header.rs\<close> and \<open>kernel_connection.rs\<close>: the translation
  between Jupyter messages and the frames exchanged with a kernel over ZeroMQ, with the
  HMAC signature of the Jupyter wire protocol.

  JSON text, HMAC-SHA256, hexadecimal and Base64 are packages outside the repository. They
  are the fields of a \<open>codec\<close>, a parameter of every operation; nothing is assumed about a
  codec here, and each theorem states the documented behaviour it needs as a hypothesis. The
  clock of a header's date is an argument.
\<close>

record 'm codec =
  json_to_vec :: "json \<Rightarrow> string"
  json_from_slice :: "string \<Rightarrow> json option"
  mac_new :: "string \<Rightarrow> 'm option"
  mac_update :: "'m \<Rightarrow> string \<Rightarrow> 'm"
  mac_finalize :: "'m \<Rightarrow> string"
  hex_encode :: "string \<Rightarrow> string"
  b64_encode :: "string \<Rightarrow> string"
  b64_decode :: "string \<Rightarrow> string option"

section \<open>Kernel connections\<close>

record 'm kernel_connection =
  kc_session_id :: string
  kc_username :: string
  kc_key :: "string option"
  kc_protocol_version :: string
  kc_hmac_key :: "'m option"

text \<open>\<open>None\<close> is the \<open>InvalidLength\<close> error of \<open>new_from_slice\<close>.\<close>

definition from_session :: "'m codec \<Rightarrow> new_session \<Rightarrow> string \<Rightarrow> 'm kernel_connection option" where
  "from_session cd session key =
     (case mac_new cd key of
        None \<Rightarrow> None
      | Some k \<Rightarrow> Some
          \<lparr>kc_session_id = ns_session_id session, kc_username = ns_username session, kc_key = Some key,
           kc_protocol_version =
             (case ns_protocol_version session of Some v \<Rightarrow> v | None \<Rightarrow> ''5.3''),
           kc_hmac_key = Some k\<rparr>)"

definition with_key :: "'m codec \<Rightarrow> string \<Rightarrow> 'm kernel_connection \<Rightarrow> 'm kernel_connection option" where
  "with_key cd key c =
     (if key = [] then Some (c\<lparr>kc_key := None, kc_hmac_key := None\<rparr>)
      else
        (case mac_new cd key of
           None \<Rightarrow> None
         | Some k \<Rightarrow> Some (c\<lparr>kc_hmac_key := Some k, kc_key := Some key\<rparr>)))"

section \<open>Wire headers\<close>

record wire_header =
  wh_msg_id :: string
  wh_msg_type :: string
  wh_session :: string
  wh_username :: string
  wh_date :: string
  wh_version :: string

definition wire_header_new ::
  "string \<Rightarrow> jupyter_header \<Rightarrow> string \<Rightarrow> string \<Rightarrow> string \<Rightarrow> wire_header" where
  "wire_header_new date h session username protocol_version =
     \<lparr>wh_msg_id = msg_id h, wh_msg_type = msg_type h, wh_session = session, wh_username = username,
      wh_date = date, wh_version = protocol_version\<rparr>"

definition jupyter_header_from :: "wire_header \<Rightarrow> jupyter_header" where
  "jupyter_header_from h = \<lparr>msg_id = wh_msg_id h, msg_type = wh_msg_type h\<rparr>"

text \<open>The derived \<open>Serialize\<close> and \<open>Deserialize\<close> of a wire header.\<close>

definition wire_header_json :: "wire_header \<Rightarrow> json" where
  "wire_header_json h = JObject
     [(''msg_id'', JString (wh_msg_id h)), (''msg_type'', JString (wh_msg_type h)),
      (''session'', JString (wh_session h)), (''username'', JString (wh_username h)),
      (''date'', JString (wh_date h)), (''version'', JString (wh_version h))]"

definition parse_wire_header :: "json \<Rightarrow> wire_header option" where
  "parse_wire_header v =
     (case struct_fields [''msg_id'', ''msg_type'', ''session'', ''username'', ''date'', ''version''] v of
        Some fs \<Rightarrow>
          (case all_some (map as_str fs) of
             Some [i, t, s, u, d, w] \<Rightarrow>
               Some \<lparr>wh_msg_id = i, wh_msg_type = t, wh_session = s, wh_username = u,
                      wh_date = d, wh_version = w\<rparr>
           | _ \<Rightarrow> None)
      | None \<Rightarrow> None)"

section \<open>UTF-8\<close>

text \<open>
  \<open>str::from_utf8\<close> succeeds exactly on well-formed UTF-8: no overlong forms, no surrogates,
  nothing above U+10FFFF.
\<close>

definition in_range :: "nat \<Rightarrow> nat \<Rightarrow> char \<Rightarrow> bool" where
  "in_range lo hi c \<longleftrightarrow> lo \<le> (of_char c :: nat) \<and> (of_char c :: nat) \<le> hi"

fun utf8_valid :: "string \<Rightarrow> bool" where
  "utf8_valid [] = True"
| "utf8_valid (a # s) =
     (if in_range 0 0x7F a then utf8_valid s
      else (case s of
        [] \<Rightarrow> False
      | b # t \<Rightarrow>
          if in_range 0xC2 0xDF a then in_range 0x80 0xBF b \<and> utf8_valid t
          else (case t of
            [] \<Rightarrow> False
          | c # u \<Rightarrow>
              if in_range 0xE0 0xEF a then
                in_range (if a = CHR 0xE0 then 0xA0 else 0x80) (if a = CHR 0xED then 0x9F else 0xBF) b \<and>
                in_range 0x80 0xBF c \<and> utf8_valid u
              else (case u of
                [] \<Rightarrow> False
              | d # v \<Rightarrow>
                  in_range 0xF0 0xF4 a \<and>
                  in_range (if a = CHR 0xF0 then 0x90 else 0x80) (if a = CHR 0xF4 then 0x8F else 0xBF) b \<and>
                  in_range 0x80 0xBF c \<and> in_range 0x80 0xBF d \<and> utf8_valid v))))"

declare utf8_valid.simps [simp del]

section \<open>Wire messages\<close>

definition MSG_DELIM :: string where "MSG_DELIM = ''<IDS|MSG>''"

record wire_message =
  wm_session_id :: string
  wm_channel :: jupyter_channel
  wm_parts :: "string list"

type_synonym zmq_message = "string list"

datatype wire_error =
    NoDelimiter
  | NoSignature
  | InvalidSignatureEncoding
  | SignatureMismatch
  | Utf8Error
  | JsonError
  | HeaderError
  | Base64Error

text \<open>The signature loop: \<open>update\<close> with each part, then \<open>finalize\<close> and \<open>hex::encode\<close>.\<close>

definition sign :: "'m codec \<Rightarrow> 'm \<Rightarrow> string list \<Rightarrow> string" where
  "sign cd key ps = hex_encode cd (mac_finalize cd (fold (\<lambda>p k. mac_update cd k p) ps key))"

fun decode_buffers :: "'m codec \<Rightarrow> string list \<Rightarrow> (wire_error, string list) outcome" where
  "decode_buffers cd [] = Done []"
| "decode_buffers cd (b # bs) =
     obind (ok_or Base64Error (b64_decode cd b)) (\<lambda>d.
     obind (decode_buffers cd bs) (\<lambda>ds. Done (d # ds)))"

definition signed_parts :: "'m codec \<Rightarrow> string \<Rightarrow> jupyter_message \<Rightarrow> 'm kernel_connection \<Rightarrow> string list" where
  "signed_parts cd date m c =
     (let wire = (\<lambda>h. wire_header_json
            (wire_header_new date h (kc_session_id c) (kc_username c) (kc_protocol_version c))) in
      [json_to_vec cd (wire (header m)),
       (case parent_header m of
          Some p \<Rightarrow> json_to_vec cd (wire p)
        | None \<Rightarrow> json_to_vec cd (JObject [])),
       json_to_vec cd (metadata m),
       json_to_vec cd (content m)])"

definition from_jupyter ::
  "'m codec \<Rightarrow> string \<Rightarrow> jupyter_message \<Rightarrow> 'm kernel_connection \<Rightarrow> (wire_error, wire_message) outcome" where
  "from_jupyter cd date m c =
     (let parts = signed_parts cd date m c;
          signature = (case kc_hmac_key c of Some k \<Rightarrow> sign cd k parts | None \<Rightarrow> [])
      in obind (decode_buffers cd (buffers m)) (\<lambda>bufs.
         Done \<lparr>wm_session_id = kc_session_id c, wm_channel = channel m,
               wm_parts = signature # parts @ bufs\<rparr>))"

text \<open>The frames after the first delimiter: \<open>position\<close> and \<open>drain\<close>.\<close>

fun after_delim :: "string list \<Rightarrow> string list option" where
  "after_delim [] = None"
| "after_delim (p # ps) = (if p = MSG_DELIM then Some ps else after_delim ps)"

definition check_signature :: "'m codec \<Rightarrow> 'm option \<Rightarrow> string list \<Rightarrow> (wire_error, unit) outcome" where
  "check_signature cd hmac_key parts =
     (case hmac_key of
        None \<Rightarrow> Done ()
      | Some key \<Rightarrow>
          (case parts of
             [] \<Rightarrow> Fail NoSignature
           | signature # rest \<Rightarrow>
               if signature = [] then Done ()
               else if \<not> utf8_valid signature then Fail InvalidSignatureEncoding
               else if signature \<noteq> sign cd key (take 4 rest) then Fail SignatureMismatch
               else Done ()))"

definition parse_buffer :: "'m codec \<Rightarrow> string \<Rightarrow> (wire_error, json) outcome" where
  "parse_buffer cd buf =
     (if utf8_valid buf then ok_or JsonError (json_from_slice cd buf) else Fail Utf8Error)"

definition read_header :: "'m codec \<Rightarrow> string \<Rightarrow> (wire_error, jupyter_header) outcome" where
  "read_header cd buf =
     obind (parse_buffer cd buf) (\<lambda>v.
     obind (ok_or HeaderError (parse_wire_header v)) (\<lambda>h. Done (jupyter_header_from h)))"

definition to_jupyter ::
  "'m codec \<Rightarrow> jupyter_channel \<Rightarrow> 'm option \<Rightarrow> wire_message \<Rightarrow> (wire_error, jupyter_message) outcome" where
  "to_jupyter cd ch hmac_key w =
     obind (ok_or NoDelimiter (after_delim (wm_parts w))) (\<lambda>parts.
     obind (check_signature cd hmac_key parts) (\<lambda>_.
     obind (index_at parts 1) (\<lambda>p1.
     obind (read_header cd p1) (\<lambda>h.
     obind (index_at parts 2) (\<lambda>p2.
     obind (if length p2 < 5 then Done None
            else obind (read_header cd p2) (\<lambda>ph. Done (Some ph))) (\<lambda>parent.
     obind (index_at parts 3) (\<lambda>p3.
     obind (ok_or JsonError (json_from_slice cd p3)) (\<lambda>md.
     obind (index_at parts 4) (\<lambda>p4.
     obind (ok_or JsonError (json_from_slice cd p4)) (\<lambda>c.
     Done \<lparr>header = h, parent_header = parent, channel = ch, content = c, metadata = md,
           buffers = map (b64_encode cd) (drop 5 parts)\<rparr>))))))))))"

definition from_zmq :: "string \<Rightarrow> jupyter_channel \<Rightarrow> zmq_message \<Rightarrow> wire_message" where
  "from_zmq session_id ch frames = \<lparr>wm_session_id = session_id, wm_channel = ch, wm_parts = frames\<rparr>"

definition into_zmq :: "wire_message \<Rightarrow> zmq_message" where
  "into_zmq w =
     (case wm_channel w of
        Shell \<Rightarrow> [wm_session_id w, MSG_DELIM]
      | Stdin \<Rightarrow> [wm_session_id w, MSG_DELIM]
      | _ \<Rightarrow> [MSG_DELIM]) @ wm_parts w"

text \<open>The JSON values a message is sent as, in the order of the frames.\<close>

definition wire_value :: "string \<Rightarrow> 'm kernel_connection \<Rightarrow> jupyter_header \<Rightarrow> json" where
  "wire_value date c h = wire_header_json
     (wire_header_new date h (kc_session_id c) (kc_username c) (kc_protocol_version c))"

definition wire_values :: "string \<Rightarrow> jupyter_message \<Rightarrow> 'm kernel_connection \<Rightarrow> json list" where
  "wire_values date m c =
     [wire_value date c (header m),
      (case parent_header m of Some p \<Rightarrow> wire_value date c p | None \<Rightarrow> JObject []),
      metadata m, content m]"

text \<open>
  A codec for the witnesses: a table of JSON texts, a keyed digest that keeps the key and the
  data, hexadecimal digits, and buffers that stand for themselves.
\<close>

definition hex_digit :: "nat \<Rightarrow> char" where
  "hex_digit n = (if n < 10 then char_of (48 + n) else char_of (87 + n))"

definition hex_string :: "string \<Rightarrow> string" where
  "hex_string s = concat (map (\<lambda>c. [hex_digit (of_char c div 16), hex_digit (of_char c mod 16)]) s)"

definition table_codec :: "(json \<times> string) list \<Rightarrow> string codec" where
  "table_codec tab =
     \<lparr>json_to_vec = (\<lambda>v. case map_of tab v of Some s \<Rightarrow> s | None \<Rightarrow> ''{}''),
      json_from_slice = map_of (map (\<lambda>(v, s). (s, v)) tab @ [(''{}'', JObject [])]),
      mac_new = Some, mac_update = (@), mac_finalize = id, hex_encode = hex_string,
      b64_encode = id, b64_decode = Some\<rparr>"

definition sample_connection :: "string option \<Rightarrow> string kernel_connection" where
  "sample_connection key = \<lparr>kc_session_id = ''s'', kc_username = ''u'', kc_key = key,
     kc_protocol_version = ''5.3'', kc_hmac_key = key\<rparr>"

definition sample_message :: jupyter_message where
  "sample_message = \<lparr>header = \<lparr>msg_id = ''a'', msg_type = ''execute_request''\<rparr>,
     parent_header = Some \<lparr>msg_id = ''p'', msg_type = ''comm_msg''\<rparr>, channel = Shell,
     content = JObject [(''code'', JString ''1'')], metadata = JObject [], buffers = [''QUJD'']\<rparr>"

definition sample_codec :: "string codec" where
  "sample_codec = table_codec
     [(wire_value ''now'' (sample_connection (Some ''k'')) \<lparr>msg_id = ''a'', msg_type = ''execute_request''\<rparr>, ''{hdr}''),
      (wire_value ''now'' (sample_connection (Some ''k'')) \<lparr>msg_id = ''p'', msg_type = ''comm_msg''\<rparr>, ''{parent}''),
      (JObject [(''code'', JString ''1'')], ''{code}'')]"

section \<open>Lemmas\<close>

lemma signed_parts_values: "signed_parts cd date m c = map (json_to_vec cd) (wire_values date m c)"
  by (simp add: signed_parts_def wire_values_def wire_value_def Let_def split: option.splits)

lemma utf8_valid_ascii: "\<forall>c \<in> set s. (of_char c :: nat) < 128 \<Longrightarrow> utf8_valid s"
  by (induction s) (auto simp: utf8_valid.simps in_range_def)

lemma hex_digit_ascii: "n < 16 \<Longrightarrow> (of_char (hex_digit n) :: nat) < 128"
  by (simp add: hex_digit_def of_char_of)

lemma hex_string_utf8: "utf8_valid (hex_string s)"
proof (rule utf8_valid_ascii)
  have "(of_char c :: nat) div 16 < 16" for c :: char
    using nat_of_char_less_256 [of c] by (simp add: less_mult_imp_div_less)
  then show "\<forall>c \<in> set (hex_string s). (of_char c :: nat) < 128"
    by (auto simp: hex_string_def intro!: hex_digit_ascii)
qed

lemma parse_wire_header_json [simp]: "parse_wire_header (wire_header_json h) = Some h"
  by (simp add: parse_wire_header_def wire_header_json_def)

lemma jupyter_header_from_new [simp]: "jupyter_header_from (wire_header_new d h s u v) = h"
  by (simp add: jupyter_header_from_def wire_header_new_def)

lemma read_header_roundtrip:
  assumes "json_from_slice cd (json_to_vec cd (wire_value date c h)) = Some (wire_value date c h)"
    and "utf8_valid (json_to_vec cd (wire_value date c h))"
  shows "read_header cd (json_to_vec cd (wire_value date c h)) = Done h"
  using assms by (simp add: read_header_def parse_buffer_def wire_value_def)

lemma decode_buffers_Done:
  "\<forall>b \<in> set bs. b64_decode cd b = Some (f b) \<Longrightarrow> decode_buffers cd bs = Done (map f bs)"
  by (induction bs) auto

lemma decode_buffers_total: "decode_buffers cd bs \<noteq> Panic"
  by (induction bs) auto

lemma after_delim_into_zmq:
  "wm_session_id w \<noteq> MSG_DELIM \<Longrightarrow> after_delim (into_zmq w) = Some (wm_parts w)"
  by (cases "wm_channel w") (simp_all add: into_zmq_def)

lemma after_delim_Some:
  "after_delim ps = Some qs \<Longrightarrow> \<exists>ids. ps = ids @ MSG_DELIM # qs \<and> MSG_DELIM \<notin> set ids"
proof (induction ps)
  case (Cons p ps)
  show ?case
  proof (cases "p = MSG_DELIM")
    case True
    then show ?thesis using Cons.prems by (intro exI [of _ "[]"]) simp
  next
    case False
    then obtain ids where "ps = ids @ MSG_DELIM # qs" "MSG_DELIM \<notin> set ids"
      using Cons by auto
    then show ?thesis using False by (intro exI [of _ "p # ids"]) simp
  qed
qed simp

lemma check_signature_total [simp]: "check_signature cd k ps \<noteq> Panic"
  by (auto simp: check_signature_def split: option.splits list.splits)

lemma read_header_total [simp]: "read_header cd b \<noteq> Panic"
  by (auto simp: read_header_def parse_buffer_def split: if_splits)

text \<open>Reading back a message whose five frames are in order.\<close>

lemma to_jupyter_frames:
  assumes "after_delim (wm_parts w) = Some (sig # p1 # p2 # p3 # p4 # bufs)"
    and "check_signature cd k (sig # p1 # p2 # p3 # p4 # bufs) = Done ()"
    and "read_header cd p1 = Done h"
    and "case parent of None \<Rightarrow> length p2 < 5 | Some ph \<Rightarrow> 5 \<le> length p2 \<and> read_header cd p2 = Done ph"
    and "json_from_slice cd p3 = Some md" and "json_from_slice cd p4 = Some c"
  shows "to_jupyter cd ch k w = Done \<lparr>header = h, parent_header = parent, channel = ch, content = c,
           metadata = md, buffers = map (b64_encode cd) bufs\<rparr>"
proof -
  have parent: "(if length p2 < 5 then Done None
            else obind (read_header cd p2) (\<lambda>ph. Done (Some ph))) = Done parent"
    using assms(4) by (simp split: option.splits)
  show ?thesis
    using assms(1,2,3,5,6) by (simp del: obind_Done add: to_jupyter_def parent)
qed

lemma wire_trip:
  assumes json: "\<forall>v \<in> set (wire_values date m c).
      json_from_slice cd (json_to_vec cd v) = Some v \<and> utf8_valid (json_to_vec cd v)"
    and empty: "json_to_vec cd (JObject []) = ''{}''"
    and parent: "\<forall>p. parent_header m = Some p \<longrightarrow> 5 \<le> length (json_to_vec cd (wire_value date c p))"
    and hex: "\<forall>x. utf8_valid (hex_encode cd x)"
    and b64: "\<forall>b \<in> set (buffers m). \<exists>d. b64_decode cd b = Some d \<and> b64_encode cd d = b"
    and ident: "kc_session_id c \<noteq> MSG_DELIM"
  shows "\<exists>w. from_jupyter cd date m c = Done w \<and>
    to_jupyter cd ch (kc_hmac_key c) (from_zmq sid ch (into_zmq w)) = Done (m\<lparr>channel := ch\<rparr>)"
proof -
  obtain f where f: "\<forall>b \<in> set (buffers m). b64_decode cd b = Some (f b) \<and> b64_encode cd (f b) = b"
    using bchoice [OF b64] by blast
  let ?parts = "signed_parts cd date m c"
  let ?sig = "case kc_hmac_key c of Some k \<Rightarrow> sign cd k ?parts | None \<Rightarrow> []"
  let ?w = "\<lparr>wm_session_id = kc_session_id c, wm_channel = channel m,
              wm_parts = ?sig # ?parts @ map f (buffers m)\<rparr>"
  have "decode_buffers cd (buffers m) = Done (map f (buffers m))"
    by (rule decode_buffers_Done) (use f in blast)
  then have enc: "from_jupyter cd date m c = Done ?w"
    by (simp add: from_jupyter_def Let_def)
  have frames: "after_delim (into_zmq ?w) = Some (?sig # ?parts @ map f (buffers m))"
    using after_delim_into_zmq [of ?w] ident by simp
  have len: "length ?parts = 4"
    by (simp add: signed_parts_def Let_def)
  have sig: "check_signature cd (kc_hmac_key c) (?sig # ?parts @ bufs) = Done ()" for bufs
    using hex len by (auto simp: check_signature_def sign_def split: option.splits)
  have hdr: "read_header cd (json_to_vec cd (wire_value date c (header m))) = Done (header m)"
    by (rule read_header_roundtrip) (use json in \<open>simp_all add: wire_values_def\<close>)
  have par: "read_header cd (json_to_vec cd (wire_value date c p)) = Done p"
    if "parent_header m = Some p" for p
    by (rule read_header_roundtrip) (use json that in \<open>simp_all add: wire_values_def\<close>)
  have "to_jupyter cd ch (kc_hmac_key c) (from_zmq sid ch (into_zmq ?w)) =
      Done \<lparr>header = header m, parent_header = parent_header m, channel = ch, content = content m,
            metadata = metadata m, buffers = map (b64_encode cd) (map f (buffers m))\<rparr>"
  proof (rule to_jupyter_frames)
    show "after_delim (wm_parts (from_zmq sid ch (into_zmq ?w))) =
        Some (?sig # json_to_vec cd (wire_value date c (header m)) #
              json_to_vec cd (case parent_header m of Some p \<Rightarrow> wire_value date c p | None \<Rightarrow> JObject []) #
              json_to_vec cd (metadata m) # json_to_vec cd (content m) # map f (buffers m))"
      using frames by (simp add: from_zmq_def signed_parts_values wire_values_def)
  qed (use hdr par sig json empty parent in
      \<open>simp_all add: signed_parts_values wire_values_def split: option.splits\<close>)
  also have "\<dots> = Done (m\<lparr>channel := ch\<rparr>)"
    using f by (cases m) (simp add: map_idI)
  finally have "to_jupyter cd ch (kc_hmac_key c) (from_zmq sid ch (into_zmq ?w)) = Done (m\<lparr>channel := ch\<rparr>)" .
  then show ?thesis
    using enc by blast
qed

section \<open>Properties\<close>

text \<open>
  C5. A message survives the trip over the wire: encoded for a kernel, put into frames and read
  back with the same key, it comes out as it went in, on the channel it was read from. This
  needs a JSON codec that reads back what it wrote (a header being at least five bytes long),
  hexadecimal text that is UTF-8, buffers in the canonical Base64 form, and a session
  identifier that is not the frame delimiter itself.
\<close>

theorem wire_roundtrip:
  assumes json: "\<forall>v \<in> set (wire_values date m c).
      json_from_slice cd (json_to_vec cd v) = Some v \<and> utf8_valid (json_to_vec cd v)"
    and empty: "json_to_vec cd (JObject []) = ''{}''"
    and parent: "\<forall>p. parent_header m = Some p \<longrightarrow> 5 \<le> length (json_to_vec cd (wire_value date c p))"
    and hex: "\<forall>x. utf8_valid (hex_encode cd x)"
    and b64: "\<forall>b \<in> set (buffers m). \<exists>d. b64_decode cd b = Some d \<and> b64_encode cd d = b"
    and ident: "kc_session_id c \<noteq> MSG_DELIM"
  shows "\<exists>w. from_jupyter cd date m c = Done w \<and>
    to_jupyter cd ch (kc_hmac_key c) (from_zmq sid ch (into_zmq w)) = Done (m\<lparr>channel := ch\<rparr>)"
  using assms by (rule wire_trip)

theorem wire_roundtrip_witness:
  "\<exists>w. from_jupyter sample_codec ''now'' sample_message (sample_connection (Some ''k'')) = Done w \<and>
    to_jupyter sample_codec Shell (Some ''k'') (from_zmq ''s'' Shell (into_zmq w)) = Done sample_message"
proof -
  let ?c = "sample_connection (Some ''k'')"
  have json: "\<forall>v \<in> set (wire_values ''now'' sample_message ?c).
      json_from_slice sample_codec (json_to_vec sample_codec v) = Some v \<and>
      utf8_valid (json_to_vec sample_codec v)"
    by code_simp
  have empty: "json_to_vec sample_codec (JObject []) = ''{}''"
    by code_simp
  have parent: "\<forall>p. parent_header sample_message = Some p \<longrightarrow>
      5 \<le> length (json_to_vec sample_codec (wire_value ''now'' ?c p))"
    by (simp add: sample_message_def) code_simp
  have hex: "\<forall>x. utf8_valid (hex_encode sample_codec x)"
    by (simp add: sample_codec_def table_codec_def hex_string_utf8)
  have b64: "\<forall>b \<in> set (buffers sample_message).
      \<exists>d. b64_decode sample_codec b = Some d \<and> b64_encode sample_codec d = b"
    by (simp add: sample_codec_def table_codec_def)
  have ident: "kc_session_id ?c \<noteq> MSG_DELIM"
    by code_simp
  have "kc_hmac_key ?c = Some ''k''" "sample_message\<lparr>channel := Shell\<rparr> = sample_message"
    by (simp_all add: sample_connection_def sample_message_def)
  then show ?thesis
    using wire_roundtrip [OF json empty parent hex b64 ident, of Shell "''s''"] by simp
qed

text \<open>
  C6. Nothing unsigned or tampered with passes a session that has a key, with one exception
  made by the code: a message is accepted only if its header, parent header, metadata and
  content are exactly the frames its signature was computed over, or if its signature frame
  is empty, in which case no check is made at all.
\<close>

theorem accepted_is_signed:
  assumes "to_jupyter cd ch (Some key) w = Done m"
  shows "\<exists>ids signature p1 p2 p3 p4 bufs.
    wm_parts w = ids @ MSG_DELIM # signature # p1 # p2 # p3 # p4 # bufs \<and> MSG_DELIM \<notin> set ids \<and>
    (signature = [] \<or> signature = sign cd key [p1, p2, p3, p4]) \<and>
    read_header cd p1 = Done (header m) \<and> json_from_slice cd p3 = Some (metadata m) \<and>
    json_from_slice cd p4 = Some (content m) \<and> buffers m = map (b64_encode cd) bufs"
proof -
  obtain parts where parts: "after_delim (wm_parts w) = Some parts"
    and sig: "check_signature cd (Some key) parts = Done ()" and len: "4 < length parts"
    and read: "read_header cd (parts ! 1) = Done (header m)" "json_from_slice cd (parts ! 3) = Some (metadata m)"
      "json_from_slice cd (parts ! 4) = Some (content m)" "buffers m = map (b64_encode cd) (drop 5 parts)"
    using assms by (auto simp: to_jupyter_def)
  obtain signature p1 p2 p3 p4 bufs where split: "parts = signature # p1 # p2 # p3 # p4 # bufs"
    using len by (auto simp: numeral_eq_Suc Suc_le_length_iff simp flip: Suc_le_eq)
  obtain ids where ids: "wm_parts w = ids @ MSG_DELIM # parts" "MSG_DELIM \<notin> set ids"
    using after_delim_Some [OF parts] by blast
  have "signature = [] \<or> signature = sign cd key [p1, p2, p3, p4]"
    using sig by (auto simp: check_signature_def split split: if_splits)
  then show ?thesis
    using ids read
    by (intro exI [of _ ids] exI [of _ signature] exI [of _ p1] exI [of _ p2] exI [of _ p3] exI [of _ p4]
        exI [of _ bufs]) (simp add: split)
qed

theorem accepted_is_signed_witness:
  "\<exists>ids signature p1 p2 p3 p4 bufs.
    [''id'', MSG_DELIM, sign sample_codec ''k'' [''{hdr}'', ''{}'', ''{}'', ''{code}''],
      ''{hdr}'', ''{}'', ''{}'', ''{code}''] =
      ids @ MSG_DELIM # signature # p1 # p2 # p3 # p4 # bufs \<and>
    (signature = [] \<or> signature = sign sample_codec ''k'' [p1, p2, p3, p4])"
proof -
  have "to_jupyter sample_codec Shell (Some ''k'')
          \<lparr>wm_session_id = [], wm_channel = Shell,
           wm_parts = [''id'', MSG_DELIM, sign sample_codec ''k'' [''{hdr}'', ''{}'', ''{}'', ''{code}''],
      ''{hdr}'', ''{}'', ''{}'', ''{code}'']\<rparr> =
        Done \<lparr>header = \<lparr>msg_id = ''a'', msg_type = ''execute_request''\<rparr>, parent_header = None,
              channel = Shell, content = JObject [(''code'', JString ''1'')], metadata = JObject [],
              buffers = []\<rparr>"
    by code_simp
  from accepted_is_signed [OF this] show ?thesis
    unfolding wire_message.simps by blast
qed

text \<open>
  A frame list that has the five parts of the protocol after its delimiter is read or
  refused with an error, whatever the parts contain; one that has fewer makes the reader index
  past the end: without a signature check, a message with nothing but a signature panics.
\<close>

theorem to_jupyter_panics:
  "(case after_delim (wm_parts w) of
      None \<Rightarrow> to_jupyter cd ch k w = Fail NoDelimiter
    | Some parts \<Rightarrow>
        (length parts \<le> 1 \<and> check_signature cd k parts = Done () \<longrightarrow> to_jupyter cd ch k w = Panic) \<and>
        (5 \<le> length parts \<longrightarrow> to_jupyter cd ch k w \<noteq> Panic))"
proof (cases "after_delim (wm_parts w)")
  case None
  then show ?thesis by (simp add: to_jupyter_def ok_or_def)
next
  case (Some parts)
  have "to_jupyter cd ch k w \<noteq> Panic" if "5 \<le> length parts"
    using that by (auto simp: to_jupyter_def Some split: if_splits)
  moreover have "to_jupyter cd ch k w = Panic" if "length parts \<le> 1" "check_signature cd k parts = Done ()"
    using that by (auto simp: to_jupyter_def Some)
  ultimately show ?thesis
    using Some by simp
qed

theorem to_jupyter_panics_witness:
  "to_jupyter sample_codec Shell (Some ''k'')
     \<lparr>wm_session_id = ''s'', wm_channel = Shell, wm_parts = [MSG_DELIM, []]\<rparr> = Panic"
  using to_jupyter_panics [where k = "Some ''k''" and cd = sample_codec and ch = Shell and
      w = "\<lparr>wm_session_id = ''s'', wm_channel = Shell, wm_parts = [MSG_DELIM, []]\<rparr>"]
  by (simp add: check_signature_def)

text \<open>A connection that adopts a key signs with that key, or not at all when the key is empty.\<close>

lemma with_key_effect:
  assumes "with_key cd key c = Some c'"
  shows "kc_session_id c' = kc_session_id c \<and> kc_username c' = kc_username c \<and>
    kc_protocol_version c' = kc_protocol_version c \<and>
    (kc_hmac_key c' = (if key = [] then None else mac_new cd key)) \<and>
    (kc_key c' = (if key = [] then None else Some key))"
  using assms by (auto simp: with_key_def split: if_splits option.splits)

end
