(* ===== verification/KC_Proxy.thy ===== *)
theory KC_Proxy
  imports KC_State KC_Wire
begin

text \<open>
  \<open>zmq_ws_proxy.rs\<close>: the proxy between a client's WebSocket and a kernel's ZeroMQ sockets.

  A ZeroMQ socket is what the proxy has sent on it (a channel whose \<open>send\<close> may fail), and
  \<open>None\<close> once it has been taken and closed. The proxy's \<open>ws_json_tx\<close> is a clone of the sender
  the kernel state holds, so both are the field \<open>ks_ws_json_tx\<close> of the shared state. What a
  task reads from outside (the clock, the date of a header, the working directory of a
  process) comes with each event in a context; the frames that arrive are events.

  An operation returns its outcome and the proxy it leaves behind, because the source changes
  the state before the \<open>?\<close> that reports an error.
\<close>

record 'm proxy_context =
  cx_codec :: "'m codec"
  cx_cwd :: "nat \<Rightarrow> string option"
  cx_now :: instant
  cx_date :: string

record 'm proxy =
  shell_socket :: "zmq_message chan option"
  iopub_socket :: "zmq_message chan option"
  control_socket :: "zmq_message chan option"
  stdin_socket :: "zmq_message chan option"
  px_connection :: "'m kernel_connection"
  px_session_id :: string
  px_closed :: bool
  px_state :: kernel_state
  pending_iopub_messages :: "zmq_message list"

datatype proxy_error =
    ProxyClosed
  | WireError wire_error
  | SocketSendError
  | SocketRecvError jupyter_channel
  | ClientSendError

definition proxy_new :: "'m kernel_connection \<Rightarrow> kernel_state \<Rightarrow> 'm proxy" where
  "proxy_new c s =
     \<lparr>shell_socket = Some chan_new, iopub_socket = Some chan_new, control_socket = Some chan_new,
      stdin_socket = Some chan_new, px_connection = c, px_session_id = kc_session_id c,
      px_closed = False, px_state = s, pending_iopub_messages = []\<rparr>"

text \<open>\<open>socket.as_mut().unwrap().send(frames).await?\<close>\<close>

definition socket_send ::
  "zmq_message \<Rightarrow> zmq_message chan option \<Rightarrow> (proxy_error, zmq_message chan option) outcome" where
  "socket_send frames s =
     (case s of
        None \<Rightarrow> Panic
      | Some c \<Rightarrow> (case chan_send frames c of None \<Rightarrow> Fail SocketSendError | Some c' \<Rightarrow> Done (Some c')))"

type_synonym 'm step_result = "(proxy_error, unit) outcome \<times> 'm proxy"

definition send_shell :: "zmq_message \<Rightarrow> 'm proxy \<Rightarrow> 'm step_result" where
  "send_shell frames p =
     (case socket_send frames (shell_socket p) of
        Done s \<Rightarrow> (Done (), p\<lparr>shell_socket := s\<rparr>) | Fail e \<Rightarrow> (Fail e, p) | Panic \<Rightarrow> (Panic, p))"

definition send_control :: "zmq_message \<Rightarrow> 'm proxy \<Rightarrow> 'm step_result" where
  "send_control frames p =
     (case socket_send frames (control_socket p) of
        Done s \<Rightarrow> (Done (), p\<lparr>control_socket := s\<rparr>) | Fail e \<Rightarrow> (Fail e, p) | Panic \<Rightarrow> (Panic, p))"

definition send_stdin :: "zmq_message \<Rightarrow> 'm proxy \<Rightarrow> 'm step_result" where
  "send_stdin frames p =
     (case socket_send frames (stdin_socket p) of
        Done s \<Rightarrow> (Done (), p\<lparr>stdin_socket := s\<rparr>) | Fail e \<Rightarrow> (Fail e, p) | Panic \<Rightarrow> (Panic, p))"

section \<open>From the client to the kernel\<close>

text \<open>The second half of \<open>forward_ws\<close>: encoding and delivery to the socket of the channel.\<close>

definition deliver_ws :: "'m proxy_context \<Rightarrow> jupyter_message \<Rightarrow> 'm proxy \<Rightarrow> 'm step_result" where
  "deliver_ws cx m p =
     (case from_jupyter (cx_codec cx) (cx_date cx) m (px_connection p) of
        Fail e \<Rightarrow> (Fail (WireError e), p)
      | Panic \<Rightarrow> (Panic, p)
      | Done w \<Rightarrow>
          (case channel m of
             Shell \<Rightarrow> send_shell (into_zmq w) p
           | Control \<Rightarrow> send_control (into_zmq w) p
           | Stdin \<Rightarrow> send_stdin (into_zmq w) p
           | _ \<Rightarrow> (Done (), p)))"

definition set_queue :: "exec_queue \<Rightarrow> 'm proxy \<Rightarrow> 'm proxy" where
  "set_queue q p = p\<lparr>px_state := (px_state p)\<lparr>ks_queue := q\<rparr>\<rparr>"

definition forward_ws :: "'m proxy_context \<Rightarrow> jupyter_message \<Rightarrow> 'm proxy \<Rightarrow> 'm step_result" where
  "forward_ws cx m p =
     (if px_closed p then (Fail ProxyClosed, p)
      else
        (case jupyter_msg_from m of
           ExecuteRequest _ \<Rightarrow>
             (case process_request m (ks_queue (px_state p)) of
                (False, q) \<Rightarrow>
                  (let p = set_queue q p in
                   case ws_send (Kernel (ExecutionQueued (msg_id (header m)))) (px_state p) of
                     None \<Rightarrow> (Fail ClientSendError, p)
                   | Some s \<Rightarrow> (Done (), p\<lparr>px_state := s\<rparr>))
              | (True, q) \<Rightarrow>
                  (let s = (px_state p)\<lparr>ks_queue := q\<rparr> in
                   deliver_ws cx m
                     (p\<lparr>px_state := s\<lparr>ks_history := history_begin (cx_now cx) m (ks_history s)\<rparr>\<rparr>)))
         | InterruptRequest \<Rightarrow> deliver_ws cx m (set_queue (queue_clear (ks_queue (px_state p))) p)
         | ShutdownRequest \<Rightarrow> deliver_ws cx m (set_queue (queue_clear (ks_queue (px_state p))) p)
         | _ \<Rightarrow> deliver_ws cx m p))"

section \<open>From the kernel to the client\<close>

fun status_of :: "execution_state \<Rightarrow> status" where
  "status_of StateBusy = Busy"
| "status_of StateIdle = Idle"

text \<open>An idle kernel is given the next waiting request.\<close>

definition send_next_request :: "'m proxy_context \<Rightarrow> 'm proxy \<Rightarrow> 'm step_result" where
  "send_next_request cx p =
     (case next_request (ks_queue (px_state p)) of
        (None, q) \<Rightarrow> (Done (), set_queue q p)
      | (Some r, q) \<Rightarrow>
          (let s = (px_state p)\<lparr>ks_queue := q\<rparr>;
               p = p\<lparr>px_state := s\<lparr>ks_history := history_begin (cx_now cx) r (ks_history s)\<rparr>\<rparr> in
           case from_jupyter (cx_codec cx) (cx_date cx) r (px_connection p) of
             Fail e \<Rightarrow> (Fail (WireError e), p)
           | Panic \<Rightarrow> (Panic, p)
           | Done w \<Rightarrow> send_shell (into_zmq w) p))"

definition apply_status :: "'m proxy_context \<Rightarrow> jupyter_message \<Rightarrow> 'm proxy \<Rightarrow> 'm step_result" where
  "apply_status cx m p =
     (case jupyter_msg_from m of
        Status st \<Rightarrow>
          (case set_status (cx_cwd cx) (cx_now cx) (status_of st) (map_option msg_type (parent_header m))
                  (px_state p) of
             None \<Rightarrow> (Panic, p)
           | Some s \<Rightarrow>
               (let p = p\<lparr>px_state := s\<rparr> in
                if st = StateIdle then send_next_request cx p else (Done (), p)))
      | _ \<Rightarrow> (Done (), p))"

text \<open>Step (2.5): the history, then the listener an \<open>execute\<close> call has registered.\<close>

definition record_message :: "jupyter_message \<Rightarrow> kernel_state \<Rightarrow> kernel_state" where
  "record_message m s =
     (case parent_header m of
        None \<Rightarrow> s
      | Some parent \<Rightarrow>
          (let s = s\<lparr>ks_history := history_record m (ks_history s)\<rparr> in
           case ks_rpc_listeners s (msg_id parent) of
             None \<Rightarrow> s
           | Some tx \<Rightarrow> s\<lparr>ks_rpc_listeners := (ks_rpc_listeners s)(msg_id parent \<mapsto> chan_try m tx)\<rparr>))"

definition forward_zmq :: "'m proxy_context \<Rightarrow> jupyter_channel \<Rightarrow> zmq_message \<Rightarrow> 'm proxy \<Rightarrow> 'm step_result" where
  "forward_zmq cx ch frames p =
     (if px_closed p then (Fail ProxyClosed, p)
      else
        (case to_jupyter (cx_codec cx) ch (kc_hmac_key (px_connection p)) (from_zmq (px_session_id p) ch frames) of
           Panic \<Rightarrow> (Panic, p)
         | Fail e \<Rightarrow> (Done (), p)
         | Done m \<Rightarrow>
             (case apply_status cx m p of
                (Done _, p) \<Rightarrow>
                  (let p = p\<lparr>px_state := record_message m (px_state p)\<rparr> in
                   case ws_send (Jupyter m) (px_state p) of
                     None \<Rightarrow> (Fail ClientSendError, p)
                   | Some s \<Rightarrow> (Done (), p\<lparr>px_state := s\<rparr>))
              | (Fail e, p) \<Rightarrow> (Fail e, p)
              | (Panic, p) \<Rightarrow> (Panic, p))))"

section \<open>The kernel's first reply\<close>

text \<open>What arrives while the proxy waits for a reply on the shell socket.\<close>

datatype reply_event =
    ShellFrames zmq_message
  | ShellError
  | IopubFrames zmq_message
  | IopubError

text \<open>
  \<open>wait_for_shell_reply\<close>: \<open>None\<close> while the events run out without an answer, that is, while the
  loop is still waiting.
\<close>

fun wait_for_shell_reply ::
  "'m codec \<Rightarrow> string \<Rightarrow> reply_event list \<Rightarrow> 'm proxy \<Rightarrow>
     (proxy_error, jupyter_message) outcome option \<times> 'm proxy" where
  "wait_for_shell_reply cd i [] p = (None, p)"
| "wait_for_shell_reply cd i (ShellFrames frames # evs) p =
     (case to_jupyter cd Shell (kc_hmac_key (px_connection p)) (from_zmq (px_session_id p) Shell frames) of
        Panic \<Rightarrow> (Some Panic, p)
      | Fail e \<Rightarrow> (Some (Fail (WireError e)), p)
      | Done m \<Rightarrow>
          (case parent_header m of
             None \<Rightarrow> wait_for_shell_reply cd i evs p
           | Some parent \<Rightarrow>
               if msg_id parent = i then (Some (Done m), p) else wait_for_shell_reply cd i evs p))"
| "wait_for_shell_reply cd i (ShellError # evs) p = (Some (Fail (SocketRecvError Shell)), p)"
| "wait_for_shell_reply cd i (IopubFrames frames # evs) p =
     (case to_jupyter cd IOPub (kc_hmac_key (px_connection p)) (from_zmq (px_session_id p) IOPub frames) of
        Panic \<Rightarrow> (Some Panic, p)
      | Fail e \<Rightarrow> (Some (Fail (WireError e)), p)
      | Done m \<Rightarrow>
          if (case parent_header m of Some parent \<Rightarrow> msg_id parent = i | None \<Rightarrow> False) \<and>
             (case jupyter_msg_from m of Status _ \<Rightarrow> True | _ \<Rightarrow> False)
          then wait_for_shell_reply cd i evs p
          else wait_for_shell_reply cd i evs
                 (p\<lparr>pending_iopub_messages := pending_iopub_messages p @ [frames]\<rparr>))"
| "wait_for_shell_reply cd i (IopubError # evs) p = (Some (Fail (SocketRecvError IOPub)), p)"

definition kernel_info_request :: "string \<Rightarrow> jupyter_message" where
  "kernel_info_request i =
     \<lparr>header = \<lparr>msg_id = i, msg_type = ''kernel_info_request''\<rparr>, parent_header = None,
      channel = Shell, content = JObject [], metadata = JObject [], buffers = []\<rparr>"

definition get_kernel_info ::
  "'m proxy_context \<Rightarrow> string \<Rightarrow> reply_event list \<Rightarrow> 'm proxy \<Rightarrow> (proxy_error, json) outcome option \<times> 'm proxy" where
  "get_kernel_info cx i evs p =
     (case from_jupyter (cx_codec cx) (cx_date cx) (kernel_info_request i) (px_connection p) of
        Fail e \<Rightarrow> (Some (Fail (WireError e)), p)
      | Panic \<Rightarrow> (Some Panic, p)
      | Done w \<Rightarrow>
          (case send_shell (into_zmq w) p of
             (Fail e, p) \<Rightarrow> (Some (Fail e), p)
           | (Panic, p) \<Rightarrow> (Some Panic, p)
           | (Done _, p) \<Rightarrow>
               (case wait_for_shell_reply (cx_codec cx) i evs p of
                  (None, p) \<Rightarrow> (None, p)
                | (Some (Done m), p) \<Rightarrow> (Some (Done (content m)), p)
                | (Some (Fail e), p) \<Rightarrow> (Some (Fail e), p)
                | (Some Panic, p) \<Rightarrow> (Some Panic, p))))"

section \<open>The event loop\<close>

datatype proxy_event =
    SocketClosed
  | SocketOther
  | FromKernel jupyter_channel zmq_message
  | KernelRecvError jupyter_channel
  | FromClient jupyter_message
  | ClientRecvError
  | KernelExit
  | HeartbeatLost

text \<open>
  Failures while the retained messages are flushed are logged and the next one is tried; a
  panic ends the task.
\<close>

fun flush_pending :: "('m proxy_context \<times> zmq_message) list \<Rightarrow> 'm proxy \<Rightarrow> bool \<times> 'm proxy" where
  "flush_pending [] p = (True, p)"
| "flush_pending ((cx, frames) # rest) p =
     (case forward_zmq cx IOPub frames p of
        (Panic, p) \<Rightarrow> (False, p)
      | (_, p) \<Rightarrow> flush_pending rest p)"

definition close_sockets :: "'m proxy \<Rightarrow> 'm proxy" where
  "close_sockets p = p\<lparr>px_closed := True, shell_socket := None, iopub_socket := None,
     control_socket := None, stdin_socket := None\<rparr>"

text \<open>
  \<open>listen\<close> from the loop on, over the events in the order \<open>select!\<close> takes them: \<open>None\<close> when it
  is still waiting at the end of the events. \<open>n\<close> is \<open>sockets_connected\<close>, initially 4.
\<close>

fun listen_loop ::
  "nat \<Rightarrow> ('m proxy_context \<times> proxy_event) list \<Rightarrow> 'm proxy \<Rightarrow> (proxy_error, unit) outcome option \<times> 'm proxy" where
  "listen_loop n [] p = (None, p)"
| "listen_loop n ((cx, ev) # evs) p =
     (case ev of
        SocketClosed \<Rightarrow>
          (if n - 1 = 0 then (Some (Done ()), close_sockets p) else listen_loop (n - 1) evs p)
      | SocketOther \<Rightarrow>
          (if n = 0 then (Some (Done ()), close_sockets p) else listen_loop n evs p)
      | FromKernel ch frames \<Rightarrow>
          (case forward_zmq cx ch frames p of
             (Done _, p) \<Rightarrow> listen_loop n evs p
           | (r, p) \<Rightarrow> (Some r, p))
      | FromClient m \<Rightarrow>
          (case forward_ws cx m p of
             (Done _, p) \<Rightarrow> listen_loop n evs p
           | (r, p) \<Rightarrow> (Some r, p))
      | _ \<Rightarrow> (Some (Done ()), close_sockets p))"

definition listen ::
  "(nat \<Rightarrow> 'm proxy_context) \<Rightarrow> ('m proxy_context \<times> proxy_event) list \<Rightarrow> 'm proxy \<Rightarrow>
     (proxy_error, unit) outcome option \<times> 'm proxy" where
  "listen cxs evs p =
     (case flush_pending
             (zip (map cxs [0..<length (pending_iopub_messages p)]) (pending_iopub_messages p)) (p\<lparr>pending_iopub_messages := []\<rparr>) of
        (False, p) \<Rightarrow> (Some Panic, p)
      | (True, p) \<Rightarrow> listen_loop 4 evs p)"

section \<open>Specification\<close>

text \<open>
  What the proxy owes the kernel, without sockets, codecs or state: each event makes it hand
  over a list of messages, each on a channel, and moves the queue.
\<close>

type_synonym delivery = "jupyter_channel \<times> jupyter_message"

definition client_spec :: "jupyter_message \<Rightarrow> exec_queue \<Rightarrow> delivery list \<times> exec_queue" where
  "client_spec m q =
     (case jupyter_msg_from m of
        ExecuteRequest _ \<Rightarrow> (map (Pair (channel m)) (fst (queue_step (Submit m) q)), snd (queue_step (Submit m) q))
      | InterruptRequest \<Rightarrow> ([(channel m, m)], snd (queue_step Reset q))
      | ShutdownRequest \<Rightarrow> ([(channel m, m)], snd (queue_step Reset q))
      | _ \<Rightarrow> ([(channel m, m)], q))"

definition kernel_spec :: "jupyter_message \<Rightarrow> exec_queue \<Rightarrow> delivery list \<times> exec_queue" where
  "kernel_spec m q =
     (if jupyter_msg_from m = Status StateIdle
      then (map (Pair Shell) (fst (queue_step Advance q)), snd (queue_step Advance q)) else ([], q))"

text \<open>What a frame list from the kernel decodes to, if anything.\<close>

definition decoded :: "'m codec \<Rightarrow> 'm proxy \<Rightarrow> jupyter_channel \<Rightarrow> zmq_message \<Rightarrow> jupyter_message option" where
  "decoded cd p ch frames =
     (case to_jupyter cd ch (kc_hmac_key (px_connection p)) (from_zmq (px_session_id p) ch frames) of
        Done m \<Rightarrow> Some m | _ \<Rightarrow> None)"

fun event_spec :: "'m codec \<Rightarrow> 'm proxy \<Rightarrow> proxy_event \<Rightarrow> exec_queue \<Rightarrow> delivery list \<times> exec_queue" where
  "event_spec cd p (FromClient m) q = client_spec m q"
| "event_spec cd p (FromKernel ch frames) q =
     (case decoded cd p ch frames of Some m \<Rightarrow> kernel_spec m q | None \<Rightarrow> ([], q))"
| "event_spec cd p ev q = ([], q)"

fun run_spec :: "'m codec \<Rightarrow> 'm proxy \<Rightarrow> proxy_event list \<Rightarrow> exec_queue \<Rightarrow> delivery list \<times> exec_queue" where
  "run_spec cd p [] q = ([], q)"
| "run_spec cd p (ev # evs) q =
     (let (out, q) = event_spec cd p ev q; (outs, q) = run_spec cd p evs q in (out @ outs, q))"

text \<open>What has been sent on a channel's socket, and the frames that stand for a message.\<close>

definition sock_buf :: "zmq_message chan option \<Rightarrow> zmq_message list" where
  "sock_buf s = (case s of Some c \<Rightarrow> ch_buf c | None \<Rightarrow> [])"

fun sent_on :: "jupyter_channel \<Rightarrow> 'm proxy \<Rightarrow> zmq_message list" where
  "sent_on Shell p = sock_buf (shell_socket p)"
| "sent_on Control p = sock_buf (control_socket p)"
| "sent_on Stdin p = sock_buf (stdin_socket p)"
| "sent_on _ p = []"

definition encodes :: "'m codec \<Rightarrow> 'm kernel_connection \<Rightarrow> zmq_message \<Rightarrow> jupyter_message \<Rightarrow> bool" where
  "encodes cd c frames m \<longleftrightarrow> (\<exists>date w. from_jupyter cd date m c = Done w \<and> frames = into_zmq w)"

definition on_channel :: "jupyter_channel \<Rightarrow> delivery list \<Rightarrow> jupyter_message list" where
  "on_channel ch outs = map snd (filter (\<lambda>d. fst d = ch) outs)"

text \<open>Between two states of a proxy exactly the given messages were handed to the kernel.\<close>

definition delivers :: "'m codec \<Rightarrow> delivery list \<Rightarrow> 'm proxy \<Rightarrow> 'm proxy \<Rightarrow> bool" where
  "delivers cd outs p p' \<longleftrightarrow>
     px_connection p' = px_connection p \<and> px_session_id p' = px_session_id p \<and>
     (\<forall>ch \<in> {Shell, Control, Stdin}. \<exists>frs. sent_on ch p' = sent_on ch p @ frs \<and>
        list_all2 (encodes cd (px_connection p)) frs (on_channel ch outs))"

text \<open>The Jupyter messages a client has been sent, in order.\<close>

fun jupyter_stream :: "websocket_message list \<Rightarrow> jupyter_message list" where
  "jupyter_stream [] = []"
| "jupyter_stream (Jupyter m # ms) = m # jupyter_stream ms"
| "jupyter_stream (Kernel k # ms) = jupyter_stream ms"

definition client_messages :: "'m proxy \<Rightarrow> jupyter_message list" where
  "client_messages p = jupyter_stream (ch_buf (ks_ws_json_tx (px_state p)))"

section \<open>Deliveries\<close>

lemma delivers_refl: "delivers cd [] p p"
  by (simp add: delivers_def on_channel_def)

lemma delivers_trans:
  assumes "delivers cd xs p q" and "delivers cd ys q r"
  shows "delivers cd (xs @ ys) p r"
proof -
  have c: "px_connection q = px_connection p"
    using assms by (simp add: delivers_def)
  have "\<exists>frs. sent_on ch r = sent_on ch p @ frs \<and>
      list_all2 (encodes cd (px_connection p)) frs (on_channel ch (xs @ ys))"
    if ch: "ch \<in> {Shell, Control, Stdin}" for ch
  proof -
    obtain f where f: "sent_on ch q = sent_on ch p @ f"
        "list_all2 (encodes cd (px_connection p)) f (on_channel ch xs)"
      using assms(1) ch unfolding delivers_def by meson
    obtain g where g: "sent_on ch r = sent_on ch q @ g"
        "list_all2 (encodes cd (px_connection p)) g (on_channel ch ys)"
      using assms(2) ch unfolding delivers_def c by meson
    show ?thesis
      using f g by (intro exI [of _ "f @ g"]) (simp add: on_channel_def list_all2_appendI)
  qed
  then show ?thesis
    using assms by (simp add: delivers_def)
qed

text \<open>Only the sockets and the connection matter.\<close>

lemma delivers_state [simp]:
  "delivers cd outs (p\<lparr>px_state := s\<rparr>) q = delivers cd outs p q"
  "delivers cd outs p (q\<lparr>px_state := s\<rparr>) = delivers cd outs p q"
proof -
  have "sent_on ch (p\<lparr>px_state := s\<rparr>) = sent_on ch p" for ch and p :: "'a proxy"
    by (cases ch) simp_all
  then show "delivers cd outs (p\<lparr>px_state := s\<rparr>) q = delivers cd outs p q"
    "delivers cd outs p (q\<lparr>px_state := s\<rparr>) = delivers cd outs p q"
    by (simp_all add: delivers_def)
qed

lemma delivers_set_queue [simp]:
  "delivers cd outs (set_queue q p) r = delivers cd outs p r"
  "delivers cd outs r (set_queue q p) = delivers cd outs r p"
  by (simp_all add: set_queue_def)

lemma send_shell_delivers:
  assumes "send_shell frames p = (Done u, p')" and "encodes cd (px_connection p) frames m"
  shows "delivers cd [(Shell, m)] p p' \<and> px_state p' = px_state p \<and> px_closed p' = px_closed p"
  using assms
  by (auto simp: send_shell_def socket_send_def delivers_def on_channel_def sock_buf_def
      split: option.splits outcome.splits)

lemma send_control_delivers:
  assumes "send_control frames p = (Done u, p')" and "encodes cd (px_connection p) frames m"
  shows "delivers cd [(Control, m)] p p' \<and> px_state p' = px_state p \<and> px_closed p' = px_closed p"
  using assms
  by (auto simp: send_control_def socket_send_def delivers_def on_channel_def sock_buf_def
      split: option.splits outcome.splits)

lemma send_stdin_delivers:
  assumes "send_stdin frames p = (Done u, p')" and "encodes cd (px_connection p) frames m"
  shows "delivers cd [(Stdin, m)] p p' \<and> px_state p' = px_state p \<and> px_closed p' = px_closed p"
  using assms
  by (auto simp: send_stdin_def socket_send_def delivers_def on_channel_def sock_buf_def
      split: option.splits outcome.splits)

lemma deliver_ws_delivers:
  assumes "deliver_ws cx m p = (Done u, p')"
  shows "delivers (cx_codec cx) [(channel m, m)] p p' \<and> px_state p' = px_state p \<and> px_closed p' = px_closed p"
proof -
  obtain w where w: "from_jupyter (cx_codec cx) (cx_date cx) m (px_connection p) = Done w"
    using assms by (auto simp: deliver_ws_def split: outcome.splits)
  then have enc: "encodes (cx_codec cx) (px_connection p) (into_zmq w) m"
    by (auto simp: encodes_def)
  show ?thesis
    using assms w send_shell_delivers [OF _ enc] send_control_delivers [OF _ enc] send_stdin_delivers [OF _ enc]
    by (cases "channel m") (auto simp: deliver_ws_def delivers_def on_channel_def)
qed

section \<open>One event\<close>

lemma px_state_set_queue [simp]: "px_state (set_queue q p) = (px_state p)\<lparr>ks_queue := q\<rparr>"
  by (simp add: set_queue_def)

lemma set_queue_closed [simp]: "px_closed (set_queue q p) = px_closed p"
  by (simp add: set_queue_def)

lemma process_request_step:
  "process_request m q = (b, q') \<Longrightarrow> queue_step (Submit m) q = (if b then [m] else [], q')"
  by simp

lemma forward_ws_spec:
  assumes run: "forward_ws cx m p = (Done u, p')"
    and spec: "client_spec m (ks_queue (px_state p)) = (outs, q)"
  shows "delivers (cx_codec cx) outs p p' \<and> ks_queue (px_state p') = q \<and> px_closed p' = px_closed p"
proof (cases "jupyter_msg_from m")
  case (ExecuteRequest c)
  obtain b q' where pr: "process_request m (ks_queue (px_state p)) = (b, q')"
    by fastforce
  show ?thesis
  proof (cases b)
    case True
    let ?s = "(px_state p)\<lparr>ks_queue := q', ks_history := history_begin (cx_now cx) m (ks_history (px_state p))\<rparr>"
    have "deliver_ws cx m (p\<lparr>px_state := ?s\<rparr>) = (Done u, p')"
      using run pr True ExecuteRequest by (simp add: forward_ws_def Let_def split: if_splits)
    moreover have "outs = [(channel m, m)] \<and> q = q'"
      using spec pr True ExecuteRequest by (simp add: client_spec_def)
    ultimately show ?thesis
      using deliver_ws_delivers [of cx m "p\<lparr>px_state := ?s\<rparr>" u p'] by simp
  next
    case False
    then have "outs = [] \<and> q = q'"
      using spec pr ExecuteRequest by (simp add: client_spec_def)
    moreover have "\<exists>s. p' = set_queue q' p\<lparr>px_state := s\<rparr> \<and> ks_queue s = q'"
      using run pr False ExecuteRequest
      by (auto simp: forward_ws_def Let_def split: if_splits option.splits)
    ultimately show ?thesis
      using delivers_refl by (auto simp del: set_queue_def)
  qed
qed (use run spec deliver_ws_delivers [of cx m "set_queue (queue_clear (ks_queue (px_state p))) p"]
      deliver_ws_delivers [of cx m p] in
    \<open>auto simp: forward_ws_def client_spec_def split: if_splits\<close>)

lemma set_status_queue:
  assumes "set_status cwd now st reason s = Some s'" and "st \<noteq> Exited"
  shows "ks_queue s' = ks_queue s"
proof (cases "change_blocked st s")
  case True
  then show ?thesis using assms set_status_blocked [of s st] by simp
next
  case False
  then show ?thesis using set_status_change [OF assms(1) False] assms(2) by simp
qed

lemma send_next_request_spec:
  assumes "send_next_request cx p = (Done u, p')"
  shows "delivers (cx_codec cx) (map (Pair Shell) (fst (queue_step Advance (ks_queue (px_state p))))) p p' \<and>
    ks_queue (px_state p') = snd (queue_step Advance (ks_queue (px_state p))) \<and> px_closed p' = px_closed p \<and>
    ks_ws_json_tx (px_state p') = ks_ws_json_tx (px_state p)"
proof (cases "next_request (ks_queue (px_state p))")
  case (Pair r q)
  show ?thesis
  proof (cases r)
    case None
    then have "p' = set_queue q p"
      using assms Pair by (simp add: send_next_request_def)
    then show ?thesis
      using Pair None delivers_refl by simp
  next
    case (Some m)
    let ?p = "p\<lparr>px_state := (px_state p)\<lparr>ks_queue := q,
                ks_history := history_begin (cx_now cx) m (ks_history (px_state p))\<rparr>\<rparr>"
    obtain w where w: "from_jupyter (cx_codec cx) (cx_date cx) m (px_connection p) = Done w"
      and snd: "send_shell (into_zmq w) ?p = (Done u, p')"
      using assms Pair Some by (auto simp: send_next_request_def Let_def split: outcome.splits)
    have "encodes (cx_codec cx) (px_connection ?p) (into_zmq w) m"
      using w by (auto simp: encodes_def)
    then show ?thesis
      using send_shell_delivers [OF snd] Pair Some by simp
  qed
qed

lemma apply_status_spec:
  assumes "apply_status cx m p = (Done u, p')"
    and "kernel_spec m (ks_queue (px_state p)) = (outs, q)"
  shows "delivers (cx_codec cx) outs p p' \<and> ks_queue (px_state p') = q \<and> px_closed p' = px_closed p"
proof (cases "jupyter_msg_from m")
  case (Status st)
  obtain s where s: "set_status (cx_cwd cx) (cx_now cx) (status_of st) (map_option msg_type (parent_header m))
      (px_state p) = Some s"
    using assms(1) Status by (auto simp: apply_status_def split: option.splits)
  have "ks_queue s = ks_queue (px_state p)"
    by (rule set_status_queue [OF s]) (cases st, simp_all)
  then show ?thesis
    using assms s Status send_next_request_spec [of cx "p\<lparr>px_state := s\<rparr>" u p'] delivers_refl
    by (cases st) (auto simp: apply_status_def kernel_spec_def)
qed (use assms delivers_refl in \<open>auto simp: apply_status_def kernel_spec_def\<close>)

lemma record_message_frame:
  "ks_queue (record_message m s) = ks_queue s \<and> ks_ws_json_tx (record_message m s) = ks_ws_json_tx s \<and>
   ks_status (record_message m s) = ks_status s"
  by (simp add: record_message_def Let_def split: option.splits)

text \<open>A decoded message is applied, recorded and passed on; an undecodable one changes nothing.\<close>

lemma forward_zmq_Done:
  assumes "forward_zmq cx ch frames p = (Done u, p')"
  shows "case decoded (cx_codec cx) p ch frames of
      None \<Rightarrow> p' = p
    | Some m \<Rightarrow> \<exists>p1. apply_status cx m p = (Done (), p1) \<and> ch_open (ks_ws_json_tx (px_state p1)) \<and>
        p' = p1\<lparr>px_state := (record_message m (px_state p1))
          \<lparr>ks_ws_json_tx := (ks_ws_json_tx (px_state p1))
             \<lparr>ch_buf := ch_buf (ks_ws_json_tx (px_state p1)) @ [Jupyter m]\<rparr>\<rparr>\<rparr>"
proof (cases "to_jupyter (cx_codec cx) ch (kc_hmac_key (px_connection p)) (from_zmq (px_session_id p) ch frames)")
  case (Done m)
  then show ?thesis
    using assms record_message_frame [of m]
    by (auto simp: forward_zmq_def decoded_def Let_def split: outcome.splits if_splits prod.splits option.splits)
qed (use assms in \<open>auto simp: forward_zmq_def decoded_def split: if_splits\<close>)

lemma forward_zmq_spec:
  assumes run: "forward_zmq cx ch frames p = (Done u, p')"
    and spec: "event_spec (cx_codec cx) p (FromKernel ch frames) (ks_queue (px_state p)) = (outs, q)"
  shows "delivers (cx_codec cx) outs p p' \<and> ks_queue (px_state p') = q \<and> px_closed p' = px_closed p"
proof (cases "decoded (cx_codec cx) p ch frames")
  case None
  then show ?thesis
    using forward_zmq_Done [OF run] spec delivers_refl by simp
next
  case (Some m)
  then obtain p1 s where st: "apply_status cx m p = (Done (), p1)"
    and p': "p' = p1\<lparr>px_state := s\<rparr>" "ks_queue s = ks_queue (px_state p1)"
    using forward_zmq_Done [OF run] record_message_frame [of m] by auto
  show ?thesis
    using apply_status_spec [OF st] spec Some p' by simp
qed

section \<open>Runs\<close>

lemma decoded_cong:
  "px_connection p' = px_connection p \<Longrightarrow> px_session_id p' = px_session_id p \<Longrightarrow>
     decoded cd p' ch frames = decoded cd p ch frames"
  by (simp add: decoded_def)

lemma event_spec_cong:
  "px_connection p' = px_connection p \<Longrightarrow> px_session_id p' = px_session_id p \<Longrightarrow>
     event_spec cd p' ev q = event_spec cd p ev q"
  by (cases ev) (simp_all add: decoded_cong [of p' p])

lemma run_spec_cong:
  "px_connection p' = px_connection p \<Longrightarrow> px_session_id p' = px_session_id p \<Longrightarrow>
     run_spec cd p' evs q = run_spec cd p evs q"
  by (induction evs arbitrary: q) (simp_all add: event_spec_cong [of p' p])

text \<open>One turn of a loop that goes on.\<close>

lemma listen_loop_step:
  assumes "listen_loop n ((cx, ev) # evs) p = (None, p')"
    and "event_spec (cx_codec cx) p ev (ks_queue (px_state p)) = (out, q)"
  shows "\<exists>p1 k. listen_loop k evs p1 = (None, p') \<and> delivers (cx_codec cx) out p p1 \<and> ks_queue (px_state p1) = q"
proof (cases ev)
  case (FromKernel ch frames)
  then obtain p1 where p1: "forward_zmq cx ch frames p = (Done (), p1)" "listen_loop n evs p1 = (None, p')"
    using assms(1) by (auto split: prod.splits outcome.splits)
  then show ?thesis
    using forward_zmq_spec [OF p1(1)] assms(2) FromKernel by blast
next
  case (FromClient m)
  then obtain p1 where p1: "forward_ws cx m p = (Done (), p1)" "listen_loop n evs p1 = (None, p')"
    using assms(1) by (auto split: prod.splits outcome.splits)
  then show ?thesis
    using forward_ws_spec [OF p1(1)] assms(2) FromClient by auto
qed (use assms delivers_refl in \<open>auto split: if_splits\<close>)

lemma listen_loop_spec:
  assumes "listen_loop n evs p = (None, p')" and "\<forall>e \<in> set evs. cx_codec (fst e) = cd"
    and "run_spec cd p (map snd evs) (ks_queue (px_state p)) = (outs, q)"
  shows "delivers cd outs p p' \<and> ks_queue (px_state p') = q"
  using assms
proof (induction evs arbitrary: n p outs)
  case Nil
  then show ?case using delivers_refl by simp
next
  case (Cons e evs)
  obtain cx ev where e: "e = (cx, ev)" and cx: "cx_codec cx = cd"
    using Cons.prems(2) by (cases e) auto
  obtain out q1 where spec: "event_spec cd p ev (ks_queue (px_state p)) = (out, q1)"
    by fastforce
  obtain outs' where rest: "run_spec cd p (map snd evs) q1 = (outs', q)" and outs: "outs = out @ outs'"
    using Cons.prems(3) spec e by (auto split: prod.splits)
  obtain p1 k where p1: "listen_loop k evs p1 = (None, p')" "delivers cd out p p1" "ks_queue (px_state p1) = q1"
    using listen_loop_step [of n cx ev evs p p' out q1] Cons.prems(1) spec e cx by auto
  have "run_spec cd p1 (map snd evs) (ks_queue (px_state p1)) = (outs', q)"
    using rest p1(2,3) run_spec_cong [of p1 p cd] by (simp add: delivers_def)
  then have "delivers cd outs' p1 p' \<and> ks_queue (px_state p') = q"
    using Cons.IH [OF p1(1)] Cons.prems(2) by simp
  then show ?case
    using delivers_trans [OF p1(2)] outs by blast
qed

text \<open>The queue events of a run, and the execute requests among its deliveries.\<close>

fun queue_events :: "'m codec \<Rightarrow> 'm proxy \<Rightarrow> proxy_event \<Rightarrow> (jupyter_message, string) queue_event list" where
  "queue_events cd p (FromClient m) =
     (case jupyter_msg_from m of
        ExecuteRequest _ \<Rightarrow> [Submit m] | InterruptRequest \<Rightarrow> [Reset] | ShutdownRequest \<Rightarrow> [Reset] | _ \<Rightarrow> [])"
| "queue_events cd p (FromKernel ch frames) =
     (case decoded cd p ch frames of
        Some m \<Rightarrow> if jupyter_msg_from m = Status StateIdle then [Advance] else [] | None \<Rightarrow> [])"
| "queue_events cd p ev = []"

definition is_execute :: "jupyter_message \<Rightarrow> bool" where
  "is_execute m = (case jupyter_msg_from m of ExecuteRequest _ \<Rightarrow> True | _ \<Rightarrow> False)"

lemma is_execute_iff: "is_execute m \<longleftrightarrow> (\<exists>c. jupyter_msg_from m = ExecuteRequest c)"
  by (simp add: is_execute_def split: jupyter_msg.splits)

text \<open>Everything that waits is an execute request.\<close>

definition queue_execs :: "exec_queue \<Rightarrow> bool" where
  "queue_execs q \<longleftrightarrow> (\<forall>m \<in> set (pending q). is_execute m)"

definition executions :: "delivery list \<Rightarrow> jupyter_message list" where
  "executions outs = filter is_execute (map snd outs)"

text \<open>The execute requests a client has sent, in order.\<close>

fun requested :: "proxy_event list \<Rightarrow> jupyter_message list" where
  "requested [] = []"
| "requested (FromClient m # evs) = (if is_execute m then m # requested evs else requested evs)"
| "requested (_ # evs) = requested evs"

lemma event_spec_queue:
  assumes "queue_execs q" and "event_spec cd p ev q = (out, q')"
  shows "queue_run (queue_events cd p ev) q = (executions out, q') \<and> queue_execs q'"
proof (cases ev)
  case (FromClient m)
  then show ?thesis
    using assms
    by (cases "jupyter_msg_from m")
       (auto simp: client_spec_def executions_def is_execute_iff queue_execs_def process_request_def
          queue_clear_def Let_def split: option.splits)
next
  case (FromKernel ch frames)
  show ?thesis
  proof (cases "decoded cd p ch frames")
    case None
    then show ?thesis using assms FromKernel by (simp add: executions_def)
  next
    case (Some m)
    then show ?thesis
      using assms FromKernel
      by (auto simp: kernel_spec_def executions_def next_request_def queue_execs_def
          split: list.splits if_splits)
  qed
qed (use assms in \<open>simp_all add: executions_def\<close>)

lemma queue_run_append:
  "queue_run (es @ fs) q =
     (fst (queue_run es q) @ fst (queue_run fs (snd (queue_run es q))), snd (queue_run fs (snd (queue_run es q))))"
  by (induction es arbitrary: q) (simp_all add: Let_def split_def)

lemma run_spec_queue:
  assumes "queue_execs q" and "run_spec cd p evs q = (outs, q')"
  shows "queue_run (concat (map (queue_events cd p) evs)) q = (executions outs, q')"
  using assms
proof (induction evs arbitrary: q outs)
  case (Cons ev evs)
  obtain out q1 outs' where ev: "event_spec cd p ev q = (out, q1)"
    and rest: "run_spec cd p evs q1 = (outs', q')" and outs: "outs = out @ outs'"
    using Cons.prems(2) by (auto split: prod.splits)
  show ?case
    using event_spec_queue [OF Cons.prems(1) ev] Cons.IH [OF _ rest] outs
    by (simp add: queue_run_append executions_def)
qed (simp add: executions_def)

lemma submitted_append: "submitted (es @ fs) = submitted es @ submitted fs"
  by (induction es rule: submitted.induct) simp_all

lemma submitted_events: "submitted (concat (map (queue_events cd p) evs)) = requested evs"
proof (induction evs)
  case (Cons ev evs)
  have "submitted (queue_events cd p ev) @ requested evs = requested (ev # evs)"
    by (cases ev) (auto simp: is_execute_iff split: jupyter_msg.splits option.splits)
  then show ?case
    using Cons by (simp add: submitted_append)
qed simp

section \<open>What the client sees\<close>

lemma jupyter_stream_append: "jupyter_stream (xs @ ys) = jupyter_stream xs @ jupyter_stream ys"
  by (induction xs rule: jupyter_stream.induct) simp_all

lemma jupyter_stream_kernel [simp]: "jupyter_stream (map Kernel ks) = []"
  by (induction ks) simp_all

text \<open>A status change tells the client nothing but kernel messages.\<close>

lemma set_status_buffer:
  assumes "set_status cwd now st reason s = Some s'"
  shows "jupyter_stream (ch_buf (ks_ws_json_tx s')) = jupyter_stream (ch_buf (ks_ws_json_tx s)) \<and>
    ks_rpc_listeners s' = ks_rpc_listeners s"
proof (cases "change_blocked st s")
  case True
  then show ?thesis using assms set_status_blocked [of s st] by simp
next
  case False
  let ?e = "enter_status now st s"
  let ?s1 = "?e\<lparr>ks_ws_json_tx := (ks_ws_json_tx ?e)\<lparr>ch_buf := ch_buf (ks_ws_json_tx ?e) @ [Kernel (StatusMsg st reason)]\<rparr>\<rparr>"
  have rpc: "ks_rpc_listeners ?e = ks_rpc_listeners s"
    by (simp add: enter_status_def nudge_idle_def Let_def)
  have "poll_working_dir cwd ?s1 = Some s' \<or> s' = ?s1"
    using assms False by (auto simp: set_status_def split: option.splits if_splits)
  then show ?thesis
    using rpc by (auto simp: jupyter_stream_append dest!: poll_working_dir_cases)
qed

lemma apply_status_client:
  assumes "apply_status cx m p = (Done u, p')"
  shows "client_messages p' = client_messages p \<and> ks_rpc_listeners (px_state p') = ks_rpc_listeners (px_state p)"
proof (cases "jupyter_msg_from m")
  case (Status st)
  obtain s where s: "set_status (cx_cwd cx) (cx_now cx) (status_of st) (map_option msg_type (parent_header m))
      (px_state p) = Some s"
    using assms Status by (auto simp: apply_status_def split: option.splits)
  have next_ok: "client_messages p' = client_messages q \<and>
      ks_rpc_listeners (px_state p') = ks_rpc_listeners (px_state q)"
    if "send_next_request cx q = (Done u, p')" for q
    using that
    by (auto simp: send_next_request_def send_shell_def socket_send_def client_messages_def Let_def
        split: prod.splits option.splits outcome.splits)
  show ?thesis
    using assms s Status set_status_buffer [OF s] next_ok [of "p\<lparr>px_state := s\<rparr>"]
    by (cases st) (auto simp: apply_status_def client_messages_def)
qed (use assms in \<open>simp_all add: apply_status_def\<close>)

lemma forward_zmq_client:
  assumes "forward_zmq cx ch frames p = (Done u, p')"
  shows "client_messages p' = client_messages p @
    (case decoded (cx_codec cx) p ch frames of Some m \<Rightarrow> [m] | None \<Rightarrow> [])"
proof (cases "decoded (cx_codec cx) p ch frames")
  case (Some m)
  then show ?thesis
    using forward_zmq_Done [OF assms]
    by (auto simp: client_messages_def jupyter_stream_append dest!: apply_status_client)
qed (use forward_zmq_Done [OF assms] in simp)

lemma deliver_ws_state: "deliver_ws cx m p = (Done u, p') \<Longrightarrow> px_state p' = px_state p"
  using deliver_ws_delivers by blast

lemma forward_ws_client:
  assumes "forward_ws cx m p = (Done u, p')"
  shows "client_messages p' = client_messages p \<and> ks_rpc_listeners (px_state p') = ks_rpc_listeners (px_state p)"
  using assms
  by (cases "jupyter_msg_from m")
     (auto simp: forward_ws_def client_messages_def jupyter_stream_append Let_def
        split: if_splits prod.splits option.splits bool.splits dest!: deliver_ws_state)

text \<open>The messages the kernel has sent that could be decoded, in the order they arrived.\<close>

fun received :: "'m codec \<Rightarrow> 'm proxy \<Rightarrow> proxy_event list \<Rightarrow> jupyter_message list" where
  "received cd p [] = []"
| "received cd p (FromKernel ch frames # evs) =
     (case decoded cd p ch frames of Some m \<Rightarrow> m # received cd p evs | None \<Rightarrow> received cd p evs)"
| "received cd p (_ # evs) = received cd p evs"

lemma received_cong:
  "px_connection p' = px_connection p \<Longrightarrow> px_session_id p' = px_session_id p \<Longrightarrow>
     received cd p' evs = received cd p evs"
proof (induction evs)
  case (Cons ev evs)
  then show ?case
    by (cases ev) (simp_all add: decoded_cong [of p' p] split: option.split)
qed simp

text \<open>The listener an \<open>execute\<close> call has registered for a request.\<close>

definition listener_messages :: "string \<Rightarrow> 'm proxy \<Rightarrow> jupyter_message list option" where
  "listener_messages i p =
     (case ks_rpc_listeners (px_state p) i of
        Some c \<Rightarrow> if ch_open c then Some (ch_buf c) else None | None \<Rightarrow> None)"

definition has_parent :: "string \<Rightarrow> jupyter_message \<Rightarrow> bool" where
  "has_parent i m = (case parent_header m of Some h \<Rightarrow> msg_id h = i | None \<Rightarrow> False)"

lemma has_parent_iff: "has_parent i m \<longleftrightarrow> (\<exists>h. parent_header m = Some h \<and> msg_id h = i)"
  by (simp add: has_parent_def split: option.splits)

lemma record_message_listener:
  "(case ks_rpc_listeners (record_message m s) i of Some c \<Rightarrow> if ch_open c then Some (ch_buf c) else None | None \<Rightarrow> None) =
   map_option (\<lambda>b. b @ filter (has_parent i) [m])
     (case ks_rpc_listeners s i of Some c \<Rightarrow> if ch_open c then Some (ch_buf c) else None | None \<Rightarrow> None)"
  by (auto simp: record_message_def has_parent_iff Let_def split: option.splits)

lemma forward_zmq_listener:
  assumes "forward_zmq cx ch frames p = (Done u, p')"
  shows "listener_messages i p' = map_option (\<lambda>b. b @ filter (has_parent i)
    (case decoded (cx_codec cx) p ch frames of Some m \<Rightarrow> [m] | None \<Rightarrow> [])) (listener_messages i p)"
proof (cases "decoded (cx_codec cx) p ch frames")
  case None
  then show ?thesis
    using forward_zmq_Done [OF assms] by (simp add: option.map_ident)
next
  case (Some m)
  then obtain p1 where p1: "apply_status cx m p = (Done (), p1)"
    and "ks_rpc_listeners (px_state p') = ks_rpc_listeners (record_message m (px_state p1))"
    using forward_zmq_Done [OF assms] by auto
  then show ?thesis
    using apply_status_client [OF p1] Some record_message_listener [of m "px_state p1" i]
    by (simp add: listener_messages_def)
qed

lemma listen_loop_client:
  assumes "listen_loop n evs p = (None, p')" and "\<forall>e \<in> set evs. cx_codec (fst e) = cd"
  shows "client_messages p' = client_messages p @ received cd p (map snd evs) \<and>
    listener_messages i p' =
      map_option (\<lambda>b. b @ filter (has_parent i) (received cd p (map snd evs))) (listener_messages i p)"
  using assms
proof (induction evs arbitrary: n p)
  case Nil
  then show ?case by (simp add: option.map_ident)
next
  case (Cons e evs)
  obtain cx ev where e: "e = (cx, ev)" and cx: "cx_codec cx = cd"
    using Cons.prems(2) by (cases e) auto
  obtain out q1 where spec: "event_spec cd p ev (ks_queue (px_state p)) = (out, q1)"
    by fastforce
  show ?case
  proof (cases ev)
    case (FromKernel ch frames)
    then obtain p1 where p1: "forward_zmq cx ch frames p = (Done (), p1)" "listen_loop n evs p1 = (None, p')"
      using Cons.prems(1) e by (auto split: prod.splits outcome.splits)
    have rc: "received cd p1 es = received cd p es" for es
      using forward_zmq_spec [OF p1(1)] spec cx FromKernel
      by (intro received_cong) (auto simp: delivers_def)
    show ?thesis
      using Cons.IH [OF p1(2)] Cons.prems(2) forward_zmq_client [OF p1(1)] forward_zmq_listener [OF p1(1), of i]
        e cx FromKernel rc
      by (auto simp: option.map_comp o_def split: option.splits)
  next
    case (FromClient m)
    then obtain p1 where p1: "forward_ws cx m p = (Done (), p1)" "listen_loop n evs p1 = (None, p')"
      using Cons.prems(1) e by (auto split: prod.splits outcome.splits)
    have rc: "received cd p1 es = received cd p es" for es
      using forward_ws_spec [OF p1(1)] spec cx FromClient
      by (intro received_cong) (auto simp: delivers_def)
    show ?thesis
      using Cons.IH [OF p1(2)] Cons.prems(2) forward_ws_client [OF p1(1)] e FromClient rc
      by (simp add: listener_messages_def)
  qed (use Cons e in \<open>auto split: if_splits\<close>)
qed

section \<open>Progress\<close>

text \<open>
  A proxy whose sockets and client accept messages, and whose waiting requests have buffers
  that can be decoded.
\<close>

definition sendable :: "'m codec \<Rightarrow> jupyter_message \<Rightarrow> bool" where
  "sendable cd m = (case decode_buffers cd (buffers m) of Done _ \<Rightarrow> True | _ \<Rightarrow> False)"

lemma sendable_iff: "sendable cd m \<longleftrightarrow> (\<exists>ds. decode_buffers cd (buffers m) = Done ds)"
  by (simp add: sendable_def split: outcome.splits)

definition sock_open :: "zmq_message chan option \<Rightarrow> bool" where
  "sock_open s \<longleftrightarrow> (\<exists>c. s = Some c \<and> ch_open c)"

definition proxy_live :: "'m codec \<Rightarrow> 'm proxy \<Rightarrow> bool" where
  "proxy_live cd p \<longleftrightarrow>
     \<not> px_closed p \<and> sock_open (shell_socket p) \<and> sock_open (control_socket p) \<and> sock_open (stdin_socket p) \<and>
     ch_open (ks_ws_json_tx (px_state p)) \<and> (\<forall>m \<in> set (pending (ks_queue (px_state p))). sendable cd m)"

fun event_fine :: "'m codec \<Rightarrow> proxy_event \<Rightarrow> bool" where
  "event_fine cd (FromClient m) = sendable cd m"
| "event_fine cd (FromKernel ch frames) =
     (case after_delim frames of Some parts \<Rightarrow> 5 \<le> length parts | None \<Rightarrow> True)"
| "event_fine cd SocketOther = True"
| "event_fine cd _ = False"

lemma from_jupyter_sendable: "sendable cd m \<Longrightarrow> \<exists>w. from_jupyter cd date m c = Done w"
  by (auto simp: sendable_iff from_jupyter_def Let_def)

lemma send_live:
  "sock_open (shell_socket p) \<Longrightarrow> \<exists>c. send_shell frames p = (Done (), p\<lparr>shell_socket := Some c\<rparr>) \<and> ch_open c"
  "sock_open (control_socket p) \<Longrightarrow> \<exists>c. send_control frames p = (Done (), p\<lparr>control_socket := Some c\<rparr>) \<and> ch_open c"
  "sock_open (stdin_socket p) \<Longrightarrow> \<exists>c. send_stdin frames p = (Done (), p\<lparr>stdin_socket := Some c\<rparr>) \<and> ch_open c"
  by (auto simp: sock_open_def send_shell_def send_control_def send_stdin_def socket_send_def chan_send_def)

lemma deliver_ws_live:
  assumes "proxy_live cd p" and "cx_codec cx = cd" and "sendable cd m"
  shows "\<exists>p'. deliver_ws cx m p = (Done (), p') \<and> proxy_live cd p'"
proof -
  obtain w where w: "from_jupyter cd (cx_date cx) m (px_connection p) = Done w"
    using from_jupyter_sendable [OF assms(3)] by blast
  have "sock_open (shell_socket p)" "sock_open (control_socket p)" "sock_open (stdin_socket p)"
    using assms(1) by (simp_all add: proxy_live_def)
  note sends = send_live(1) [OF this(1), of "into_zmq w"] send_live(2) [OF this(2), of "into_zmq w"]
    send_live(3) [OF this(3), of "into_zmq w"]
  show ?thesis
    using assms w sends
    by (cases "channel m") (auto simp: deliver_ws_def proxy_live_def sock_open_def)
qed

lemma proxy_live_state:
  "proxy_live cd p \<Longrightarrow> ch_open (ks_ws_json_tx s) \<Longrightarrow> \<forall>m \<in> set (pending (ks_queue s)). sendable cd m \<Longrightarrow>
     proxy_live cd (p\<lparr>px_state := s\<rparr>)"
  by (simp add: proxy_live_def)

lemma forward_ws_live:
  assumes live: "proxy_live cd p" and cx: "cx_codec cx = cd" and m: "sendable cd m"
  shows "\<exists>p'. forward_ws cx m p = (Done (), p') \<and> proxy_live cd p'"
proof -
  have open_p: "\<not> px_closed p" "ch_open (ks_ws_json_tx (px_state p))"
    "\<forall>m \<in> set (pending (ks_queue (px_state p))). sendable cd m"
    using live by (simp_all add: proxy_live_def)
  have cleared: "proxy_live cd (set_queue (queue_clear (ks_queue (px_state p))) p)"
    unfolding set_queue_def by (rule proxy_live_state [OF live]) (use open_p in \<open>simp_all add: queue_clear_def Let_def\<close>)
  show ?thesis
  proof (cases "jupyter_msg_from m")
    case (ExecuteRequest c)
    obtain b q where pr: "process_request m (ks_queue (px_state p)) = (b, q)"
      by fastforce
    have q: "\<forall>m \<in> set (pending q). sendable cd m"
      using pr open_p m by (auto simp: process_request_def split: option.splits)
    show ?thesis
    proof (cases b)
      case True
      let ?s = "(px_state p)\<lparr>ks_queue := q, ks_history := history_begin (cx_now cx) m (ks_history (px_state p))\<rparr>"
      have "proxy_live cd (p\<lparr>px_state := ?s\<rparr>)"
        by (rule proxy_live_state [OF live]) (use open_p q in simp_all)
      from deliver_ws_live [OF this cx m] show ?thesis
        using pr True ExecuteRequest open_p by (simp add: forward_ws_def Let_def)
    next
      case False
      let ?s = "(px_state p)\<lparr>ks_queue := q\<rparr>"
      obtain s where s: "ws_send (Kernel (ExecutionQueued (msg_id (header m)))) ?s = Some s"
          "ch_open (ks_ws_json_tx s)" "ks_queue s = q"
        using open_p by (simp del: ws_send_None)
      have "proxy_live cd (set_queue q p\<lparr>px_state := s\<rparr>)"
        unfolding set_queue_def using proxy_live_state [OF live] s q by simp
      then show ?thesis
        using pr False ExecuteRequest open_p s(1)
        by (simp add: forward_ws_def Let_def del: ws_send_Some)
    qed
  qed (use deliver_ws_live [OF cleared cx m] deliver_ws_live [OF live cx m] open_p in
      \<open>simp_all add: forward_ws_def\<close>)
qed

lemma send_next_request_live:
  assumes live: "proxy_live cd p" and cx: "cx_codec cx = cd"
  shows "\<exists>p'. send_next_request cx p = (Done (), p') \<and> proxy_live cd p'"
proof (cases "pending (ks_queue (px_state p))")
  case Nil
  then show ?thesis
    using live by (simp add: send_next_request_def next_request_def set_queue_def proxy_live_def)
next
  case (Cons r rest)
  let ?q = "(ks_queue (px_state p))\<lparr>pending := rest, active := Some r\<rparr>"
  let ?p = "p\<lparr>px_state := (px_state p)\<lparr>ks_queue := ?q,
      ks_history := history_begin (cx_now cx) r (ks_history (px_state p))\<rparr>\<rparr>"
  have live': "proxy_live cd ?p" and r: "sendable cd r"
    using live Cons by (simp_all add: proxy_live_def)
  obtain w where w: "from_jupyter cd (cx_date cx) r (px_connection p) = Done w"
    using from_jupyter_sendable [OF r] by blast
  obtain c where "send_shell (into_zmq w) ?p = (Done (), ?p\<lparr>shell_socket := Some c\<rparr>)" "ch_open c"
    using send_live(1) [of ?p] live' by (auto simp: proxy_live_def)
  then show ?thesis
    using w Cons cx live' by (simp add: send_next_request_def next_request_def proxy_live_def sock_open_def)
qed

lemma forward_zmq_live:
  assumes live: "proxy_live cd p" and cx: "cx_codec cx = cd" and fine: "event_fine cd (FromKernel ch frames)"
  shows "\<exists>p'. forward_zmq cx ch frames p = (Done (), p') \<and> proxy_live cd p'"
proof (cases "to_jupyter cd ch (kc_hmac_key (px_connection p)) (from_zmq (px_session_id p) ch frames)")
  case (Done m)
  have "\<exists>p1. apply_status cx m p = (Done (), p1) \<and> proxy_live cd p1"
  proof (cases "jupyter_msg_from m")
    case (Status st)
    obtain s where s: "set_status (cx_cwd cx) (cx_now cx) (status_of st) (map_option msg_type (parent_header m))
        (px_state p) = Some s"
      using set_status_total [of "px_state p"] live unfolding proxy_live_def by blast
    have "status_of st \<noteq> Exited"
      by (cases st) simp_all
    then have "proxy_live cd (p\<lparr>px_state := s\<rparr>)"
      using live set_status_queue [OF s] set_status_open [OF s] by (simp add: proxy_live_def)
    then show ?thesis
      using Status s send_next_request_live [OF _ cx] by (cases st) (simp_all add: apply_status_def)
  qed (use live in \<open>simp_all add: apply_status_def\<close>)
  then obtain p1 where p1: "apply_status cx m p = (Done (), p1)" "proxy_live cd p1"
    by blast
  let ?p = "p1\<lparr>px_state := record_message m (px_state p1)\<rparr>"
  obtain s where s: "ws_send (Jupyter m) (px_state ?p) = Some s" "ch_open (ks_ws_json_tx s)"
      "ks_queue s = ks_queue (px_state p1)"
    using p1(2) record_message_frame [of m "px_state p1"] by (simp add: proxy_live_def del: ws_send_None)
  have "forward_zmq cx ch frames p = (Done (), ?p\<lparr>px_state := s\<rparr>)"
    using live Done p1(1) s(1) cx by (simp add: forward_zmq_def Let_def proxy_live_def del: ws_send_Some)
  moreover have "proxy_live cd (?p\<lparr>px_state := s\<rparr>)"
    using p1(2) s by (simp add: proxy_live_def)
  ultimately show ?thesis by blast
next
  case (Fail e)
  then show ?thesis
    using live cx by (simp add: forward_zmq_def proxy_live_def)
next
  case Panic
  then show ?thesis
    using fine by (auto simp: to_jupyter_def from_zmq_def split: option.splits if_splits)
qed

lemma listen_loop_live:
  assumes "proxy_live cd p" and "\<forall>e \<in> set evs. cx_codec (fst e) = cd \<and> event_fine cd (snd e)" and "0 < n"
  shows "\<exists>p'. listen_loop n evs p = (None, p') \<and> proxy_live cd p'"
  using assms
proof (induction evs arbitrary: p)
  case (Cons e evs)
  obtain cx ev where e: "e = (cx, ev)" and cx: "cx_codec cx = cd" and fine: "event_fine cd ev"
    using Cons.prems(2) by (cases e) auto
  have IH: "\<exists>p'. listen_loop n evs q = (None, p') \<and> proxy_live cd p'" if "proxy_live cd q" for q
    using Cons.IH [OF that] Cons.prems by simp
  show ?case
  proof (cases ev)
    case (FromKernel ch frames)
    then show ?thesis
      using forward_zmq_live [OF Cons.prems(1) cx, of ch frames] fine IH e by auto
  next
    case (FromClient m)
    then show ?thesis
      using forward_ws_live [OF Cons.prems(1) cx, of m] fine IH e by auto
  qed (use fine IH Cons.prems e in auto)
qed simp

section \<open>Properties\<close>

text \<open>A running proxy for the witnesses: two execute requests and the kernel's idle status.\<close>

definition sample_idle :: jupyter_message where
  "sample_idle = \<lparr>header = \<lparr>msg_id = ''i'', msg_type = ''status''\<rparr>,
     parent_header = Some \<lparr>msg_id = ''a'', msg_type = ''execute_request''\<rparr>, channel = IOPub,
     content = JObject [(''execution_state'', JString ''idle'')], metadata = JObject [], buffers = []\<rparr>"

definition proxy_codec :: "string codec" where
  "proxy_codec = table_codec
     [(wire_value ''now'' (sample_connection None) (header sample_idle), ''{status}''),
      (wire_value ''now'' (sample_connection None) \<lparr>msg_id = ''a'', msg_type = ''execute_request''\<rparr>, ''{parent}''),
      (content sample_idle, ''{idle}'')]"

definition sample_context :: "string proxy_context" where
  "sample_context = \<lparr>cx_codec = proxy_codec, cx_cwd = (\<lambda>_. None), cx_now = 5, cx_date = ''now''\<rparr>"

definition sample_proxy :: "string proxy" where
  "sample_proxy = proxy_new (sample_connection None)
     (sample_state\<lparr>ks_rpc_listeners := [''a'' \<mapsto> chan_new]\<rparr>)"

definition sample_events :: "(string proxy_context \<times> proxy_event) list" where
  "sample_events = map (Pair sample_context)
     [FromClient (sample_request ''a''), FromClient (sample_request ''b''),
      FromKernel IOPub [''topic'', MSG_DELIM, [], ''{status}'', ''{parent}'', ''{}'', ''{idle}'']]"

lemma sample_live:
  "proxy_live proxy_codec sample_proxy"
  "\<forall>e \<in> set sample_events. cx_codec (fst e) = proxy_codec \<and> event_fine proxy_codec (snd e)"
  by (simp_all add: proxy_live_def sample_proxy_def proxy_new_def sample_state_def state_new_def chan_new_def
      sock_open_def queue_new_def sample_events_def sample_context_def sendable_iff sample_request_def MSG_DELIM_def)

lemma sample_running:
  "listen_loop 4 sample_events sample_proxy = (None, snd (listen_loop 4 sample_events sample_proxy))"
  using listen_loop_live [OF sample_live, of 4] by (metis prod.collapse prod.inject zero_less_numeral)

lemma sample_events_codec: "\<forall>e \<in> set sample_events. cx_codec (fst e) = proxy_codec"
  by (simp add: sample_events_def sample_context_def)

text \<open>
  C4. The proxy keeps going: with its sockets connected, a client listening and decodable
  buffers, no sequence of client messages and of frames with the five parts of the protocol
  (or without a delimiter at all) ends its loop, whatever those parts contain.
\<close>

theorem proxy_keeps_running:
  assumes "proxy_live cd p" and "\<forall>e \<in> set evs. cx_codec (fst e) = cd \<and> event_fine cd (snd e)"
  shows "\<exists>p'. listen_loop 4 evs p = (None, p') \<and> proxy_live cd p'"
  using listen_loop_live [OF assms] by simp

theorem proxy_keeps_running_witness:
  "\<exists>p'. listen_loop 4 sample_events sample_proxy = (None, p') \<and> proxy_live proxy_codec p'"
  by (rule proxy_keeps_running [OF sample_live])

text \<open>
  C1. The proxy implements its specification. While its loop runs, whatever the clients and
  the kernel send and in whatever order, the queue it keeps is the queue of the specification,
  and the frames on each of the three sockets are, in order, the encodings of exactly the
  messages the specification hands over on that channel.
\<close>

theorem proxy_refines_spec:
  assumes "listen_loop 4 evs p = (None, p')" and "\<forall>e \<in> set evs. cx_codec (fst e) = cd"
  shows "\<exists>outs. run_spec cd p (map snd evs) (ks_queue (px_state p)) = (outs, ks_queue (px_state p')) \<and>
    delivers cd outs p p'"
proof -
  obtain outs q where spec: "run_spec cd p (map snd evs) (ks_queue (px_state p)) = (outs, q)"
    by fastforce
  show ?thesis
    using listen_loop_spec [OF assms spec] spec by auto
qed

theorem proxy_refines_spec_witness:
  "\<exists>outs. run_spec proxy_codec sample_proxy (map snd sample_events) queue_new =
      (outs, ks_queue (px_state (snd (listen_loop 4 sample_events sample_proxy)))) \<and>
    delivers proxy_codec outs sample_proxy (snd (listen_loop 4 sample_events sample_proxy))"
proof -
  have "ks_queue (px_state sample_proxy) = queue_new"
    by (simp add: sample_proxy_def proxy_new_def sample_state_def state_new_def)
  then show ?thesis
    using proxy_refines_spec [OF sample_running sample_events_codec] by simp
qed



text \<open>
  Nothing the kernel says is lost, reordered or invented on the way to the client: while the
  loop runs, the Jupyter messages the client is sent are, in order, those that arrived on any
  socket and could be decoded. A call waiting for the result of request \<open>i\<close> is given exactly
  those of them whose parent is \<open>i\<close>.
\<close>

theorem kernel_messages_forwarded:
  assumes "listen_loop 4 evs p = (None, p')" and "\<forall>e \<in> set evs. cx_codec (fst e) = cd"
  shows "client_messages p' = client_messages p @ received cd p (map snd evs) \<and>
    listener_messages i p' =
      map_option (\<lambda>b. b @ filter (has_parent i) (received cd p (map snd evs))) (listener_messages i p)"
  using assms by (rule listen_loop_client)

theorem kernel_messages_forwarded_witness:
  "client_messages (snd (listen_loop 4 sample_events sample_proxy)) = [sample_idle] \<and>
   listener_messages ''a'' (snd (listen_loop 4 sample_events sample_proxy)) = Some [sample_idle]"
proof -
  have rc: "received proxy_codec sample_proxy (map snd sample_events) = [sample_idle]"
    by code_simp
  have "client_messages sample_proxy = []" "listener_messages ''a'' sample_proxy = Some []"
    by (simp_all add: client_messages_def listener_messages_def sample_proxy_def proxy_new_def
        sample_state_def state_new_def chan_new_def)
  moreover have "has_parent ''a'' sample_idle"
    by (simp add: has_parent_iff sample_idle_def)
  ultimately show ?thesis
    using kernel_messages_forwarded [OF sample_running sample_events_codec, of "''a''"] rc by simp
qed

section \<open>The kernel's first reply: properties\<close>

definition own_status :: "string \<Rightarrow> jupyter_message \<Rightarrow> bool" where
  "own_status i m \<longleftrightarrow> has_parent i m \<and> (case jupyter_msg_from m of Status _ \<Rightarrow> True | _ \<Rightarrow> False)"

lemma own_status_iff: "own_status i m \<longleftrightarrow> has_parent i m \<and> (\<exists>st. jupyter_msg_from m = Status st)"
  by (simp add: own_status_def split: jupyter_msg.splits)

text \<open>The output frames among the events, less the statuses the server's own request causes.\<close>

fun retained :: "'m codec \<Rightarrow> 'm proxy \<Rightarrow> string \<Rightarrow> reply_event list \<Rightarrow> zmq_message list" where
  "retained cd p i [] = []"
| "retained cd p i (IopubFrames frames # evs) =
     (case decoded cd p IOPub frames of
        Some m \<Rightarrow> if own_status i m then retained cd p i evs else frames # retained cd p i evs
      | None \<Rightarrow> retained cd p i evs)"
| "retained cd p i (_ # evs) = retained cd p i evs"

lemma retained_pending [simp]:
  "retained cd (p\<lparr>pending_iopub_messages := x\<rparr>) i evs = retained cd p i evs"
proof (induction evs)
  case (Cons e evs)
  then show ?case by (cases e) (simp_all add: decoded_def split: option.split)
qed simp

text \<open>What a wait has done: its answer is right and it kept the output of the events it took.\<close>

definition wait_ok ::
  "'m codec \<Rightarrow> string \<Rightarrow> reply_event list \<Rightarrow> 'm proxy \<Rightarrow>
     (proxy_error, jupyter_message) outcome option \<Rightarrow> 'm proxy \<Rightarrow> bool" where
  "wait_ok cd i evs p r p' \<longleftrightarrow>
     (\<forall>m. r = Some (Done m) \<longrightarrow> has_parent i m) \<and>
     (\<exists>used rest. evs = used @ rest \<and> (r = None \<longrightarrow> rest = []) \<and>
       p' = p\<lparr>pending_iopub_messages := pending_iopub_messages p @ retained cd p i used\<rparr>)"

lemma wait_ok_stop: "\<forall>m. x = Done m \<longrightarrow> has_parent i m \<Longrightarrow> wait_ok cd i evs p (Some x) p"
  unfolding wait_ok_def by (intro conjI exI [of _ "[]"] exI [of _ evs]) auto

lemma wait_ok_skip:
  "wait_ok cd i evs p r p' \<Longrightarrow> retained cd p i [e] = [] \<Longrightarrow> wait_ok cd i (e # evs) p r p'"
proof -
  assume ok: "wait_ok cd i evs p r p'" and none: "retained cd p i [e] = []"
  obtain used rest where u: "\<forall>m. r = Some (Done m) \<longrightarrow> has_parent i m" "evs = used @ rest" "r = None \<longrightarrow> rest = []"
      "p' = p\<lparr>pending_iopub_messages := pending_iopub_messages p @ retained cd p i used\<rparr>"
    using ok unfolding wait_ok_def by blast
  moreover have "retained cd p i (e # used) = retained cd p i used"
    using none by (cases e) (auto split: option.splits if_splits)
  ultimately show ?thesis
    unfolding wait_ok_def by (intro conjI exI [of _ "e # used"] exI [of _ rest]) simp_all
qed

lemma wait_ok_keep:
  assumes "wait_ok cd i evs (p\<lparr>pending_iopub_messages := pending_iopub_messages p @ [frames]\<rparr>) r p'"
    and "decoded cd p IOPub frames = Some m" and "\<not> own_status i m"
  shows "wait_ok cd i (IopubFrames frames # evs) p r p'"
proof -
  let ?q = "p\<lparr>pending_iopub_messages := pending_iopub_messages p @ [frames]\<rparr>"
  obtain used rest where "\<forall>m. r = Some (Done m) \<longrightarrow> has_parent i m" "evs = used @ rest" "r = None \<longrightarrow> rest = []"
      "p' = ?q\<lparr>pending_iopub_messages := pending_iopub_messages ?q @ retained cd ?q i used\<rparr>"
    using assms(1) unfolding wait_ok_def by blast
  then show ?thesis
    unfolding wait_ok_def using assms(2,3)
    by (intro conjI exI [of _ "IopubFrames frames # used"] exI [of _ rest]) simp_all
qed

lemma own_status_code:
  "((case parent_header m of Some parent \<Rightarrow> msg_id parent = i | None \<Rightarrow> False) \<and>
    (case jupyter_msg_from m of Status _ \<Rightarrow> True | _ \<Rightarrow> False)) = own_status i m"
  by (auto simp: own_status_iff has_parent_iff split: option.splits jupyter_msg.splits)

lemma wait_for_shell_reply_ok: "wait_for_shell_reply cd i evs p = (r, p') \<Longrightarrow> wait_ok cd i evs p r p'"
proof (induction cd i evs p rule: wait_for_shell_reply.induct)
  case (1 cd i p)
  then show ?case by (auto simp: wait_ok_def)
next
  case (2 cd i frames evs p)
  then show ?case
    by (auto simp: has_parent_iff split: outcome.splits option.splits if_splits
        intro!: wait_ok_stop wait_ok_skip)
next
  case (4 cd i frames evs p)
  show ?case
  proof (cases "to_jupyter cd IOPub (kc_hmac_key (px_connection p)) (from_zmq (px_session_id p) IOPub frames)")
    case (Done m)
    then have dec: "decoded cd p IOPub frames = Some m"
      by (simp add: decoded_def)
    show ?thesis
      using 4(1) [OF Done] 4(2) [OF Done] 4(3) Done dec
      by (cases "own_status i m") (auto simp: own_status_code intro: wait_ok_skip wait_ok_keep)
  qed (use 4(3) in \<open>auto intro!: wait_ok_stop\<close>)
qed (auto intro!: wait_ok_stop)

text \<open>
  Waiting for the kernel's first reply loses no output: the reply returned answers the
  request that was sent, and of the events taken until then every output message is retained, in
  order, for delivery to the first client, except the busy and idle statuses caused by the
  server's own request. Nothing else of the session changes.
\<close>

theorem first_reply_retains_output:
  assumes "wait_for_shell_reply cd i evs p = (r, p')"
  shows "(\<forall>m. r = Some (Done m) \<longrightarrow> has_parent i m) \<and>
    (\<exists>used rest. evs = used @ rest \<and> (r = None \<longrightarrow> rest = []) \<and>
       p' = p\<lparr>pending_iopub_messages := pending_iopub_messages p @ retained cd p i used\<rparr>)"
  using wait_for_shell_reply_ok [OF assms] by (simp add: wait_ok_def)

theorem first_reply_retains_output_witness:
  "pending_iopub_messages (snd (wait_for_shell_reply proxy_codec ''z''
     [IopubFrames [MSG_DELIM, [], ''{status}'', ''{parent}'', ''{}'', ''{idle}'']] sample_proxy)) =
     [[MSG_DELIM, [], ''{status}'', ''{parent}'', ''{}'', ''{idle}'']]"
proof -
  let ?evs = "[IopubFrames [MSG_DELIM, [], ''{status}'', ''{parent}'', ''{}'', ''{idle}'']]"
  obtain r p' where w: "wait_for_shell_reply proxy_codec ''z'' ?evs sample_proxy = (r, p')"
    by fastforce
  have "fst (wait_for_shell_reply proxy_codec ''z'' ?evs sample_proxy) = None"
    by code_simp
  moreover have "retained proxy_codec sample_proxy ''z'' ?evs =
      [[MSG_DELIM, [], ''{status}'', ''{parent}'', ''{}'', ''{idle}'']]"
    by code_simp
  moreover have "pending_iopub_messages sample_proxy = []"
    by (simp add: sample_proxy_def proxy_new_def)
  ultimately show ?thesis
    using first_reply_retains_output [OF w] w by auto
qed

end
