(* ===== verification/KC_Errors.thy ===== *)
theory KC_Errors
  imports KC_Json
begin

text \<open>
  \<open>error.rs\<close> and \<open>startup_status.rs\<close>: the errors of the server, how they are shown to a client,
  and what a startup can report. An \<open>anyhow::Error\<close> and an \<open>ExitStatus\<close> are the text they
  display as; the server only ever formats them.
\<close>

datatype ks_error =
    SessionExists string
  | SessionNotFound string
  | SessionRunning string
  | SessionNotRunning string
  | ProcessNotFound nat string
  | ProcessStartFailed string
  | SessionConnectionFailed string
  | SessionConnectionTimeout nat
  | ProcessAbnormalExit string
  | SessionCreateFailed string string
  | SessionInterruptFailed string string
  | ZmqProxyError string
  | NoProcess string
  | RestartFailed string
  | ExitedBeforeConnection
  | NoKernelInfo string
  | StartFailed string
  | HandshakeFailed string string
  | NoConnectionInfo string string
  | KernelPathNotFound string

text \<open>\<open>Display for KSError\<close>.\<close>

fun error_text :: "ks_error \<Rightarrow> string" where
  "error_text (SessionExists i) = ''Session '' @ i @ '' already exists''"
| "error_text (SessionRunning i) = ''Session '' @ i @ '' is running''"
| "error_text (SessionNotRunning i) = ''Session '' @ i @ '' is not running''"
| "error_text (ProcessStartFailed e) = ''Failed to start process for session: '' @ e"
| "error_text (ProcessAbnormalExit st) = ''The process exited abnormally ('' @ st @ '')''"
| "error_text (ProcessNotFound pid i) =
     [CHR ''C'', CHR ''a'', CHR ''n'', CHR 0x27, CHR ''t''] @ '' find process '' @ show_nat pid @ '' for session '' @ i"
| "error_text (SessionNotFound i) = ''Session '' @ i @ '' not found''"
| "error_text (SessionConnectionFailed e) =
     ''Failed to connect to session'' @ [CHR 0x27] @ ''s ZeroMQ sockets: '' @ e"
| "error_text (SessionConnectionTimeout s) =
     ''Timed out waiting to connect to session'' @ [CHR 0x27] @ ''s ZeroMQ sockets after '' @ show_nat s @ '' seconds''"
| "error_text (SessionCreateFailed i e) = ''Failed to create session '' @ i @ '': '' @ e"
| "error_text (SessionInterruptFailed i e) = ''Failed to interrupt session '' @ i @ '': '' @ e"
| "error_text (NoProcess i) =
     ''There is no process associated with session '' @ i @ '' (has it exited?)''"
| "error_text (ZmqProxyError e) = ''Error receiving or proxying ZeroMQ messages: '' @ e"
| "error_text (RestartFailed e) = ''Failed to restart kernel: '' @ e"
| "error_text ExitedBeforeConnection = ''The kernel exited before a connection could be established''"
| "error_text (NoKernelInfo e) = ''Failed to get kernel info from the kernel process: '' @ e"
| "error_text (StartFailed e) = ''Failed to start kernel: '' @ e"
| "error_text (HandshakeFailed i e) = ''JEP 66 handshake failed for session '' @ i @ '': '' @ e"
| "error_text (NoConnectionInfo i e) =
     ''Connection information is not available for session '' @ i @ '': '' @ e"
| "error_text (KernelPathNotFound p) = ''Kernel path not found: '' @ p"

text \<open>
  \<open>discriminant\<close>: the tag byte of the value, which numbers the variants in the order of their
  declaration, as the comment on the enum requires.
\<close>

fun discriminant :: "ks_error \<Rightarrow> nat" where
  "discriminant (SessionExists _) = 0"
| "discriminant (SessionNotFound _) = 1"
| "discriminant (SessionRunning _) = 2"
| "discriminant (SessionNotRunning _) = 3"
| "discriminant (ProcessNotFound _ _) = 4"
| "discriminant (ProcessStartFailed _) = 5"
| "discriminant (SessionConnectionFailed _) = 6"
| "discriminant (SessionConnectionTimeout _) = 7"
| "discriminant (ProcessAbnormalExit _) = 8"
| "discriminant (SessionCreateFailed _ _) = 9"
| "discriminant (SessionInterruptFailed _ _) = 10"
| "discriminant (ZmqProxyError _) = 11"
| "discriminant (NoProcess _) = 12"
| "discriminant (RestartFailed _) = 13"
| "discriminant ExitedBeforeConnection = 14"
| "discriminant (NoKernelInfo _) = 15"
| "discriminant (StartFailed _) = 16"
| "discriminant (HandshakeFailed _ _) = 17"
| "discriminant (NoConnectionInfo _ _) = 18"
| "discriminant (KernelPathNotFound _) = 19"

record api_error =
  ae_code :: string
  ae_message :: string
  ae_details :: "string option"

definition to_json :: "ks_error \<Rightarrow> string option \<Rightarrow> api_error" where
  "to_json e details = \<lparr>ae_code = ''KS-'' @ show_nat (discriminant e), ae_message = error_text e, ae_details = details\<rparr>"

record startup_error =
  se_exit_code :: "int option"
  se_output :: "string option"
  se_error :: api_error

datatype startup_status =
    AbnormalExit int string ks_error
  | ConnectionFailed string ks_error
  | Connected json

end
