(* ===== verification/KC_Shell.thy ===== *)
theory KC_Shell
  imports KC_Messages KC_Errors
begin

text \<open>
  \<open>kernel_session/utils.rs\<close> and \<open>kernel_session/shell_wrapper.rs\<close> on Unix: quoting of arguments
  for a shell, the markers of a startup command, and the command line that wraps a kernel in a
  shell. What the operating system says (which files exist, the user's shell) is an argument.
\<close>

section \<open>Quoting\<close>

definition quote :: char where "quote = CHR 0x27"
definition backslash :: char where "backslash = CHR 0x5C"
definition tab :: char where "tab = CHR 0x09"
definition newline :: char where "newline = CHR 0x0A"

definition special_chars :: "char set" where
  "special_chars = set ([backslash, CHR 0x22, quote, CHR 0x60, CHR ''$'', CHR ''{'', CHR ''}'', CHR ''('', CHR '')'',
     CHR ''*'', CHR ''?'', CHR ''!'', CHR '' '', tab, newline, CHR '';'', CHR ''&'', CHR ''|'', CHR ''<'', CHR ''>'',
     CHR ''['', CHR '']''])"

text \<open>The loop over \<open>s.split('\'')\<close>; \<open>n\<close> is \<open>s.len()\<close>.\<close>

fun escape_parts :: "nat \<Rightarrow> string list \<Rightarrow> string \<Rightarrow> string" where
  "escape_parts n [] result = result"
| "escape_parts n (part # parts) result =
     (let result = (if \<not> ends_with_char result quote then result @ [quote] else result);
          result = result @ part;
          result = (if part \<noteq> [] then result @ [quote] else result);
          result = (if length part < n then result @ [backslash, quote] else result)
      in escape_parts n parts result)"

definition escape_for_shell :: "string \<Rightarrow> string" where
  "escape_for_shell s =
     (if s = [] then [quote, quote]
      else if \<not> list_ex (\<lambda>c. c \<in> special_chars) s then s
      else
        (let result = escape_parts (length s) (split_on quote s) [quote]
         in if \<not> ends_with_char result quote then result @ [quote] else result))"

section \<open>Reading a shell word back\<close>

text \<open>
  The quoting rules of a POSIX shell for one word: inside single quotes every character stands
  for itself; outside, a backslash keeps the next character. A blank, a newline or an operator
  outside quotes ends the word: the result carries what follows it. \<open>None\<close>: an unterminated
  quote, or an unquoted character that starts an expansion or another form of quoting.
\<close>

definition word_end :: "char set" where
  "word_end = set [CHR '' '', tab, newline, CHR '';'', CHR ''&'', CHR ''|'', CHR ''<'', CHR ''>'', CHR ''('', CHR '')'']"

definition expanding :: "char set" where
  "expanding = set [CHR 0x22, CHR 0x60, CHR ''$'', CHR ''{'', CHR ''}'', CHR ''*'', CHR ''?'', CHR ''!'', CHR ''['', CHR '']'']"

fun shell_word :: "bool \<Rightarrow> string \<Rightarrow> string \<Rightarrow> (string \<times> string) option" where
  "shell_word True acc [] = None"
| "shell_word True acc (c # cs) =
     (if c = quote then shell_word False acc cs else shell_word True (acc @ [c]) cs)"
| "shell_word False acc [] = Some (acc, [])"
| "shell_word False acc (c # cs) =
     (if c = quote then shell_word True acc cs
      else if c = backslash then
        (case cs of [] \<Rightarrow> Some (acc @ [c], []) | d # ds \<Rightarrow> shell_word False (acc @ [d]) ds)
      else if c \<in> word_end then Some (acc, c # cs)
      else if c \<in> expanding then None
      else shell_word False (acc @ [c]) cs)"

text \<open>A word that starts with an unquoted tilde or number sign is not read literally either.\<close>

definition literal_start :: "string \<Rightarrow> bool" where
  "literal_start s = (case s of [] \<Rightarrow> True | c # cs \<Rightarrow> c \<noteq> CHR ''~'' \<and> c \<noteq> CHR 0x23)"

text \<open>A command line that a shell splits into the given words.\<close>

fun reads_as :: "string \<Rightarrow> string list \<Rightarrow> bool" where
  "reads_as s [] = (s = [])"
| "reads_as s (w # ws) =
     (literal_start s \<and>
      (case shell_word False [] s of
         None \<Rightarrow> False
       | Some (v, rest) \<Rightarrow> v = w \<and>
           (case rest of [] \<Rightarrow> ws = [] | c # cs \<Rightarrow> c = CHR '' '' \<and> ws \<noteq> [] \<and> reads_as cs ws)))"

section \<open>Startup markers\<close>

text \<open>\<open>str::lines\<close>: split at newlines, without the last empty piece and without carriage returns.\<close>

definition strip_cr :: "string \<Rightarrow> string" where
  "strip_cr l = (if ends_with_char l (CHR 0x0D) then butlast l else l)"

definition lines :: "string \<Rightarrow> string list" where
  "lines s =
     (let ps = split_on newline s in
      (if last ps = [] then map strip_cr (butlast ps) else map strip_cr (butlast ps) @ [last ps]))"

definition MARK_BEGIN :: string where "MARK_BEGIN = ''KALLICHORE_STARTUP_BEGIN''"
definition MARK_SUCCESS :: string where "MARK_SUCCESS = ''KALLICHORE_STARTUP_SUCCESS''"

definition strip_startup_markers :: "string \<Rightarrow> string" where
  "strip_startup_markers output =
     join_with [newline]
       (filter (\<lambda>l. \<not> contains_str MARK_BEGIN l \<and> \<not> contains_str MARK_SUCCESS l) (lines output))"

section \<open>The shell command\<close>

record shell_builder =
  sb_startup_env :: startup_environment
  sb_startup_arg :: "string option"
  sb_working_directory :: string

record shell_command =
  sh_program :: string
  sh_args :: "string list"
  sh_shell_used :: "string option"
  sh_startup_arg :: "string option"

text \<open>What \<open>fs::metadata\<close> says of a path: \<open>None\<close> with an error text, or whether it is a regular file.\<close>

type_synonym metadata_fn = "string \<Rightarrow> string + bool"

definition path_join :: "string \<Rightarrow> string \<Rightarrow> string" where
  "path_join base rel =
     (if starts_with ''/'' rel then rel
      else if base = [] \<or> ends_with_char base (CHR ''/'') then base @ rel
      else base @ ''/'' @ rel)"

fun first_existing :: "metadata_fn \<Rightarrow> string list \<Rightarrow> string option" where
  "first_existing meta [] = None"
| "first_existing meta (p # ps) =
     (if p = [] then first_existing meta ps
      else (case meta p of Inr _ \<Rightarrow> Some p | Inl _ \<Rightarrow> first_existing meta ps))"

text \<open>\<open>find_shell\<close>: the user's shell when it exists, else Bash, else sh.\<close>

definition find_shell :: "string option \<Rightarrow> metadata_fn \<Rightarrow> string option" where
  "find_shell SHELL meta =
     first_existing meta [case SHELL of Some s \<Rightarrow> s | None \<Rightarrow> [], ''/bin/bash'', ''/bin/sh'']"

definition marked :: "string \<Rightarrow> string \<Rightarrow> string" where
  "marked inner kernel_command =
     ''echo '' @ [quote] @ MARK_BEGIN @ [quote] @ '' && { '' @ inner @ ''; } && echo '' @
     [quote] @ MARK_SUCCESS @ [quote] @ '' && '' @ kernel_command"

definition wrap_with_startup_command :: "shell_builder \<Rightarrow> string \<Rightarrow> string" where
  "wrap_with_startup_command b kernel_command =
     (case sb_startup_arg b of
        Some cmd \<Rightarrow> marked cmd kernel_command
      | None \<Rightarrow> kernel_command)"

definition start_failed :: "string \<Rightarrow> startup_error" where
  "start_failed msg = \<lparr>se_exit_code = None, se_output = None, se_error = to_json (ProcessStartFailed msg) None\<rparr>"

definition shell_name :: "string \<Rightarrow> string" where
  "shell_name shell = last (split_on (CHR ''/'') shell)"

definition wrap_with_startup_script ::
  "metadata_fn \<Rightarrow> shell_builder \<Rightarrow> string \<Rightarrow> string \<Rightarrow> startup_error + string" where
  "wrap_with_startup_script meta b kernel_command login_shell =
     (case sb_startup_arg b of
        None \<Rightarrow> Inr kernel_command
      | Some path \<Rightarrow>
          (let script_path =
             (if starts_with ''/'' path then path else path_join (sb_working_directory b) path) in
           case meta script_path of
             Inl e \<Rightarrow> Inl (start_failed (''Startup script not found or cannot be read: '' @ [quote] @ script_path @
                         [quote] @ '' ('' @ e @ '')''))
           | Inr is_file \<Rightarrow>
               if \<not> is_file then
                 Inl (start_failed (''Startup script path '' @ [quote] @ script_path @ [quote] @
                        '' exists but is not a file''))
               else
                 (let source_cmd = (if shell_name login_shell \<in> {''csh'', ''tcsh''} then ''source'' else ''.'') in
                  Inr (marked (source_cmd @ '' '' @ escape_for_shell script_path) kernel_command))))"

definition get_shell_flags :: "string \<Rightarrow> bool \<Rightarrow> string list" where
  "get_shell_flags shell is_interactive =
     (let name = shell_name shell;
          login_flag =
            (if name = ''csh'' \<or> name = ''tcsh'' then ''-d''
             else if name = ''bash'' \<or> name = ''zsh'' then ''--login''
             else ''-l'')
      in if \<not> is_interactive then [login_flag]
         else if name = ''csh'' \<or> name = ''tcsh'' then [''-i'']
         else [login_flag, ''-i''])"

definition build_shell_command ::
  "string option \<Rightarrow> metadata_fn \<Rightarrow> shell_builder \<Rightarrow> string list \<Rightarrow> startup_error + shell_command option" where
  "build_shell_command SHELL meta b argv =
     (case find_shell SHELL meta of
        None \<Rightarrow> Inr None
      | Some shell \<Rightarrow>
          (let is_interactive = sb_startup_arg b \<noteq> None;
               kernel_command = join_with '' '' (map escape_for_shell argv);
               wrapped =
                 (case sb_startup_env b of
                    EnvCommand \<Rightarrow> Inr (wrap_with_startup_command b kernel_command)
                  | EnvScript \<Rightarrow> wrap_with_startup_script meta b kernel_command shell
                  | _ \<Rightarrow> Inr kernel_command)
           in case wrapped of
                Inl e \<Rightarrow> Inl e
              | Inr c \<Rightarrow> Inr (Some
                  \<lparr>sh_program = shell, sh_args = get_shell_flags shell is_interactive @ [''-c'', c],
                   sh_shell_used = Some shell, sh_startup_arg = sb_startup_arg b\<rparr>)))"

definition build_command ::
  "string option \<Rightarrow> metadata_fn \<Rightarrow> shell_builder \<Rightarrow> string list \<Rightarrow> startup_error + shell_command option" where
  "build_command SHELL meta b argv =
     (case sb_startup_env b of
        EnvNone \<Rightarrow> Inr None
      | _ \<Rightarrow> build_shell_command SHELL meta b argv)"

section \<open>Lemmas\<close>

lemma shell_word_quoted:
  "quote \<notin> set s \<Longrightarrow> shell_word True acc (s @ quote # cs) = shell_word False (acc @ s) cs"
  by (induction s arbitrary: acc) auto

lemma special_disjoint:
  "c \<notin> special_chars \<Longrightarrow> c \<noteq> quote \<and> c \<noteq> backslash \<and> c \<notin> word_end \<and> c \<notin> expanding"
  by (auto simp: special_chars_def word_end_def expanding_def)

lemma shell_word_plain:
  "\<forall>c \<in> set s. c \<notin> special_chars \<Longrightarrow> shell_word False acc (s @ cs) = shell_word False (acc @ s) cs"
  by (induction s arbitrary: acc) (simp_all add: special_disjoint)

lemma shell_word_stop:
  "rest = [] \<or> hd rest \<in> word_end \<Longrightarrow> shell_word False acc rest = Some (acc, rest)"
  by (cases rest) (auto simp: word_end_def quote_def backslash_def tab_def newline_def)

lemma escape_quote_free:
  assumes "quote \<notin> set s" and "list_ex (\<lambda>c. c \<in> special_chars) s"
  shows "escape_for_shell s = quote # s @ [quote]"
  using assms by (auto simp: escape_for_shell_def split_on_no_sep ends_with_char_def Let_def)

lemma shell_word_escape:
  assumes "quote \<notin> set s" and "rest = [] \<or> hd rest \<in> word_end"
  shows "shell_word False [] (escape_for_shell s @ rest) = Some (s, rest)"
proof (cases "s = [] \<or> list_ex (\<lambda>c. c \<in> special_chars) s")
  case True
  then have "escape_for_shell s = quote # s @ [quote]"
    using escape_quote_free [OF assms(1)] by (auto simp: escape_for_shell_def)
  then show ?thesis
    using shell_word_quoted [OF assms(1), of "[]" rest] shell_word_stop [OF assms(2)] by simp
next
  case False
  then have "escape_for_shell s = s" and "\<forall>c \<in> set s. c \<notin> special_chars"
    by (auto simp: escape_for_shell_def list_ex_iff)
  then show ?thesis
    using shell_word_plain [of s "[]" rest] shell_word_stop [OF assms(2)] by simp
qed

lemma literal_start_escape:
  assumes "quote \<notin> set s" and "literal_start s"
  shows "literal_start (escape_for_shell s @ rest)"
proof (cases "s = [] \<or> list_ex (\<lambda>c. c \<in> special_chars) s")
  case True
  then have "escape_for_shell s = quote # s @ [quote]"
    using escape_quote_free [OF assms(1)] by (auto simp: escape_for_shell_def)
  then show ?thesis
    by (simp add: literal_start_def quote_def)
next
  case False
  then have "escape_for_shell s = s" "s \<noteq> []"
    by (auto simp: escape_for_shell_def)
  then show ?thesis
    using assms(2) by (cases s) (simp_all add: literal_start_def)
qed

lemma reads_as_join:
  "\<forall>a \<in> set args. quote \<notin> set a \<and> literal_start a \<Longrightarrow> args \<noteq> [] \<Longrightarrow>
     reads_as (join_with '' '' (map escape_for_shell args)) args"
proof (induction args rule: induct_list012)
  case (2 a)
  then show ?case
    using shell_word_escape [of a "[]"] literal_start_escape [of a "[]"] by simp
next
  case (3 a b args)
  have blank: "hd ('' '' @ r) \<in> word_end" for r
    by (simp add: word_end_def)
  let ?rest = "'' '' @ join_with '' '' (map escape_for_shell (b # args))"
  have "shell_word False [] (escape_for_shell a @ ?rest) = Some (a, ?rest)"
    using 3(3) blank by (intro shell_word_escape) simp_all
  moreover have "literal_start (escape_for_shell a @ ?rest)"
    using 3(3) by (intro literal_start_escape) simp_all
  ultimately show ?case
    using 3(2,3) by simp
qed simp

text \<open>Lines and markers.\<close>

lemma contains_split:
  assumes "contains_str pat (l @ c # m)" and "c \<notin> set pat"
  shows "contains_str pat l \<or> contains_str pat m"
proof -
  obtain as bs where eq: "l @ c # m = as @ pat @ bs"
    using assms(1) by (auto simp: contains_str_iff)
  then obtain us where "(l @ us = as \<and> c # m = us @ pat @ bs) \<or> (l = as @ us \<and> us @ c # m = pat @ bs)"
    by (auto simp: append_eq_append_conv2)
  then show ?thesis
  proof
    assume "l @ us = as \<and> c # m = us @ pat @ bs"
    then show ?thesis
      using assms(2) by (cases us; cases pat) (auto simp: contains_str_iff)
  next
    assume *: "l = as @ us \<and> us @ c # m = pat @ bs"
    have "length pat \<le> length us"
    proof (rule ccontr)
      assume "\<not> length pat \<le> length us"
      then have "(us @ c # m) ! length us = pat ! length us" "length us < length pat"
        using * by (simp_all add: nth_append)
      then show False
        using assms(2) by (metis nth_append_length nth_mem)
    qed
    then have "us = pat @ drop (length pat) us"
      using * by (metis append_eq_append_conv_if append_take_drop_id)
    then show ?thesis
      using * by (metis contains_str_iff)
  qed
qed

lemma contains_join:
  "contains_str pat (join_with [c] ls) \<Longrightarrow> c \<notin> set pat \<Longrightarrow> pat \<noteq> [] \<Longrightarrow> \<exists>l \<in> set ls. contains_str pat l"
proof (induction ls rule: induct_list012)
  case (3 a b ls)
  then show ?case
    using contains_split [of pat a c "join_with [c] (b # ls)"] by auto
qed simp_all

lemma strip_markers:
  "\<not> contains_str MARK_BEGIN (strip_startup_markers output)"
  "\<not> contains_str MARK_SUCCESS (strip_startup_markers output)"
proof -
  have "newline \<notin> set MARK_BEGIN" "MARK_BEGIN \<noteq> []" "newline \<notin> set MARK_SUCCESS" "MARK_SUCCESS \<noteq> []"
    by (simp_all add: newline_def MARK_BEGIN_def MARK_SUCCESS_def)
  then show "\<not> contains_str MARK_BEGIN (strip_startup_markers output)"
    "\<not> contains_str MARK_SUCCESS (strip_startup_markers output)"
    unfolding strip_startup_markers_def by (auto dest!: contains_join)
qed

section \<open>Properties\<close>

text \<open>
  Wrapping a kernel in a shell does not change its arguments: when no argument contains a
  single quote or starts with a tilde or a number sign, the shell splits the command line the
  server builds into exactly the argument list it was given, whatever blanks, operators,
  variables or wildcards the arguments contain.
\<close>

theorem argv_survives_shell:
  assumes "\<forall>a \<in> set argv. quote \<notin> set a \<and> literal_start a" and "argv \<noteq> []"
  shows "reads_as (join_with '' '' (map escape_for_shell argv)) argv"
  using assms by (rule reads_as_join)

theorem argv_survives_shell_witness:
  "reads_as (join_with '' '' (map escape_for_shell [''R'', ''--args'', ''a b; $HOME'', []]))
     [''R'', ''--args'', ''a b; $HOME'', []]"
  by (rule argv_survives_shell) (simp_all add: quote_def literal_start_def)

text \<open>
  An argument with a single quote in it is quoted wrongly: what precedes the quote is
  quoted, but what follows it reaches the shell unquoted, so that it is split, expanded or
  executed there, and a stray backslash is appended. Read back by a shell, \<open>it's\<close> becomes
  \<open>it's\<close> followed by a backslash, and \<open>a'b; x\<close> ends the command at the semicolon.
\<close>

theorem quote_leaves_rest_unquoted:
  assumes "quote \<notin> set p" and "quote \<notin> set r" and "p \<noteq> []" and "r \<noteq> []"
  shows "escape_for_shell (p @ quote # r) =
      [quote] @ p @ [quote, backslash, quote] @ r @ [quote, backslash, quote] \<and>
    shell_word False [] (escape_for_shell (p @ quote # r)) =
      shell_word False (p @ [quote]) (r @ [quote, backslash, quote])"
proof -
  have split: "split_on quote (p @ quote # r) = [p, r]"
    using assms(1,2) by (induction p) (auto simp: split_on_no_sep)
  have "list_ex (\<lambda>c. c \<in> special_chars) (p @ quote # r)"
    by (simp add: special_chars_def list_ex_iff)
  moreover have "quote \<noteq> backslash"
    by (simp add: quote_def backslash_def)
  ultimately have esc: "escape_for_shell (p @ quote # r) =
      [quote] @ p @ [quote, backslash, quote] @ r @ [quote, backslash, quote]"
    using assms(3,4) by (simp add: escape_for_shell_def split ends_with_char_def Let_def)
  have "shell_word False [] (escape_for_shell (p @ quote # r)) =
      shell_word False p ([backslash, quote] @ r @ [quote, backslash, quote])"
    using shell_word_quoted [OF assms(1), of "[]" "[backslash, quote] @ r @ [quote, backslash, quote]"]
    by (simp add: esc)
  also have "\<dots> = shell_word False (p @ [quote]) (r @ [quote, backslash, quote])"
    using \<open>quote \<noteq> backslash\<close> by simp
  finally show ?thesis
    using esc by blast
qed

theorem quote_leaves_rest_unquoted_witness:
  "shell_word False [] (escape_for_shell (''it'' @ quote # ''s'')) = Some (''it'' @ quote # ''s'' @ [backslash], []) \<and>
   shell_word False [] (escape_for_shell (''a'' @ quote # ''b; x'')) =
     Some (''a'' @ quote # ''b'', ''; x'' @ [quote, backslash, quote])"
proof -
  have "shell_word False (''it'' @ [quote]) (''s'' @ [quote, backslash, quote]) =
      Some (''it'' @ quote # ''s'' @ [backslash], [])"
    and "shell_word False (''a'' @ [quote]) (''b; x'' @ [quote, backslash, quote]) =
      Some (''a'' @ quote # ''b'', ''; x'' @ [quote, backslash, quote])"
    by code_simp+
  moreover have "quote \<notin> set ''it''" "quote \<notin> set ''s''" "quote \<notin> set ''a''" "quote \<notin> set ''b; x''"
    by (simp_all add: quote_def)
  ultimately show ?thesis
    using quote_leaves_rest_unquoted [of "''it''" "''s''"] quote_leaves_rest_unquoted [of "''a''" "''b; x''"]
    by (metis list.distinct(1))
qed

text \<open>
  The internal startup markers never reach a user: whatever a startup command printed, the
  text kept of it contains neither marker.
\<close>

lemma no_marker_leaks:
  "\<not> contains_str MARK_BEGIN (strip_startup_markers output) \<and>
   \<not> contains_str MARK_SUCCESS (strip_startup_markers output)"
  by (simp add: strip_markers)

end
