(* ===== verification/KC_Lifecycle.thy ===== *)
theory KC_Lifecycle
  imports KC_State KC_Shell
begin

text \<open>
  The life of a kernel process: \<open>kernel_session/startup.rs\<close> (validation, arguments, the result of
  a start), \<open>kernel_session/process.rs\<close> (the task that waits for the process),
  \<open>kernel_session/lifecycle.rs\<close> (shutdown, restart, interrupt) and \<open>working_dir.rs\<close>
  (\<open>expand_path\<close>). What the operating system answers is a field of \<open>os\<close>, an argument of the
  operations that ask.
\<close>

record os =
  os_cwd :: "nat \<Rightarrow> string option"
  os_home :: "string option"
  os_canonicalize :: "string \<Rightarrow> string option"
  os_is_dir :: "string \<Rightarrow> bool option"
  os_interrupt :: "nat \<Rightarrow> bool"
  os_send_error :: string

text \<open>\<open>expand_path\<close> on Unix; \<open>os_home\<close> is \<open>HOME\<close> or the password entry.\<close>

definition expand_path :: "os \<Rightarrow> string \<Rightarrow> string option" where
  "expand_path os path =
     (case path of
        CHR ''~'' # remainder \<Rightarrow>
          (case os_home os of
             None \<Rightarrow> None
           | Some home \<Rightarrow>
               os_canonicalize os
                 (if remainder = [] then home
                  else if hd remainder = CHR ''/'' \<or> hd remainder = backslash then path_join home (tl remainder)
                  else path_join home remainder))
      | _ \<Rightarrow> os_canonicalize os path)"

section \<open>Starting\<close>

definition validate_startup :: "string list \<Rightarrow> startup_error + unit" where
  "validate_startup argv = (if argv = [] then Inl (start_failed ''No arguments provided'') else Inr ())"

text \<open>\<open>str::replace\<close> for a non-empty pattern: left to right, without overlap.\<close>

function replace_str :: "string \<Rightarrow> string \<Rightarrow> string \<Rightarrow> string" where
  "replace_str pat new [] = []"
| "replace_str pat new (c # s) =
     (if pat \<noteq> [] \<and> starts_with pat (c # s) then new @ replace_str pat new (drop (length pat) (c # s))
      else c # replace_str pat new s)"
  by pat_completeness auto
termination
  by (relation "measure (\<lambda>(p, n, s). length s)") auto

definition connection_file_var :: string where
  "connection_file_var = ''{connection_file}''"

definition substitute_connection_file :: "string list \<Rightarrow> string \<Rightarrow> string list" where
  "substitute_connection_file argv path =
     map (\<lambda>arg. if contains_str connection_file_var arg then replace_str connection_file_var path arg else arg) argv"

text \<open>A struct some of whose fields may be missing: each field with whether it is optional.\<close>

fun opt_fields :: "(string \<times> bool) list \<Rightarrow> json \<Rightarrow> json option list option" where
  "opt_fields fs (JObject kvs) =
     (if list_all (\<lambda>(f, optional). optional \<or> map_of kvs f \<noteq> None) fs
      then Some (map (\<lambda>(f, _). map_of kvs f) fs) else None)"
| "opt_fields fs (JArray xs) = (if length xs = length fs then Some (map Some xs) else None)"
| "opt_fields fs _ = None"

text \<open>An \<open>Option\<close> field: missing and \<open>null\<close> are \<open>None\<close>. The outer option is a type error.\<close>

definition opt_value :: "(json \<Rightarrow> 'a option) \<Rightarrow> json option \<Rightarrow> 'a option option" where
  "opt_value f v =
     (case v of None \<Rightarrow> Some None | Some JNull \<Rightarrow> Some None | Some x \<Rightarrow> map_option Some (f x))"

definition vec_of :: "(json \<Rightarrow> 'a option) \<Rightarrow> json \<Rightarrow> 'a list option" where
  "vec_of f v = (case as_array v of Some xs \<Rightarrow> all_some (map f xs) | None \<Rightarrow> None)"

definition parse_help_link :: "json \<Rightarrow> (string \<times> string) option" where
  "parse_help_link v =
     (case struct_fields [''text'', ''url''] v of
        Some [t, u] \<Rightarrow> (case (as_str t, as_str u) of (Some t, Some u) \<Rightarrow> Some (t, u) | _ \<Rightarrow> None)
      | _ \<Rightarrow> None)"

definition parse_positron :: "json \<Rightarrow> (string option \<times> string option) option" where
  "parse_positron v =
     (case opt_fields [(''input_prompt'', True), (''continuation_prompt'', True)] v of
        Some [i, c] \<Rightarrow>
          (case (opt_value as_str i, opt_value as_str c) of
             (Some i, Some c) \<Rightarrow> Some (i, c) | _ \<Rightarrow> None)
      | _ \<Rightarrow> None)"

text \<open>Of a language only the Positron prompts are used; the rest must be there and well-typed.\<close>

definition parse_language_info :: "json \<Rightarrow> (string option \<times> string option) option option" where
  "parse_language_info v =
     (case opt_fields [(''name'', False), (''version'', False), (''mimetype'', False), (''file_extension'', False),
             (''pygments_lexer'', True), (''codemirror_mode'', True), (''nbconvert_exporter'', True),
             (''positron'', True)] v of
        Some [Some a, Some b, Some c, Some d, _, _, _, p] \<Rightarrow>
          (if as_str a \<noteq> None \<and> as_str b \<noteq> None \<and> as_str c \<noteq> None \<and> as_str d \<noteq> None
           then opt_value parse_positron p else None)
      | _ \<Rightarrow> None)"

definition parse_kernel_info :: "json \<Rightarrow> (string option \<times> string option) option option" where
  "parse_kernel_info v =
     (case opt_fields [(''status'', False), (''supported_features'', True), (''protocol_version'', False),
             (''language_info'', False), (''banner'', False), (''debugger'', True), (''help_links'', False)] v of
        Some [Some st, sf, Some pv, Some li, Some ba, de, Some hl] \<Rightarrow>
          (if as_str st \<noteq> None \<and> opt_value (vec_of as_str) sf \<noteq> None \<and> as_str pv \<noteq> None \<and>
              as_str ba \<noteq> None \<and> opt_value as_bool de \<noteq> None \<and> vec_of parse_help_link hl \<noteq> None
           then parse_language_info li else None)
      | _ \<Rightarrow> None)"

definition set_prompts :: "string option \<times> string option \<Rightarrow> kernel_state \<Rightarrow> kernel_state" where
  "set_prompts prompts s =
     (let s = (case fst prompts of Some i \<Rightarrow> s\<lparr>ks_input_prompt := i\<rparr> | None \<Rightarrow> s)
      in (case snd prompts of Some c \<Rightarrow> s\<lparr>ks_continuation_prompt := c\<rparr> | None \<Rightarrow> s))"

definition handle_kernel_info ::
  "(nat \<Rightarrow> string option) \<Rightarrow> instant \<Rightarrow> json \<Rightarrow> kernel_state \<Rightarrow> kernel_state option" where
  "handle_kernel_info cwd now info s =
     (let s = set_kernel_info info s in
      case (if ks_status s = Uninitialized \<or> ks_status s = Starting \<or> ks_status s = Ready
            then set_status cwd now Idle (Some ''kernel_info_reply received'') s else Some s) of
        None \<Rightarrow> None
      | Some s \<Rightarrow>
          Some (case parse_kernel_info info of
             Some (Some prompts) \<Rightarrow> set_prompts prompts s
           | _ \<Rightarrow> s))"

section \<open>The result of a start\<close>

text \<open>What the coordinator knows for its reports.\<close>

record coordinator =
  co_startup_environment :: startup_environment
  co_shell_used :: "string option"
  co_startup_command :: "string option"

definition context_line :: "string \<Rightarrow> string option \<Rightarrow> string" where
  "context_line label x = (case x of Some s \<Rightarrow> label @ s @ nl | None \<Rightarrow> [])"

text \<open>The shared shape of the two reports: which of the three stages failed.\<close>

definition stage_report :: "string \<Rightarrow> string \<Rightarrow> string \<Rightarrow> string \<Rightarrow> string \<Rightarrow> string" where
  "stage_report output context_text kernel_failed startup_failed not_run =
     context_text @ (if contains_str MARK_BEGIN output then
                 (if contains_str MARK_SUCCESS output then kernel_failed else startup_failed)
               else not_run)"

definition determine_connection_failure_context :: "coordinator \<Rightarrow> string \<Rightarrow> string" where
  "determine_connection_failure_context co output =
     (let shell_context = context_line ''Shell: '' (co_shell_used co) in
      case co_startup_environment co of
        EnvCommand \<Rightarrow>
          stage_report output (shell_context @ context_line ''Startup command: '' (co_startup_command co))
            ''Kernel failed to connect to ZeroMQ sockets'' ''Startup command failed to execute''
            ''Startup command failed before execution''
      | EnvScript \<Rightarrow>
          stage_report output (shell_context @ context_line ''Startup script: '' (co_startup_command co))
            ''Kernel failed to connect to ZeroMQ sockets'' ''Startup script failed to execute''
            ''Startup script failed before execution''
      | _ \<Rightarrow> ''Kernel failed to connect to ZeroMQ sockets'')"

definition determine_abnormal_exit_context :: "coordinator \<Rightarrow> string \<Rightarrow> string" where
  "determine_abnormal_exit_context co output =
     (let shell_context = context_line ''Shell: '' (co_shell_used co) in
      case co_startup_environment co of
        EnvCommand \<Rightarrow>
          stage_report output (shell_context @ context_line ''Startup command: '' (co_startup_command co))
            ''Kernel failed to start'' ''Startup command failed'' ''Startup command could not be executed''
      | EnvScript \<Rightarrow>
          stage_report output (shell_context @ context_line ''Startup script: '' (co_startup_command co))
            ''Kernel failed to start'' ''Startup script failed'' ''Startup script could not be executed''
      | _ \<Rightarrow> ''Kernel failed to start'')"

text \<open>\<open>Inl\<close> is the error of a closed channel.\<close>

definition process_startup_result :: "coordinator \<Rightarrow> string + startup_status \<Rightarrow> startup_error + json" where
  "process_startup_result co r =
     (case r of
        Inr (Connected info) \<Rightarrow> Inr info
      | Inr (ConnectionFailed output err) \<Rightarrow>
          Inl \<lparr>se_exit_code = Some 130, se_output = Some (strip_startup_markers output),
               se_error = to_json err (Some (determine_connection_failure_context co output))\<rparr>
      | Inr (AbnormalExit code output err) \<Rightarrow>
          Inl \<lparr>se_exit_code = Some code, se_output = Some (strip_startup_markers output),
               se_error = to_json err (Some (determine_abnormal_exit_context co output))\<rparr>
      | Inl e \<Rightarrow> Inl \<lparr>se_exit_code = None, se_output = None, se_error = to_json (StartFailed e) None\<rparr>)"

section \<open>The process monitor\<close>

text \<open>\<open>consume_output_streams\<close> empties the client channel and keeps the text of the output messages.\<close>

fun output_text :: "websocket_message list \<Rightarrow> string" where
  "output_text [] = []"
| "output_text (Kernel (Output k t) # ms) = t @ output_text ms"
| "output_text (m # ms) = output_text ms"

definition consume_output_streams :: "kernel_state \<Rightarrow> string \<times> kernel_state" where
  "consume_output_streams s =
     (output_text (ch_buf (ks_ws_json_tx s)), s\<lparr>ks_ws_json_tx := (ks_ws_json_tx s)\<lparr>ch_buf := []\<rparr>\<rparr>)"

text \<open>
  \<open>run_child\<close> once the process has ended with an exit code, or by a signal (\<open>None\<close>). The result
  is \<open>None\<close> when one of its \<open>expect\<close>s panics. The exit event is notified after the status
  has changed, so a state it returns is one in which the listeners have been woken.
\<close>

definition run_child ::
  "(nat \<Rightarrow> string option) \<Rightarrow> instant \<Rightarrow> int option \<Rightarrow> string \<Rightarrow> startup_status chan \<Rightarrow> kernel_state \<Rightarrow>
     (startup_status chan \<times> kernel_state) option" where
  "run_child cwd now exit_code exit_text startup_tx s =
     (let code = (case exit_code of Some c \<Rightarrow> c | None \<Rightarrow> - 1) in
      case (if ks_status s = Starting then
              (let (output, s) = consume_output_streams s in
               map_option (\<lambda>tx. (tx, s))
                 (chan_send (AbnormalExit code output (ProcessAbnormalExit exit_text)) startup_tx))
            else Some (startup_tx, s)) of
        None \<Rightarrow> None
      | Some (tx, s) \<Rightarrow>
          (case set_status cwd now Exited (Some ''child process exited'') s of
             None \<Rightarrow> None
           | Some s \<Rightarrow> map_option (Pair tx) (ws_send (Kernel (ExitedMsg code)) s)))"

section \<open>Shutdown, restart and interrupt\<close>

record session =
  ss_state :: kernel_state
  ss_zmq_tx :: "jupyter_message chan"
  ss_interrupt_mode :: interrupt_mode

definition shutdown_message :: "string \<Rightarrow> bool \<Rightarrow> jupyter_message" where
  "shutdown_message i restart =
     \<lparr>header = \<lparr>msg_id = i, msg_type = ''shutdown_request''\<rparr>, parent_header = None, channel = Control,
      content = JObject [(''restart'', JBool restart)], metadata = JObject [], buffers = []\<rparr>"

definition interrupt_message :: "string \<Rightarrow> jupyter_message" where
  "interrupt_message i =
     \<lparr>header = \<lparr>msg_id = i, msg_type = ''interrupt_request''\<rparr>, parent_header = None, channel = Control,
      content = JObject [], metadata = JObject [], buffers = []\<rparr>"

definition zmq_send :: "jupyter_message \<Rightarrow> session \<Rightarrow> session option" where
  "zmq_send m s = map_option (\<lambda>c. s\<lparr>ss_zmq_tx := c\<rparr>) (chan_send m (ss_zmq_tx s))"

definition shutdown :: "string \<Rightarrow> session \<Rightarrow> session option" where
  "shutdown i s = zmq_send (shutdown_message i False) s"

definition restart_failed :: "string \<Rightarrow> string option \<Rightarrow> startup_error" where
  "restart_failed msg details =
     \<lparr>se_exit_code = None, se_output = None, se_error = to_json (RestartFailed msg) details\<rparr>"

text \<open>The requested directory, when it can be expanded and is a directory.\<close>

definition requested_directory :: "os \<Rightarrow> string option \<Rightarrow> string option" where
  "requested_directory os wd =
     (case wd of
        None \<Rightarrow> None
      | Some dir \<Rightarrow>
          (case expand_path os dir of
             None \<Rightarrow> None
           | Some d \<Rightarrow> (case os_is_dir os d of Some True \<Rightarrow> Some d | _ \<Rightarrow> None)))"

definition restart_request ::
  "os \<Rightarrow> string \<Rightarrow> string option \<Rightarrow> var_action list option \<Rightarrow> session \<Rightarrow> (startup_error, unit) outcome \<times> session" where
  "restart_request os i working_directory env s =
     (if ks_restarting (ss_state s) then (Fail (restart_failed ''Kernel is already restarting'' None), s)
      else
        (case (case requested_directory os working_directory of
                 Some dir \<Rightarrow> Some ((ss_state s)\<lparr>ks_working_directory := dir\<rparr>)
               | None \<Rightarrow> poll_working_dir (os_cwd os) (ss_state s)) of
           None \<Rightarrow> (Panic, s)
         | Some st \<Rightarrow>
             (let st = (case env of Some e \<Rightarrow> st\<lparr>ks_env_vars := e\<rparr> | None \<Rightarrow> st);
                  s = s\<lparr>ss_state := st\<lparr>ks_restarting := True\<rparr>\<rparr> in
              case zmq_send (shutdown_message i True) s of
                Some s \<Rightarrow> (Done (), s)
              | None \<Rightarrow>
                  (Fail (restart_failed ''Failed to send shutdown request to kernel'' (Some (os_send_error os))),
                   s\<lparr>ss_state := (ss_state s)\<lparr>ks_restarting := False\<rparr>\<rparr>))))"

text \<open>\<open>wait_for_exit_and_signal\<close> once its listener has been woken.\<close>

definition exit_signalled :: "kernel_state \<Rightarrow> bool \<times> kernel_state" where
  "exit_signalled s = (if \<not> ks_restarting s then (False, s) else (True, s\<lparr>ks_restarting := False\<rparr>))"

definition interrupt :: "os \<Rightarrow> string \<Rightarrow> session \<Rightarrow> (string, unit) outcome \<times> session" where
  "interrupt os i s =
     (case ss_interrupt_mode s of
        SignalMode \<Rightarrow>
          (let pid = (case ks_process_id (ss_state s) of Some p \<Rightarrow> p | None \<Rightarrow> 0) in
           if pid = 0 then (Fail ''No process ID to interrupt'', s)
           else if \<not> os_interrupt os pid then (Fail (''Failed to interrupt process '' @ show_nat pid), s)
           else (Done (), s))
      | MessageMode \<Rightarrow>
          (case zmq_send (interrupt_message i) s of
             Some s \<Rightarrow> (Done (), s)
           | None \<Rightarrow> (Fail (os_send_error os), s)))"

section \<open>The restart protocol as a transition system\<close>

text \<open>
  A restart is carried out by the task that asked for it, while another task waits for the
  process. The exit event wakes only tasks that are listening when it is notified: the phase
  \<open>ShutdownSent\<close> is the time between sending the request and starting to listen.
\<close>

datatype restart_phase = ShutdownSent | Listening | Woken | Signalled bool

record restart_system =
  rs_phase :: restart_phase
  rs_running :: bool
  rs_startup_tx :: "startup_status chan"
  rs_state :: kernel_state

inductive restart_step :: "(nat \<Rightarrow> string option) \<Rightarrow> restart_system \<Rightarrow> restart_system \<Rightarrow> bool" for cwd where
  listen: "rs_phase r = ShutdownSent \<Longrightarrow> restart_step cwd r (r\<lparr>rs_phase := Listening\<rparr>)"
| exits: "rs_running r \<Longrightarrow> run_child cwd now code e (rs_startup_tx r) (rs_state r) = Some (tx, s) \<Longrightarrow>
    restart_step cwd r (r\<lparr>rs_running := False, rs_startup_tx := tx, rs_state := s,
      rs_phase := (if rs_phase r = Listening then Woken else rs_phase r)\<rparr>)"
| signal: "rs_phase r = Woken \<Longrightarrow> exit_signalled (rs_state r) = (b, s) \<Longrightarrow>
    restart_step cwd r (r\<lparr>rs_phase := Signalled b, rs_state := s\<rparr>)"

inductive_cases restart_stepE: "restart_step cwd r r'"

section \<open>Lemmas\<close>

lemma set_status_exited:
  assumes "ch_open (ks_ws_json_tx s)" and "ks_status s \<noteq> Exited"
  shows "\<exists>s'. set_status cwd now Exited reason s = Some s' \<and> ks_status s' = Exited \<and>
    ks_queue s' = queue_clear (ks_queue s) \<and> ks_process_id s' = None \<and> ks_restarting s' = ks_restarting s \<and>
    ks_ws_json_tx s' = (ks_ws_json_tx s)\<lparr>ch_buf := ch_buf (ks_ws_json_tx s) @ [Kernel (StatusMsg Exited reason)]\<rparr>"
  using assms by (auto simp: set_status_def enter_status_def nudge_idle_def Let_def ws_send_def chan_send_def)

lemma ws_send_open:
  "ch_open (ks_ws_json_tx s) \<Longrightarrow>
     ws_send m s = Some (s\<lparr>ks_ws_json_tx := (ks_ws_json_tx s)\<lparr>ch_buf := ch_buf (ks_ws_json_tx s) @ [m]\<rparr>\<rparr>)"
  by simp

lemma run_child_effect:
  assumes "ch_open (ks_ws_json_tx s)" and "ch_open tx" and "ks_status s \<noteq> Exited"
  shows "\<exists>tx' s'. run_child cwd now code e tx s = Some (tx', s') \<and> ks_status s' = Exited \<and>
    ks_queue s' = queue_clear (ks_queue s) \<and> ks_process_id s' = None \<and> ks_restarting s' = ks_restarting s \<and>
    ch_open (ks_ws_json_tx s') \<and>
    (let c = (case code of Some c \<Rightarrow> c | None \<Rightarrow> - 1); buf = ch_buf (ks_ws_json_tx s) in
     ch_buf (ks_ws_json_tx s') = (if ks_status s = Starting then [] else buf) @
       [Kernel (StatusMsg Exited (Some ''child process exited'')), Kernel (ExitedMsg c)] \<and>
     ch_buf tx' = ch_buf tx @
       (if ks_status s = Starting then [AbnormalExit c (output_text buf) (ProcessAbnormalExit e)] else []))"
proof (cases "ks_status s = Starting")
  case True
  let ?s = "s\<lparr>ks_ws_json_tx := (ks_ws_json_tx s)\<lparr>ch_buf := []\<rparr>\<rparr>"
  have "ch_open (ks_ws_json_tx ?s)" "ks_status ?s \<noteq> Exited"
    using assms by simp_all
  from set_status_exited [OF this, of cwd now "Some ''child process exited''"] show ?thesis
    using assms True
    by (auto simp: run_child_def consume_output_streams_def ws_send_open chan_send_def Let_def simp del: ws_send_Some)
next
  case False
  from set_status_exited [OF assms(1,3), of cwd now "Some ''child process exited''"] show ?thesis
    using assms False by (auto simp: run_child_def ws_send_open Let_def simp del: ws_send_Some)
qed

lemma set_status_kernel_info:
  assumes "set_status cwd now st reason s = Some s'"
  shows "ks_kernel_info s' = ks_kernel_info s"
  using assms
  by (auto simp: set_status_def enter_status_def nudge_idle_def Let_def split: option.splits if_splits
      dest!: poll_working_dir_frame)

lemma poll_working_dir_restarting:
  "poll_working_dir cwd s = Some s' \<Longrightarrow> ks_restarting s' = ks_restarting s"
  using poll_working_dir_frame by blast

lemma requested_directory_Some:
  "requested_directory os wd = Some d \<Longrightarrow> \<exists>w. wd = Some w \<and> expand_path os w = Some d \<and> os_is_dir os d = Some True"
  by (auto simp: requested_directory_def split: option.splits bool.splits)

text \<open>A session for the witnesses.\<close>

definition sample_os :: os where
  "sample_os = \<lparr>os_cwd = (\<lambda>_. None), os_home = Some ''/home/u'', os_canonicalize = Some,
     os_is_dir = (\<lambda>d. Some (d = ''/home/u/w'')), os_interrupt = (\<lambda>_. True), os_send_error = ''closed''\<rparr>"

definition sample_ctl :: session where
  "sample_ctl = \<lparr>ss_state = sample_state, ss_zmq_tx = chan_new, ss_interrupt_mode = MessageMode\<rparr>"

lemma sample_state_simps [simp]:
  "ch_open (ks_ws_json_tx sample_state)" "ks_status sample_state = Idle" "\<not> ks_restarting sample_state"
  "ch_buf (ks_ws_json_tx sample_state) = []" "ks_process_id sample_state = None"
  by (simp_all add: sample_state_def state_new_def chan_new_def)

section \<open>Properties\<close>

text \<open>
  When the kernel process ends, the session ends with it, exactly once: the status becomes
  \<open>Exited\<close>, the waiting requests and the process identifier are dropped, and the client is told
  the exit and then the exit code (or -1 after a signal). If the process ended while it was
  still starting, whoever waits for the start is given the exit code and everything the process
  had printed, and that output is taken from the client's channel.
\<close>

theorem process_exit_reported:
  assumes "ch_open (ks_ws_json_tx s)" and "ch_open tx" and "ks_status s \<noteq> Exited"
  shows "\<exists>tx' s'. run_child cwd now code e tx s = Some (tx', s') \<and> ks_status s' = Exited \<and>
    active (ks_queue s') = None \<and> pending (ks_queue s') = [] \<and> ks_process_id s' = None \<and>
    (let c = (case code of Some c \<Rightarrow> c | None \<Rightarrow> - 1); buf = ch_buf (ks_ws_json_tx s) in
     ch_buf (ks_ws_json_tx s') = (if ks_status s = Starting then [] else buf) @
       [Kernel (StatusMsg Exited (Some ''child process exited'')), Kernel (ExitedMsg c)] \<and>
     ch_buf tx' = ch_buf tx @
       (if ks_status s = Starting then [AbnormalExit c (output_text buf) (ProcessAbnormalExit e)] else []))"
  using run_child_effect [OF assms, of cwd now code e] by (auto simp: queue_clear_def Let_def)

theorem process_exit_reported_witness:
  "\<exists>tx' s'. run_child (\<lambda>_. None) 9 None ''signal: 9'' chan_new sample_state = Some (tx', s') \<and>
     ch_buf (ks_ws_json_tx s') =
       [Kernel (StatusMsg Exited (Some ''child process exited'')), Kernel (ExitedMsg (- 1))]"
proof -
  have "ch_open (chan_new :: startup_status chan)"
    by (simp add: chan_new_def)
  with process_exit_reported [of sample_state chan_new "\<lambda>_. None" 9 None "''signal: 9''"] show ?thesis
    by (auto simp: Let_def)
qed

text \<open>
  A restart is requested at most once at a time. While one is under way a second request
  is refused and changes nothing; otherwise, with the kernel's channel open, exactly one
  \<open>shutdown_request\<close> that announces a restart is queued on the control channel and the session
  is marked as restarting, in the requested directory if that exists; and with the channel
  closed the request fails and leaves the mark off.
\<close>

theorem restart_request_once:
  assumes "ch_open (ks_ws_json_tx (ss_state s))"
  shows "\<exists>r s'. restart_request os i wd env s = (r, s') \<and> r \<noteq> Panic \<and>
    (if ks_restarting (ss_state s)
     then r = Fail (restart_failed ''Kernel is already restarting'' None) \<and> s' = s
     else
       (case requested_directory os wd of Some d \<Rightarrow> ks_working_directory (ss_state s') = d | None \<Rightarrow> True) \<and>
       (case env of Some e \<Rightarrow> ks_env_vars (ss_state s') = e | None \<Rightarrow> ks_env_vars (ss_state s') = ks_env_vars (ss_state s)) \<and>
       (if ch_open (ss_zmq_tx s)
        then r = Done () \<and> ks_restarting (ss_state s') \<and>
             ch_buf (ss_zmq_tx s') = ch_buf (ss_zmq_tx s) @ [shutdown_message i True]
        else r \<noteq> Done () \<and> \<not> ks_restarting (ss_state s') \<and> ss_zmq_tx s' = ss_zmq_tx s))"
proof (cases "ks_restarting (ss_state s)")
  case True
  then show ?thesis by (simp add: restart_request_def)
next
  case False
  obtain st where st: "(case requested_directory os wd of
                 Some dir \<Rightarrow> Some ((ss_state s)\<lparr>ks_working_directory := dir\<rparr>)
               | None \<Rightarrow> poll_working_dir (os_cwd os) (ss_state s)) = Some st"
    using poll_working_dir_total [OF assms, of "os_cwd os"] by (cases "requested_directory os wd") auto
  then have "case requested_directory os wd of Some d \<Rightarrow> ks_working_directory st = d | None \<Rightarrow> True"
    and "ks_env_vars st = ks_env_vars (ss_state s)"
    by (auto split: option.splits dest: poll_working_dir_frame)
  then show ?thesis
    using False st
    by (cases "requested_directory os wd"; cases env)
       (auto simp: restart_request_def zmq_send_def chan_send_def Let_def)
qed

theorem restart_request_once_witness:
  "\<exists>s'. restart_request sample_os ''m'' (Some ''~/w'') None sample_ctl = (Done (), s') \<and>
     ks_working_directory (ss_state s') = ''/home/u/w'' \<and> ch_buf (ss_zmq_tx s') = [shutdown_message ''m'' True]"
proof -
  have "requested_directory sample_os (Some ''~/w'') = Some ''/home/u/w''"
    by (simp add: requested_directory_def expand_path_def sample_os_def path_join_def ends_with_char_def)
  then show ?thesis
    using restart_request_once [of sample_ctl sample_os "''m''" "Some ''~/w''" None]
    by (auto simp: sample_ctl_def chan_new_def)
qed

text \<open>
  A restart that is listening when the process ends goes through: whatever the process does
  next, its exit wakes the restart, which then clears the mark and goes on to start the kernel
  again.
\<close>

theorem listening_restart_completes:
  assumes "rs_phase r = Listening" and "ks_restarting (rs_state r)"
    and "ch_open (ks_ws_json_tx (rs_state r))" and "ch_open (rs_startup_tx r)" and "ks_status (rs_state r) \<noteq> Exited"
    and "rs_running r"
  shows "(\<exists>r'. restart_step cwd r r') \<and>
    (\<forall>r'. restart_step cwd r r' \<longrightarrow>
       rs_phase r' = Woken \<and> (\<exists>r''. restart_step cwd r' r'') \<and>
       (\<forall>r''. restart_step cwd r' r'' \<longrightarrow> rs_phase r'' = Signalled True \<and> \<not> ks_restarting (rs_state r'') \<and>
          ks_status (rs_state r'') = Exited))"
proof -
  obtain tx s where "run_child cwd 0 None [] (rs_startup_tx r) (rs_state r) = Some (tx, s)"
    using run_child_effect [OF assms(3,4,5), of cwd 0 None "[]"] by blast
  then have "\<exists>r'. restart_step cwd r r'"
    using exits [OF assms(6)] by blast
  moreover have "rs_phase r' = Woken \<and> ks_restarting (rs_state r') \<and> \<not> rs_running r' \<and> ks_status (rs_state r') = Exited"
    if "restart_step cwd r r'" for r'
    using that run_child_effect [OF assms(3,4,5)] assms(1,2)
    by (auto elim!: restart_stepE) (metis option.inject prod.inject)+
  moreover have "\<exists>r''. restart_step cwd r' r''" if "rs_phase r' = Woken" "ks_restarting (rs_state r')" for r'
  proof
    show "restart_step cwd r' (r'\<lparr>rs_phase := Signalled True, rs_state := (rs_state r')\<lparr>ks_restarting := False\<rparr>\<rparr>)"
      by (rule signal) (use that in \<open>simp_all add: exit_signalled_def\<close>)
  qed
  moreover have "rs_phase r'' = Signalled True \<and> \<not> ks_restarting (rs_state r'') \<and> ks_status (rs_state r'') = Exited"
    if "restart_step cwd r' r''" "rs_phase r' = Woken" "ks_restarting (rs_state r')" "\<not> rs_running r'"
      "ks_status (rs_state r') = Exited" for r' r''
    using that by (auto simp: exit_signalled_def elim!: restart_stepE)
  ultimately show ?thesis by blast
qed

text \<open>
  A restart can be lost for good. If the process ends in the time between sending the
  request and starting to listen, the restart is not woken: nothing of it can take a further
  step, so that, unless the kernel is started by other means, the session stays exited and marked as restarting, and every later attempt to restart
  it is refused.
\<close>

theorem restart_lost_when_exit_is_early:
  assumes "rs_phase r = ShutdownSent" and "ks_restarting (rs_state r)"
    and "ch_open (ks_ws_json_tx (rs_state r))" and "ch_open (rs_startup_tx r)" and "ks_status (rs_state r) \<noteq> Exited"
    and "rs_running r"
  shows "\<exists>r'. (restart_step cwd)\<^sup>*\<^sup>* r r' \<and> rs_phase r' = Listening \<and> ks_status (rs_state r') = Exited \<and>
    ks_restarting (rs_state r') \<and> (\<forall>r''. \<not> restart_step cwd r' r'') \<and>
    (\<forall>s os i wd env. ss_state s = rs_state r' \<longrightarrow>
       restart_request os i wd env s = (Fail (restart_failed ''Kernel is already restarting'' None), s))"
proof -
  obtain tx s where s: "run_child cwd 0 None [] (rs_startup_tx r) (rs_state r) = Some (tx, s)"
      "ks_status s = Exited" "ks_restarting s"
    using run_child_effect [OF assms(3,4,5), of cwd 0 None "[]"] assms(2) by auto
  let ?r1 = "r\<lparr>rs_running := False, rs_startup_tx := tx, rs_state := s\<rparr>"
  let ?r2 = "?r1\<lparr>rs_phase := Listening\<rparr>"
  have "restart_step cwd r (r\<lparr>rs_running := False, rs_startup_tx := tx, rs_state := s,
      rs_phase := (if rs_phase r = Listening then Woken else rs_phase r)\<rparr>)"
    by (rule exits [OF assms(6) s(1)])
  moreover have "r\<lparr>rs_running := False, rs_startup_tx := tx, rs_state := s,
      rs_phase := (if rs_phase r = Listening then Woken else rs_phase r)\<rparr> = ?r1"
    using assms(1) by simp
  ultimately have "restart_step cwd r ?r1"
    by simp
  moreover have "restart_step cwd ?r1 ?r2"
    using listen [of ?r1 cwd] assms(1) by simp
  ultimately have "(restart_step cwd)\<^sup>*\<^sup>* r ?r2"
    by (meson converse_rtranclp_into_rtranclp r_into_rtranclp)
  moreover have "\<not> restart_step cwd ?r2 r''" for r''
    by (auto elim!: restart_stepE)
  ultimately show ?thesis
    using s by (intro exI [of _ ?r2]) (auto simp: restart_request_def)
qed

definition sample_restart :: "restart_phase \<Rightarrow> restart_system" where
  "sample_restart ph = \<lparr>rs_phase = ph, rs_running = True, rs_startup_tx = chan_new,
     rs_state = sample_state\<lparr>ks_restarting := True\<rparr>\<rparr>"

theorem listening_restart_completes_witness:
  "\<exists>r'. restart_step (\<lambda>_. None) (sample_restart Listening) r' \<and> rs_phase r' = Woken"
  using listening_restart_completes [of "sample_restart Listening" "\<lambda>_. None"]
  by (auto simp: sample_restart_def chan_new_def)

theorem restart_lost_when_exit_is_early_witness:
  "\<exists>r'. (restart_step (\<lambda>_. None))\<^sup>*\<^sup>* (sample_restart ShutdownSent) r' \<and> rs_phase r' = Listening \<and>
     ks_status (rs_state r') = Exited \<and> (\<forall>r''. \<not> restart_step (\<lambda>_. None) r' r'')"
  using restart_lost_when_exit_is_early [of "sample_restart ShutdownSent" "\<lambda>_. None"]
  by (auto simp: sample_restart_def chan_new_def)

text \<open>
  What a failed start reports never shows the internal markers and names the stage that
  failed: for a startup command, the kernel itself only if both markers were printed, the
  command if only the first was, and a command that could not run if neither was. A start that
  connects returns the kernel's information unchanged.
\<close>

theorem startup_result_reported:
  "process_startup_result co (Inr (Connected info)) = Inr info \<and>
   (\<exists>e. process_startup_result co (Inr (AbnormalExit code output err)) = Inl e \<and>
     se_exit_code e = Some code \<and> ae_message (se_error e) = error_text err \<and>
     (\<exists>out. se_output e = Some out \<and> \<not> contains_str MARK_BEGIN out \<and> \<not> contains_str MARK_SUCCESS out) \<and>
     (co_startup_environment co = EnvCommand \<longrightarrow>
        (\<exists>pre. ae_details (se_error e) = Some (pre @
          (if contains_str MARK_BEGIN output
           then (if contains_str MARK_SUCCESS output then ''Kernel failed to start'' else ''Startup command failed'')
           else ''Startup command could not be executed'')))))"
proof -
  have "\<not> contains_str MARK_BEGIN (strip_startup_markers output)"
    "\<not> contains_str MARK_SUCCESS (strip_startup_markers output)"
    by (simp_all add: strip_markers)
  then show ?thesis
    by (simp add: process_startup_result_def to_json_def determine_abnormal_exit_context_def
        stage_report_def Let_def)
qed

theorem startup_result_reported_witness:
  "\<exists>e. process_startup_result \<lparr>co_startup_environment = EnvCommand, co_shell_used = None, co_startup_command = None\<rparr>
      (Inr (AbnormalExit 1 (MARK_BEGIN @ nl @ ''not found'') (ProcessAbnormalExit ''1''))) = Inl e \<and> se_exit_code e = Some 1"
  using startup_result_reported
    [of "\<lparr>co_startup_environment = EnvCommand, co_shell_used = None, co_startup_command = None\<rparr>" JNull 1
        "MARK_BEGIN @ nl @ ''not found''" "ProcessAbnormalExit ''1''"]
  by blast

text \<open>
  A kernel that answers becomes runnable without waiting for its first status message: from
  a startup state its information moves the session to \<open>Idle\<close>; a status the kernel has already
  reported itself is kept. The information is stored either way.
\<close>

theorem kernel_info_promotes:
  assumes "ch_open (ks_ws_json_tx s)"
  shows "\<exists>s'. handle_kernel_info cwd now info s = Some s' \<and> ks_kernel_info s' = Some info \<and>
    ks_status s' = (if ks_status s \<in> {Uninitialized, Starting, Ready} then Idle else ks_status s)"
proof -
  let ?s = "set_kernel_info info s"
  have prompts: "ks_status (set_prompts p t) = ks_status t \<and> ks_kernel_info (set_prompts p t) = ks_kernel_info t" for p t
    by (simp add: set_prompts_def Let_def split: option.splits)
  have "\<exists>t. (if ks_status ?s = Uninitialized \<or> ks_status ?s = Starting \<or> ks_status ?s = Ready
      then set_status cwd now Idle (Some ''kernel_info_reply received'') ?s else Some ?s) = Some t \<and>
      ks_status t = (if ks_status s \<in> {Uninitialized, Starting, Ready} then Idle else ks_status s) \<and>
      ks_kernel_info t = Some info"
  proof (cases "ks_status s \<in> {Uninitialized, Starting, Ready}")
    case True
    have "ch_open (ks_ws_json_tx ?s)"
      using assms by (simp add: set_kernel_info_def)
    then obtain t where t: "set_status cwd now Idle (Some ''kernel_info_reply received'') ?s = Some t"
      using set_status_total by blast
    moreover have "ks_status t = Idle" "ks_kernel_info t = ks_kernel_info ?s"
      using set_status_change [OF t] set_status_kernel_info [OF t] True by (auto simp: set_kernel_info_def)
    ultimately show ?thesis
      using True by (auto simp: set_kernel_info_def)
  qed (auto simp: set_kernel_info_def)
  then obtain t where t: "(if ks_status ?s = Uninitialized \<or> ks_status ?s = Starting \<or> ks_status ?s = Ready
      then set_status cwd now Idle (Some ''kernel_info_reply received'') ?s else Some ?s) = Some t"
      "ks_status t = (if ks_status s \<in> {Uninitialized, Starting, Ready} then Idle else ks_status s)"
      "ks_kernel_info t = Some info"
    by blast
  have "handle_kernel_info cwd now info s =
      Some (case parse_kernel_info info of Some (Some p) \<Rightarrow> set_prompts p t | _ \<Rightarrow> t)"
    unfolding handle_kernel_info_def Let_def t(1) by simp
  then show ?thesis
    using t(2,3) prompts by (simp split: option.splits)
qed

theorem kernel_info_promotes_witness:
  "\<exists>s'. handle_kernel_info (\<lambda>_. None) 3 JNull (sample_state\<lparr>ks_status := Starting\<rparr>) = Some s' \<and> ks_status s' = Idle"
  using kernel_info_promotes [of "sample_state\<lparr>ks_status := Starting\<rparr>" "\<lambda>_. None" 3 JNull] by auto

end
