(* ===== verification/KC_Execute.thy ===== *)
theory KC_Execute
  imports KC_Lifecycle
begin

text \<open>
  \<open>kernel_session/execute.rs\<close>: running code in a session on behalf of a REST or MCP call and
  collecting everything the kernel emits in response. The call shares the session's queue with
  its clients: it registers a listener for its message identifier, sends the request the way a
  client would, and collects what the proxy passes to the listener. Messages, deadlines and
  cancellations arrive as events; the rendering of JSON as text is a parameter.
\<close>

section \<open>Data\<close>

record execute_options =
  eo_code :: string
  eo_silent :: bool
  eo_store_history :: bool
  eo_stop_on_error :: bool
  eo_attribution :: "execution_attribution option"

datatype execute_error = NotReady string | SendFailed string | Timeout | Cancelled | ChannelClosed

datatype output_type = StreamOutput | DisplayDataOutput | ErrorOutput

record execute_output =
  out_type :: output_type
  out_stream_name :: "string option"
  out_text :: "string option"
  out_data :: "(string \<times> string) list option"
  out_metadata :: "json option"
  out_error_name :: "string option"
  out_error_message :: "string option"
  out_error_traceback :: "string list option"

definition execute_output_new :: "output_type \<Rightarrow> execute_output" where
  "execute_output_new t = \<lparr>out_type = t, out_stream_name = None, out_text = None, out_data = None,
     out_metadata = None, out_error_name = None, out_error_message = None, out_error_traceback = None\<rparr>"

datatype reply_status = ReplyOk | ReplyError

record execute_reply =
  er_status :: reply_status
  er_count :: "32 word"
  er_output :: "execute_output list"
  er_data :: "(string \<times> string) list option"
  er_error_name :: "string option"
  er_error_message :: "string option"
  er_error_traceback :: "string list option"

section \<open>Collecting\<close>

text \<open>The local variables of \<open>collect_execution_output\<close>.\<close>

record collector =
  co_reply :: execute_reply
  co_got_reply :: bool
  co_got_idle :: bool
  co_streamed :: "string chan option"

definition collector_new :: "string chan option \<Rightarrow> collector" where
  "collector_new stream_tx =
     \<lparr>co_reply = \<lparr>er_status = ReplyOk, er_count = 0, er_output = [], er_data = None, er_error_name = None,
                  er_error_message = None, er_error_traceback = None\<rparr>,
      co_got_reply = False, co_got_idle = False, co_streamed = stream_tx\<rparr>"

definition get_text :: "string \<Rightarrow> json \<Rightarrow> string option" where
  "get_text k v = (case json_get k v of Some x \<Rightarrow> as_str x | None \<Rightarrow> None)"

definition get_i64 :: "string \<Rightarrow> json \<Rightarrow> int option" where
  "get_i64 k v = (case json_get k v of Some x \<Rightarrow> as_i64 x | None \<Rightarrow> None)"

definition mime_map :: "(json \<Rightarrow> string) \<Rightarrow> json option \<Rightarrow> (string \<times> string) list option" where
  "mime_map show_json v =
     (case v of
        None \<Rightarrow> None
      | Some x \<Rightarrow> map_option (map (\<lambda>(k, y). (k, case as_str y of Some s \<Rightarrow> s | None \<Rightarrow> show_json y))) (as_object x))"

definition traceback :: "json option \<Rightarrow> string list option" where
  "traceback v =
     (case v of None \<Rightarrow> None | Some x \<Rightarrow> map_option (List.map_filter as_str) (as_array x))"

text \<open>The output entry a message adds, if any.\<close>

definition output_entry :: "(json \<Rightarrow> string) \<Rightarrow> jupyter_message \<Rightarrow> execute_output option" where
  "output_entry show_json m =
     (let c = content m; t = msg_type (header m) in
      if t = ''stream'' then
        Some ((execute_output_new StreamOutput)\<lparr>out_stream_name := get_text ''name'' c, out_text := get_text ''text'' c\<rparr>)
      else if t = ''display_data'' then
        Some ((execute_output_new DisplayDataOutput)
          \<lparr>out_data := mime_map show_json (json_get ''data'' c), out_metadata := json_get ''metadata'' c\<rparr>)
      else if t = ''error'' then
        Some ((execute_output_new ErrorOutput)
          \<lparr>out_error_name := get_text ''ename'' c, out_error_message := get_text ''evalue'' c,
           out_error_traceback := traceback (json_get ''traceback'' c)\<rparr>)
      else None)"

definition push_entry :: "execute_output option \<Rightarrow> collector \<Rightarrow> collector" where
  "push_entry e co =
     (case e of
        None \<Rightarrow> co
      | Some x \<Rightarrow> co\<lparr>co_reply := (co_reply co)\<lparr>er_output := er_output (co_reply co) @ [x]\<rparr>\<rparr>)"

definition stream_text :: "jupyter_message \<Rightarrow> collector \<Rightarrow> collector" where
  "stream_text m co =
     (case (co_streamed co, get_text ''text'' (content m)) of
        (Some tx, Some t) \<Rightarrow> co\<lparr>co_streamed := Some (chan_try t tx)\<rparr>
      | _ \<Rightarrow> co)"

definition take_result :: "(json \<Rightarrow> string) \<Rightarrow> json \<Rightarrow> execute_reply \<Rightarrow> execute_reply" where
  "take_result show_json c r =
     r\<lparr>er_data := mime_map show_json (json_get ''data'' c),
       er_count := word_of_int (case get_i64 ''execution_count'' c of Some n \<Rightarrow> n | None \<Rightarrow> 0)\<rparr>"

definition take_reply :: "json \<Rightarrow> execute_reply \<Rightarrow> execute_reply" where
  "take_reply c r =
     (let status = (case get_text ''status'' c of Some s \<Rightarrow> s | None \<Rightarrow> ''ok'');
          r = r\<lparr>er_status := (if status = ''error'' then ReplyError else ReplyOk)\<rparr>;
          r = r\<lparr>er_count := word_of_int (case get_i64 ''execution_count'' c of Some n \<Rightarrow> n | None \<Rightarrow> sint (er_count r))\<rparr>
      in if status = ''error'' then
           r\<lparr>er_error_name := get_text ''ename'' c, er_error_message := get_text ''evalue'' c,
             er_error_traceback := traceback (json_get ''traceback'' c)\<rparr>
         else r)"

text \<open>One message: the \<open>match\<close> on its type, and whether the loop ends (\<open>break\<close>).\<close>

definition collect_message :: "(json \<Rightarrow> string) \<Rightarrow> jupyter_message \<Rightarrow> collector \<Rightarrow> bool \<times> collector" where
  "collect_message show_json m co =
     (let c = content m; t = msg_type (header m) in
      if t = ''stream'' then (False, push_entry (output_entry show_json m) (stream_text m co))
      else if t = ''display_data'' \<or> t = ''error'' then (False, push_entry (output_entry show_json m) co)
      else if t = ''execute_result'' then (False, co\<lparr>co_reply := take_result show_json c (co_reply co)\<rparr>)
      else if t = ''execute_reply'' then
        (co_got_idle co, co\<lparr>co_reply := take_reply c (co_reply co), co_got_reply := True\<rparr>)
      else if t = ''status'' then
        (if get_text ''execution_state'' c = Some ''idle''
         then (co_got_reply co, co\<lparr>co_got_idle := True\<rparr>) else (False, co))
      else (False, co))"

datatype rpc_event = RpcMessage jupyter_message | RpcTimeout | RpcCancelled | RpcClosed

text \<open>The loop: \<open>None\<close> while it still waits at the end of the events.\<close>

fun collect_execution_output ::
  "(json \<Rightarrow> string) \<Rightarrow> rpc_event list \<Rightarrow> collector \<Rightarrow> (execute_error + execute_reply) option" where
  "collect_execution_output show_json [] co = None"
| "collect_execution_output show_json (RpcCancelled # evs) co = Some (Inl Cancelled)"
| "collect_execution_output show_json (RpcTimeout # evs) co = Some (Inl Timeout)"
| "collect_execution_output show_json (RpcClosed # evs) co = Some (Inl ChannelClosed)"
| "collect_execution_output show_json (RpcMessage m # evs) co =
     (case collect_message show_json m co of
        (True, co) \<Rightarrow> Some (Inr (co_reply co))
      | (False, co) \<Rightarrow> collect_execution_output show_json evs co)"

section \<open>Waiting for a starting kernel\<close>

text \<open>The polls of the status with whether the deadline of thirty seconds has passed by then.\<close>

fun wait_until_runnable :: "(status \<times> bool) list \<Rightarrow> (execute_error + unit) option" where
  "wait_until_runnable [] = None"
| "wait_until_runnable ((st, late) # polls) =
     (if st = Idle \<or> st = Busy then Some (Inr ())
      else if st = Offline \<or> st = Exited then
        Some (Inl (NotReady (''Session is in '' @ [quote] @ status_name st @ [quote] @
                '' state; must be idle or busy to execute code'')))
      else if late then
        Some (Inl (NotReady (''Session did not become ready within 30s (last status: '' @ [quote] @
                status_name st @ [quote] @ '')'')))
      else wait_until_runnable polls)"

section \<open>The call\<close>

definition opt_string :: "string option \<Rightarrow> json" where
  "opt_string s = (case s of Some t \<Rightarrow> JString t | None \<Rightarrow> JNull)"

definition attribution_json :: "execution_attribution \<Rightarrow> json" where
  "attribution_json a = JObject
     [(''agent_name'', opt_string (attr_agent_name a)), (''agent_version'', opt_string (attr_agent_version a)),
      (''source'', JString (attr_source a)), (''tool'', JString (attr_tool a)),
      (''workspace_id'', JString (attr_workspace_id a))]"

definition execute_message :: "string \<Rightarrow> execute_options \<Rightarrow> jupyter_message" where
  "execute_message i o1 =
     \<lparr>header = \<lparr>msg_id = i, msg_type = ''execute_request''\<rparr>, parent_header = None, channel = Shell,
      content = JObject
        [(''allow_stdin'', JBool False), (''code'', JString (eo_code o1)), (''silent'', JBool (eo_silent o1)),
         (''stop_on_error'', JBool (eo_stop_on_error o1)), (''store_history'', JBool (eo_store_history o1)),
         (''user_expressions'', JObject [])],
      metadata = (case eo_attribution o1 of
                    Some a \<Rightarrow> JObject [(''attribution'', attribution_json a)] | None \<Rightarrow> JObject []),
      buffers = []\<rparr>"

definition announce_execution ::
  "instant \<Rightarrow> string \<Rightarrow> string \<Rightarrow> execution_attribution \<Rightarrow> kernel_state \<Rightarrow> kernel_state" where
  "announce_execution now i code a s =
     s\<lparr>ks_ws_json_tx := chan_try (Kernel (ExecutionRequested i code now a)) (ks_ws_json_tx s)\<rparr>"

definition set_listener :: "string \<Rightarrow> jupyter_message chan option \<Rightarrow> session \<Rightarrow> session" where
  "set_listener i c s =
     s\<lparr>ss_state := (ss_state s)\<lparr>ks_rpc_listeners := (ks_rpc_listeners (ss_state s))(i := c)\<rparr>\<rparr>"

text \<open>The call up to the point where it starts to collect.\<close>

definition execute_begin :: "instant \<Rightarrow> string \<Rightarrow> string \<Rightarrow> execute_options \<Rightarrow> session \<Rightarrow> (execute_error + unit) \<times> session" where
  "execute_begin now i send_error o1 s =
     (let s = set_listener i (Some chan_new) s;
          s = (case eo_attribution o1 of
                 Some a \<Rightarrow> s\<lparr>ss_state := announce_execution now i (eo_code o1) a (ss_state s)\<rparr>
               | None \<Rightarrow> s)
      in case zmq_send (execute_message i o1) s of
           None \<Rightarrow> (Inl (SendFailed send_error), set_listener i None s)
         | Some s \<Rightarrow> (Inr (), s))"

text \<open>\<open>abandon\<close>: an interrupt that fails is only logged.\<close>

definition abandon :: "os \<Rightarrow> string \<Rightarrow> string \<Rightarrow> session \<Rightarrow> session" where
  "abandon os i interrupt_id s =
     (let q = ks_queue (ss_state s); (found, q') = remove_pending i q in
      if found then s\<lparr>ss_state := (ss_state s)\<lparr>ks_queue := q'\<rparr>\<rparr>
      else
        (case active q of
           Some a \<Rightarrow> if msg_id (header a) = i then snd (interrupt os interrupt_id s) else s
         | None \<Rightarrow> s))"

text \<open>The end of the call, once the collection has returned.\<close>

definition execute_end ::
  "os \<Rightarrow> string \<Rightarrow> string \<Rightarrow> execute_error + execute_reply \<Rightarrow> session \<Rightarrow> session" where
  "execute_end os i interrupt_id result s =
     (let s = set_listener i None s in
      if result = Inl Timeout \<or> result = Inl Cancelled then abandon os i interrupt_id s else s)"

section \<open>Lemmas\<close>

definition is_reply :: "jupyter_message \<Rightarrow> bool" where
  "is_reply m \<longleftrightarrow> msg_type (header m) = ''execute_reply''"

definition is_idle :: "jupyter_message \<Rightarrow> bool" where
  "is_idle m \<longleftrightarrow> msg_type (header m) = ''status'' \<and> get_text ''execution_state'' (content m) = Some ''idle''"

text \<open>The loop ends with the message after which both signals have been seen.\<close>

lemma collect_message_flags:
  assumes "collect_message sj m co = (b, co')"
  shows "co_got_reply co' = (co_got_reply co \<or> is_reply m) \<and> co_got_idle co' = (co_got_idle co \<or> is_idle m) \<and>
    (\<not> (co_got_reply co \<and> co_got_idle co) \<longrightarrow> b = (co_got_reply co' \<and> co_got_idle co'))"
proof -
  have "co_got_reply (push_entry e c) = co_got_reply c" "co_got_idle (push_entry e c) = co_got_idle c" for e c
    by (simp_all add: push_entry_def split: option.splits)
  moreover have "co_got_reply (stream_text m c) = co_got_reply c" "co_got_idle (stream_text m c) = co_got_idle c" for c
    by (simp_all add: stream_text_def split: option.splits)
  ultimately show ?thesis
    using assms by (auto simp: collect_message_def is_reply_def is_idle_def Let_def split: if_splits)
qed

text \<open>A message that is neither signal only adds to the reply.\<close>

definition add_message :: "(json \<Rightarrow> string) \<Rightarrow> jupyter_message \<Rightarrow> execute_reply \<Rightarrow> execute_reply" where
  "add_message sj m r =
     (let r = (case output_entry sj m of None \<Rightarrow> r | Some e \<Rightarrow> r\<lparr>er_output := er_output r @ [e]\<rparr>) in
      if msg_type (header m) = ''execute_result'' then take_result sj (content m) r
      else if is_reply m then take_reply (content m) r else r)"

lemma collect_message_reply: "co_reply (snd (collect_message sj m co)) = add_message sj m (co_reply co)"
proof -
  have "co_reply (stream_text m c) = co_reply c" for c
    by (simp add: stream_text_def split: option.splits)
  then show ?thesis
    by (simp add: collect_message_def add_message_def output_entry_def push_entry_def is_reply_def Let_def
        split: option.splits)
qed

definition collect_all :: "(json \<Rightarrow> string) \<Rightarrow> jupyter_message list \<Rightarrow> collector \<Rightarrow> collector" where
  "collect_all sj ms co = fold (\<lambda>m co. snd (collect_message sj m co)) ms co"

definition complete :: "jupyter_message list \<Rightarrow> bool" where
  "complete ms \<longleftrightarrow> list_ex is_reply ms \<and> list_ex is_idle ms"

lemma collect_all_flags:
  "co_got_reply (collect_all sj ms co) = (co_got_reply co \<or> list_ex is_reply ms) \<and>
   co_got_idle (collect_all sj ms co) = (co_got_idle co \<or> list_ex is_idle ms)"
proof (induction ms arbitrary: co)
  case (Cons m ms)
  then show ?case
    using collect_message_flags [of sj m co] by (cases "collect_message sj m co") (simp add: collect_all_def)
qed (simp add: collect_all_def)

lemma collect_all_reply: "co_reply (collect_all sj ms co) = fold (add_message sj) ms (co_reply co)"
  by (induction ms arbitrary: co) (simp_all add: collect_all_def collect_message_reply)

text \<open>Messages that do not complete the reply are taken and the loop goes on.\<close>

lemma collect_until:
  "\<not> ((co_got_reply co \<or> list_ex is_reply pre) \<and> (co_got_idle co \<or> list_ex is_idle pre)) \<Longrightarrow>
     collect_execution_output sj (map RpcMessage pre @ evs) co =
     collect_execution_output sj evs (collect_all sj pre co)"
proof (induction pre arbitrary: co)
  case (Cons m pre)
  obtain b co' where step: "collect_message sj m co = (b, co')"
    by fastforce
  have flags: "co_got_reply co' = (co_got_reply co \<or> is_reply m)" "co_got_idle co' = (co_got_idle co \<or> is_idle m)"
      "\<not> b"
    using collect_message_flags [OF step] Cons.prems by auto
  then show ?case
    using Cons.IH [of co'] Cons.prems step by (auto simp: collect_all_def)
qed (simp add: collect_all_def)

lemma collect_complete:
  assumes "\<not> complete pre" and "complete (pre @ [m])"
  shows "collect_execution_output sj (map RpcMessage (pre @ [m]) @ evs) (collector_new tx) =
    Some (Inr (fold (add_message sj) (pre @ [m]) (co_reply (collector_new tx))))"
proof -
  let ?co = "collect_all sj pre (collector_new tx)"
  have "collect_execution_output sj (map RpcMessage pre @ RpcMessage m # evs) (collector_new tx) =
      collect_execution_output sj (RpcMessage m # evs) ?co"
    using assms(1) by (intro collect_until) (simp add: complete_def collector_new_def)
  moreover obtain b co' where step: "collect_message sj m ?co = (b, co')"
    by fastforce
  moreover have b
    using collect_message_flags [OF step] collect_all_flags [of sj pre "collector_new tx"] assms
    by (auto simp: complete_def collector_new_def)
  moreover have "co_reply co' = fold (add_message sj) (pre @ [m]) (co_reply (collector_new tx))"
    using collect_message_reply [of sj m ?co] collect_all_reply [of sj pre] step by simp
  ultimately show ?thesis
    by simp
qed

text \<open>What a list of messages contributes to each part of the reply.\<close>

definition entries_of :: "(json \<Rightarrow> string) \<Rightarrow> jupyter_message list \<Rightarrow> execute_output list" where
  "entries_of sj ms = List.map_filter (output_entry sj) ms"

lemma fold_add_output: "er_output (fold (add_message sj) ms r) = er_output r @ entries_of sj ms"
proof (induction ms arbitrary: r)
  case (Cons m ms)
  have "er_output (add_message sj m r) = er_output r @ (case output_entry sj m of Some e \<Rightarrow> [e] | None \<Rightarrow> [])"
    by (simp add: add_message_def take_result_def take_reply_def Let_def split: option.splits)
  then show ?case
    using Cons by (simp add: entries_of_def map_filter_simps split: option.splits)
qed (simp add: entries_of_def map_filter_simps)

definition result_of :: "jupyter_message list \<Rightarrow> jupyter_message option" where
  "result_of ms = find (\<lambda>m. msg_type (header m) = ''execute_result'') (rev ms)"

lemma fold_add_data:
  "er_data (fold (add_message sj) ms r) =
     (case result_of ms of None \<Rightarrow> er_data r | Some m \<Rightarrow> mime_map sj (json_get ''data'' (content m)))"
proof (induction ms arbitrary: r rule: rev_induct)
  case (snoc m ms)
  have "er_data (add_message sj m q) =
      (if msg_type (header m) = ''execute_result'' then mime_map sj (json_get ''data'' (content m)) else er_data q)" for q
    by (simp add: add_message_def take_result_def take_reply_def Let_def split: option.splits)
  then show ?case
    using snoc by (simp add: result_of_def)
qed (simp add: result_of_def)

text \<open>The part of the reply that comes from the \<open>execute_reply\<close> message alone.\<close>

lemma fold_add_status:
  fixes sj :: "json \<Rightarrow> string"
  assumes "is_reply m" and "\<not> list_ex is_reply (pre @ post)"
    and "er_error_name r = None" "er_error_message r = None" "er_error_traceback r = None"
  defines "q \<equiv> fold (add_message sj) (pre @ m # post) r"
  shows "er_status q = er_status (take_reply (content m) r) \<and>
    er_error_name q = er_error_name (take_reply (content m) r) \<and>
    er_error_message q = er_error_message (take_reply (content m) r) \<and>
    er_error_traceback q = er_error_traceback (take_reply (content m) r)"
proof -
  have frame: "er_status (fold (add_message sj) ms s) = er_status s \<and>
      er_error_name (fold (add_message sj) ms s) = er_error_name s \<and>
      er_error_message (fold (add_message sj) ms s) = er_error_message s \<and>
      er_error_traceback (fold (add_message sj) ms s) = er_error_traceback s"
    if "\<not> list_ex is_reply ms" for ms s
    using that
  proof (induction ms arbitrary: s)
    case (Cons x ms)
    have "er_status (add_message sj x s) = er_status s \<and> er_error_name (add_message sj x s) = er_error_name s \<and>
      er_error_message (add_message sj x s) = er_error_message s \<and>
      er_error_traceback (add_message sj x s) = er_error_traceback s"
      using Cons.prems by (simp add: add_message_def take_result_def Let_def split: option.splits)
    then show ?case using Cons by simp
  qed simp
  have m: "add_message sj m s = take_reply (content m) s" for s
    using assms(1) by (simp add: add_message_def is_reply_def output_entry_def Let_def)
  have pre: "\<not> list_ex is_reply pre" and post: "\<not> list_ex is_reply post"
    using assms(2) by simp_all
  show ?thesis
    unfolding q_def using frame [OF pre, of r] frame [OF post] assms(3-5)
    by (simp add: m take_reply_def Let_def)
qed

lemma complete_prefix:
  "complete ms \<Longrightarrow> \<exists>pre m post. ms = pre @ m # post \<and> \<not> complete pre \<and> complete (pre @ [m])"
proof (induction ms rule: rev_induct)
  case Nil
  then show ?case by (simp add: complete_def)
next
  case (snoc m ms)
  show ?case
  proof (cases "complete ms")
    case True
    then obtain pre x post where "ms = pre @ x # post" "\<not> complete pre" "complete (pre @ [x])"
      using snoc.IH by blast
    then show ?thesis
      by (intro exI [of _ pre] exI [of _ x] exI [of _ "post @ [m]"]) simp
  next
    case False
    then show ?thesis
      using snoc.prems by (intro exI [of _ ms] exI [of _ m] exI [of _ "[]"]) simp
  qed
qed

lemma collector_new_reply [simp]:
  "er_output (co_reply (collector_new tx)) = []" "er_data (co_reply (collector_new tx)) = None"
  "er_error_name (co_reply (collector_new tx)) = None" "er_error_message (co_reply (collector_new tx)) = None"
  "er_error_traceback (co_reply (collector_new tx)) = None"
  by (simp_all add: collector_new_def)

lemma entries_append: "entries_of sj (xs @ ys) = entries_of sj xs @ entries_of sj ys"
  by (simp add: entries_of_def map_filter_def)

lemma entries_signal: "is_reply m \<or> is_idle m \<Longrightarrow> entries_of sj [m] = []"
  by (auto simp: entries_of_def map_filter_simps output_entry_def is_reply_def is_idle_def Let_def)

lemma result_append:
  "result_of (xs @ ys) = (case result_of ys of Some m \<Rightarrow> Some m | None \<Rightarrow> result_of xs)"
proof -
  have "find P (as @ bs) = (case find P as of Some m \<Rightarrow> Some m | None \<Rightarrow> find P bs)"
    for P and as bs :: "jupyter_message list"
    by (induction as) auto
  then show ?thesis by (simp add: result_of_def split: option.split)
qed

lemma result_signal: "is_reply m \<or> is_idle m \<Longrightarrow> result_of [m] = None"
  by (auto simp: result_of_def is_reply_def is_idle_def)

text \<open>A message for the witnesses.\<close>

definition kernel_says :: "string \<Rightarrow> json \<Rightarrow> jupyter_message" where
  "kernel_says t c = \<lparr>header = \<lparr>msg_id = ''k'', msg_type = t\<rparr>,
     parent_header = Some \<lparr>msg_id = ''a'', msg_type = ''execute_request''\<rparr>, channel = IOPub,
     content = c, metadata = JObject [], buffers = []\<rparr>"

definition says_idle :: jupyter_message where
  "says_idle = kernel_says ''status'' (JObject [(''execution_state'', JString ''idle'')])"

definition says_reply :: jupyter_message where
  "says_reply = kernel_says ''execute_reply'' (JObject [(''status'', JString ''ok'')])"

definition says_text :: jupyter_message where
  "says_text = kernel_says ''stream'' (JObject [(''text'', JString ''hi'')])"

lemmas says_defs = says_idle_def says_reply_def says_text_def kernel_says_def is_reply_def is_idle_def get_text_def

section \<open>Properties\<close>



text \<open>
  The reply does not depend on how the two sockets interleave: the output arrives on one
  socket and ends with \<open>idle\<close>, the \<open>execute_reply\<close> arrives on another, and wherever among the
  output it is taken, even after the \<open>idle\<close>, the call returns the same output, data, status and
  error.
\<close>

theorem reply_independent_of_interleaving:
  assumes "\<not> list_ex is_reply io" and "\<not> list_ex is_idle io" and "is_idle d" and "is_reply m"
    and "io @ [d] = before @ later"
  shows "\<exists>r. collect_execution_output sj (map RpcMessage (before @ m # later)) (collector_new tx) = Some (Inr r) \<and>
    er_output r = entries_of sj io \<and>
    er_data r = (case result_of io of None \<Rightarrow> None | Some x \<Rightarrow> mime_map sj (json_get ''data'' (content x))) \<and>
    er_status r = er_status (take_reply (content m) (co_reply (collector_new tx))) \<and>
    er_error_name r = er_error_name (take_reply (content m) (co_reply (collector_new tx))) \<and>
    er_error_message r = er_error_message (take_reply (content m) (co_reply (collector_new tx))) \<and>
    er_error_traceback r = er_error_traceback (take_reply (content m) (co_reply (collector_new tx)))"
proof -
  let ?ms = "before @ m # later"
  let ?r = "fold (add_message sj) ?ms (co_reply (collector_new tx))"
  have excl: "\<not> is_reply d" "\<not> is_idle m"
    using assms(3,4) by (auto simp: is_reply_def is_idle_def)
  have io: "(later = [] \<and> before = io @ [d]) \<or> (\<exists>post. later = post @ [d] \<and> io = before @ post)"
    using assms(5) by (cases later rule: rev_cases) auto
  have nonempty: "?ms \<noteq> []"
    by simp
  have "\<not> complete (butlast ?ms)" "complete ?ms"
    using io assms(1-4) excl by (auto simp: complete_def butlast_append)
  then have run: "collect_execution_output sj (map RpcMessage ?ms) (collector_new tx) = Some (Inr ?r)"
    using collect_complete [of "butlast ?ms" "last ?ms" sj "[]" tx]
    unfolding append_butlast_last_id [OF nonempty] append_Nil2 by blast
  have noreply: "\<not> list_ex is_reply (before @ later)"
    using assms(1) excl unfolding assms(5) [symmetric] by simp
  have "entries_of sj ?ms = entries_of sj (before @ later)"
    using entries_append [of sj before "[m] @ later"] entries_append [of sj "[m]" later]
      entries_signal [of m sj] assms(4) by (simp add: entries_append)
  also have "\<dots> = entries_of sj io"
    using entries_signal [of d sj] assms(3) by (simp add: assms(5) [symmetric] entries_append)
  finally have out: "entries_of sj ?ms = entries_of sj io" .
  have "result_of ?ms = result_of (before @ later)"
    using result_append [of before "[m] @ later"] result_append [of "[m]" later]
      result_signal [of m] assms(4) by (simp add: result_append split: option.splits)
  also have "\<dots> = result_of io"
    using result_signal [of d] assms(3) by (simp add: assms(5) [symmetric] result_append)
  finally have res: "result_of ?ms = result_of io" .
  show ?thesis
    using run out res fold_add_output [of sj ?ms] fold_add_data [of sj ?ms]
      fold_add_status [OF assms(4) noreply, of "co_reply (collector_new tx)" sj]
    by (intro exI [of _ ?r]) (auto simp del: fold_append fold.simps split: option.splits)
qed

theorem reply_independent_of_interleaving_witness:
  "\<exists>r. collect_execution_output (\<lambda>_. []) (map RpcMessage ([] @ says_reply # [says_text, says_idle])) (collector_new None) =
      Some (Inr r) \<and> er_output r = entries_of (\<lambda>_. []) [says_text]"
  using reply_independent_of_interleaving [of "[says_text]" says_idle says_reply "[]" "[says_text, says_idle]" "\<lambda>_. []" None]
  by (auto simp: says_defs)

text \<open>
  Giving up on an execution touches nothing else: if the request is still waiting it is
  withdrawn, and whatever runs or waits otherwise stays where it is; if it is the one that
  runs, the kernel is interrupted; and if it is neither, nothing happens at all.
\<close>

theorem abandon_targets_own:
  "abandon os i n s =
     (if \<exists>m \<in> set (pending (ks_queue (ss_state s))). msg_id (header m) = i
      then s\<lparr>ss_state := (ss_state s)\<lparr>ks_queue :=
             (ks_queue (ss_state s))\<lparr>pending := filter (\<lambda>m. msg_id (header m) \<noteq> i) (pending (ks_queue (ss_state s)))\<rparr>\<rparr>\<rparr>
      else if \<exists>a. active (ks_queue (ss_state s)) = Some a \<and> msg_id (header a) = i
      then snd (interrupt os n s) else s)"
proof -
  obtain found q where rp: "remove_pending i (ks_queue (ss_state s)) = (found, q)"
    by fastforce
  have "found \<longleftrightarrow> (\<exists>m \<in> set (pending (ks_queue (ss_state s))). msg_id (header m) = i)"
    using remove_pending_effect [OF rp] by blast
  moreover have "q = (ks_queue (ss_state s))\<lparr>pending := filter (\<lambda>m. msg_id (header m) \<noteq> i) (pending (ks_queue (ss_state s)))\<rparr>"
    using rp by (auto simp: remove_pending_def Let_def)
  ultimately show ?thesis
    using rp by (auto simp: abandon_def Let_def split: option.splits)
qed

theorem abandon_targets_own_witness:
  "ks_queue (ss_state (abandon sample_os ''b'' ''n'' (sample_ctl\<lparr>ss_state := sample_state\<lparr>ks_queue :=
     \<lparr>active = Some (sample_request ''a''), pending = [sample_request ''b'', sample_request ''c'']\<rparr>\<rparr>\<rparr>))) =
   \<lparr>active = Some (sample_request ''a''), pending = [sample_request ''c'']\<rparr>"
  using abandon_targets_own [of sample_os "''b''" "''n''" "sample_ctl\<lparr>ss_state := sample_state\<lparr>ks_queue :=
     \<lparr>active = Some (sample_request ''a''), pending = [sample_request ''b'', sample_request ''c'']\<rparr>\<rparr>\<rparr>"]
  by (simp add: sample_request_def)

text \<open>
  A call leaves no listener behind: whatever happens, when it has ended the session's
  listeners are those it found, and while it collects its own is registered, open and empty. A
  call whose request could not be sent has already removed it.
\<close>

theorem listener_cleaned_up:
  assumes "ks_rpc_listeners (ss_state s) i = None" and "execute_begin now i e o1 s = (r, s1)"
  shows "(r = Inr () \<longrightarrow> ks_rpc_listeners (ss_state s1) = (ks_rpc_listeners (ss_state s))(i \<mapsto> chan_new)) \<and>
    (r \<noteq> Inr () \<longrightarrow> ks_rpc_listeners (ss_state s1) = ks_rpc_listeners (ss_state s)) \<and>
    ks_rpc_listeners (ss_state (execute_end os i n result s1)) = ks_rpc_listeners (ss_state s)"
proof -
  have ab: "ks_rpc_listeners (ss_state (abandon os i n t)) = ks_rpc_listeners (ss_state t)" for t
    by (simp add: abandon_def interrupt_def zmq_send_def Let_def
        split: option.splits prod.splits interrupt_mode.splits)
  have none: "(ks_rpc_listeners (ss_state s))(i := None) = ks_rpc_listeners (ss_state s)"
    using assms(1) by (metis fun_upd_triv)
  have opened: "(r = Inr () \<and> ks_rpc_listeners (ss_state s1) = (ks_rpc_listeners (ss_state s))(i \<mapsto> chan_new)) \<or>
      (r \<noteq> Inr () \<and> ks_rpc_listeners (ss_state s1) = ks_rpc_listeners (ss_state s))"
    using assms(2) none
    by (cases "eo_attribution o1"; cases "ch_open (ss_zmq_tx s)")
       (auto simp: execute_begin_def set_listener_def announce_execution_def zmq_send_def chan_send_def Let_def)
  have "ks_rpc_listeners (ss_state (execute_end os i n result s1)) = (ks_rpc_listeners (ss_state s1))(i := None)"
    by (simp add: execute_end_def set_listener_def ab Let_def)
  then show ?thesis
    using opened none by auto
qed

theorem listener_cleaned_up_witness:
  "ks_rpc_listeners (ss_state (execute_end sample_os ''a'' ''n'' (Inl Timeout)
     (snd (execute_begin 0 ''a'' [] \<lparr>eo_code = ''1'', eo_silent = False, eo_store_history = True, eo_stop_on_error = True,
        eo_attribution = None\<rparr> sample_ctl)))) = ks_rpc_listeners (ss_state sample_ctl)"
proof -
  let ?o = "\<lparr>eo_code = ''1'', eo_silent = False, eo_store_history = True, eo_stop_on_error = True, eo_attribution = None\<rparr>"
  obtain r s1 where b: "execute_begin 0 ''a'' [] ?o sample_ctl = (r, s1)"
    by fastforce
  have "ks_rpc_listeners (ss_state sample_ctl) ''a'' = None"
    by (simp add: sample_ctl_def sample_state_def state_new_def)
  from listener_cleaned_up [OF this b] show ?thesis
    using b by simp
qed

end
