(* ===== verification/KC_Heartbeat.thy ===== *)
theory KC_Heartbeat
  imports KC_State
begin

text \<open>
  \<open>heartbeat.rs\<close>: the task that pings a kernel and reports it offline when it does not answer
  within five seconds. The socket, the exit event and the timer decide what each \<open>select!\<close>
  takes; these decisions are the arguments of a turn.
\<close>

datatype hb_response = HbExit | HbReply | HbError | HbTimeout

record monitor =
  mon_offline :: bool
  mon_initial :: bool
  mon_disconnected :: bool
  mon_state :: kernel_state

definition monitor_new :: "kernel_state \<Rightarrow> monitor" where
  "monitor_new s = \<lparr>mon_offline = False, mon_initial = True, mon_disconnected = False, mon_state = s\<rparr>"

definition should_stop_monitor :: "monitor \<Rightarrow> bool" where
  "should_stop_monitor m \<longleftrightarrow> ks_status (mon_state m) = Exited"

text \<open>\<open>None\<close> is the panic of a status notification without a receiver.\<close>

definition handle_heartbeat_success ::
  "(nat \<Rightarrow> string option) \<Rightarrow> instant \<Rightarrow> monitor \<Rightarrow> monitor option" where
  "handle_heartbeat_success cwd now m =
     (case
        (if mon_offline m then
           (let m = m\<lparr>mon_offline := False\<rparr> in
            map_option (\<lambda>s. m\<lparr>mon_state := s\<rparr>)
              (set_status cwd now Idle (Some ''heartbeat detected after offline'') (mon_state m)))
         else Some m) of
        None \<Rightarrow> None
      | Some m \<Rightarrow> Some (if mon_initial m then m\<lparr>mon_initial := False\<rparr> else m))"

text \<open>Both branches end the monitor; only the second wakes the proxy.\<close>

definition handle_heartbeat_error :: "monitor \<Rightarrow> bool \<times> monitor" where
  "handle_heartbeat_error m =
     (if ks_status (mon_state m) = Exited then (False, m) else (False, m\<lparr>mon_disconnected := True\<rparr>))"

definition handle_heartbeat_timeout ::
  "(nat \<Rightarrow> string option) \<Rightarrow> instant \<Rightarrow> monitor \<Rightarrow> monitor option" where
  "handle_heartbeat_timeout cwd now m =
     (if \<not> mon_offline m then
        (let m = m\<lparr>mon_offline := True\<rparr> in
         map_option (\<lambda>s. m\<lparr>mon_state := s\<rparr>)
           (set_status cwd now Offline (Some ''lost heartbeat'') (mon_state m)))
      else Some m)"

text \<open>\<open>handle_heartbeat_response\<close> with \<open>process_heartbeat_result\<close>: whether to go on.\<close>

definition handle_heartbeat_response ::
  "(nat \<Rightarrow> string option) \<Rightarrow> instant \<Rightarrow> hb_response \<Rightarrow> monitor \<Rightarrow> (bool \<times> monitor) option" where
  "handle_heartbeat_response cwd now r m =
     (case r of
        HbExit \<Rightarrow> Some (False, m)
      | HbReply \<Rightarrow> map_option (Pair True) (handle_heartbeat_success cwd now m)
      | HbError \<Rightarrow> Some (handle_heartbeat_error m)
      | HbTimeout \<Rightarrow> map_option (Pair True) (handle_heartbeat_timeout cwd now m))"

text \<open>
  The loop of \<open>monitor\<close> over the turns it takes: what the socket answered and whether the exit
  event came during the pause. \<open>None\<close> is a panic; otherwise whether it is still running.
\<close>

fun monitor_loop ::
  "(nat \<Rightarrow> string option) \<Rightarrow> (instant \<times> hb_response \<times> bool) list \<Rightarrow> monitor \<Rightarrow> (bool \<times> monitor) option" where
  "monitor_loop cwd [] m = Some (True, m)"
| "monitor_loop cwd ((now, r, wait_exit) # ts) m =
     (if should_stop_monitor m then Some (False, m)
      else
        (case handle_heartbeat_response cwd now r m of
           None \<Rightarrow> None
         | Some (False, m) \<Rightarrow> Some (False, m)
         | Some (True, m) \<Rightarrow> if wait_exit then Some (False, m) else monitor_loop cwd ts m))"

section \<open>Lemmas\<close>

text \<open>A turn in which the kernel answers or times out, on a session that has not exited.\<close>

definition hb_after :: "hb_response \<Rightarrow> bool \<Rightarrow> status \<Rightarrow> status" where
  "hb_after r offline st =
     (if r = HbTimeout \<and> \<not> offline then Offline else if r = HbReply \<and> offline then Idle else st)"

lemma turn_effect:
  assumes "r = HbReply \<or> r = HbTimeout" and "ks_status (mon_state m) \<noteq> Exited"
    and "ch_open (ks_ws_json_tx (mon_state m))"
  shows "\<exists>m'. handle_heartbeat_response cwd now r m = Some (True, m') \<and>
    mon_offline m' = (r = HbTimeout) \<and> mon_disconnected m' = mon_disconnected m \<and>
    ch_open (ks_ws_json_tx (mon_state m')) \<and>
    ks_status (mon_state m') = hb_after r (mon_offline m) (ks_status (mon_state m)) \<and>
    status_stream (ch_buf (ks_ws_json_tx (mon_state m'))) =
      status_stream (ch_buf (ks_ws_json_tx (mon_state m))) @
      announced (ks_status (mon_state m)) (ks_status (mon_state m'))"
proof -
  let ?s = "mon_state m"
  obtain si where "set_status cwd now Idle (Some ''heartbeat detected after offline'') ?s = Some si"
      "ks_status si = Idle" "ch_open (ks_ws_json_tx si)"
      "told_client si = told_client ?s @ announced (ks_status ?s) Idle"
    using ks.set_announces [OF assms(3,2), of "(cwd, now, Some ''heartbeat detected after offline'')" Idle] by auto
  moreover obtain so where "set_status cwd now Offline (Some ''lost heartbeat'') ?s = Some so"
      "ks_status so = Offline" "ch_open (ks_ws_json_tx so)"
      "told_client so = told_client ?s @ announced (ks_status ?s) Offline"
    using ks.set_announces [OF assms(3,2), of "(cwd, now, Some ''lost heartbeat'')" Offline] by auto
  ultimately show ?thesis
    using assms
    by (auto simp: handle_heartbeat_response_def handle_heartbeat_success_def handle_heartbeat_timeout_def
        hb_after_def Let_def)
qed

text \<open>The status and the announcements a sequence of answers leads to.\<close>

fun hb_trace :: "hb_response list \<Rightarrow> bool \<Rightarrow> status \<Rightarrow> status list" where
  "hb_trace [] offline st = []"
| "hb_trace (r # rs) offline st =
     (let st' = hb_after r offline st in
      announced st st' @ hb_trace rs (r = HbTimeout) st')"

lemma hb_after_not_exited: "st \<noteq> Exited \<Longrightarrow> hb_after r off st \<noteq> Exited"
  by (simp add: hb_after_def)

lemma monitor_loop_trace:
  assumes "\<forall>t \<in> set ts. (fst (snd t) = HbReply \<or> fst (snd t) = HbTimeout) \<and> \<not> snd (snd t)"
    and "ks_status (mon_state m) \<noteq> Exited" and "ch_open (ks_ws_json_tx (mon_state m))"
  shows "\<exists>m'. monitor_loop cwd ts m = Some (True, m') \<and>
    mon_disconnected m' = mon_disconnected m \<and>
    mon_offline m' = last (mon_offline m # map (\<lambda>t. fst (snd t) = HbTimeout) ts) \<and>
    status_stream (ch_buf (ks_ws_json_tx (mon_state m'))) =
      status_stream (ch_buf (ks_ws_json_tx (mon_state m))) @
      hb_trace (map (\<lambda>t. fst (snd t)) ts) (mon_offline m) (ks_status (mon_state m))"
  using assms
proof (induction ts arbitrary: m)
  case (Cons t ts)
  obtain now r where t: "t = (now, r, False)" and r: "r = HbReply \<or> r = HbTimeout"
    using Cons.prems(1) by (cases t) auto
  obtain m1 where m1: "handle_heartbeat_response cwd now r m = Some (True, m1)"
      "mon_offline m1 = (r = HbTimeout)" "mon_disconnected m1 = mon_disconnected m"
      "ch_open (ks_ws_json_tx (mon_state m1))"
      "ks_status (mon_state m1) = hb_after r (mon_offline m) (ks_status (mon_state m))"
      "status_stream (ch_buf (ks_ws_json_tx (mon_state m1))) =
        status_stream (ch_buf (ks_ws_json_tx (mon_state m))) @
        announced (ks_status (mon_state m)) (ks_status (mon_state m1))"
    using turn_effect [OF r Cons.prems(2,3), of cwd now] by blast
  have live: "ks_status (mon_state m1) \<noteq> Exited"
    using m1(5) hb_after_not_exited Cons.prems(2) by simp
  have "\<forall>t \<in> set ts. (fst (snd t) = HbReply \<or> fst (snd t) = HbTimeout) \<and> \<not> snd (snd t)"
    using Cons.prems(1) by simp
  from Cons.IH [OF this live m1(4)] obtain m' where m': "monitor_loop cwd ts m1 = Some (True, m')"
      "mon_disconnected m' = mon_disconnected m1"
      "mon_offline m' = last (mon_offline m1 # map (\<lambda>t. fst (snd t) = HbTimeout) ts)"
      "status_stream (ch_buf (ks_ws_json_tx (mon_state m'))) =
        status_stream (ch_buf (ks_ws_json_tx (mon_state m1))) @
        hb_trace (map (\<lambda>t. fst (snd t)) ts) (mon_offline m1) (ks_status (mon_state m1))"
    by blast
  show ?case
    using m1 m' t Cons.prems(2) by (auto simp: should_stop_monitor_def Let_def)
qed simp

text \<open>Timeouts in a row are announced once, and so is the answer that ends them.\<close>

lemma hb_trace_offline:
  "\<forall>r \<in> set rs. r = HbTimeout \<Longrightarrow> hb_trace rs True Offline = []"
  by (induction rs) (simp_all add: hb_after_def announced_def)

lemma hb_trace_online:
  "\<forall>r \<in> set rs. r = HbReply \<Longrightarrow> hb_trace rs False st = []"
  by (induction rs) (simp_all add: hb_after_def announced_def)

section \<open>Properties\<close>

text \<open>
  An outage is announced exactly once. When a session that has not exited misses any
  positive number of heartbeats in a row and then answers for a while, its clients are told
  \<open>offline\<close> once and \<open>idle\<close> once, no matter how long either phase lasts, and the monitor keeps
  running.
\<close>

theorem outage_announced_once:
  assumes "ks_status s \<noteq> Exited" and "ks_status s \<noteq> Offline" and "ch_open (ks_ws_json_tx s)"
    and "\<forall>t \<in> set lost. fst (snd t) = HbTimeout \<and> \<not> snd (snd t)" and "lost \<noteq> []"
    and "\<forall>t \<in> set back. fst (snd t) = HbReply \<and> \<not> snd (snd t)" and "back \<noteq> []"
  shows "\<exists>m. monitor_loop cwd (lost @ back) (monitor_new s) = Some (True, m) \<and>
    \<not> mon_offline m \<and> \<not> mon_disconnected m \<and>
    status_stream (ch_buf (ks_ws_json_tx (mon_state m))) =
      status_stream (ch_buf (ks_ws_json_tx s)) @ [Offline, Idle]"
proof -
  let ?ts = "lost @ back"
  have rs: "\<forall>t \<in> set ?ts. (fst (snd t) = HbReply \<or> fst (snd t) = HbTimeout) \<and> \<not> snd (snd t)"
    using assms(4,6) by auto
  have app: "hb_trace (rs @ qs) True Offline = hb_trace qs True Offline" if "\<forall>r \<in> set rs. r = HbTimeout" for rs qs
    using that by (induction rs) (simp_all add: hb_after_def announced_def)
  obtain l ls k ks where lk: "lost = l # ls" "back = k # ks"
    using assms(5,7) by (auto simp: neq_Nil_conv)
  have "hb_trace (map (\<lambda>t. fst (snd t)) ?ts) False (ks_status s) = [Offline, Idle]"
    using assms(1,2,4,6) by (simp add: lk hb_after_def announced_def app hb_trace_online Let_def)
  moreover have "last (False # map (\<lambda>t. fst (snd t) = HbTimeout) ?ts) = False"
    using assms(6,7) by (simp add: last_map)
  ultimately show ?thesis
    using monitor_loop_trace [OF rs, of "monitor_new s" cwd] assms(1,3) by (auto simp: monitor_new_def)
qed

theorem outage_announced_once_witness:
  "\<exists>m. monitor_loop (\<lambda>_. None) ([(1, HbTimeout, False), (2, HbTimeout, False)] @ [(3, HbReply, False)])
         (monitor_new sample_state) = Some (True, m) \<and>
     \<not> mon_offline m \<and> \<not> mon_disconnected m \<and>
     status_stream (ch_buf (ks_ws_json_tx (mon_state m))) =
       status_stream (ch_buf (ks_ws_json_tx sample_state)) @ [Offline, Idle]"
  by (rule outage_announced_once) (simp_all add: sample_state_def state_new_def chan_new_def)

text \<open>
  The monitor never outlives the kernel: once the session has exited its next turn ends it
  and changes nothing; and after a failed socket it ends too, waking the proxy exactly when
  the kernel has not exited.
\<close>

lemma monitor_stops:
  "monitor_loop cwd ((now, HbError, w) # ts) m =
     Some (False, if ks_status (mon_state m) = Exited then m else m\<lparr>mon_disconnected := True\<rparr>) \<and>
   (ks_status (mon_state m) = Exited \<longrightarrow> monitor_loop cwd ((now, r, w) # ts) m = Some (False, m))"
  by (simp add: should_stop_monitor_def handle_heartbeat_response_def handle_heartbeat_error_def)

lemma monitor_stops_witness:
  "monitor_loop (\<lambda>_. None) [(1, HbTimeout, False)] (monitor_new (sample_state\<lparr>ks_status := Exited\<rparr>)) =
     Some (False, monitor_new (sample_state\<lparr>ks_status := Exited\<rparr>))"
  using monitor_stops [where m = "monitor_new (sample_state\<lparr>ks_status := Exited\<rparr>)" and r = HbTimeout
      and cwd = "\<lambda>_. None" and now = 1 and w = False and ts = "[]"]
  by (simp add: monitor_new_def)

end
