(* ===== verification/KC_Idle.thy ===== *)
theory KC_Idle
  imports KC_Machines KC_State
begin

text \<open>
  The idle shutdown of \<open>server.rs\<close>: the task that watches for a server nobody uses, the test
  whether any session is in use, and the end of the server once its sessions have exited.

  Time is counted in seconds. A \<open>tokio\<close> interval with delayed ticks is its next deadline: a tick
  that completes at some time puts the next one a period later, a reset does the same, and a new
  interval, whose first tick is consumed at once, starts a period from then.
\<close>

section \<open>Which sessions are in use\<close>

definition session_runs :: "kernel_state \<Rightarrow> bool" where
  "session_runs s \<longleftrightarrow> ks_status s \<noteq> Exited \<and> ks_status s \<noteq> Uninitialized"

definition running_sessions :: "kernel_state list \<Rightarrow> kernel_state list" where
  "running_sessions ss = filter session_runs ss"

text \<open>
  The loop of \<open>check_idle_sessions\<close>. \<open>None\<close> is the early return: some session is in use. Otherwise
  the sessions to be shut down before the server exits.
\<close>

fun check_idle_sessions :: "kernel_state list \<Rightarrow> kernel_state list option" where
  "check_idle_sessions [] = Some []"
| "check_idle_sessions (s # ss) =
     (if ks_status s = Busy then None
      else if ks_connected s then None
      else map_option (\<lambda>rs. if session_runs s then s # rs else rs) (check_idle_sessions ss))"

section \<open>The task\<close>

definition idle_duration :: "nat option \<Rightarrow> nat" where
  "idle_duration hours =
     (case hours of Some h \<Rightarrow> if h = 0 then 30 else h * 3600 | None \<Rightarrow> 168 * 3600)"

record idle_task =
  it_start :: nat
  it_hours :: "nat option"
  it_duration :: nat
  it_deadline :: nat
  it_client_pid :: nat

definition idle_task_new :: "nat \<Rightarrow> nat option \<Rightarrow> idle_task" where
  "idle_task_new now hours =
     \<lparr>it_start = now, it_hours = hours, it_duration = idle_duration hours,
      it_deadline = now + idle_duration hours, it_client_pid = 0\<rparr>"

text \<open>
  What the \<open>select!\<close> can wake on. A nudge is what the channel yields: \<open>Some (Some pid)\<close> from a
  client that names its process, \<open>Some None\<close> from a session or an agent, \<open>None\<close> once it is closed.
\<close>

datatype idle_event =
    IdleTick
  | IdleNudge "nat option option"
  | IdleConfig "nat option"

definition take_pid :: "nat option option \<Rightarrow> nat \<Rightarrow> nat" where
  "take_pid nudge pid = (case nudge of Some (Some p) \<Rightarrow> if p \<noteq> pid then p else pid | _ \<Rightarrow> pid)"

text \<open>
  One turn at time \<open>now\<close>. \<open>alive\<close> tells whether a process is running. The second component is the
  result of \<open>check_idle_sessions\<close>, when the turn gets that far and finds the server idle.
\<close>

definition idle_turn ::
  "(nat \<Rightarrow> bool) \<Rightarrow> kernel_state list \<Rightarrow> nat \<Rightarrow> idle_event \<Rightarrow> idle_task \<Rightarrow> idle_task \<times> kernel_state list option" where
  "idle_turn alive ss now e t =
     (case e of
        IdleTick \<Rightarrow>
          (let t = t\<lparr>it_deadline := now + it_duration t\<rparr> in
           if it_hours t = None then (t, None)
           else if now - it_start t < it_duration t then (t, None)
           else if it_client_pid t > 1 then
             (if alive (it_client_pid t) then (t, None)
              else (t\<lparr>it_client_pid := 0\<rparr>, check_idle_sessions ss))
           else (t, check_idle_sessions ss))
      | IdleNudge nudge \<Rightarrow>
          (t\<lparr>it_client_pid := take_pid nudge (it_client_pid t), it_deadline := now + it_duration t\<rparr>, None)
      | IdleConfig hours \<Rightarrow>
          (t\<lparr>it_hours := hours, it_duration := idle_duration hours, it_deadline := now + idle_duration hours\<rparr>, None))"

text \<open>The turns of a run: the time, what woke the task, and the sessions it saw.\<close>

type_synonym idle_input = "nat \<times> idle_event \<times> kernel_state list"

fun idle_run :: "(nat \<Rightarrow> nat \<Rightarrow> bool) \<Rightarrow> idle_input list \<Rightarrow> idle_task \<Rightarrow> idle_task" where
  "idle_run alive [] t = t"
| "idle_run alive ((now, e, ss) # xs) t = idle_run alive xs (fst (idle_turn (alive now) ss now e t))"

text \<open>Time does not run backwards.\<close>

fun in_order :: "nat \<Rightarrow> idle_input list \<Rightarrow> bool" where
  "in_order t0 [] \<longleftrightarrow> True"
| "in_order t0 ((now, _, _) # xs) \<longleftrightarrow> t0 \<le> now \<and> in_order now xs"

fun last_time :: "nat \<Rightarrow> idle_input list \<Rightarrow> nat" where
  "last_time t0 [] = t0"
| "last_time t0 ((now, _, _) # xs) = last_time now xs"

fun last_reset :: "nat \<Rightarrow> idle_input list \<Rightarrow> nat" where
  "last_reset t0 [] = t0"
| "last_reset t0 ((now, e, _) # xs) = last_reset (if e = IdleTick then t0 else now) xs"

definition idle_ok :: "nat \<Rightarrow> nat \<Rightarrow> idle_task \<Rightarrow> bool" where
  "idle_ok now reset t \<longleftrightarrow>
     it_start t \<le> reset \<and> reset \<le> now \<and> it_duration t = idle_duration (it_hours t) \<and> reset + it_duration t \<le> it_deadline t"

lemma idle_ok_turn:
  assumes "idle_ok t0 reset t" and "t0 \<le> now"
  shows "idle_ok now (if e = IdleTick then reset else now) (fst (idle_turn alive ss now e t))"
  using assms by (cases e) (auto simp: idle_ok_def idle_turn_def Let_def)

lemma idle_ok_run:
  "in_order t0 xs \<Longrightarrow> idle_ok t0 reset t \<Longrightarrow> idle_ok (last_time t0 xs) (last_reset reset xs) (idle_run alive xs t)"
proof (induction xs arbitrary: t0 reset t)
  case (Cons x xs)
  obtain now e ss where x: "x = (now, e, ss)"
    by (cases x)
  show ?case
    using Cons idle_ok_turn [of t0 reset t now e "alive now" ss] by (auto simp: x)
qed simp

lemma check_idle_sessions_eq:
  "check_idle_sessions ss =
     (if \<exists>s \<in> set ss. ks_status s = Busy \<or> ks_connected s then None else Some (running_sessions ss))"
  by (induction ss) (auto simp: running_sessions_def)

section \<open>The end of the server\<close>

text \<open>
  \<open>shutdown_sessions_and_exit\<close>, when there are sessions to wait for: a task of its own listens to
  their exit events and ends the process when each has fired. An event wakes only who is listening
  at that moment. The sessions are numbered; a session is asked to exit by a message, and exits in
  its own time.
\<close>

record exit_system =
  xs_listening :: bool
  xs_waiting :: "nat set"
  xs_alive :: "nat set"
  xs_exited :: bool

definition exit_start :: "nat set \<Rightarrow> exit_system" where
  "exit_start running = \<lparr>xs_listening = False, xs_waiting = {}, xs_alive = running, xs_exited = False\<rparr>"

inductive exit_step :: "nat set \<Rightarrow> exit_system \<Rightarrow> exit_system \<Rightarrow> bool" for running where
  exit_listen: "\<not> xs_listening x \<Longrightarrow> exit_step running x (x\<lparr>xs_listening := True, xs_waiting := running\<rparr>)"
| session_exits: "i \<in> xs_alive x \<Longrightarrow>
    exit_step running x (x\<lparr>xs_alive := xs_alive x - {i}, xs_waiting := xs_waiting x - {i}\<rparr>)"
| exit_process: "xs_listening x \<Longrightarrow> xs_waiting x = {} \<Longrightarrow> exit_step running x (x\<lparr>xs_exited := True\<rparr>)"

inductive_cases exit_stepE: "exit_step running x x'"

lemma exit_step_waits:
  "exit_step running x x' \<Longrightarrow> xs_alive x \<subseteq> running \<Longrightarrow> (xs_listening x \<longrightarrow> xs_alive x \<subseteq> xs_waiting x) \<Longrightarrow>
     (xs_exited x \<longrightarrow> xs_alive x = {}) \<Longrightarrow>
   xs_alive x' \<subseteq> running \<and> (xs_listening x' \<longrightarrow> xs_alive x' \<subseteq> xs_waiting x') \<and> (xs_exited x' \<longrightarrow> xs_alive x' = {})"
  by (erule exit_stepE) auto

lemma exit_run_waits:
  "(exit_step running)\<^sup>*\<^sup>* (exit_start running) x \<Longrightarrow>
     xs_alive x \<subseteq> running \<and> (xs_listening x \<longrightarrow> xs_alive x \<subseteq> xs_waiting x) \<and> (xs_exited x \<longrightarrow> xs_alive x = {})"
proof (induction rule: rtranclp_induct)
  case (step y z)
  then show ?case
    using exit_step_waits [of running y z] by blast
qed (simp add: exit_start_def)

text \<open>Once one session has gone unnoticed the wait never ends.\<close>

lemma exit_missed:
  assumes "(exit_step running)\<^sup>*\<^sup>* x x'" and "i \<in> running" and "i \<notin> xs_alive x" and "\<not> xs_listening x" and "\<not> xs_exited x"
  shows "\<not> xs_exited x'"
proof -
  have "(i \<notin> xs_alive x' \<and> (xs_listening x' \<longrightarrow> i \<in> xs_waiting x')) \<and> \<not> xs_exited x'"
    using assms(1)
  proof (induction rule: rtranclp_induct)
    case (step y z)
    then show ?case
      using assms(2) by (auto elim!: exit_stepE)
  qed (use assms in simp)
  then show ?thesis
    by simp
qed

text \<open>When the task listens first, every order of exits leads to the end.\<close>

lemma exits_reach_end:
  assumes "finite A" and "xs_listening x" and "xs_waiting x = A" and "xs_alive x = A"
  shows "\<exists>x'. (exit_step running)\<^sup>*\<^sup>* x x' \<and> xs_exited x'"
  using assms
proof (induction A arbitrary: x rule: finite_induct)
  case empty
  then have "(exit_step running)\<^sup>*\<^sup>* x (x\<lparr>xs_exited := True\<rparr>)"
    using exit_process [of x running] by blast
  then show ?case
    by force
next
  case (insert i A)
  let ?x = "x\<lparr>xs_alive := xs_alive x - {i}, xs_waiting := xs_waiting x - {i}\<rparr>"
  have "exit_step running x ?x"
    using insert.prems by (intro session_exits) simp
  moreover obtain x' where "(exit_step running)\<^sup>*\<^sup>* ?x x'" "xs_exited x'"
    using insert.IH [of ?x] insert.prems insert.hyps by auto
  ultimately show ?case
    by (meson converse_rtranclp_into_rtranclp)
qed

section \<open>Properties\<close>

text \<open>
  C23. The idle test is exact. At any tick of any run of the task, the server decides to shut down
  if and only if a limit is set, no client process it tracks is alive, and every session is
  neither busy nor connected; it then shuts down exactly the sessions that have a kernel. A tick
  comes only after the whole limit has passed without a nudge or a change of the limit.
\<close>

theorem idle_shutdown_exact:
  assumes "in_order start xs" and "last_time start xs \<le> now"
    and "t = idle_run alive xs (idle_task_new start hours)" and "it_deadline t \<le> now"
  shows "snd (idle_turn (alive now) ss now IdleTick t) =
      (if it_hours t \<noteq> None \<and> \<not> (it_client_pid t > 1 \<and> alive now (it_client_pid t)) \<and>
          (\<forall>s \<in> set ss. ks_status s \<noteq> Busy \<and> \<not> ks_connected s)
       then Some (running_sessions ss) else None) \<and>
    last_reset start xs + idle_duration (it_hours t) \<le> now"
proof -
  have "idle_ok start start (idle_task_new start hours)"
    by (simp add: idle_ok_def idle_task_new_def)
  then have ok: "idle_ok (last_time start xs) (last_reset start xs) t"
    using idle_ok_run [OF assms(1)] assms(3) by simp
  then have "it_duration t \<le> now - it_start t"
    using assms(4) by (auto simp: idle_ok_def)
  then show ?thesis
    using ok assms(4) by (auto simp: idle_turn_def Let_def check_idle_sessions_eq idle_ok_def)
qed

text \<open>A server with one session that has been quiet for the hour its limit allows.\<close>

theorem idle_shutdown_exact_witness:
  "snd (idle_turn (\<lambda>_. False) [sample_state] 3600 IdleTick (idle_task_new 0 (Some 1))) = Some [sample_state]"
proof -
  have "it_deadline (idle_task_new 0 (Some 1)) = 3600" "it_hours (idle_task_new 0 (Some 1)) = Some 1"
    by (simp_all add: idle_task_new_def idle_duration_def)
  then show ?thesis
    using idle_shutdown_exact [of 0 "[]" 3600 _ "\<lambda>_ _. False" "Some 1" "[sample_state]"]
    by (simp add: sample_state_def state_new_def running_sessions_def session_runs_def)
qed

text \<open>
  The process ends only once every session it shut down has exited. When the task listens
  before the first of them exits, it can always reach the end; but a session that exits before the
  task has begun to listen is waited for forever, and the server never ends.
\<close>

theorem exit_waits_for_all_sessions:
  assumes "finite running" and "i \<in> running"
  shows "(\<forall>x. (exit_step running)\<^sup>*\<^sup>* (exit_start running) x \<and> xs_exited x \<longrightarrow> xs_alive x = {}) \<and>
    (\<exists>x. (exit_step running)\<^sup>*\<^sup>* (exit_start running) x \<and> xs_exited x) \<and>
    (\<exists>x. exit_step running (exit_start running) x \<and> (\<forall>x'. (exit_step running)\<^sup>*\<^sup>* x x' \<longrightarrow> \<not> xs_exited x'))"
proof (intro conjI)
  show "\<forall>x. (exit_step running)\<^sup>*\<^sup>* (exit_start running) x \<and> xs_exited x \<longrightarrow> xs_alive x = {}"
    using exit_run_waits by blast
  have "exit_step running (exit_start running) ((exit_start running)\<lparr>xs_listening := True, xs_waiting := running\<rparr>)"
    by (rule exit_listen) (simp add: exit_start_def)
  moreover obtain x' where
    "(exit_step running)\<^sup>*\<^sup>* ((exit_start running)\<lparr>xs_listening := True, xs_waiting := running\<rparr>) x'" "xs_exited x'"
    using exits_reach_end [OF assms(1), of "(exit_start running)\<lparr>xs_listening := True, xs_waiting := running\<rparr>" running]
    by (auto simp: exit_start_def)
  ultimately show "\<exists>x. (exit_step running)\<^sup>*\<^sup>* (exit_start running) x \<and> xs_exited x"
    by (meson converse_rtranclp_into_rtranclp)
  let ?x = "(exit_start running)\<lparr>xs_alive := xs_alive (exit_start running) - {i},
      xs_waiting := xs_waiting (exit_start running) - {i}\<rparr>"
  have "exit_step running (exit_start running) ?x"
    by (rule session_exits) (use assms(2) in \<open>simp add: exit_start_def\<close>)
  moreover have "\<not> xs_exited x'" if "(exit_step running)\<^sup>*\<^sup>* ?x x'" for x'
    by (rule exit_missed [OF that assms(2)]) (simp_all add: exit_start_def)
  ultimately show "\<exists>x. exit_step running (exit_start running) x \<and> (\<forall>x'. (exit_step running)\<^sup>*\<^sup>* x x' \<longrightarrow> \<not> xs_exited x')"
    by blast
qed

theorem exit_waits_for_all_sessions_witness:
  "\<exists>x. exit_step {0} (exit_start {0}) x \<and> \<not> xs_exited x"
  using exit_waits_for_all_sessions [of "{0}" 0] by auto

end
