(* ===== verification/KC_Ids.thy ===== *)
theory KC_Ids
  imports KC_Prelude "HOL-Library.Word"
begin

text \<open>
  The identifiers and credentials of MCP workspaces, from \<open>mcp/workspaces.rs\<close>: slugs, minted
  identifiers, the tests on identifiers and tokens a caller supplies, and the comparison of
  tokens. Random choices are arguments: the suffixes \<open>mint_id\<close> draws, in order.
\<close>

definition MAX_SLUG_LEN :: nat where "MAX_SLUG_LEN = 24"
definition SUFFIX_LEN :: nat where "SUFFIX_LEN = 6"
definition MAX_ID_LEN :: nat where "MAX_ID_LEN = 40"
definition FALLBACK_SLUG :: string where "FALLBACK_SLUG = ''workspace''"
definition TOKEN_BYTES :: nat where "TOKEN_BYTES = 32"
definition TOKEN_LEN :: nat where "TOKEN_LEN = TOKEN_BYTES * 2"

text \<open>The ASCII classes of \<open>char\<close>.\<close>

definition code_in :: "nat \<Rightarrow> nat \<Rightarrow> char \<Rightarrow> bool" where
  "code_in lo hi c \<longleftrightarrow> lo \<le> (of_char c :: nat) \<and> (of_char c :: nat) \<le> hi"

definition is_lower :: "char \<Rightarrow> bool" where "is_lower c = code_in 97 122 c"
definition is_upper :: "char \<Rightarrow> bool" where "is_upper c = code_in 65 90 c"
definition is_digit :: "char \<Rightarrow> bool" where "is_digit c = code_in 48 57 c"
definition is_alnum :: "char \<Rightarrow> bool" where "is_alnum c \<longleftrightarrow> is_lower c \<or> is_upper c \<or> is_digit c"
definition is_hexdigit :: "char \<Rightarrow> bool" where
  "is_hexdigit c \<longleftrightarrow> is_digit c \<or> code_in 97 102 c \<or> code_in 65 70 c"

definition to_lower :: "char \<Rightarrow> char" where
  "to_lower c = (if is_upper c then char_of ((of_char c :: nat) + 32) else c)"

definition hyphen :: char where "hyphen = CHR 0x2D"

text \<open>
  The loop of \<open>slugify\<close>. It runs over characters; a character outside ASCII is at least two
  bytes, and after the first of them has added a hyphen the others add nothing, so running over
  the bytes builds the same slug.
\<close>

fun slug_loop :: "string \<Rightarrow> string \<Rightarrow> string" where
  "slug_loop slug [] = slug"
| "slug_loop slug (c # cs) =
     (if length slug \<ge> MAX_SLUG_LEN then slug
      else if is_alnum c then slug_loop (slug @ [to_lower c]) cs
      else if slug \<noteq> [] \<and> \<not> ends_with_char slug hyphen then slug_loop (slug @ [hyphen]) cs
      else slug_loop slug cs)"

definition trim_end :: "char \<Rightarrow> string \<Rightarrow> string" where
  "trim_end c s = rev (dropWhile (\<lambda>x. x = c) (rev s))"

definition slugify :: "string \<Rightarrow> string" where
  "slugify display_name =
     (let slug = trim_end hyphen (slug_loop [] display_name)
      in if slug = [] then FALLBACK_SLUG else slug)"

definition ALPHABET :: string where "ALPHABET = ''abcdefghijklmnopqrstuvwxyz0123456789''"

text \<open>\<open>random_suffix\<close>: the characters at the drawn positions of the alphabet.\<close>

definition random_suffix :: "nat list \<Rightarrow> string" where
  "random_suffix draws = map (\<lambda>d. ALPHABET ! (d mod length ALPHABET)) draws"

text \<open>The loop of \<open>mint_id\<close> over the suffixes it draws; \<open>None\<close> if all of them were taken.\<close>

fun mint_loop :: "string \<Rightarrow> (string \<Rightarrow> bool) \<Rightarrow> string list \<Rightarrow> string option" where
  "mint_loop slug taken [] = None"
| "mint_loop slug taken (s # ss) =
     (let i = slug @ [hyphen] @ s in if \<not> taken i then Some i else mint_loop slug taken ss)"

definition mint_id :: "string \<Rightarrow> (string \<Rightarrow> bool) \<Rightarrow> string list \<Rightarrow> string option" where
  "mint_id display_name taken suffixes = mint_loop (slugify display_name) taken suffixes"

definition id_char :: "char \<Rightarrow> bool" where
  "id_char c \<longleftrightarrow> is_lower c \<or> is_digit c \<or> c = hyphen"

definition is_valid_id :: "string \<Rightarrow> bool" where
  "is_valid_id i \<longleftrightarrow> i \<noteq> [] \<and> length i \<le> MAX_ID_LEN \<and> hd i \<noteq> hyphen \<and> last i \<noteq> hyphen \<and> list_all id_char i"

definition is_valid_token :: "string \<Rightarrow> bool" where
  "is_valid_token t \<longleftrightarrow> length t = TOKEN_LEN \<and> list_all is_hexdigit t"

unbundle bit_operations_syntax

text \<open>The accumulation of differences, over \<open>u8\<close>.\<close>

definition byte :: "char \<Rightarrow> 8 word" where
  "byte c = of_nat (of_char c)"

definition constant_time_eq :: "string \<Rightarrow> string \<Rightarrow> bool" where
  "constant_time_eq a b =
     (if length a \<noteq> length b then False
      else foldl (\<lambda>d (x, y). d OR (byte x XOR byte y)) 0 (zip a b) = 0)"

lemmas id_consts =
  MAX_SLUG_LEN_def SUFFIX_LEN_def MAX_ID_LEN_def FALLBACK_SLUG_def TOKEN_BYTES_def TOKEN_LEN_def

section \<open>Slugs\<close>

lemma to_lower_ok: "is_alnum c \<Longrightarrow> is_lower (to_lower c) \<or> is_digit (to_lower c)"
  by (auto simp: is_alnum_def to_lower_def is_lower_def is_upper_def is_digit_def code_in_def of_char_of)

lemma not_hyphen: "is_lower c \<or> is_digit c \<Longrightarrow> c \<noteq> hyphen"
  by (auto simp: is_lower_def is_digit_def code_in_def hyphen_def)

text \<open>What the loop keeps: short, of the right characters, and not starting with a hyphen.\<close>

definition slug_ok :: "string \<Rightarrow> bool" where
  "slug_ok s \<longleftrightarrow> length s \<le> MAX_SLUG_LEN \<and> list_all id_char s \<and> (s = [] \<or> hd s \<noteq> hyphen)"

lemma slug_loop_ok: "slug_ok slug \<Longrightarrow> slug_ok (slug_loop slug cs)"
proof (induction slug cs rule: slug_loop.induct)
  case (2 slug c cs)
  have "slug_ok (slug @ [to_lower c])" if "is_alnum c" "length slug < MAX_SLUG_LEN"
    using that 2(4) to_lower_ok [OF that(1)] not_hyphen [of "to_lower c"]
    by (auto simp: slug_ok_def id_char_def hd_append)
  moreover have "slug_ok (slug @ [hyphen])" if "slug \<noteq> []" "length slug < MAX_SLUG_LEN"
    using that 2(4) by (auto simp: slug_ok_def id_char_def)
  ultimately show ?case
    using 2 by auto
qed simp

lemma trim_end_prefix: "\<exists>k. s = trim_end c s @ replicate k c"
proof -
  have "rev s = takeWhile (\<lambda>x. x = c) (rev s) @ dropWhile (\<lambda>x. x = c) (rev s)"
    by simp
  moreover have "takeWhile (\<lambda>x. x = c) xs = replicate (length (takeWhile (\<lambda>x. x = c) xs)) c" for xs
    by (metis (full_types) replicate_length_same set_takeWhileD)
  ultimately have "s = rev (dropWhile (\<lambda>x. x = c) (rev s)) @
      rev (replicate (length (takeWhile (\<lambda>x. x = c) (rev s))) c)"
    by (metis rev_append rev_rev_ident)
  then show ?thesis
    unfolding trim_end_def by (metis rev_replicate)
qed

lemma trim_end_last: "trim_end c s \<noteq> [] \<Longrightarrow> last (trim_end c s) \<noteq> c"
  using hd_dropWhile [of "\<lambda>x. x = c" "rev s"] by (simp add: trim_end_def last_rev)

lemma trim_slug:
  assumes "slug_ok s" and "trim_end hyphen s \<noteq> []"
  shows "length (trim_end hyphen s) \<le> MAX_SLUG_LEN \<and> list_all id_char (trim_end hyphen s) \<and>
    hd (trim_end hyphen s) \<noteq> hyphen"
proof -
  obtain t k where "trim_end hyphen s = t" "s = t @ replicate k hyphen"
    using trim_end_prefix [of s hyphen] by blast
  then show ?thesis
    using assms by (auto simp: slug_ok_def)
qed

lemma slugify_ok:
  "slugify n \<noteq> [] \<and> length (slugify n) \<le> MAX_SLUG_LEN \<and> list_all id_char (slugify n) \<and>
   hd (slugify n) \<noteq> hyphen \<and> last (slugify n) \<noteq> hyphen"
proof (cases "trim_end hyphen (slug_loop [] n) = []")
  case True
  then have "slugify n = ''workspace''"
    by (simp add: slugify_def FALLBACK_SLUG_def)
  then show ?thesis
    by (simp add: id_consts id_char_def is_lower_def code_in_def hyphen_def)
next
  case False
  let ?t = "trim_end hyphen (slug_loop [] n)"
  have s: "slugify n = ?t"
    using False by (simp add: slugify_def)
  have ok: "slug_ok (slug_loop [] n)"
    by (rule slug_loop_ok) (simp add: slug_ok_def)
  have "length ?t \<le> MAX_SLUG_LEN \<and> list_all id_char ?t \<and> hd ?t \<noteq> hyphen"
    by (rule trim_slug [OF ok False])
  then show ?thesis
    using s False trim_end_last [OF False] by simp
qed

lemma alphabet_ok: "c \<in> set ALPHABET \<Longrightarrow> is_lower c \<or> is_digit c"
  by (auto simp: ALPHABET_def is_lower_def is_digit_def code_in_def)

lemma mint_loop_Some:
  "mint_loop slug taken ss = Some i \<Longrightarrow> \<not> taken i \<and> (\<exists>s \<in> set ss. i = slug @ [hyphen] @ s)"
  by (induction ss) (auto simp: Let_def split: if_splits)

lemma minted_id_valid:
  assumes "mint_id n taken (map random_suffix draws) = Some i"
    and "\<forall>d \<in> set draws. length d = SUFFIX_LEN"
  shows "is_valid_id i \<and> \<not> taken i"
proof -
  obtain d where d: "d \<in> set draws" "i = slugify n @ [hyphen] @ random_suffix d" "\<not> taken i"
    using mint_loop_Some assms(1) unfolding mint_id_def by fastforce
  have len: "length (random_suffix d) = 6"
    using d(1) assms(2) by (simp add: random_suffix_def id_consts)
  have chars: "\<forall>c \<in> set (random_suffix d). is_lower c \<or> is_digit c"
  proof -
    have "ALPHABET ! (k mod length ALPHABET) \<in> set ALPHABET" for k
      by (rule nth_mem) (simp add: ALPHABET_def)
    then show ?thesis
      using alphabet_ok by (auto simp: random_suffix_def)
  qed
  have "last i \<noteq> hyphen"
    using len chars not_hyphen by (auto simp: d(2))
  moreover have "list_all id_char (random_suffix d)"
    using chars by (auto simp: list_all_iff id_char_def)
  ultimately show ?thesis
    using slugify_ok [of n] len d(2,3)
    by (auto simp: is_valid_id_def id_char_def id_consts)
qed

section \<open>Comparing tokens\<close>

lemma byte_inj: "byte x = byte y \<longleftrightarrow> x = y"
proof -
  have "unat (byte c) = of_char c" for c
    by (simp add: byte_def unat_of_nat)
  then show ?thesis
    by (metis of_char_eq_iff)
qed

lemma or_eq_0: "(a :: 8 word) OR b = 0 \<longleftrightarrow> a = 0 \<and> b = 0"
  by (auto simp: bit_eq_iff bit_simps)

lemma xor_eq_0: "(a :: 8 word) XOR b = 0 \<longleftrightarrow> a = b"
  by (metis xor.assoc xor.left_neutral xor_self_eq)

lemma fold_diff:
  "foldl (\<lambda>d (x, y). d OR (byte x XOR byte y)) d0 ps = 0 \<longleftrightarrow> d0 = 0 \<and> (\<forall>(x, y) \<in> set ps. x = y)"
  by (induction ps arbitrary: d0) (auto simp: or_eq_0 xor_eq_0 byte_inj)

lemma constant_time_eq_iff: "constant_time_eq a b \<longleftrightarrow> a = b"
proof -
  have "(\<forall>(x, y) \<in> set (zip a b). x = y) \<longleftrightarrow> a = b" if "length a = length b"
    using that by (induction a b rule: list_induct2) auto
  then show ?thesis
    by (auto simp: constant_time_eq_def fold_diff)
qed

section \<open>Properties\<close>

text \<open>
  Every identifier the server mints is one it would accept: whatever the display name, in
  whatever script, the minted identifier is not taken, has at most 40 bytes of lower case
  letters, digits and hyphens, and neither starts nor ends with a hyphen.
\<close>

theorem minted_ids_are_valid:
  assumes "mint_id n taken (map random_suffix draws) = Some i"
    and "\<forall>d \<in> set draws. length d = SUFFIX_LEN"
  shows "is_valid_id i \<and> \<not> taken i"
  using assms by (rule minted_id_valid)

theorem minted_ids_are_valid_witness:
  "is_valid_id ''my-project-2-abcdef'' \<and> \<not> ''my-project-2-abcdef'' = ''other''"
proof (rule minted_ids_are_valid)
  show "mint_id ''My Project #2!'' (\<lambda>i. i = ''other'') (map random_suffix [[0, 1, 2, 3, 4, 5]]) =
      Some ''my-project-2-abcdef''"
    by code_simp
qed (simp add: SUFFIX_LEN_def)

text \<open>
  The comparison of tokens that does not depend on where they differ is exact: it accepts
  two byte strings precisely when they are equal.
\<close>

lemma constant_time_eq_exact: "constant_time_eq a b \<longleftrightarrow> a = b"
  by (rule constant_time_eq_iff)

end
