(* ===== verification/KC_Auth.thy ===== *)
theory KC_Auth
  imports KC_Ids
begin

text \<open>
  \<open>mcp/auth.rs\<close>: the guards every request to the MCP listener passes. Requests from web pages
  are kept out by requiring that the \<open>Host\<close> and \<open>Origin\<close> headers, where present, name the local
  machine; then a bearer token is extracted.

  Deciding whether a name is local uses the standard library's parser of IP addresses, which is
  modelled here as it is documented: strict dotted decimal for IPv4, and the text form of IPv6
  with \<open>::\<close> and an embedded IPv4 part.

  Reading a header as text is a function of the HTTP library and an argument here
  (\<open>to_str\<close>, \<open>None\<close> when the value is not visible ASCII). Trimming is by ASCII white space: text
  that \<open>to_str\<close> accepts has no other.
\<close>

section \<open>Text\<close>

definition rsplit_once :: "'a \<Rightarrow> 'a list \<Rightarrow> ('a list \<times> 'a list) option" where
  "rsplit_once c xs = map_option (\<lambda>(a, b). (rev b, rev a)) (split_once c (rev xs))"

definition trim_start :: "char \<Rightarrow> string \<Rightarrow> string" where
  "trim_start c s = dropWhile (\<lambda>x. x = c) s"

definition is_space :: "char \<Rightarrow> bool" where
  "is_space c \<longleftrightarrow> code_in 9 13 c \<or> c = CHR '' ''"

definition trim :: "string \<Rightarrow> string" where
  "trim s = rev (dropWhile is_space (rev (dropWhile is_space s)))"

definition eq_ignore_ascii_case :: "string \<Rightarrow> string \<Rightarrow> bool" where
  "eq_ignore_ascii_case a b \<longleftrightarrow> map to_lower a = map to_lower b"

text \<open>\<open>str::split_once(pattern)\<close> and the removal of a prefix and a suffix.\<close>

fun split_once_str :: "'a list \<Rightarrow> 'a list \<Rightarrow> ('a list \<times> 'a list) option" where
  "split_once_str pat [] = (if pat = [] then Some ([], []) else None)"
| "split_once_str pat (x # xs) =
     (if starts_with pat (x # xs) then Some ([], drop (length pat) (x # xs))
      else map_option (\<lambda>(a, b). (x # a, b)) (split_once_str pat xs))"

definition strip_prefix :: "'a list \<Rightarrow> 'a list \<Rightarrow> 'a list option" where
  "strip_prefix p s = (if starts_with p s then Some (drop (length p) s) else None)"

definition strip_suffix :: "'a list \<Rightarrow> 'a list \<Rightarrow> 'a list option" where
  "strip_suffix p s = (if starts_with (rev p) (rev s) then Some (take (length s - length p) s) else None)"

lemma strip_suffix_append [simp]: "strip_suffix p (a @ p) = Some a"
  by (simp add: strip_suffix_def)

lemma strip_suffix_Some: "strip_suffix p s = Some a \<longleftrightarrow> s = a @ p"
proof
  assume "strip_suffix p s = Some a"
  then obtain t where t: "rev s = rev p @ t" and a: "a = take (length s - length p) s"
    by (auto simp: strip_suffix_def starts_with_iff split: if_splits)
  then have "s = rev t @ p"
    by (metis rev_append rev_rev_ident)
  then show "s = a @ p"
    using a by simp
qed simp

lemma strip_prefix_Some: "strip_prefix p s = Some a \<longleftrightarrow> s = p @ a"
  by (auto simp: strip_prefix_def starts_with_iff)

lemma strip_prefix_append: "strip_prefix p (p @ a) = Some a"
  by (simp add: strip_prefix_Some)

section \<open>IP addresses\<close>

datatype ip_addr = V4 nat nat nat nat | V6 "nat list"

definition digit_val :: "nat \<Rightarrow> char \<Rightarrow> nat option" where
  "digit_val radix c =
     (let n = (of_char c :: nat) in
      if is_digit c then (if n - 48 < radix then Some (n - 48) else None)
      else if code_in 97 102 c then (if n - 87 < radix then Some (n - 87) else None)
      else if code_in 65 70 c then (if n - 55 < radix then Some (n - 55) else None)
      else None)"

definition number_value :: "nat \<Rightarrow> string \<Rightarrow> nat" where
  "number_value radix ds = foldl (\<lambda>a c. a * radix + (case digit_val radix c of Some d \<Rightarrow> d | None \<Rightarrow> 0)) 0 ds"

text \<open>
  \<open>read_number\<close>: at most \<open>maxd\<close> digits, a leading zero only if it is allowed or alone, and a
  value below \<open>bound\<close>.
\<close>

definition read_number :: "nat \<Rightarrow> nat \<Rightarrow> bool \<Rightarrow> nat \<Rightarrow> string \<Rightarrow> (nat \<times> string) option" where
  "read_number radix maxd zero_ok bound s =
     (let ds = takeWhile (\<lambda>c. digit_val radix c \<noteq> None) s; v = number_value radix ds in
      if ds = [] \<or> length ds > maxd \<or> \<not> zero_ok \<and> hd ds = CHR ''0'' \<and> length ds > 1 \<or> v \<ge> bound then None
      else Some (v, drop (length ds) s))"

text \<open>\<open>read_separator\<close>: every item but the first is preceded by a separator.\<close>

definition read_separator :: "char \<Rightarrow> nat \<Rightarrow> (string \<Rightarrow> ('a \<times> string) option) \<Rightarrow> string \<Rightarrow> ('a \<times> string) option" where
  "read_separator c i p s =
     (if i > 0 then (case s of x # xs \<Rightarrow> if x = c then p xs else None | [] \<Rightarrow> None) else p s)"

definition read_octet :: "nat \<Rightarrow> string \<Rightarrow> (nat \<times> string) option" where
  "read_octet i s = read_separator (CHR ''.'') i (read_number 10 3 False 256) s"

definition read_ipv4_addr :: "string \<Rightarrow> ((nat \<times> nat \<times> nat \<times> nat) \<times> string) option" where
  "read_ipv4_addr s =
     (case read_octet 0 s of None \<Rightarrow> None | Some (a, s) \<Rightarrow>
     (case read_octet 1 s of None \<Rightarrow> None | Some (b, s) \<Rightarrow>
     (case read_octet 2 s of None \<Rightarrow> None | Some (c, s) \<Rightarrow>
     (case read_octet 3 s of None \<Rightarrow> None | Some (d, s) \<Rightarrow> Some ((a, b, c, d), s)))))"

text \<open>\<open>read_groups\<close>: up to \<open>limit\<close> groups from number \<open>i\<close> on, and whether they end with an IPv4 part.\<close>

function read_groups :: "nat \<Rightarrow> nat \<Rightarrow> string \<Rightarrow> nat list \<times> bool \<times> string" where
  "read_groups limit i s =
     (if i \<ge> limit then ([], False, s)
      else
        (case (if i < limit - 1 then read_separator (CHR '':'') i read_ipv4_addr s else None) of
           Some ((a, b, c, d), s) \<Rightarrow> ([a * 256 + b, c * 256 + d], True, s)
         | None \<Rightarrow>
             (case read_separator (CHR '':'') i (read_number 16 4 True 65536) s of
                None \<Rightarrow> ([], False, s)
              | Some (g, s) \<Rightarrow> (let (gs, v4, s) = read_groups limit (i + 1) s in (g # gs, v4, s)))))"
  by pat_completeness auto
termination
  by (relation "measure (\<lambda>(limit, i, _). limit - i)") auto

declare read_groups.simps [simp del]

definition read_ipv6_addr :: "string \<Rightarrow> (nat list \<times> string) option" where
  "read_ipv6_addr s =
     (let (head, v4, s) = read_groups 8 0 s in
      if length head = 8 then Some (head, s)
      else if v4 then None
      else
        (case s of
           c # d # s \<Rightarrow>
             if c = CHR '':'' \<and> d = CHR '':'' then
               (let (tail, _, s) = read_groups (8 - (length head + 1)) 0 s
                in Some (head @ replicate (8 - length head - length tail) 0 @ tail, s))
             else None
         | _ \<Rightarrow> None))"

text \<open>\<open>str::parse::<IpAddr>\<close>: the whole text is one address.\<close>

definition parse_ip_addr :: "string \<Rightarrow> ip_addr option" where
  "parse_ip_addr s =
     (case read_ipv4_addr s of
        Some ((a, b, c, d), rest) \<Rightarrow> if rest = [] then Some (V4 a b c d) else None
      | None \<Rightarrow>
          (case read_ipv6_addr s of
             Some (gs, rest) \<Rightarrow> if rest = [] then Some (V6 gs) else None
           | None \<Rightarrow> None))"

fun is_loopback :: "ip_addr \<Rightarrow> bool" where
  "is_loopback (V4 a b c d) \<longleftrightarrow> a = 127"
| "is_loopback (V6 gs) \<longleftrightarrow> gs = [0, 0, 0, 0, 0, 0, 0, 1]"

section \<open>The guards\<close>

datatype auth_rejection = Forbidden string | Unauthorized string

definition is_loopback_authority :: "string \<Rightarrow> bool" where
  "is_loopback_authority authority =
     (let host = (case rsplit_once (CHR '':'') authority of
                    Some (host, port) \<Rightarrow>
                      if \<not> ends_with_char host (CHR ''['') \<and> list_all is_digit port then host else authority
                  | None \<Rightarrow> authority);
          host = trim_end (CHR '']'') (trim_start (CHR ''['') host)
      in if eq_ignore_ascii_case host ''localhost'' then True
         else (case parse_ip_addr host of Some addr \<Rightarrow> is_loopback addr | None \<Rightarrow> False))"

definition is_loopback_origin :: "string \<Rightarrow> bool" where
  "is_loopback_origin origin =
     (case split_once_str ''://'' origin of
        None \<Rightarrow> False
      | Some (scheme, rest) \<Rightarrow>
          if \<not> eq_ignore_ascii_case scheme ''http'' \<and> \<not> eq_ignore_ascii_case scheme ''https'' then False
          else is_loopback_authority rest)"

type_synonym headers = "string \<rightharpoonup> string"

definition check_loopback :: "(string \<Rightarrow> string option) \<Rightarrow> headers \<Rightarrow> auth_rejection + unit" where
  "check_loopback to_str h =
     (case (case h ''host'' of
              None \<Rightarrow> Inr ()
            | Some v \<Rightarrow>
                (case to_str v of
                   None \<Rightarrow> Inl (Forbidden ''Host header is not valid text'')
                 | Some host \<Rightarrow>
                     if \<not> is_loopback_authority host
                     then Inl (Forbidden (''Host '' @ [CHR 0x27] @ host @ [CHR 0x27] @ '' is not a loopback address''))
                     else Inr ())) of
        Inl e \<Rightarrow> Inl e
      | Inr _ \<Rightarrow>
          (case h ''origin'' of
             None \<Rightarrow> Inr ()
           | Some v \<Rightarrow>
               (case to_str v of
                  None \<Rightarrow> Inl (Forbidden ''Origin header is not valid text'')
                | Some origin \<Rightarrow>
                    if \<not> is_loopback_origin origin
                    then Inl (Forbidden (''Origin '' @ [CHR 0x27] @ origin @ [CHR 0x27] @ '' is not a loopback origin''))
                    else Inr ())))"

definition bearer_token :: "(string \<Rightarrow> string option) \<Rightarrow> headers \<Rightarrow> string option" where
  "bearer_token to_str h =
     (case h ''authorization'' of
        None \<Rightarrow> None
      | Some v \<Rightarrow>
          (case to_str v of
             None \<Rightarrow> None
           | Some value \<Rightarrow>
               (case split_once (CHR '' '') value of
                  None \<Rightarrow> None
                | Some (scheme, token) \<Rightarrow>
                    if \<not> eq_ignore_ascii_case scheme ''bearer'' then None
                    else (let token = trim token in if token = [] then None else Some token))))"

definition check_request :: "(string \<Rightarrow> string option) \<Rightarrow> headers \<Rightarrow> auth_rejection + string" where
  "check_request to_str h =
     (case check_loopback to_str h of
        Inl e \<Rightarrow> Inl e
      | Inr _ \<Rightarrow>
          (case bearer_token to_str h of
             Some token \<Rightarrow> Inr token
           | None \<Rightarrow> Inl (Unauthorized ''No bearer token supplied'')))"

section \<open>Lemmas on text\<close>

lemma rsplit_once_Some: "rsplit_once c xs = Some (a, b) \<Longrightarrow> xs = a @ c # b \<and> c \<notin> set b"
proof -
  assume "rsplit_once c xs = Some (a, b)"
  then have "split_once c (rev xs) = Some (rev b, rev a)"
    by (auto simp: rsplit_once_def)
  then have "rev xs = rev b @ c # rev a" and "c \<notin> set b"
    by (auto dest: split_once_Some)
  then show ?thesis
    by (metis append.assoc append_Cons append_Nil rev.simps(2) rev_append rev_rev_ident)
qed

lemma rsplit_once_append: "c \<notin> set b \<Longrightarrow> rsplit_once c (a @ c # b) = Some (a, b)"
  using split_once_append [of c "rev b" "rev a"] by (simp add: rsplit_once_def)

lemma trim_start_absent [simp]: "c \<notin> set s \<Longrightarrow> trim_start c s = s"
  by (cases s) (auto simp: trim_start_def)

lemma trim_end_absent [simp]: "c \<notin> set s \<Longrightarrow> trim_end c s = s"
  using trim_start_absent [of c "rev s"] by (simp add: trim_end_def trim_start_def)

lemma trim_end_split: "\<exists>n. s = trim_end c s @ replicate n c"
proof (induction s rule: rev_induct)
  case (snoc x xs)
  show ?case
  proof (cases "x = c")
    case True
    then have "trim_end c (xs @ [x]) = trim_end c xs"
      by (simp add: trim_end_def)
    moreover obtain n where "xs = trim_end c xs @ replicate n c"
      using snoc by blast
    then have "xs @ [c] = trim_end c xs @ replicate (Suc n) c"
      by (metis append.assoc replicate_append_same replicate_Suc)
    ultimately show ?thesis
      using True by metis
  next
    case False
    then show ?thesis
      by (intro exI [of _ 0]) (simp add: trim_end_def)
  qed
qed (simp add: trim_end_def)

lemma trim_start_split: "\<exists>n. s = replicate n c @ trim_start c s"
proof (induction s)
  case (Cons x xs)
  then obtain n where "xs = replicate n c @ trim_start c xs"
    by blast
  then show ?case
    by (cases "x = c") (auto simp: trim_start_def intro: exI [of _ "Suc n"] exI [of _ 0])
qed (simp add: trim_start_def)

section \<open>Lemmas on addresses\<close>

lemma digit_val_10: "digit_val 10 c = Some d \<longleftrightarrow> is_digit c \<and> d = (of_char c :: nat) - 48"
  by (auto simp: digit_val_def is_digit_def code_in_def Let_def)

lemma digit_val_hex: "digit_val radix c \<noteq> None \<Longrightarrow> is_hexdigit c"
  by (auto simp: digit_val_def is_hexdigit_def Let_def split: if_splits)

lemma is_digit_char: "is_digit c \<Longrightarrow> digit_char ((of_char c :: nat) - 48) = c"
  by (auto simp: digit_char_def is_digit_def code_in_def)

lemma digit_char_is_digit [simp]: "is_digit (digit_char d)"
proof -
  have "d mod 10 < 10"
    by simp
  then show ?thesis
    by (simp add: is_digit_def code_in_def digit_char_def of_char_of)
qed

lemma number_value_snoc:
  "is_digit c \<Longrightarrow> number_value 10 (ds @ [c]) = 10 * number_value 10 ds + ((of_char c :: nat) - 48)"
  using digit_val_10 [of c "(of_char c :: nat) - 48"] by (simp add: number_value_def)

lemma zero_char: "(of_char c :: nat) = 48 \<Longrightarrow> c = CHR ''0''"
  using of_char_eq_iff [where 'a = nat, of c "CHR ''0''"] by simp

lemma number_value_pos:
  "list_all is_digit ds \<Longrightarrow> ds \<noteq> [] \<Longrightarrow> hd ds \<noteq> CHR ''0'' \<Longrightarrow> number_value 10 ds > 0"
proof (induction ds rule: rev_induct)
  case (snoc c ds)
  show ?case
  proof (cases ds)
    case Nil
    have "(of_char c :: nat) \<noteq> 48"
      using snoc.prems(3) Nil zero_char [of c] by auto
    then show ?thesis
      using snoc.prems(1) Nil number_value_snoc [of c "[]"] by (simp add: is_digit_def code_in_def)
  next
    case (Cons d es)
    then have "number_value 10 ds > 0" and "is_digit c"
      using snoc by simp_all
    then show ?thesis
      using number_value_snoc [of c ds] by simp
  qed
qed simp

text \<open>A number without a leading zero is written in one way.\<close>

lemma show_number_value:
  "list_all is_digit ds \<Longrightarrow> ds \<noteq> [] \<Longrightarrow> hd ds \<noteq> CHR ''0'' \<or> length ds = 1 \<Longrightarrow> show_nat (number_value 10 ds) = ds"
proof (induction ds rule: rev_induct)
  case (snoc c ds)
  let ?d = "(of_char c :: nat) - 48"
  have c: "is_digit c" and d: "?d < 10" "digit_char ?d = c"
    using snoc.prems(1) is_digit_char [of c] by (auto simp: is_digit_def code_in_def)
  show ?case
  proof (cases "ds = []")
    case True
    then show ?thesis
      using d number_value_snoc [OF c, of "[]"] by (simp add: number_value_def show_nat.simps [of ?d])
  next
    case False
    then have hd: "hd ds \<noteq> CHR ''0''"
      using snoc.prems(3) by simp
    have pos: "number_value 10 ds > 0"
      using number_value_pos [OF _ False hd] snoc.prems(1) by simp
    have "digit_char (10 * number_value 10 ds + ?d) = c"
      using d by (simp add: digit_char_def)
    then show ?thesis
      using snoc False hd pos d
      by (simp add: number_value_snoc [OF c] show_nat.simps [of "10 * number_value 10 ds + ?d"])
  qed
qed simp

lemma show_nat_facts: "list_all is_digit (show_nat n) \<and> show_nat n \<noteq> [] \<and> number_value 10 (show_nat n) = n \<and>
    (n = 0 \<or> hd (show_nat n) \<noteq> CHR ''0'')"
proof (induction n rule: show_nat.induct)
  case (1 n)
  have dig: "(of_char (digit_char n) :: nat) - 48 = n mod 10"
  proof -
    have "n mod 10 < 10"
      by simp
    then show ?thesis
      by (simp add: digit_char_def of_char_of)
  qed
  show ?case
  proof (cases "n < 10")
    case True
    have "n = 0 \<or> digit_char n \<noteq> CHR ''0''"
      using dig True by auto
    then show ?thesis
      using True number_value_snoc [of "digit_char n" "[]"] dig by (simp add: show_nat.simps [of n] number_value_def)
  next
    case False
    then have "n div 10 \<noteq> 0"
      by simp
    then show ?thesis
      using 1 False dig by (simp add: show_nat.simps [of n] number_value_snoc)
  qed
qed

lemma show_nat_length: "n < 1000 \<Longrightarrow> length (show_nat n) \<le> 3"
  by (simp add: show_nat.simps [of n] show_nat.simps [of "n div 10"] show_nat.simps [of "n div 10 div 10"])

definition no_digit_next :: "string \<Rightarrow> bool" where
  "no_digit_next s \<longleftrightarrow> s = [] \<or> \<not> is_digit (hd s)"

lemma read_octet_number:
  "read_number 10 3 False 256 s = Some (v, r) \<longleftrightarrow> s = show_nat v @ r \<and> v < 256 \<and> no_digit_next r"
proof -
  have "digit_val 10 c \<noteq> None \<longleftrightarrow> is_digit c" for c
    using digit_val_10 [of c] by auto
  then have P: "(\<lambda>c. digit_val 10 c \<noteq> None) = is_digit"
    by (rule ext)
  note def = read_number_def [of 10 3 False 256 s, unfolded P Let_def]
  let ?ds = "takeWhile is_digit s"
  have ds: "list_all is_digit ?ds" "s = ?ds @ drop (length ?ds) s" "no_digit_next (drop (length ?ds) s)"
    using hd_dropWhile [of is_digit s]
    by (auto simp: list_all_iff dropWhile_eq_drop [symmetric] no_digit_next_def simp del: dropWhile_eq_Nil_conv
        dest: set_takeWhileD)
  show ?thesis
  proof
    assume r: "read_number 10 3 False 256 s = Some (v, r)"
    then have ne: "?ds \<noteq> []" and "hd ?ds \<noteq> CHR ''0'' \<or> \<not> length ?ds > 1" and v: "v = number_value 10 ?ds" "v < 256"
        "r = drop (length ?ds) s"
      by (simp_all add: def del: takeWhile_eq_Nil_iff split: if_splits)
    then have "hd ?ds \<noteq> CHR ''0'' \<or> length ?ds = 1"
      by (cases ?ds) auto
    then show "s = show_nat v @ r \<and> v < 256 \<and> no_digit_next r"
      using ds show_number_value [OF ds(1) ne] v by simp
  next
    assume a: "s = show_nat v @ r \<and> v < 256 \<and> no_digit_next r"
    have "?ds = show_nat v"
      using a show_nat_facts [of v] by (auto simp: list_all_iff takeWhile_append no_digit_next_def takeWhile_eq_Nil_iff)
    moreover have "hd (show_nat v) = CHR ''0'' \<Longrightarrow> length (show_nat v) = 1"
      using show_nat_facts [of v] by (auto simp: show_nat.simps [of 0])
    ultimately show "read_number 10 3 False 256 s = Some (v, r)"
      unfolding def using a show_nat_facts [of v] show_nat_length [of v] by auto
  qed
qed

lemma no_digit_next_dot [simp]: "no_digit_next (CHR ''.'' # s)"
  by (simp add: no_digit_next_def is_digit_def code_in_def)

text \<open>The dotted decimal form of four numbers.\<close>

definition dotted :: "nat \<Rightarrow> nat \<Rightarrow> nat \<Rightarrow> nat \<Rightarrow> string" where
  "dotted a b c d = show_nat a @ ''.'' @ show_nat b @ ''.'' @ show_nat c @ ''.'' @ show_nat d"

lemma read_octet_first: "read_octet 0 s = Some (v, r) \<longleftrightarrow> s = show_nat v @ r \<and> v < 256 \<and> no_digit_next r"
  by (simp add: read_octet_def read_separator_def read_octet_number)

lemma read_octet_next:
  "0 < i \<Longrightarrow> read_octet i s = Some (v, r) \<longleftrightarrow> s = ''.'' @ show_nat v @ r \<and> v < 256 \<and> no_digit_next r"
  by (auto simp: read_octet_def read_separator_def read_octet_number split: list.splits)

lemma read_ipv4_exact:
  "read_ipv4_addr s = Some ((a, b, c, d), r) \<longleftrightarrow>
     s = dotted a b c d @ r \<and> a < 256 \<and> b < 256 \<and> c < 256 \<and> d < 256 \<and> no_digit_next r"
proof
  assume "read_ipv4_addr s = Some ((a, b, c, d), r)"
  then obtain s1 s2 s3 where "read_octet 0 s = Some (a, s1)" "read_octet 1 s1 = Some (b, s2)"
      "read_octet 2 s2 = Some (c, s3)" "read_octet 3 s3 = Some (d, r)"
    by (auto simp: read_ipv4_addr_def split: option.splits)
  then show "s = dotted a b c d @ r \<and> a < 256 \<and> b < 256 \<and> c < 256 \<and> d < 256 \<and> no_digit_next r"
    by (simp add: read_octet_first read_octet_next dotted_def)
next
  assume a: "s = dotted a b c d @ r \<and> a < 256 \<and> b < 256 \<and> c < 256 \<and> d < 256 \<and> no_digit_next r"
  let ?s1 = "''.'' @ show_nat b @ ''.'' @ show_nat c @ ''.'' @ show_nat d @ r"
  let ?s2 = "''.'' @ show_nat c @ ''.'' @ show_nat d @ r" and ?s3 = "''.'' @ show_nat d @ r"
  have "read_octet 0 s = Some (a, ?s1)" "read_octet 1 ?s1 = Some (b, ?s2)"
      "read_octet 2 ?s2 = Some (c, ?s3)" "read_octet 3 ?s3 = Some (d, r)"
    using a by (simp_all add: read_octet_first read_octet_next dotted_def)
  then show "read_ipv4_addr s = Some ((a, b, c, d), r)"
    by (simp add: read_ipv4_addr_def)
qed

text \<open>An IPv4 address is accepted in exactly one spelling.\<close>

lemma parse_v4_exact:
  "parse_ip_addr s = Some (V4 a b c d) \<longleftrightarrow> s = dotted a b c d \<and> a < 256 \<and> b < 256 \<and> c < 256 \<and> d < 256"
proof -
  have "parse_ip_addr s = Some (V4 a b c d) \<longleftrightarrow> read_ipv4_addr s = Some ((a, b, c, d), [])"
    by (auto simp: parse_ip_addr_def split: option.splits if_splits)
  then show ?thesis
    by (simp add: read_ipv4_exact no_digit_next_def)
qed

text \<open>The characters an address is made of.\<close>

definition addr_char :: "char \<Rightarrow> bool" where
  "addr_char c \<longleftrightarrow> is_hexdigit c \<or> c = CHR ''.'' \<or> c = CHR '':''"

lemma show_nat_addr: "c \<in> set (show_nat n) \<Longrightarrow> addr_char c"
  using show_nat_facts [of n] by (auto simp: list_all_iff addr_char_def is_hexdigit_def)

lemma addr_char_sep [simp]: "addr_char (CHR ''.'')" "addr_char (CHR '':'')"
  by (simp_all add: addr_char_def)

lemma dotted_addr: "x \<in> set (dotted a b c d) \<Longrightarrow> addr_char x"
  by (auto simp: dotted_def dest: show_nat_addr)

text \<open>A reader consumes address characters only.\<close>

definition consumes :: "string \<Rightarrow> string \<Rightarrow> bool" where
  "consumes s r \<longleftrightarrow> (\<exists>ds. s = ds @ r \<and> (\<forall>c \<in> set ds. addr_char c))"

lemma consumes_refl [simp]: "consumes s s"
  by (auto simp: consumes_def)

lemma consumes_trans: "consumes s t \<Longrightarrow> consumes t r \<Longrightarrow> consumes s r"
  unfolding consumes_def by (metis Un_iff append.assoc set_append)

lemma consumes_sep: "addr_char x \<Longrightarrow> consumes s r \<Longrightarrow> consumes (x # s) r"
  unfolding consumes_def by (metis append_Cons set_ConsD)

lemma read_number_consumes: "read_number radix maxd z bound s = Some (v, r) \<Longrightarrow> consumes s r"
proof -
  assume "read_number radix maxd z bound s = Some (v, r)"
  then have r: "r = drop (length (takeWhile (\<lambda>c. digit_val radix c \<noteq> None) s)) s"
    by (simp add: read_number_def Let_def split: if_splits)
  have "s = takeWhile (\<lambda>c. digit_val radix c \<noteq> None) s @ r"
    unfolding r dropWhile_eq_drop [symmetric] by simp
  moreover have "\<forall>c \<in> set (takeWhile (\<lambda>c. digit_val radix c \<noteq> None) s). addr_char c"
    by (auto simp: addr_char_def dest!: set_takeWhileD intro: digit_val_hex [of radix])
  ultimately show ?thesis
    unfolding consumes_def by blast
qed

lemma read_ipv4_consumes: "read_ipv4_addr s = Some (x, r) \<Longrightarrow> consumes s r"
  by (cases x) (auto simp: read_ipv4_exact consumes_def dest: dotted_addr)

lemma read_separator_consumes:
  assumes "read_separator c i p s = Some (x, r)" and "addr_char c" and "\<And>u y v. p u = Some (y, v) \<Longrightarrow> consumes u v"
  shows "consumes s r"
  using assms by (auto simp: read_separator_def intro: consumes_sep split: if_splits list.splits)

lemma read_groups_consumes: "read_groups limit i s = (gs, v4, r) \<Longrightarrow> consumes s r"
proof (induction limit i s arbitrary: gs v4 r rule: read_groups.induct)
  case (1 limit i s)
  let ?v4 = "if i < limit - 1 then read_separator (CHR '':'') i read_ipv4_addr s else None"
  let ?g = "read_separator (CHR '':'') i (read_number 16 4 True 65536) s"
  consider "limit \<le> i" | x t where "i < limit" "?v4 = Some (x, t)" | "i < limit" "?v4 = None" "?g = None"
    | g t where "i < limit" "?v4 = None" "?g = Some (g, t)"
    by fastforce
  then show ?case
  proof cases
    case 1
    then show ?thesis using "1.prems" by (simp add: read_groups.simps [of limit])
  next
    case (2 x t)
    then have "consumes s t"
      by (auto intro: read_separator_consumes read_ipv4_consumes split: if_splits)
    then show ?thesis
      using "1.prems" 2 by (cases x) (simp add: read_groups.simps [of limit i])
  next
    case 3
    then show ?thesis using "1.prems" by (simp add: read_groups.simps [of limit i])
  next
    case (4 g t)
    obtain gs' v4' r' where rest: "read_groups limit (i + 1) t = (gs', v4', r')"
      by (metis prod_cases3)
    have "consumes s t"
      using 4(3) by (rule read_separator_consumes) (auto intro: read_number_consumes)
    moreover have "consumes t r'"
      using "1.IH" [OF _ 4(2,3) _ rest] 4(1) by simp
    moreover have "r = r'"
      using "1.prems" 4 rest by (simp add: read_groups.simps [of limit i] Let_def)
    ultimately show ?thesis
      using consumes_trans by blast
  qed
qed

lemma parse_ip_chars: "parse_ip_addr s = Some a \<Longrightarrow> c \<in> set s \<Longrightarrow> addr_char c"
proof -
  assume a: "parse_ip_addr s = Some a" and c: "c \<in> set s"
  have "consumes s []"
  proof (cases "read_ipv4_addr s")
    case (Some x)
    then have "snd x = []"
      using a by (auto simp: parse_ip_addr_def split: if_splits prod.splits)
    then show ?thesis
      using read_ipv4_consumes [of s "fst x" "[]"] Some by (cases x) simp
  next
    case None
    then obtain gs where gs: "read_ipv6_addr s = Some (gs, [])"
      using a by (auto simp: parse_ip_addr_def split: option.splits if_splits)
    obtain hd v4 t where h: "read_groups 8 0 s = (hd, v4, t)"
      by (metis prod_cases3)
    consider "t = []" | u tl w where "t = CHR '':'' # CHR '':'' # u" "read_groups (8 - (length hd + 1)) 0 u = (tl, w, [])"
      using gs h by (auto simp: read_ipv6_addr_def Let_def split: if_splits list.splits prod.splits)
    then show ?thesis
    proof cases
      case (2 u tl w)
      then have "consumes t []"
        using read_groups_consumes [OF 2(2)] by (simp add: consumes_sep)
      then show ?thesis
        using read_groups_consumes [OF h] consumes_trans by blast
    qed (use read_groups_consumes [OF h] in simp)
  qed
  then show ?thesis
    using c by (simp add: consumes_def)
qed

section \<open>What the guards let through\<close>

text \<open>
  The names of the local machine: \<open>localhost\<close> in any case, a dotted address that starts with
  127, and the spellings of the IPv6 address \<open>::1\<close>.
\<close>

definition local_name :: "string \<Rightarrow> bool" where
  "local_name n \<longleftrightarrow>
     map to_lower n = ''localhost'' \<or>
     (\<exists>b c d. b < 256 \<and> c < 256 \<and> d < 256 \<and> n = dotted 127 b c d) \<or>
     (parse_ip_addr n = Some (V6 [0, 0, 0, 0, 0, 0, 0, 1]) \<and> (\<forall>x \<in> set n. addr_char x))"

text \<open>A name, in brackets or not, with or without a port.\<close>

definition local_authority :: "string \<Rightarrow> bool" where
  "local_authority a \<longleftrightarrow>
     (\<exists>i n j port. a = replicate i (CHR ''['') @ n @ replicate j (CHR '']'') @ port \<and> local_name n \<and>
        (port = [] \<or> (\<exists>ds. port = CHR '':'' # ds \<and> list_all is_digit ds)))"

lemma localhost_lower: "map to_lower ''localhost'' = ''localhost''"
  by code_simp

lemma local_name_test:
  assumes "eq_ignore_ascii_case n ''localhost'' \<or> (\<exists>a. parse_ip_addr n = Some a \<and> is_loopback a)"
  shows "local_name n"
  using assms unfolding eq_ignore_ascii_case_def localhost_lower
proof (elim disjE exE conjE)
  fix a
  assume a: "parse_ip_addr n = Some a" "is_loopback a"
  show ?thesis
  proof (cases a)
    case (V4 w x y z)
    then show ?thesis
      using a parse_v4_exact [of n w x y z] by (auto simp: local_name_def)
  next
    case (V6 gs)
    then show ?thesis
      using a parse_ip_chars [OF a(1)] by (auto simp: local_name_def)
  qed
qed (simp add: local_name_def)

lemma authority_local:
  assumes "is_loopback_authority a"
  shows "local_authority a"
proof -
  define host where "host = (case rsplit_once (CHR '':'') a of
      Some (host, port) \<Rightarrow> if \<not> ends_with_char host (CHR ''['') \<and> list_all is_digit port then host else a
    | None \<Rightarrow> a)"
  let ?n = "trim_end (CHR '']'') (trim_start (CHR ''['') host)"
  have loc: "local_name ?n"
    using assms by (intro local_name_test)
      (auto simp: is_loopback_authority_def host_def Let_def split: if_splits option.splits)
  obtain i where "host = replicate i (CHR ''['') @ trim_start (CHR ''['') host"
    using trim_start_split by blast
  moreover obtain j where "trim_start (CHR ''['') host = ?n @ replicate j (CHR '']'')"
    using trim_end_split by blast
  ultimately have host: "host = replicate i (CHR ''['') @ ?n @ replicate j (CHR '']'')"
    by simp
  have "\<exists>port. a = host @ port \<and> (port = [] \<or> (\<exists>ds. port = CHR '':'' # ds \<and> list_all is_digit ds))"
    by (auto simp: host_def split: option.splits dest: rsplit_once_Some)
  then obtain port where port: "a = host @ port" "port = [] \<or> (\<exists>ds. port = CHR '':'' # ds \<and> list_all is_digit ds)"
    by blast
  have "a = replicate i (CHR ''['') @ ?n @ replicate j (CHR '']'') @ port"
    using host port(1) by (metis append.assoc)
  then show ?thesis
    using loc port(2) unfolding local_authority_def by blast
qed

lemma split_once_str_Some: "split_once_str pat xs = Some (a, b) \<Longrightarrow> xs = a @ pat @ b"
proof (induction xs arbitrary: a)
  case (Cons x xs)
  show ?case
  proof (cases "starts_with pat (x # xs)")
    case True
    then show ?thesis
      using Cons.prems by (auto simp: starts_with_iff)
  next
    case False
    then show ?thesis
      using Cons by auto
  qed
qed (simp split: if_splits)

lemma check_request_host:
  "check_request to_str h = Inr t \<Longrightarrow> h ''host'' = Some v \<Longrightarrow> \<exists>host. to_str v = Some host \<and> is_loopback_authority host"
  by (auto simp: check_request_def check_loopback_def split: option.splits sum.splits if_splits)

lemma check_request_origin:
  "check_request to_str h = Inr t \<Longrightarrow> h ''origin'' = Some v \<Longrightarrow> \<exists>origin. to_str v = Some origin \<and> is_loopback_origin origin"
  by (auto simp: check_request_def check_loopback_def split: option.splits sum.splits if_splits)

lemma check_request_token: "check_request to_str h = Inr t \<Longrightarrow> bearer_token to_str h = Some t"
  by (auto simp: check_request_def split: option.splits sum.splits)

section \<open>Properties\<close>

text \<open>
  A web page cannot reach the MCP server by rebinding a name: a request passes the guards
  only if its \<open>Host\<close>, where present, and its \<open>Origin\<close>, where present, name the local machine,
  that is, \<open>localhost\<close>, an address in 127.0.0.0/8 written out in strict dotted decimal, or
  \<open>::1\<close>, with an optional numeric port; and only if it carries a token.
\<close>

theorem only_local_requests_pass:
  assumes "check_request to_str h = Inr t"
  shows "(\<forall>v. h ''host'' = Some v \<longrightarrow> (\<exists>host. to_str v = Some host \<and> local_authority host)) \<and>
    (\<forall>v. h ''origin'' = Some v \<longrightarrow>
       (\<exists>scheme host. to_str v = Some (scheme @ ''://'' @ host) \<and> map to_lower scheme \<in> {''http'', ''https''} \<and>
          local_authority host)) \<and>
    t \<noteq> []"
proof -
  have "\<exists>host. to_str v = Some host \<and> local_authority host" if "h ''host'' = Some v" for v
    using check_request_host [OF assms that] authority_local by blast
  moreover have "\<exists>scheme host. to_str v = Some (scheme @ ''://'' @ host) \<and> map to_lower scheme \<in> {''http'', ''https''} \<and>
          local_authority host" if "h ''origin'' = Some v" for v
  proof -
    obtain origin where o: "to_str v = Some origin" "is_loopback_origin origin"
      using check_request_origin [OF assms \<open>h ''origin'' = Some v\<close>] by blast
    then obtain scheme rest where s: "split_once_str ''://'' origin = Some (scheme, rest)"
        "eq_ignore_ascii_case scheme ''http'' \<or> eq_ignore_ascii_case scheme ''https''" "is_loopback_authority rest"
      by (auto simp: is_loopback_origin_def split: option.splits if_splits)
    have low: "map to_lower ''http'' = ''http''" "map to_lower ''https'' = ''https''"
      by code_simp+
    have "map to_lower scheme \<in> {''http'', ''https''}"
      using s(2) unfolding eq_ignore_ascii_case_def low by blast
    then show ?thesis
      using o(1) authority_local [OF s(3)] split_once_str_Some [OF s(1)] by metis
  qed
  moreover have "t \<noteq> []"
    using check_request_token [OF assms] by (auto simp: bearer_token_def Let_def split: option.splits if_splits)
  ultimately show ?thesis
    by blast
qed

definition sample_headers :: headers where
  "sample_headers = [''host'' \<mapsto> ''LOCALHOST:80'', ''authorization'' \<mapsto> ''Bearer abc'']"

lemma sample_check: "check_request Some sample_headers = Inr ''abc''"
  by code_simp

theorem only_local_requests_pass_witness: "local_authority ''LOCALHOST:80''"
  using only_local_requests_pass [OF sample_check] by (simp add: sample_headers_def)

text \<open>
  Among the IPv4 addresses exactly those of the local machine are let through, whatever the
  port: every address of the loopback network passes and no other does.
\<close>

theorem ipv4_host_exact:
  assumes "a < 256" and "b < 256" and "c < 256" and "d < 256"
  shows "is_loopback_authority (dotted a b c d @ '':'' @ show_nat port) \<longleftrightarrow> a = 127"
proof -
  let ?n = "dotted a b c d"
  have dig: "is_digit x" if "x \<in> set (show_nat k)" for x k
    using show_nat_facts [of k] that by (simp add: list_all_iff)
  have chars: "is_digit x \<or> x = CHR ''.''" if "x \<in> set ?n" for x
    using that dig by (auto simp: dotted_def)
  have no: "\<not> is_digit x" if "x = CHR '':'' \<or> x = CHR ''['' \<or> x = CHR '']''" for x
    using that by (auto simp: is_digit_def code_in_def)
  have plain: "CHR ''['' \<notin> set ?n" "CHR '']'' \<notin> set ?n" "CHR '':'' \<notin> set (show_nat port)"
    using chars dig no by fastforce+
  have noend: "\<not> ends_with_char ?n (CHR ''['')"
    using plain(1) last_in_set [of ?n] unfolding ends_with_char_def by metis
  have host: "rsplit_once (CHR '':'') (?n @ '':'' @ show_nat port) = Some (?n, show_nat port)"
    using plain(3) by (simp add: rsplit_once_append)
  have notlocal: "\<not> eq_ignore_ascii_case ?n ''localhost''"
  proof -
    have "hd ?n \<in> set (show_nat a)"
      using show_nat_facts [of a] by (simp add: dotted_def)
    then have "is_digit (hd ?n)" and "?n \<noteq> []"
      using dig by (auto simp: dotted_def)
    then have "to_lower (hd ?n) = hd ?n" and "hd (map to_lower ?n) = to_lower (hd ?n)"
      by (auto simp: to_lower_def is_upper_def is_digit_def code_in_def hd_map)
    then show ?thesis
      using \<open>is_digit (hd ?n)\<close> unfolding eq_ignore_ascii_case_def localhost_lower
      by (auto simp: is_digit_def code_in_def)
  qed
  have "parse_ip_addr ?n = Some (V4 a b c d)"
    using assms by (simp add: parse_v4_exact)
  then show ?thesis
    using host noend notlocal plain show_nat_facts [of port] by (simp add: is_loopback_authority_def Let_def)
qed

theorem ipv4_host_exact_witness:
  "is_loopback_authority (dotted 127 0 0 1 @ '':'' @ show_nat 5000) \<and> \<not> is_loopback_authority (dotted 10 0 0 1 @ '':'' @ show_nat 80)"
  using ipv4_host_exact [of 127 0 0 1 5000] ipv4_host_exact [of 10 0 0 1 80] by simp

end
