(* ===== verification/KC_Workspaces.thy ===== *)
theory KC_Workspaces
  imports KC_Ids KC_Machines "HOL-Library.AList"
begin

text \<open>
  \<open>mcp/workspaces.rs\<close>: the registry of MCP workspaces, with the windows attached to each, the
  commands agents have asked those windows to run, and the connected agents.

  A \<open>HashMap\<close> is an association list whose order stands for the order of iteration, which the
  source leaves open. The channel of a window is what has been sent to it, and closed when the
  window is gone. A waiting caller holds the receiving end of a one-shot channel: its request is
  an element of \<open>pending\<close>, an answer is an output of \<open>handle_message\<close>, and the removal of the
  element without an answer ends its wait. Counters are natural numbers: the source uses
  \<open>u64\<close> and \<open>i32\<close>, and one step adds one.
\<close>

section \<open>Data\<close>

record mcp_client =
  mc_id :: int
  mc_name :: "string option"
  mc_version :: "string option"
  mc_pid :: "int option"
  mc_working_directory :: "string option"
  mc_session_id :: "string option"
  mc_connected_at :: instant

record client_identity =
  ci_name :: "string option"
  ci_version :: "string option"
  ci_pid :: "int option"
  ci_working_directory :: "string option"
  ci_session_id :: "string option"

record command_request =
  cr_id :: string
  cr_command_id :: string
  cr_args :: "json list"
  cr_agent :: "string option \<times> string option"

record command_reply =
  cp_id :: string
  cp_ok :: bool
  cp_result :: "json option"
  cp_reason :: "string option"
  cp_message :: "string option"

datatype server_frontend_message = CommandRequest command_request | ClientsChanged "mcp_client list"

record agent_command_arg =
  aa_name :: string
  aa_description :: "string option"
  aa_required :: bool
  aa_schema :: "json option"

record agent_command =
  ac_id :: string
  ac_description :: string
  ac_args :: "agent_command_arg list"
  ac_returns :: "string option"

record frontend_hello =
  fh_positron_version :: "string option"
  fh_commands :: "agent_command list"
  fh_guide :: "(string \<times> string) list"
  fh_session_ids :: "string list"
  fh_foreground_session_id :: "string option"
  fh_focused :: bool

datatype frontend_message =
    Hello frontend_hello
  | CommandsChanged "agent_command list" "(string \<times> string) list"
  | ForegroundChanged "string option"
  | SessionsChanged "string list"
  | Focused
  | CommandReply command_reply

record frontend_channel =
  fc_generation :: nat
  fc_focus_seq :: nat
  fc_tx :: "server_frontend_message chan"

record pending_command =
  pd_request :: command_request
  pd_served_by :: nat

record workspace =
  ws_display_name :: string
  ws_token :: string
  ws_positron_version :: "string option"
  ws_commands :: "agent_command list"
  ws_guide :: "(string \<times> string) list"
  ws_session_ids :: "string list"
  ws_foreground_session_id :: "string option"
  ws_disconnected_since :: "instant option"
  ws_next_generation :: nat
  ws_next_focus_seq :: nat
  ws_channels :: "frontend_channel list"
  ws_pending :: "(string \<times> pending_command) list"
  ws_clients :: "mcp_client list"
  ws_next_client_id :: int

type_synonym registry = "(string \<times> workspace) list"

section \<open>One workspace\<close>

definition connected :: "workspace \<Rightarrow> bool" where
  "connected w \<longleftrightarrow> ws_channels w \<noteq> []"

text \<open>\<open>max_by_key\<close> returns the last of several greatest elements.\<close>

fun max_by_focus :: "frontend_channel list \<Rightarrow> nat \<Rightarrow> (nat \<times> nat) option \<Rightarrow> (nat \<times> nat) option" where
  "max_by_focus [] i best = best"
| "max_by_focus (c # cs) i best =
     max_by_focus cs (Suc i)
       (case best of
          None \<Rightarrow> Some (i, fc_focus_seq c)
        | Some (j, f) \<Rightarrow> if f \<le> fc_focus_seq c then Some (i, fc_focus_seq c) else best)"

definition primary :: "workspace \<Rightarrow> nat option" where
  "primary w = map_option fst (max_by_focus (ws_channels w) 0 None)"

definition attach :: "server_frontend_message chan \<Rightarrow> workspace \<Rightarrow> nat \<times> workspace" where
  "attach tx w =
     (let g = ws_next_generation w + 1 in
      (g, w\<lparr>ws_next_generation := g,
             ws_channels := ws_channels w @ [\<lparr>fc_generation = g, fc_focus_seq = 0, fc_tx = tx\<rparr>],
             ws_disconnected_since := None\<rparr>))"

text \<open>\<open>iter_mut().find(p)\<close> and the update of what it finds.\<close>

fun update_channel :: "nat \<Rightarrow> nat \<Rightarrow> frontend_channel list \<Rightarrow> frontend_channel list" where
  "update_channel g seq [] = []"
| "update_channel g seq (c # cs) =
     (if fc_generation c = g then c\<lparr>fc_focus_seq := seq\<rparr> # cs else c # update_channel g seq cs)"

definition focus :: "nat \<Rightarrow> workspace \<Rightarrow> workspace" where
  "focus g w =
     (let seq = ws_next_focus_seq w + 1 in
      w\<lparr>ws_next_focus_seq := seq, ws_channels := update_channel g seq (ws_channels w)\<rparr>)"

definition client_list :: "workspace \<Rightarrow> mcp_client list" where
  "client_list w = ws_clients w"

definition broadcast_clients :: "workspace \<Rightarrow> workspace" where
  "broadcast_clients w =
     w\<lparr>ws_channels := map (\<lambda>c. c\<lparr>fc_tx := chan_try (ClientsChanged (client_list w)) (fc_tx c)\<rparr>) (ws_channels w)\<rparr>"

text \<open>\<open>Vec::remove\<close>.\<close>

definition remove_at :: "nat \<Rightarrow> 'a list \<Rightarrow> 'a list" where
  "remove_at i xs = take i xs @ drop (Suc i) xs"

text \<open>The loop of \<open>dispatch\<close>: each turn delivers the request or drops a dead channel.\<close>

lemma max_by_focus_bound:
  "max_by_focus cs i best = Some (j, f) \<Longrightarrow> best = Some (j, f) \<or> i \<le> j \<and> j < i + length cs"
  by (induction cs i best rule: max_by_focus.induct) (auto split: option.splits if_splits)

lemma primary_bound: "primary w = Some i \<Longrightarrow> i < length (ws_channels w)"
  using max_by_focus_bound [of "ws_channels w" 0 None] by (auto simp: primary_def)

function dispatch :: "command_request \<Rightarrow> workspace \<Rightarrow> nat option \<times> workspace" where
  "dispatch req w =
     (case primary w of
        None \<Rightarrow> (None, w)
      | Some i \<Rightarrow>
          (let c = ws_channels w ! i in
           case chan_send (CommandRequest req) (fc_tx c) of
             Some tx \<Rightarrow> (Some (fc_generation c), w\<lparr>ws_channels := (ws_channels w)[i := c\<lparr>fc_tx := tx\<rparr>]\<rparr>)
           | None \<Rightarrow> dispatch req (w\<lparr>ws_channels := remove_at i (ws_channels w)\<rparr>)))"
  by pat_completeness auto
termination
  by (relation "measure (\<lambda>(_, w). length (ws_channels w))")
     (auto simp: remove_at_def dest!: primary_bound)

declare dispatch.simps [simp del]

section \<open>The registry\<close>

record registration =
  rg_workspace_id :: "string option"
  rg_display_name :: string
  rg_token :: "string option"

definition workspace_new :: "string \<Rightarrow> string \<Rightarrow> workspace" where
  "workspace_new display_name token =
     \<lparr>ws_display_name = display_name, ws_token = token, ws_positron_version = None, ws_commands = [],
      ws_guide = [], ws_session_ids = [], ws_foreground_session_id = None, ws_disconnected_since = None,
      ws_next_generation = 0, ws_next_focus_seq = 0, ws_channels = [], ws_pending = [], ws_clients = [],
      ws_next_client_id = 0\<rparr>"

definition supplied_token :: "registration \<Rightarrow> string option" where
  "supplied_token r =
     (case rg_token r of Some t \<Rightarrow> if is_valid_token t then Some t else None | None \<Rightarrow> None)"

text \<open>
  \<open>register\<close>, with the suffixes and the token it would draw. \<open>None\<close>: it is still looking for a
  free identifier after all those suffixes.
\<close>

definition register ::
  "string list \<Rightarrow> string \<Rightarrow> registration \<Rightarrow> registry \<Rightarrow> ((string \<times> string) \<times> registry) option" where
  "register suffixes fresh_token r reg =
     (let supplied = supplied_token r in
      case (case rg_workspace_id r of
              Some i \<Rightarrow> (case map_of reg i of Some w \<Rightarrow> Some (i, w) | None \<Rightarrow> None) | None \<Rightarrow> None) of
        Some (i, w) \<Rightarrow>
          (let w = w\<lparr>ws_display_name := rg_display_name r\<rparr>;
               w = (case supplied of Some t \<Rightarrow> w\<lparr>ws_token := t\<rparr> | None \<Rightarrow> w)
           in Some ((i, ws_token w), AList.update i w reg))
      | None \<Rightarrow>
          (case (case rg_workspace_id r of
                   Some i \<Rightarrow> if is_valid_id i then Some i
                             else mint_id (rg_display_name r) (\<lambda>i. map_of reg i \<noteq> None) suffixes
                 | None \<Rightarrow> mint_id (rg_display_name r) (\<lambda>i. map_of reg i \<noteq> None) suffixes) of
             None \<Rightarrow> None
           | Some i \<Rightarrow>
               (let token = (case supplied of Some t \<Rightarrow> t | None \<Rightarrow> fresh_token)
                in Some ((i, token), AList.update i (workspace_new (rg_display_name r) token) reg))))"

text \<open>\<open>deregister\<close>: whether it was there, and the clients whose connections are cancelled.\<close>

definition deregister :: "string \<Rightarrow> registry \<Rightarrow> (bool \<times> int list) \<times> registry" where
  "deregister i reg =
     (case map_of reg i of
        None \<Rightarrow> ((False, []), reg)
      | Some w \<Rightarrow> ((True, map mc_id (ws_clients w)), AList.delete i reg))"

definition add_client :: "instant \<Rightarrow> string \<Rightarrow> client_identity \<Rightarrow> registry \<Rightarrow> int option \<times> registry" where
  "add_client now i ident reg =
     (case map_of reg i of
        None \<Rightarrow> (None, reg)
      | Some w \<Rightarrow>
          (let k = ws_next_client_id w + 1;
               c = \<lparr>mc_id = k, mc_name = ci_name ident, mc_version = ci_version ident, mc_pid = ci_pid ident,
                    mc_working_directory = ci_working_directory ident, mc_session_id = ci_session_id ident,
                    mc_connected_at = now\<rparr>;
               w = broadcast_clients (w\<lparr>ws_next_client_id := k, ws_clients := ws_clients w @ [c]\<rparr>)
           in (Some k, AList.update i w reg)))"

fun remove_first :: "('a \<Rightarrow> bool) \<Rightarrow> 'a list \<Rightarrow> 'a list option" where
  "remove_first p [] = None"
| "remove_first p (x # xs) = (if p x then Some xs else map_option ((#) x) (remove_first p xs))"

definition remove_client :: "string \<Rightarrow> int \<Rightarrow> registry \<Rightarrow> registry" where
  "remove_client i k reg =
     (case map_of reg i of
        None \<Rightarrow> reg
      | Some w \<Rightarrow>
          (case remove_first (\<lambda>c. mc_id c = k) (ws_clients w) of
             None \<Rightarrow> reg
           | Some cs \<Rightarrow> AList.update i (broadcast_clients (w\<lparr>ws_clients := cs\<rparr>)) reg))"

text \<open>The loop of \<open>workspace_for_token\<close> compares every token and keeps the last match.\<close>

definition workspace_for_token :: "string \<Rightarrow> registry \<Rightarrow> string option" where
  "workspace_for_token token reg =
     foldl (\<lambda>found (i, w). if constant_time_eq (ws_token w) token then Some i else found) None reg"

definition registry_token :: "string \<Rightarrow> registry \<Rightarrow> string option" where
  "registry_token i reg = map_option ws_token (map_of reg i)"

definition attach_channel :: "string \<Rightarrow> server_frontend_message chan \<Rightarrow> registry \<Rightarrow> nat option \<times> registry" where
  "attach_channel i tx reg =
     (case map_of reg i of
        None \<Rightarrow> (None, reg)
      | Some w \<Rightarrow>
          (let (g, w) = attach (chan_try (ClientsChanged (client_list w)) tx) w
           in (Some g, AList.update i w reg)))"

text \<open>The loop over the requests a departing window was serving.\<close>

fun reassign :: "string list \<Rightarrow> workspace \<Rightarrow> workspace" where
  "reassign [] w = w"
| "reassign (i # is) w =
     (case map_of (ws_pending w) i of
        None \<Rightarrow> reassign is w
      | Some p \<Rightarrow>
          (case dispatch (pd_request p) (w\<lparr>ws_pending := AList.delete i (ws_pending w)\<rparr>) of
             (Some g, w) \<Rightarrow> reassign is (w\<lparr>ws_pending := AList.update i (p\<lparr>pd_served_by := g\<rparr>) (ws_pending w)\<rparr>)
           | (None, w) \<Rightarrow> reassign is w))"

definition detach :: "instant \<Rightarrow> nat \<Rightarrow> workspace \<Rightarrow> workspace" where
  "detach now g w =
     (let w = w\<lparr>ws_channels := filter (\<lambda>c. fc_generation c \<noteq> g) (ws_channels w)\<rparr>;
          orphaned = map fst (filter (\<lambda>(_, p). pd_served_by p = g) (ws_pending w));
          w = reassign orphaned w
      in if \<not> connected w then w\<lparr>ws_disconnected_since := Some now, ws_pending := []\<rparr> else w)"

definition detach_channel :: "instant \<Rightarrow> string \<Rightarrow> nat \<Rightarrow> registry \<Rightarrow> registry" where
  "detach_channel now i g reg =
     (case map_of reg i of None \<Rightarrow> reg | Some w \<Rightarrow> AList.update i (detach now g w) reg)"

text \<open>\<open>handle_message\<close> on the workspace: the reply handed to the waiting caller, if any.\<close>

fun handle_frontend :: "nat \<Rightarrow> frontend_message \<Rightarrow> workspace \<Rightarrow> command_reply option \<times> workspace" where
  "handle_frontend g (Hello h) w =
     (let w = w\<lparr>ws_positron_version := fh_positron_version h, ws_commands := fh_commands h, ws_guide := fh_guide h,
                ws_session_ids := fh_session_ids h, ws_foreground_session_id := fh_foreground_session_id h\<rparr>
      in (None, if fh_focused h then focus g w else w))"
| "handle_frontend g (CommandsChanged cs gd) w = (None, w\<lparr>ws_commands := cs, ws_guide := gd\<rparr>)"
| "handle_frontend g (ForegroundChanged s) w = (None, w\<lparr>ws_foreground_session_id := s\<rparr>)"
| "handle_frontend g (SessionsChanged ss) w = (None, w\<lparr>ws_session_ids := ss\<rparr>)"
| "handle_frontend g Focused w = (None, focus g w)"
| "handle_frontend g (CommandReply r) w =
     (case map_of (ws_pending w) (cp_id r) of
        Some p \<Rightarrow> (Some r, w\<lparr>ws_pending := AList.delete (cp_id r) (ws_pending w)\<rparr>)
      | None \<Rightarrow> (None, w))"

definition handle_message ::
  "string \<Rightarrow> nat \<Rightarrow> frontend_message \<Rightarrow> registry \<Rightarrow> command_reply option \<times> registry" where
  "handle_message i g m reg =
     (case map_of reg i of
        None \<Rightarrow> (None, reg)
      | Some w \<Rightarrow> (let (r, w) = handle_frontend g m w in (r, AList.update i w reg)))"

text \<open>\<open>enqueue\<close>: \<open>Inl\<close> for an unknown workspace, \<open>Inr False\<close> when no window is connected.\<close>

definition enqueue :: "instant \<Rightarrow> string \<Rightarrow> command_request \<Rightarrow> registry \<Rightarrow> (unit + bool) \<times> registry" where
  "enqueue now i req reg =
     (case map_of reg i of
        None \<Rightarrow> (Inl (), reg)
      | Some w \<Rightarrow>
          (case dispatch req w of
             (None, w) \<Rightarrow>
               (Inr False, AList.update i
                  (w\<lparr>ws_disconnected_since := (case ws_disconnected_since w of None \<Rightarrow> Some now | s \<Rightarrow> s)\<rparr>) reg)
           | (Some g, w) \<Rightarrow>
               (Inr True, AList.update i
                  (w\<lparr>ws_pending := AList.update (cr_id req) \<lparr>pd_request = req, pd_served_by = g\<rparr> (ws_pending w)\<rparr>) reg)))"

definition cancel_pending :: "string \<Rightarrow> string \<Rightarrow> registry \<Rightarrow> registry" where
  "cancel_pending i k reg =
     (case map_of reg i of
        None \<Rightarrow> reg
      | Some w \<Rightarrow> AList.update i (w\<lparr>ws_pending := AList.delete k (ws_pending w)\<rparr>) reg)"

text \<open>The read-only queries.\<close>

definition connection_state :: "string \<Rightarrow> registry \<Rightarrow> bool \<times> instant option" where
  "connection_state i reg =
     (case map_of reg i of Some w \<Rightarrow> (connected w, ws_disconnected_since w) | None \<Rightarrow> (False, None))"

definition registry_commands :: "string \<Rightarrow> registry \<Rightarrow> agent_command list" where
  "registry_commands i reg = (case map_of reg i of Some w \<Rightarrow> ws_commands w | None \<Rightarrow> [])"

definition registry_guide :: "string \<Rightarrow> registry \<Rightarrow> (string \<times> string) list" where
  "registry_guide i reg = (case map_of reg i of Some w \<Rightarrow> ws_guide w | None \<Rightarrow> [])"

definition registry_session_ids :: "string \<Rightarrow> registry \<Rightarrow> string list" where
  "registry_session_ids i reg = (case map_of reg i of Some w \<Rightarrow> ws_session_ids w | None \<Rightarrow> [])"

definition foreground_session :: "string \<Rightarrow> registry \<Rightarrow> string option" where
  "foreground_session i reg = (case map_of reg i of Some w \<Rightarrow> ws_foreground_session_id w | None \<Rightarrow> None)"

definition registered_ids :: "registry \<Rightarrow> string list" where
  "registered_ids reg = map fst reg"

definition registry_is_empty :: "registry \<Rightarrow> bool" where
  "registry_is_empty reg \<longleftrightarrow> reg = []"

definition registry_contains :: "string \<Rightarrow> registry \<Rightarrow> bool" where
  "registry_contains i reg \<longleftrightarrow> map_of reg i \<noteq> None"

definition registry_display_name :: "string \<Rightarrow> registry \<Rightarrow> string option" where
  "registry_display_name i reg = map_option ws_display_name (map_of reg i)"

definition registry_positron_version :: "string \<Rightarrow> registry \<Rightarrow> string option" where
  "registry_positron_version i reg = (case map_of reg i of Some w \<Rightarrow> ws_positron_version w | None \<Rightarrow> None)"

section \<open>Brokering\<close>

text \<open>The windows that can still be reached, and those that have sent the request on.\<close>

definition live :: "frontend_channel list \<Rightarrow> frontend_channel list" where
  "live cs = filter (\<lambda>c. ch_open (fc_tx c)) cs"

definition served :: "command_request \<Rightarrow> frontend_channel \<Rightarrow> frontend_channel" where
  "served req c = c\<lparr>fc_tx := (fc_tx c)\<lparr>ch_buf := ch_buf (fc_tx c) @ [CommandRequest req]\<rparr>\<rparr>"

definition generations :: "workspace \<Rightarrow> nat set" where
  "generations w = fc_generation ` set (ws_channels w)"

lemma max_by_focus_spec:
  "max_by_focus cs i best = Some (j, f) \<Longrightarrow>
     (\<forall>k < length cs. fc_focus_seq (cs ! k) \<le> f) \<and>
     (case best of None \<Rightarrow> True | Some (j0, acc) \<Rightarrow> acc \<le> f) \<and>
     ((best = Some (j, f) \<and> (\<forall>k < length cs. fc_focus_seq (cs ! k) < f)) \<or>
      (i \<le> j \<and> j - i < length cs \<and> fc_focus_seq (cs ! (j - i)) = f \<and>
       (\<forall>k < length cs. j - i < k \<longrightarrow> fc_focus_seq (cs ! k) < f)))"
proof (induction cs i best rule: max_by_focus.induct)
  case (2 c cs i best)
  let ?best = "case best of None \<Rightarrow> Some (i, fc_focus_seq c)
      | Some (j, f) \<Rightarrow> if f \<le> fc_focus_seq c then Some (i, fc_focus_seq c) else best"
  note IH = 2(1) [OF 2(2) [unfolded max_by_focus.simps]]
  have all: "fc_focus_seq ((c # cs) ! k) \<le> f" if "k < length (c # cs)" for k
    using that IH by (cases k) (auto split: option.splits if_splits)
  have best: "case best of None \<Rightarrow> True | Some (j0, acc) \<Rightarrow> acc \<le> f"
    using IH by (auto split: option.splits if_splits)
  from IH consider (old) "?best = Some (j, f)" "\<forall>k < length cs. fc_focus_seq (cs ! k) < f"
    | (new) "Suc i \<le> j" "j - Suc i < length cs" "fc_focus_seq (cs ! (j - Suc i)) = f"
        "\<forall>k < length cs. j - Suc i < k \<longrightarrow> fc_focus_seq (cs ! k) < f"
    by blast
  then show ?case
  proof cases
    case old
    then show ?thesis
      using all best
      by (auto simp: less_Suc_eq_0_disj split: option.splits if_splits)
  next
    case new
    have "fc_focus_seq ((c # cs) ! k) < f" if "k < length (c # cs)" "j - i < k" for k
      using that new by (cases k) (auto simp: Suc_diff_le)
    moreover have "(c # cs) ! (j - i) = cs ! (j - Suc i)"
      using new(1) by (simp add: nth_Cons split: nat.splits) (metis Suc_diff_Suc Suc_le_lessD nat.inject)
    ultimately show ?thesis
      using new all best by auto
  qed
qed (auto split: option.splits)

lemma primary_None: "primary w = None \<longleftrightarrow> ws_channels w = []"
proof -
  have "max_by_focus cs i best = None \<longleftrightarrow> cs = [] \<and> best = None" for cs i best
    by (induction cs i best rule: max_by_focus.induct) (auto split: option.splits if_splits)
  then show ?thesis by (simp add: primary_def)
qed

lemma primary_Some:
  assumes "primary w = Some i"
  shows "i < length (ws_channels w) \<and>
    (\<forall>k < length (ws_channels w). fc_focus_seq (ws_channels w ! k) \<le> fc_focus_seq (ws_channels w ! i)) \<and>
    (\<forall>k < length (ws_channels w). i < k \<longrightarrow> fc_focus_seq (ws_channels w ! k) < fc_focus_seq (ws_channels w ! i))"
  using assms max_by_focus_spec [of "ws_channels w" 0 None i] by (auto simp: primary_def)

lemma remove_at_live: "i < length cs \<Longrightarrow> \<not> ch_open (fc_tx (cs ! i)) \<Longrightarrow> live (remove_at i cs) = live cs"
proof -
  assume i: "i < length cs" and dead: "\<not> ch_open (fc_tx (cs ! i))"
  have "live (take i cs @ cs ! i # drop (Suc i) cs) = live (remove_at i cs)"
    using dead by (simp add: live_def remove_at_def)
  then show ?thesis
    using id_take_nth_drop [OF i] by simp
qed

lemma remove_at_set: "set (remove_at i cs) \<subseteq> set cs"
  by (auto simp: remove_at_def dest: in_set_takeD in_set_dropD)

text \<open>The chosen window among the reachable ones: greatest focus, and the last such.\<close>

definition chosen :: "frontend_channel list \<Rightarrow> frontend_channel \<Rightarrow> frontend_channel list \<Rightarrow> bool" where
  "chosen pre c post \<longleftrightarrow>
     ch_open (fc_tx c) \<and> (\<forall>x \<in> set pre. fc_focus_seq x \<le> fc_focus_seq c) \<and> (\<forall>x \<in> set post. fc_focus_seq x < fc_focus_seq c)"

lemma chosen_unique:
  assumes "pre @ x # post = pre' @ y # post'" and "chosen pre x post" and "chosen pre' y post'"
  shows "x = y"
proof -
  from assms(1) obtain us where "(pre @ us = pre' \<and> x # post = us @ y # post') \<or> (pre = pre' @ us \<and> us @ x # post = y # post')"
    by (auto simp: append_eq_append_conv2)
  then show ?thesis
    using assms(2,3) by (cases us) (auto simp: chosen_def)
qed

text \<open>One turn of the loop: the chosen window takes the request, or a dead one is dropped.\<close>

lemma dispatch_none: "primary w = None \<Longrightarrow> dispatch req w = (None, w)"
  by (simp add: dispatch.simps [of req w])

lemma dispatch_open:
  "primary w = Some i \<Longrightarrow> ch_open (fc_tx (ws_channels w ! i)) \<Longrightarrow>
     dispatch req w = (Some (fc_generation (ws_channels w ! i)),
       w\<lparr>ws_channels := (ws_channels w)[i := served req (ws_channels w ! i)]\<rparr>)"
  by (simp add: dispatch.simps [of req w] chan_send_def served_def Let_def)

lemma dispatch_dead:
  "primary w = Some i \<Longrightarrow> \<not> ch_open (fc_tx (ws_channels w ! i)) \<Longrightarrow>
     dispatch req w = dispatch req (w\<lparr>ws_channels := remove_at i (ws_channels w)\<rparr>)"
  by (simp add: dispatch.simps [of req w] chan_send_def Let_def)

lemma dispatch_rule [case_names none taken dead]:
  assumes "\<And>w. primary w = None \<Longrightarrow> P w None w"
    and "\<And>w i. primary w = Some i \<Longrightarrow> i < length (ws_channels w) \<Longrightarrow> ch_open (fc_tx (ws_channels w ! i)) \<Longrightarrow>
      P w (Some (fc_generation (ws_channels w ! i))) (w\<lparr>ws_channels := (ws_channels w)[i := served req (ws_channels w ! i)]\<rparr>)"
    and "\<And>w i r w'. primary w = Some i \<Longrightarrow> i < length (ws_channels w) \<Longrightarrow> \<not> ch_open (fc_tx (ws_channels w ! i)) \<Longrightarrow>
      P (w\<lparr>ws_channels := remove_at i (ws_channels w)\<rparr>) r w' \<Longrightarrow> P w r w'"
  shows "P w (fst (dispatch req w)) (snd (dispatch req w))"
proof (induction "length (ws_channels w)" arbitrary: w rule: less_induct)
  case less
  show ?case
  proof (cases "primary w")
    case None
    then show ?thesis using assms(1) by (simp add: dispatch_none)
  next
    case (Some i)
    have i: "i < length (ws_channels w)"
      using primary_bound [OF Some] .
    show ?thesis
    proof (cases "ch_open (fc_tx (ws_channels w ! i))")
      case True
      then show ?thesis using assms(2) [OF Some i] by (simp add: dispatch_open [OF Some])
    next
      case False
      have "P (w\<lparr>ws_channels := remove_at i (ws_channels w)\<rparr>)
          (fst (dispatch req (w\<lparr>ws_channels := remove_at i (ws_channels w)\<rparr>)))
          (snd (dispatch req (w\<lparr>ws_channels := remove_at i (ws_channels w)\<rparr>)))"
        by (rule less) (use i in \<open>simp add: remove_at_def\<close>)
      then show ?thesis
        using assms(3) [OF Some i False] by (simp add: dispatch_dead [OF Some False])
    qed
  qed
qed

lemma live_split:
  assumes "i < length cs" and "ch_open (fc_tx (cs ! i))"
  shows "live cs = live (take i cs) @ cs ! i # live (drop (Suc i) cs)"
  using assms(2) by (subst id_take_nth_drop [OF assms(1)]) (simp add: live_def)

lemma live_served:
  assumes "i < length cs" and "ch_open (fc_tx (cs ! i))"
  shows "live (cs[i := served req (cs ! i)]) = live (take i cs) @ served req (cs ! i) # live (drop (Suc i) cs)"
  using assms(2) unfolding upd_conv_take_nth_drop [OF assms(1)] by (simp add: live_def) (simp add: served_def)

lemma primary_chosen:
  assumes "primary w = Some i" and "ch_open (fc_tx (ws_channels w ! i))"
  shows "chosen (live (take i (ws_channels w))) (ws_channels w ! i) (live (drop (Suc i) (ws_channels w)))"
  using primary_Some [OF assms(1)] assms(2) by (auto simp: chosen_def live_def in_set_conv_nth)

lemma dispatch_choice:
  "case fst (dispatch req w) of
     None \<Rightarrow> live (ws_channels w) = [] \<and> ws_channels (snd (dispatch req w)) = []
   | Some g \<Rightarrow> \<exists>pre c post. live (ws_channels w) = pre @ c # post \<and> chosen pre c post \<and> fc_generation c = g \<and>
       live (ws_channels (snd (dispatch req w))) = pre @ served req c # post"
proof (induction w rule: dispatch_rule [where req = req])
  case (none w)
  then show ?case using primary_None [of w] by (simp add: live_def)
next
  case (taken w i)
  then show ?case
    using live_split [of i "ws_channels w"] live_served [of i "ws_channels w" req] primary_chosen [of w i] by auto
next
  case (dead w i r w')
  then show ?case
    using remove_at_live [of i "ws_channels w"] by (auto split: option.splits)
qed

text \<open>Only the windows change, and none is added.\<close>

lemma dispatch_frame:
  "snd (dispatch req w) = w\<lparr>ws_channels := ws_channels (snd (dispatch req w))\<rparr> \<and>
   generations (snd (dispatch req w)) \<subseteq> generations w \<and>
   (\<forall>g. fst (dispatch req w) = Some g \<longrightarrow> g \<in> generations w)"
proof (induction w rule: dispatch_rule [where req = req])
  case (taken w i)
  let ?c = "ws_channels w ! i"
  have "set ((ws_channels w)[i := served req ?c]) \<subseteq> insert (served req ?c) (set (ws_channels w))"
    by (rule set_update_subset_insert)
  then show ?case
    using taken by (auto simp: generations_def served_def)
next
  case (dead w i r w')
  have "generations (w\<lparr>ws_channels := remove_at i (ws_channels w)\<rparr>) \<subseteq> generations w"
    using remove_at_set [of i "ws_channels w"] by (auto simp: generations_def)
  then show ?case
    using dead by auto
qed simp

lemma dispatch_spec:
  "dispatch req w = (r, w') \<Longrightarrow>
     (case r of
        None \<Rightarrow> live (ws_channels w) = [] \<and> ws_channels w' = []
      | Some g \<Rightarrow> \<exists>pre c post. live (ws_channels w) = pre @ c # post \<and> chosen pre c post \<and> fc_generation c = g \<and>
          live (ws_channels w') = pre @ served req c # post) \<and>
     generations w' \<subseteq> generations w \<and> w' = w\<lparr>ws_channels := ws_channels w'\<rparr> \<and> (\<forall>g. r = Some g \<longrightarrow> g \<in> generations w)"
  using dispatch_choice [where req = req and w = w] dispatch_frame [where req = req and w = w]
  by (simp split: option.splits)

section \<open>Detaching a window\<close>

lemma dispatch_pending: "dispatch req w = (r, w') \<Longrightarrow> ws_pending w' = ws_pending w"
  using dispatch_spec [of req w r w'] by (metis workspace.select_convs(12) workspace.surjective workspace.update_convs(11))

lemma dispatch_empty: "ws_channels w = [] \<Longrightarrow> dispatch req w = (None, w)"
  using primary_None [of w] by (simp add: dispatch.simps [of req w])

lemma reassign_empty: "ws_channels w = [] \<Longrightarrow> ws_channels (reassign is w) = []"
proof (induction "is" arbitrary: w)
  case (Cons i "is")
  show ?case
    using Cons.IH Cons.prems dispatch_empty [of "w\<lparr>ws_pending := AList.delete i (ws_pending w)\<rparr>"]
    by (auto split: option.splits)
qed simp

text \<open>
  Moving the requests \<open>is\<close>: as long as a window is left, each of them is still there, unchanged
  but for the window that serves it, and the others are untouched.
\<close>

definition moved :: "string set \<Rightarrow> workspace \<Rightarrow> workspace \<Rightarrow> string \<Rightarrow> bool" where
  "moved K w w' k \<longleftrightarrow>
     (if k \<in> K
      then (case map_of (ws_pending w) k of
              None \<Rightarrow> map_of (ws_pending w') k = None
            | Some p \<Rightarrow> \<exists>g \<in> generations w. map_of (ws_pending w') k = Some (p\<lparr>pd_served_by := g\<rparr>))
      else map_of (ws_pending w') k = map_of (ws_pending w) k)"

text \<open>Moving one request to \<open>g\<close> first.\<close>

lemma moved_first:
  assumes "moved K w2 w' k" and "i \<notin> K" and "map_of (ws_pending w) i = Some p" and "g \<in> generations w"
    and "ws_pending w2 = AList.update i (p\<lparr>pd_served_by := g\<rparr>) (AList.delete i (ws_pending w))"
    and "generations w2 \<subseteq> generations w"
  shows "moved (insert i K) w w' k"
proof -
  have "map_of (ws_pending w2) k = (if k = i then Some (p\<lparr>pd_served_by := g\<rparr>) else map_of (ws_pending w) k)"
    by (simp add: assms(5) update_conv' delete_conv')
  then show ?thesis
    using assms(1-4,6) by (auto simp: moved_def split: option.splits if_splits)
qed

lemma reassign_spec:
  "distinct is \<Longrightarrow> ws_channels (reassign is w) \<noteq> [] \<Longrightarrow> moved (set is) w (reassign is w) k"
proof (induction "is" arbitrary: w)
  case (Cons i "is")
  show ?case
  proof (cases "map_of (ws_pending w) i")
    case None
    then show ?thesis
      using Cons.IH [of w] Cons.prems by (auto simp: moved_def)
  next
    case (Some p)
    let ?w0 = "w\<lparr>ws_pending := AList.delete i (ws_pending w)\<rparr>"
    obtain r w1 where d: "dispatch (pd_request p) ?w0 = (r, w1)"
      by fastforce
    show ?thesis
    proof (cases r)
      case None
      then have "ws_channels w1 = []"
        using dispatch_spec [OF d] by simp
      then show ?thesis
        using Cons.prems(2) d Some None reassign_empty by simp
    next
      case (Some g)
      let ?w2 = "w1\<lparr>ws_pending := AList.update i (p\<lparr>pd_served_by := g\<rparr>) (ws_pending w1)\<rparr>"
      have eq: "reassign (i # is) w = reassign is ?w2"
        using \<open>map_of (ws_pending w) i = Some p\<close> d Some by simp
      have "moved (set is) ?w2 (reassign is ?w2) k"
        using Cons.IH [of ?w2] Cons.prems eq by simp
      then show ?thesis
        unfolding eq list.set
        by (rule moved_first [where g = g and p = p])
           (use Cons.prems Some \<open>map_of (ws_pending w) i = Some p\<close> dispatch_spec [OF d] dispatch_pending [OF d] in
              \<open>auto simp: generations_def\<close>)
    qed
  qed
qed (simp add: moved_def)

section \<open>Focus\<close>

text \<open>Generations are distinct and issued; no focus number is ahead of the counter.\<close>

definition ws_ok :: "workspace \<Rightarrow> bool" where
  "ws_ok w \<longleftrightarrow>
     distinct (map fc_generation (ws_channels w)) \<and>
     (\<forall>c \<in> set (ws_channels w). fc_generation c \<le> ws_next_generation w \<and> fc_focus_seq c \<le> ws_next_focus_seq w) \<and>
     distinct (map mc_id (ws_clients w)) \<and> (\<forall>c \<in> set (ws_clients w). mc_id c \<le> ws_next_client_id w) \<and>
     distinct (map fst (ws_pending w))"

lemma map_generation_update [simp]: "map fc_generation (update_channel g seq cs) = map fc_generation cs"
  by (induction cs) simp_all

lemma update_channel_set:
  "c \<in> set (update_channel g seq cs) \<Longrightarrow> c \<in> set cs \<or> (\<exists>d \<in> set cs. fc_generation d = g \<and> c = d\<lparr>fc_focus_seq := seq\<rparr>)"
  by (induction cs) (auto split: if_splits)

lemma live_update:
  "distinct (map fc_generation cs) \<Longrightarrow>
     live (update_channel g seq cs) = map (\<lambda>c. if fc_generation c = g then c\<lparr>fc_focus_seq := seq\<rparr> else c) (live cs)"
proof (induction cs)
  case (Cons c cs)
  have "map (\<lambda>c. if fc_generation c = g then c\<lparr>fc_focus_seq := seq\<rparr> else c) (live cs) = live cs"
    if "fc_generation c = g"
    using Cons.prems that by (intro map_idI) (auto simp: live_def image_iff)
  then show ?case
    using Cons by (auto simp: live_def)
qed (simp add: live_def)

lemma dispatch_focused:
  assumes "ws_ok w" and "c \<in> set (live (ws_channels w))"
  shows "fst (dispatch req (focus (fc_generation c) w)) = Some (fc_generation c)"
proof -
  let ?g = "fc_generation c"
  let ?f = "\<lambda>x. if fc_generation x = ?g then x\<lparr>fc_focus_seq := ws_next_focus_seq w + 1\<rparr> else x"
  obtain r w' where d: "dispatch req (focus ?g w) = (r, w')"
    by fastforce
  have lv: "live (ws_channels (focus ?g w)) = map ?f (live (ws_channels w))"
    using assms(1) by (simp add: focus_def live_update ws_ok_def Let_def)
  have cin: "?f c \<in> set (live (ws_channels (focus ?g w)))" and seq: "fc_focus_seq (?f c) = ws_next_focus_seq w + 1"
    using assms(2) lv by (auto intro: image_eqI [of _ _ c])
  have others: "fc_focus_seq x \<le> ws_next_focus_seq w" if xl: "x \<in> set (live (ws_channels (focus ?g w)))" and xg: "fc_generation x \<noteq> ?g" for x
  proof -
    obtain y where y: "y \<in> set (live (ws_channels w))" "x = ?f y"
      using xl unfolding lv by auto
    then have "x = y"
      using xg by (auto split: if_splits)
    then show ?thesis
      using y assms(1) by (auto simp: live_def ws_ok_def)
  qed
  obtain g pre x post where x: "r = Some g" "live (ws_channels (focus ?g w)) = pre @ x # post" "chosen pre x post"
      "fc_generation x = g"
    using dispatch_spec [OF d] cin by (cases r) auto
  have "fc_focus_seq (?f c) \<le> fc_focus_seq x"
    using x(2,3) cin by (auto simp: chosen_def dest: less_imp_le)
  then have "fc_generation x = ?g"
    using others [of x] x(2) seq by force
  then show ?thesis
    using d x by simp
qed

section \<open>Every operation keeps a workspace well-formed\<close>

lemma ws_ok_new: "ws_ok (workspace_new n t)"
  by (simp add: ws_ok_def workspace_new_def)

lemma ws_ok_attach: "ws_ok w \<Longrightarrow> ws_ok (snd (attach tx w))"
  by (fastforce simp: ws_ok_def attach_def Let_def)

lemma ws_ok_focus: "ws_ok w \<Longrightarrow> ws_ok (focus g w)"
  by (fastforce simp: ws_ok_def focus_def Let_def dest: update_channel_set)

lemma ws_ok_broadcast: "ws_ok w \<Longrightarrow> ws_ok (broadcast_clients w)"
  by (auto simp: ws_ok_def broadcast_clients_def o_def)

lemma ws_ok_channels:
  assumes "ws_ok w" and "distinct (map fc_generation cs)"
    and "\<forall>c \<in> set cs. \<exists>d \<in> set (ws_channels w). fc_generation c = fc_generation d \<and> fc_focus_seq c = fc_focus_seq d"
  shows "ws_ok (w\<lparr>ws_channels := cs\<rparr>)"
proof -
  have "fc_generation c \<le> ws_next_generation w \<and> fc_focus_seq c \<le> ws_next_focus_seq w" if "c \<in> set cs" for c
    using assms(1,3) that unfolding ws_ok_def by metis
  then show ?thesis
    using assms(1,2) by (auto simp: ws_ok_def)
qed

lemma ws_ok_served:
  assumes "ws_ok w" and "i < length (ws_channels w)"
  shows "ws_ok (w\<lparr>ws_channels := (ws_channels w)[i := served req (ws_channels w ! i)]\<rparr>)"
proof (rule ws_ok_channels [OF assms(1)])
  let ?cs = "ws_channels w" and ?d = "served req (ws_channels w ! i)"
  have "map fc_generation (?cs[i := ?d]) = map fc_generation ?cs"
    using assms(2) by (simp add: map_update served_def list_update_same_conv)
  then show "distinct (map fc_generation (?cs[i := ?d]))"
    using assms(1) by (simp add: ws_ok_def)
  have "\<exists>d \<in> set ?cs. fc_generation ?d = fc_generation d \<and> fc_focus_seq ?d = fc_focus_seq d"
    using nth_mem [OF assms(2)] by (auto simp: served_def)
  then show "\<forall>c \<in> set (?cs[i := ?d]). \<exists>d \<in> set ?cs. fc_generation c = fc_generation d \<and> fc_focus_seq c = fc_focus_seq d"
    using set_update_subset_insert [of ?cs i ?d] by blast
qed

lemma ws_ok_remove_at: "ws_ok w \<Longrightarrow> ws_ok (w\<lparr>ws_channels := remove_at i (ws_channels w)\<rparr>)"
proof (rule ws_ok_channels)
  assume ok: "ws_ok w"
  have "map fc_generation (remove_at i (ws_channels w)) = remove_at i (map fc_generation (ws_channels w))"
    by (simp add: remove_at_def take_map drop_map)
  moreover have "distinct (remove_at i xs)" if "distinct xs" for xs :: "nat list"
    using that unfolding remove_at_def
    by (simp add: distinct_take distinct_drop set_take_disj_set_drop_if_distinct)
  ultimately show "distinct (map fc_generation (remove_at i (ws_channels w)))"
    using ok by (simp add: ws_ok_def)
qed (use remove_at_set [of i "ws_channels w"] in blast)+

lemma ws_ok_dispatch: "ws_ok w \<Longrightarrow> ws_ok (snd (dispatch req w))"
  by (induction w rule: dispatch_rule [where req = req]) (simp_all add: ws_ok_served ws_ok_remove_at)

lemma ws_ok_pending:
  "ws_ok w \<Longrightarrow> ws_ok (w\<lparr>ws_pending := AList.update k p (ws_pending w)\<rparr>)"
  "ws_ok w \<Longrightarrow> ws_ok (w\<lparr>ws_pending := AList.delete k (ws_pending w)\<rparr>)"
  by (simp_all add: ws_ok_def distinct_update distinct_delete)

lemma ws_ok_reassign: "ws_ok w \<Longrightarrow> ws_ok (reassign is w)"
proof (induction "is" arbitrary: w)
  case (Cons i "is")
  show ?case
  proof (cases "map_of (ws_pending w) i")
    case None
    then show ?thesis using Cons by simp
  next
    case (Some p)
    obtain r w1 where d: "dispatch (pd_request p) (w\<lparr>ws_pending := AList.delete i (ws_pending w)\<rparr>) = (r, w1)"
      by fastforce
    have "ws_ok w1"
      using ws_ok_dispatch [OF ws_ok_pending(2) [OF Cons.prems], of "pd_request p" i] d by simp
    then show ?thesis
      using Some d Cons.IH ws_ok_pending(1) by (cases r) auto
  qed
qed simp

lemma ws_ok_detach: "ws_ok w \<Longrightarrow> ws_ok (detach now g w)"
proof -
  assume ok: "ws_ok w"
  let ?w = "w\<lparr>ws_channels := filter (\<lambda>c. fc_generation c \<noteq> g) (ws_channels w)\<rparr>"
  have "ws_ok ?w"
    using ok by (intro ws_ok_channels) (auto simp: ws_ok_def distinct_map_filter)
  then have "ws_ok (reassign is ?w)" for "is"
    by (rule ws_ok_reassign)
  then show ?thesis
    by (simp add: detach_def Let_def) (simp add: ws_ok_def)
qed

lemma ws_ok_frontend: "ws_ok w \<Longrightarrow> ws_ok (snd (handle_frontend g m w))"
proof (cases m)
  case (Hello h)
  assume "ws_ok w"
  then have "ws_ok (w\<lparr>ws_positron_version := fh_positron_version h, ws_commands := fh_commands h, ws_guide := fh_guide h,
                ws_session_ids := fh_session_ids h, ws_foreground_session_id := fh_foreground_session_id h\<rparr>)"
    by (simp add: ws_ok_def)
  then show ?thesis
    using Hello ws_ok_focus by (simp add: Let_def)
next
  case (CommandReply r)
  assume "ws_ok w"
  then show ?thesis
    using CommandReply by (auto simp: ws_ok_pending split: option.splits)
next
  case Focused
  assume "ws_ok w"
  then show ?thesis using Focused ws_ok_focus by simp
qed (simp_all add: ws_ok_def)

lemma remove_first_set: "remove_first p xs = Some ys \<Longrightarrow> set ys \<subseteq> set xs \<and> (distinct (map f xs) \<longrightarrow> distinct (map f ys))"
  by (induction xs arbitrary: ys) (auto split: if_splits dest!: subsetD)

lemma ws_ok_remove_client:
  "ws_ok w \<Longrightarrow> remove_first p (ws_clients w) = Some cs \<Longrightarrow> ws_ok (w\<lparr>ws_clients := cs\<rparr>)"
  using remove_first_set [of p "ws_clients w" cs mc_id] by (auto simp: ws_ok_def)

lemma ws_ok_add_client:
  "ws_ok w \<Longrightarrow> mc_id c = ws_next_client_id w + 1 \<Longrightarrow>
     ws_ok (w\<lparr>ws_next_client_id := ws_next_client_id w + 1, ws_clients := ws_clients w @ [c]\<rparr>)"
  by (fastforce simp: ws_ok_def)

section \<open>The registry as a state machine\<close>

text \<open>The calls the server makes on the registry, and the loss of a window.\<close>

datatype registry_op =
    Register "string list" string registration
  | Deregister string
  | AddClient instant string client_identity
  | RemoveClient string int
  | AttachChannel string "server_frontend_message chan"
  | DetachChannel instant string nat
  | WindowGone string nat
  | Message string nat frontend_message
  | Enqueue instant string command_request
  | CancelPending string string

definition close_window :: "nat \<Rightarrow> workspace \<Rightarrow> workspace" where
  "close_window g w =
     w\<lparr>ws_channels := map (\<lambda>c. if fc_generation c = g then c\<lparr>fc_tx := (fc_tx c)\<lparr>ch_open := False\<rparr>\<rparr> else c) (ws_channels w)\<rparr>"

fun registry_step :: "registry_op \<Rightarrow> registry \<Rightarrow> registry" where
  "registry_step (Register ss t r) reg = (case register ss t r reg of Some (_, reg) \<Rightarrow> reg | None \<Rightarrow> reg)"
| "registry_step (Deregister i) reg = snd (deregister i reg)"
| "registry_step (AddClient now i c) reg = snd (add_client now i c reg)"
| "registry_step (RemoveClient i k) reg = remove_client i k reg"
| "registry_step (AttachChannel i tx) reg = snd (attach_channel i tx reg)"
| "registry_step (DetachChannel now i g) reg = detach_channel now i g reg"
| "registry_step (WindowGone i g) reg =
     (case map_of reg i of Some w \<Rightarrow> AList.update i (close_window g w) reg | None \<Rightarrow> reg)"
| "registry_step (Message i g m) reg = snd (handle_message i g m reg)"
| "registry_step (Enqueue now i req) reg = snd (enqueue now i req reg)"
| "registry_step (CancelPending i k) reg = cancel_pending i k reg"

text \<open>What the random choices of a registration satisfy.\<close>

fun op_ok :: "registry_op \<Rightarrow> bool" where
  "op_ok (Register ss t r) \<longleftrightarrow>
     is_valid_token t \<and> list_all (\<lambda>s. length s = SUFFIX_LEN \<and> list_all (\<lambda>c. is_lower c \<or> is_digit c) s) ss"
| "op_ok _ = True"

definition entry_fine :: "string \<Rightarrow> workspace \<Rightarrow> bool" where
  "entry_fine i w \<longleftrightarrow> is_valid_id i \<and> is_valid_token (ws_token w) \<and> ws_ok w"

definition registry_ok :: "registry \<Rightarrow> bool" where
  "registry_ok reg \<longleftrightarrow> distinct (map fst reg) \<and> (\<forall>i w. map_of reg i = Some w \<longrightarrow> entry_fine i w)"

lemma registry_ok_update: "registry_ok reg \<Longrightarrow> entry_fine i w \<Longrightarrow> registry_ok (AList.update i w reg)"
  by (auto simp: registry_ok_def distinct_update update_conv' split: if_splits)

lemma registry_ok_delete: "registry_ok reg \<Longrightarrow> registry_ok (AList.delete i reg)"
  by (auto simp: registry_ok_def distinct_delete delete_conv' restrict_map_def split: if_splits)

lemma registry_ok_get: "registry_ok reg \<Longrightarrow> map_of reg i = Some w \<Longrightarrow> entry_fine i w"
  by (simp add: registry_ok_def)

text \<open>No operation on a registered workspace changes its token.\<close>

lemma token_dispatch [simp]: "ws_token (snd (dispatch req w)) = ws_token w"
proof -
  obtain r w' where d: "dispatch req w = (r, w')"
    by fastforce
  then have "w' = w\<lparr>ws_channels := ws_channels w'\<rparr>"
    using dispatch_spec [OF d] by blast
  then have "ws_token w' = ws_token (w\<lparr>ws_channels := ws_channels w'\<rparr>)"
    by (rule arg_cong)
  then show ?thesis using d by simp
qed

lemma token_reassign [simp]: "ws_token (reassign is w) = ws_token w"
proof (induction "is" arbitrary: w)
  case (Cons i "is")
  have "ws_token w1 = ws_token w0" if "dispatch req w0 = (r, w1)" for req w0 r w1
    using token_dispatch [of req w0] that by simp
  then show ?case
    using Cons.IH by (auto split: option.splits prod.splits)
qed simp

lemma token_detach [simp]: "ws_token (detach now g w) = ws_token w"
  by (simp add: detach_def Let_def)

lemma token_frontend [simp]: "ws_token (snd (handle_frontend g m w)) = ws_token w"
  by (cases m) (auto simp: focus_def Let_def split: option.splits)

lemma entry_fine_change: "entry_fine i w \<Longrightarrow> ws_ok w' \<Longrightarrow> ws_token w' = ws_token w \<Longrightarrow> entry_fine i w'"
  by (simp add: entry_fine_def)

lemma minted_valid:
  assumes "mint_id n taken ss = Some i"
    and "list_all (\<lambda>s. length s = SUFFIX_LEN \<and> list_all (\<lambda>c. is_lower c \<or> is_digit c) s) ss"
  shows "is_valid_id i"
proof -
  obtain s where s: "s \<in> set ss" "i = slugify n @ [hyphen] @ s"
    using mint_loop_Some assms(1) unfolding mint_id_def by blast
  have len: "length s = 6" and chars: "\<forall>c \<in> set s. is_lower c \<or> is_digit c"
    using s(1) assms(2) by (auto simp: list_all_iff id_consts)
  have "last s \<noteq> hyphen"
    using len chars not_hyphen last_in_set [of s] by fastforce
  then show ?thesis
    using slugify_ok [of n] len chars s(2)
    by (auto simp: is_valid_id_def id_char_def id_consts list_all_iff)
qed

lemma register_ok:
  assumes "registry_ok reg" and "op_ok (Register ss t r)" and "register ss t r reg = Some ((i, tok), reg')"
  shows "registry_ok reg'"
proof -
  have tok: "is_valid_token x" if "supplied_token r = Some x" for x
    using that by (auto simp: supplied_token_def split: option.splits if_splits)
  let ?known = "case rg_workspace_id r of
      Some i \<Rightarrow> (case map_of reg i of Some w \<Rightarrow> Some (i, w) | None \<Rightarrow> None) | None \<Rightarrow> None"
  show ?thesis
  proof (cases ?known)
    case (Some iw)
    obtain j w where iw: "iw = (j, w)" by fastforce
    then have get: "map_of reg j = Some w"
      using Some by (auto split: option.splits)
    have fine: "entry_fine j w"
      by (rule registry_ok_get [OF assms(1) get])
    let ?w = "case supplied_token r of Some x \<Rightarrow> w\<lparr>ws_display_name := rg_display_name r, ws_token := x\<rparr>
        | None \<Rightarrow> w\<lparr>ws_display_name := rg_display_name r\<rparr>"
    have "entry_fine j ?w"
      using fine tok by (auto simp: entry_fine_def ws_ok_def split: option.splits)
    moreover have "reg' = AList.update j ?w reg"
      using assms(3) Some iw by (auto simp: register_def Let_def split: option.splits)
    ultimately show ?thesis
      using registry_ok_update [OF assms(1)] by simp
  next
    case None
    let ?pick = "case rg_workspace_id r of
                   Some i \<Rightarrow> if is_valid_id i then Some i
                             else mint_id (rg_display_name r) (\<lambda>i. map_of reg i \<noteq> None) ss
                 | None \<Rightarrow> mint_id (rg_display_name r) (\<lambda>i. map_of reg i \<noteq> None) ss"
    let ?tok = "case supplied_token r of Some x \<Rightarrow> x | None \<Rightarrow> t"
    obtain j where j: "?pick = Some j" and reg': "reg' = AList.update j (workspace_new (rg_display_name r) ?tok) reg"
      using assms(3) None by (auto simp: register_def Let_def split: option.splits)
    have "is_valid_id j"
      using j minted_valid assms(2) by (auto split: option.splits if_splits)
    moreover have "is_valid_token ?tok"
      using tok assms(2) by (auto split: option.splits)
    ultimately have "entry_fine j (workspace_new (rg_display_name r) ?tok)"
      using ws_ok_new by (simp add: entry_fine_def) (simp add: workspace_new_def)
    then show ?thesis
      using registry_ok_update [OF assms(1)] reg' by simp
  qed
qed

text \<open>An operation that rewrites one workspace keeps the registry sound if it keeps the entry so.\<close>

lemma registry_ok_modify:
  assumes "registry_ok reg" and "\<And>w. entry_fine i w \<Longrightarrow> entry_fine i (f w)"
  shows "registry_ok (case map_of reg i of None \<Rightarrow> reg | Some w \<Rightarrow> AList.update i (f w) reg)"
  using assms registry_ok_get [OF assms(1)] by (auto intro: registry_ok_update split: option.split)

lemma entry_fine_broadcast: "entry_fine i w \<Longrightarrow> entry_fine i (broadcast_clients w)"
  by (simp add: entry_fine_def ws_ok_broadcast) (simp add: broadcast_clients_def)

lemma entry_fine_pending:
  "entry_fine i w \<Longrightarrow> entry_fine i (w\<lparr>ws_pending := AList.update k p (ws_pending w)\<rparr>)"
  "entry_fine i w \<Longrightarrow> entry_fine i (w\<lparr>ws_pending := AList.delete k (ws_pending w)\<rparr>)"
  by (simp_all add: entry_fine_def ws_ok_pending)

lemma entry_fine_close: "entry_fine i w \<Longrightarrow> entry_fine i (close_window g w)"
proof -
  assume fine: "entry_fine i w"
  then have ok: "ws_ok w"
    by (simp add: entry_fine_def)
  have "ws_ok (close_window g w)"
    unfolding close_window_def
    by (rule ws_ok_channels [OF ok]) (use ok in \<open>auto simp: ws_ok_def o_def if_distrib cong: if_cong\<close>)
  then show ?thesis
    using fine by (simp add: entry_fine_def) (simp add: close_window_def)
qed

lemma entry_fine_dispatch: "entry_fine i w \<Longrightarrow> dispatch req w = (r, w') \<Longrightarrow> entry_fine i w'"
  using ws_ok_dispatch [of w req] token_dispatch [of req w] by (simp add: entry_fine_def)

lemma entry_fine_since: "entry_fine i (w\<lparr>ws_disconnected_since := x\<rparr>) = entry_fine i w"
  by (simp add: entry_fine_def ws_ok_def)

lemma registry_ok_deregister: "registry_ok reg \<Longrightarrow> registry_ok (snd (deregister i reg))"
  by (auto simp: deregister_def registry_ok_delete split: option.split)

lemma registry_ok_add_client: "registry_ok reg \<Longrightarrow> registry_ok (snd (add_client now i c reg))"
proof -
  assume ok: "registry_ok reg"
  show ?thesis
  proof (cases "map_of reg i")
    case (Some w)
    have "entry_fine i w"
      by (rule registry_ok_get [OF ok Some])
    then show ?thesis
      using Some ok ws_ok_add_client [of w]
      by (auto simp: add_client_def Let_def entry_fine_def intro!: registry_ok_update entry_fine_broadcast)
  qed (use ok in \<open>simp add: add_client_def\<close>)
qed

lemma registry_ok_remove_client: "registry_ok reg \<Longrightarrow> registry_ok (remove_client i k reg)"
  using registry_ok_get [of reg i] ws_ok_remove_client
  by (auto simp: remove_client_def entry_fine_def split: option.split intro!: registry_ok_update entry_fine_broadcast)

lemma registry_ok_attach: "registry_ok reg \<Longrightarrow> registry_ok (snd (attach_channel i tx reg))"
proof -
  assume ok: "registry_ok reg"
  have "entry_fine i (snd (attach x w))" if "entry_fine i w" for x w
    using that by (simp add: entry_fine_def ws_ok_attach) (simp add: attach_def Let_def)
  then show ?thesis
    using ok registry_ok_get [OF ok, of i]
    by (auto simp: attach_channel_def split_def Let_def split: option.split intro!: registry_ok_update)
qed

lemma registry_ok_detach: "registry_ok reg \<Longrightarrow> registry_ok (detach_channel now i g reg)"
  unfolding detach_channel_def by (rule registry_ok_modify) (simp_all add: entry_fine_def ws_ok_detach)

lemma registry_ok_message: "registry_ok reg \<Longrightarrow> registry_ok (snd (handle_message i g m reg))"
  using registry_ok_get [of reg i]
  by (auto simp: handle_message_def entry_fine_def ws_ok_frontend split_def Let_def split: option.split intro!: registry_ok_update)

lemma registry_ok_enqueue: "registry_ok reg \<Longrightarrow> registry_ok (snd (enqueue now i req reg))"
  using registry_ok_get [of reg i]
  by (auto simp: enqueue_def entry_fine_since split: option.splits prod.splits
      intro!: registry_ok_update entry_fine_pending dest: entry_fine_dispatch)

lemma registry_ok_cancel: "registry_ok reg \<Longrightarrow> registry_ok (cancel_pending i k reg)"
  unfolding cancel_pending_def by (rule registry_ok_modify) (simp_all add: entry_fine_pending)

lemma registry_ok_step: "registry_ok reg \<Longrightarrow> op_ok op \<Longrightarrow> registry_ok (registry_step op reg)"
proof (cases op)
  case (Register ss t r)
  assume "registry_ok reg" "op_ok op"
  then show ?thesis
    using Register register_ok [of reg ss t r] by (auto split: option.splits)
next
  case (WindowGone i g)
  assume "registry_ok reg"
  then have "registry_ok (case map_of reg i of None \<Rightarrow> reg | Some w \<Rightarrow> AList.update i (close_window g w) reg)"
    by (rule registry_ok_modify) (rule entry_fine_close)
  then show ?thesis
    using WindowGone by (simp split: option.splits)
qed (simp_all add: registry_ok_deregister registry_ok_add_client registry_ok_remove_client registry_ok_attach
       registry_ok_detach registry_ok_message registry_ok_enqueue registry_ok_cancel)

interpretation reg: guarded_machine registry_step op_ok registry_ok
  by unfold_locales (rule registry_ok_step)

text \<open>The lookup of a token returns the last match, or what it started with.\<close>

lemma token_fold:
  "case foldl (\<lambda>found (i, w). if constant_time_eq (ws_token w) t then Some i else found) acc xs of
     None \<Rightarrow> acc = None \<and> (\<forall>(i, w) \<in> set xs. ws_token w \<noteq> t)
   | Some i \<Rightarrow> (\<exists>w. (i, w) \<in> set xs \<and> ws_token w = t) \<or> (acc = Some i \<and> (\<forall>(i, w) \<in> set xs. ws_token w \<noteq> t))"
proof (induction xs arbitrary: acc)
  case (Cons x xs)
  obtain i w where x: "x = (i, w)"
    by fastforce
  show ?case
    using Cons.IH [of "if constant_time_eq (ws_token w) t then Some i else acc"]
    by (auto simp: x constant_time_eq_iff split: option.splits if_splits)
qed (simp split: option.split)

section \<open>Properties\<close>

definition sample_window :: "nat \<Rightarrow> nat \<Rightarrow> frontend_channel" where
  "sample_window g f = \<lparr>fc_generation = g, fc_focus_seq = f, fc_tx = chan_new\<rparr>"

definition sample_command :: command_request where
  "sample_command = \<lparr>cr_id = ''c'', cr_command_id = ''positron.help'', cr_args = [], cr_agent = (None, None)\<rparr>"

definition sample_workspace :: workspace where
  "sample_workspace = (workspace_new ''proj'' (replicate 64 (CHR ''a'')))
     \<lparr>ws_next_generation := 2, ws_next_focus_seq := 1, ws_channels := [sample_window 1 1, sample_window 2 0],
      ws_pending := [(''c'', \<lparr>pd_request = sample_command, pd_served_by = 1\<rparr>)]\<rparr>"

lemmas sample_ws = sample_workspace_def workspace_new_def sample_window_def sample_command_def



text \<open>
  A command goes to the window the user last looked at: right after a connected window of a
  well-formed workspace reports focus, the next request is handed to that window, and it is
  appended to what that window has been sent.
\<close>

theorem command_goes_to_focused_window:
  assumes "ws_ok w" and "c \<in> set (live (ws_channels w))" and "dispatch req (focus (fc_generation c) w) = (r, w')"
  shows "r = Some (fc_generation c) \<and>
    (\<exists>d \<in> set (live (ws_channels w')). fc_generation d = fc_generation c \<and> last (ch_buf (fc_tx d)) = CommandRequest req)"
proof -
  have r: "r = Some (fc_generation c)"
    using dispatch_focused [OF assms(1,2), of req] assms(3) by simp
  obtain pre x post where "live (ws_channels w') = pre @ served req x # post" "fc_generation x = fc_generation c"
    using dispatch_spec [OF assms(3)] r by auto
  then show ?thesis
    using r by (auto simp: served_def)
qed

theorem command_goes_to_focused_window_witness:
  "fst (dispatch sample_command (focus 2 sample_workspace)) = Some 2"
proof -
  have "ws_ok sample_workspace"
    by (simp add: ws_ok_def sample_ws)
  moreover have "sample_window 2 0 \<in> set (live (ws_channels sample_workspace))"
    by (simp add: sample_ws live_def chan_new_def)
  ultimately show ?thesis
    using command_goes_to_focused_window [of sample_workspace "sample_window 2 0" sample_command]
    by (cases "dispatch sample_command (focus 2 sample_workspace)") (simp add: sample_window_def)
qed

text \<open>
  Connecting is not enough to take over: when some connected window has ever had focus,
  attaching another window does not change which one the next request goes to.
\<close>

theorem attaching_does_not_steal_focus:
  assumes "c \<in> set (live (ws_channels w))" and "0 < fc_focus_seq c"
  shows "fst (dispatch req (snd (attach tx w))) = fst (dispatch req w)"
proof -
  let ?n = "\<lparr>fc_generation = ws_next_generation w + 1, fc_focus_seq = 0, fc_tx = tx\<rparr>"
  obtain r w1 s w2 where d: "dispatch req w = (r, w1)" "dispatch req (snd (attach tx w)) = (s, w2)"
    by (metis surj_pair)
  have lv: "live (ws_channels (snd (attach tx w))) = live (ws_channels w) @ (if ch_open tx then [?n] else [])"
    by (simp add: attach_def live_def Let_def)
  obtain pre x post where x: "live (ws_channels w) = pre @ x # post" "chosen pre x post" "r = Some (fc_generation x)"
    using dispatch_spec [OF d(1)] assms(1) by (cases r) auto
  obtain pre' y post' where y: "live (ws_channels (snd (attach tx w))) = pre' @ y # post'" "chosen pre' y post'"
      "s = Some (fc_generation y)"
    using dispatch_spec [OF d(2)] assms(1) lv by (cases s) auto
  have "fc_focus_seq c \<le> fc_focus_seq x"
    using x(1,2) assms(1) by (auto simp: chosen_def dest: less_imp_le)
  then have pos: "0 < fc_focus_seq x"
    using assms(2) by simp
  have ch: "chosen pre x (post @ (if ch_open tx then [?n] else []))"
    using x(2) pos by (auto simp: chosen_def)
  have "pre @ x # (post @ (if ch_open tx then [?n] else [])) = pre' @ y # post'"
    using lv x(1) y(1) by simp
  then have "x = y"
    using ch y(2) by (rule chosen_unique)
  then show ?thesis
    using d x(3) y(3) by simp
qed

theorem attaching_does_not_steal_focus_witness:
  "fst (dispatch sample_command (snd (attach chan_new sample_workspace))) = fst (dispatch sample_command sample_workspace)"
  by (rule attaching_does_not_steal_focus [of "sample_window 1 1"])
     (simp_all add: sample_ws live_def chan_new_def)

text \<open>
  C30. No command is lost when a window closes. If another window is left afterwards, every
  request is still waiting: those the departing window was serving have been handed to one of
  the other windows, and the rest are untouched. If none is left, none waits any more, so every
  caller is told at once that the workspace is disconnected.
\<close>

theorem detach_keeps_requests:
  fixes now :: instant and g :: nat
  assumes "distinct (map fst (ws_pending w))"
  defines "w' \<equiv> detach now g w"
  shows "if connected w'
    then (\<forall>k. case map_of (ws_pending w) k of
            None \<Rightarrow> map_of (ws_pending w') k = None
          | Some p \<Rightarrow>
              if pd_served_by p = g
              then \<exists>h \<in> generations w - {g}. map_of (ws_pending w') k = Some (p\<lparr>pd_served_by := h\<rparr>)
              else map_of (ws_pending w') k = Some p)
    else ws_pending w' = [] \<and> ws_disconnected_since w' = Some now"
proof -
  let ?w0 = "w\<lparr>ws_channels := filter (\<lambda>c. fc_generation c \<noteq> g) (ws_channels w)\<rparr>"
  let ?orphaned = "map fst (filter (\<lambda>(_, p). pd_served_by p = g) (ws_pending w))"
  let ?w1 = "reassign ?orphaned ?w0"
  have w': "w' = (if \<not> connected ?w1 then ?w1\<lparr>ws_disconnected_since := Some now, ws_pending := []\<rparr> else ?w1)"
    by (simp add: w'_def detach_def Let_def)
  show ?thesis
  proof (cases "connected ?w1")
    case False
    then show ?thesis
      using w' by (simp add: connected_def)
  next
    case True
    have dist: "distinct ?orphaned"
      using assms(1) by (simp add: distinct_map_filter)
    have orph: "k \<in> set ?orphaned \<longleftrightarrow> (\<exists>p. map_of (ws_pending w) k = Some p \<and> pd_served_by p = g)" for k
      using assms(1) by (force simp: map_of_eq_Some_iff)
    have gens: "generations ?w0 = generations w - {g}"
      by (auto simp: generations_def)
    have "case map_of (ws_pending w) k of
            None \<Rightarrow> map_of (ws_pending ?w1) k = None
          | Some p \<Rightarrow>
              if pd_served_by p = g
              then \<exists>h \<in> generations w - {g}. map_of (ws_pending ?w1) k = Some (p\<lparr>pd_served_by := h\<rparr>)
              else map_of (ws_pending ?w1) k = Some p" for k
      using reassign_spec [OF dist, of ?w0 k] True gens orph [of k]
      by (cases "map_of (ws_pending w) k") (auto simp: moved_def connected_def)
    moreover have w1: "w' = ?w1"
      using w' True by simp
    ultimately show ?thesis
      unfolding w1 if_P [OF True] by blast
  qed
qed

theorem detach_keeps_requests_witness:
  "connected (detach 9 1 sample_workspace) \<and>
     (\<exists>h \<in> generations sample_workspace - {1}. map_of (ws_pending (detach 9 1 sample_workspace)) ''c'' =
        Some \<lparr>pd_request = sample_command, pd_served_by = h\<rparr>)"
proof -
  have "distinct (map fst (ws_pending sample_workspace))"
    and get: "map_of (ws_pending sample_workspace) ''c'' = Some \<lparr>pd_request = sample_command, pd_served_by = 1\<rparr>"
    by (simp_all add: sample_ws)
  moreover have conn: "connected (detach 9 1 sample_workspace)"
    by (simp add: sample_ws detach_def connected_def dispatch.simps primary_def chan_send_def chan_new_def Let_def)
  ultimately show ?thesis
    using detach_keeps_requests [of sample_workspace 9 1] by (auto dest!: spec [of _ "''c''"])
qed

text \<open>
  A bearer token opens exactly the workspace it belongs to: the lookup returns a workspace
  only if its token is the one presented, and it returns one whenever some workspace has it.
\<close>

theorem token_lookup_exact:
  assumes "distinct (map fst reg)"
  shows "(\<forall>i. workspace_for_token t reg = Some i \<longrightarrow> registry_token i reg = Some t) \<and>
    (workspace_for_token t reg = None \<longleftrightarrow> (\<forall>i. registry_token i reg \<noteq> Some t))"
proof -
  have get: "registry_token i reg = Some t \<longleftrightarrow> (\<exists>w. (i, w) \<in> set reg \<and> ws_token w = t)" for i
    using assms by (auto simp: registry_token_def)
  show ?thesis
    using token_fold [where t = t and acc = None and xs = reg] unfolding workspace_for_token_def get
    by (auto split: option.splits)
qed

theorem token_lookup_exact_witness:
  "workspace_for_token (replicate 64 (CHR ''a'')) [(''proj'', sample_workspace)] = Some ''proj''"
proof -
  let ?reg = "[(''proj'', sample_workspace)]"
  have "registry_token ''proj'' ?reg = Some (replicate 64 (CHR ''a''))"
    by (simp add: registry_token_def sample_ws)
  moreover have "registry_token i ?reg = None" if "i \<noteq> ''proj''" for i
    using that by (simp add: registry_token_def)
  moreover have "distinct (map fst ?reg)"
    by simp
  ultimately show ?thesis
    using token_lookup_exact [of ?reg "replicate 64 (CHR ''a'')"]
    by (metis not_Some_eq option.distinct(1))
qed

end
