(* ===== verification/KC_Endpoint.thy ===== *)
theory KC_Endpoint
  imports KC_Auth KC_Workspaces
begin

text \<open>
  \<open>mcp/listener.rs\<close>, \<open>mcp/card.rs\<close> and \<open>mcp/mod.rs\<close>: the loopback endpoint agents connect to.
  One listener serves every workspace: a request is routed by its path, authorised by its token,
  and answered by the service of the workspace, which is built on first use.

  The Streamable HTTP service of the protocol library, which answers a request once it is routed,
  is not part of the model: the answer is the pair of workspace and calling session it is handed
  to. Also arguments: reading headers as text, decoding percent escapes, parsing the process
  number, rendering JSON, the hash behind an entity tag, the server's version and the protocol
  versions of the library.
\<close>

section \<open>URLs\<close>

definition MCP_PATH_PREFIX :: string where "MCP_PATH_PREFIX = ''/mcp/w/''"
definition CALLER_PATH_SEGMENT :: string where "CALLER_PATH_SEGMENT = ''/s/''"
definition PRESENCE_PATH_SUFFIX :: string where "PRESENCE_PATH_SUFFIX = ''/presence''"
definition CARD_PATH_SUFFIX :: string where "CARD_PATH_SUFFIX = ''/server-card''"

definition endpoint_url :: "nat \<Rightarrow> string \<Rightarrow> string" where
  "endpoint_url port i = ''http://127.0.0.1:'' @ show_nat port @ MCP_PATH_PREFIX @ i"

definition session_endpoint_url :: "nat \<Rightarrow> string \<Rightarrow> string \<Rightarrow> string" where
  "session_endpoint_url port i session = endpoint_url port i @ CALLER_PATH_SEGMENT @ session"

section \<open>The state\<close>

type_synonym service_key = "string \<times> string option"

record mcp_state =
  mcp_registry :: registry
  mcp_listener :: "nat option"
  mcp_services :: "service_key list"
  mcp_request_count :: nat
  mcp_idle_nudge_tx :: "nat option chan"

definition mcp_new :: "nat option chan \<Rightarrow> mcp_state" where
  "mcp_new tx = \<lparr>mcp_registry = [], mcp_listener = None, mcp_services = [], mcp_request_count = 0, mcp_idle_nudge_tx = tx\<rparr>"

text \<open>\<open>bind\<close>: the preferred port if it is given and free, else one the system picks.\<close>

definition bind :: "(nat \<Rightarrow> nat option) \<Rightarrow> nat option \<Rightarrow> nat option" where
  "bind os preferred =
     (case preferred of
        Some p \<Rightarrow> if p \<noteq> 0 then (case os p of Some port \<Rightarrow> Some port | None \<Rightarrow> os 0) else os 0
      | None \<Rightarrow> os 0)"

definition ensure_listener :: "(nat \<Rightarrow> nat option) \<Rightarrow> nat option \<Rightarrow> mcp_state \<Rightarrow> nat option \<times> mcp_state" where
  "ensure_listener os preferred m =
     (case mcp_listener m of
        Some port \<Rightarrow> (Some port, m)
      | None \<Rightarrow> (case bind os preferred of None \<Rightarrow> (None, m) | Some port \<Rightarrow> (Some port, m\<lparr>mcp_listener := Some port\<rparr>)))"

definition stop_listener :: "mcp_state \<Rightarrow> mcp_state" where
  "stop_listener m =
     (case mcp_listener m of
        None \<Rightarrow> m
      | Some _ \<Rightarrow> m\<lparr>mcp_listener := None, mcp_services := [], mcp_request_count := 0\<rparr>)"

definition service_for :: "string \<Rightarrow> string option \<Rightarrow> mcp_state \<Rightarrow> service_key option \<times> mcp_state" where
  "service_for i caller m =
     (if (i, caller) \<in> set (mcp_services m) then (Some (i, caller), m)
      else
        (case mcp_listener m of
           None \<Rightarrow> (None, m)
         | Some _ \<Rightarrow> (Some (i, caller), m\<lparr>mcp_services := mcp_services m @ [(i, caller)]\<rparr>)))"

definition drop_service :: "string \<Rightarrow> mcp_state \<Rightarrow> mcp_state" where
  "drop_service i m = m\<lparr>mcp_services := filter (\<lambda>(w, _). w \<noteq> i) (mcp_services m)\<rparr>"

definition drop_caller_service :: "string \<Rightarrow> mcp_state \<Rightarrow> mcp_state" where
  "drop_caller_service session m = m\<lparr>mcp_services := filter (\<lambda>(_, c). c \<noteq> Some session) (mcp_services m)\<rparr>"

text \<open>\<open>try_send\<close> on a channel of bounded capacity: a full channel drops the message.\<close>

definition chan_try_bounded :: "nat \<Rightarrow> 'a \<Rightarrow> 'a chan \<Rightarrow> 'a chan" where
  "chan_try_bounded cap x c = (if length (ch_buf c) < cap then chan_try x c else c)"

definition IDLE_NUDGE_CAPACITY :: nat where "IDLE_NUDGE_CAPACITY = 256"

definition note_request :: "mcp_state \<Rightarrow> mcp_state" where
  "note_request m =
     m\<lparr>mcp_request_count := (mcp_request_count m + 1) mod 2 ^ 64,
       mcp_idle_nudge_tx := chan_try_bounded IDLE_NUDGE_CAPACITY None (mcp_idle_nudge_tx m)\<rparr>"

section \<open>Requests\<close>

record http_request =
  rq_method :: string
  rq_path :: string
  rq_query :: "string option"
  rq_headers :: headers

record http_lib =
  lib_to_str :: "string \<Rightarrow> string option"
  lib_decode :: "string \<Rightarrow> string"
  lib_parse_pid :: "string \<Rightarrow> int option"
  lib_show_json :: "json \<Rightarrow> string"
  lib_hash :: "string \<Rightarrow> string"
  lib_version :: string
  lib_protocols :: "string list"

datatype mcp_response =
    StatusResponse nat string
  | CardResponse json
  | CardUnchanged
  | PresenceResponse int
  | Served string "string option"

definition server_card :: "http_lib \<Rightarrow> nat \<Rightarrow> string \<Rightarrow> string \<Rightarrow> string option \<Rightarrow> json" where
  "server_card lib port i display_name caller =
     (let url = (case caller of Some s \<Rightarrow> session_endpoint_url port i s | None \<Rightarrow> endpoint_url port i) in
      JObject [
        (''$schema'', JString ''https://static.modelcontextprotocol.io/schemas/v1/server-card.schema.json''),
        (''name'', JString ''co.posit/positron''),
        (''version'', JString (lib_version lib)),
        (''title'', JString ''Positron''),
        (''description'', JString (''The user'' @ [CHR 0x27] @ ''s live Positron interpreter sessions and IDE'')),
        (''websiteUrl'', JString ''https://positron.posit.co''),
        (''remotes'', JArray [JObject [
          (''type'', JString ''streamable-http''),
          (''url'', JString url),
          (''headers'', JArray [JObject [
            (''name'', JString ''Authorization''),
            (''description'', JString ''Bearer token for this workspace, which Positron publishes to its terminals as POSITRON_MCP_TOKEN''),
            (''isRequired'', JBool True),
            (''isSecret'', JBool True)]]),
          (''supportedProtocolVersions'', JArray (map JString (lib_protocols lib)))]]),
        (''_meta'', JObject [(''co.posit.positron/workspace'', JObject [
          (''id'', JString i), (''displayName'', JString display_name)])])])"

definition entity_tag :: "http_lib \<Rightarrow> string \<Rightarrow> string" where
  "entity_tag lib doc = [CHR 0x22] @ lib_hash lib doc @ [CHR 0x22]"

definition card_response :: "http_lib \<Rightarrow> http_request \<Rightarrow> string \<Rightarrow> string option \<Rightarrow> mcp_state \<Rightarrow> mcp_response" where
  "card_response lib rq i caller m =
     (if rq_method rq \<noteq> ''GET'' then StatusResponse 405 ''A server card is read with GET''
      else
        (case check_loopback (lib_to_str lib) (rq_headers rq) of
           Inl (Forbidden r) \<Rightarrow> StatusResponse 403 r
         | Inl (Unauthorized r) \<Rightarrow> StatusResponse 403 r
         | Inr _ \<Rightarrow>
             (case registry_display_name i (mcp_registry m) of
                None \<Rightarrow> StatusResponse 404 ''No such workspace; its window may have closed''
              | Some display_name \<Rightarrow>
                  (case mcp_listener m of
                     None \<Rightarrow> StatusResponse 503 ''The MCP server is shutting down''
                   | Some port \<Rightarrow>
                       (let doc = server_card lib port i display_name caller;
                            etag = entity_tag lib (lib_show_json lib doc);
                            unchanged = (case rq_headers rq ''if-none-match'' of
                                None \<Rightarrow> False
                              | Some v \<Rightarrow> (case lib_to_str lib v of
                                  None \<Rightarrow> False | Some v \<Rightarrow> list_ex (\<lambda>t. trim t = etag) (split_on (CHR '','') v)))
                        in if unchanged then CardUnchanged else CardResponse doc)))))"

definition query_pairs :: "http_lib \<Rightarrow> string \<Rightarrow> (string \<times> string) list" where
  "query_pairs lib q =
     (let decode = (\<lambda>t. lib_decode lib (map (\<lambda>c. if c = CHR ''+'' then CHR '' '' else c) t)) in
      map (\<lambda>pair. case split_once (CHR ''='') pair of
             Some (k, v) \<Rightarrow> (decode k, decode v) | None \<Rightarrow> (decode pair, []))
        (filter (\<lambda>pair. pair \<noteq> []) (split_on (CHR ''&'') q)))"

definition read_identity :: "http_lib \<Rightarrow> string option \<Rightarrow> (string \<times> string) list \<Rightarrow> client_identity" where
  "read_identity lib caller pairs =
     foldl (\<lambda>ident (k, v).
         if k = ''name'' then ident\<lparr>ci_name := Some v\<rparr>
         else if k = ''version'' then ident\<lparr>ci_version := Some v\<rparr>
         else if k = ''pid'' then ident\<lparr>ci_pid := lib_parse_pid lib v\<rparr>
         else if k = ''cwd'' then ident\<lparr>ci_working_directory := Some v\<rparr>
         else ident)
       \<lparr>ci_name = None, ci_version = None, ci_pid = None, ci_working_directory = None, ci_session_id = caller\<rparr> pairs"

definition presence_response ::
  "http_lib \<Rightarrow> instant \<Rightarrow> http_request \<Rightarrow> string \<Rightarrow> string option \<Rightarrow> mcp_state \<Rightarrow> mcp_response \<times> mcp_state" where
  "presence_response lib now rq i caller m =
     (if rq_method rq \<noteq> ''GET'' then (StatusResponse 405 ''A presence stream is opened with GET'', m)
      else
        (let ident = read_identity lib caller (query_pairs lib (case rq_query rq of Some q \<Rightarrow> q | None \<Rightarrow> [])) in
         case add_client now i ident (mcp_registry m) of
           (None, reg) \<Rightarrow> (StatusResponse 404 ''No such workspace; its window may have closed'', m\<lparr>mcp_registry := reg\<rparr>)
         | (Some k, reg) \<Rightarrow> (PresenceResponse k, m\<lparr>mcp_registry := reg\<rparr>)))"

text \<open>How a path is taken apart: card, presence, workspace and calling session.\<close>

definition strip_flag :: "string \<Rightarrow> string \<Rightarrow> string \<times> bool" where
  "strip_flag suffix e = (case strip_suffix suffix e of Some e' \<Rightarrow> (e', True) | None \<Rightarrow> (e, False))"

definition route :: "string \<Rightarrow> (bool \<times> bool \<times> string \<times> string option) option" where
  "route path =
     (case strip_prefix MCP_PATH_PREFIX path of
        None \<Rightarrow> None
      | Some rest \<Rightarrow>
          (let e = trim_end (CHR ''/'') rest in
           if e = [] then None
           else
             (let (e, is_card) = strip_flag CARD_PATH_SUFFIX e;
                  (e, presence) = strip_flag PRESENCE_PATH_SUFFIX e;
                  (addressed, caller) =
                    (case split_once_str CALLER_PATH_SEGMENT e of
                       Some (w, s) \<Rightarrow> if s \<noteq> [] then (w, Some s) else (w, None)
                     | None \<Rightarrow> (e, None))
              in Some (is_card, presence, addressed, caller))))"

definition mcp_call :: "http_lib \<Rightarrow> instant \<Rightarrow> http_request \<Rightarrow> mcp_state \<Rightarrow> mcp_response \<times> mcp_state" where
  "mcp_call lib now rq m =
     (case route (rq_path rq) of
        None \<Rightarrow> (StatusResponse 404 (''Not found; a workspace'' @ [CHR 0x27] @ ''s MCP endpoint is at /mcp/w/<workspace-id>''), m)
      | Some (is_card, presence, addressed, caller) \<Rightarrow>
          if is_card then (card_response lib rq addressed caller m, m)
          else
            (case check_request (lib_to_str lib) (rq_headers rq) of
               Inl (Forbidden r) \<Rightarrow> (StatusResponse 403 r, m)
             | Inl (Unauthorized r) \<Rightarrow> (StatusResponse 401 r, m)
             | Inr token \<Rightarrow>
                 (case workspace_for_token token (mcp_registry m) of
                    None \<Rightarrow> (StatusResponse 401 ''Invalid bearer token'', m)
                  | Some i \<Rightarrow>
                      if i \<noteq> addressed then
                        (StatusResponse 403 (''This token belongs to a different Positron workspace. Use the URL and token '' @
                           ''from the same window, which its integrated terminals publish as '' @
                           ''POSITRON_MCP_URL and POSITRON_MCP_TOKEN.''), m)
                      else if presence then presence_response lib now rq i caller m
                      else
                        (case service_for i caller m of
                           (None, m) \<Rightarrow> (StatusResponse 503 ''The MCP server is shutting down'', m)
                         | (Some (w, c), m) \<Rightarrow> (Served w c, m)))))"

section \<open>Registration\<close>

text \<open>
  The handlers of \<open>server.rs\<close> for a window that registers or leaves. \<open>allowed\<close> is the result of
  the server's own token check.
\<close>

datatype register_response =
    RegisterUnauthorized
  | RegisterFailed
  | WorkspaceRegistered string string string nat

definition register_mcp_workspace ::
  "(nat \<Rightarrow> nat option) \<Rightarrow> string list \<Rightarrow> string \<Rightarrow> bool \<Rightarrow> int option \<Rightarrow> registration \<Rightarrow> mcp_state \<Rightarrow>
     (register_response \<times> mcp_state) option" where
  "register_mcp_workspace os suffixes fresh allowed preferred r m =
     (if \<not> allowed then Some (RegisterUnauthorized, m)
      else
        (let preferred_port = (case preferred of
               Some p \<Rightarrow> if 0 \<le> p \<and> p < 65536 then Some (nat p) else None | None \<Rightarrow> None) in
         case ensure_listener os preferred_port m of
           (None, m) \<Rightarrow> Some (RegisterFailed, m)
         | (Some port, m) \<Rightarrow>
             map_option (\<lambda>((i, token), reg). (WorkspaceRegistered (endpoint_url port i) i token port, m\<lparr>mcp_registry := reg\<rparr>))
               (register suffixes fresh r (mcp_registry m))))"

datatype deregister_response = DeregisterUnauthorized | WorkspaceNotFound | WorkspaceDeregistered

definition deregister_mcp_workspace :: "bool \<Rightarrow> string \<Rightarrow> mcp_state \<Rightarrow> deregister_response \<times> mcp_state" where
  "deregister_mcp_workspace allowed i m =
     (if \<not> allowed then (DeregisterUnauthorized, m)
      else
        (case deregister i (mcp_registry m) of
           ((False, _), reg) \<Rightarrow> (WorkspaceNotFound, m\<lparr>mcp_registry := reg\<rparr>)
         | ((True, _), reg) \<Rightarrow>
             (let m = drop_service i (m\<lparr>mcp_registry := reg\<rparr>);
                  m = (if registry_is_empty (mcp_registry m) then stop_listener m else m)
              in (WorkspaceDeregistered, m))))"

section \<open>The endpoint as a state machine\<close>

text \<open>Whole requests, one after the other, and the calls on the registry that change no membership.\<close>

datatype mcp_op =
    McpRegister "nat \<Rightarrow> nat option" "string list" string bool "int option" registration
  | McpDeregister bool string
  | McpRequest http_lib instant http_request
  | McpDropCaller string
  | McpNote
  | McpWindow registry_op

fun mcp_step :: "mcp_op \<Rightarrow> mcp_state \<Rightarrow> mcp_state" where
  "mcp_step (McpRegister os ss t a p r) m = (case register_mcp_workspace os ss t a p r m of Some (_, m) \<Rightarrow> m | None \<Rightarrow> m)"
| "mcp_step (McpDeregister a i) m = snd (deregister_mcp_workspace a i m)"
| "mcp_step (McpRequest lib now rq) m = snd (mcp_call lib now rq m)"
| "mcp_step (McpDropCaller s) m = drop_caller_service s m"
| "mcp_step McpNote m = note_request m"
| "mcp_step (McpWindow op) m = m\<lparr>mcp_registry := registry_step op (mcp_registry m)\<rparr>"

fun mcp_allowed :: "mcp_op \<Rightarrow> bool" where
  "mcp_allowed (McpRegister os ss t a p r) = op_ok (Register ss t r)"
| "mcp_allowed (McpWindow op) =
     (case op of Register _ _ _ \<Rightarrow> False | Deregister _ \<Rightarrow> False | _ \<Rightarrow> True)"
| "mcp_allowed _ = True"

definition mcp_ok :: "mcp_state \<Rightarrow> bool" where
  "mcp_ok m \<longleftrightarrow>
     registry_ok (mcp_registry m) \<and>
     (mcp_registry m \<noteq> [] \<longleftrightarrow> mcp_listener m \<noteq> None) \<and>
     (\<forall>(i, c) \<in> set (mcp_services m). registry_contains i (mcp_registry m))"

lemma contains_keys: "registry_contains i reg \<longleftrightarrow> i \<in> fst ` set reg"
  by (auto simp: registry_contains_def map_of_eq_None_iff)

lemma mcp_ok_keys:
  assumes "mcp_ok m" and "registry_ok reg" and "fst ` set reg = fst ` set (mcp_registry m)"
  shows "mcp_ok (m\<lparr>mcp_registry := reg\<rparr>)"
proof -
  have "reg \<noteq> [] \<longleftrightarrow> mcp_registry m \<noteq> []"
    using assms(3) by (metis image_is_empty set_empty)
  then show ?thesis
    using assms by (auto simp: mcp_ok_def contains_keys)
qed

lemma keys_update: "map_of reg i = Some w \<Longrightarrow> fst ` set (AList.update i w' reg) = fst ` set reg"
  using map_of_SomeD [of reg i w] by (force simp: dom_update)

lemma keys_modify:
  "fst ` set (case map_of reg i of None \<Rightarrow> reg | Some w \<Rightarrow> AList.update i (f w) reg) = fst ` set reg"
  by (auto simp: keys_update split: option.split)

lemma keys_window:
  assumes "mcp_allowed (McpWindow op)"
  shows "fst ` set (registry_step op reg) = fst ` set reg"
proof (cases op)
  case (Enqueue now i req)
  show ?thesis
  proof (cases "map_of reg i")
    case (Some w)
    then show ?thesis
      using Enqueue by (cases "dispatch req w") (auto simp: enqueue_def keys_update split: option.split)
  qed (simp add: Enqueue enqueue_def)
next
  case (RemoveClient i k)
  show ?thesis
    using RemoveClient by (auto simp: remove_client_def keys_update split: option.split)
next
  case (Message i g m)
  show ?thesis
  proof (cases "map_of reg i")
    case (Some w)
    then show ?thesis
      using Message by (cases "handle_frontend g m w") (auto simp: handle_message_def keys_update)
  qed (simp add: Message handle_message_def)
next
  case (AttachChannel i tx)
  show ?thesis
  proof (cases "map_of reg i")
    case (Some w)
    then show ?thesis
      using AttachChannel
      by (cases "attach (chan_try (ClientsChanged (client_list w)) tx) w") (auto simp: attach_channel_def keys_update)
  qed (simp add: AttachChannel attach_channel_def)
next
  case (AddClient now i c)
  show ?thesis
  proof (cases "map_of reg i")
    case (Some w)
    then show ?thesis
      using AddClient by (auto simp: add_client_def Let_def keys_update)
  qed (simp add: AddClient add_client_def)
qed (use assms in \<open>simp_all add: detach_channel_def cancel_pending_def keys_modify\<close>)

lemma keys_add_client: "fst ` set (snd (add_client now i c reg)) = fst ` set reg"
  using keys_window [of "AddClient now i c" reg] by simp

lemma register_updates:
  "register ss t r reg = Some ((i, tok), reg') \<Longrightarrow> \<exists>w. reg' = AList.update i w reg"
  by (auto simp: register_def Let_def split: option.splits prod.splits if_splits)

lemma keys_register:
  "register ss t r reg = Some ((i, tok), reg') \<Longrightarrow> fst ` set reg' = insert i (fst ` set reg)"
  using register_updates [of ss t r reg i tok reg'] dom_update [of i _ reg] by auto

lemma keys_deregister:
  "deregister i reg = ((b, ks), reg') \<Longrightarrow> fst ` set reg' = fst ` set reg - {i} \<and> b = registry_contains i reg"
proof -
  assume d: "deregister i reg = ((b, ks), reg')"
  have "fst ` set (AList.delete i reg) = fst ` set reg - {i}"
    using arg_cong [OF delete_keys [of i reg], of set] by simp
  then show ?thesis
    using d by (auto simp: deregister_def registry_contains_def split: option.splits dest: map_of_eq_None_iff [THEN iffD1])
qed

lemma registry_ok_keys: "registry_ok reg \<Longrightarrow> distinct (map fst reg)"
  by (simp add: registry_ok_def)

text \<open>The answer to a request, and what it leaves of the state.\<close>

lemma mcp_call_cases:
  assumes "mcp_call lib now rq m = (r, m')"
  obtains (refused) "m' = m" and "\<forall>w c. r \<noteq> Served w c" and "\<forall>k. r \<noteq> PresenceResponse k"
  | (presence) t i c where "check_request (lib_to_str lib) (rq_headers rq) = Inr t"
      and "workspace_for_token t (mcp_registry m) = Some i" and "route (rq_path rq) = Some (False, True, i, c)"
      and "presence_response lib now rq i c m = (r, m')"
  | (served) t i c where "check_request (lib_to_str lib) (rq_headers rq) = Inr t"
      and "workspace_for_token t (mcp_registry m) = Some i" and "route (rq_path rq) = Some (False, False, i, c)"
      and "service_for i c m = (Some (i, c), m')" and "r = Served i c"
proof (cases "route (rq_path rq)")
  case None
  then show ?thesis
    using assms by (intro refused) (auto simp: mcp_call_def)
next
  case (Some x)
  obtain is_card pres i c where x: "x = (is_card, pres, i, c)"
    by (metis prod_cases4)
  have card: "card_response lib rq i c m \<noteq> Served w d" "card_response lib rq i c m \<noteq> PresenceResponse k" for w d k
    by (auto simp: card_response_def Let_def split: sum.splits auth_rejection.splits option.splits)
  show ?thesis
  proof (cases "\<exists>t. \<not> is_card \<and> check_request (lib_to_str lib) (rq_headers rq) = Inr t \<and>
      workspace_for_token t (mcp_registry m) = Some i")
    case False
    then show ?thesis
      using assms Some x card
      by (intro refused) (auto simp: mcp_call_def split: sum.splits auth_rejection.splits option.splits if_splits)
  next
    case True
    then obtain t where t: "\<not> is_card" "check_request (lib_to_str lib) (rq_headers rq) = Inr t"
        "workspace_for_token t (mcp_registry m) = Some i"
      by blast
    show ?thesis
    proof (cases pres)
      case True
      then show ?thesis
        using assms Some x t by (intro presence [of t i c]) (auto simp: mcp_call_def)
    next
      case False
      then show ?thesis
        using assms Some x t served [of t i c] refused
        by (auto simp: mcp_call_def service_for_def split: option.splits if_splits)
    qed
  qed
qed

lemma presence_cases:
  assumes "presence_response lib now rq i c m = (r, m')"
  obtains "m' = m" and "\<forall>k. r \<noteq> PresenceResponse k" | ident where "m' = m\<lparr>mcp_registry := snd (add_client now i ident (mcp_registry m))\<rparr>"
proof (cases "rq_method rq = ''GET''")
  case False
  then show ?thesis
    using assms by (intro that(1)) (auto simp: presence_response_def)
next
  case True
  let ?ident = "read_identity lib c (query_pairs lib (case rq_query rq of Some q \<Rightarrow> q | None \<Rightarrow> []))"
  obtain k reg where a: "add_client now i ?ident (mcp_registry m) = (k, reg)"
    by fastforce
  have "m' = m\<lparr>mcp_registry := reg\<rparr>"
    using True a assms by (cases k) (simp_all add: presence_response_def)
  then show ?thesis
    using that(2) [of ?ident] a by simp
qed

lemma mcp_ok_call:
  assumes ok: "mcp_ok m"
  shows "mcp_ok (snd (mcp_call lib now rq m))"
proof -
  obtain r m' where call: "mcp_call lib now rq m = (r, m')"
    by fastforce
  have reg: "registry_ok (mcp_registry m)"
    using ok by (simp add: mcp_ok_def)
  from call show ?thesis
  proof (cases rule: mcp_call_cases)
    case refused
    then show ?thesis using ok call by simp
  next
    case (presence t i c)
    from presence(4) show ?thesis
    proof (cases rule: presence_cases)
      case 1
      then show ?thesis using ok call by simp
    next
      case (2 ident)
      then show ?thesis
        using call mcp_ok_keys [OF ok registry_ok_add_client [OF reg] keys_add_client] by simp
    qed
  next
    case (served t i c)
    have "i \<in> fst ` set (mcp_registry m)"
      using token_fold [where t = t and acc = None and xs = "mcp_registry m"] served(2)
      by (force simp: workspace_for_token_def)
    then have "registry_contains i (mcp_registry m)"
      by (simp add: contains_keys)
    then show ?thesis
      using ok served(4) call by (auto simp: mcp_ok_def service_for_def split: option.splits if_splits)
  qed
qed

lemma mcp_ok_register:
  assumes ok: "mcp_ok m" and op: "op_ok (Register ss t r)" and "register_mcp_workspace os ss t a p r m = Some (x, m')"
  shows "mcp_ok m'"
proof -
  have reg: "registry_ok (mcp_registry m)"
    using ok by (simp add: mcp_ok_def)
  have ens: "ensure_listener os pp m = (port, m1) \<Longrightarrow>
      m1 = (case port of None \<Rightarrow> m | Some q \<Rightarrow> m\<lparr>mcp_listener := Some q\<rparr>)" for pp port m1
    by (auto simp: ensure_listener_def split: option.splits)
  let ?pp = "case p of Some p \<Rightarrow> if 0 \<le> p \<and> p < 65536 then Some (nat p) else None | None \<Rightarrow> None"
  obtain port m1 where e: "ensure_listener os ?pp m = (port, m1)"
    by fastforce
  have run: "(case port of None \<Rightarrow> Some (RegisterFailed, m1)
     | Some q \<Rightarrow> map_option (\<lambda>((i, token), reg). (WorkspaceRegistered (endpoint_url q i) i token q, m1\<lparr>mcp_registry := reg\<rparr>))
          (register ss t r (mcp_registry m1))) = Some (x, m')" if a
    using assms(3) that unfolding register_mcp_workspace_def Let_def e by (cases port) simp_all
  consider "m' = m" | q i tok reg' where "register ss t r (mcp_registry m) = Some ((i, tok), reg')"
      "m' = m\<lparr>mcp_listener := Some q, mcp_registry := reg'\<rparr>"
  proof (cases a)
    case False
    then show ?thesis
      using assms(3) that(1) by (simp add: register_mcp_workspace_def)
  next
    case True
    show ?thesis
    proof (cases port)
      case None
      then show ?thesis
        using run [OF True] ens [OF e] by (intro that(1)) simp
    next
      case (Some q)
      then obtain i tok reg' where "register ss t r (mcp_registry m) = Some ((i, tok), reg')"
          "m' = m1\<lparr>mcp_registry := reg'\<rparr>"
        using run [OF True] ens [OF e] by auto
      then show ?thesis
        using that(2) [of i tok reg' q] ens [OF e] Some by simp
    qed
  qed
  then show ?thesis
  proof cases
    case 1
    then show ?thesis using ok by simp
  next
    case (2 q i tok reg')
    have "registry_ok reg'" and "fst ` set reg' = insert i (fst ` set (mcp_registry m))"
      using register_ok [OF reg op 2(1)] keys_register [OF 2(1)] by simp_all
    moreover have "reg' \<noteq> []"
      using calculation(2) by auto
    ultimately show ?thesis
      using ok 2(2) by (auto simp: mcp_ok_def contains_keys)
  qed
qed

lemma mcp_ok_deregister:
  assumes ok: "mcp_ok m"
  shows "mcp_ok (snd (deregister_mcp_workspace a i m))"
proof -
  obtain b ks reg' where d: "deregister i (mcp_registry m) = ((b, ks), reg')"
    by (metis prod_cases3 prod.exhaust)
  have reg: "registry_ok reg'"
    using ok registry_ok_deregister [of "mcp_registry m" i] d by (simp add: mcp_ok_def)
  have keys: "fst ` set reg' = fst ` set (mcp_registry m) - {i}" "b = registry_contains i (mcp_registry m)"
    using keys_deregister [OF d] by simp_all
  show ?thesis
  proof (cases "a \<and> b")
    case True
    then have "mcp_listener m \<noteq> None"
      using ok keys(2) by (auto simp: mcp_ok_def registry_contains_def)
    then show ?thesis
      using ok True d reg keys
      by (auto simp: deregister_mcp_workspace_def drop_service_def stop_listener_def registry_is_empty_def
          mcp_ok_def contains_keys Let_def)
  next
    case False
    then have "mcp_registry m = reg'" if "\<not> b"
      using that d by (auto simp: deregister_def split: option.splits)
    then show ?thesis
      using ok False d by (auto simp: deregister_mcp_workspace_def)
  qed
qed

lemma mcp_ok_step: "mcp_ok m \<Longrightarrow> mcp_allowed op \<Longrightarrow> mcp_ok (mcp_step op m)"
proof (cases op)
  case (McpRegister os ss t a p r)
  assume "mcp_ok m" "mcp_allowed op"
  then show ?thesis
    using McpRegister mcp_ok_register [of m ss t r os a p] by (auto split: option.splits)
next
  case (McpWindow rop)
  assume ok: "mcp_ok m" and al: "mcp_allowed op"
  have "op_ok rop"
    using al McpWindow by (cases rop) auto
  then have "registry_ok (registry_step rop (mcp_registry m))"
    using ok registry_ok_step by (simp add: mcp_ok_def)
  then show ?thesis
    using mcp_ok_keys [OF ok] keys_window [of rop] al McpWindow by simp
next
  case (McpDropCaller s)
  assume "mcp_ok m"
  then show ?thesis
    using McpDropCaller by (auto simp: drop_caller_service_def mcp_ok_def)
qed (simp_all add: mcp_ok_call mcp_ok_deregister note_request_def, simp add: mcp_ok_def)

interpretation mcp: guarded_machine mcp_step mcp_allowed mcp_ok
  by unfold_locales (rule mcp_ok_step)

section \<open>Interleaved registrations\<close>

text \<open>
  The two handlers are not atomic: \<open>register_mcp_workspace\<close> awaits the listener before it awaits
  the registry, and \<open>deregister_mcp_workspace\<close> awaits the registry before it tests whether the
  listener is still needed. Their parts, as steps another task can come between:
\<close>

datatype mcp_part =
    EnsureListener "nat \<Rightarrow> nat option" "nat option"
  | RegisterWorkspace "string list" string registration
  | DeregisterWorkspace string
  | StopIfEmpty

fun mcp_part_step :: "mcp_part \<Rightarrow> mcp_state \<Rightarrow> mcp_state" where
  "mcp_part_step (EnsureListener os pp) m = snd (ensure_listener os pp m)"
| "mcp_part_step (RegisterWorkspace ss t r) m =
     (case register ss t r (mcp_registry m) of Some (_, reg) \<Rightarrow> m\<lparr>mcp_registry := reg\<rparr> | None \<Rightarrow> m)"
| "mcp_part_step (DeregisterWorkspace i) m =
     (case deregister i (mcp_registry m) of
        ((False, _), reg) \<Rightarrow> m\<lparr>mcp_registry := reg\<rparr>
      | ((True, _), reg) \<Rightarrow> drop_service i (m\<lparr>mcp_registry := reg\<rparr>))"
| "mcp_part_step StopIfEmpty m = (if registry_is_empty (mcp_registry m) then stop_listener m else m)"

lemma register_in_parts:
  assumes "bind os None \<noteq> None"
  shows "mcp_step (McpRegister os ss t True None r) m =
    (if register ss t r (mcp_registry m) = None then m
     else fold mcp_part_step [EnsureListener os None, RegisterWorkspace ss t r] m)"
proof -
  obtain q where "snd (ensure_listener os None m) = m\<lparr>mcp_listener := Some q\<rparr>" "fst (ensure_listener os None m) = Some q"
    using assms by (cases "mcp_listener m") (auto simp: ensure_listener_def)
  then have "ensure_listener os None m = (Some q, m\<lparr>mcp_listener := Some q\<rparr>)"
    by (metis prod.collapse)
  then show ?thesis
    by (auto simp: register_mcp_workspace_def split: option.split)
qed

lemma deregister_in_parts:
  "registry_contains i (mcp_registry m) \<Longrightarrow>
    mcp_step (McpDeregister True i) m = fold mcp_part_step [DeregisterWorkspace i, StopIfEmpty] m"
  by (auto simp: deregister_mcp_workspace_def deregister_def registry_contains_def Let_def)

section \<open>Paths\<close>

lemma valid_id_no_slash: "is_valid_id i \<Longrightarrow> CHR ''/'' \<notin> set i"
  by (auto simp: is_valid_id_def id_char_def is_lower_def is_digit_def code_in_def list_all_iff hyphen_def)

lemma split_once_str_skip:
  "c \<notin> set a \<Longrightarrow> split_once_str (c # p) (a @ b) = map_option (\<lambda>(x, y). (a @ x, y)) (split_once_str (c # p) b)"
  by (induction a) (auto simp: starts_with_iff option.map_comp o_def split_def option.map_ident)

lemma strip_suffix_last_segment:
  assumes "CHR ''/'' \<notin> set s" and "CHR ''/'' \<notin> set q" and "s \<noteq> q"
  shows "strip_suffix (CHR ''/'' # q) (e @ CHR ''/'' # s) = None"
proof (rule ccontr)
  assume "strip_suffix (CHR ''/'' # q) (e @ CHR ''/'' # s) \<noteq> None"
  then obtain t where "rev (e @ CHR ''/'' # s) = rev (CHR ''/'' # q) @ t"
    by (auto simp: strip_suffix_def starts_with_iff split: if_splits)
  then have "rev t @ CHR ''/'' # q = e @ CHR ''/'' # s"
    by (metis rev_append rev_rev_ident)
  then have "rsplit_once (CHR ''/'') (rev t @ CHR ''/'' # q) = rsplit_once (CHR ''/'') (e @ CHR ''/'' # s)"
    by simp
  then show False
    using assms by (simp add: rsplit_once_append)
qed

lemma route_session:
  assumes "is_valid_id i" and "s \<noteq> []" and "CHR ''/'' \<notin> set s" and "s \<notin> {''server-card'', ''presence''}"
  shows "route (MCP_PATH_PREFIX @ i @ CALLER_PATH_SEGMENT @ s) = Some (False, False, i, Some s)"
proof -
  let ?e = "(i @ ''/s'') @ CHR ''/'' # s"
  have "last s \<noteq> CHR ''/''"
    using assms(2,3) last_in_set by metis
  then have trim: "trim_end (CHR ''/'') ?e = ?e"
    using assms(2) by (cases s rule: rev_cases) (auto simp: trim_end_def)
  have "strip_suffix CARD_PATH_SUFFIX ?e = None" "strip_suffix PRESENCE_PATH_SUFFIX ?e = None"
    using strip_suffix_last_segment [OF assms(3), where q = "''server-card''" and e = "i @ ''/s''"]
      strip_suffix_last_segment [OF assms(3), where q = "''presence''" and e = "i @ ''/s''"] assms(4)
    unfolding CARD_PATH_SUFFIX_def PRESENCE_PATH_SUFFIX_def by simp_all
  moreover have "split_once_str CALLER_PATH_SEGMENT ?e = Some (i, s)"
    using split_once_str_skip [OF valid_id_no_slash [OF assms(1)], of "''s/''"]
    by (simp add: CALLER_PATH_SEGMENT_def starts_with_append)
  moreover have "strip_prefix MCP_PATH_PREFIX (MCP_PATH_PREFIX @ i @ CALLER_PATH_SEGMENT @ s) = Some ?e"
    by (simp add: strip_prefix_def CALLER_PATH_SEGMENT_def)
  ultimately show ?thesis
    using trim assms(2) by (simp add: route_def strip_flag_def Let_def)
qed

lemma route_workspace:
  assumes "is_valid_id i"
  shows "route (MCP_PATH_PREFIX @ i) = Some (False, False, i, None)"
proof -
  have ne: "i \<noteq> []" and no: "CHR ''/'' \<notin> set i"
    using assms valid_id_no_slash by (simp_all add: is_valid_id_def)
  have none: "strip_suffix (CHR ''/'' # q) i = None" for q
    using no by (auto simp: strip_suffix_def starts_with_iff rev_swap)
  have split: "split_once_str (CHR ''/'' # q) i = None" for q
    using split_once_str_skip [OF no, of q "[]"] by simp
  have "trim_end (CHR ''/'') i = i"
    using no by simp
  then show ?thesis
    using ne none split [of "''s/''"]
    by (simp add: route_def strip_flag_def Let_def strip_prefix_def CARD_PATH_SUFFIX_def PRESENCE_PATH_SUFFIX_def
        CALLER_PATH_SEGMENT_def)
qed

lemma route_presence:
  assumes "is_valid_id i"
  shows "route (MCP_PATH_PREFIX @ i @ CALLER_PATH_SEGMENT @ ''presence'') = Some (False, True, i @ ''/s'', None)"
proof -
  let ?e = "(i @ ''/s'') @ ''/presence''"
  have "strip_suffix CARD_PATH_SUFFIX ?e = None"
    using strip_suffix_last_segment [of "''presence''" "''server-card''" "i @ ''/s''"] by (simp add: CARD_PATH_SUFFIX_def)
  moreover have "strip_suffix PRESENCE_PATH_SUFFIX ?e = Some (i @ ''/s'')"
    using strip_suffix_append unfolding PRESENCE_PATH_SUFFIX_def .
  moreover have "split_once_str CALLER_PATH_SEGMENT (i @ ''/s'') = None"
    using split_once_str_skip [OF valid_id_no_slash [OF assms], of "''s/''" "''/s''"]
    by (simp add: CALLER_PATH_SEGMENT_def)
  moreover have "trim_end (CHR ''/'') ?e = ?e"
    by (simp add: trim_end_def)
  moreover have "strip_prefix MCP_PATH_PREFIX (MCP_PATH_PREFIX @ i @ CALLER_PATH_SEGMENT @ ''presence'') = Some ?e"
    by (simp add: strip_prefix_def CALLER_PATH_SEGMENT_def)
  ultimately show ?thesis
    by (simp add: route_def strip_flag_def Let_def)
qed

section \<open>Tokens\<close>

lemma token_of_lookup:
  "workspace_for_token t reg = Some i \<Longrightarrow> distinct (map fst reg) \<Longrightarrow> registry_token i reg = Some t"
  using token_fold [where t = t and acc = None and xs = reg]
  by (auto simp: workspace_for_token_def registry_token_def)

lemma lookup_of_token: "registry_token i reg = Some t \<Longrightarrow> workspace_for_token t reg \<noteq> None"
  using token_fold [where t = t and acc = None and xs = reg] map_of_SomeD [of reg i]
  by (auto simp: workspace_for_token_def registry_token_def split: option.splits)

lemma mcp_served:
  assumes "mcp_ok m" and "check_request (lib_to_str lib) (rq_headers rq) = Inr t"
    and "workspace_for_token t (mcp_registry m) = Some i" and "route (rq_path rq) = Some (False, False, i, c)"
  shows "fst (mcp_call lib now rq m) = Served i c"
proof -
  have "mcp_registry m \<noteq> []"
    using assms(3) by (auto simp: workspace_for_token_def)
  then obtain q where "mcp_listener m = Some q"
    using assms(1) by (auto simp: mcp_ok_def)
  then show ?thesis
    using assms by (simp add: mcp_call_def service_for_def)
qed

lemma presence_known:
  assumes "presence_response lib now rq i c m = (r, m')" and "registry_token i (mcp_registry m) \<noteq> None"
  shows "(\<forall>w c. r \<noteq> Served w c) \<and> ((\<forall>k. r \<noteq> PresenceResponse k) \<longrightarrow> m' = m)"
proof -
  obtain w where "map_of (mcp_registry m) i = Some w"
    using assms(2) by (auto simp: registry_token_def)
  then show ?thesis
    using assms(1) by (auto simp: presence_response_def add_client_def Let_def split: if_splits)
qed

section \<open>Properties\<close>

definition url_path :: "nat \<Rightarrow> string \<Rightarrow> string option" where
  "url_path port url = strip_prefix (''http://127.0.0.1:'' @ show_nat port) url"

text \<open>
  The URLs the server hands out come back to where they were meant: the path of a workspace's
  URL is routed to that workspace with no calling session, and the path of the URL a kernel
  inherits is routed to its workspace with its own session as the caller, unless the session is
  named like one of the two fixed endpoints, in which case another workspace is addressed.
\<close>

theorem endpoint_urls_route_back:
  assumes "is_valid_id i" and "s \<noteq> []" and "CHR ''/'' \<notin> set s" and "s \<notin> {''server-card'', ''presence''}"
  shows "Option.bind (url_path port (endpoint_url port i)) route = Some (False, False, i, None) \<and>
    Option.bind (url_path port (session_endpoint_url port i s)) route = Some (False, False, i, Some s) \<and>
    Option.bind (url_path port (session_endpoint_url port i ''presence'')) route = Some (False, True, i @ ''/s'', None)"
proof -
  have "url_path port (endpoint_url port i) = Some (MCP_PATH_PREFIX @ i)"
      "url_path port (session_endpoint_url port i s) = Some (MCP_PATH_PREFIX @ i @ CALLER_PATH_SEGMENT @ s)" for s
    by (simp_all add: url_path_def strip_prefix_def endpoint_url_def session_endpoint_url_def)
  then show ?thesis
    using route_workspace [OF assms(1)] route_session [OF assms] route_presence [OF assms(1)] by simp
qed

theorem endpoint_urls_route_back_witness:
  "Option.bind (url_path 8080 (session_endpoint_url 8080 ''proj-1'' ''python-1'')) route =
     Some (False, False, ''proj-1'', Some ''python-1'')"
proof -
  have "is_valid_id ''proj-1''"
    by (simp add: is_valid_id_def id_char_def id_consts is_lower_def is_digit_def code_in_def hyphen_def)
  then show ?thesis
    using endpoint_urls_route_back [of "''proj-1''" "''python-1''" 8080] by simp
qed

text \<open>
  C10. A request reaches a workspace only with that workspace's token: whenever a request is handed
  to a service or opens a presence stream, it came past the loopback check, the token it carries
  is the registered token of the workspace its path names, and that workspace is the one that
  answers, for the calling session the path names. A request that is turned away leaves the state
  as it was. Conversely, a request with the token of a registered workspace, which no other
  workspace shares, is always served by it.
\<close>

theorem requests_reach_own_workspace:
  assumes ok: "mcp_ok m" and call: "mcp_call lib now rq m = (r, m')"
  shows "(\<forall>w c. r = Served w c \<longrightarrow>
      route (rq_path rq) = Some (False, False, w, c) \<and>
      (\<exists>t. check_request (lib_to_str lib) (rq_headers rq) = Inr t \<and> registry_token w (mcp_registry m) = Some t)) \<and>
    (\<forall>k. r = PresenceResponse k \<longrightarrow>
      (\<exists>w c t. route (rq_path rq) = Some (False, True, w, c) \<and>
        check_request (lib_to_str lib) (rq_headers rq) = Inr t \<and> registry_token w (mcp_registry m) = Some t)) \<and>
    ((\<forall>w c. r \<noteq> Served w c) \<and> (\<forall>k. r \<noteq> PresenceResponse k) \<longrightarrow> m' = m) \<and>
    (\<forall>w c t. check_request (lib_to_str lib) (rq_headers rq) = Inr t \<and> route (rq_path rq) = Some (False, False, w, c) \<and>
        (\<forall>v. registry_token v (mcp_registry m) = Some t \<longleftrightarrow> v = w) \<longrightarrow> r = Served w c)"
proof -
  have own: "registry_token i (mcp_registry m) = Some t" if "workspace_for_token t (mcp_registry m) = Some i" for i t
    using token_of_lookup [OF that] ok by (simp add: mcp_ok_def registry_ok_def)
  have some: "workspace_for_token t (mcp_registry m) \<noteq> None" if "registry_token i (mcp_registry m) = Some t" for i t
    using lookup_of_token [OF that] ok by (simp add: mcp_ok_def registry_ok_def)
  show ?thesis
    using call
  proof (cases rule: mcp_call_cases)
    case refused
    have "False" if prem: "check_request (lib_to_str lib) (rq_headers rq) = Inr t" "route (rq_path rq) = Some (False, False, w, c)"
        "(\<forall>v. registry_token v (mcp_registry m) = Some t \<longleftrightarrow> v = w)" for w c t
    proof -
      obtain v where v: "workspace_for_token t (mcp_registry m) = Some v"
        using some [of w t] prem(3) by auto
      then have "workspace_for_token t (mcp_registry m) = Some w"
        using own [OF v] prem(3) by simp
      then have "r = Served w c"
        using mcp_served [OF ok prem(1) _ prem(2), of now] call by simp
      then show False
        using refused(2) by blast
    qed
    then show ?thesis
      using refused by blast
  next
    case (presence t i c)
    then have "(\<forall>w c. r \<noteq> Served w c) \<and> ((\<forall>k. r \<noteq> PresenceResponse k) \<longrightarrow> m' = m)"
      using presence_known [OF presence(4)] own [OF presence(2)] by simp
    then show ?thesis
      using own [OF presence(2)] presence(1,3) by simp
  next
    case (served t i c)
    then show ?thesis
      using own [OF served(2)] by simp
  qed
qed

definition sample_agent_request :: http_request where
  "sample_agent_request = \<lparr>rq_method = ''POST'', rq_path = ''/mcp/w/proj'', rq_query = None,
     rq_headers = [''host'' \<mapsto> ''localhost'', ''authorization'' \<mapsto> ''Bearer '' @ replicate 64 (CHR ''a'')]\<rparr>"

definition sample_lib :: http_lib where
  "sample_lib = \<lparr>lib_to_str = Some, lib_decode = id, lib_parse_pid = (\<lambda>_. None), lib_show_json = (\<lambda>_. []),
     lib_hash = id, lib_version = ''1'', lib_protocols = []\<rparr>"

definition sample_mcp :: mcp_state where
  "sample_mcp = (mcp_new chan_new)\<lparr>mcp_registry := [(''proj'', sample_workspace)], mcp_listener := Some 8080\<rparr>"

lemma sample_mcp_ok: "mcp_ok sample_mcp"
proof -
  have "ws_ok sample_workspace"
    by (simp add: ws_ok_def sample_ws)
  moreover have "is_valid_id ''proj''" "is_valid_token (replicate 64 (CHR ''a''))"
    by code_simp+
  ultimately have "entry_fine ''proj'' sample_workspace"
    by (simp add: entry_fine_def) (simp add: sample_ws)
  then show ?thesis
    by (auto simp: mcp_ok_def registry_ok_def sample_mcp_def mcp_new_def)
qed

theorem requests_reach_own_workspace_witness:
  "fst (mcp_call sample_lib 0 sample_agent_request sample_mcp) = Served ''proj'' None"
proof -
  have "check_request (lib_to_str sample_lib) (rq_headers sample_agent_request) = Inr (replicate 64 (CHR ''a''))"
    by code_simp
  moreover have "route (rq_path sample_agent_request) = Some (False, False, ''proj'', None)"
    by code_simp
  moreover have "registry_token v (mcp_registry sample_mcp) = Some (replicate 64 (CHR ''a'')) \<longleftrightarrow> v = ''proj''" for v
    by (simp add: registry_token_def sample_mcp_def sample_ws)
  ultimately show ?thesis
    using requests_reach_own_workspace [OF sample_mcp_ok, of sample_lib 0 sample_agent_request]
    by (metis prod.collapse)
qed

text \<open>
  As long as requests are handled one after the other, the listener runs exactly while some
  workspace is registered, and every service belongs to a registered workspace: none outlives
  its workspace, so an agent whose window has gone is cut off.
\<close>

theorem listener_runs_iff_registered:
  assumes "\<forall>op \<in> set ops. mcp_allowed op"
  shows "let m = fold mcp_step ops (mcp_new tx) in
    (mcp_listener m \<noteq> None \<longleftrightarrow> mcp_registry m \<noteq> []) \<and>
    (\<forall>i c. (i, c) \<in> set (mcp_services m) \<longrightarrow> registry_contains i (mcp_registry m))"
proof -
  have "mcp_ok (mcp_new tx)"
    by (simp add: mcp_ok_def mcp_new_def registry_ok_def)
  from mcp.run_inv [OF this assms] show ?thesis
    by (auto simp: mcp_ok_def Let_def)
qed

definition sample_registration :: registration where
  "sample_registration = \<lparr>rg_workspace_id = Some ''proj'', rg_display_name = ''proj'', rg_token = None\<rparr>"

theorem listener_runs_iff_registered_witness:
  "let m = fold mcp_step [McpRegister (\<lambda>_. Some 8080) [] (replicate 64 (CHR ''a'')) True None sample_registration]
     (mcp_new chan_new) in mcp_listener m \<noteq> None \<and> mcp_registry m \<noteq> []"
proof -
  let ?op = "McpRegister (\<lambda>_. Some 8080) [] (replicate 64 (CHR ''a'')) True None sample_registration"
  have "is_valid_token (replicate 64 (CHR ''a''))"
    by code_simp
  then have "mcp_allowed ?op"
    by simp
  moreover have "is_valid_id ''proj''"
    by code_simp
  then have "mcp_listener (fold mcp_step [?op] (mcp_new chan_new)) = Some 8080"
    by (simp add: register_mcp_workspace_def ensure_listener_def bind_def mcp_new_def register_def supplied_token_def Let_def
        sample_registration_def)
  ultimately show ?thesis
    using listener_runs_iff_registered [of "[?op]" chan_new] by (simp add: Let_def)
qed

text \<open>
  The handlers are not atomic, and interleaved they can strand a workspace: when a
  registration asks for the listener after the last workspace has left the registry but before
  the departing handler tests for emptiness, the listener is stopped under it. The registration
  still succeeds and hands out a URL on which nothing listens.
\<close>

theorem interleaved_registration_is_stranded:
  assumes ok: "mcp_ok m" and reg: "mcp_registry m = [(i, w)]"
    and r: "register ss t r [] = Some (it, reg')" and op: "op_ok (Register ss t r)"
  shows "(let m' = fold mcp_part_step [DeregisterWorkspace i, EnsureListener os None, StopIfEmpty, RegisterWorkspace ss t r] m in
      mcp_registry m' = reg' \<and> reg' \<noteq> [] \<and> mcp_listener m' = None) \<and>
    mcp_ok (fold mcp_step [McpDeregister True i, McpRegister os ss t True None r] m)"
proof
  obtain q where q: "mcp_listener m = Some q"
    using ok reg by (auto simp: mcp_ok_def)
  have ne: "reg' \<noteq> []"
    using keys_register [of ss t r "[]"] r by (cases it) fastforce
  have "deregister i (mcp_registry m) = ((True, map mc_id (ws_clients w)), [])"
    by (simp add: deregister_def reg)
  then show "let m' = fold mcp_part_step [DeregisterWorkspace i, EnsureListener os None, StopIfEmpty, RegisterWorkspace ss t r] m in
      mcp_registry m' = reg' \<and> reg' \<noteq> [] \<and> mcp_listener m' = None"
    using q r ne by (simp add: Let_def drop_service_def ensure_listener_def registry_is_empty_def stop_listener_def)
  show "mcp_ok (fold mcp_step [McpDeregister True i, McpRegister os ss t True None r] m)"
    by (rule mcp.run_inv [OF ok]) (use op in simp)
qed

theorem interleaved_registration_is_stranded_witness:
  "mcp_listener (fold mcp_part_step [DeregisterWorkspace ''proj'', EnsureListener (\<lambda>_. None) None, StopIfEmpty,
     RegisterWorkspace [] (replicate 64 (CHR ''a'')) sample_registration] sample_mcp) = None"
proof -
  let ?t = "replicate 64 (CHR ''a'')"
  have "is_valid_id ''proj''" "is_valid_token ?t"
    by code_simp+
  moreover have "mcp_registry sample_mcp = [(''proj'', sample_workspace)]"
    by (simp add: sample_mcp_def)
  moreover obtain x where "register [] ?t sample_registration [] = Some x"
    using calculation(1) by (simp add: register_def supplied_token_def sample_registration_def Let_def)
  ultimately show ?thesis
    using interleaved_registration_is_stranded [OF sample_mcp_ok, of "''proj''" sample_workspace "[]" ?t sample_registration
        "fst x" "snd x" "\<lambda>_. None"]
    by (simp add: Let_def)
qed

end
