(* ===== verification/KC_Env.thy ===== *)
theory KC_Env
  imports KC_Endpoint KC_State
begin

text \<open>
  \<open>kernel_session/environment.rs\<close> and the environment part of \<open>kernel_session/startup.rs\<close>: the
  variables a kernel process is started with. They are those of the server's own process, changed
  by the actions the client asked for, and finally the address and the token of the workspace the
  session belongs to. The build modelled is the one for Unix, where names are case-sensitive.
\<close>

section \<open>Variable actions\<close>

type_synonym env = "string \<rightharpoonup> string"

record environment_resolver =
  er_initial_env :: env
  er_var_actions :: "var_action list"

definition resolver_new :: "env \<Rightarrow> var_action list \<Rightarrow> environment_resolver" where
  "resolver_new vars actions = \<lparr>er_initial_env = vars, er_var_actions = actions\<rparr>"

definition apply_var_action :: "var_action \<Rightarrow> env \<Rightarrow> env" where
  "apply_var_action a e =
     (let old = (case e (var_name a) of Some v \<Rightarrow> v | None \<Rightarrow> []) in
      case action a of
        Replace \<Rightarrow> e(var_name a \<mapsto> var_value a)
      | Append \<Rightarrow> e(var_name a \<mapsto> old @ var_value a)
      | Prepend \<Rightarrow> e(var_name a \<mapsto> var_value a @ old))"

definition apply_var_actions :: "var_action list \<Rightarrow> env \<Rightarrow> env" where
  "apply_var_actions actions e = fold apply_var_action actions e"

definition resolve :: "environment_resolver \<Rightarrow> env" where
  "resolve r = apply_var_actions (er_var_actions r) (er_initial_env r)"

section \<open>The endpoint of the workspace\<close>

definition MCP_URL_VAR :: string where "MCP_URL_VAR = ''POSITRON_MCP_URL''"
definition MCP_TOKEN_VAR :: string where "MCP_TOKEN_VAR = ''POSITRON_MCP_TOKEN''"

text \<open>
  \<open>mcp\<close> is the server the weak reference still reaches, if any.
\<close>

definition apply_mcp_environment :: "string \<Rightarrow> new_session \<Rightarrow> mcp_state option \<Rightarrow> env \<Rightarrow> env" where
  "apply_mcp_environment session model mcp e =
     (let e = e(MCP_URL_VAR := None, MCP_TOKEN_VAR := None) in
      case ns_workspace_id model of
        None \<Rightarrow> e
      | Some i \<Rightarrow>
          (case mcp of
             None \<Rightarrow> e
           | Some m \<Rightarrow>
               (case (mcp_listener m, registry_token i (mcp_registry m)) of
                  (Some port, Some token) \<Rightarrow>
                    e(MCP_URL_VAR \<mapsto> session_endpoint_url port i session, MCP_TOKEN_VAR \<mapsto> token)
                | _ \<Rightarrow> e)))"

definition resolve_environment ::
  "env \<Rightarrow> string \<Rightarrow> new_session \<Rightarrow> mcp_state option \<Rightarrow> kernel_state \<Rightarrow> env \<times> kernel_state" where
  "resolve_environment vars session model mcp st =
     (let e = apply_mcp_environment session model mcp (resolve (resolver_new vars (ks_env_vars st)))
      in (e, st\<lparr>ks_resolved_env := e\<rparr>))"

section \<open>Reference definitions\<close>

text \<open>
  What one variable ends up as: only the actions that name it matter, in order, and a replacement
  forgets what came before.
\<close>

fun var_effect :: "var_action \<Rightarrow> string option \<Rightarrow> string option" where
  "var_effect a old =
     (let text = (case old of Some v \<Rightarrow> v | None \<Rightarrow> []) in
      case action a of
        Replace \<Rightarrow> Some (var_value a)
      | Append \<Rightarrow> Some (text @ var_value a)
      | Prepend \<Rightarrow> Some (var_value a @ text))"

definition var_result :: "var_action list \<Rightarrow> string \<Rightarrow> string option \<Rightarrow> string option" where
  "var_result actions v = fold var_effect (filter (\<lambda>a. var_name a = v) actions)"

lemma apply_var_action_at: "apply_var_action a e v = (if var_name a = v then var_effect a (e v) else e v)"
  by (auto simp: apply_var_action_def Let_def split: var_action_type.split)

lemma apply_var_actions_at: "apply_var_actions actions e v = var_result actions v (e v)"
  by (induction actions arbitrary: e)
     (simp_all add: apply_var_actions_def var_result_def apply_var_action_at del: var_effect.simps)

text \<open>The workspace endpoint a session is entitled to.\<close>

definition own_endpoint :: "string \<Rightarrow> new_session \<Rightarrow> mcp_state option \<Rightarrow> (nat \<times> string \<times> string) option" where
  "own_endpoint session model mcp =
     do {
       i \<leftarrow> ns_workspace_id model;
       m \<leftarrow> mcp;
       port \<leftarrow> mcp_listener m;
       token \<leftarrow> registry_token i (mcp_registry m);
       Some (port, i, token)
     }"

lemma var_names: "MCP_URL_VAR \<noteq> MCP_TOKEN_VAR"
  by (simp add: MCP_URL_VAR_def MCP_TOKEN_VAR_def)

lemma apply_mcp_endpoint:
  "apply_mcp_environment session model mcp e MCP_URL_VAR =
     map_option (\<lambda>(port, i, _). session_endpoint_url port i session) (own_endpoint session model mcp)"
  "apply_mcp_environment session model mcp e MCP_TOKEN_VAR = map_option (\<lambda>(_, _, t). t) (own_endpoint session model mcp)"
  "v \<noteq> MCP_URL_VAR \<Longrightarrow> v \<noteq> MCP_TOKEN_VAR \<Longrightarrow> apply_mcp_environment session model mcp e v = e v"
  using var_names by (auto simp: apply_mcp_environment_def own_endpoint_def Let_def split: option.split)

section \<open>Properties\<close>

text \<open>
  C29. The environment of a kernel is what the reference says, variable by variable. The two
  variables that carry the workspace's credential are those of the session's own workspace if it
  is being served, and absent otherwise, whatever the server inherited and whatever the client's
  actions do to them; every other variable is the inherited value changed by the actions that
  name it and by nothing else. The result is also what the session reports.
\<close>

theorem kernel_environment_exact:
  "resolve_environment vars session model mcp st =
     (let e = (\<lambda>v.
        if v = MCP_URL_VAR then map_option (\<lambda>(port, i, _). session_endpoint_url port i session) (own_endpoint session model mcp)
        else if v = MCP_TOKEN_VAR then map_option (\<lambda>(_, _, t). t) (own_endpoint session model mcp)
        else var_result (ks_env_vars st) v (vars v))
      in (e, st\<lparr>ks_resolved_env := e\<rparr>))"
proof -
  have "apply_mcp_environment session model mcp (resolve (resolver_new vars (ks_env_vars st))) v =
      (if v = MCP_URL_VAR then map_option (\<lambda>(port, i, _). session_endpoint_url port i session) (own_endpoint session model mcp)
        else if v = MCP_TOKEN_VAR then map_option (\<lambda>(_, _, t). t) (own_endpoint session model mcp)
        else var_result (ks_env_vars st) v (vars v))" for v
    using apply_mcp_endpoint by (simp add: resolve_def resolver_new_def apply_var_actions_at)
  then have "apply_mcp_environment session model mcp (resolve (resolver_new vars (ks_env_vars st))) = (\<lambda>v.
      if v = MCP_URL_VAR then map_option (\<lambda>(port, i, _). session_endpoint_url port i session) (own_endpoint session model mcp)
        else if v = MCP_TOKEN_VAR then map_option (\<lambda>(_, _, t). t) (own_endpoint session model mcp)
        else var_result (ks_env_vars st) v (vars v))"
    by (rule ext)
  then show ?thesis
    unfolding resolve_environment_def Let_def by (rule arg_cong)
qed

text \<open>
  The credential a kernel finds in its environment works, and works only for itself: a
  request a library in the kernel sends to the URL, carrying the token, is handed to the service
  of the session's own workspace with that very session as the caller, which is what keeps code
  from being run back into it.
\<close>

theorem kernel_credential_reaches_own_workspace:
  assumes "mcp_ok m" and "fst (resolve_environment vars session model (Some m) st) MCP_URL_VAR = Some url"
    and "fst (resolve_environment vars session model (Some m) st) MCP_TOKEN_VAR = Some token"
    and "session \<noteq> []" and "CHR ''/'' \<notin> set session" and "session \<notin> {''server-card'', ''presence''}"
    and "mcp_listener m = Some port" and "url_path port url = Some (rq_path rq)"
    and "check_request (lib_to_str lib) (rq_headers rq) = Inr token"
    and "\<forall>i j. registry_token i (mcp_registry m) = Some token \<and> registry_token j (mcp_registry m) = Some token \<longrightarrow> i = j"
  shows "\<exists>i. ns_workspace_id model = Some i \<and> fst (mcp_call lib now rq m) = Served i (Some session)"
proof -
  obtain i where i: "ns_workspace_id model = Some i" "registry_token i (mcp_registry m) = Some token"
      "url = session_endpoint_url port i session"
    using assms(2,3,7) var_names
    by (auto simp: resolve_environment_def Let_def apply_mcp_endpoint own_endpoint_def bind_eq_Some_conv)
  have ok: "registry_ok (mcp_registry m)"
    using assms(1) by (simp add: mcp_ok_def)
  then have "is_valid_id i"
    using i(2) registry_ok_get by (fastforce simp: registry_token_def entry_fine_def)
  then have "route (MCP_PATH_PREFIX @ i @ CALLER_PATH_SEGMENT @ session) = Some (False, False, i, Some session)"
    by (rule route_session [OF _ assms(4,5,6)])
  moreover have "rq_path rq = MCP_PATH_PREFIX @ i @ CALLER_PATH_SEGMENT @ session"
    using assms(8) i(3) by (simp add: url_path_def strip_prefix_def endpoint_url_def session_endpoint_url_def)
  ultimately have "route (rq_path rq) = Some (False, False, i, Some session)"
    by simp
  moreover obtain j where j: "workspace_for_token token (mcp_registry m) = Some j"
    using lookup_of_token [OF i(2)] by blast
  then have "j = i"
    using token_of_lookup [OF j] ok assms(10) i(2) by (auto simp: registry_ok_def)
  ultimately show ?thesis
    using mcp_served [OF assms(1) assms(9)] i(1) j by blast
qed

definition sample_owned :: new_session where
  "sample_owned = sample_session\<lparr>ns_session_id := ''k1'', ns_workspace_id := Some ''proj''\<rparr>"

lemma sample_token: "registry_token i (mcp_registry sample_mcp) = Some t \<longleftrightarrow> i = ''proj'' \<and> t = replicate 64 (CHR ''a'')"
  by (auto simp: registry_token_def sample_mcp_def sample_ws)

theorem kernel_credential_reaches_own_workspace_witness:
  "fst (mcp_call sample_lib 0 (sample_agent_request\<lparr>rq_path := ''/mcp/w/proj/s/k1''\<rparr>) sample_mcp) = Served ''proj'' (Some ''k1'')"
proof -
  let ?t = "replicate 64 (CHR ''a'')" and ?u = "session_endpoint_url 8080 ''proj'' ''k1''"
  have port: "mcp_listener sample_mcp = Some 8080"
    by (simp add: sample_mcp_def)
  have own: "own_endpoint ''k1'' sample_owned (Some sample_mcp) = Some (8080, ''proj'', ?t)"
    using sample_token [of "''proj''" ?t] port by (simp add: own_endpoint_def sample_owned_def)
  have env: "fst (resolve_environment Map.empty ''k1'' sample_owned (Some sample_mcp) st) MCP_URL_VAR = Some ?u"
    "fst (resolve_environment Map.empty ''k1'' sample_owned (Some sample_mcp) st) MCP_TOKEN_VAR = Some ?t" for st
    by (simp_all add: resolve_environment_def Let_def apply_mcp_endpoint own)
  have check: "check_request (lib_to_str sample_lib) (rq_headers sample_agent_request) = Inr ?t"
    by code_simp
  have path: "url_path 8080 ?u = Some ''/mcp/w/proj/s/k1''"
    by (simp add: url_path_def strip_prefix_def session_endpoint_url_def endpoint_url_def MCP_PATH_PREFIX_def CALLER_PATH_SEGMENT_def)
  have "\<exists>i. ns_workspace_id sample_owned = Some i \<and>
      fst (mcp_call sample_lib 0 (sample_agent_request\<lparr>rq_path := ''/mcp/w/proj/s/k1''\<rparr>) sample_mcp) = Served i (Some ''k1'')"
    by (rule kernel_credential_reaches_own_workspace [OF sample_mcp_ok env])
       (use port path check sample_token in simp_all)
  then show ?thesis
    by (simp add: sample_owned_def)
qed

end
