(* ===== verification/KC_Ports.thy ===== *)
theory KC_Ports
  imports KC_Lifecycle
begin

text \<open>
  Connection files and ports: \<open>connection_file.rs\<close>, \<open>kernel_session/connection.rs\<close>,
  \<open>kcshared/port_picker.rs\<close>, the version test of \<open>kcshared/handshake_protocol.rs\<close>, and what
  \<open>start_zmq_proxy\<close> of \<open>kernel_session/mod.rs\<close> does with the ports a session has reserved.

  The answers of the operating system are a sequence, indexed by how often it has been asked:
  at each attempt to bind, the port it gives on IPv6 and on IPv4, if any.
\<close>

section \<open>Picking ports\<close>

type_synonym port = "16 word"
type_synonym bind_answers = "nat \<Rightarrow> port option \<times> port option"

definition ask_free_tcp_port :: "bind_answers \<Rightarrow> nat \<Rightarrow> port option" where
  "ask_free_tcp_port ans n = (case fst (ans n) of Some p \<Rightarrow> Some p | None \<Rightarrow> snd (ans n))"

text \<open>The loop of \<open>pick_unused_tcp_port\<close> with the attempts it has left.\<close>

fun pick_loop :: "bind_answers \<Rightarrow> nat \<Rightarrow> nat \<Rightarrow> port option \<times> nat" where
  "pick_loop ans 0 n = (None, n)"
| "pick_loop ans (Suc k) n =
     (case ask_free_tcp_port ans n of Some p \<Rightarrow> (Some p, Suc n) | None \<Rightarrow> pick_loop ans k (Suc n))"

definition pick_unused_tcp_port :: "bind_answers \<Rightarrow> nat \<Rightarrow> port option \<times> nat" where
  "pick_unused_tcp_port ans n = pick_loop ans 5 n"

datatype port_error = NoFreePort string | NoUnreservedPort string

text \<open>
  \<open>find_port\<close> reads the list of reserved ports, releases the lock and then takes it again to
  add its port. The two steps are kept apart.
\<close>

definition port_reserved :: "int list \<Rightarrow> port \<Rightarrow> bool" where
  "port_reserved reserved p \<longleftrightarrow> uint p \<in> set reserved"

definition reserve_port :: "port \<Rightarrow> int list \<Rightarrow> int list" where
  "reserve_port p reserved = reserved @ [uint p]"

text \<open>The loop, with the attempts it has made; it ends after the eleventh reserved candidate.\<close>

function find_port_loop ::
  "bind_answers \<Rightarrow> string \<Rightarrow> nat \<Rightarrow> nat \<Rightarrow> int list \<Rightarrow> (port_error + port) \<times> nat \<times> int list" where
  "find_port_loop ans name tries n reserved =
     (case pick_unused_tcp_port ans n of
        (None, n) \<Rightarrow> (Inl (NoFreePort name), n, reserved)
      | (Some candidate, n) \<Rightarrow>
          if port_reserved reserved candidate then
            (if tries + 1 > 10 then (Inl (NoUnreservedPort name), n, reserved)
             else find_port_loop ans name (tries + 1) n reserved)
          else (Inr candidate, n, reserve_port candidate reserved))"
  by pat_completeness auto
termination
  by (relation "measure (\<lambda>(_, _, tries, _, _). 11 - tries)") auto

declare find_port_loop.simps [simp del]

definition find_port :: "bind_answers \<Rightarrow> string \<Rightarrow> nat \<Rightarrow> int list \<Rightarrow> (port_error + port) \<times> nat \<times> int list" where
  "find_port ans name n reserved = find_port_loop ans name 0 n reserved"

text \<open>\<open>find_port(..)?\<close> for a list of names, in order; the ports found so far stay reserved on an error.\<close>

fun find_ports ::
  "bind_answers \<Rightarrow> string list \<Rightarrow> nat \<Rightarrow> int list \<Rightarrow> (port_error + port list) \<times> nat \<times> int list" where
  "find_ports ans [] n reserved = (Inr [], n, reserved)"
| "find_ports ans (name # names) n reserved =
     (case find_port ans name n reserved of
        (Inl e, n, reserved) \<Rightarrow> (Inl e, n, reserved)
      | (Inr p, n, reserved) \<Rightarrow>
          (case find_ports ans names n reserved of
             (Inl e, n, reserved) \<Rightarrow> (Inl e, n, reserved)
           | (Inr ps, n, reserved) \<Rightarrow> (Inr (p # ps), n, reserved)))"

text \<open>\<open>generate\<close>: control, shell, iopub, heartbeat and stdin, in this order.\<close>

definition generate ::
  "bind_answers \<Rightarrow> string \<Rightarrow> string option \<Rightarrow> nat \<Rightarrow> int list \<Rightarrow> (port_error + connection_file) \<times> nat \<times> int list" where
  "generate ans addr key n reserved =
     (case find_ports ans [''control'', ''shell'', ''iopub'', ''heartbeat'', ''stdin''] n reserved of
        (Inl e, n, reserved) \<Rightarrow> (Inl e, n, reserved)
      | (Inr ps, n, reserved) \<Rightarrow>
          (Inr \<lparr>cf_info =
             \<lparr>control_port = uint (ps ! 0), shell_port = uint (ps ! 1), stdin_port = uint (ps ! 4),
              hb_port = uint (ps ! 3), iopub_port = uint (ps ! 2), signature_scheme = ''hmac-sha256'',
              info_key = (case key of Some k \<Rightarrow> k | None \<Rightarrow> []), transport = ''tcp'', ip = addr\<rparr>\<rparr>, n, reserved))"

text \<open>\<open>endpoint(port)\<close>.\<close>

definition endpoint :: "connection_file \<Rightarrow> port \<Rightarrow> string" where
  "endpoint cf p = transport (cf_info cf) @ ''://'' @ ip (cf_info cf) @ '':'' @ show_nat (unat p)"

definition cf_ports :: "connection_file \<Rightarrow> int list" where
  "cf_ports cf = (let i = cf_info cf in [control_port i, shell_port i, stdin_port i, iopub_port i, hb_port i])"

text \<open>The \<open>retain\<close> at the end of \<open>start_zmq_proxy\<close>.\<close>

definition release_ports :: "connection_file \<Rightarrow> int list \<Rightarrow> int list" where
  "release_ports cf reserved =
     filter (\<lambda>p. p \<noteq> control_port (cf_info cf) \<and> p \<noteq> shell_port (cf_info cf) \<and> p \<noteq> stdin_port (cf_info cf) \<and>
       p \<noteq> iopub_port (cf_info cf) \<and> p \<noteq> hb_port (cf_info cf)) reserved"

section \<open>The connection of a session\<close>

definition update_connection_file :: "connection_file \<Rightarrow> kernel_state \<Rightarrow> kernel_state" where
  "update_connection_file cf s = s\<lparr>ks_connection_file := Some cf\<rparr>"

definition get_connection_file :: "kernel_state \<Rightarrow> connection_file option" where
  "get_connection_file s = ks_connection_file s"

definition ensure_connection_file ::
  "bind_answers \<Rightarrow> string option \<Rightarrow> nat \<Rightarrow> int list \<Rightarrow> kernel_state \<Rightarrow>
     (port_error + connection_file) \<times> nat \<times> int list \<times> kernel_state" where
  "ensure_connection_file ans key n reserved s =
     (case get_connection_file s of
        Some cf \<Rightarrow> (Inr cf, n, reserved, s)
      | None \<Rightarrow>
          (case generate ans ''127.0.0.1'' key n reserved of
             (Inl e, n, reserved) \<Rightarrow> (Inl e, n, reserved, s)
           | (Inr cf, n, reserved) \<Rightarrow> (Inr cf, n, reserved, update_connection_file cf s)))"

text \<open>
  \<open>start_zmq_proxy\<close> by what happened: the connection failed, the kernel exited or the time ran
  out before it was there, the kernel's information could not be had, or the proxy ran and has
  ended. Only the last reaches the release of the ports.
\<close>

datatype proxy_run =
    ConnectError string
  | ExitedFirst
  | ConnectTimeout
  | InfoError string
  | Ran json

definition start_zmq_proxy ::
  "int option \<Rightarrow> connection_file \<Rightarrow> proxy_run \<Rightarrow> startup_status chan \<Rightarrow> int list \<Rightarrow> kernel_state \<Rightarrow>
     startup_status chan \<times> int list \<times> kernel_state" where
  "start_zmq_proxy timeout cf run tx reserved s =
     (case run of
        ConnectError e \<Rightarrow>
          (let (output, s) = consume_output_streams s
           in (chan_try (ConnectionFailed output (SessionConnectionFailed e)) tx, reserved, s))
      | ExitedFirst \<Rightarrow> (let (output, s) = consume_output_streams s in (tx, reserved, s))
      | ConnectTimeout \<Rightarrow>
          (let (output, s) = consume_output_streams s
           in (chan_try (ConnectionFailed output
                 (SessionConnectionTimeout (nat ((case timeout of Some t \<Rightarrow> t | None \<Rightarrow> 30) mod 2 ^ 32)))) tx, reserved, s))
      | InfoError e \<Rightarrow>
          (let (output, s) = consume_output_streams s
           in (chan_try (ConnectionFailed output (SessionConnectionFailed e)) tx, reserved, s))
      | Ran info \<Rightarrow> (chan_try (Connected info) tx, release_ports cf reserved, s))"

text \<open>
  The turns of several sessions in \<open>find_port\<close>: a session that has found a candidate free holds
  it (the second component) until it takes the lock again to reserve it.
\<close>

inductive port_step :: "int list \<times> (nat \<rightharpoonup> port) \<Rightarrow> int list \<times> (nat \<rightharpoonup> port) \<Rightarrow> bool" where
  port_check: "\<not> port_reserved reserved p \<Longrightarrow> port_step (reserved, held) (reserved, held(i \<mapsto> p))"
| port_take: "held i = Some p \<Longrightarrow> port_step (reserved, held) (reserve_port p reserved, held(i := None))"

section \<open>Protocol versions\<close>

text \<open>\<open>str::parse\<close> at an unsigned type: an optional plus sign, then decimal digits, within its width.\<close>

definition digit_of :: "char \<Rightarrow> nat option" where
  "digit_of c = (let n = (of_char c :: nat) in if 48 \<le> n \<and> n \<le> 57 then Some (n - 48) else None)"

definition digits_value :: "nat list \<Rightarrow> nat" where
  "digits_value ds = foldl (\<lambda>a d. 10 * a + d) 0 ds"

definition parse_uint :: "nat \<Rightarrow> string \<Rightarrow> nat option" where
  "parse_uint width s =
     (let body = (case s of c # cs \<Rightarrow> if c = CHR ''+'' then cs else s | [] \<Rightarrow> []) in
      if body = [] then None
      else
        (case all_some (map digit_of body) of
           None \<Rightarrow> None
         | Some ds \<Rightarrow> (let v = digits_value ds in if v < 2 ^ width then Some v else None)))"

definition supports_handshaking :: "string \<Rightarrow> bool" where
  "supports_handshaking v =
     (case split_once (CHR ''.'') v of
        None \<Rightarrow> False
      | Some (major, minor) \<Rightarrow>
          (case (parse_uint 32 major, parse_uint 32 minor) of
             (Some a, Some b) \<Rightarrow> a > 5 \<or> a = 5 \<and> b \<ge> 5
           | _ \<Rightarrow> False))"

definition requires_handshaking :: "string \<Rightarrow> bool" where
  "requires_handshaking v = supports_handshaking v"

section \<open>Lemmas\<close>

lemma find_port_loop_result:
  assumes "find_port_loop ans name tries n reserved = (r, n', reserved')"
  shows "(case r of
      Inl e \<Rightarrow> reserved' = reserved
    | Inr p \<Rightarrow> reserved' = reserved @ [uint p] \<and> uint p \<notin> set reserved)"
  using assms
proof (induction ans name tries n reserved rule: find_port_loop.induct)
  case (1 ans name tries n reserved)
  obtain c m where pick: "pick_unused_tcp_port ans n = (c, m)"
    by fastforce
  show ?case
  proof (cases c)
    case None
    then show ?thesis
      using "1.prems" pick by (auto simp: find_port_loop.simps [of ans name tries])
  next
    case (Some p)
    show ?thesis
    proof (cases "port_reserved reserved p \<and> tries + 1 \<le> 10")
      case True
      then have "find_port_loop ans name (tries + 1) m reserved = (r, n', reserved')"
        using "1.prems" pick Some by (simp add: find_port_loop.simps [of ans name tries])
      then show ?thesis
        using "1.IH" pick Some True by simp
    next
      case False
      then show ?thesis
        using "1.prems" pick Some
        by (auto simp: find_port_loop.simps [of ans name tries] port_reserved_def reserve_port_def
            split: if_splits)
    qed
  qed
qed

lemma find_ports_result:
  assumes "find_ports ans names n reserved = (Inr ps, n', reserved')"
  shows "length ps = length names \<and> reserved' = reserved @ map uint ps \<and> distinct ps \<and>
    set (map uint ps) \<inter> set reserved = {}"
  using assms
proof (induction names arbitrary: n reserved ps)
  case (Cons name names)
  obtain p m res qs where p: "find_port ans name n reserved = (Inr p, m, res)"
    and rest: "find_ports ans names m res = (Inr qs, n', reserved')" and ps: "ps = p # qs"
    using Cons.prems by (auto split: prod.splits sum.splits)
  have res: "res = reserved @ [uint p]" "uint p \<notin> set reserved"
    using find_port_loop_result [OF p [unfolded find_port_def]] by simp_all
  show ?case
    using Cons.IH [OF rest] res ps by auto
qed simp

lemma find_ports_error:
  "find_ports ans names n reserved = (Inl e, n', reserved') \<Longrightarrow> \<exists>ps :: port list. reserved' = reserved @ map uint ps"
proof (induction names arbitrary: n reserved)
  case (Cons name names)
  obtain r m res where p: "find_port ans name n reserved = (r, m, res)"
    by (metis prod_cases3)
  show ?case
  proof (cases r)
    case (Inl e')
    then show ?thesis
      using Cons.prems p find_port_loop_result [OF p [unfolded find_port_def]]
      by (auto intro: exI [of _ "[]"])
  next
    case (Inr q)
    then have "find_ports ans names m res = (Inl e, n', reserved')"
      using Cons.prems p by (auto split: prod.splits sum.splits)
    then obtain ps :: "port list" where "reserved' = res @ map uint ps"
      using Cons.IH by blast
    then show ?thesis
      using find_port_loop_result [OF p [unfolded find_port_def]] Inr by (auto intro: exI [of _ "q # ps"])
  qed
qed simp

lemma generate_result:
  assumes "generate ans addr key n reserved = (Inr cf, n', reserved')"
  shows "\<exists>ps :: port list. length ps = 5 \<and> distinct ps \<and> set (map uint ps) \<inter> set reserved = {} \<and>
    reserved' = reserved @ map uint ps \<and>
    control_port (cf_info cf) = uint (ps ! 0) \<and> shell_port (cf_info cf) = uint (ps ! 1) \<and>
    iopub_port (cf_info cf) = uint (ps ! 2) \<and> hb_port (cf_info cf) = uint (ps ! 3) \<and>
    stdin_port (cf_info cf) = uint (ps ! 4)"
proof -
  obtain ps m where ps: "find_ports ans [''control'', ''shell'', ''iopub'', ''heartbeat'', ''stdin''] n reserved =
      (Inr ps, m, reserved')"
    and cf: "control_port (cf_info cf) = uint (ps ! 0)" "shell_port (cf_info cf) = uint (ps ! 1)"
      "iopub_port (cf_info cf) = uint (ps ! 2)" "hb_port (cf_info cf) = uint (ps ! 3)"
      "stdin_port (cf_info cf) = uint (ps ! 4)"
    using assms by (auto simp: generate_def split: prod.splits sum.splits)
  show ?thesis
    using find_ports_result [OF ps] cf by (intro exI [of _ ps]) auto
qed

lemma five_cases: "length xs = 5 \<Longrightarrow> \<exists>a b c d e. xs = [a, b, c, d, e]"
  by (auto simp: numeral_eq_Suc length_Suc_conv)

lemma generated_ports:
  assumes "generate ans addr key n reserved = (Inr cf, n', reserved')"
  shows "distinct (cf_ports cf) \<and> set (cf_ports cf) \<inter> set reserved = {} \<and>
    (\<forall>p \<in> set (cf_ports cf). 0 \<le> p \<and> p < 65536) \<and>
    (\<exists>qs. reserved' = reserved @ qs \<and> set qs = set (cf_ports cf))"
proof -
  obtain ps :: "port list" where ps: "length ps = 5" "distinct ps" "set (map uint ps) \<inter> set reserved = {}"
      "reserved' = reserved @ map uint ps"
      "control_port (cf_info cf) = uint (ps ! 0)" "shell_port (cf_info cf) = uint (ps ! 1)"
      "iopub_port (cf_info cf) = uint (ps ! 2)" "hb_port (cf_info cf) = uint (ps ! 3)"
      "stdin_port (cf_info cf) = uint (ps ! 4)"
    using generate_result [OF assms] by blast
  obtain a b c d e where abc: "ps = [a, b, c, d, e]"
    using five_cases [OF ps(1)] by blast
  have ports: "cf_ports cf = map uint [a, b, e, c, d]"
    using ps(5-9) by (simp add: cf_ports_def abc Let_def)
  have "distinct (cf_ports cf)"
    using ps(2) unfolding ports by (subst distinct_map) (auto simp: abc inj_on_def word_uint_eq_iff)
  moreover have "\<forall>p \<in> set (cf_ports cf). 0 \<le> p \<and> p < 65536"
    using uint_bounded [where 'a = 16] unfolding ports by auto
  ultimately show ?thesis
    using ps(3,4) unfolding ports abc by auto
qed

text \<open>Reading a number back.\<close>

lemma digit_of_digit: "d < 10 \<Longrightarrow> digit_of (digit_char d) = Some d"
  by (simp add: digit_of_def digit_char_def of_char_of Let_def)

lemma show_nat_digits: "\<exists>ds. all_some (map digit_of (show_nat n)) = Some ds \<and> digits_value ds = n \<and> show_nat n \<noteq> []"
proof (induction n rule: show_nat.induct)
  case (1 n)
  have app: "all_some (xs @ [Some d]) = map_option (\<lambda>ys. ys @ [d]) (all_some xs)" for xs and d :: nat
    by (induction xs rule: all_some.induct) (auto simp: option.map_comp o_def)
  have dig: "digit_of (digit_char n) = Some (n mod 10)"
    using digit_of_digit [of "n mod 10"] by (simp add: digit_char_def)
  show ?case
  proof (cases "n < 10")
    case True
    then show ?thesis
      using dig by (simp add: show_nat.simps [of n] digits_value_def)
  next
    case False
    obtain ds where "all_some (map digit_of (show_nat (n div 10))) = Some ds" "digits_value ds = n div 10"
      using 1 False by blast
    then show ?thesis
      using False dig app by (simp add: show_nat.simps [of n] digits_value_def)
  qed
qed

lemma show_nat_plain: "c \<in> set (show_nat n) \<Longrightarrow> c \<noteq> CHR ''.'' \<and> c \<noteq> CHR ''+''"
proof (induction n rule: show_nat.induct)
  case (1 n)
  have "digit_of (digit_char n) = Some (n mod 10)"
    using digit_of_digit [of "n mod 10"] by (simp add: digit_char_def)
  then have "digit_char n \<noteq> CHR ''.'' \<and> digit_char n \<noteq> CHR ''+''"
    by (auto simp: digit_of_def Let_def)
  then show ?case
    using 1 by (auto simp: show_nat.simps [of n] split: if_splits)
qed

lemma parse_show_nat: "n < 2 ^ width \<Longrightarrow> parse_uint width (show_nat n) = Some n"
proof -
  assume n: "n < 2 ^ width"
  obtain ds where ds: "all_some (map digit_of (show_nat n)) = Some ds" "digits_value ds = n" "show_nat n \<noteq> []"
    using show_nat_digits by blast
  obtain c cs where c: "show_nat n = c # cs"
    using ds(3) by (cases "show_nat n") auto
  have "c \<noteq> CHR ''+''"
    using show_nat_plain [of c n] c by simp
  then show ?thesis
    using ds n c by (simp add: parse_uint_def Let_def)
qed

section \<open>Properties\<close>

text \<open>
  A generated connection file names five different ports, each a 16-bit number, and none of
  them reserved by any session before; all five are reserved afterwards and nothing else is.
  Releasing the file gives back exactly the list there was.
\<close>

theorem generated_ports_fresh:
  assumes "generate ans addr key n reserved = (Inr cf, n', reserved')"
  shows "distinct (cf_ports cf) \<and> set (cf_ports cf) \<inter> set reserved = {} \<and>
    (\<forall>p \<in> set (cf_ports cf). 0 \<le> p \<and> p < 65536) \<and>
    set reserved' = set reserved \<union> set (cf_ports cf) \<and>
    release_ports cf reserved' = reserved"
proof -
  obtain qs where g: "distinct (cf_ports cf)" "set (cf_ports cf) \<inter> set reserved = {}"
      "\<forall>p \<in> set (cf_ports cf). 0 \<le> p \<and> p < 65536" "reserved' = reserved @ qs" "set qs = set (cf_ports cf)"
    using generated_ports [OF assms] by blast
  have rel: "release_ports cf xs = filter (\<lambda>p. p \<notin> set (cf_ports cf)) xs" for xs
    by (simp add: release_ports_def cf_ports_def Let_def conj_ac)
  have "filter (\<lambda>p. p \<notin> set (cf_ports cf)) reserved = reserved"
    using g(2) by (intro filter_True) blast
  moreover have "filter (\<lambda>p. p \<notin> set (cf_ports cf)) qs = []"
    using g(5) by (simp add: filter_empty_conv)
  ultimately show ?thesis
    using g rel by auto
qed

theorem generated_ports_fresh_witness:
  "\<exists>cf n' reserved'. generate (\<lambda>n. (Some (of_nat (Suc n)), None)) ''127.0.0.1'' None 0 [2] = (Inr cf, n', reserved') \<and>
     release_ports cf reserved' = [2]"
proof -
  let ?ans = "\<lambda>n. (Some (of_nat (Suc n)), None) :: port option \<times> port option"
  have "case fst (generate ?ans ''127.0.0.1'' None 0 [2]) of Inr cf \<Rightarrow> True | Inl e \<Rightarrow> False"
    by code_simp
  then obtain cf n' reserved' where g: "generate ?ans ''127.0.0.1'' None 0 [2] = (Inr cf, n', reserved')"
    by (cases "generate ?ans ''127.0.0.1'' None 0 [2]") (auto split: sum.splits)
  then show ?thesis
    using generated_ports_fresh [OF g] by blast
qed

text \<open>
  Ports leak when a kernel does not come up: a proxy that ran releases its session's ports,
  but when the connection fails, the kernel exits first, the time runs out or the kernel's
  information cannot be had, the proxy returns early and all of them stay reserved.
\<close>

lemma failed_start_leaks_ports:
  "start_zmq_proxy timeout cf run tx reserved s = (tx', reserved', s') \<Longrightarrow>
     reserved' = (case run of Ran info \<Rightarrow> release_ports cf reserved | _ \<Rightarrow> reserved)"
  by (cases run) (auto simp: start_zmq_proxy_def consume_output_streams_def Let_def)

lemma failed_start_leaks_ports_witness:
  "fst (snd (start_zmq_proxy None \<lparr>cf_info = \<lparr>control_port = 1, shell_port = 2, stdin_port = 3, hb_port = 4,
      iopub_port = 5, signature_scheme = [], info_key = [], transport = [], ip = []\<rparr>\<rparr> ConnectTimeout chan_new
      [1, 2, 3, 4, 5, 6] sample_state)) = [1, 2, 3, 4, 5, 6]"
proof -
  let ?cf = "\<lparr>cf_info = \<lparr>control_port = 1, shell_port = 2, stdin_port = 3, hb_port = 4,
      iopub_port = 5, signature_scheme = [], info_key = [], transport = [], ip = []\<rparr>\<rparr>"
  obtain tx' r s' where run: "start_zmq_proxy None ?cf ConnectTimeout chan_new [1, 2, 3, 4, 5, 6] sample_state = (tx', r, s')"
    by (metis prod_cases3)
  then show ?thesis
    using failed_start_leaks_ports [OF run] by simp
qed

text \<open>
  Two starts at the same time can be given the same port: the check and the reservation are
  separate steps, so when both sessions check before either reserves, both find the port free and
  both take it, and the list of reserved ports then holds it twice.
\<close>

theorem concurrent_starts_share_port:
  fixes i j :: nat
  assumes "\<not> port_reserved reserved p" and "i \<noteq> j"
  shows "\<exists>st. port_step\<^sup>*\<^sup>* (reserved, Map.empty) st \<and> fst st = reserved @ [uint p, uint p] \<and> snd st = Map.empty"
proof -
  have 1: "port_step (reserved, Map.empty) (reserved, [i \<mapsto> p])"
    using port_check [OF assms(1), of Map.empty i] by simp
  have 2: "port_step (reserved, [i \<mapsto> p]) (reserved, [i \<mapsto> p, j \<mapsto> p])"
    using port_check [OF assms(1), of "[i \<mapsto> p]" j] by simp
  have 3: "port_step (reserved, [i \<mapsto> p, j \<mapsto> p]) (reserved @ [uint p], [j \<mapsto> p])"
  proof -
    have "[i \<mapsto> p, j \<mapsto> p](i := None) = [j \<mapsto> p]"
      using assms(2) by (auto simp: fun_eq_iff)
    then show ?thesis
      using port_take [of "[i \<mapsto> p, j \<mapsto> p]" i p reserved] assms(2) by (simp add: reserve_port_def)
  qed
  have 4: "port_step (reserved @ [uint p], [j \<mapsto> p]) (reserved @ [uint p, uint p], Map.empty)"
    using port_take [of "[j \<mapsto> p]" j p "reserved @ [uint p]"] by (simp add: reserve_port_def)
  have "port_step\<^sup>*\<^sup>* (reserved, Map.empty) (reserved @ [uint p, uint p], Map.empty)"
    using 1 2 3 4 by (meson converse_rtranclp_into_rtranclp r_into_rtranclp)
  then show ?thesis
    by (intro exI [of _ "(reserved @ [uint p, uint p], Map.empty)"]) simp
qed

theorem concurrent_starts_share_port_witness:
  "\<exists>st. port_step\<^sup>*\<^sup>* ([], Map.empty) st \<and> fst st = [] @ [uint (50000 :: port), uint (50000 :: port)] \<and> snd st = Map.empty"
  by (rule concurrent_starts_share_port [of "[]" 50000 1 2]) (simp_all add: port_reserved_def)

text \<open>
  The handshake is used exactly for protocol versions from 5.5 on: for every version written
  as two numbers of 32 bits, the test compares them as a version, not as text.
\<close>

theorem handshake_from_5_5:
  assumes "a < 2 ^ 32" and "b < 2 ^ 32"
  shows "requires_handshaking (show_nat a @ ''.'' @ show_nat b) = (a > 5 \<or> a = 5 \<and> b \<ge> 5)"
proof -
  have "CHR ''.'' \<notin> set (show_nat a)"
    using show_nat_plain by blast
  then have "split_once (CHR ''.'') (show_nat a @ ''.'' @ show_nat b) = Some (show_nat a, show_nat b)"
    using split_once_append [of "CHR ''.''" "show_nat a" "show_nat b"] by simp
  then show ?thesis
    using assms by (simp add: requires_handshaking_def supports_handshaking_def parse_show_nat)
qed

theorem handshake_from_5_5_witness: "requires_handshaking (show_nat 5 @ ''.'' @ show_nat 10)"
  using handshake_from_5_5 [of 5 10] by simp

end
