(* ===== verification/KC_Server.thy ===== *)
theory KC_Server
  imports KC_Idle KC_Env KC_Wire KC_Lifecycle KC_Ports "HOL-Library.List_Lexorder" "HOL-Library.Char_ord"
begin

text \<open>
  \<open>server.rs\<close>: the state of the server and the handlers of its API that answer at once. A handler
  takes the credentials of the request and the server, and returns the answer and the server. The
  shared lists behind locks (\<open>kernel_sessions\<close>, \<open>client_sessions\<close>, \<open>reserved_ports\<close>) are fields of
  the server; a session found in the list shares its state with the list, so a change is written
  back there. The build modelled is the one for Unix. Files on disk are not part of the state, only
  the server's list of the socket files it has to remove.
\<close>

section \<open>Data\<close>

datatype auth_data = Bearer string | OtherAuth

record 'm kernel_session =
  kn_model :: new_session
  kn_connection :: "'m kernel_connection"
  kn_started :: instant
  kn_ctl :: session

record client_entry =
  cl_session_id :: string
  cl_socket_path :: "string option"

datatype log_level = LogTrace | LogDebug | LogInfo | LogWarn | LogError

record 'm server =
  sv_token :: "string option"
  sv_started :: instant
  sv_server_id :: string
  sv_sessions :: "'m kernel_session list"
  sv_clients :: "client_entry list"
  sv_reserved :: "int list"
  sv_idle_hours :: "nat option"
  sv_log_level :: "string option"
  sv_interval :: nat
  sv_include_children :: bool
  sv_uses_sockets :: bool
  sv_active_sockets :: "string list"
  sv_idle_nudge_tx :: "nat option chan"
  sv_idle_config_tx :: "nat option chan"
  sv_interval_tx :: "nat chan"
  sv_mcp :: mcp_state

text \<open>What the handlers ask of the system.\<close>

record host =
  h_now :: instant
  h_pid :: nat
  h_version :: string
  h_is_file :: "string \<Rightarrow> bool"
  h_path :: "string option"
  h_terminate :: "nat \<Rightarrow> bool"
  h_fresh_id :: string
  h_fresh_key :: string
  h_socket_path :: "string \<Rightarrow> string"
  h_bind_socket :: "string \<Rightarrow> string + unit"
  h_os :: os

record active_session =
  as_session_id :: string
  as_argv :: "string list"
  as_process_id :: "int option"
  as_username :: string
  as_display_name :: string
  as_language :: string
  as_interrupt_mode :: interrupt_mode
  as_initial_env :: "env option"
  as_connected :: bool
  as_started :: instant
  as_session_mode :: session_mode
  as_working_directory :: string
  as_notebook_uri :: "string option"
  as_input_prompt :: string
  as_continuation_prompt :: string
  as_execution_queue :: queue_model
  as_status :: status
  as_kernel_info :: json
  as_resource_usage :: "resource_usage option"
  as_idle_seconds :: int
  as_busy_seconds :: int
  as_socket_path :: "string option"
  as_history :: "history_entry_model list option"

record workspace_status =
  wt_id :: string
  wt_display_name :: string
  wt_connected :: bool
  wt_clients :: "mcp_client list"

record mcp_status =
  mt_active :: bool
  mt_port :: int
  mt_request_count :: int
  mt_workspaces :: "workspace_status list"

record server_status =
  st_sessions :: int
  st_active :: int
  st_busy :: bool
  st_idle_seconds :: int
  st_busy_seconds :: int
  st_uptime_seconds :: int
  st_version :: string
  st_process_id :: int
  st_started :: instant
  st_server_id :: "string option"
  st_mcp :: "mcp_status option"

record server_configuration =
  sc_idle_shutdown_hours :: "int option"
  sc_resource_sample_interval_ms :: "int option"
  sc_resource_include_children :: "bool option"
  sc_log_level :: "log_level option"

datatype response =
    Unauthorised
  | NoSuchSession
  | InvalidRequest api_error
  | SessionDetails active_session
  | SessionHistory "history_entry_model list"
  | SessionList int "active_session list"
  | SessionCreated string
  | SessionDeleted
  | DeleteFailed api_error
  | UpgradedConnection string
  | TheConnectionInfo connection_info
  | NoConnection api_error
  | Killed
  | KillFailed api_error
  | Interrupted
  | InterruptFailed api_error
  | TheStatus server_status
  | HeartbeatReceived
  | ShuttingDown
  | ShutdownFailed api_error
  | TheConfiguration server_configuration
  | ConfigurationUpdated
  | ConfigurationError api_error

section \<open>Helpers\<close>

text \<open>A cast \<open>as i32\<close> keeps the lowest 32 bits.\<close>

definition as_i32 :: "int \<Rightarrow> int" where
  "as_i32 x = (x + 2 ^ 31) mod 2 ^ 32 - 2 ^ 31"

definition validate_token :: "'m server \<Rightarrow> auth_data option \<Rightarrow> bool" where
  "validate_token sv auth =
     (case sv_token sv of
        None \<Rightarrow> True
      | Some token \<Rightarrow>
          (case auth of
             None \<Rightarrow> False
           | Some (Bearer b) \<Rightarrow> b = token
           | Some OtherAuth \<Rightarrow> False))"

definition session_id :: "'m kernel_session \<Rightarrow> string" where
  "session_id k = kc_session_id (kn_connection k)"

definition kn_state :: "'m kernel_session \<Rightarrow> kernel_state" where
  "kn_state k = ss_state (kn_ctl k)"

definition find_session :: "string \<Rightarrow> 'm server \<Rightarrow> 'm kernel_session option" where
  "find_session i sv = List.find (\<lambda>k. session_id k = i) (sv_sessions sv)"

text \<open>Writing the state of a found session.\<close>

definition put_session :: "string \<Rightarrow> session \<Rightarrow> 'm server \<Rightarrow> 'm server" where
  "put_session i ctl sv = sv\<lparr>sv_sessions := update_first (\<lambda>k. session_id k = i) (\<lambda>k. k\<lparr>kn_ctl := ctl\<rparr>) (sv_sessions sv)\<rparr>"

definition seconds_since :: "instant \<Rightarrow> instant option \<Rightarrow> int" where
  "seconds_since now t = (case t of Some t \<Rightarrow> as_i32 (int (now - t)) | None \<Rightarrow> 0)"

definition as_active_session :: "instant \<Rightarrow> 'm kernel_session \<Rightarrow> active_session" where
  "as_active_session now k =
     (let m = kn_model k; s = kn_state k in
      \<lparr>as_session_id = session_id k, as_argv = ns_argv m,
       as_process_id = map_option (\<lambda>p. as_i32 (int p)) (ks_process_id s),
       as_username = kc_username (kn_connection k), as_display_name = ns_display_name m, as_language = ns_language m,
       as_interrupt_mode = ns_interrupt_mode m, as_initial_env = Some (ks_resolved_env s), as_connected = ks_connected s,
       as_started = kn_started k, as_session_mode = ns_session_mode m, as_working_directory = ks_working_directory s,
       as_notebook_uri = ns_notebook_uri m, as_input_prompt = ks_input_prompt s,
       as_continuation_prompt = ks_continuation_prompt s, as_execution_queue = queue_to_json (ks_queue s),
       as_status = ks_status s, as_kernel_info = (case ks_kernel_info s of Some j \<Rightarrow> j | None \<Rightarrow> JObject []),
       as_resource_usage = ks_resource_usage s, as_idle_seconds = seconds_since now (ks_idle_since s),
       as_busy_seconds = seconds_since now (ks_busy_since s), as_socket_path = ks_client_socket_path s,
       as_history = Some (history_recent RECENT_ENTRIES (ks_history s))\<rparr>)"

section \<open>Reading\<close>

definition get_session :: "host \<Rightarrow> string \<Rightarrow> 'm server \<Rightarrow> response" where
  "get_session h i sv =
     (case find_session i sv of
        Some k \<Rightarrow> SessionDetails (as_active_session (h_now h) k)
      | None \<Rightarrow> NoSuchSession)"

definition get_session_history :: "auth_data option \<Rightarrow> string \<Rightarrow> 'm server \<Rightarrow> response" where
  "get_session_history auth i sv =
     (if \<not> validate_token sv auth then Unauthorised
      else
        (case find_session i sv of
           None \<Rightarrow> NoSuchSession
         | Some k \<Rightarrow> SessionHistory (history_entries (ks_history (kn_state k)))))"

definition list_sessions :: "host \<Rightarrow> 'm server \<Rightarrow> response" where
  "list_sessions h sv =
     (let result = map (as_active_session (h_now h)) (sv_sessions sv)
      in SessionList (as_i32 (int (length result))) result)"

section \<open>Creating and deleting\<close>

definition kernel_exists :: "host \<Rightarrow> string \<Rightarrow> bool" where
  "kernel_exists h path =
     (if starts_with ''/'' path then h_is_file h path
      else list_ex (\<lambda>dir. h_is_file h (path_join dir path))
             (case h_path h of Some p \<Rightarrow> split_on (CHR '':'') p | None \<Rightarrow> []))"

text \<open>
  \<open>new_session\<close> up to the end of the block that holds the read lock: \<open>None\<close> when the session may be
  created.
\<close>

definition refuse_session :: "host \<Rightarrow> auth_data option \<Rightarrow> new_session \<Rightarrow> 'm server \<Rightarrow> response option" where
  "refuse_session h auth session sv =
     (if \<not> validate_token sv auth then Some Unauthorised
      else if ns_argv session \<noteq> [] \<and> \<not> kernel_exists h (hd (ns_argv session)) then
        Some (InvalidRequest (to_json (KernelPathNotFound (hd (ns_argv session))) None))
      else if list_ex (\<lambda>k. session_id k = ns_session_id session) (sv_sessions sv) then
        Some (InvalidRequest (to_json (SessionExists (ns_session_id session)) None))
      else None)"

text \<open>\<open>KernelSession::new\<close>; \<open>None\<close> when the key is not accepted by the message digest.\<close>

definition kernel_session_new ::
  "'m codec \<Rightarrow> instant \<Rightarrow> new_session \<Rightarrow> string \<Rightarrow> nat option chan \<Rightarrow> 'm kernel_session option" where
  "kernel_session_new cd now session key tx =
     (case from_session cd session key of
        None \<Rightarrow> None
      | Some c \<Rightarrow> Some
          \<lparr>kn_model = session, kn_connection = c, kn_started = now,
           kn_ctl = \<lparr>ss_state = state_new now session (ns_working_directory session) tx chan_new, ss_zmq_tx = chan_new,
                     ss_interrupt_mode = ns_interrupt_mode session\<rparr>\<rparr>)"

text \<open>The rest of \<open>new_session\<close>, which takes the write lock.\<close>

definition insert_session :: "'m codec \<Rightarrow> host \<Rightarrow> new_session \<Rightarrow> string \<Rightarrow> 'm server \<Rightarrow> response \<times> 'm server" where
  "insert_session cd h session key_error sv =
     (case kernel_session_new cd (h_now h) session (h_fresh_key h) (sv_idle_nudge_tx sv) of
        None \<Rightarrow>
          (InvalidRequest (to_json (SessionCreateFailed (ns_session_id session)
             (''Kernel session couldn'' @ [CHR 0x27] @ ''t be established: '' @ key_error)) None), sv)
      | Some k \<Rightarrow> (SessionCreated (ns_session_id session), sv\<lparr>sv_sessions := sv_sessions sv @ [k]\<rparr>))"

definition handle_new_session ::
  "'m codec \<Rightarrow> host \<Rightarrow> auth_data option \<Rightarrow> new_session \<Rightarrow> string \<Rightarrow> 'm server \<Rightarrow> response \<times> 'm server" where
  "handle_new_session cd h auth session key_error sv =
     (case refuse_session h auth session sv of
        Some r \<Rightarrow> (r, sv)
      | None \<Rightarrow> insert_session cd h session key_error sv)"

text \<open>\<open>cleanup_domain_socket\<close> and its use for the clients of one session.\<close>

definition cleanup_domain_socket :: "string \<Rightarrow> string list \<Rightarrow> string list" where
  "cleanup_domain_socket path sockets = (case remove_first (\<lambda>p. p = path) sockets of Some xs \<Rightarrow> xs | None \<Rightarrow> sockets)"

definition cleanup_session_sockets :: "string \<Rightarrow> 'm server \<Rightarrow> 'm server" where
  "cleanup_session_sockets i sv =
     sv\<lparr>sv_active_sockets :=
        fold (\<lambda>c socks. if cl_session_id c = i
               then (case cl_socket_path c of Some p \<Rightarrow> cleanup_domain_socket p socks | None \<Rightarrow> socks) else socks)
          (sv_clients sv) (sv_active_sockets sv)\<rparr>"

definition delete_session :: "auth_data option \<Rightarrow> string \<Rightarrow> 'm server \<Rightarrow> response \<times> 'm server" where
  "delete_session auth i sv =
     (if \<not> validate_token sv auth then (Unauthorised, sv)
      else
        (case find_session i sv of
           None \<Rightarrow> (NoSuchSession, sv)
         | Some k \<Rightarrow>
             if ks_status (kn_state k) \<noteq> Exited then (DeleteFailed (to_json (SessionRunning i) None), sv)
             else
               (let sv = sv\<lparr>sv_mcp := drop_caller_service i (sv_mcp sv)\<rparr> in
                case remove_first (\<lambda>k. session_id k = i) (sv_sessions sv) of
                  None \<Rightarrow> (NoSuchSession, sv)
                | Some ks \<Rightarrow> (SessionDeleted, cleanup_session_sockets i (sv\<lparr>sv_sessions := ks\<rparr>)))))"

section \<open>Connecting\<close>

definition UNIX_SOCKET_PATH_MAX :: nat where "UNIX_SOCKET_PATH_MAX = 104"

definition socket_error :: "string \<Rightarrow> string \<Rightarrow> response" where
  "socket_error code message = InvalidRequest \<lparr>ae_code = code, ae_message = message, ae_details = None\<rparr>"

text \<open>The listener's own task, which accepts the connections, is not part of the answer.\<close>

definition create_domain_socket_channel :: "host \<Rightarrow> string \<Rightarrow> 'm server \<Rightarrow> response \<times> 'm server" where
  "create_domain_socket_channel h i sv =
     (let path = h_socket_path h i in
      if length path > UNIX_SOCKET_PATH_MAX then
        (socket_error ''socket_path_too_long''
           (''Cannot create session socket: path is too long ('' @ show_nat (length path) @ '' chars): '' @ path), sv)
      else
        (case h_bind_socket h path of
           Inr _ \<Rightarrow> (UpgradedConnection path, sv\<lparr>sv_active_sockets := sv_active_sockets sv @ [path]\<rparr>)
         | Inl e \<Rightarrow> (socket_error ''domain_socket_error'' (''Failed to create Unix domain socket: '' @ e), sv)))"

definition channels_upgrade :: "host \<Rightarrow> auth_data option \<Rightarrow> string \<Rightarrow> 'm server \<Rightarrow> response \<times> 'm server" where
  "channels_upgrade h auth i sv =
     (if \<not> validate_token sv auth then (Unauthorised, sv)
      else if find_session i sv = None then (NoSuchSession, sv)
      else if sv_uses_sockets sv then create_domain_socket_channel h i sv
      else (UpgradedConnection i, sv))"

definition port_error_text :: "port_error \<Rightarrow> string" where
  "port_error_text e = (case e of NoFreePort t \<Rightarrow> t | NoUnreservedPort t \<Rightarrow> t)"

definition handle_connection_info ::
  "bind_answers \<Rightarrow> nat \<Rightarrow> auth_data option \<Rightarrow> string \<Rightarrow> 'm server \<Rightarrow> response \<times> 'm server" where
  "handle_connection_info ans n auth i sv =
     (if \<not> validate_token sv auth then (Unauthorised, sv)
      else
        (case find_session i sv of
           None \<Rightarrow> (NoSuchSession, sv)
         | Some k \<Rightarrow>
             (case ensure_connection_file ans (kc_key (kn_connection k)) n (sv_reserved sv) (kn_state k) of
                (Inr cf, _, reserved, st) \<Rightarrow>
                  (TheConnectionInfo (cf_info cf),
                   put_session i ((kn_ctl k)\<lparr>ss_state := st\<rparr>) (sv\<lparr>sv_reserved := reserved\<rparr>))
              | (Inl e, _, reserved, st) \<Rightarrow>
                  (NoConnection (to_json (NoConnectionInfo i (port_error_text e)) None),
                   put_session i ((kn_ctl k)\<lparr>ss_state := st\<rparr>) (sv\<lparr>sv_reserved := reserved\<rparr>)))))"

section \<open>Controlling a kernel\<close>

definition kill_session :: "host \<Rightarrow> auth_data option \<Rightarrow> string \<Rightarrow> 'm server \<Rightarrow> response \<times> 'm server" where
  "kill_session h auth i sv =
     (if \<not> validate_token sv auth then (Unauthorised, sv)
      else
        (case find_session i sv of
           None \<Rightarrow> (NoSuchSession, sv)
         | Some k \<Rightarrow>
             if ks_status (kn_state k) = Exited then (KillFailed (to_json (SessionNotRunning i) None), sv)
             else
               (let st = (kn_state k)\<lparr>ks_queue := queue_clear (ks_queue (kn_state k))\<rparr>;
                    sv = put_session i ((kn_ctl k)\<lparr>ss_state := st\<rparr>) sv in
                case ks_process_id st of
                  Some pid \<Rightarrow>
                    if h_terminate h pid then (Killed, cleanup_session_sockets i sv)
                    else (KillFailed (to_json (ProcessNotFound pid i)
                            (Some ''Failed to send kill signal to process'')), sv)
                | None \<Rightarrow> (KillFailed (to_json (NoProcess i) None), sv))))"

definition interrupt_session :: "host \<Rightarrow> auth_data option \<Rightarrow> string \<Rightarrow> 'm server \<Rightarrow> (response \<times> 'm server) option" where
  "interrupt_session h auth i sv =
     (if \<not> validate_token sv auth then Some (Unauthorised, sv)
      else
        (case find_session i sv of
           None \<Rightarrow> Some (NoSuchSession, sv)
         | Some k \<Rightarrow>
             (case interrupt (h_os h) (h_fresh_id h) (kn_ctl k) of
                (Done _, ctl) \<Rightarrow> Some (Interrupted, put_session i ctl sv)
              | (Fail e, ctl) \<Rightarrow> Some (InterruptFailed (to_json (SessionInterruptFailed i e) None), put_session i ctl sv)
              | (Panic, ctl) \<Rightarrow> None)))"

section \<open>The server itself\<close>

text \<open>\<open>WorkspaceRegistry::status\<close>, sorted by identifier, and \<open>McpState::status\<close>.\<close>

definition registry_status :: "registry \<Rightarrow> workspace_status list" where
  "registry_status reg =
     sort_key wt_id (map (\<lambda>(i, w). \<lparr>wt_id = i, wt_display_name = ws_display_name w, wt_connected = connected w,
       wt_clients = client_list w\<rparr>) reg)"

definition mcp_status_of :: "mcp_state \<Rightarrow> mcp_status" where
  "mcp_status_of m =
     \<lparr>mt_active = mcp_listener m \<noteq> None,
      mt_port = (case mcp_listener m of Some p \<Rightarrow> int p | None \<Rightarrow> 0),
      mt_request_count = as_i32 (int (mcp_request_count m)),
      mt_workspaces = registry_status (mcp_registry m)\<rparr>"

record tally =
  ta_busy :: bool
  ta_active :: int
  ta_earliest_busy :: "instant option"
  ta_latest_idle :: "instant option"

text \<open>The body of the loop over the sessions.\<close>

definition tally_session :: "kernel_state \<Rightarrow> tally \<Rightarrow> tally" where
  "tally_session s t =
     (let t =
        (if ks_status s = Busy then
           t\<lparr>ta_busy := True,
             ta_earliest_busy :=
               (case ta_earliest_busy t of
                  Some earliest \<Rightarrow>
                    (case ks_busy_since s of
                       Some b \<Rightarrow> if b < earliest then Some b else ta_earliest_busy t
                     | None \<Rightarrow> ta_earliest_busy t)
                | None \<Rightarrow> ks_busy_since s)\<rparr>
         else
           t\<lparr>ta_latest_idle :=
               (case ta_latest_idle t of
                  Some latest \<Rightarrow>
                    (case ks_idle_since s of
                       Some i \<Rightarrow> if i > latest then Some i else ta_latest_idle t
                     | None \<Rightarrow> ta_latest_idle t)
                | None \<Rightarrow> ks_idle_since s)\<rparr>)
      in if ks_status s \<noteq> Exited then t\<lparr>ta_active := ta_active t + 1\<rparr> else t)"

definition tally_new :: tally where
  "tally_new = \<lparr>ta_busy = False, ta_active = 0, ta_earliest_busy = None, ta_latest_idle = None\<rparr>"

text \<open>The time at which the server started, from the time it has run; a time that does not fit is not subtracted.\<close>

definition started_datetime :: "host \<Rightarrow> 'm server \<Rightarrow> instant" where
  "started_datetime h sv =
     (let elapsed = h_now h - sv_started sv in
      if elapsed * 1000 < 2 ^ 63 then h_now h - elapsed else h_now h)"

definition handle_server_status :: "host \<Rightarrow> 'm server \<Rightarrow> response" where
  "handle_server_status h sv =
     (let t = fold tally_session (map kn_state (sv_sessions sv)) tally_new;
          uptime = as_i32 (int (h_now h - sv_started sv)) in
      TheStatus
        \<lparr>st_sessions = as_i32 (int (length (sv_sessions sv))), st_active = ta_active t, st_busy = ta_busy t,
         st_idle_seconds = (if sv_sessions sv = [] then uptime else seconds_since (h_now h) (ta_latest_idle t)),
         st_busy_seconds = seconds_since (h_now h) (ta_earliest_busy t), st_uptime_seconds = uptime,
         st_version = h_version h, st_process_id = as_i32 (int (h_pid h)), st_started = started_datetime h sv,
         st_server_id = Some (sv_server_id sv),
         st_mcp = Some (mcp_status_of (sv_mcp sv))\<rparr>)"

text \<open>
  A heartbeat nudges the idle task; the number of the client's process is cast to 32 bits without a
  sign. The send waits while the channel is full, and only fails when the task is gone.
\<close>

definition client_heartbeat :: "int option \<Rightarrow> 'm server \<Rightarrow> response \<times> 'm server" where
  "client_heartbeat pid sv =
     (HeartbeatReceived,
      sv\<lparr>sv_idle_nudge_tx := chan_try (map_option (\<lambda>p. nat (p mod 2 ^ 32)) pid) (sv_idle_nudge_tx sv)\<rparr>)"

text \<open>
  The loop of \<open>shutdown_sessions_and_exit\<close> that asks the sessions to exit; it stops at the first
  whose channel is closed.
\<close>

fun ask_shutdown :: "string \<Rightarrow> string \<Rightarrow> 'm kernel_session list \<Rightarrow> ks_error option \<times> 'm kernel_session list" where
  "ask_shutdown fresh err [] = (None, [])"
| "ask_shutdown fresh err (k # ks) =
     (if \<not> session_runs (kn_state k) then (let (r, ks) = ask_shutdown fresh err ks in (r, k # ks))
      else
        (case shutdown fresh (kn_ctl k) of
           Some ctl \<Rightarrow> (let (r, ks) = ask_shutdown fresh err ks in (r, k\<lparr>kn_ctl := ctl\<rparr> # ks))
         | None \<Rightarrow> (Some (SessionInterruptFailed (session_id k) err), k # ks)))"

definition shutdown_server :: "host \<Rightarrow> auth_data option \<Rightarrow> 'm server \<Rightarrow> response \<times> 'm server" where
  "shutdown_server h auth sv =
     (if \<not> validate_token sv auth then (Unauthorised, sv)
      else
        (let sv = sv\<lparr>sv_active_sockets := []\<rparr>;
             (r, ks) = ask_shutdown (h_fresh_id h) (os_send_error (h_os h)) (sv_sessions sv);
             sv = sv\<lparr>sv_sessions := ks\<rparr>
         in (case r of None \<Rightarrow> (ShuttingDown, sv) | Some e \<Rightarrow> (ShutdownFailed (to_json e None), sv))))"

definition parse_log_level :: "string \<Rightarrow> log_level option" where
  "parse_log_level s =
     (if s = ''trace'' then Some LogTrace else if s = ''debug'' then Some LogDebug else if s = ''info'' then Some LogInfo
      else if s = ''warn'' then Some LogWarn else if s = ''error'' then Some LogError else None)"

definition get_server_configuration :: "'m server \<Rightarrow> response" where
  "get_server_configuration sv =
     TheConfiguration
       \<lparr>sc_idle_shutdown_hours = map_option int (sv_idle_hours sv),
        sc_resource_sample_interval_ms = Some (as_i32 (int (sv_interval sv))),
        sc_resource_include_children = Some (sv_include_children sv),
        sc_log_level = Option.bind (sv_log_level sv) parse_log_level\<rparr>"

definition config_error :: "string \<Rightarrow> string \<Rightarrow> string option \<Rightarrow> response" where
  "config_error code message details = ConfigurationError \<lparr>ae_code = code, ae_message = message, ae_details = details\<rparr>"

text \<open>The three parts of \<open>set_server_configuration\<close>; \<open>Inl\<close> is its early return.\<close>

definition set_idle_hours :: "string \<Rightarrow> int option \<Rightarrow> 'm server \<Rightarrow> (response + unit) \<times> 'm server" where
  "set_idle_hours err hours sv =
     (case hours of
        None \<Rightarrow> (Inr (), sv)
      | Some n \<Rightarrow>
          if n \<ge> 2 ^ 16 then (Inl (config_error ''400'' ''idle_shutdown_hours is too large'' None), sv)
          else
            (let new = (if n < 0 then None else Some (nat n)) in
             case chan_send new (sv_idle_config_tx sv) of
               None \<Rightarrow> (Inl (config_error ''500'' ''Failed to update idle shutdown configuration'' (Some err)), sv)
             | Some c \<Rightarrow> (let sv = sv\<lparr>sv_idle_config_tx := c, sv_idle_hours := new\<rparr> in (Inr (), sv))))"

definition set_interval :: "string \<Rightarrow> int option \<Rightarrow> 'm server \<Rightarrow> (response + unit) \<times> 'm server" where
  "set_interval err interval sv =
     (case interval of
        None \<Rightarrow> (Inr (), sv)
      | Some n \<Rightarrow>
          if n < 0 then (Inl (config_error ''400'' ''resource_sample_interval_ms must be non-negative'' None), sv)
          else
            (let new = (if n > 0 \<and> n < 100 then 100 else nat n) in
             case chan_send new (sv_interval_tx sv) of
               None \<Rightarrow> (Inl (config_error ''500'' ''Failed to update resource sample interval configuration'' (Some err)), sv)
             | Some c \<Rightarrow> (let sv = sv\<lparr>sv_interval_tx := c\<rparr> in (Inr (), sv))))"

definition set_server_configuration ::
  "string \<Rightarrow> server_configuration \<Rightarrow> 'm server \<Rightarrow> response \<times> 'm server" where
  "set_server_configuration err c sv =
     (case set_idle_hours err (sc_idle_shutdown_hours c) sv of
        (Inl r, sv) \<Rightarrow> (r, sv)
      | (Inr _, sv) \<Rightarrow>
          (case set_interval err (sc_resource_sample_interval_ms c) sv of
             (Inl r, sv) \<Rightarrow> (r, sv)
           | (Inr _, sv) \<Rightarrow>
               (ConfigurationUpdated,
                case sc_resource_include_children c of Some b \<Rightarrow> sv\<lparr>sv_include_children := b\<rparr> | None \<Rightarrow> sv)))"

section \<open>The API\<close>

text \<open>
  The requests, each with what the outside world contributes to its answer, and the server's
  answer. \<open>None\<close> is a panic.
\<close>

datatype 'm api_request =
    GetSession host string
  | GetHistory string
  | ListSessions host
  | NewSession "'m codec" host new_session string
  | DeleteSession string
  | ChannelsUpgrade host string
  | ConnectionInfo bind_answers nat string
  | KillSession host string
  | InterruptSession host string
  | GetStatus host
  | Heartbeat "int option"
  | ShutdownServer host
  | GetConfiguration
  | SetConfiguration string server_configuration

fun api_call :: "auth_data option \<Rightarrow> 'm api_request \<Rightarrow> 'm server \<Rightarrow> (response \<times> 'm server) option" where
  "api_call auth (GetSession h i) sv = Some (get_session h i sv, sv)"
| "api_call auth (GetHistory i) sv = Some (get_session_history auth i sv, sv)"
| "api_call auth (ListSessions h) sv = Some (list_sessions h sv, sv)"
| "api_call auth (NewSession cd h s err) sv = Some (handle_new_session cd h auth s err sv)"
| "api_call auth (DeleteSession i) sv = Some (delete_session auth i sv)"
| "api_call auth (ChannelsUpgrade h i) sv = Some (channels_upgrade h auth i sv)"
| "api_call auth (ConnectionInfo ans n i) sv = Some (handle_connection_info ans n auth i sv)"
| "api_call auth (KillSession h i) sv = Some (kill_session h auth i sv)"
| "api_call auth (InterruptSession h i) sv = interrupt_session h auth i sv"
| "api_call auth (GetStatus h) sv = Some (handle_server_status h sv, sv)"
| "api_call auth (Heartbeat pid) sv = Some (client_heartbeat pid sv)"
| "api_call auth (ShutdownServer h) sv = Some (shutdown_server h auth sv)"
| "api_call auth GetConfiguration sv = Some (get_server_configuration sv, sv)"
| "api_call auth (SetConfiguration err c) sv = Some (set_server_configuration err c sv)"

text \<open>The requests whose handlers check the token.\<close>

fun guarded :: "'m api_request \<Rightarrow> bool" where
  "guarded (GetSession _ _) \<longleftrightarrow> False"
| "guarded (ListSessions _) \<longleftrightarrow> False"
| "guarded (GetStatus _) \<longleftrightarrow> False"
| "guarded (Heartbeat _) \<longleftrightarrow> False"
| "guarded GetConfiguration \<longleftrightarrow> False"
| "guarded (SetConfiguration _ _) \<longleftrightarrow> False"
| "guarded _ \<longleftrightarrow> True"

fun api_step :: "auth_data option \<times> 'm api_request \<Rightarrow> 'm server \<Rightarrow> 'm server" where
  "api_step (auth, r) sv = (case api_call auth r sv of Some (_, sv) \<Rightarrow> sv | None \<Rightarrow> sv)"

section \<open>The invariant\<close>

text \<open>
  No two sessions share an identifier, and every session's state is sound.
\<close>

definition ids :: "'m server \<Rightarrow> string list" where
  "ids sv = map session_id (sv_sessions sv)"

definition server_ok :: "'m server \<Rightarrow> bool" where
  "server_ok sv \<longleftrightarrow> distinct (ids sv) \<and> (\<forall>k \<in> set (sv_sessions sv). state_ok (kn_state k))"

lemma find_session_Some: "find_session i sv = Some k \<Longrightarrow> k \<in> set (sv_sessions sv) \<and> session_id k = i"
  by (auto simp: find_session_def find_Some_iff)

lemma find_snoc: "\<forall>x \<in> set xs. \<not> p x \<Longrightarrow> p y \<Longrightarrow> List.find p (xs @ [y]) = Some y"
  by (induction xs) auto

lemma map_update_first: "(\<And>x. p x \<Longrightarrow> f (g x) = f x) \<Longrightarrow> map f (update_first p g xs) = map f xs"
  by (induction xs) auto

lemma server_ok_put:
  assumes "server_ok sv" and "state_ok (ss_state ctl)"
  shows "server_ok (put_session i ctl sv)"
proof -
  have "ids (put_session i ctl sv) = ids sv"
    by (auto simp: ids_def put_session_def session_id_def intro!: map_update_first)
  moreover have "state_ok (kn_state k)" if "k \<in> set (sv_sessions (put_session i ctl sv))" for k
    using that assms by (auto simp: put_session_def server_ok_def kn_state_def dest!: set_update_first)
  ultimately show ?thesis
    using assms(1) by (simp add: server_ok_def)
qed

lemma server_ok_frame [simp]:
  "server_ok (sv\<lparr>sv_mcp := a\<rparr>) = server_ok sv"
  "server_ok (sv\<lparr>sv_active_sockets := b\<rparr>) = server_ok sv"
  "server_ok (sv\<lparr>sv_reserved := c\<rparr>) = server_ok sv"
  "server_ok (sv\<lparr>sv_idle_nudge_tx := d\<rparr>) = server_ok sv"
  "server_ok (sv\<lparr>sv_idle_config_tx := d, sv_idle_hours := e\<rparr>) = server_ok sv"
  "server_ok (sv\<lparr>sv_interval_tx := f\<rparr>) = server_ok sv"
  "server_ok (sv\<lparr>sv_include_children := g\<rparr>) = server_ok sv"
  by (simp_all add: server_ok_def ids_def)

lemma server_ok_new: "server_ok sv \<Longrightarrow> server_ok (snd (handle_new_session cd h auth s err sv))"
proof -
  assume ok: "server_ok sv"
  show ?thesis
  proof (cases "refuse_session h auth s sv")
    case None
    then have fresh: "ns_session_id s \<notin> set (ids sv)"
      by (auto simp: refuse_session_def ids_def list_ex_iff split: if_splits)
    have "session_id k = ns_session_id s \<and> state_ok (kn_state k)"
      if "kernel_session_new cd now s key tx = Some k" for now key tx k
      using that state_new_ok
      by (auto simp: kernel_session_new_def from_session_def session_id_def kn_state_def split: option.splits)
    then show ?thesis
      using None ok fresh
      by (auto simp: handle_new_session_def insert_session_def server_ok_def ids_def split: option.splits)
  qed (use ok in \<open>simp add: handle_new_session_def\<close>)
qed

lemma server_ok_delete: "server_ok sv \<Longrightarrow> server_ok (snd (delete_session auth i sv))"
proof -
  assume ok: "server_ok sv"
  have "server_ok (sv\<lparr>sv_mcp := m, sv_sessions := ks, sv_active_sockets := x\<rparr>)"
    if "remove_first (\<lambda>k. session_id k = i) (sv_sessions sv) = Some ks" for ks m x
    using ok remove_first_set [OF that, of session_id] by (auto simp: server_ok_def ids_def)
  then show ?thesis
    using ok
    by (auto simp: delete_session_def Let_def cleanup_session_sockets_def split: option.split)
qed

lemma server_ok_upgrade: "server_ok sv \<Longrightarrow> server_ok (snd (channels_upgrade h auth i sv))"
  by (auto simp: channels_upgrade_def create_domain_socket_channel_def Let_def split: sum.split)

lemma state_ok_connection_file:
  "ensure_connection_file ans key n reserved st = (r, n', reserved', st') \<Longrightarrow> state_ok st' = state_ok st"
  by (auto simp: ensure_connection_file_def update_connection_file_def state_ok_def timers_ok_def
      split: option.splits prod.splits sum.splits)

lemma server_ok_connection_info: "server_ok sv \<Longrightarrow> server_ok (snd (handle_connection_info ans n auth i sv))"
proof -
  assume ok: "server_ok sv"
  show ?thesis
  proof (cases "find_session i sv")
    case (Some k)
    obtain r n' reserved st where e:
      "ensure_connection_file ans (kc_key (kn_connection k)) n (sv_reserved sv) (kn_state k) = (r, n', reserved, st)"
      by (metis prod_cases4)
    have "state_ok st"
      using state_ok_connection_file [OF e] ok find_session_Some [OF Some] by (simp add: server_ok_def)
    then have "server_ok (put_session i ((kn_ctl k)\<lparr>ss_state := st\<rparr>) (sv\<lparr>sv_reserved := reserved\<rparr>))"
      using ok by (intro server_ok_put) simp_all
    then show ?thesis
      using ok Some e by (cases r) (simp_all add: handle_connection_info_def)
  qed (use ok in \<open>simp add: handle_connection_info_def\<close>)
qed

lemma server_ok_kill: "server_ok sv \<Longrightarrow> server_ok (snd (kill_session h auth i sv))"
proof -
  assume ok: "server_ok sv"
  show ?thesis
  proof (cases "find_session i sv")
    case (Some k)
    let ?st = "(kn_state k)\<lparr>ks_queue := queue_clear (ks_queue (kn_state k))\<rparr>"
    have "state_ok ?st"
      using ok find_session_Some [OF Some] queue_ok_clear by (auto simp: server_ok_def state_ok_def timers_ok_def)
    then have put: "server_ok (put_session i ((kn_ctl k)\<lparr>ss_state := ?st\<rparr>) sv)"
      using ok by (intro server_ok_put) simp_all
    then have "server_ok (cleanup_session_sockets i (put_session i ((kn_ctl k)\<lparr>ss_state := ?st\<rparr>) sv))"
      by (simp add: cleanup_session_sockets_def)
    then show ?thesis
      using ok Some put by (auto simp: kill_session_def Let_def split: option.split)
  qed (use ok in \<open>simp add: kill_session_def\<close>)
qed

lemma interrupt_state: "ss_state (snd (interrupt os x c)) = ss_state c"
  by (auto simp: interrupt_def zmq_send_def Let_def split: interrupt_mode.split option.split)

lemma server_ok_interrupt: "server_ok sv \<Longrightarrow> interrupt_session h auth i sv = Some (r, sv') \<Longrightarrow> server_ok sv'"
proof -
  assume ok: "server_ok sv" and run: "interrupt_session h auth i sv = Some (r, sv')"
  show ?thesis
  proof (cases "find_session i sv")
    case (Some k)
    obtain o1 ctl where e: "interrupt (h_os h) (h_fresh_id h) (kn_ctl k) = (o1, ctl)"
      by fastforce
    have "state_ok (ss_state ctl)"
      using interrupt_state [of "h_os h" "h_fresh_id h" "kn_ctl k"] e ok find_session_Some [OF Some]
      by (simp add: server_ok_def kn_state_def)
    then have "server_ok (put_session i ctl sv)"
      by (rule server_ok_put [OF ok])
    then show ?thesis
      using ok run Some e by (cases o1) (auto simp: interrupt_session_def split: if_splits)
  qed (use ok run in \<open>auto simp: interrupt_session_def split: if_splits\<close>)
qed

lemma ask_shutdown_keeps:
  "ask_shutdown fresh err ks = (r, ks') \<Longrightarrow> map session_id ks' = map session_id ks \<and> map kn_state ks' = map kn_state ks"
proof (induction ks arbitrary: r ks')
  case (Cons k ks)
  obtain r1 ks1 where rest: "ask_shutdown fresh err ks = (r1, ks1)"
    by fastforce
  have "ss_state ctl = ss_state (kn_ctl k)" if "shutdown fresh (kn_ctl k) = Some ctl" for ctl
    using that by (auto simp: shutdown_def zmq_send_def)
  then show ?case
    using Cons.IH [OF rest] Cons.prems rest
    by (auto simp: session_id_def kn_state_def split: if_splits option.splits)
qed simp

lemma server_ok_shutdown: "server_ok sv \<Longrightarrow> server_ok (snd (shutdown_server h auth sv))"
proof -
  assume ok: "server_ok sv"
  obtain r ks where e: "ask_shutdown (h_fresh_id h) (os_send_error (h_os h)) (sv_sessions sv) = (r, ks)"
    by fastforce
  note keeps = ask_shutdown_keeps [OF e]
  have "kn_state ` set ks = kn_state ` set (sv_sessions sv)"
    using keeps by (metis list.set_map)
  moreover have "\<forall>st \<in> kn_state ` set (sv_sessions sv). state_ok st"
    using ok by (simp add: server_ok_def)
  ultimately have "\<forall>k \<in> set ks. state_ok (kn_state k)"
    by blast
  then have "server_ok (sv\<lparr>sv_active_sockets := [], sv_sessions := ks\<rparr>)"
    using ok keeps by (simp add: server_ok_def ids_def)
  then show ?thesis
    using ok e by (cases r) (simp_all add: shutdown_server_def Let_def)
qed

lemma server_ok_configuration: "server_ok sv \<Longrightarrow> server_ok (snd (set_server_configuration err c sv))"
proof -
  assume ok: "server_ok sv"
  obtain r1 sv1 where e1: "set_idle_hours err (sc_idle_shutdown_hours c) sv = (r1, sv1)"
    by fastforce
  have ok1: "server_ok sv1"
    using ok e1 by (auto simp: set_idle_hours_def Let_def split: option.splits if_splits)
  obtain r2 sv2 where e2: "set_interval err (sc_resource_sample_interval_ms c) sv1 = (r2, sv2)"
    by fastforce
  have ok2: "server_ok sv2"
    using ok1 e2 by (auto simp: set_interval_def Let_def split: option.splits if_splits)
  show ?thesis
    using ok1 ok2 e1 e2 by (cases r1; cases r2) (auto simp: set_server_configuration_def split: option.split)
qed

lemma server_ok_step: "server_ok sv \<Longrightarrow> server_ok (api_step ar sv)"
proof -
  assume ok: "server_ok sv"
  obtain auth r where ar: "ar = (auth, r)"
    by fastforce
  have interrupt: "server_ok (snd y)" if "interrupt_session h auth i sv = Some y" for h i y
    using server_ok_interrupt [OF ok, of h auth i "fst y" "snd y"] that by simp
  have "server_ok (snd y)" if call: "api_call auth r sv = Some y" for y
  proof (cases r)
    case (InterruptSession h i)
    then show ?thesis
      using call interrupt by simp
  qed (use call ok in \<open>auto simp: server_ok_new server_ok_delete server_ok_upgrade server_ok_connection_info
      server_ok_kill server_ok_shutdown server_ok_configuration client_heartbeat_def\<close>)
  then show ?thesis
    using ok ar by (auto split: option.split)
qed

interpretation srv: guarded_machine api_step "\<lambda>_. True" server_ok
  by unfold_locales (rule server_ok_step)

section \<open>The status report\<close>

text \<open>What the loop computes, over all sessions at once.\<close>

definition opt_min :: "nat list \<Rightarrow> nat option" where
  "opt_min xs = (if xs = [] then None else Some (Min (set xs)))"

definition opt_max :: "nat list \<Rightarrow> nat option" where
  "opt_max xs = (if xs = [] then None else Some (Max (set xs)))"

definition busy_times :: "kernel_state list \<Rightarrow> nat list" where
  "busy_times ss = List.map_filter ks_busy_since (filter (\<lambda>s. ks_status s = Busy) ss)"

definition idle_times :: "kernel_state list \<Rightarrow> nat list" where
  "idle_times ss = List.map_filter ks_idle_since (filter (\<lambda>s. ks_status s \<noteq> Busy) ss)"

definition tally_of :: "kernel_state list \<Rightarrow> tally" where
  "tally_of ss =
     \<lparr>ta_busy = (\<exists>s \<in> set ss. ks_status s = Busy),
      ta_active = int (length (filter (\<lambda>s. ks_status s \<noteq> Exited) ss)),
      ta_earliest_busy = opt_min (busy_times ss), ta_latest_idle = opt_max (idle_times ss)\<rparr>"

lemma opt_min_snoc: "opt_min (xs @ [x]) = Some (case opt_min xs of Some m \<Rightarrow> if x < m then x else m | None \<Rightarrow> x)"
proof (cases "xs = []")
  case False
  obtain m where m: "Min (set xs) = m"
    by simp
  then have "opt_min xs = Some m" "opt_min (xs @ [x]) = Some (min x m)"
    using False by (simp_all add: opt_min_def)
  then show ?thesis
    by (simp add: min_def)
qed (simp add: opt_min_def)

lemma opt_max_snoc: "opt_max (xs @ [x]) = Some (case opt_max xs of Some m \<Rightarrow> if x > m then x else m | None \<Rightarrow> x)"
proof (cases "xs = []")
  case False
  obtain m where m: "Max (set xs) = m"
    by simp
  then have "opt_max xs = Some m" "opt_max (xs @ [x]) = Some (max x m)"
    using False by (simp_all add: opt_max_def)
  then show ?thesis
    by (simp add: max_def)
qed (simp add: opt_max_def)

lemma map_filter_snoc: "List.map_filter f (xs @ [x]) = List.map_filter f xs @ (case f x of Some y \<Rightarrow> [y] | None \<Rightarrow> [])"
  by (auto simp: List.map_filter_def split: option.split)

lemma busy_times_snoc:
  "busy_times (ss @ [s]) = busy_times ss @ (if ks_status s = Busy then (case ks_busy_since s of Some t \<Rightarrow> [t] | None \<Rightarrow> []) else [])"
  by (simp add: busy_times_def map_filter_snoc)

lemma idle_times_snoc:
  "idle_times (ss @ [s]) = idle_times ss @ (if ks_status s \<noteq> Busy then (case ks_idle_since s of Some t \<Rightarrow> [t] | None \<Rightarrow> []) else [])"
  by (simp add: idle_times_def map_filter_snoc)

lemma tally_step: "tally_session s (tally_of ss) = tally_of (ss @ [s])"
  by (cases "ks_busy_since s"; cases "ks_idle_since s")
     (auto simp: tally_session_def tally_of_def Let_def busy_times_snoc idle_times_snoc opt_min_snoc opt_max_snoc split: option.split)

lemma tally_exact: "fold tally_session ss tally_new = tally_of ss"
proof -
  have "fold tally_session ss (tally_of pre) = tally_of (pre @ ss)" for pre
    by (induction ss arbitrary: pre) (simp_all add: tally_step)
  from this [of "[]"] show ?thesis
    by (simp add: tally_of_def tally_new_def busy_times_def idle_times_def opt_min_def opt_max_def List.map_filter_def)
qed

section \<open>Properties\<close>


definition sample_server :: "string server" where
  "sample_server =
     \<lparr>sv_token = Some ''secret'', sv_started = 0, sv_server_id = ''id'', sv_sessions = [], sv_clients = [], sv_reserved = [],
      sv_idle_hours = None, sv_log_level = None, sv_interval = 1000, sv_include_children = True, sv_uses_sockets = False,
      sv_active_sockets = [], sv_idle_nudge_tx = chan_new, sv_idle_config_tx = chan_new, sv_interval_tx = chan_new,
      sv_mcp = mcp_new chan_new\<rparr>"




text \<open>Two creations whose checks both come before their insertions.\<close>

definition session_race ::
  "'m codec \<Rightarrow> host \<Rightarrow> auth_data option \<Rightarrow> new_session \<Rightarrow> new_session \<Rightarrow> string \<Rightarrow> 'm server \<Rightarrow> (response \<times> response) \<times> 'm server" where
  "session_race cd h auth s1 s2 err sv =
     (case (refuse_session h auth s1 sv, refuse_session h auth s2 sv) of
        (None, None) \<Rightarrow>
          (let (r1, sv) = insert_session cd h s1 err sv; (r2, sv) = insert_session cd h s2 err sv in ((r1, r2), sv))
      | (Some r1, None) \<Rightarrow> (let (r2, sv) = insert_session cd h s2 err sv in ((r1, r2), sv))
      | (None, Some r2) \<Rightarrow> (let (r1, sv) = insert_session cd h s1 err sv in ((r1, r2), sv))
      | (Some r1, Some r2) \<Rightarrow> ((r1, r2), sv))"

text \<open>
  Two clients that create a session of the same name at the same time can both succeed. The
  check for the name and the insertion take the lock separately, so both can pass the check before
  either inserts; one at a time, the second is refused.
\<close>

theorem racing_creations_duplicate:
  assumes "refuse_session h auth s sv = None" and "mac_new cd (h_fresh_key h) \<noteq> None"
  shows "(let (r, sv') = session_race cd h auth s s err sv in
      r = (SessionCreated (ns_session_id s), SessionCreated (ns_session_id s)) \<and> \<not> distinct (ids sv')) \<and>
    (let (r1, sv1) = handle_new_session cd h auth s err sv; (r2, sv2) = handle_new_session cd h auth s err sv1 in
      r1 = SessionCreated (ns_session_id s) \<and> r2 = InvalidRequest (to_json (SessionExists (ns_session_id s)) None) \<and> sv2 = sv1)"
proof -
  obtain k where k: "kernel_session_new cd (h_now h) s (h_fresh_key h) (sv_idle_nudge_tx sv) = Some k"
      "session_id k = ns_session_id s"
    using assms(2) by (auto simp: kernel_session_new_def from_session_def session_id_def)
  have "refuse_session h auth s (sv\<lparr>sv_sessions := sv_sessions sv @ [k]\<rparr>) =
      Some (InvalidRequest (to_json (SessionExists (ns_session_id s)) None))"
    using assms(1) k(2) by (auto simp: refuse_session_def validate_token_def split: if_splits)
  then show ?thesis
    using assms(1) k by (simp add: session_race_def handle_new_session_def insert_session_def ids_def Let_def)
qed

definition sample_host :: host where
  "sample_host = \<lparr>h_now = 5, h_pid = 7, h_version = ''1'', h_is_file = (\<lambda>_. True), h_path = Some ''/bin'',
     h_terminate = (\<lambda>_. True), h_fresh_id = ''x'', h_fresh_key = ''k'', h_socket_path = (\<lambda>i. ''/tmp/'' @ i),
     h_bind_socket = (\<lambda>_. Inr ()), h_os = sample_os\<rparr>"

lemma sample_not_refused: "refuse_session sample_host (Some (Bearer ''secret'')) sample_session sample_server = None"
  by (simp add: refuse_session_def validate_token_def sample_server_def kernel_exists_def sample_host_def)

lemma sample_key: "mac_new sample_codec (h_fresh_key sample_host) \<noteq> None"
  by (simp add: sample_codec_def table_codec_def sample_host_def)

theorem racing_creations_duplicate_witness:
  "\<not> distinct (ids (snd (session_race sample_codec sample_host (Some (Bearer ''secret'')) sample_session sample_session []
     sample_server)))"
  using racing_creations_duplicate [OF sample_not_refused sample_key, of "[]"] by (auto simp: split_def Let_def)

text \<open>
  A session that was created and never started cannot be got rid of. It is reported idle, so
  deleting it is refused because it is running and killing it is refused because it has no
  process, and both leave it where it is; it also counts among the running sessions that a
  shutdown of the server waits for, although no process of its can ever exit.
\<close>

theorem unstarted_session_is_stuck:
  assumes "server_ok sv" and "handle_new_session cd h auth s err sv = (SessionCreated i, sv')"
  shows "\<exists>k. find_session i sv' = Some k \<and> kn_state k \<in> set (running_sessions (map kn_state (sv_sessions sv'))) \<and>
    ks_process_id (kn_state k) = None \<and>
    delete_session auth i sv' = (DeleteFailed (to_json (SessionRunning i) None), sv') \<and>
    (\<exists>sv''. kill_session h auth i sv' = (KillFailed (to_json (NoProcess i) None), sv'') \<and> ids sv'' = ids sv')"
proof -
  have ref: "refuse_session h auth s sv = None"
    using assms(2) by (auto simp: handle_new_session_def refuse_session_def split: option.splits if_splits)
  obtain k where k: "kernel_session_new cd (h_now h) s (h_fresh_key h) (sv_idle_nudge_tx sv) = Some k"
      and sv': "sv' = sv\<lparr>sv_sessions := sv_sessions sv @ [k]\<rparr>" and i: "i = ns_session_id s"
    using assms(2) ref by (auto simp: handle_new_session_def insert_session_def split: option.splits)
  have k': "session_id k = i" "ks_status (kn_state k) = Idle" "ks_process_id (kn_state k) = None"
    using k i by (auto simp: kernel_session_new_def from_session_def session_id_def kn_state_def state_new_def split: option.splits)
  have "\<forall>x \<in> set (sv_sessions sv). session_id x \<noteq> i"
    using ref i by (auto simp: refuse_session_def list_ex_iff split: if_splits)
  then have find: "find_session i sv' = Some k"
    using k'(1) sv' by (simp add: find_session_def find_snoc)
  have valid: "validate_token sv' auth"
    using ref sv' by (auto simp: refuse_session_def validate_token_def split: if_splits)
  have "kn_state k \<in> set (running_sessions (map kn_state (sv_sessions sv')))"
    using k'(2) sv' by (auto simp: running_sessions_def session_runs_def)
  moreover have "ids (put_session i ctl sv') = ids sv'" for ctl
    by (auto simp: ids_def put_session_def session_id_def intro!: map_update_first)
  ultimately show ?thesis
    using find k' valid by (auto simp: delete_session_def kill_session_def Let_def)
qed

theorem unstarted_session_is_stuck_witness:
  "\<exists>sv'. snd (handle_new_session sample_codec sample_host (Some (Bearer ''secret'')) sample_session [] sample_server) = sv' \<and>
     delete_session (Some (Bearer ''secret'')) ''s'' sv' = (DeleteFailed (to_json (SessionRunning ''s'') None), sv')"
proof -
  let ?n = "handle_new_session sample_codec sample_host (Some (Bearer ''secret'')) sample_session [] sample_server"
  have "ns_session_id sample_session = ''s''"
    by (simp add: sample_session_def)
  then have "?n = (SessionCreated ''s'', snd ?n)"
    using sample_not_refused sample_key
    by (auto simp: handle_new_session_def insert_session_def kernel_session_new_def from_session_def)
  moreover have "server_ok sample_server"
    by (simp add: server_ok_def ids_def sample_server_def)
  ultimately show ?thesis
    using unstarted_session_is_stuck [of sample_server sample_codec sample_host "Some (Bearer ''secret'')" sample_session "[]" "''s''" "snd ?n"]
    by auto
qed

text \<open>
  The status report is exact: the server is busy if some session is, it has been busy since
  the earliest of them became so, and it has been idle since the last of the others did; the
  sessions that have not exited are counted. With no sessions it has been idle since it started.
\<close>

theorem status_report_exact:
  "handle_server_status h sv =
     (let ss = map kn_state (sv_sessions sv); up = as_i32 (int (h_now h - sv_started sv)) in
      TheStatus
        \<lparr>st_sessions = as_i32 (int (length ss)), st_active = int (length (filter (\<lambda>s. ks_status s \<noteq> Exited) ss)),
         st_busy = (\<exists>s \<in> set ss. ks_status s = Busy),
         st_idle_seconds = (if ss = [] then up else seconds_since (h_now h) (opt_max (idle_times ss))),
         st_busy_seconds = seconds_since (h_now h) (opt_min (busy_times ss)), st_uptime_seconds = up,
         st_version = h_version h, st_process_id = as_i32 (int (h_pid h)), st_started = started_datetime h sv,
         st_server_id = Some (sv_server_id sv),
         st_mcp = Some (mcp_status_of (sv_mcp sv))\<rparr>)"
  by (simp add: handle_server_status_def tally_exact tally_of_def Let_def)

text \<open>
  A change of the configuration is not all or nothing: one that is rejected for its sampling
  interval has by then already set the idle limit, for the idle task as well as for later readers.
\<close>

theorem rejected_configuration_takes_effect:
  assumes "n < 65536" and "ch_open (sv_idle_config_tx sv)" and "interval < 0"
    and "sc_idle_shutdown_hours c = Some (int n)" and "sc_resource_sample_interval_ms c = Some interval"
  shows "\<exists>sv'. set_server_configuration err c sv =
      (config_error ''400'' ''resource_sample_interval_ms must be non-negative'' None, sv') \<and>
    sv_idle_hours sv' = Some n \<and> ch_buf (sv_idle_config_tx sv') = ch_buf (sv_idle_config_tx sv) @ [Some n]"
  using assms by (simp add: set_server_configuration_def set_idle_hours_def set_interval_def Let_def chan_send_def)

theorem rejected_configuration_takes_effect_witness:
  "\<exists>sv'. set_server_configuration [] \<lparr>sc_idle_shutdown_hours = Some 2, sc_resource_sample_interval_ms = Some (- 1),
      sc_resource_include_children = None, sc_log_level = None\<rparr> sample_server =
      (config_error ''400'' ''resource_sample_interval_ms must be non-negative'' None, sv') \<and> sv_idle_hours sv' = Some 2"
proof -
  have "ch_open (sv_idle_config_tx sample_server)"
    by (simp add: sample_server_def chan_new_def)
  then show ?thesis
    using rejected_configuration_takes_effect [of 2 sample_server "- 1" "\<lparr>sc_idle_shutdown_hours = Some 2,
        sc_resource_sample_interval_ms = Some (- 1), sc_resource_include_children = None, sc_log_level = None\<rparr>" "[]"]
    by auto
qed

end
