(* ===== verification/KC_Channel.thy ===== *)
theory KC_Channel
  imports KC_Endpoint
begin

text \<open>
  \<open>mcp/channel.rs\<close> and the part of \<open>mcp/workspaces.rs\<close> that waits: the pump behind a window's
  WebSocket, and a command on its way through a window and back.

  A task that waits gives way to the others, so both take what happens meanwhile as an argument:
  the pump the messages its two sides yield, a command the registry operations of the other tasks.
  A task that is woken is taken to resume before the next of these.
\<close>

section \<open>The window's WebSocket\<close>

datatype pump_event =
    Outbound server_frontend_message "string option" bool
  | OutboundClosed
  | InboundText string
  | InboundOther
  | InboundClose
  | InboundError

text \<open>
  \<open>Outbound\<close> carries the rendered message, if it can be rendered, and whether the socket takes it.
  \<open>parse\<close> reads a frame. The frames written are collected in order; the last component says
  whether the loop has ended.
\<close>

fun pump :: "(string \<Rightarrow> frontend_message option) \<Rightarrow> string \<Rightarrow> nat \<Rightarrow> pump_event list \<Rightarrow> string list \<times> registry \<Rightarrow>
     (string list \<times> registry) \<times> bool" where
  "pump parse i g [] s = (s, False)"
| "pump parse i g (e # es) (out, reg) =
     (case e of
        Outbound _ None _ \<Rightarrow> pump parse i g es (out, reg)
      | Outbound _ (Some text) True \<Rightarrow> pump parse i g es (out @ [text], reg)
      | Outbound _ (Some text) False \<Rightarrow> ((out, reg), True)
      | OutboundClosed \<Rightarrow> ((out, reg), True)
      | InboundText text \<Rightarrow>
          (case parse text of
             Some m \<Rightarrow> pump parse i g es (out, snd (handle_message i g m reg))
           | None \<Rightarrow> pump parse i g es (out, reg))
      | InboundOther \<Rightarrow> pump parse i g es (out, reg)
      | InboundClose \<Rightarrow> ((out, reg), True)
      | InboundError \<Rightarrow> ((out, reg), True))"

definition channel_run ::
  "(string \<Rightarrow> frontend_message option) \<Rightarrow> instant \<Rightarrow> string \<Rightarrow> pump_event list \<Rightarrow> registry \<Rightarrow> string list \<times> registry \<times> bool" where
  "channel_run parse now i es reg =
     (case attach_channel i chan_new reg of
        (None, reg) \<Rightarrow> ([], reg, True)
      | (Some g, reg) \<Rightarrow>
          (case pump parse i g es ([], reg) of
             ((out, reg), False) \<Rightarrow> (out, reg, False)
           | ((out, reg), True) \<Rightarrow> (out, detach_channel now i g reg, True)))"

section \<open>A command\<close>

datatype command_outcome =
    Replied command_reply
  | Disconnected "instant option"
  | TimedOut
  | UnknownWorkspace

text \<open>The reply an operation hands to the task that waits for request \<open>k\<close>.\<close>

definition answered :: "string \<Rightarrow> string \<Rightarrow> registry_op \<Rightarrow> registry \<Rightarrow> command_reply option" where
  "answered i k op reg =
     (case op of
        Message j g m \<Rightarrow>
          (if j = i then
             (case fst (handle_message i g m reg) of
                Some r \<Rightarrow> if cp_id r = k then Some r else None
              | None \<Rightarrow> None)
           else None)
      | _ \<Rightarrow> None)"

definition awaited :: "string \<Rightarrow> string \<Rightarrow> registry \<Rightarrow> bool" where
  "awaited i k reg \<longleftrightarrow>
     (case map_of reg i of Some w \<Rightarrow> map_of (ws_pending w) k \<noteq> None | None \<Rightarrow> False)"

text \<open>
  Waiting for the reply: it arrives, or the sender is dropped with the pending entry, or the time
  is up, which is when the operations have run out.
\<close>

fun await_reply :: "string \<Rightarrow> string \<Rightarrow> registry_op list \<Rightarrow> registry \<Rightarrow> command_outcome \<times> registry" where
  "await_reply i k [] reg = (TimedOut, cancel_pending i k reg)"
| "await_reply i k (op # ops) reg =
     (let reg' = registry_step op reg in
      case answered i k op reg of
        Some r \<Rightarrow> (Replied r, reg')
      | None \<Rightarrow>
          if awaited i k reg' then await_reply i k ops reg'
          else (Disconnected (snd (connection_state i reg')), reg'))"

text \<open>
  Waiting for a window: each turn is what the others do until the notification, and the time when
  it comes; without another turn the deadline passes, after the operations \<open>late\<close>.
\<close>

fun run_command ::
  "string \<Rightarrow> command_request \<Rightarrow> instant \<Rightarrow> (registry_op list \<times> instant) list \<Rightarrow> registry_op list \<Rightarrow> registry \<Rightarrow>
     command_outcome \<times> registry" where
  "run_command i req now turns late reg =
     (case enqueue now i req reg of
        (Inl _, reg) \<Rightarrow> (UnknownWorkspace, reg)
      | (Inr True, reg) \<Rightarrow> await_reply i (cr_id req) late reg
      | (Inr False, reg) \<Rightarrow>
          (case turns of
             [] \<Rightarrow> (let reg = fold registry_step late reg in (Disconnected (snd (connection_state i reg)), reg))
           | (ops, now') # turns \<Rightarrow> run_command i req now' turns late (fold registry_step ops reg)))"

section \<open>What is waiting\<close>

lemma awaited_update: "awaited i k (AList.update j w reg) \<longleftrightarrow>
    (if j = i then map_of (ws_pending w) k \<noteq> None else awaited i k reg)"
  by (simp add: awaited_def update_conv')

lemma pending_broadcast [simp]: "ws_pending (broadcast_clients w) = ws_pending w"
  by (simp add: broadcast_clients_def)

lemma pending_close [simp]: "ws_pending (close_window g w) = ws_pending w"
  by (simp add: close_window_def)

lemma pending_dispatch [simp]: "ws_pending (snd (dispatch req w)) = ws_pending w"
  using dispatch_pending [of req w] by (cases "dispatch req w") simp

lemma pending_attach [simp]: "ws_pending (snd (attach tx w)) = ws_pending w"
  by (simp add: attach_def Let_def)

lemma pending_focus [simp]: "ws_pending (focus g w) = ws_pending w"
  by (auto simp: focus_def Let_def split: option.split)

lemma pending_frontend: "map_of (ws_pending w) k = None \<Longrightarrow> map_of (ws_pending (snd (handle_frontend g m w))) k = None"
  by (cases m) (auto simp: Let_def delete_conv' split: option.split)

lemma pending_reassign: "map_of (ws_pending w) k = None \<Longrightarrow> map_of (ws_pending (reassign is w)) k = None"
proof (induction "is" arbitrary: w)
  case (Cons j "is")
  show ?case
  proof (cases "map_of (ws_pending w) j")
    case None
    then show ?thesis
      using Cons by simp
  next
    case (Some p)
    let ?w = "w\<lparr>ws_pending := AList.delete j (ws_pending w)\<rparr>"
    obtain r w' where d: "dispatch (pd_request p) ?w = (r, w')"
      by fastforce
    have "ws_pending w' = AList.delete j (ws_pending w)"
      using dispatch_pending [OF d] by simp
    moreover have "k \<noteq> j"
      using Cons.prems Some by auto
    ultimately show ?thesis
      using Cons Some d by (cases r) (simp_all add: delete_conv' update_conv')
  qed
qed simp

lemma pending_detach: "map_of (ws_pending w) k = None \<Longrightarrow> map_of (ws_pending (detach now g w)) k = None"
  by (auto simp: detach_def Let_def intro!: pending_reassign)

text \<open>Only enqueueing makes a request wait.\<close>

definition foreign :: "string \<Rightarrow> string \<Rightarrow> registry_op \<Rightarrow> bool" where
  "foreign i k op \<longleftrightarrow> (case op of Enqueue _ j req \<Rightarrow> j \<noteq> i \<or> cr_id req \<noteq> k | _ \<Rightarrow> True)"

lemma awaited_modify:
  assumes "\<And>w. map_of (ws_pending w) k = None \<Longrightarrow> map_of (ws_pending (f w)) k = None" and "\<not> awaited i k reg"
  shows "\<not> awaited i k (case map_of reg j of None \<Rightarrow> reg | Some w \<Rightarrow> AList.update j (f w) reg)"
  using assms by (auto simp: awaited_update split: option.split) (auto simp: awaited_def)

lemma not_awaited_register:
  assumes "register ss t r reg = Some (x, reg')" and "\<not> awaited i k reg"
  shows "\<not> awaited i k reg'"
proof -
  obtain j w where "reg' = AList.update j w reg" "ws_pending w = [] \<or> (\<exists>v. map_of reg j = Some v \<and> ws_pending w = ws_pending v)"
    using assms(1) by (auto simp: register_def Let_def workspace_new_def split: option.splits prod.splits if_splits)
  then show ?thesis
    using assms(2) by (auto simp: awaited_update) (auto simp: awaited_def)
qed

lemma not_awaited_enqueue:
  assumes "j \<noteq> i \<or> cr_id req \<noteq> k" and "\<not> awaited i k reg"
  shows "\<not> awaited i k (snd (enqueue now j req reg))"
proof (cases "map_of reg j")
  case (Some w)
  obtain r w' where d: "dispatch req w = (r, w')"
    by fastforce
  have "ws_pending w' = ws_pending w"
    by (rule dispatch_pending [OF d])
  moreover have "map_of (ws_pending w) k = None" if "j = i"
    using assms(2) Some that by (simp add: awaited_def)
  ultimately show ?thesis
    using assms Some d by (cases r) (auto simp: enqueue_def awaited_update update_conv')
qed (use assms in \<open>simp add: enqueue_def\<close>)

lemma not_awaited_step:
  assumes op: "foreign i k op" and "\<not> awaited i k reg"
  shows "\<not> awaited i k (registry_step op reg)"
proof (cases op)
  case (Register ss t r)
  then show ?thesis
    using not_awaited_register [OF _ assms(2)] assms(2) by (auto split: option.split)
next
  case (Deregister j)
  have "\<not> awaited i k (AList.delete j reg)"
    using assms(2) by (simp add: awaited_def delete_conv')
  then show ?thesis
    using Deregister assms(2) by (auto simp: deregister_def split: option.split)
next
  case (AddClient now j c)
  then show ?thesis
    using assms(2) by (auto simp: add_client_def Let_def awaited_update split: option.split) (auto simp: awaited_def)
next
  case (RemoveClient j c)
  then show ?thesis
    using assms(2) by (auto simp: remove_client_def awaited_update split: option.split) (auto simp: awaited_def)
next
  case (AttachChannel j tx)
  then show ?thesis
    using assms(2) by (auto simp: attach_channel_def Let_def awaited_update split_def split: option.split) (auto simp: awaited_def)
next
  case (Message j g m)
  then show ?thesis
    using assms(2) pending_frontend
    by (auto simp: handle_message_def Let_def awaited_update split_def split: option.split) (auto simp: awaited_def)
next
  case (Enqueue now j req)
  then show ?thesis
    using not_awaited_enqueue [of j i req k reg now] assms by (simp add: foreign_def)
next
  case (CancelPending j k')
  then show ?thesis
    using awaited_modify [of k "\<lambda>w. w\<lparr>ws_pending := AList.delete k' (ws_pending w)\<rparr>", OF _ assms(2)]
    by (simp add: cancel_pending_def delete_conv')
next
  case (DetachChannel now j g)
  then show ?thesis
    using awaited_modify [OF pending_detach assms(2)] by (simp add: detach_channel_def)
next
  case (WindowGone j g)
  then show ?thesis
    using awaited_modify [of k "close_window g", OF _ assms(2)] by simp
qed

lemma not_awaited_run: "\<forall>op \<in> set ops. foreign i k op \<Longrightarrow> \<not> awaited i k reg \<Longrightarrow> \<not> awaited i k (fold registry_step ops reg)"
  by (induction ops arbitrary: reg) (simp_all add: not_awaited_step)

lemma answered_spec:
  assumes "answered i k op reg = Some r"
  shows "(\<exists>g. op = Message i g (CommandReply r)) \<and> cp_id r = k \<and> \<not> awaited i k (registry_step op reg)"
proof -
  obtain g m where op: "op = Message i g m" and h: "fst (handle_message i g m reg) = Some r" and k: "cp_id r = k"
    using assms by (auto simp: answered_def split: registry_op.splits if_splits option.splits)
  then obtain w where w: "map_of reg i = Some w" "fst (handle_frontend g m w) = Some r"
    by (auto simp: handle_message_def Let_def split_def split: option.splits)
  then have "m = CommandReply r"
    by (cases m) (auto simp: Let_def split: option.splits)
  then show ?thesis
    using op k w by (auto simp: handle_message_def Let_def awaited_update delete_conv' split: option.splits)
qed

lemma await_reply_spec:
  assumes "await_reply i k ops reg = (r, reg')"
  shows "\<not> awaited i k reg' \<and> (case r of
      Replied x \<Rightarrow> cp_id x = k \<and> (\<exists>g. Message i g (CommandReply x) \<in> set ops)
    | UnknownWorkspace \<Rightarrow> False | _ \<Rightarrow> True)"
  using assms
proof (induction ops arbitrary: reg)
  case Nil
  then show ?case
    by (auto simp: cancel_pending_def awaited_def update_conv' delete_conv' split: option.splits)
next
  case (Cons op ops)
  show ?case
  proof (cases "answered i k op reg")
    case (Some x)
    then show ?thesis
      using Cons.prems answered_spec [OF Some] by auto
  next
    case None
    then show ?thesis
      using Cons.IH [of "registry_step op reg"] Cons.prems
      by (fastforce simp: Let_def split: if_splits command_outcome.splits)
  qed
qed

lemma enqueue_cases:
  assumes "\<not> awaited i (cr_id req) reg"
  obtains (unknown) "enqueue now i req reg = (Inl (), reg)" and "map_of reg i = None"
  | (refused) reg1 where "enqueue now i req reg = (Inr False, reg1)" and "\<not> awaited i (cr_id req) reg1"
  | (taken) reg1 where "enqueue now i req reg = (Inr True, reg1)"
proof (cases "map_of reg i")
  case None
  then show ?thesis
    by (intro unknown) (simp_all add: enqueue_def)
next
  case (Some w)
  obtain r w' where d: "dispatch req w = (r, w')"
    by fastforce
  have none: "map_of (ws_pending w') (cr_id req) = None"
    using assms Some dispatch_pending [OF d] by (simp add: awaited_def)
  show ?thesis
  proof (cases r)
    case None
    have "enqueue now i req reg = (Inr False, AList.update i
        (w'\<lparr>ws_disconnected_since := (case ws_disconnected_since w' of None \<Rightarrow> Some now | s \<Rightarrow> s)\<rparr>) reg)"
      using Some d None by (simp add: enqueue_def)
    then show ?thesis
      by (rule refused) (simp add: awaited_update none)
  next
    case (Some g)
    then show ?thesis
      using \<open>map_of reg i = Some w\<close> d by (intro taken) (simp add: enqueue_def)
  qed
qed

section \<open>The pump\<close>

fun pump_ends :: "pump_event \<Rightarrow> bool" where
  "pump_ends (Outbound _ (Some _) ok) \<longleftrightarrow> \<not> ok"
| "pump_ends (Outbound _ None _) \<longleftrightarrow> False"
| "pump_ends (InboundText _) \<longleftrightarrow> False"
| "pump_ends InboundOther \<longleftrightarrow> False"
| "pump_ends _ \<longleftrightarrow> True"

definition pump_written :: "pump_event list \<Rightarrow> string list" where
  "pump_written es = List.map_filter (\<lambda>e. case e of Outbound _ (Some t) True \<Rightarrow> Some t | _ \<Rightarrow> None) es"

definition pump_heard :: "(string \<Rightarrow> frontend_message option) \<Rightarrow> pump_event list \<Rightarrow> frontend_message list" where
  "pump_heard parse es = List.map_filter (\<lambda>e. case e of InboundText t \<Rightarrow> parse t | _ \<Rightarrow> None) es"

definition hears :: "string \<Rightarrow> nat \<Rightarrow> frontend_message \<Rightarrow> registry \<Rightarrow> registry" where
  "hears i g m reg = snd (handle_message i g m reg)"

lemma pump_exact:
  "pump parse i g es (out, reg) =
     (let es' = takeWhile (\<lambda>e. \<not> pump_ends e) es
      in ((out @ pump_written es', fold (hears i g) (pump_heard parse es') reg), list_ex pump_ends es))"
proof (induction es arbitrary: out reg)
  case (Cons e es)
  show ?case
  proof (cases e)
    case (Outbound m t ok)
    then show ?thesis
      using Cons.IH by (cases t; cases ok) (simp_all add: Let_def pump_written_def pump_heard_def map_filter_simps)
  next
    case (InboundText t)
    then show ?thesis
      using Cons.IH by (cases "parse t") (simp_all add: Let_def pump_written_def pump_heard_def map_filter_simps hears_def)
  qed (simp_all add: Cons.IH Let_def pump_written_def pump_heard_def map_filter_simps)
qed (simp add: pump_written_def pump_heard_def map_filter_simps)

lemma generations_reassign: "generations (reassign is w) \<subseteq> generations w"
proof (induction "is" arbitrary: w)
  case (Cons j "is")
  have step: "generations (reassign is w1) \<subseteq> generations w"
    if "dispatch req (w\<lparr>ws_pending := p\<rparr>) = (r, w1)" for req p r w1
    using Cons.IH [of w1] dispatch_frame [where req = req and w = "w\<lparr>ws_pending := p\<rparr>"] that
    by (auto simp: generations_def)
  have upd: "generations (reassign is (w1\<lparr>ws_pending := q\<rparr>)) \<subseteq> generations w"
    if "dispatch req (w\<lparr>ws_pending := p\<rparr>) = (r, w1)" for req p r w1 q
    using Cons.IH [of "w1\<lparr>ws_pending := q\<rparr>"] dispatch_frame [where req = req and w = "w\<lparr>ws_pending := p\<rparr>"] that
    by (auto simp: generations_def)
  show ?case
    using Cons.IH [of w] step upd by (auto split: option.split prod.split)
qed simp

lemma detach_gone: "g \<notin> generations (detach now g w)"
proof -
  let ?w = "w\<lparr>ws_channels := filter (\<lambda>c. fc_generation c \<noteq> g) (ws_channels w)\<rparr>"
  have "g \<notin> generations ?w"
    by (auto simp: generations_def)
  then have "g \<notin> generations (reassign is ?w)" for "is"
    using generations_reassign [of "is" ?w] by blast
  moreover have "generations (v\<lparr>ws_disconnected_since := x, ws_pending := y\<rparr>) = generations v" for v x y
    by (simp add: generations_def)
  ultimately show ?thesis
    by (simp add: detach_def Let_def)
qed

section \<open>Properties\<close>

text \<open>
  However a command ends, nothing of it is left behind in the registry: no request is still
  waiting under its identifier, so neither a late reply nor a window that closes can revive it.
  A command that reports a reply got one from a window of its own workspace that names the
  request, and it reports an unknown workspace only when there is none.
\<close>

theorem finished_command_leaves_nothing:
  assumes "run_command i req now turns late reg = (r, reg')" and "\<not> awaited i (cr_id req) reg"
    and "\<forall>op \<in> set late. foreign i (cr_id req) op" and "\<forall>(ops, _) \<in> set turns. \<forall>op \<in> set ops. foreign i (cr_id req) op"
  shows "\<not> awaited i (cr_id req) reg' \<and> (case r of
      Replied x \<Rightarrow> cp_id x = cr_id req \<and> (\<exists>g. Message i g (CommandReply x) \<in> set late)
    | UnknownWorkspace \<Rightarrow> map_of reg' i = None
    | _ \<Rightarrow> True)"
  using assms
proof (induction turns arbitrary: now reg)
  case Nil
  from Nil.prems(2) show ?case
  proof (cases rule: enqueue_cases [where now = now])
    case unknown
    then show ?thesis
      using Nil.prems by (auto simp: awaited_def)
  next
    case (refused reg1)
    then show ?thesis
      using Nil.prems not_awaited_run [of late i "cr_id req" reg1] by (auto simp: Let_def)
  next
    case (taken reg1)
    then show ?thesis
      using Nil.prems await_reply_spec [of i "cr_id req" late reg1 r reg'] by (auto split: command_outcome.splits)
  qed
next
  case (Cons t turns)
  obtain ops now' where t: "t = (ops, now')"
    by fastforce
  from Cons.prems(2) show ?case
  proof (cases rule: enqueue_cases [where now = now])
    case unknown
    then show ?thesis
      using Cons.prems by (auto simp: awaited_def)
  next
    case (refused reg1)
    have "\<not> awaited i (cr_id req) (fold registry_step ops reg1)"
      using Cons.prems(4) t refused(2) by (intro not_awaited_run) auto
    then show ?thesis
      using Cons.IH [of now' "fold registry_step ops reg1"] Cons.prems t refused(1) by simp
  next
    case (taken reg1)
    then show ?thesis
      using Cons.prems(1) await_reply_spec [of i "cr_id req" late reg1 r reg'] by (auto split: command_outcome.splits)
  qed
qed

definition sample_reply :: command_reply where
  "sample_reply = \<lparr>cp_id = ''d'', cp_ok = True, cp_result = None, cp_reason = None, cp_message = None\<rparr>"

theorem finished_command_leaves_nothing_witness:
  "let x = run_command ''proj'' (sample_command\<lparr>cr_id := ''d''\<rparr>) 0 [] [Message ''proj'' 1 (CommandReply sample_reply)]
        [(''proj'', sample_workspace)]
   in fst x = Replied sample_reply \<and> \<not> awaited ''proj'' ''d'' (snd x)"
proof -
  let ?x = "run_command ''proj'' (sample_command\<lparr>cr_id := ''d''\<rparr>) 0 [] [Message ''proj'' 1 (CommandReply sample_reply)]
        [(''proj'', sample_workspace)]"
  have "fst ?x = Replied sample_reply"
    by (simp add: enqueue_def dispatch.simps primary_def sample_ws chan_send_def chan_new_def Let_def answered_def
        handle_message_def sample_reply_def)
  moreover have "\<not> awaited ''proj'' ''d'' (snd ?x)"
    using finished_command_leaves_nothing [of "''proj''" "sample_command\<lparr>cr_id := ''d''\<rparr>" 0 "[]"
        "[Message ''proj'' 1 (CommandReply sample_reply)]" "[(''proj'', sample_workspace)]" "fst ?x" "snd ?x"]
    by (simp add: foreign_def awaited_def sample_ws del: run_command.simps)
  ultimately show ?thesis
    by (simp add: Let_def del: run_command.simps)
qed

text \<open>
  A window's connection does what its two sides say and then cleans up: until the first event
  that ends it, the messages that can be rendered are written in order and the frames that can be
  read are applied to the registry in order, under the generation the window was given on
  attaching; an unreadable frame is skipped. Once it has ended, no channel of that generation is
  left in the workspace.
\<close>

theorem window_channel_exact:
  assumes "attach_channel i chan_new reg = (Some g, reg1)"
  shows "let es' = takeWhile (\<lambda>e. \<not> pump_ends e) es;
             heard = fold (hears i g) (pump_heard parse es') reg1;
             reg' = (if list_ex pump_ends es then detach_channel now i g heard else heard)
         in channel_run parse now i es reg = (pump_written es', reg', list_ex pump_ends es) \<and>
            (list_ex pump_ends es \<longrightarrow> (\<forall>w. map_of reg' i = Some w \<longrightarrow> g \<notin> generations w))"
proof -
  have "g \<notin> generations w" if "map_of (detach_channel now i g r) i = Some w" for r w
    using that detach_gone [of g now] by (auto simp: detach_channel_def update_conv' split: option.splits)
  then show ?thesis
    using assms by (cases "list_ex pump_ends es") (simp_all add: channel_run_def pump_exact Let_def)
qed

theorem window_channel_exact_witness:
  "fst (channel_run (\<lambda>_. None) 0 ''proj'' [Outbound (ClientsChanged []) (Some ''x'') True, InboundClose]
      [(''proj'', sample_workspace)]) = [''x'']"
proof -
  obtain g reg1 where "attach_channel ''proj'' chan_new [(''proj'', sample_workspace)] = (Some g, reg1)"
    by (auto simp: attach_channel_def attach_def Let_def)
  from window_channel_exact [OF this, of "[Outbound (ClientsChanged []) (Some ''x'') True, InboundClose]" "\<lambda>_. None" 0]
  show ?thesis
    by (simp add: Let_def pump_written_def map_filter_simps)
qed

end
