(* ===== verification/KC_Client.thy ===== *)
theory KC_Client
  imports KC_Idle "HOL-Library.Word"
begin

text \<open>
  \<open>client_session.rs\<close>: a client attached to a session. One loop relays the messages of the client
  to the kernel and those of the session to the client, and watches with pings whether the client
  is still there.

  What the \<open>select!\<close> wakes on is a list of events. Reading JSON text is a parameter. Counters are
  64-bit words, so the difference of the counters wraps, as it does in a release build.
\<close>

section \<open>The loop\<close>

datatype ws_frame = TextFrame websocket_message | PingFrame "64 word" | CloseFrame

record client_loop =
  cs_state :: kernel_state
  cs_zmq_tx :: "jupyter_message chan"
  cs_written :: "ws_frame list"
  cs_ping :: "64 word"
  cs_pong :: "64 word"

text \<open>
  A pong carries its eight bytes as a number, or is of another size (\<open>None\<close>). The flags say
  whether the socket takes what is written.
\<close>

datatype client_event =
    WsText string
  | WsPing
  | WsPong "64 word option"
  | WsBinary
  | WsFrame
  | WsClose
  | WsError
  | WsEnd
  | JsonReady bool
  | JsonClosed
  | Tick bool
  | Disconnect bool

datatype client_result = Stay | Leave | Crash

definition handle_ws_message :: "(string \<Rightarrow> jupyter_message option) \<Rightarrow> string \<Rightarrow> client_loop \<Rightarrow> client_loop" where
  "handle_ws_message parse data c =
     (case parse data of
        None \<Rightarrow> c
      | Some m \<Rightarrow> c\<lparr>cs_zmq_tx := chan_try m (cs_zmq_tx c)\<rparr>)"

definition write_frame :: "ws_frame \<Rightarrow> client_loop \<Rightarrow> client_loop" where
  "write_frame f c = c\<lparr>cs_written := cs_written c @ [f]\<rparr>"

definition disconnect_text :: string where
  "disconnect_text = ''Another client is connecting to this session.''"

text \<open>A message taken from the session's channel is gone, whether or not it could be written.\<close>

definition forward_json :: "bool \<Rightarrow> client_loop \<Rightarrow> client_loop" where
  "forward_json ok c =
     (case ch_buf (ks_ws_json_tx (cs_state c)) of
        [] \<Rightarrow> c
      | m # ms \<Rightarrow>
          (let c = c\<lparr>cs_state := (cs_state c)\<lparr>ks_ws_json_tx := (ks_ws_json_tx (cs_state c))\<lparr>ch_buf := ms\<rparr>\<rparr>\<rparr>
           in if ok then write_frame (TextFrame m) c else c))"

fun client_turn :: "(string \<Rightarrow> jupyter_message option) \<Rightarrow> client_event \<Rightarrow> client_loop \<Rightarrow> client_result \<times> client_loop" where
  "client_turn parse (WsText data) c = (if data = [] then (Leave, c) else (Stay, handle_ws_message parse data c))"
| "client_turn parse WsPing c = (Stay, c)"
| "client_turn parse (WsPong n) c = (Stay, case n of None \<Rightarrow> c | Some k \<Rightarrow> c\<lparr>cs_pong := k\<rparr>)"
| "client_turn parse WsBinary c = (Stay, c)"
| "client_turn parse WsFrame c = (Stay, c)"
| "client_turn parse WsClose c = (Leave, c)"
| "client_turn parse WsError c = (Leave, c)"
| "client_turn parse WsEnd c = (Leave, c)"
| "client_turn parse (JsonReady ok) c = (Stay, forward_json ok c)"
| "client_turn parse JsonClosed c = (Stay, c)"
| "client_turn parse (Tick ok) c =
     (if cs_ping c - cs_pong c > 3 then (Leave, c)
      else
        (let c = c\<lparr>cs_ping := cs_ping c + 1\<rparr>
         in if ok then (Stay, write_frame (PingFrame (cs_ping c)) c) else (Leave, c)))"
| "client_turn parse (Disconnect ok) c =
     (if ok then (Leave, write_frame CloseFrame (write_frame (TextFrame (Kernel (ClientDisconnected disconnect_text))) c))
      else (Crash, c))"

fun client_run :: "(string \<Rightarrow> jupyter_message option) \<Rightarrow> client_event list \<Rightarrow> client_loop \<Rightarrow> client_result \<times> client_loop" where
  "client_run parse [] c = (Stay, c)"
| "client_run parse (e # es) c =
     (case client_turn parse e c of
        (Stay, c) \<Rightarrow> client_run parse es c
      | (r, c) \<Rightarrow> (r, c))"

section \<open>A connection\<close>

definition client_begin :: "string option \<Rightarrow> kernel_state \<Rightarrow> kernel_state" where
  "client_begin path s = set_client_socket_path path (set_connected True s)"

definition client_end :: "kernel_state \<Rightarrow> kernel_state" where
  "client_end s = set_client_socket_path None (s\<lparr>ks_connected := False\<rparr>)"

definition handle_websocket_stream ::
  "(string \<Rightarrow> jupyter_message option) \<Rightarrow> string option \<Rightarrow> client_event list \<Rightarrow> kernel_state \<Rightarrow> jupyter_message chan \<Rightarrow>
     client_result \<times> client_loop" where
  "handle_websocket_stream parse path es s tx =
     (case client_run parse es
        \<lparr>cs_state = client_begin path s, cs_zmq_tx = tx, cs_written = [], cs_ping = 0, cs_pong = 0\<rparr> of
        (Leave, c) \<Rightarrow> (Leave, c\<lparr>cs_state := client_end (cs_state c)\<rparr>)
      | (r, c) \<Rightarrow> (r, c))"

section \<open>Lemmas\<close>

lemma client_run_append:
  "client_run parse (es @ es') c =
     (case client_run parse es c of (Stay, c) \<Rightarrow> client_run parse es' c | (r, c) \<Rightarrow> (r, c))"
proof (induction es arbitrary: c)
  case (Cons e es)
  then show ?case
    by (cases "client_turn parse e c") (auto split: client_result.splits)
qed simp

text \<open>What the client said, as long as it is listened to, and what it was sent.\<close>

definition client_says :: "(string \<Rightarrow> jupyter_message option) \<Rightarrow> client_event list \<Rightarrow> jupyter_message list" where
  "client_says parse es = List.map_filter (\<lambda>e. case e of WsText t \<Rightarrow> parse t | _ \<Rightarrow> None) es"

definition is_text :: "ws_frame \<Rightarrow> bool" where
  "is_text f = (case f of TextFrame _ \<Rightarrow> True | _ \<Rightarrow> False)"

lemma says_Cons: "client_says parse (e # es) = client_says parse [e] @ client_says parse es"
  by (simp add: client_says_def List.map_filter_def)

lemma says_text: "client_says parse [WsText t] = (case parse t of Some m \<Rightarrow> [m] | None \<Rightarrow> [])"
  by (simp add: client_says_def List.map_filter_def split: option.split)

lemma turn_says:
  assumes "client_turn parse e c = (Stay, c')" and "ch_open (cs_zmq_tx c)"
  shows "cs_zmq_tx c' = (cs_zmq_tx c)\<lparr>ch_buf := ch_buf (cs_zmq_tx c) @ client_says parse [e]\<rparr>"
proof (cases e)
  case (WsText t)
  then show ?thesis
    using assms by (cases "parse t") (auto simp: says_text handle_ws_message_def chan_try_def chan_send_def split: if_splits)
next
  case (JsonReady ok)
  then have "cs_zmq_tx c' = cs_zmq_tx c"
    using assms by (auto simp: forward_json_def write_frame_def Let_def split: list.splits)
  then show ?thesis
    using JsonReady by (simp add: client_says_def List.map_filter_def)
next
  case (Tick ok)
  then have "cs_zmq_tx c' = cs_zmq_tx c"
    using assms by (auto simp: write_frame_def Let_def split: if_splits)
  then show ?thesis
    using Tick by (simp add: client_says_def List.map_filter_def)
qed (use assms in \<open>auto simp: client_says_def List.map_filter_def split: option.splits if_splits\<close>)

definition to_client :: "client_loop \<Rightarrow> ws_frame list" where
  "to_client c = filter is_text (cs_written c) @ map TextFrame (ch_buf (ks_ws_json_tx (cs_state c)))"

lemma turn_sends:
  assumes "client_turn parse e c = (Stay, c')" and "e \<noteq> JsonReady False"
  shows "to_client c' = to_client c"
proof (cases e)
  case (WsText t)
  then show ?thesis
    using assms by (cases "parse t") (auto simp: handle_ws_message_def to_client_def split: if_splits)
next
  case (JsonReady ok)
  then show ?thesis
    using assms by (cases "ch_buf (ks_ws_json_tx (cs_state c))")
      (auto simp: forward_json_def write_frame_def is_text_def to_client_def Let_def)
next
  case (Tick ok)
  then show ?thesis
    using assms by (auto simp: write_frame_def is_text_def to_client_def Let_def split: if_splits)
next
  case (WsPong k)
  then show ?thesis
    using assms by (auto simp: to_client_def split: option.splits)
qed (use assms in \<open>auto split: if_splits\<close>)

text \<open>Without pongs the counter falls behind by one with every tick.\<close>

lemma silent_ticks:
  assumes "unat (cs_ping c - cs_pong c) = d" and "d + n \<le> 4"
  shows "\<exists>c'. client_run parse (replicate n (Tick True)) c = (Stay, c') \<and> cs_pong c' = cs_pong c \<and>
    unat (cs_ping c' - cs_pong c') = d + n \<and> cs_state c' = cs_state c"
  using assms
proof (induction n arbitrary: c d)
  case (Suc n)
  have d3: "d \<le> 3"
    using Suc.prems by simp
  then have ok: "\<not> cs_ping c - cs_pong c > 3"
    using Suc.prems(1) by (simp add: word_less_nat_alt)
  let ?c = "write_frame (PingFrame (cs_ping c + 1)) (c\<lparr>cs_ping := cs_ping c + 1\<rparr>)"
  have "unat (cs_ping c + 1 - cs_pong c) = Suc d"
  proof -
    have eq: "cs_ping c + 1 - cs_pong c = (cs_ping c - cs_pong c) + 1"
      by simp
    show ?thesis
      using Suc.prems(1) d3 unfolding eq by (simp add: unat_word_ariths)
  qed
  then have "unat (cs_ping ?c - cs_pong ?c) = Suc d"
    by (simp add: write_frame_def)
  from Suc.IH [OF this] Suc.prems(2) show ?case
    using ok by (auto simp: write_frame_def Let_def)
qed simp

text \<open>A client that answers the latest ping in time is never dropped for silence.\<close>

definition answers :: "client_loop \<Rightarrow> bool" where
  "answers c \<longleftrightarrow> cs_pong c \<le> cs_ping c \<and> cs_ping c - cs_pong c \<le> 3"

section \<open>Properties\<close>


definition sample_client :: client_loop where
  "sample_client = \<lparr>cs_state = sample_state, cs_zmq_tx = chan_new, cs_written = [], cs_ping = 0, cs_pong = 0\<rparr>"


text \<open>
  Pings find out exactly whether a client is still there. One that never answers is sent four
  pings and dropped at the fifth tick, whatever it was sent meanwhile. A tick with at most three
  pings unanswered keeps the client. But a pong ahead of the last ping, which only a faulty client
  sends, makes the difference wrap, and the client is dropped at the next tick as if it were silent.
\<close>

theorem pings_detect_silence:
  "(\<exists>c'. client_run parse (replicate 4 (Tick True)) (c\<lparr>cs_ping := k, cs_pong := k\<rparr>) = (Stay, c') \<and>
      client_turn parse (Tick ok) c' = (Leave, c')) \<and>
   (answers c \<longrightarrow> fst (client_turn parse (Tick True) c) = Stay) \<and>
   (cs_ping c < n \<and> n < 2 ^ 63 \<longrightarrow> client_run parse [WsPong (Some n), Tick ok] c = (Leave, c\<lparr>cs_pong := n\<rparr>))"
proof (intro conjI impI)
  have "unat (cs_ping (c\<lparr>cs_ping := k, cs_pong := k\<rparr>) - cs_pong (c\<lparr>cs_ping := k, cs_pong := k\<rparr>)) = 0"
    by simp
  from silent_ticks [OF this, of 4 parse] obtain c' where
    c': "client_run parse (replicate 4 (Tick True)) (c\<lparr>cs_ping := k, cs_pong := k\<rparr>) = (Stay, c')"
      "unat (cs_ping c' - cs_pong c') = 4"
    by auto
  then have "cs_ping c' - cs_pong c' > 3"
    by (simp add: word_less_nat_alt)
  then show "\<exists>c'. client_run parse (replicate 4 (Tick True)) (c\<lparr>cs_ping := k, cs_pong := k\<rparr>) = (Stay, c') \<and>
      client_turn parse (Tick ok) c' = (Leave, c')"
    using c'(1) by auto
next
  assume "answers c"
  then show "fst (client_turn parse (Tick True) c) = Stay"
    by (auto simp: answers_def Let_def)
next
  assume n: "cs_ping c < n \<and> n < 2 ^ 63"
  have lt: "unat (cs_ping c) < unat n" and "unat n < 2 ^ 63"
    using n by (simp_all add: word_less_nat_alt)
  moreover have "unat (cs_ping c - n) = unat (cs_ping c) + 2 ^ 64 - unat n"
    using lt by (subst unat_sub_if') simp
  ultimately have "cs_ping c - n > 3"
    by (simp add: word_less_nat_alt)
  then show "client_run parse [WsPong (Some n), Tick ok] c = (Leave, c\<lparr>cs_pong := n\<rparr>)"
    by simp
qed

text \<open>
  A client that is replaced can leave the session marked as unconnected. The old client's
  handler ends on its own, and whenever that happens after the new one has attached, it clears the
  mark, and with it the path of the socket, which by then are the new client's. The idle test then
  takes a quiet session with a client attached for an abandoned one.
\<close>

theorem replaced_client_looks_abandoned:
  "(let s' = client_end (client_begin new_path (client_begin old_path s)) in
      \<not> ks_connected s' \<and> ks_client_socket_path s' = None \<and>
      (ks_status s \<noteq> Busy \<longrightarrow> check_idle_sessions [s'] \<noteq> None)) \<and>
   (let s' = client_begin new_path (client_end (client_begin old_path s)) in
      ks_connected s' \<and> ks_client_socket_path s' = new_path \<and> check_idle_sessions [s'] = None)"
  by (simp add: client_begin_def client_end_def set_connected_def set_client_socket_path_def nudge_idle_def Let_def)

theorem pings_detect_silence_witness:
  "client_run (\<lambda>_. None) [WsPong (Some 5), Tick True] sample_client = (Leave, sample_client\<lparr>cs_pong := 5\<rparr>)"
  using pings_detect_silence [where parse = "\<lambda>_. None" and c = sample_client and ok = True and n = 5] by (simp add: sample_client_def)

theorem replaced_client_looks_abandoned_witness:
  "check_idle_sessions [client_end (client_begin None (client_begin None sample_state))] \<noteq> None"
  using replaced_client_looks_abandoned [where new_path = None and old_path = None and s = sample_state]
  by (simp add: Let_def sample_state_def state_new_def)

end
