(* ===== verification/KC_Upgrade.thy ===== *)
theory KC_Upgrade
  imports KC_Client KC_Auth KC_Wire
begin

text \<open>
  The Unix part of \<open>client_session.rs\<close>: a connection on a session's socket. Its first bytes decide
  whether the client asks in HTTP for a WebSocket or speaks WebSocket at once; a request is read
  line by line and answered. \<open>derive_accept_key\<close> of the WebSocket library is a parameter.
\<close>

section \<open>A buffered reader\<close>

text \<open>
  What has been read ahead, what will still arrive, and whether the other side keeps the connection
  open after that. \<open>fill_buf\<close> shows what is buffered and reads the next chunk only when that is
  nothing; \<open>None\<close> says that it waits for data that does not come. \<open>into_inner\<close> gives the stream back
  without what was read ahead.
\<close>

record reader =
  rd_buffer :: string
  rd_chunks :: "string list"
  rd_open :: bool

definition fill_buf :: "reader \<Rightarrow> (string \<times> reader) option" where
  "fill_buf r =
     (if rd_buffer r \<noteq> [] then Some (rd_buffer r, r)
      else (case rd_chunks r of
          [] \<Rightarrow> if rd_open r then None else Some ([], r)
        | c # cs \<Rightarrow> Some (c, r\<lparr>rd_buffer := c, rd_chunks := cs\<rparr>)))"

definition into_inner :: "reader \<Rightarrow> string" where
  "into_inner r = concat (rd_chunks r)"

definition unread :: "reader \<Rightarrow> string" where
  "unread r = rd_buffer r @ concat (rd_chunks r)"

text \<open>
  \<open>read_line\<close> reads up to and with the next line feed, or up to the end, and then checks that this
  is text; again \<open>None\<close> says that it waits. The inner option is its result.
\<close>

definition LF :: char where "LF = CHR 0x0A"

fun read_until :: "string \<Rightarrow> string \<Rightarrow> string list \<Rightarrow> string \<times> string \<times> string list" where
  "read_until acc buf [] =
     (case split_once LF buf of
        Some (a, b) \<Rightarrow> (acc @ a @ [LF], b, [])
      | None \<Rightarrow> (acc @ buf, [], []))"
| "read_until acc buf (c # cs) =
     (case split_once LF buf of
        Some (a, b) \<Rightarrow> (acc @ a @ [LF], b, c # cs)
      | None \<Rightarrow> read_until (acc @ buf) c cs)"

definition read_line :: "reader \<Rightarrow> (string option \<times> reader) option" where
  "read_line r =
     (let (line, buf, cs) = read_until [] (rd_buffer r) (rd_chunks r) in
      if \<not> ends_with_char line LF \<and> rd_open r then None
      else Some (if utf8_valid line then Some line else None, r\<lparr>rd_buffer := buf, rd_chunks := cs\<rparr>))"

lemma read_until_all: "read_until acc buf cs = (line, b, cs') \<Longrightarrow> line @ b @ concat cs' = acc @ buf @ concat cs"
  by (induction acc buf cs rule: read_until.induct) (auto split: option.splits dest!: split_once_Some)

lemma read_line_unread: "read_line r = Some (Some line, r') \<Longrightarrow> unread r = line @ unread r'"
  by (auto simp: read_line_def unread_def dest!: read_until_all split: prod.splits if_splits)

section \<open>Telling the protocols apart\<close>

text \<open>
  The loop of \<open>detect_http_websocket_request\<close>. A buffer that is too short is shown again at once, so
  the loop goes round without ever waiting, and the timeout around it gets no turn: then there is no
  result. When it does wait, the timeout answers.
\<close>

partial_function (option) detect_http :: "reader \<Rightarrow> (bool option \<times> reader) option" where
  "detect_http r =
     (case fill_buf r of
        None \<Rightarrow> Some (Some False, r)
      | Some (buf, r') \<Rightarrow>
          if length buf \<ge> 4 then Some (Some (starts_with ''GET '' buf), r')
          else if buf = [] then Some (None, r')
          else detect_http r')"

section \<open>The upgrade\<close>

definition crlf :: string where "crlf = [CHR 0x0D, LF]"

definition header_of :: "string \<Rightarrow> (string \<rightharpoonup> string) \<Rightarrow> (string \<rightharpoonup> string)" where
  "header_of line hs =
     (case split_once (CHR '':'') line of
        Some (key, value) \<Rightarrow> hs(map to_lower (trim key) \<mapsto> trim value)
      | None \<Rightarrow> hs)"

lemma trim_Nil [simp]: "trim [] = []"
  by (simp add: trim_def)

function read_headers :: "reader \<Rightarrow> (string \<rightharpoonup> string) \<Rightarrow> ((string \<rightharpoonup> string) \<times> reader) option" where
  "read_headers r hs =
     (case read_line r of
        None \<Rightarrow> None
      | Some (None, r') \<Rightarrow> Some (hs, r')
      | Some (Some line, r') \<Rightarrow>
          (let line' = trim line in
           if line' = [] then Some (hs, r') else read_headers r' (header_of line' hs)))"
  by pat_completeness auto

termination
proof (relation "measure (\<lambda>(r, hs). length (unread r))", goal_cases)
  case (2 r hs x res r' line line')
  then show ?case
    using read_line_unread [of r line r'] by (cases line) auto
qed simp

declare read_headers.simps [simp del]

definition upgrade_response :: "string \<Rightarrow> string" where
  "upgrade_response accept_key =
     ''HTTP/1.1 101 Switching Protocols'' @ crlf @ ''Upgrade: websocket'' @ crlf @ ''Connection: Upgrade'' @ crlf @
     ''Sec-WebSocket-Accept: '' @ accept_key @ crlf @ crlf"

text \<open>
  How a connection goes on: nothing further happens because the handler waits or spins for ever, it
  returns, or the loop of the session runs on the stream, after the bytes that were written first.
  \<open>wrote\<close> is how many bytes the one attempt to write takes, or that it fails.
\<close>

datatype socket_outcome = NoReturn | Returned | Serves string string

definition handle_domain_socket_connection :: "(string \<Rightarrow> string) \<Rightarrow> nat option \<Rightarrow> reader \<Rightarrow> socket_outcome" where
  "handle_domain_socket_connection derive_accept_key wrote r =
     (case detect_http r of
        None \<Rightarrow> NoReturn
      | Some (None, r) \<Rightarrow> Returned
      | Some (Some False, r) \<Rightarrow> Serves [] (into_inner r)
      | Some (Some True, r) \<Rightarrow>
          (case read_line r of
             None \<Rightarrow> NoReturn
           | Some (None, r) \<Rightarrow> Returned
           | Some (Some first_line, r) \<Rightarrow>
               (case read_headers r Map.empty of
                  None \<Rightarrow> NoReturn
                | Some (headers, r) \<Rightarrow>
                    (case headers ''sec-websocket-key'' of
                       None \<Rightarrow> Returned
                     | Some websocket_key \<Rightarrow>
                         (let response = upgrade_response (derive_accept_key websocket_key) in
                          case wrote of
                            None \<Rightarrow> Returned
                          | Some n \<Rightarrow> Serves (take n response) (into_inner r))))))"

section \<open>Lemmas\<close>

lemma trim_ends: "list_all is_space a \<Longrightarrow> list_all is_space b \<Longrightarrow> trim (a @ s @ b) = trim s"
proof -
  assume sp: "list_all is_space a" "list_all is_space b"
  have d: "dropWhile is_space (xs @ ys) = dropWhile is_space ys" if "list_all is_space xs" for xs ys
    using that by (induction xs) auto
  have e: "dropWhile is_space (s @ b) = dropWhile is_space s @ (if list_all is_space s then [] else b)"
    using d [OF sp(2), of "[]"] by (induction s) auto
  show ?thesis
    using sp d [of a] d [of "rev b"] d [of s "[]"] e by (auto simp: trim_def list_all_iff)
qed

text \<open>A line of a request, and the reader that holds such lines in its buffer.\<close>

definition header_line :: "string \<times> string \<Rightarrow> string" where
  "header_line kv = fst kv @ '': '' @ snd kv @ crlf"

definition good_header :: "string \<times> string \<Rightarrow> bool" where
  "good_header kv \<longleftrightarrow>
     trim (fst kv) = fst kv \<and> trim (snd kv) = snd kv \<and> fst kv \<noteq> [] \<and> CHR '':'' \<notin> set (fst kv) \<and>
     LF \<notin> set (fst kv @ snd kv) \<and> (\<forall>c \<in> set (fst kv @ snd kv). (of_char c :: nat) < 128)"

lemma read_line_buffered:
  assumes "rd_buffer r = line @ LF # rest" and "LF \<notin> set line" and "\<forall>c \<in> set line. (of_char c :: nat) < 128"
  shows "read_line r = Some (Some (line @ [LF]), r\<lparr>rd_buffer := rest\<rparr>)"
proof -
  have "read_until [] (line @ LF # rest) cs = (line @ [LF], rest, cs)" for cs
    using split_once_append [OF assms(2)] by (cases cs) auto
  moreover have "utf8_valid (line @ [LF])"
    using assms(3) by (intro utf8_valid_ascii) (auto simp: LF_def)
  ultimately show ?thesis
    using assms(1) by (simp add: read_line_def ends_with_char_def)
qed

definition rtrim :: "string \<Rightarrow> string" where
  "rtrim s = rev (dropWhile is_space (rev s))"

lemma rtrim_split: "\<exists>b. s = rtrim s @ b \<and> list_all is_space b"
proof -
  have "rev s = takeWhile is_space (rev s) @ dropWhile is_space (rev s)"
    by simp
  then have "s = rtrim s @ rev (takeWhile is_space (rev s))"
    unfolding rtrim_def by (metis rev_append rev_rev_ident)
  moreover have "list_all is_space (rev (takeWhile is_space (rev s)))"
    by (auto simp: list_all_iff dest: set_takeWhileD)
  ultimately show ?thesis
    by blast
qed

lemma trim_rtrim: "trim (rtrim s) = trim s"
  using rtrim_split [of s] trim_ends [of "[]" _ "rtrim s"] by (metis append_Nil list.pred_inject(1))

lemma rtrim_colon: "rtrim (a @ CHR '':'' # w) = a @ CHR '':'' # rtrim w"
proof -
  have "\<not> is_space (CHR '':'')"
    by (simp add: is_space_def code_in_def)
  then show ?thesis
    by (auto simp: rtrim_def dropWhile_append)
qed

lemma header_of_line:
  assumes "good_header kv"
  shows "trim (header_line kv) \<noteq> [] \<and> header_of (trim (header_line kv)) hs = hs(map to_lower (fst kv) \<mapsto> snd kv)"
proof -
  obtain k v where kv: "kv = (k, v)"
    by fastforce
  have k: "trim k = k" "k \<noteq> []" "CHR '':'' \<notin> set k" and v: "trim v = v"
    using assms by (simp_all add: good_header_def kv)
  let ?w = "'' '' @ v @ crlf"
  have "dropWhile is_space k = k"
  proof -
    have "length (dropWhile is_space (rev (dropWhile is_space k))) \<le> length (dropWhile is_space k)"
      by (metis length_dropWhile_le length_rev)
    then have "length k \<le> length (dropWhile is_space k)"
      using k(1) by (metis length_rev trim_def)
    moreover have "length k = length (takeWhile is_space k) + length (dropWhile is_space k)"
      by (metis length_append takeWhile_dropWhile_id)
    ultimately have "takeWhile is_space k = []"
      by simp
    then show ?thesis
      by (metis append_Nil takeWhile_dropWhile_id)
  qed
  then have "dropWhile is_space (k @ x) = k @ x" for x
    using k(2) by (cases k) (auto split: if_splits dest: arg_cong [of _ _ length] simp: dropWhile_eq_Cons_conv)
  then have "trim (header_line kv) = rtrim (header_line kv)"
    by (simp add: header_line_def kv trim_def rtrim_def)
  also have "\<dots> = k @ CHR '':'' # rtrim ?w"
    using rtrim_colon [of k ?w] by (simp add: header_line_def kv)
  finally have line: "trim (header_line kv) = k @ CHR '':'' # rtrim ?w" .
  have "trim (rtrim ?w) = v"
    using trim_ends [of "'' ''" crlf v] v by (simp add: trim_rtrim crlf_def LF_def is_space_def code_in_def)
  then show ?thesis
    using line k split_once_append [OF k(3)] by (simp add: header_of_def kv)
qed

lemma read_headers_buffered:
  assumes "\<forall>kv \<in> set kvs. good_header kv" and "rd_buffer r = concat (map header_line kvs) @ crlf @ rest"
  shows "read_headers r hs = Some (foldl (\<lambda>m kv. m(map to_lower (fst kv) \<mapsto> snd kv)) hs kvs, r\<lparr>rd_buffer := rest\<rparr>)"
  using assms
proof (induction kvs arbitrary: r hs)
  case Nil
  have "read_line r = Some (Some crlf, r\<lparr>rd_buffer := rest\<rparr>)"
    using read_line_buffered [of r "[CHR 0x0D]" rest] Nil by (simp add: crlf_def LF_def)
  moreover have "trim crlf = []"
    by (simp add: trim_def crlf_def LF_def is_space_def code_in_def)
  ultimately show ?case
    by (simp add: read_headers.simps [of r])
next
  case (Cons kv kvs)
  let ?line = "fst kv @ '': '' @ snd kv @ [CHR 0x0D]" and ?more = "concat (map header_line kvs) @ crlf @ rest"
  have good: "good_header kv"
    using Cons.prems by simp
  have "read_line r = Some (Some (?line @ [LF]), r\<lparr>rd_buffer := ?more\<rparr>)"
  proof (rule read_line_buffered)
    show "rd_buffer r = ?line @ LF # ?more"
      using Cons.prems(2) by (simp add: header_line_def [of kv] crlf_def)
    show "LF \<notin> set ?line" "\<forall>c \<in> set ?line. (of_char c :: nat) < 128"
      using good by (auto simp: good_header_def LF_def)
  qed
  moreover have "?line @ [LF] = header_line kv"
    by (simp add: header_line_def crlf_def)
  ultimately show ?case
    using header_of_line [OF good] Cons.IH [of "r\<lparr>rd_buffer := ?more\<rparr>"] Cons.prems by (simp add: read_headers.simps [of r] del: fun_upd_apply)
qed

lemma detect_http_chunk:
  "rd_buffer r = [] \<Longrightarrow> rd_chunks r = c # cs \<Longrightarrow> length c \<ge> 4 \<Longrightarrow>
     detect_http r = Some (Some (starts_with ''GET '' c), r\<lparr>rd_buffer := c, rd_chunks := cs\<rparr>)"
  by (simp add: detect_http.simps fill_buf_def)

lemma detect_http_short:
  assumes "detect_http r = Some y"
  shows "\<not> (0 < length (rd_buffer r) \<and> length (rd_buffer r) < 4)"
  by (rule detect_http.raw_induct [OF _ assms]) (fastforce simp: fill_buf_def split: if_splits list.splits)

section \<open>Properties\<close>

text \<open>
  An HTTP client is answered properly: a request for an upgrade that arrives in one piece gets
  the response with the key derived from its \<open>Sec-WebSocket-Key\<close> header, whatever the case of the
  name and the order of the headers, and the session's loop runs on what arrives after it. Without
  that header the connection ends.
\<close>

theorem upgrade_request_answered:
  assumes "rd_buffer r = []" and "rd_chunks r = (''GET '' @ target @ crlf @ concat (map header_line kvs) @ crlf) # cs"
    and "LF \<notin> set target" and "\<forall>c \<in> set target. (of_char c :: nat) < 128" and "\<forall>kv \<in> set kvs. good_header kv"
  shows "handle_domain_socket_connection derive (Some n) r =
      (case map_of (rev (map (\<lambda>(k, v). (map to_lower k, v)) kvs)) ''sec-websocket-key'' of
         None \<Rightarrow> Returned
       | Some key \<Rightarrow> Serves (take n (upgrade_response (derive key))) (concat cs))"
proof -
  let ?req = "''GET '' @ target @ crlf @ concat (map header_line kvs) @ crlf"
  let ?r = "r\<lparr>rd_buffer := ?req, rd_chunks := cs\<rparr>" and ?body = "concat (map header_line kvs) @ crlf @ []"
  have one: "detect_http r = Some (Some True, ?r)"
    using detect_http_chunk [OF assms(1,2)] by simp
  have two: "read_line ?r = Some (Some ((''GET '' @ target @ [CHR 0x0D]) @ [LF]), ?r\<lparr>rd_buffer := ?body\<rparr>)"
    using assms(3,4) by (intro read_line_buffered) (auto simp: crlf_def LF_def)
  have three: "read_headers (?r\<lparr>rd_buffer := ?body\<rparr>) Map.empty =
      Some (foldl (\<lambda>m kv. m(map to_lower (fst kv) \<mapsto> snd kv)) Map.empty kvs, ?r\<lparr>rd_buffer := []\<rparr>)"
    using read_headers_buffered [OF assms(5), of "?r\<lparr>rd_buffer := ?body\<rparr>" "[]"] by simp
  have "foldl (\<lambda>m kv. m(map to_lower (fst kv) \<mapsto> snd kv)) m kvs = m ++ map_of (rev (map (\<lambda>(k, v). (map to_lower k, v)) kvs))" for m
    by (induction kvs arbitrary: m) (auto simp: split_def map_add_def fun_eq_iff split: option.splits)
  then show ?thesis
    unfolding handle_domain_socket_connection_def one
    using two three by (simp add: into_inner_def Let_def split: option.split)
qed

theorem upgrade_request_answered_witness:
  "handle_domain_socket_connection (\<lambda>k. k) (Some 4)
     \<lparr>rd_buffer = [], rd_chunks = [''GET '' @ ''/'' @ crlf @ concat (map header_line [(''Sec-WebSocket-KEY'', ''k'')]) @ crlf, ''data''],
      rd_open = True\<rparr> = Serves ''HTTP'' ''data''"
proof -
  have good: "\<forall>kv \<in> set [(''Sec-WebSocket-KEY'', ''k'')]. good_header kv"
    by (simp add: good_header_def trim_def is_space_def code_in_def LF_def)
  have key: "to_lower (CHR ''S'') = CHR ''s''" "to_lower (CHR ''e'') = CHR ''e''" "to_lower (CHR ''c'') = CHR ''c''"
      "to_lower (CHR ''-'') = CHR ''-''" "to_lower (CHR ''W'') = CHR ''w''" "to_lower (CHR ''b'') = CHR ''b''"
      "to_lower (CHR ''o'') = CHR ''o''" "to_lower (CHR ''k'') = CHR ''k''" "to_lower (CHR ''t'') = CHR ''t''"
      "to_lower (CHR ''K'') = CHR ''k''" "to_lower (CHR ''E'') = CHR ''e''" "to_lower (CHR ''Y'') = CHR ''y''"
    by code_simp+
  show ?thesis
    by (subst upgrade_request_answered [OF _ _ _ _ good, of _ "''/''" "[''data'']"]) (simp_all add: key LF_def upgrade_response_def)
qed

text \<open>
  A client that speaks WebSocket at once loses the beginning of its stream: what was read to
  tell the protocols apart stays behind in the buffer, and the session's loop gets a stream that
  lacks the whole first chunk.
\<close>

theorem raw_client_loses_first_chunk:
  assumes "rd_buffer r = []" and "rd_chunks r = first # rest" and "length first \<ge> 4" and "\<not> starts_with ''GET '' first"
  shows "handle_domain_socket_connection derive wrote r = Serves [] (concat rest) \<and> unread r = first @ concat rest"
  using detect_http_chunk [OF assms(1-3)] assms
  by (simp add: handle_domain_socket_connection_def into_inner_def unread_def)

theorem raw_client_loses_first_chunk_witness:
  "handle_domain_socket_connection (\<lambda>k. k) None \<lparr>rd_buffer = [], rd_chunks = [''abcd'', ''ef''], rd_open = True\<rparr> = Serves [] ''ef''"
  using raw_client_loses_first_chunk [of "\<lparr>rd_buffer = [], rd_chunks = [''abcd'', ''ef''], rd_open = True\<rparr>" "''abcd''" "[''ef'']"]
  by simp

text \<open>
  A connection whose first chunk has one to three bytes is never served: the test spins on these
  bytes, whatever arrives after them. One that sends nothing is given up on by the timeout and taken
  for a raw client; one that closes is left.
\<close>

theorem short_first_chunk_spins:
  assumes "rd_buffer r = []"
  shows "case rd_chunks r of
      [] \<Rightarrow> handle_domain_socket_connection derive wrote r = (if rd_open r then Serves [] [] else Returned)
    | first # rest \<Rightarrow> 0 < length first \<and> length first < 4 \<longrightarrow> handle_domain_socket_connection derive wrote r = NoReturn"
proof (cases "rd_chunks r")
  case Nil
  then show ?thesis
    using assms by (simp add: handle_domain_socket_connection_def detect_http.simps [of r] fill_buf_def into_inner_def)
next
  case (Cons first rest)
  have "handle_domain_socket_connection derive wrote r = NoReturn" if short: "0 < length first" "length first < 4"
  proof -
    let ?r = "r\<lparr>rd_buffer := first, rd_chunks := rest\<rparr>"
    have "detect_http r = detect_http ?r"
      using assms Cons short by (simp add: detect_http.simps [of r] fill_buf_def)
    moreover have "detect_http ?r = None"
      using detect_http_short [of ?r] short by (cases "detect_http ?r") auto
    ultimately show ?thesis
      by (simp add: handle_domain_socket_connection_def)
  qed
  then show ?thesis
    by (simp add: Cons)
qed

theorem short_first_chunk_spins_witness:
  "handle_domain_socket_connection (\<lambda>k. k) None \<lparr>rd_buffer = [], rd_chunks = [''GE'', ''T / ''], rd_open = True\<rparr> = NoReturn"
  using short_first_chunk_spins [of "\<lparr>rd_buffer = [], rd_chunks = [''GE'', ''T / ''], rd_open = True\<rparr>" "\<lambda>k. k" None] by simp

end
