(* ===== verification/KC_Resource.thy ===== *)
theory KC_Resource
  imports KC_Auth KC_Machines KC_Ports KC_Clip "HOL-Library.AList"
begin

text \<open>
  \<open>process_tree.rs\<close>, the Linux part of \<open>process_metrics.rs\<close>, and \<open>resource_monitor.rs\<close>: how much of
  the machine each session uses. The processes of a session are found by following children, each
  is sampled from a line of text the kernel provides, and the samples of two ticks give the use of
  the processor. The children of a process and the text of a sample are arguments.
\<close>

section \<open>The processes of a session\<close>

definition MAX_TRACKED_PROCESSES :: nat where "MAX_TRACKED_PROCESSES = 4096"

text \<open>
  The loop of \<open>get_process_tree\<close>: what has been visited, and the stack of what is still to visit,
  its top first. A process is expanded only when it is new, and then the visited ones grow, so the
  loop ends whatever the children are, even in a cycle.
\<close>

function tree_loop :: "(nat \<Rightarrow> nat list) \<Rightarrow> nat \<Rightarrow> nat list \<Rightarrow> nat list \<Rightarrow> nat list" where
  "tree_loop children limit visited [] = visited"
| "tree_loop children limit visited (pid # stack) =
     (if length visited \<ge> limit then visited
      else if pid \<in> set visited then tree_loop children limit visited stack
      else
        (let visited = visited @ [pid]
         in tree_loop children limit visited (rev (filter (\<lambda>c. c \<notin> set visited) (children pid)) @ stack)))"
  by pat_completeness auto

termination
  by (relation "measures [\<lambda>(children, limit, visited, stack). limit - length visited,
        \<lambda>(children, limit, visited, stack). length stack]") auto

definition get_process_tree :: "(nat \<Rightarrow> nat list) \<Rightarrow> nat \<Rightarrow> nat list" where
  "get_process_tree children root = tree_loop children MAX_TRACKED_PROCESSES [] [root]"

text \<open>The descendants, as the children say.\<close>

inductive descendant :: "(nat \<Rightarrow> nat list) \<Rightarrow> nat \<Rightarrow> nat \<Rightarrow> bool" for children root where
  self: "descendant children root root"
| child: "descendant children root p \<Longrightarrow> c \<in> set (children p) \<Longrightarrow> descendant children root c"

text \<open>
  What holds at every turn: nothing is visited twice or beyond the limit, everything visited or on
  the stack descends from the root, and the children of the visited are visited or on the stack.
\<close>

definition tree_ok :: "(nat \<Rightarrow> nat list) \<Rightarrow> nat \<Rightarrow> nat \<Rightarrow> nat list \<Rightarrow> nat list \<Rightarrow> bool" where
  "tree_ok children limit root visited stack \<longleftrightarrow>
     distinct visited \<and> length visited \<le> limit \<and> (\<forall>p \<in> set visited \<union> set stack. descendant children root p) \<and>
     root \<in> set visited \<union> set stack \<and> (\<forall>p \<in> set visited. set (children p) \<subseteq> set visited \<union> set stack)"

lemma tree_loop_ok:
  "tree_ok children limit root visited stack \<Longrightarrow>
     (let t = tree_loop children limit visited stack in
      distinct t \<and> length t \<le> limit \<and> (\<forall>p \<in> set t. descendant children root p) \<and>
      (length t < limit \<longrightarrow> tree_ok children limit root t []))"
proof (induction children limit visited stack rule: tree_loop.induct)
  case (1 children limit visited)
  then show ?case
    by (auto simp: tree_ok_def Let_def)
next
  case (2 children limit visited pid stack)
  show ?case
  proof (cases "length visited \<ge> limit")
    case True
    then show ?thesis
      using 2(3) by (auto simp: tree_ok_def Let_def)
  next
    case room: False
    show ?thesis
    proof (cases "pid \<in> set visited")
      case True
      then have "tree_ok children limit root visited stack"
        using 2(3) unfolding tree_ok_def by auto
      then show ?thesis
        using 2(1) room True by (simp add: Let_def)
    next
      case False
      let ?v = "visited @ [pid]"
      have "tree_ok children limit root ?v (rev (filter (\<lambda>c. c \<notin> set ?v) (children pid)) @ stack)"
        using 2(3) room False child [of children root pid] unfolding tree_ok_def by (auto; blast)
      then show ?thesis
        using 2(2) room False by (simp add: Let_def)
    qed
  qed
qed

lemma closed_has_all: "tree_ok children limit root t [] \<Longrightarrow> descendant children root p \<Longrightarrow> p \<in> set t"
proof -
  assume ok: "tree_ok children limit root t []"
  show "descendant children root p \<Longrightarrow> p \<in> set t"
    by (induction rule: descendant.induct) (use ok in \<open>auto simp: tree_ok_def\<close>)
qed

section \<open>A sample\<close>

record proc_stat =
  pt_cpu_ticks :: nat
  pt_num_threads :: nat
  pt_rss_pages :: nat

text \<open>\<open>str::rfind\<close>: the position of the last occurrence; \<open>str::get(i..)\<close>; \<open>split_whitespace\<close>.\<close>

definition rfind :: "char \<Rightarrow> string \<Rightarrow> nat option" where
  "rfind c s = map_option (\<lambda>(a, _). length a) (rsplit_once c s)"

definition get_from :: "nat \<Rightarrow> string \<Rightarrow> string option" where
  "get_from i s = (if is_char_boundary s i then Some (drop i s) else None)"

definition split_whitespace :: "string \<Rightarrow> string list" where
  "split_whitespace s =
     filter (\<lambda>w. w \<noteq> []) (split_on (CHR '' '') (map (\<lambda>c. if is_space c then CHR '' '' else c) s))"

text \<open>\<open>str::parse::<i64>\<close>.\<close>

definition parse_i64 :: "string \<Rightarrow> int option" where
  "parse_i64 s =
     (case s of
        [] \<Rightarrow> None
      | c # cs \<Rightarrow>
          if c = CHR ''-'' then
            (if cs \<noteq> [] \<and> hd cs = CHR ''+'' then None
             else (case parse_uint 64 cs of Some v \<Rightarrow> if v \<le> 2 ^ 63 then Some (- int v) else None | None \<Rightarrow> None))
          else (case parse_uint 63 s of Some v \<Rightarrow> Some (int v) | None \<Rightarrow> None))"

definition U64_MAX :: nat where "U64_MAX = 2 ^ 64 - 1"

definition sat_add :: "nat \<Rightarrow> nat \<Rightarrow> nat" where "sat_add a b = min (a + b) U64_MAX"
definition sat_mul :: "nat \<Rightarrow> nat \<Rightarrow> nat" where "sat_mul a b = min (a * b) U64_MAX"

definition proc_stat_parse :: "string \<Rightarrow> proc_stat option" where
  "proc_stat_parse line =
     do {
       i \<leftarrow> rfind (CHR '')'') line;
       after_comm \<leftarrow> get_from (i + 2) line;
       let fs = split_whitespace after_comm;
       if length fs < 22 then None
       else do {
         utime \<leftarrow> parse_uint 64 (fs ! 11);
         stime \<leftarrow> parse_uint 64 (fs ! 12);
         threads \<leftarrow> parse_i64 (fs ! 17);
         rss \<leftarrow> parse_uint 64 (fs ! 21);
         Some \<lparr>pt_cpu_ticks = sat_add utime stime, pt_num_threads = nat (max threads 1), pt_rss_pages = rss\<rparr>
       }
     }"

record process_sample =
  sm_pid :: nat
  sm_cpu_time_ns :: nat
  sm_memory_bytes :: nat
  sm_thread_count :: nat

text \<open>\<open>stat\<close> is the text of a process's file, if it can be read; the two constants are the system's.\<close>

definition sample_one :: "(nat \<Rightarrow> string option) \<Rightarrow> nat \<Rightarrow> nat \<Rightarrow> nat \<Rightarrow> process_sample option" where
  "sample_one stat ticks page pid =
     do {
       line \<leftarrow> stat pid;
       st \<leftarrow> proc_stat_parse line;
       Some \<lparr>sm_pid = pid, sm_cpu_time_ns = sat_mul (pt_cpu_ticks st) 1000000000 div ticks,
             sm_memory_bytes = sat_mul (pt_rss_pages st) page, sm_thread_count = pt_num_threads st\<rparr>
     }"

definition sample_all :: "(nat \<Rightarrow> process_sample option) \<Rightarrow> nat list \<Rightarrow> process_sample list" where
  "sample_all one pids = List.map_filter one pids"

section \<open>The use of the processor\<close>

record cpu_tracker =
  ct_previous :: "nat \<rightharpoonup> nat"
  ct_sampled_at :: "instant option"

definition tracker_new :: cpu_tracker where
  "tracker_new = \<lparr>ct_previous = Map.empty, ct_sampled_at = None\<rparr>"

text \<open>
  Times are in nanoseconds. The sum of the busy times is a 64-bit number; the division is done at
  128 bits and its result cast back.
\<close>

definition usage_percent :: "process_sample list \<Rightarrow> instant \<Rightarrow> cpu_tracker \<Rightarrow> nat \<times> cpu_tracker" where
  "usage_percent samples now t =
     (let elapsed = map_option (\<lambda>at. now - at) (ct_sampled_at t);
          busy = foldl (\<lambda>b s. case ct_previous t (sm_pid s) of
                    Some p \<Rightarrow> (b + (sm_cpu_time_ns s - p)) mod 2 ^ 64 | None \<Rightarrow> b) 0 samples;
          current = foldl (\<lambda>m s. m(sm_pid s \<mapsto> sm_cpu_time_ns s)) Map.empty samples;
          percent = (case elapsed of
              Some e \<Rightarrow> if e > 0 then (busy * 100 div e) mod 2 ^ 64 else 0
            | None \<Rightarrow> 0)
      in (percent, \<lparr>ct_previous = current, ct_sampled_at = Some now\<rparr>))"

section \<open>The monitor\<close>

text \<open>
  The task's own interval, the one it shares with the server, and the period of its timer, all in
  milliseconds; the trackers by session.
\<close>

record monitor_task =
  mo_interval :: nat
  mo_current_interval :: nat
  mo_period :: nat
  mo_trackers :: "(string \<times> cpu_tracker) list"

text \<open>What a tick reads from outside: the clock in two forms, the setting, and the processes.\<close>

record tick_input =
  tk_now :: instant
  tk_timestamp :: nat
  tk_include_children :: bool
  tk_children :: "nat \<Rightarrow> nat list"
  tk_sample :: "nat \<Rightarrow> process_sample option"

definition to_i64 :: "nat \<Rightarrow> int" where
  "to_i64 n = (int n + 2 ^ 63) mod 2 ^ 64 - 2 ^ 63"

text \<open>What is stored of an update: the same numbers, cast to signed ones.\<close>

definition usage_of :: "resource_update \<Rightarrow> resource_usage" where
  "usage_of u =
     \<lparr>cpu_percent = to_i64 (up_cpu_percent u), memory_bytes = to_i64 (up_memory_bytes u),
      thread_count = to_i64 (up_thread_count u), sampling_period_ms = to_i64 (up_sampling_period_ms u),
      usage_timestamp = to_i64 (up_timestamp u)\<rparr>"

text \<open>One session of the loop: its state, and the tracker kept for it.\<close>

definition monitor_session ::
  "tick_input \<Rightarrow> nat \<Rightarrow> string \<times> kernel_state \<Rightarrow> (string \<times> cpu_tracker) list \<Rightarrow> kernel_state \<times> (string \<times> cpu_tracker) list" where
  "monitor_session tk interval is trackers =
     (let (i, s) = is in
      if \<not> ks_connected s then (s, trackers)
      else
        (case ks_process_id s of
           None \<Rightarrow> (s, trackers)
         | Some pid \<Rightarrow>
             (let pids = (if tk_include_children tk then get_process_tree (tk_children tk) pid else [pid]);
                  samples = sample_all (tk_sample tk) pids;
                  memory = sum_list (map sm_memory_bytes samples) mod 2 ^ 64;
                  threads = sum_list (map sm_thread_count samples) mod 2 ^ 64;
                  (cpu, t) = usage_percent samples (tk_now tk)
                    (case map_of trackers i of Some t \<Rightarrow> t | None \<Rightarrow> tracker_new);
                  update = \<lparr>up_cpu_percent = cpu, up_memory_bytes = memory, up_thread_count = threads,
                    up_sampling_period_ms = interval, up_timestamp = tk_timestamp tk\<rparr>
              in (s\<lparr>ks_resource_usage := Some (usage_of update),
                    ks_ws_json_tx := chan_try (Kernel (ResourceUsageMsg update)) (ks_ws_json_tx s)\<rparr>,
                  AList.update i t trackers))))"

fun monitor_sessions ::
  "tick_input \<Rightarrow> nat \<Rightarrow> (string \<times> kernel_state) list \<Rightarrow> (string \<times> cpu_tracker) list \<Rightarrow>
     (string \<times> kernel_state) list \<times> (string \<times> cpu_tracker) list" where
  "monitor_sessions tk interval [] trackers = ([], trackers)"
| "monitor_sessions tk interval ((i, s) # ss) trackers =
     (let (s', trackers) = monitor_session tk interval (i, s) trackers;
          (ss', trackers) = monitor_sessions tk interval ss trackers
      in ((i, s') # ss', trackers))"

definition monitor_tick ::
  "tick_input \<Rightarrow> (string \<times> kernel_state) list \<Rightarrow> monitor_task \<Rightarrow> (string \<times> kernel_state) list \<times> monitor_task" where
  "monitor_tick tk ss m =
     (if mo_interval m = 0 then (ss, m)
      else if \<not> list_ex (\<lambda>(i, s). ks_connected s) ss then (ss, m)
      else
        (let (ss', trackers) = monitor_sessions tk (mo_interval m) ss (mo_trackers m)
         in (ss', m\<lparr>mo_trackers := filter (\<lambda>(i, _). i \<in> set (map fst ss)) trackers\<rparr>)))"

definition effective_interval :: "nat \<Rightarrow> nat" where
  "effective_interval n = (if n = 0 then 3600 * 1000 else n)"

definition monitor_start :: "nat \<Rightarrow> nat \<Rightarrow> monitor_task" where
  "monitor_start n shared =
     \<lparr>mo_interval = n, mo_current_interval = shared, mo_period = effective_interval n, mo_trackers = []\<rparr>"

text \<open>A new interval: the timer is made again, and its first tick, which comes at once, is consumed.\<close>

definition monitor_interval :: "nat \<Rightarrow> monitor_task \<Rightarrow> monitor_task" where
  "monitor_interval n m = m\<lparr>mo_interval := n, mo_current_interval := n, mo_period := effective_interval n\<rparr>"

section \<open>Lemmas\<close>

lemma tree_loop_keeps: "set visited \<subseteq> set (tree_loop children limit visited stack)"
proof (induction children limit visited stack rule: tree_loop.induct)
  case (2 children limit visited pid stack)
  show ?case
    using 2 by (auto simp: Let_def)
qed simp

lemma split_whitespace_words:
  assumes "ws \<noteq> []" and "\<forall>w \<in> set ws. w \<noteq> [] \<and> (\<forall>c \<in> set w. \<not> is_space c)"
  shows "split_whitespace (join_with '' '' ws) = ws"
proof -
  have sp: "is_space (CHR '' '')"
    by (simp add: is_space_def)
  have "\<forall>c \<in> set (join_with '' '' ws). is_space c \<longrightarrow> c = CHR '' ''"
    using assms(2)
  proof (induction ws rule: induct_list012)
    case (3 x y zs)
    then show ?case by auto
  qed auto
  then have "map (\<lambda>c. if is_space c then CHR '' '' else c) (join_with '' '' ws) = join_with '' '' ws"
    by (intro map_idI) auto
  moreover have "split_on (CHR '' '') (join_with '' '' ws) = ws"
    using assms sp by (intro split_on_words) auto
  moreover have "filter (\<lambda>w. w \<noteq> []) ws = ws"
    using assms(2) by (simp add: filter_id_conv)
  ultimately show ?thesis
    by (simp add: split_whitespace_def)
qed

lemma get_from_append: "s \<noteq> [] \<Longrightarrow> \<not> is_cont (hd s) \<Longrightarrow> get_from (length a) (a @ s) = Some s"
  by (cases s) (auto simp: get_from_def is_char_boundary_def)

section \<open>Properties\<close>

text \<open>
  C38. Following the children of a process always comes to an end, even where they form a cycle,
  and finds what it should: every process once, at most 4096 of them, the root among them, nothing
  that does not descend from it, and, unless the limit was reached, everything that does.
\<close>

theorem process_tree_exact:
  "let t = get_process_tree children root in
     distinct t \<and> length t \<le> 4096 \<and> root \<in> set t \<and> (\<forall>p \<in> set t. descendant children root p) \<and>
     (length t < 4096 \<longrightarrow> set t = {p. descendant children root p})"
proof -
  let ?t = "get_process_tree children root"
  have ok: "tree_ok children MAX_TRACKED_PROCESSES root [] [root]"
    by (simp add: tree_ok_def self)
  note found = tree_loop_ok [OF ok, folded get_process_tree_def, unfolded Let_def MAX_TRACKED_PROCESSES_def]
  have "get_process_tree children root =
      tree_loop children MAX_TRACKED_PROCESSES [root] (rev (filter (\<lambda>c. c \<notin> {root}) (children root)))"
    by (simp add: get_process_tree_def MAX_TRACKED_PROCESSES_def Let_def)
  then have "root \<in> set ?t"
    using tree_loop_keeps [of "[root]" children MAX_TRACKED_PROCESSES] by auto
  then show ?thesis
    using found closed_has_all [of children 4096 root ?t] by (auto simp: Let_def)
qed

theorem process_tree_exact_witness:
  "let children = (\<lambda>p. if p = 1 then [2, 1] else [1]); t = get_process_tree children 1
   in t = [1, 2] \<and> {p. descendant children 1 p} = {1, 2}"
proof -
  let ?c = "\<lambda>p :: nat. if p = 1 then [2, 1] else [1]"
  have "get_process_tree ?c 1 = [1, 2]"
    by (simp add: get_process_tree_def MAX_TRACKED_PROCESSES_def Let_def)
  then show ?thesis
    using process_tree_exact [of ?c 1] by (simp add: Let_def)
qed

text \<open>
  The line the system prints for a process is read correctly whatever the name of the program
  is, with blanks and parentheses in it too: the numbers are those of the fields after the name.
\<close>

theorem stat_line_read_back:
  assumes "length fs \<ge> 22" and "\<forall>w \<in> set fs. w \<noteq> [] \<and> (\<forall>c \<in> set w. \<not> is_space c \<and> c \<noteq> CHR '')'')"
    and "fs ! 11 = show_nat utime" and "fs ! 12 = show_nat stime" and "fs ! 17 = show_nat threads"
    and "fs ! 21 = show_nat rss" and "utime < 2 ^ 63" and "stime < 2 ^ 63" and "threads < 2 ^ 63" and "rss < 2 ^ 63"
    and "of_char (hd (hd fs)) < (128 :: nat)"
  shows "proc_stat_parse (pid @ '' ('' @ comm @ '') '' @ join_with '' '' fs) =
    Some \<lparr>pt_cpu_ticks = utime + stime, pt_num_threads = max threads 1, pt_rss_pages = rss\<rparr>"
proof -
  let ?rest = "join_with '' '' fs" and ?pre = "pid @ '' ('' @ comm"
  have ne: "fs \<noteq> []"
    using assms(1) by auto
  have no: "CHR '')'' \<notin> set (CHR '' '' # ?rest)"
  proof -
    have "CHR '')'' \<notin> set (join_with '' '' ws)" if "\<forall>w \<in> set ws. CHR '')'' \<notin> set w" for ws
      using that by (induction ws rule: induct_list012) auto
    then show ?thesis
      using assms(2) by auto
  qed
  have line: "pid @ '' ('' @ comm @ '') '' @ ?rest = ?pre @ CHR '')'' # CHR '' '' # ?rest"
    by simp
  have find: "rfind (CHR '')'') (?pre @ CHR '')'' # CHR '' '' # ?rest) = Some (length ?pre)"
    unfolding rfind_def using rsplit_once_append [OF no, of ?pre] by simp
  have "hd ?rest = hd (hd fs)" "?rest \<noteq> []"
    using ne assms(2) by (cases fs; cases "tl fs"; auto)+
  then have get: "get_from (length ?pre + 2) (?pre @ CHR '')'' # CHR '' '' # ?rest) = Some ?rest"
    using get_from_append [of ?rest "?pre @ '') ''"] assms(11) by (simp add: is_cont_def)
  have words: "split_whitespace ?rest = fs"
    using assms(2) ne by (intro split_whitespace_words) auto
  have big: "(2 :: nat) ^ 63 < 2 ^ 64"
    by simp
  have nums: "parse_uint 64 (show_nat n) = Some n" if "n < 2 ^ 63" for n
    using that by (intro parse_show_nat) (simp add: less_trans [OF that big])
  have signed: "parse_i64 (show_nat threads) = Some (int threads)"
  proof -
    obtain c cs where c: "show_nat threads = c # cs"
      using show_nat_facts [of threads] by (cases "show_nat threads") auto
    then have "c \<noteq> CHR ''-''"
      using show_nat_facts [of threads] by (auto simp: is_digit_def code_in_def)
    then show ?thesis
      using c parse_show_nat [OF assms(9)] by (simp add: parse_i64_def)
  qed
  have "sat_add utime stime = utime + stime" "nat (max (int threads) 1) = max threads 1"
    using assms(7,8) by (simp_all add: sat_add_def U64_MAX_def max_def)
  then show ?thesis
    unfolding line proc_stat_parse_def
    using find get words nums assms signed by (simp add: Let_def)
qed

definition stat_fields :: "string list" where
  "stat_fields = [''S'', ''1'', ''1'', ''1'', ''0'', ''0'', ''0'', ''0'', ''0'', ''0'', ''0'', show_nat 42, show_nat 17,
     ''0'', ''0'', ''20'', ''0'', show_nat 5, ''0'', ''99'', ''1000'', show_nat 987]"

theorem stat_line_read_back_witness:
  "proc_stat_parse (''7'' @ '' ('' @ ''a) b'' @ '') '' @ join_with '' '' stat_fields) =
     Some \<lparr>pt_cpu_ticks = 59, pt_num_threads = 5, pt_rss_pages = 987\<rparr>"
proof -
  have num: "show_nat n \<noteq> [] \<and> (\<forall>c \<in> set (show_nat n). \<not> is_space c \<and> c \<noteq> CHR '')'')" for n
    using show_nat_facts [of n] by (auto simp: list_all_iff is_digit_def is_space_def code_in_def)
  have words: "\<forall>w \<in> set stat_fields. w \<noteq> [] \<and> (\<forall>c \<in> set w. \<not> is_space c \<and> c \<noteq> CHR '')'')"
    unfolding stat_fields_def list.set ball_simps
    by (intro conjI num TrueI) (simp_all add: is_space_def code_in_def)
  have nths: "stat_fields ! 11 = show_nat 42" "stat_fields ! 12 = show_nat 17" "stat_fields ! 17 = show_nat 5"
      "stat_fields ! 21 = show_nat 987" "length stat_fields = 22" "hd stat_fields = ''S''"
    by (simp_all add: stat_fields_def del: show_nat.simps)
  show ?thesis
    using stat_line_read_back [of stat_fields 42 17 5 987 "''7''" "''a) b''", OF _ words nths(1-4)] nths(5,6) by simp
qed

text \<open>What a session is told in one tick.\<close>

definition monitored :: "kernel_state \<Rightarrow> bool" where
  "monitored s \<longleftrightarrow> ks_connected s \<and> ks_process_id s \<noteq> None"

definition reported :: "tick_input \<Rightarrow> nat \<Rightarrow> kernel_state \<Rightarrow> kernel_state \<Rightarrow> bool" where
  "reported tk n s s' \<longleftrightarrow>
     (if monitored s
      then \<exists>u. s' = s\<lparr>ks_resource_usage := Some (usage_of u), ks_ws_json_tx := chan_try (Kernel (ResourceUsageMsg u)) (ks_ws_json_tx s)\<rparr> \<and>
        up_sampling_period_ms u = n \<and> up_timestamp u = tk_timestamp tk
      else s' = s)"

lemma monitor_session_reported: "reported tk n s (fst (monitor_session tk n (i, s) ts))"
  by (auto simp: monitor_session_def monitored_def reported_def Let_def split: option.splits prod.splits)

lemma monitor_sessions_spec:
  "list_all2 (\<lambda>(i, s) (i', s'). i' = i \<and> reported tk n s s') ss (fst (monitor_sessions tk n ss ts))"
proof (induction ss arbitrary: ts)
  case (Cons x ss)
  obtain i s where x: "x = (i, s)"
    by fastforce
  obtain s1 ts1 where one: "monitor_session tk n (i, s) ts = (s1, ts1)"
    by fastforce
  obtain ss2 ts2 where rest: "monitor_sessions tk n ss ts1 = (ss2, ts2)"
    by fastforce
  show ?case
    using Cons.IH [of ts1] monitor_session_reported [of tk n s i ts] x one rest by simp
qed simp

text \<open>
  A tick of the monitor concerns exactly the sessions that have a client attached and a process:
  each of them gets one report, which is also stored in its state, and no other session changes.
  With sampling disabled or no client anywhere, nothing changes at all. Afterwards nothing is
  remembered of sessions that are gone.
\<close>

theorem monitor_reports_attached_sessions:
  assumes "monitor_tick tk ss m = (ss', m')"
  shows "if mo_interval m = 0 \<or> \<not> list_ex (\<lambda>(i, s). ks_connected s) ss then ss' = ss \<and> m' = m
    else list_all2 (\<lambda>(i, s) (i', s'). i' = i \<and> reported tk (mo_interval m) s s') ss ss' \<and>
      fst ` set (mo_trackers m') \<subseteq> fst ` set ss"
proof -
  obtain ss1 ts where e: "monitor_sessions tk (mo_interval m) ss (mo_trackers m) = (ss1, ts)"
    by fastforce
  show ?thesis
    using assms e monitor_sessions_spec [of tk "mo_interval m" ss "mo_trackers m"]
    by (auto simp: monitor_tick_def Let_def split: if_splits)
qed

definition sample_tick :: tick_input where
  "sample_tick = \<lparr>tk_now = 10, tk_timestamp = 11, tk_include_children = False, tk_children = (\<lambda>_. []), tk_sample = (\<lambda>_. None)\<rparr>"

theorem monitor_reports_attached_sessions_witness:
  "let ss = [(''s'', sample_state\<lparr>ks_connected := True, ks_process_id := Some 7\<rparr>)]; m = monitor_start 1000 1000
   in list_all2 (\<lambda>(i, s) (i', s'). i' = i \<and> reported sample_tick 1000 s s') ss (fst (monitor_tick sample_tick ss m))"
proof -
  let ?ss = "[(''s'', sample_state\<lparr>ks_connected := True, ks_process_id := Some 7\<rparr>)]"
  let ?m = "monitor_start 1000 1000"
  show ?thesis
    using monitor_reports_attached_sessions [of sample_tick ?ss ?m "fst (monitor_tick sample_tick ?ss ?m)" "snd (monitor_tick sample_tick ?ss ?m)"]
    by (simp add: Let_def monitor_start_def)
qed

definition cpu_before :: "process_sample list \<Rightarrow> nat \<rightharpoonup> nat" where
  "cpu_before samples = map_of (map (\<lambda>b. (sm_pid b, sm_cpu_time_ns b)) samples)"

definition cpu_spent :: "process_sample list \<Rightarrow> process_sample list \<Rightarrow> nat" where
  "cpu_spent before after =
     (\<Sum>s \<leftarrow> after. case cpu_before before (sm_pid s) of Some p \<Rightarrow> sm_cpu_time_ns s - p | None \<Rightarrow> 0)"

lemma previous_lookup:
  "distinct (map sm_pid xs) \<Longrightarrow>
     foldl (\<lambda>m s. m(sm_pid s \<mapsto> sm_cpu_time_ns s)) m xs p = (case cpu_before xs p of Some v \<Rightarrow> Some v | None \<Rightarrow> m p)"
proof (induction xs arbitrary: m)
  case (Cons x xs)
  have "cpu_before xs (sm_pid x) = None"
    using Cons.prems by (force simp: cpu_before_def map_of_eq_None_iff)
  then show ?case
    using Cons by (auto simp: cpu_before_def split: option.split)
qed (simp add: cpu_before_def)

text \<open>
  The percentage reported at a tick is the time the session's processes spent on the processor
  since the last tick, in hundredths of the time that passed: a process counts only if it was there
  at both ticks, and one whose counter went back, as when its number was reused, counts nothing.
\<close>

theorem cpu_percentage_exact:
  assumes "distinct (map sm_pid before)" and "t0 < now" and "cpu_spent before after * 100 < 2 ^ 64"
  shows "fst (usage_percent after now (snd (usage_percent before t0 t))) = cpu_spent before after * 100 div (now - t0)"
proof -
  let ?f = "\<lambda>s. case cpu_before before (sm_pid s) of Some p \<Rightarrow> sm_cpu_time_ns s - p | None \<Rightarrow> 0"
  have prev: "ct_previous (snd (usage_percent before t0 t)) = cpu_before before"
    using previous_lookup [OF assms(1), of Map.empty] by (auto simp: usage_percent_def Let_def split: option.splits)
  have "foldl (\<lambda>b s. case cpu_before before (sm_pid s) of
      Some p \<Rightarrow> (b + (sm_cpu_time_ns s - p)) mod 2 ^ 64 | None \<Rightarrow> b) b xs = b + sum_list (map ?f xs)"
    if "b + sum_list (map ?f xs) < 2 ^ 64" for b xs
    using that by (induction xs arbitrary: b) (auto split: option.split)
  from this [of 0 after] have busy: "foldl (\<lambda>b s. case cpu_before before (sm_pid s) of
      Some p \<Rightarrow> (b + (sm_cpu_time_ns s - p)) mod 2 ^ 64 | None \<Rightarrow> b) 0 after = cpu_spent before after"
    using assms(3) by (simp add: cpu_spent_def)
  have "cpu_spent before after * 100 div (now - t0) < 2 ^ 64"
    using assms(3) div_le_dividend [of "cpu_spent before after * 100" "now - t0"] by linarith
  moreover have "ct_sampled_at (snd (usage_percent before t0 t)) = Some t0"
    by (simp add: usage_percent_def Let_def)
  ultimately show ?thesis
    using assms(2) busy by (simp add: usage_percent_def [of after] Let_def prev)
qed

theorem cpu_percentage_exact_witness:
  "fst (usage_percent [\<lparr>sm_pid = 1, sm_cpu_time_ns = 50, sm_memory_bytes = 0, sm_thread_count = 1\<rparr>] 200
     (snd (usage_percent [\<lparr>sm_pid = 1, sm_cpu_time_ns = 0, sm_memory_bytes = 0, sm_thread_count = 1\<rparr>] 100 tracker_new))) = 50"
  using cpu_percentage_exact [of "[\<lparr>sm_pid = 1, sm_cpu_time_ns = 0, sm_memory_bytes = 0, sm_thread_count = 1\<rparr>]" 100 200
      "[\<lparr>sm_pid = 1, sm_cpu_time_ns = 50, sm_memory_bytes = 0, sm_thread_count = 1\<rparr>]" tracker_new]
  by (simp add: cpu_spent_def cpu_before_def)

end
