(* ===== verification/KC_Render.thy ===== *)
theory KC_Render
  imports KC_Execute KC_Ids "HOL-Library.State_Monad"
begin

text \<open>
  The part of \<open>mcp/handler.rs\<close> that turns what a kernel said into what an agent reads: terminal
  escapes are removed, and all text of one answer is paid for from one budget. The budget and the
  flag that something was cut are the state of a state monad, as the closure \<open>take\<close> captures them.
\<close>

section \<open>Terminal escapes\<close>

definition ESC :: char where "ESC = CHR 0x1B"
definition BEL :: char where "BEL = CHR 0x07"

text \<open>
  The pattern \<open>ANSI_ESCAPE\<close> as a reader: what follows the sequence that the text starts with. The
  character classes in a row are disjoint, so greedy matching needs no second try.
\<close>

definition csi_rest :: "string \<Rightarrow> string option" where
  "csi_rest s =
     (case dropWhile (code_in 0x20 0x2F) (dropWhile (code_in 0x30 0x3F) s) of
        c # r \<Rightarrow> if code_in 0x40 0x7E c then Some r else None
      | [] \<Rightarrow> None)"

definition osc_rest :: "string \<Rightarrow> string option" where
  "osc_rest s =
     (case dropWhile (\<lambda>c. c \<noteq> BEL \<and> c \<noteq> ESC) s of
        c # r \<Rightarrow>
          if c = BEL then Some r
          else (case r of d # r' \<Rightarrow> if d = CHR 0x5C then Some r' else None | [] \<Rightarrow> None)
      | [] \<Rightarrow> None)"

fun ansi_rest :: "string \<Rightarrow> string option" where
  "ansi_rest (c # d # s) =
     (if c \<noteq> ESC then None
      else if d = CHR ''['' then csi_rest s
      else if d = CHR '']'' then osc_rest s
      else None)"
| "ansi_rest _ = None"

lemma csi_rest_suffix: "csi_rest s = Some r \<Longrightarrow> \<exists>a. s = a @ r"
proof -
  assume "csi_rest s = Some r"
  then obtain c where "dropWhile (code_in 0x20 0x2F) (dropWhile (code_in 0x30 0x3F) s) = c # r"
    by (auto simp: csi_rest_def split: list.splits if_splits)
  then show ?thesis
    by (metis append.assoc append_Cons append_Nil takeWhile_dropWhile_id)
qed

lemma osc_rest_suffix: "osc_rest s = Some r \<Longrightarrow> \<exists>a. s = a @ r"
proof -
  assume "osc_rest s = Some r"
  then obtain a where "dropWhile (\<lambda>c. c \<noteq> BEL \<and> c \<noteq> ESC) s = a @ r"
    by (auto simp: osc_rest_def split: list.splits if_splits intro: that [of "[_]"] that [of "[_, _]"])
  then show ?thesis
    by (metis append.assoc takeWhile_dropWhile_id)
qed

lemma ansi_rest_shorter: "ansi_rest s = Some r \<Longrightarrow> length r < length s"
  by (induction s rule: ansi_rest.induct) (auto split: if_splits dest!: csi_rest_suffix osc_rest_suffix)

function strip_ansi :: "string \<Rightarrow> string" where
  "strip_ansi [] = []"
| "strip_ansi (c # s) = (case ansi_rest (c # s) of Some r \<Rightarrow> strip_ansi r | None \<Rightarrow> c # strip_ansi s)"
  by pat_completeness auto

termination
  by (relation "measure length") (auto dest: ansi_rest_shorter)

section \<open>The budget\<close>

type_synonym purse = "nat \<times> bool"

definition MAX_TEXT_BYTES :: nat where "MAX_TEXT_BYTES = 32 * 1024"
definition LISTED_HISTORY_BYTES :: nat where "LISTED_HISTORY_BYTES = 4 * 1024"

definition take_budget :: "string \<Rightarrow> nat \<Rightarrow> (string \<times> bool) \<times> nat" where
  "take_budget s budget =
     (if length s \<le> budget then ((s, False), budget - length s)
      else ((take (floor_from s budget) s, True), 0))"

text \<open>The closure \<open>take\<close>.\<close>

definition spend :: "string \<Rightarrow> (purse, string) state" where
  "spend s = State (\<lambda>(budget, fl).
     let ((s', c), budget') = take_budget (strip_ansi s) budget in (s', (budget', fl \<or> c)))"

definition spend_lines :: "string list \<Rightarrow> (purse, string list) state" where
  "spend_lines ls =
     do {
       ls' \<leftarrow> traverse_list spend ls;
       State_Monad.return (filter (\<lambda>l. l \<noteq> []) ls')
     }"

definition spend_option :: "string option \<Rightarrow> (purse, string option) state" where
  "spend_option s =
     (case s of
        None \<Rightarrow> State_Monad.return None
      | Some s \<Rightarrow> do { s' \<leftarrow> spend s; State_Monad.return (Some s') })"

definition spend_values :: "(string \<times> string) list \<Rightarrow> (purse, (string \<times> string) list) state" where
  "spend_values kvs =
     traverse_list (\<lambda>(k, v). do { v' \<leftarrow> spend v; State_Monad.return (k, v') }) kvs"

section \<open>An execute reply\<close>

datatype content_block = ImageBlock string string

definition DISPLAY_TEXT_TYPES :: "string list" where
  "DISPLAY_TEXT_TYPES = [''text/plain'', ''text/markdown'']"

definition is_renderable_image :: "string \<Rightarrow> bool" where
  "is_renderable_image mime \<longleftrightarrow> mime = ''image/png'' \<or> mime = ''image/jpeg''"

definition collect_images :: "(string \<times> string) list \<Rightarrow> content_block list \<Rightarrow> content_block list" where
  "collect_images data images =
     images @ map (\<lambda>(mime, value). ImageBlock value mime) (filter (\<lambda>(mime, _). is_renderable_image mime) data)"

text \<open>What the first loop of \<open>render_reply\<close> gathers.\<close>

record gathered =
  ga_stdout :: string
  ga_stderr :: string
  ga_displays :: "(string \<times> string) list list"
  ga_images :: "content_block list"
  ga_error :: "(string option \<times> string option \<times> string list option) option"

definition gather :: "execute_output \<Rightarrow> gathered \<Rightarrow> gathered" where
  "gather out g =
     (case out_type out of
        StreamOutput \<Rightarrow>
          (let s = (case out_text out of Some s \<Rightarrow> s | None \<Rightarrow> []) in
           if out_stream_name out = Some ''stderr'' then g\<lparr>ga_stderr := ga_stderr g @ s\<rparr>
           else g\<lparr>ga_stdout := ga_stdout g @ s\<rparr>)
      | DisplayDataOutput \<Rightarrow>
          (case out_data out of
             None \<Rightarrow> g
           | Some data \<Rightarrow>
               (let g = g\<lparr>ga_images := collect_images data (ga_images g)\<rparr>;
                    t = filter (\<lambda>(mime, _). mime \<in> set DISPLAY_TEXT_TYPES) data
                in if t = [] then g else g\<lparr>ga_displays := ga_displays g @ [t]\<rparr>))
      | ErrorOutput \<Rightarrow> g\<lparr>ga_error := Some (out_error_name out, out_error_message out, out_error_traceback out)\<rparr>)"

definition gather_all :: "execute_reply \<Rightarrow> gathered" where
  "gather_all reply =
     (let g = fold gather (er_output reply)
                \<lparr>ga_stdout = [], ga_stderr = [], ga_displays = [], ga_images = [], ga_error = None\<rparr>
      in if ga_error g = None \<and> er_error_name reply \<noteq> None
         then g\<lparr>ga_error := Some (er_error_name reply, er_error_message reply, er_error_traceback reply)\<rparr>
         else g)"

record rendered_error =
  re_name :: "string option"
  re_message :: "string option"
  re_traceback :: "string list option"

record rendered =
  rn_error :: "rendered_error option"
  rn_stdout :: string
  rn_stderr :: string
  rn_result :: "(string \<times> string) list option"
  rn_displays :: "(string \<times> string) list list"

definition spend_error :: "string option \<times> string option \<times> string list option \<Rightarrow> (purse, rendered_error) state" where
  "spend_error e =
     (case e of (name, message, tb) \<Rightarrow>
        do {
          message' \<leftarrow> spend_option message;
          tb' \<leftarrow> (case tb of
                    None \<Rightarrow> State_Monad.return None
                  | Some ls \<Rightarrow> do { ls' \<leftarrow> spend_lines ls; State_Monad.return (Some ls') });
          State_Monad.return \<lparr>re_name = name, re_message = message', re_traceback = tb'\<rparr>
        })"

definition not_image :: "(string \<times> string) list \<Rightarrow> (string \<times> string) list" where
  "not_image data = filter (\<lambda>(mime, _). \<not> starts_with ''image/'' mime) data"

definition spend_reply :: "gathered \<Rightarrow> (string \<times> string) list option \<Rightarrow> (purse, rendered) state" where
  "spend_reply g data =
     do {
       err \<leftarrow> (case ga_error g of
                 None \<Rightarrow> State_Monad.return None
               | Some e \<Rightarrow> do { e' \<leftarrow> spend_error e; State_Monad.return (Some e') });
       out \<leftarrow> spend (ga_stdout g);
       err_out \<leftarrow> spend (ga_stderr g);
       result \<leftarrow> (case data of
                    None \<Rightarrow> State_Monad.return None
                  | Some d \<Rightarrow> do { d' \<leftarrow> spend_values (not_image d); State_Monad.return (Some d') });
       displays \<leftarrow> traverse_list spend_values (ga_displays g);
       State_Monad.return \<lparr>rn_error = err, rn_stdout = out, rn_stderr = err_out, rn_result = result, rn_displays = displays\<rparr>
     }"

definition json_values :: "(string \<times> string) list \<Rightarrow> json" where
  "json_values kvs = JObject (map (\<lambda>(k, v). (k, JString v)) kvs)"

definition error_json :: "rendered_error option \<Rightarrow> json" where
  "error_json e =
     (case e of
        None \<Rightarrow> JNull
      | Some e \<Rightarrow> JObject
          [(''name'', opt_string (re_name e)), (''message'', opt_string (re_message e)),
           (''traceback'', case re_traceback e of None \<Rightarrow> JNull | Some ls \<Rightarrow> JArray (map JString ls))])"

definition render_reply :: "execute_reply \<Rightarrow> json \<times> content_block list" where
  "render_reply reply =
     (let g = gather_all reply;
          images = (case er_data reply of None \<Rightarrow> ga_images g | Some data \<Rightarrow> collect_images data (ga_images g));
          (r, (_, cut)) = run_state (spend_reply g (er_data reply)) (MAX_TEXT_BYTES, False)
      in (JObject
            [(''status'', JString (case er_status reply of ReplyOk \<Rightarrow> ''ok'' | ReplyError \<Rightarrow> ''error'')),
             (''execution_count'', JInt (sint (er_count reply))),
             (''stdout'', JString (rn_stdout r)),
             (''stderr'', JString (rn_stderr r)),
             (''result'', case rn_result r of None \<Rightarrow> JNull | Some d \<Rightarrow> json_values d),
             (''displays'', JArray (map json_values (rn_displays r))),
             (''images'', JInt (int (length images))),
             (''error'', error_json (rn_error r)),
             (''truncated'', JBool cut)],
          images))"

section \<open>The history\<close>

definition spend_entry :: "history_entry_model \<Rightarrow> (purse, history_entry_model) state" where
  "spend_entry e =
     do {
       input \<leftarrow> spend (hm_input e);
       err \<leftarrow> (case hm_error e of
                 None \<Rightarrow> State_Monad.return None
               | Some er \<Rightarrow>
                   do {
                     message \<leftarrow> spend (err_message er);
                     tb \<leftarrow> spend_lines (err_traceback er);
                     State_Monad.return (Some (er\<lparr>err_message := message, err_traceback := tb\<rparr>))
                   });
       output \<leftarrow> spend (hm_output e);
       State_Monad.return (e\<lparr>hm_input := input, hm_error := err, hm_output := output\<rparr>)
     }"

text \<open>The loop over the entries, the newest first.\<close>

fun render_entries :: "history_entry_model list \<Rightarrow> purse \<Rightarrow> history_entry_model list \<times> bool" where
  "render_entries [] (budget, fl) = ([], fl)"
| "render_entries (e # es) (budget, fl) =
     (if budget = 0 then ([], True)
      else
        (let (e', p) = run_state (spend_entry e) (budget, fl);
             (es', cut') = render_entries es p
         in (e' # es', cut')))"

definition render_history :: "history_entry_model list \<Rightarrow> nat \<Rightarrow> history_entry_model list \<times> bool" where
  "render_history entries budget =
     (let (rendered, cut) = render_entries (rev entries) (budget, False) in (rev rendered, cut))"

section \<open>Command results and progress\<close>

definition command_image :: "json \<Rightarrow> (content_block \<times> string option) option" where
  "command_image result =
     do {
       kind \<leftarrow> json_get ''kind'' result;
       k \<leftarrow> as_str kind;
       if k \<noteq> ''image'' then None
       else do {
         mt \<leftarrow> json_get ''mimeType'' result;
         mime \<leftarrow> as_str mt;
         if \<not> is_renderable_image mime then None
         else do {
           dt \<leftarrow> json_get ''data'' result;
           data \<leftarrow> as_str dt;
           Some (ImageBlock data mime, case json_get ''note'' result of None \<Rightarrow> None | Some n \<Rightarrow> as_str n)
         }
       }
     }"

text \<open>
  \<open>report_progress\<close>: each group is what arrives in the channel within one interval; the
  notifications sent are numbered from one.
\<close>

definition progress_message :: "string list \<Rightarrow> string" where
  "progress_message parts = fst (fst (take_budget (strip_ansi (concat parts)) MAX_TEXT_BYTES))"

definition report_progress :: "string list list \<Rightarrow> (nat \<times> string) list" where
  "report_progress groups = zip [1..<length groups + 1] (map progress_message groups)"


section \<open>What is paid for\<close>

text \<open>
  A computation that wants to show \<open>W\<close> shows all of it if the purse allows it, and otherwise a first
  part of it that is at most three bytes short of what the purse allows, and leaves the purse empty.
\<close>

definition spent :: "string \<Rightarrow> string \<Rightarrow> purse \<Rightarrow> purse \<Rightarrow> bool" where
  "spent W U p p' \<longleftrightarrow>
     (snd p' \<longleftrightarrow> snd p \<or> fst p < length W) \<and>
     (if length W \<le> fst p then U = W \<and> fst p' = fst p - length W
      else fst p' = 0 \<and> (\<exists>k \<le> fst p. fst p < k + 4 \<and> U = take k W))"

definition pays :: "string \<Rightarrow> (purse, 'a) state \<Rightarrow> string \<Rightarrow> ('a \<Rightarrow> string) \<Rightarrow> bool" where
  "pays a m W shown \<longleftrightarrow> (\<forall>p x p'. run_state m p = (x, p') \<longrightarrow> (\<exists>u. shown x = a @ u \<and> spent W u p p'))"

lemma spent_Nil: "spent [] [] p p"
  by (simp add: spent_def)

lemma spent_append:
  assumes "spent W1 U1 p p1" and "spent W2 U2 p1 p2"
  shows "spent (W1 @ W2) (U1 @ U2) p p2"
proof (cases "length W1 \<le> fst p")
  case True
  then have one: "U1 = W1" "fst p1 = fst p - length W1" "snd p1 = snd p"
    using assms(1) by (auto simp: spent_def)
  show ?thesis
  proof (cases "length W2 \<le> fst p1")
    case True
    then show ?thesis
      using one assms(2) \<open>length W1 \<le> fst p\<close> by (auto simp: spent_def)
  next
    case False
    then obtain k where k: "k \<le> fst p1" "fst p1 < k + 4" "U2 = take k W2" "fst p2 = 0" "snd p2"
      using assms(2) by (auto simp: spent_def)
    then have "U1 @ U2 = take (length W1 + k) (W1 @ W2)"
      using one by simp
    then show ?thesis
      using k one False \<open>length W1 \<le> fst p\<close> by (auto simp: spent_def intro!: exI [of _ "length W1 + k"])
  qed
next
  case False
  then obtain k where k: "k \<le> fst p" "fst p < k + 4" "U1 = take k W1" "fst p1 = 0" "snd p1"
    using assms(1) by (auto simp: spent_def)
  then have "U2 = []" "fst p2 = 0" "snd p2"
    using assms(2) by (auto simp: spent_def split: if_splits)
  then show ?thesis
    using k False by (auto simp: spent_def intro!: exI [of _ k])
qed

lemma pays_return: "shown x = a \<Longrightarrow> pays a (State_Monad.return x) [] shown"
  by (simp add: pays_def spent_Nil)

lemma pays_bind:
  assumes "pays [] m W1 t" and "\<And>x. pays (a @ t x) (f x) W2 shown"
  shows "pays a (State_Monad.bind m f) (W1 @ W2) shown"
  unfolding pays_def
proof (intro allI impI)
  fix p y p'
  assume run: "run_state (State_Monad.bind m f) p = (y, p')"
  obtain x p1 where x: "run_state m p = (x, p1)"
    by (meson surj_pair)
  then have "run_state (f x) p1 = (y, p')"
    using run by simp
  then show "\<exists>u. shown y = a @ u \<and> spent (W1 @ W2) u p p'"
    using assms x unfolding pays_def by (metis append.assoc append_Nil spent_append)
qed

lemma pays_last:
  assumes "pays [] m W t" and "\<And>x. shown (f x) = a @ t x"
  shows "pays a (State_Monad.bind m (\<lambda>x. State_Monad.return (f x))) W shown"
proof -
  have "pays a (State_Monad.bind m (\<lambda>x. State_Monad.return (f x))) (W @ []) shown"
    using assms by (intro pays_bind pays_return)
  then show ?thesis
    by simp
qed

lemma floor_from_max: "is_char_boundary t j \<Longrightarrow> j \<le> i \<Longrightarrow> j \<le> floor_from t i"
proof (induction i)
  case (Suc i)
  then show ?case
    by (cases "j = Suc i") (auto simp: floor_from.simps [of t "Suc i"])
qed simp

lemma floor_from_near:
  assumes "str_ok s" and "b < length s"
  shows "b < floor_from s b + 4"
proof (cases "b < 3")
  case False
  obtain i where i: "b - 3 \<le> i" "i \<le> b" "is_char_boundary (take (Suc b) s) i"
    using boundary_near_end [of "take (Suc b) s" 4] str_ok_take [OF assms(1)] assms(2) False by auto
  then have "is_char_boundary s i"
    using assms(2) by (auto simp: is_char_boundary_def split: if_splits)
  then show ?thesis
    using floor_from_max [of s i b] i by linarith
qed simp

lemma pays_spend: "str_ok (strip_ansi s) \<Longrightarrow> pays [] (spend s) (strip_ansi s) (\<lambda>u. u)"
proof -
  assume ok: "str_ok (strip_ansi s)"
  let ?w = "strip_ansi s"
  have "\<exists>k \<le> b. b < k + 4 \<and> take (floor_from ?w b) ?w = take k ?w" if "b < length ?w" for b
    using floor_from_near [OF ok that] floor_from_spec [of ?w b] by blast
  then show ?thesis
    by (auto simp: pays_def spend_def spent_def take_budget_def Let_def split: if_splits)
qed

lemma pays_lines:
  assumes "\<forall>l \<in> set ls. str_ok (strip_ansi l)"
  shows "pays [] (spend_lines ls) (concat (map strip_ansi ls)) concat"
proof -
  have "pays [] (traverse_list spend ls) (concat (map strip_ansi ls)) concat"
    using assms
  proof (induction ls)
    case (Cons l ls)
    show ?case
      unfolding traverse_list.simps list.map concat.simps using Cons
      by (intro pays_bind [OF pays_spend] pays_last) auto
  qed (simp add: pays_return)
  moreover have "concat (filter (\<lambda>l. l \<noteq> []) xs) = concat xs" for xs :: "string list"
    by (induction xs) auto
  ultimately show ?thesis
    unfolding spend_lines_def by (intro pays_last) auto
qed

definition wanted_option :: "string option \<Rightarrow> string" where
  "wanted_option s = (case s of None \<Rightarrow> [] | Some s \<Rightarrow> strip_ansi s)"

definition shown_option :: "string option \<Rightarrow> string" where
  "shown_option s = (case s of None \<Rightarrow> [] | Some s \<Rightarrow> s)"

lemma pays_option:
  assumes "\<forall>t \<in> set_option s. str_ok (strip_ansi t)"
  shows "pays [] (spend_option s) (wanted_option s) shown_option"
proof (cases s)
  case (Some t)
  then show ?thesis
    using assms pays_last [OF pays_spend, of t shown_option Some "[]"]
    by (simp add: spend_option_def wanted_option_def shown_option_def)
qed (simp add: spend_option_def wanted_option_def shown_option_def pays_return)

definition wanted_values :: "(string \<times> string) list \<Rightarrow> string" where
  "wanted_values kvs = concat (map (\<lambda>(k, v). strip_ansi v) kvs)"

definition shown_values :: "(string \<times> string) list \<Rightarrow> string" where
  "shown_values kvs = concat (map snd kvs)"

lemma pays_values:
  assumes "\<forall>v \<in> snd ` set kvs. str_ok (strip_ansi v)"
  shows "pays [] (spend_values kvs) (wanted_values kvs) shown_values"
  using assms
proof (induction kvs)
  case Nil
  then show ?case
    by (simp add: spend_values_def wanted_values_def shown_values_def pays_return)
next
  case (Cons kv kvs)
  obtain k v where kv: "kv = (k, v)"
    by fastforce
  have one: "pays [] (State_Monad.bind (spend v) (\<lambda>v'. State_Monad.return (k, v'))) (strip_ansi v) snd"
    using Cons.prems kv by (intro pays_last [OF pays_spend]) auto
  have rest: "pays [] (traverse_list (\<lambda>(k, v). State_Monad.bind (spend v) (\<lambda>v'. State_Monad.return (k, v'))) kvs)
      (wanted_values kvs) shown_values"
    using Cons unfolding spend_values_def by simp
  have want: "wanted_values (kv # kvs) = strip_ansi v @ wanted_values kvs"
    by (simp add: wanted_values_def kv)
  show ?case
    unfolding want unfolding spend_values_def traverse_list.simps kv split
    by (rule pays_bind [OF one], rule pays_last [OF rest]) (simp add: shown_values_def)
qed


text \<open>The text of a reply, as wanted and as shown, in the order in which it is paid for.\<close>

definition wanted_error :: "string option \<times> string option \<times> string list option \<Rightarrow> string" where
  "wanted_error e =
     (case e of (name, message, tb) \<Rightarrow>
        wanted_option message @ (case tb of None \<Rightarrow> [] | Some ls \<Rightarrow> concat (map strip_ansi ls)))"

definition shown_error :: "rendered_error \<Rightarrow> string" where
  "shown_error e = shown_option (re_message e) @ (case re_traceback e of None \<Rightarrow> [] | Some ls \<Rightarrow> concat ls)"

definition wanted_reply :: "gathered \<Rightarrow> (string \<times> string) list option \<Rightarrow> string" where
  "wanted_reply g data =
     (case ga_error g of None \<Rightarrow> [] | Some e \<Rightarrow> wanted_error e) @ strip_ansi (ga_stdout g) @ strip_ansi (ga_stderr g) @
     (case data of None \<Rightarrow> [] | Some d \<Rightarrow> wanted_values (not_image d)) @ concat (map wanted_values (ga_displays g))"

definition shown_reply :: "rendered \<Rightarrow> string" where
  "shown_reply r =
     (case rn_error r of None \<Rightarrow> [] | Some e \<Rightarrow> shown_error e) @ rn_stdout r @ rn_stderr r @
     (case rn_result r of None \<Rightarrow> [] | Some d \<Rightarrow> shown_values d) @ concat (map shown_values (rn_displays r))"

definition error_texts :: "string option \<times> string option \<times> string list option \<Rightarrow> string set" where
  "error_texts e = (case e of (name, message, tb) \<Rightarrow> set_option message \<union> (\<Union>ls \<in> set_option tb. set ls))"

definition reply_texts :: "gathered \<Rightarrow> (string \<times> string) list option \<Rightarrow> string set" where
  "reply_texts g data =
     (\<Union>e \<in> set_option (ga_error g). error_texts e) \<union> {ga_stdout g, ga_stderr g} \<union>
     (\<Union>d \<in> set_option data. snd ` set (not_image d)) \<union> (\<Union>d \<in> set (ga_displays g). snd ` set d)"

lemma pays_error:
  assumes "\<forall>t \<in> error_texts e. str_ok (strip_ansi t)"
  shows "pays [] (spend_error e) (wanted_error e) shown_error"
proof -
  obtain name message tb where e: "e = (name, message, tb)"
    using prod_cases3 by blast
  let ?tb = "case tb of None \<Rightarrow> State_Monad.return None
    | Some ls \<Rightarrow> State_Monad.bind (spend_lines ls) (\<lambda>ls'. State_Monad.return (Some ls'))"
  have one: "pays [] (spend_option message) (wanted_option message) shown_option"
    using assms by (intro pays_option) (auto simp: e error_texts_def)
  have two: "pays [] ?tb (case tb of None \<Rightarrow> [] | Some ls \<Rightarrow> concat (map strip_ansi ls))
      (\<lambda>t. case t of None \<Rightarrow> [] | Some ls \<Rightarrow> concat ls)"
    using assms by (cases tb) (auto simp: e error_texts_def intro!: pays_return pays_last [OF pays_lines])
  show ?thesis
    unfolding spend_error_def wanted_error_def e split
    by (rule pays_bind [OF one], rule pays_last [OF two]) (simp add: shown_error_def)
qed

lemma pays_all_values:
  "\<forall>d \<in> set ds. \<forall>v \<in> snd ` set d. str_ok (strip_ansi v) \<Longrightarrow>
     pays [] (traverse_list spend_values ds) (concat (map wanted_values ds)) (\<lambda>ds. concat (map shown_values ds))"
proof (induction ds)
  case (Cons d ds)
  have rest: "pays [] (traverse_list spend_values ds) (concat (map wanted_values ds)) (\<lambda>ds. concat (map shown_values ds))"
    using Cons by simp
  show ?case
    unfolding traverse_list.simps list.map concat.simps
    by (rule pays_bind [OF pays_values], use Cons.prems in simp, rule pays_last [OF rest], simp)
qed (simp add: pays_return)

lemma pays_reply:
  assumes "\<forall>t \<in> reply_texts g data. str_ok (strip_ansi t)"
  shows "pays [] (spend_reply g data) (wanted_reply g data) shown_reply"
proof -
  let ?err = "case ga_error g of None \<Rightarrow> State_Monad.return None
    | Some e \<Rightarrow> State_Monad.bind (spend_error e) (\<lambda>e'. State_Monad.return (Some e'))"
  let ?res = "case data of None \<Rightarrow> State_Monad.return None
    | Some d \<Rightarrow> State_Monad.bind (spend_values (not_image d)) (\<lambda>d'. State_Monad.return (Some d'))"
  have err: "pays [] ?err (case ga_error g of None \<Rightarrow> [] | Some e \<Rightarrow> wanted_error e)
      (\<lambda>t. case t of None \<Rightarrow> [] | Some e \<Rightarrow> shown_error e)"
    using assms by (cases "ga_error g") (auto simp: reply_texts_def intro!: pays_return pays_last [OF pays_error])
  have res: "pays [] ?res (case data of None \<Rightarrow> [] | Some d \<Rightarrow> wanted_values (not_image d))
      (\<lambda>t. case t of None \<Rightarrow> [] | Some d \<Rightarrow> shown_values d)"
    using assms by (cases data) (auto simp: reply_texts_def intro!: pays_return pays_last [OF pays_values])
  have out: "pays [] (spend (ga_stdout g)) (strip_ansi (ga_stdout g)) (\<lambda>u. u)"
    "pays [] (spend (ga_stderr g)) (strip_ansi (ga_stderr g)) (\<lambda>u. u)"
    using assms by (auto simp: reply_texts_def intro!: pays_spend)
  have dis: "pays [] (traverse_list spend_values (ga_displays g)) (concat (map wanted_values (ga_displays g)))
      (\<lambda>ds. concat (map shown_values ds))"
    using assms unfolding reply_texts_def by (intro pays_all_values) blast
  show ?thesis
    unfolding spend_reply_def wanted_reply_def
    by (rule pays_bind [OF err], rule pays_bind [OF out(1)], rule pays_bind [OF out(2)], rule pays_bind [OF res],
        rule pays_last [OF dis]) (simp add: shown_reply_def)
qed


text \<open>An entry of the history, in the same way.\<close>

definition wanted_entry :: "history_entry_model \<Rightarrow> string" where
  "wanted_entry e =
     strip_ansi (hm_input e) @
     (case hm_error e of None \<Rightarrow> [] | Some er \<Rightarrow> strip_ansi (err_message er) @ concat (map strip_ansi (err_traceback er))) @
     strip_ansi (hm_output e)"

definition shown_entry :: "history_entry_model \<Rightarrow> string" where
  "shown_entry e =
     hm_input e @ (case hm_error e of None \<Rightarrow> [] | Some er \<Rightarrow> err_message er @ concat (err_traceback er)) @ hm_output e"

definition entry_texts :: "history_entry_model \<Rightarrow> string set" where
  "entry_texts e =
     {hm_input e, hm_output e} \<union> (\<Union>er \<in> set_option (hm_error e). insert (err_message er) (set (err_traceback er)))"

definition same_entry :: "history_entry_model \<Rightarrow> history_entry_model \<Rightarrow> bool" where
  "same_entry e e' \<longleftrightarrow>
     e' = e\<lparr>hm_input := hm_input e', hm_error := hm_error e', hm_output := hm_output e'\<rparr> \<and>
     map_option err_name (hm_error e') = map_option err_name (hm_error e)"

lemma pays_entry:
  assumes "\<forall>t \<in> entry_texts e. str_ok (strip_ansi t)"
  shows "pays [] (spend_entry e) (wanted_entry e) shown_entry"
proof -
  let ?err = "case hm_error e of None \<Rightarrow> State_Monad.return None
    | Some er \<Rightarrow> State_Monad.bind (spend (err_message er)) (\<lambda>message.
        State_Monad.bind (spend_lines (err_traceback er)) (\<lambda>tb.
          State_Monad.return (Some (er\<lparr>err_message := message, err_traceback := tb\<rparr>))))"
  have out: "pays [] (spend (hm_input e)) (strip_ansi (hm_input e)) (\<lambda>u. u)"
    "pays [] (spend (hm_output e)) (strip_ansi (hm_output e)) (\<lambda>u. u)"
    using assms by (auto simp: entry_texts_def intro!: pays_spend)
  have err: "pays [] ?err
      (case hm_error e of None \<Rightarrow> [] | Some er \<Rightarrow> strip_ansi (err_message er) @ concat (map strip_ansi (err_traceback er)))
      (\<lambda>x. case x of None \<Rightarrow> [] | Some er \<Rightarrow> err_message er @ concat (err_traceback er))"
    using assms
    by (cases "hm_error e")
       (auto simp: entry_texts_def intro!: pays_return pays_bind [OF pays_spend] pays_last [OF pays_lines])
  show ?thesis
    unfolding spend_entry_def wanted_entry_def
    by (rule pays_bind [OF out(1)], rule pays_bind [OF err], rule pays_last [OF out(2)]) (simp add: shown_entry_def)
qed

lemma spend_entry_same: "run_state (spend_entry e) p = (e', p') \<Longrightarrow> same_entry e e'"
  by (cases "hm_error e") (auto simp: spend_entry_def same_entry_def split: prod.splits)

lemma render_entries_spec:
  assumes "\<forall>e \<in> set es. \<forall>t \<in> entry_texts e. str_ok (strip_ansi t)" and "render_entries es p = (es', fl)"
  shows "\<exists>p'. length es' \<le> length es \<and> list_all2 same_entry (take (length es') es) es' \<and>
    spent (concat (map wanted_entry (take (length es') es))) (concat (map shown_entry es')) p p' \<and>
    (fl \<longleftrightarrow> snd p' \<or> length es' < length es)"
  using assms
proof (induction es p arbitrary: es' fl rule: render_entries.induct)
  case (1 budget f)
  then show ?case
    by (auto intro!: exI [of _ "(budget, f)"] spent_Nil)
next
  case (2 e es budget f)
  show ?case
  proof (cases "budget = 0")
    case True
    then show ?thesis
      using 2(3) by (auto intro!: exI [of _ "(budget, f)"] spent_Nil)
  next
    case False
    obtain e1 p1 where one: "run_state (spend_entry e) (budget, f) = (e1, p1)"
      by (meson surj_pair)
    obtain es1 fl1 where rest: "render_entries es p1 = (es1, fl1)"
      by (meson surj_pair)
    have eq: "es' = e1 # es1" "fl = fl1"
      using 2(3) False one rest by simp_all
    have "\<exists>p'. length es1 \<le> length es \<and> list_all2 same_entry (take (length es1) es) es1 \<and>
        spent (concat (map wanted_entry (take (length es1) es))) (concat (map shown_entry es1)) p1 p' \<and>
        (fl1 \<longleftrightarrow> snd p' \<or> length es1 < length es)"
      using 2(2) by (intro 2(1) [OF False refl, unfolded one, OF refl _ rest]) auto
    then obtain p' where p': "length es1 \<le> length es" "list_all2 same_entry (take (length es1) es) es1"
        "spent (concat (map wanted_entry (take (length es1) es))) (concat (map shown_entry es1)) p1 p'"
        "fl1 \<longleftrightarrow> snd p' \<or> length es1 < length es"
      by blast
    have "spent (wanted_entry e) (shown_entry e1) (budget, f) p1"
      using pays_entry [of e] 2(2) one unfolding pays_def by fastforce
    from spent_append [OF this p'(3)] show ?thesis
      using p' eq spend_entry_same [OF one] by (intro exI [of _ p']) simp
  qed
qed

section \<open>Escape sequences\<close>

inductive escape_sequence :: "string \<Rightarrow> bool" where
  csi: "list_all (code_in 0x30 0x3F) ps \<Longrightarrow> list_all (code_in 0x20 0x2F) is \<Longrightarrow> code_in 0x40 0x7E f \<Longrightarrow>
     escape_sequence ([ESC, CHR ''[''] @ ps @ is @ [f])"
| osc_bel: "BEL \<notin> set ts \<Longrightarrow> ESC \<notin> set ts \<Longrightarrow> escape_sequence ([ESC, CHR '']''] @ ts @ [BEL])"
| osc_st: "BEL \<notin> set ts \<Longrightarrow> ESC \<notin> set ts \<Longrightarrow> escape_sequence ([ESC, CHR '']''] @ ts @ [ESC, CHR 0x5C])"

lemma dropWhile_prefix: "list_all P xs \<Longrightarrow> \<not> P y \<Longrightarrow> dropWhile P (xs @ y # ys) = y # ys"
  by (induction xs) auto

lemma escape_sequence_rest: "escape_sequence q \<Longrightarrow> \<exists>r. q = ESC # r \<and> ansi_rest (q @ s) = Some s"
proof (induction rule: escape_sequence.induct)
  case (csi ps "is" f)
  have "dropWhile (code_in 0x20 0x2F) (dropWhile (code_in 0x30 0x3F) (ps @ is @ f # s)) = f # s"
  proof (cases "is")
    case Nil
    have "dropWhile (code_in 0x30 0x3F) (ps @ f # s) = f # s"
      using csi by (intro dropWhile_prefix) (auto simp: code_in_def)
    then show ?thesis
      using csi Nil by (simp add: code_in_def)
  next
    case (Cons i js)
    have "dropWhile (code_in 0x30 0x3F) (ps @ i # (js @ f # s)) = i # (js @ f # s)"
      using csi Cons by (intro dropWhile_prefix) (auto simp: code_in_def)
    moreover have "dropWhile (code_in 0x20 0x2F) (is @ f # s) = f # s"
      using csi by (intro dropWhile_prefix) (auto simp: code_in_def)
    ultimately show ?thesis
      using Cons by simp
  qed
  then show ?case
    using csi by (simp add: csi_rest_def)
next
  case (osc_bel ts)
  have "dropWhile (\<lambda>c. c \<noteq> BEL \<and> c \<noteq> ESC) (ts @ BEL # s) = BEL # s"
    using osc_bel by (intro dropWhile_prefix) (auto simp: list_all_iff)
  then show ?case
    by (simp add: osc_rest_def)
next
  case (osc_st ts)
  have "dropWhile (\<lambda>c. c \<noteq> BEL \<and> c \<noteq> ESC) (ts @ ESC # CHR 0x5C # s) = ESC # CHR 0x5C # s"
    using osc_st by (intro dropWhile_prefix) (auto simp: list_all_iff)
  then show ?case
    by (simp add: osc_rest_def BEL_def ESC_def)
qed

lemma strip_plain: "ESC \<notin> set t \<Longrightarrow> strip_ansi (t @ s) = t @ strip_ansi s"
proof (induction t)
  case (Cons c t)
  have "ansi_rest (c # x) = None" for x
    using Cons.prems by (cases x) auto
  then show ?case
    using Cons by simp
qed simp

lemma strip_sequence: "escape_sequence q \<Longrightarrow> strip_ansi (q @ s) = strip_ansi s"
  using escape_sequence_rest [of q s] by auto


section \<open>Properties\<close>

text \<open>The text in the body an agent receives.\<close>

definition json_text :: "json \<Rightarrow> string" where
  "json_text v = (case as_str v of Some s \<Rightarrow> s | None \<Rightarrow> [])"

definition array_text :: "json \<Rightarrow> string" where
  "array_text v = (case v of JArray vs \<Rightarrow> concat (map json_text vs) | _ \<Rightarrow> [])"

definition object_text :: "json \<Rightarrow> string" where
  "object_text v = (case v of JObject kvs \<Rightarrow> concat (map (\<lambda>kv. json_text (snd kv)) kvs) | _ \<Rightarrow> [])"

definition body_text :: "json \<Rightarrow> string" where
  "body_text b =
     (let e = json_index b ''error'' in json_text (json_index e ''message'') @ array_text (json_index e ''traceback'')) @
     json_text (json_index b ''stdout'') @ json_text (json_index b ''stderr'') @ object_text (json_index b ''result'') @
     (case json_index b ''displays'' of JArray vs \<Rightarrow> concat (map object_text vs) | _ \<Rightarrow> [])"

lemma object_text_values: "object_text (json_values kvs) = shown_values kvs"
proof -
  have "map (\<lambda>kv. json_text (snd kv)) (map (\<lambda>(k, v). (k, JString v)) kvs) = map snd kvs"
    by (simp add: split_def json_text_def comp_def)
  then show ?thesis
    by (simp add: object_text_def json_values_def shown_values_def del: map_map)
qed

lemma error_json_text:
  "json_text (json_index (error_json e) ''message'') @ array_text (json_index (error_json e) ''traceback'') =
     (case e of None \<Rightarrow> [] | Some e \<Rightarrow> shown_error e)"
proof -
  have "concat (map (json_text \<circ> JString) ls) = concat ls" for ls
    by (induction ls) (simp_all add: json_text_def)
  then show ?thesis
    by (auto simp: error_json_def opt_string_def json_text_def array_text_def shown_error_def shown_option_def json_index_def
        split: option.split)
qed

lemma render_reply_text:
  assumes "run_state (spend_reply (gather_all reply) (er_data reply)) (MAX_TEXT_BYTES, False) = (r, (b, fl))"
  shows "body_text (fst (render_reply reply)) = shown_reply r \<and> json_index (fst (render_reply reply)) ''truncated'' = JBool fl"
proof -
  have "concat (map (object_text \<circ> json_values) ds) = concat (map shown_values ds)" for ds
    by (simp add: comp_def object_text_values)
  moreover have "object_text (case d of None \<Rightarrow> JNull | Some d \<Rightarrow> json_values d) =
      (case d of None \<Rightarrow> [] | Some d \<Rightarrow> shown_values d)" for d
    by (cases d) (simp_all add: object_text_values, simp add: object_text_def)
  moreover have "json_text (JString t) = t" for t
    by (simp add: json_text_def)
  ultimately show ?thesis
    using assms error_json_text [of "rn_error r"]
    by (simp add: render_reply_def Let_def body_text_def shown_reply_def)
qed

text \<open>
  C36. What an agent is sent of an execution is exact. Without its terminal escapes, the text of the
  answer counts error first, then output, result and displays; if all of it has at most 32768 bytes,
  the agent gets all of it, and otherwise its first part, short of the limit by at most the three
  bytes of a character that would have been cut, and is told so.
\<close>

theorem reply_fits_budget:
  assumes "\<forall>t \<in> reply_texts (gather_all reply) (er_data reply). str_ok (strip_ansi t)"
  shows "let body = fst (render_reply reply); W = wanted_reply (gather_all reply) (er_data reply) in
    json_index body ''truncated'' = JBool (32768 < length W) \<and>
    (if length W \<le> 32768 then body_text body = W
     else \<exists>k \<le> 32768. 32768 < k + 4 \<and> body_text body = take k W)"
proof -
  let ?g = "gather_all reply" and ?d = "er_data reply"
  obtain r b fl where run: "run_state (spend_reply ?g ?d) (MAX_TEXT_BYTES, False) = (r, (b, fl))"
    by (metis surj_pair)
  have "spent (wanted_reply ?g ?d) (shown_reply r) (MAX_TEXT_BYTES, False) (b, fl)"
    using pays_reply [OF assms] run unfolding pays_def by fastforce
  then show ?thesis
    using render_reply_text [OF run] by (auto simp: spent_def MAX_TEXT_BYTES_def Let_def)
qed

definition sample_output :: execute_output where
  "sample_output = (execute_output_new StreamOutput)\<lparr>out_text := Some ([ESC] @ ''[31mred'' @ [ESC] @ ''[0m'')\<rparr>"

definition sample_rendered :: execute_reply where
  "sample_rendered = \<lparr>er_status = ReplyOk, er_count = 1, er_output = [sample_output], er_data = Some [(''text/plain'', ''42'')],
     er_error_name = None, er_error_message = None, er_error_traceback = None\<rparr>"

lemma sample_wanted:
  "wanted_reply (gather_all sample_rendered) (er_data sample_rendered) = ''red42''"
  "\<forall>t \<in> reply_texts (gather_all sample_rendered) (er_data sample_rendered). str_ok (strip_ansi t)"
  by (simp_all add: sample_rendered_def sample_output_def gather_all_def gather_def execute_output_new_def wanted_reply_def
      reply_texts_def not_image_def wanted_values_def csi_rest_def code_in_def ESC_def str_ok_def is_cont_def)

theorem reply_fits_budget_witness: "body_text (fst (render_reply sample_rendered)) = ''red42''"
  using reply_fits_budget [OF sample_wanted(2)] by (simp add: sample_wanted(1) Let_def)

text \<open>
  Of a history an agent gets the newest entries. What is left out are the oldest ones; everything
  but the text of an entry is kept as it was; all text together stays within the budget; and unless
  the answer says that something was cut, all entries are there with all of their text.
\<close>

theorem history_keeps_newest:
  assumes "\<forall>e \<in> set entries. \<forall>t \<in> entry_texts e. str_ok (strip_ansi t)" and "render_history entries budget = (es', fl)"
  shows "length es' \<le> length entries \<and>
    list_all2 same_entry (drop (length entries - length es') entries) es' \<and>
    length (concat (map shown_entry es')) \<le> budget \<and>
    (fl \<longleftrightarrow> length es' < length entries \<or> budget < length (concat (map wanted_entry entries))) \<and>
    (\<not> fl \<longrightarrow> concat (map shown_entry (rev es')) = concat (map wanted_entry (rev entries)))"
proof -
  obtain ns where r: "render_entries (rev entries) (budget, False) = (ns, fl)" "es' = rev ns"
    using assms(2) by (auto simp: render_history_def Let_def split: prod.splits)
  have len: "length (concat (map f (rev xs))) = length (concat (map f xs))" for f :: "history_entry_model \<Rightarrow> string" and xs
    by (simp add: length_concat rev_map [symmetric] comp_def sum_list_rev)
  have "\<exists>p'. length ns \<le> length entries \<and> list_all2 same_entry (take (length ns) (rev entries)) ns \<and>
      spent (concat (map wanted_entry (take (length ns) (rev entries)))) (concat (map shown_entry ns)) (budget, False) p' \<and>
      (fl \<longleftrightarrow> snd p' \<or> length ns < length entries)"
    using render_entries_spec [OF _ r(1)] assms(1) by simp
  then obtain p' where p': "length ns \<le> length entries" "list_all2 same_entry (take (length ns) (rev entries)) ns"
      "spent (concat (map wanted_entry (take (length ns) (rev entries)))) (concat (map shown_entry ns)) (budget, False) p'"
      "fl \<longleftrightarrow> snd p' \<or> length ns < length entries"
    by blast
  have same: "list_all2 same_entry (drop (length entries - length ns) entries) (rev ns)"
    using p'(2) by (simp add: take_rev list_all2_rev1)
  have "length (concat (map shown_entry ns)) \<le> budget"
    using p'(3) by (auto simp: spent_def split: if_splits)
  moreover have "fl \<longleftrightarrow> length ns < length entries \<or> budget < length (concat (map wanted_entry entries))"
    using p'(1,3,4) len [of wanted_entry entries] by (cases "length ns = length entries") (auto simp: spent_def)
  moreover have "\<not> fl \<longrightarrow> concat (map shown_entry ns) = concat (map wanted_entry (rev entries))"
    using p'(1,3,4) by (auto simp: spent_def split: if_splits)
  ultimately show ?thesis
    using p'(1) same r(2) len [of shown_entry ns] by simp
qed

definition sample_past :: "string \<Rightarrow> history_entry_model" where
  "sample_past i = \<lparr>hm_input = i, hm_output = [], hm_error = None, hm_timestamp = 0, hm_source = None, hm_agent = None,
     hm_truncated = False\<rparr>"

theorem history_keeps_newest_witness:
  "length (concat (map shown_entry (fst (render_history [sample_past ''ab'', sample_past ''cd''] 2)))) \<le> 2 \<and>
   snd (render_history [sample_past ''ab'', sample_past ''cd''] 2)"
proof -
  let ?es = "[sample_past ''ab'', sample_past ''cd'']"
  have "\<forall>e \<in> set ?es. \<forall>t \<in> entry_texts e. str_ok (strip_ansi t)"
    by (simp add: sample_past_def entry_texts_def str_ok_def is_cont_def ESC_def)
  from history_keeps_newest [OF this, of 2] show ?thesis
    by (cases "render_history ?es 2") (simp add: sample_past_def wanted_entry_def ESC_def)
qed

text \<open>
  Terminal escapes are removed and nothing else: from text with colour and title sequences
  between its parts, the parts are left.
\<close>

theorem escapes_removed:
  assumes "\<forall>(t, q) \<in> set segments. ESC \<notin> set t \<and> escape_sequence q" and "ESC \<notin> set rest"
  shows "strip_ansi (concat (map (\<lambda>(t, q). t @ q) segments) @ rest) = concat (map fst segments) @ rest"
  using assms
proof (induction segments)
  case Nil
  then show ?case
    using strip_plain [of rest "[]"] by simp
next
  case (Cons tq segments)
  then show ?case
    by (cases tq) (simp add: strip_plain strip_sequence)
qed

theorem escapes_removed_witness:
  "strip_ansi (''a'' @ [ESC] @ ''[31m'' @ ''b'') = ''ab''"
proof -
  have "escape_sequence ([ESC, CHR ''[''] @ ''31'' @ [] @ ''m'')"
    by (rule csi) (simp_all add: code_in_def)
  then show ?thesis
    using escapes_removed [of "[(''a'', [ESC] @ ''[31m'')]" "''b''"] by (simp add: ESC_def)
qed

text \<open>A sequence inside another one survives: removing the inner one completes the outer one.\<close>

lemma nested_escape_survives: "strip_ansi ([ESC, CHR ''[''] @ ([ESC] @ ''[0m'') @ ''0m'') = [ESC] @ ''[0m''"
  by (simp add: csi_rest_def code_in_def ESC_def)

end
