(* ===== verification/KC_Handler.thy ===== *)
theory KC_Handler
  imports KC_Server KC_Channel KC_Render
begin

text \<open>
  The tools of \<open>mcp/handler.rs\<close>. A handler belongs to one workspace and, for a client that runs in a
  kernel, to one session. Every tool notes the request, picks the session it is about among those
  the workspace may reach, and answers with a body that also says whether a window is connected.

  What a tool waits for is an argument: the answers of a window, the messages of a kernel, and what
  others do to the server meanwhile. Texts are compared without regard to the case of ASCII letters.
\<close>

section \<open>Handlers and results\<close>

record handler =
  ha_workspace_id :: string
  ha_caller :: "string option"

record tool_result =
  tr_body :: json
  tr_images :: "content_block list"
  tr_is_error :: bool

definition DEFAULT_HISTORY_LIMIT :: nat where "DEFAULT_HISTORY_LIMIT = 20"
definition DEFAULT_TIMEOUT_S :: nat where "DEFAULT_TIMEOUT_S = 60"
definition MAX_TIMEOUT_S :: nat where "MAX_TIMEOUT_S = 600"
definition CURRENT_PLOT_COMMAND :: string where "CURRENT_PLOT_COMMAND = ''positron.mcp.getCurrentPlot''"
definition GUIDE_INDEX :: string where "GUIDE_INDEX = ''SKILL.md''"

text \<open>Inserting into an object replaces the value of a key that is there.\<close>

fun put_field :: "string \<Rightarrow> json \<Rightarrow> json \<Rightarrow> json" where
  "put_field k v (JObject kvs) = JObject (AList.update k v kvs)"
| "put_field k v b = b"

definition server_registry :: "'m server \<Rightarrow> registry" where
  "server_registry sv = mcp_registry (sv_mcp sv)"

definition time_json :: "instant option \<Rightarrow> json" where
  "time_json t = (case t of None \<Rightarrow> JNull | Some t \<Rightarrow> JInt (int t))"

definition decorate :: "handler \<Rightarrow> 'm server \<Rightarrow> json \<Rightarrow> json" where
  "decorate h sv body =
     (let (connected, since) = connection_state (ha_workspace_id h) (server_registry sv);
          body = put_field ''positron_connected'' (JBool connected) body
      in if connected then body else put_field ''positron_disconnected_since'' (time_json since) body)"

definition tool_finish :: "handler \<Rightarrow> 'm server \<Rightarrow> json \<Rightarrow> content_block list \<Rightarrow> tool_result" where
  "tool_finish h sv body images = \<lparr>tr_body = decorate h sv body, tr_images = images, tr_is_error = False\<rparr>"

definition tool_error :: "handler \<Rightarrow> 'm server \<Rightarrow> json \<Rightarrow> tool_result" where
  "tool_error h sv body = \<lparr>tr_body = decorate h sv body, tr_images = [], tr_is_error = True\<rparr>"

definition noted :: "'m server \<Rightarrow> 'm server" where
  "noted sv = sv\<lparr>sv_mcp := note_request (sv_mcp sv)\<rparr>"

section \<open>Choosing a session\<close>

definition is_caller :: "handler \<Rightarrow> string \<Rightarrow> bool" where
  "is_caller h i \<longleftrightarrow> ha_caller h = Some i"

definition visible_to :: "handler \<Rightarrow> 'm server \<Rightarrow> 'm kernel_session \<Rightarrow> bool" where
  "visible_to h sv k =
     (let owner = ns_workspace_id (kn_model k) in
      if owner = Some (ha_workspace_id h) then True
      else
        (case owner of None \<Rightarrow> True | Some w \<Rightarrow> w \<notin> set (registered_ids (server_registry sv))) \<and>
        session_id k \<in> set (registry_session_ids (ha_workspace_id h) (server_registry sv)))"

definition visible_sessions :: "handler \<Rightarrow> 'm server \<Rightarrow> 'm kernel_session list \<times> nat" where
  "visible_sessions h sv =
     (let sessions = sv_sessions sv; visible = filter (visible_to h sv) sessions
      in (visible, length sessions - length visible))"

definition error_body :: "string \<Rightarrow> (string \<times> json) list \<Rightarrow> string \<Rightarrow> json" where
  "error_body code extra message =
     JObject ([(''status'', JString ''error''), (''code'', JString code)] @ extra @ [(''message'', JString message)])"

definition not_visible_text :: string where
  "not_visible_text = ''That session belongs to one of the user's other Positron workspaces. '' @
     ''You can only reach the sessions of the workspace you are attached to.''"

definition not_found_text :: string where
  "not_found_text = ''No session has that session_id. Call list_sessions to see the sessions that are running.''"

definition none_here_text :: string where
  "none_here_text = ''This Positron workspace has no interpreter sessions running; the ones in the user's other workspaces '' @
     ''are not yours to use. Start one with run_positron_command using workbench.action.language.runtime.startNewConsoleSession.''"

definition none_text :: string where
  "none_text = ''No interpreter sessions are running. Start one with run_positron_command using '' @
     ''workbench.action.language.runtime.startNewConsoleSession.''"

definition several_text :: string where
  "several_text = ''Several sessions are running and none is in the foreground. Pass session_id explicitly.''"

definition candidate_json :: "'m kernel_session \<Rightarrow> json" where
  "candidate_json k = JObject
     [(''session_id'', JString (session_id k)), (''display_name'', JString (ns_display_name (kn_model k))),
      (''language'', JString (ns_language (kn_model k)))]"

definition resolve_session :: "handler \<Rightarrow> string option \<Rightarrow> 'm server \<Rightarrow> json + 'm kernel_session" where
  "resolve_session h requested sv =
     (let (sessions, elsewhere) = visible_sessions h sv in
      case requested of
        Some i \<Rightarrow>
          (case List.find (\<lambda>k. session_id k = i) sessions of
             Some k \<Rightarrow> Inr k
           | None \<Rightarrow>
               Inl (if list_ex (\<lambda>k. session_id k = i) (sv_sessions sv)
                    then error_body ''SESSION_NOT_VISIBLE'' [(''session_id'', JString i)] not_visible_text
                    else error_body ''SESSION_NOT_FOUND'' [(''session_id'', JString i)] not_found_text))
      | None \<Rightarrow>
          (case (case foreground_session (ha_workspace_id h) (server_registry sv) of
                   Some fg \<Rightarrow> List.find (\<lambda>k. session_id k = fg) sessions
                 | None \<Rightarrow> None) of
             Some k \<Rightarrow> Inr k
           | None \<Rightarrow>
               (case sessions of
                  [k] \<Rightarrow> Inr k
                | [] \<Rightarrow> Inl (put_field ''candidates'' (JArray [])
                          (error_body ''NO_SESSION_SELECTED'' [] (if elsewhere > 0 then none_here_text else none_text)))
                | _ \<Rightarrow> Inl (put_field ''candidates'' (JArray (map candidate_json sessions))
                          (error_body ''NO_SESSION_SELECTED'' [] several_text)))))"

section \<open>Reading\<close>

definition error_model_json :: "execution_error \<Rightarrow> json" where
  "error_model_json e = JObject
     [(''name'', JString (err_name e)), (''message'', JString (err_message e)),
      (''traceback'', JArray (map JString (err_traceback e)))]"

text \<open>An absent option is left out of the object.\<close>

definition entry_json :: "history_entry_model \<Rightarrow> json" where
  "entry_json e = JObject
     ([(''input'', JString (hm_input e)), (''output'', JString (hm_output e))] @
      (case hm_error e of None \<Rightarrow> [] | Some er \<Rightarrow> [(''error'', error_model_json er)]) @
      [(''timestamp'', JInt (hm_timestamp e))] @
      (case hm_source e of None \<Rightarrow> [] | Some s \<Rightarrow> [(''source'', JString s)]) @
      (case hm_agent e of None \<Rightarrow> [] | Some a \<Rightarrow> [(''agent'', JString a)]) @
      [(''truncated'', JBool (hm_truncated e))])"

definition listed_json :: "handler \<Rightarrow> string option \<Rightarrow> instant \<Rightarrow> 'm kernel_session \<Rightarrow> json" where
  "listed_json h foreground now k =
     (let a = as_active_session now k;
          (recent, _) = render_history (case as_history a of Some es \<Rightarrow> es | None \<Rightarrow> []) LISTED_HISTORY_BYTES;
          entry = JObject
            [(''session_id'', JString (as_session_id a)),
             (''display_name'', JString (as_display_name a)),
             (''language'', JString (as_language a)),
             (''mode'', JString (session_mode_name (as_session_mode a))),
             (''status'', JString (status_name (as_status a))),
             (''working_directory'', JString (as_working_directory a)),
             (''queue_length'', JInt (sint (qm_length (as_execution_queue a)))),
             (''is_foreground'', JBool (Some (as_session_id a) = foreground)),
             (''recent_history'', JArray (map entry_json recent))]
      in if is_caller h (as_session_id a) then put_field ''is_your_own_session'' (JBool True) entry else entry)"

definition tool_list_sessions :: "handler \<Rightarrow> host \<Rightarrow> 'm server \<Rightarrow> tool_result \<times> 'm server" where
  "tool_list_sessions h ho sv =
     (let sv = noted sv; reg = server_registry sv; w = ha_workspace_id h;
          foreground = foreground_session w reg;
          (sessions, elsewhere) = visible_sessions h sv;
          body = JObject
            [(''sessions'', JArray (map (listed_json h foreground (h_now ho)) sessions)),
             (''workspace'', JObject [(''id'', JString w), (''name'', opt_string (registry_display_name w reg))]),
             (''positron_version'', opt_string (registry_positron_version w reg)),
             (''server_version'', JString (h_version ho))];
          body = (if elsewhere > 0 then put_field ''sessions_in_other_workspaces'' (JInt (int elsewhere)) body else body)
      in (tool_finish h sv body [], sv))"

definition tool_get_session_history ::
  "handler \<Rightarrow> string option \<Rightarrow> nat option \<Rightarrow> 'm server \<Rightarrow> tool_result \<times> 'm server" where
  "tool_get_session_history h requested limit sv =
     (let sv = noted sv in
      case resolve_session h requested sv of
        Inl body \<Rightarrow> (tool_error h sv body, sv)
      | Inr k \<Rightarrow>
          (let limit = (case limit of Some n \<Rightarrow> n | None \<Rightarrow> DEFAULT_HISTORY_LIMIT);
               hist = ks_history (kn_state k);
               (entries, fl) = render_history (history_recent limit hist) MAX_TEXT_BYTES;
               body = JObject
                 [(''session_id'', JString (session_id k)),
                  (''display_name'', JString (ns_display_name (kn_model k))),
                  (''entries'', JArray (map entry_json entries)),
                  (''total'', JInt (int (length hist))),
                  (''truncated'', JBool fl)]
           in (tool_finish h sv body [], sv)))"

section \<open>Running code\<close>

record code_params =
  xp_code :: string
  xp_session_id :: "string option"
  xp_timeout_s :: "nat option"

record code_plan =
  pl_session_id :: string
  pl_display_name :: string
  pl_options :: execute_options
  pl_timeout_s :: nat

definition tool_name :: "bool \<Rightarrow> string" where
  "tool_name inspecting = (if inspecting then ''evaluate_code'' else ''execute_code'')"

definition caller_text :: "string \<Rightarrow> string" where
  "caller_text display_name = display_name @
     '' is the session you are running in, so it is busy waiting for this call and cannot run your code. '' @
     ''Run the code inline instead, or name another session; list_sessions marks this one is_your_own_session.''"

definition busy_text :: "string \<Rightarrow> string" where
  "busy_text display_name = display_name @
     '' is busy. Pass wait=true to queue behind the running code, or use execute_code, which always queues.''"

text \<open>\<open>run_code\<close> until the code is handed to the session: a refusal, or what is to be run and for how long.\<close>

definition run_code_begin ::
  "handler \<Rightarrow> string option \<times> string option \<Rightarrow> code_params \<Rightarrow> bool \<Rightarrow> bool \<Rightarrow> 'm server \<Rightarrow> json + code_plan" where
  "run_code_begin h agent params inspecting wait sv =
     (case resolve_session h (xp_session_id params) sv of
        Inl body \<Rightarrow> Inl body
      | Inr k \<Rightarrow>
          (let i = session_id k; name = ns_display_name (kn_model k);
               who = [(''session_id'', JString i), (''display_name'', JString name)]
           in if is_caller h i then Inl (error_body ''SESSION_IS_CALLER'' who (caller_text name))
              else if inspecting \<and> \<not> wait \<and> ks_status (kn_state k) = Busy then Inl (error_body ''RUNTIME_BUSY'' who (busy_text name))
              else Inr
                \<lparr>pl_session_id = i, pl_display_name = name,
                 pl_options =
                   \<lparr>eo_code = xp_code params, eo_silent = False, eo_store_history = \<not> inspecting, eo_stop_on_error = True,
                    eo_attribution = Some
                      \<lparr>attr_source = ''agent'', attr_agent_name = fst agent, attr_agent_version = snd agent,
                       attr_workspace_id = ha_workspace_id h, attr_tool = tool_name inspecting\<rparr>\<rparr>,
                 pl_timeout_s =
                   min (max (case xp_timeout_s params of Some t \<Rightarrow> t | None \<Rightarrow> DEFAULT_TIMEOUT_S) 1) MAX_TIMEOUT_S\<rparr>))"

text \<open>The body, the images, and whether the call counts as an error.\<close>

definition status_body :: "string \<Rightarrow> string option \<Rightarrow> string \<Rightarrow> json" where
  "status_body status code message =
     JObject ([(''status'', JString status)] @ (case code of None \<Rightarrow> [] | Some c \<Rightarrow> [(''code'', JString c)]) @
       [(''message'', JString message)])"

fun code_result :: "nat \<Rightarrow> execute_error + execute_reply \<Rightarrow> json \<times> content_block list \<times> bool" where
  "code_result timeout_s (Inr reply) =
     (let (body, images) = render_reply reply in (body, images, er_status reply = ReplyError))"
| "code_result timeout_s (Inl Timeout) =
     (status_body ''timed_out'' None
        (''Execution did not finish within '' @ show_nat timeout_s @ '' seconds and was stopped.''), [], True)"
| "code_result timeout_s (Inl (NotReady m)) = (status_body ''error'' (Some ''SESSION_NOT_READY'') m, [], True)"
| "code_result timeout_s (Inl (SendFailed m)) = (status_body ''error'' (Some ''SEND_FAILED'') m, [], True)"
| "code_result timeout_s (Inl ChannelClosed) =
     (status_body ''interrupted'' (Some ''CHANNEL_CLOSED'')
        ''The kernel's message channel closed while the code was running.'', [], True)"
| "code_result timeout_s (Inl Cancelled) =
     (status_body ''interrupted'' (Some ''CANCELLED'') ''The call was cancelled and the execution stopped.'', [], True)"

definition run_code_end :: "handler \<Rightarrow> code_plan \<Rightarrow> nat \<Rightarrow> execute_error + execute_reply \<Rightarrow> 'm server \<Rightarrow> tool_result" where
  "run_code_end h pl elapsed_ms result sv =
     (let (body, images, is_error) = code_result (pl_timeout_s pl) result;
          body = put_field ''session_id'' (JString (pl_session_id pl)) body;
          body = put_field ''display_name'' (JString (pl_display_name pl)) body;
          body = put_field ''elapsed_ms'' (JInt (int elapsed_ms)) body
      in if is_error then (tool_error h sv body)\<lparr>tr_images := images\<rparr> else tool_finish h sv body images)"

text \<open>
  The whole call. The inputs are the polls of the status, the clock, the identifiers, the error of a
  failed send, what others do before and while the code runs, and the messages that come back; \<open>None\<close>
  says that the call still waits, or that the session was deleted before the code could run.
\<close>

record 'm code_inputs =
  in_polls :: "(status \<times> bool) list"
  in_now :: instant
  in_msg_id :: string
  in_interrupt_id :: string
  in_send_error :: string
  in_before :: "'m server \<Rightarrow> 'm server"
  in_meanwhile :: "'m server \<Rightarrow> 'm server"
  in_events :: "rpc_event list"
  in_stream :: "string chan option"
  in_elapsed_ms :: nat

definition session_ctl :: "string \<Rightarrow> 'm server \<Rightarrow> session option" where
  "session_ctl i sv = map_option kn_ctl (find_session i sv)"

definition run_code ::
  "(json \<Rightarrow> string) \<Rightarrow> os \<Rightarrow> handler \<Rightarrow> string option \<times> string option \<Rightarrow> code_params \<Rightarrow> bool \<Rightarrow> bool \<Rightarrow> 'm code_inputs \<Rightarrow>
     'm server \<Rightarrow> (tool_result \<times> 'm server) option" where
  "run_code show_json os h agent params inspecting wait inp sv =
     (let sv = noted sv in
      case run_code_begin h agent params inspecting wait sv of
        Inl body \<Rightarrow> Some (tool_error h sv body, sv)
      | Inr pl \<Rightarrow>
          (let i = pl_session_id pl; ends = (\<lambda>result sv. Some (run_code_end h pl (in_elapsed_ms inp) result sv, sv)) in
           case wait_until_runnable (in_polls inp) of
             None \<Rightarrow> None
           | Some (Inl e) \<Rightarrow> ends (Inl e) (in_before inp sv)
           | Some (Inr _) \<Rightarrow>
               (let sv = in_before inp sv in
                case session_ctl i sv of
                  None \<Rightarrow> None
                | Some ctl \<Rightarrow>
                    (case execute_begin (in_now inp) (in_msg_id inp) (in_send_error inp) (pl_options pl) ctl of
                       (Inl e, ctl) \<Rightarrow> ends (Inl e) (put_session i ctl sv)
                     | (Inr _, ctl) \<Rightarrow>
                         (let sv = in_meanwhile inp (put_session i ctl sv) in
                          case collect_execution_output show_json (in_events inp) (collector_new (in_stream inp)) of
                            None \<Rightarrow> None
                          | Some result \<Rightarrow>
                              (case session_ctl i sv of
                                 None \<Rightarrow> ends result sv
                               | Some ctl \<Rightarrow>
                                   ends result (put_session i (execute_end os (in_msg_id inp) (in_interrupt_id inp) result ctl) sv)))))))"

definition execute_code where
  "execute_code show_json os h agent params inp sv = run_code show_json os h agent params False False inp sv"

definition evaluate_code where
  "evaluate_code show_json os h agent params wait inp sv =
     run_code show_json os h agent params True (case wait of Some w \<Rightarrow> w | None \<Rightarrow> False) inp sv"

definition tool_interrupt_session ::
  "os \<Rightarrow> string \<Rightarrow> handler \<Rightarrow> string option \<Rightarrow> 'm server \<Rightarrow> (tool_result \<times> 'm server) option" where
  "tool_interrupt_session os interrupt_id h requested sv =
     (let sv = noted sv in
      case resolve_session h requested sv of
        Inl body \<Rightarrow> Some (tool_error h sv body, sv)
      | Inr k \<Rightarrow>
          (let i = session_id k;
               who = [(''session_id'', JString i), (''display_name'', JString (ns_display_name (kn_model k)))]
           in case interrupt os interrupt_id (kn_ctl k) of
                (Done _, ctl) \<Rightarrow>
                  (let sv = put_session i ctl sv in Some (tool_finish h sv (JObject ((''status'', JString ''ok'') # who)) [], sv))
              | (Fail e, ctl) \<Rightarrow>
                  (let sv = put_session i ctl sv in Some (tool_error h sv (error_body ''INTERRUPT_FAILED'' who e), sv))
              | (Panic, ctl) \<Rightarrow> None))"


section \<open>Commands\<close>

definition tool_command_guide :: "handler \<Rightarrow> string option \<Rightarrow> 'm server \<Rightarrow> tool_result \<times> 'm server" where
  "tool_command_guide h page sv =
     (let sv = noted sv; guide = registry_guide (ha_workspace_id h) (server_registry sv) in
      if guide = [] then
        (tool_error h sv (error_body ''NO_COMMAND_GUIDE'' []
          ''Positron has not shared a command guide. Use list_positron_commands to find commands instead.''), sv)
      else
        (let page = (case page of Some p \<Rightarrow> p | None \<Rightarrow> GUIDE_INDEX) in
         case map_of guide page of
           None \<Rightarrow>
             (tool_error h sv (error_body ''UNKNOWN_GUIDE_PAGE''
               [(''page'', JString page), (''pages'', JArray (map (\<lambda>(p, _). JString p) guide))]
               ''The guide has no such page.''), sv)
         | Some t \<Rightarrow> (tool_finish h sv (JObject [(''page'', JString page), (''text'', JString t)]) [], sv)))"

definition matches_query :: "agent_command \<Rightarrow> string \<Rightarrow> bool" where
  "matches_query c query =
     (let has = (\<lambda>t. contains_str (map to_lower query) (map to_lower t))
      in has (ac_id c) \<or> has (ac_description c) \<or> list_ex (\<lambda>a. has (aa_name a)) (ac_args c))"

definition command_arg_json :: "agent_command_arg \<Rightarrow> json" where
  "command_arg_json a = JObject
     [(''name'', JString (aa_name a)), (''description'', opt_string (aa_description a)), (''required'', JBool (aa_required a)),
      (''schema'', case aa_schema a of None \<Rightarrow> JNull | Some v \<Rightarrow> v)]"

definition command_json :: "agent_command \<Rightarrow> json" where
  "command_json c = JObject
     [(''id'', JString (ac_id c)), (''description'', JString (ac_description c)),
      (''args'', JArray (map command_arg_json (ac_args c))), (''returns'', opt_string (ac_returns c))]"

definition matching_commands :: "string option \<Rightarrow> agent_command list \<Rightarrow> agent_command list" where
  "matching_commands query catalog =
     (case query of
        Some q \<Rightarrow> if trim q \<noteq> [] then filter (\<lambda>c. matches_query c (trim q)) catalog else catalog
      | None \<Rightarrow> catalog)"

definition tool_list_commands :: "handler \<Rightarrow> string option \<Rightarrow> nat option \<Rightarrow> 'm server \<Rightarrow> tool_result \<times> 'm server" where
  "tool_list_commands h query limit sv =
     (let sv = noted sv;
          catalog = registry_commands (ha_workspace_id h) (server_registry sv);
          matched = matching_commands query catalog;
          commands = map command_json (take (case limit of Some n \<Rightarrow> n | None \<Rightarrow> 2 ^ 32 - 1) matched);
          body = JObject
            [(''commands'', JArray commands), (''matched'', JInt (int (length matched))),
             (''total'', JInt (int (length catalog))), (''truncated'', JBool (length commands < length matched))]
      in (tool_finish h sv body [], sv))"

text \<open>What a brokered command waits for, as in \<open>run_command\<close>.\<close>

record broker_inputs =
  bi_id :: string
  bi_now :: instant
  bi_turns :: "(registry_op list \<times> instant) list"
  bi_late :: "registry_op list"

definition set_registry :: "registry \<Rightarrow> 'm server \<Rightarrow> 'm server" where
  "set_registry reg sv = sv\<lparr>sv_mcp := (sv_mcp sv)\<lparr>mcp_registry := reg\<rparr>\<rparr>"

definition reason_body :: "string \<Rightarrow> json \<Rightarrow> json" where
  "reason_body reason message = JObject [(''status'', JString ''error''), (''reason'', JString reason), (''message'', message)]"

definition disconnected_text :: string where
  "disconnected_text = ''Positron is not connected, so IDE commands cannot run. The kernel tools (list_sessions, '' @
     ''get_session_history, execute_code, evaluate_code, interrupt_session) still work. Ask the user to reopen Positron if you '' @
     ''need this command.''"

fun broker_result :: "command_outcome \<Rightarrow> json + json option" where
  "broker_result (Replied r) =
     (if cp_ok r then Inr (cp_result r)
      else Inl (reason_body (case cp_reason r of Some x \<Rightarrow> x | None \<Rightarrow> ''error'') (opt_string (cp_message r))))"
| "broker_result (Disconnected since) =
     Inl (put_field ''positron_disconnected_since'' (time_json since)
       (reason_body ''POSITRON_DISCONNECTED'' (JString disconnected_text)))"
| "broker_result TimedOut = Inl (reason_body ''timeout'' (JString ''Positron did not answer within 45 seconds''))"
| "broker_result UnknownWorkspace =
     Inl (reason_body ''POSITRON_DISCONNECTED'' (JString ''The Positron workspace this token belongs to is no longer registered.''))"

definition broker ::
  "handler \<Rightarrow> string option \<times> string option \<Rightarrow> string \<Rightarrow> json list \<Rightarrow> broker_inputs \<Rightarrow> 'm server \<Rightarrow> (json + json option) \<times> 'm server" where
  "broker h agent command_id args inp sv =
     (let req = \<lparr>cr_id = bi_id inp, cr_command_id = command_id, cr_args = args, cr_agent = agent\<rparr>;
          (outcome, reg) = run_command (ha_workspace_id h) req (bi_now inp) (bi_turns inp) (bi_late inp) (server_registry sv)
      in (broker_result outcome, set_registry reg sv))"

definition result_image :: "json option \<Rightarrow> (content_block \<times> string option) option" where
  "result_image result = (case result of None \<Rightarrow> None | Some v \<Rightarrow> command_image v)"

definition with_note :: "string option \<Rightarrow> json \<Rightarrow> json" where
  "with_note note body = (case note of None \<Rightarrow> body | Some n \<Rightarrow> put_field ''note'' (JString n) body)"

definition run_positron_command ::
  "handler \<Rightarrow> string option \<times> string option \<Rightarrow> string \<Rightarrow> json list option \<Rightarrow> broker_inputs \<Rightarrow> nat \<Rightarrow> 'm server \<Rightarrow>
     tool_result \<times> 'm server" where
  "run_positron_command h agent command_id args inp elapsed_ms sv =
     (let (outcome, sv) = broker h agent command_id (case args of Some a \<Rightarrow> a | None \<Rightarrow> []) inp (noted sv) in
      case outcome of
        Inr result \<Rightarrow>
          (let body = JObject
                 [(''status'', JString ''ok''), (''command_id'', JString command_id), (''elapsed_ms'', JInt (int elapsed_ms))]
           in case result_image result of
                Some (img, note) \<Rightarrow> (tool_finish h sv (with_note note body) [img], sv)
              | None \<Rightarrow>
                  (tool_finish h sv (put_field ''result'' (case result of Some v \<Rightarrow> v | None \<Rightarrow> JNull) body) [], sv))
      | Inl body \<Rightarrow>
          (tool_error h sv
             (put_field ''elapsed_ms'' (JInt (int elapsed_ms)) (put_field ''command_id'' (JString command_id) body)), sv))"

definition get_plot ::
  "handler \<Rightarrow> string option \<times> string option \<Rightarrow> broker_inputs \<Rightarrow> 'm server \<Rightarrow> tool_result \<times> 'm server" where
  "get_plot h agent inp sv =
     (let (outcome, sv) = broker h agent CURRENT_PLOT_COMMAND [] inp (noted sv) in
      case outcome of
        Inl body \<Rightarrow> (tool_error h sv body, sv)
      | Inr result \<Rightarrow>
          (case result_image result of
             None \<Rightarrow>
               (tool_finish h sv (JObject
                  [(''status'', JString ''no_plot''), (''message'', JString ''The Plots pane is not showing a plot.'')]) [], sv)
           | Some (img, note) \<Rightarrow> (tool_finish h sv (with_note note (JObject [(''status'', JString ''ok'')])) [img], sv)))"

section \<open>A call\<close>

datatype 'm tool_call =
    ListSessions
  | GetSessionHistory "string option" "nat option"
  | ExecuteCode code_params "'m code_inputs"
  | EvaluateCode code_params "bool option" "'m code_inputs"
  | InterruptSession "string option" string
  | CommandGuide "string option"
  | ListCommands "string option" "nat option"
  | RunCommand string "json list option" broker_inputs nat
  | GetPlot broker_inputs

fun call_tool ::
  "(json \<Rightarrow> string) \<Rightarrow> host \<Rightarrow> handler \<Rightarrow> string option \<times> string option \<Rightarrow> 'm tool_call \<Rightarrow> 'm server \<Rightarrow>
     (tool_result \<times> 'm server) option" where
  "call_tool show_json ho h agent ListSessions sv = Some (tool_list_sessions h ho sv)"
| "call_tool show_json ho h agent (GetSessionHistory i limit) sv = Some (tool_get_session_history h i limit sv)"
| "call_tool show_json ho h agent (ExecuteCode params inp) sv = execute_code show_json (h_os ho) h agent params inp sv"
| "call_tool show_json ho h agent (EvaluateCode params wait inp) sv =
     evaluate_code show_json (h_os ho) h agent params wait inp sv"
| "call_tool show_json ho h agent (InterruptSession i interrupt_id) sv = tool_interrupt_session (h_os ho) interrupt_id h i sv"
| "call_tool show_json ho h agent (CommandGuide page) sv = Some (tool_command_guide h page sv)"
| "call_tool show_json ho h agent (ListCommands query limit) sv = Some (tool_list_commands h query limit sv)"
| "call_tool show_json ho h agent (RunCommand c args inp ms) sv = Some (run_positron_command h agent c args inp ms sv)"
| "call_tool show_json ho h agent (GetPlot inp) sv = Some (get_plot h agent inp sv)"


section \<open>Lemmas\<close>

lemma noted_simps [simp]:
  "sv_sessions (noted sv) = sv_sessions sv" "server_registry (noted sv) = server_registry sv"
  "visible_to h (noted sv) = visible_to h sv" "visible_sessions h (noted sv) = visible_sessions h sv"
  "resolve_session h i (noted sv) = resolve_session h i sv"
proof -
  show one: "sv_sessions (noted sv) = sv_sessions sv" and two: "server_registry (noted sv) = server_registry sv"
    by (simp_all add: noted_def server_registry_def note_request_def)
  show three: "visible_to h (noted sv) = visible_to h sv"
    unfolding visible_to_def two ..
  show four: "visible_sessions h (noted sv) = visible_sessions h sv"
    by (simp add: visible_sessions_def one three)
  show "resolve_session h i (noted sv) = resolve_session h i sv"
    unfolding resolve_session_def four one two ..
qed

lemma set_registry_sessions [simp]: "sv_sessions (set_registry reg sv) = sv_sessions sv"
  by (simp add: set_registry_def)

lemma find_visible: "List.find P (fst (visible_sessions h sv)) = Some k \<Longrightarrow> k \<in> set (sv_sessions sv) \<and> visible_to h sv k \<and> P k"
  by (auto simp: find_Some_iff visible_sessions_def Let_def) (metis in_set_conv_nth mem_Collect_eq set_filter)+

lemma resolve_visible: "resolve_session h req sv = Inr k \<Longrightarrow> k \<in> set (sv_sessions sv) \<and> visible_to h sv k"
proof -
  assume r: "resolve_session h req sv = Inr k"
  have "k \<in> set (fst (visible_sessions h sv))"
    using r by (auto simp: resolve_session_def Let_def split: option.splits list.splits prod.splits
        dest: find_visible simp: find_Some_iff)
  then show ?thesis
    by (simp add: visible_sessions_def Let_def)
qed

text \<open>Which sessions may have changed: those that satisfy \<open>V\<close>, and only in their control part.\<close>

definition touched :: "('m kernel_session \<Rightarrow> bool) \<Rightarrow> 'm kernel_session list \<Rightarrow> 'm kernel_session list \<Rightarrow> bool" where
  "touched V = list_all2 (\<lambda>k k'. k' = k \<or> V k \<and> (\<exists>ctl. k' = k\<lparr>kn_ctl := ctl\<rparr>))"

lemma touched_refl: "touched V ss ss"
  by (simp add: touched_def list_all2_same)

lemma touched_put:
  "distinct (map session_id ss) \<Longrightarrow> k \<in> set ss \<Longrightarrow> V k \<Longrightarrow>
     touched V ss (update_first (\<lambda>x. session_id x = session_id k) (\<lambda>x. x\<lparr>kn_ctl := ctl\<rparr>) ss)"
proof (induction ss)
  case (Cons x ss)
  show ?case
  proof (cases "x = k")
    case True
    then show ?thesis
      using Cons.prems touched_refl [of V ss] by (auto simp: touched_def)
  next
    case False
    then have "session_id x \<noteq> session_id k" "k \<in> set ss"
      using Cons.prems by auto
    then show ?thesis
      using Cons by (simp add: touched_def)
  qed
qed simp

lemma put_put: "put_session i c2 (put_session i c1 sv) = put_session i c2 sv"
proof -
  have "session_id (k\<lparr>kn_ctl := c1\<rparr>) = session_id k" for k :: "'a kernel_session"
    by (simp add: session_id_def)
  then have "update_first (\<lambda>k. session_id k = i) (\<lambda>k. k\<lparr>kn_ctl := c2\<rparr>) (update_first (\<lambda>k. session_id k = i) (\<lambda>k. k\<lparr>kn_ctl := c1\<rparr>) ss) =
      update_first (\<lambda>k. session_id k = i) (\<lambda>k. k\<lparr>kn_ctl := c2\<rparr>) ss" for ss :: "'a kernel_session list"
    by (induction ss) auto
  then show ?thesis
    by (simp add: put_session_def)
qed

lemma find_by_id: "distinct (map session_id ss) \<Longrightarrow> k \<in> set ss \<Longrightarrow> List.find (\<lambda>x. session_id x = session_id k) ss = Some k"
  by (induction ss) auto

lemma find_id_iff:
  "distinct (map session_id ss) \<Longrightarrow> List.find (\<lambda>x. session_id x = i) ss = Some k \<longleftrightarrow> k \<in> set ss \<and> session_id k = i"
  by (induction ss) auto

lemma find_put: "find_session i sv = Some k \<Longrightarrow> find_session i (put_session i ctl sv) = Some (k\<lparr>kn_ctl := ctl\<rparr>)"
proof -
  have "List.find (\<lambda>x. session_id x = i) ss = Some k \<Longrightarrow>
      List.find (\<lambda>x. session_id x = i) (update_first (\<lambda>x. session_id x = i) (\<lambda>x. x\<lparr>kn_ctl := ctl\<rparr>) ss) = Some (k\<lparr>kn_ctl := ctl\<rparr>)" for ss
    by (induction ss) (auto simp: session_id_def split: if_splits)
  then show "find_session i sv = Some k \<Longrightarrow> ?thesis"
    by (simp add: find_session_def put_session_def)
qed

lemma begin_session: "run_code_begin h agent params b w sv = Inr pl \<Longrightarrow>
    \<exists>k. resolve_session h (xp_session_id params) sv = Inr k \<and> pl_session_id pl = session_id k \<and> \<not> is_caller h (session_id k)"
  by (auto simp: run_code_begin_def Let_def split: sum.splits if_splits)

definition alone :: "'m code_inputs \<Rightarrow> bool" where
  "alone inp \<longleftrightarrow> (\<forall>sv. in_before inp sv = sv \<and> in_meanwhile inp sv = sv)"

lemma run_code_sessions:
  assumes "run_code show_json os h agent params b w inp sv = Some (r, sv')" and "alone inp"
  shows "sv' = noted sv \<or> (\<exists>k ctl. resolve_session h (xp_session_id params) sv = Inr k \<and> sv' = put_session (session_id k) ctl (noted sv))"
proof (cases "run_code_begin h agent params b w (noted sv)")
  case (Inl body)
  then show ?thesis
    using assms(1) by (simp add: run_code_def Let_def)
next
  case (Inr pl)
  obtain k where k: "resolve_session h (xp_session_id params) sv = Inr k" "pl_session_id pl = session_id k"
    using begin_session [OF Inr] by auto
  show ?thesis
    using assms Inr k
    by (auto simp: run_code_def Let_def alone_def put_put split: option.splits sum.splits prod.splits)
qed


text \<open>A body is an object, so it can be decorated.\<close>

fun is_object :: "json \<Rightarrow> bool" where
  "is_object (JObject kvs) = True"
| "is_object _ = False"

lemma is_object_put [simp]: "is_object (put_field k v b) = is_object b"
  by (cases b) simp_all

lemma json_index_put: "is_object b \<Longrightarrow> json_index (put_field k v b) k' = (if k' = k then v else json_index b k')"
  by (cases b) (auto simp: update_conv')

lemma is_object_bodies [simp]:
  "is_object (error_body c e m)" "is_object (status_body s c' m)" "is_object (reason_body r j)" "is_object (with_note n b) = is_object b"
  by (simp_all add: error_body_def status_body_def reason_body_def with_note_def split: option.split)

lemma is_object_reply: "is_object (fst (render_reply reply))"
  by (simp add: render_reply_def Let_def split: prod.splits)

lemma is_object_resolve: "resolve_session h i sv = Inl b \<Longrightarrow> is_object b"
  by (auto simp: resolve_session_def Let_def split: option.splits list.splits prod.splits if_splits)

lemma is_object_broker: "broker_result out = Inl b \<Longrightarrow> is_object b"
  by (cases out) (auto split: if_splits)

lemma is_object_code: "is_object (fst (code_result t res))"
  using is_object_reply by (induction t res rule: code_result.induct) (auto simp: Let_def split: prod.splits, metis fst_conv)

lemma is_object_begin: "run_code_begin h agent params b w sv = Inl body \<Longrightarrow> is_object body"
  by (auto simp: run_code_begin_def Let_def dest: is_object_resolve split: sum.splits if_splits)

definition tells_connection :: "handler \<Rightarrow> 'm server \<Rightarrow> tool_result \<Rightarrow> bool" where
  "tells_connection h sv r \<longleftrightarrow>
     (let (conn, since) = connection_state (ha_workspace_id h) (server_registry sv) in
      json_index (tr_body r) ''positron_connected'' = JBool conn \<and>
      (\<not> conn \<longrightarrow> json_index (tr_body r) ''positron_disconnected_since'' = time_json since))"

lemma tells_finish: "is_object b \<Longrightarrow> tells_connection h sv (tool_finish h sv b images)"
  by (simp add: tells_connection_def tool_finish_def decorate_def json_index_put Let_def split: prod.splits)

lemma tells_error: "is_object b \<Longrightarrow> tells_connection h sv (tool_error h sv b)"
  by (simp add: tells_connection_def tool_error_def decorate_def json_index_put Let_def split: prod.splits)

lemma tells_images: "tells_connection h sv (r\<lparr>tr_images := images\<rparr>) = tells_connection h sv r"
  by (simp add: tells_connection_def)

lemma tells_end: "tells_connection h sv (run_code_end h pl ms res sv)"
  using is_object_code [of "pl_timeout_s pl" res]
  by (auto simp: run_code_end_def Let_def tells_images intro!: tells_error tells_finish split: prod.splits)

lemma tells_run_code: "run_code show_json os h agent params b w inp sv = Some (r, sv') \<Longrightarrow> tells_connection h sv' r"
  by (auto simp: run_code_def Let_def intro: tells_error tells_end is_object_begin
      split: option.splits sum.splits prod.splits)

section \<open>Properties\<close>

text \<open>
  C25. Tools keep to their workspace. Whatever an agent calls and however the call ends, no session
  changes that is not visible to the agent's workspace, and a session that belongs to another
  registered workspace is never visible; of a visible session only what running and interrupting
  code touches can change.
\<close>

theorem tools_keep_to_workspace:
  assumes "distinct (map session_id (sv_sessions sv))" and "call_tool show_json ho h agent call sv = Some (r, sv')"
    and "\<forall>params inp w. call = ExecuteCode params inp \<or> call = EvaluateCode params w inp \<longrightarrow> alone inp"
  shows "touched (visible_to h sv) (sv_sessions sv) (sv_sessions sv') \<and>
    (\<forall>k w. ns_workspace_id (kn_model k) = Some w \<and> w \<in> set (registered_ids (server_registry sv)) \<and> w \<noteq> ha_workspace_id h \<longrightarrow>
       \<not> visible_to h sv k)"
proof -
  have put: "touched (visible_to h sv) (sv_sessions sv) (sv_sessions (put_session (session_id k) ctl (noted sv)))"
    if "resolve_session h i sv = Inr k" for k ctl i
    using touched_put [OF assms(1)] resolve_visible [OF that] by (simp add: put_session_def)
  have code: "touched (visible_to h sv) (sv_sessions sv) (sv_sessions sv')"
    if "run_code show_json (h_os ho) h agent params b w inp sv = Some (r, sv')" "alone inp" for params b w inp
    using run_code_sessions [OF that] put touched_refl by auto
  have "touched (visible_to h sv) (sv_sessions sv) (sv_sessions sv')"
  proof (cases call)
    case (ExecuteCode params inp)
    then show ?thesis
      using assms code by (simp add: execute_code_def)
  next
    case (EvaluateCode params w inp)
    then show ?thesis
      using assms code by (simp add: evaluate_code_def)
  next
    case (InterruptSession i x)
    then show ?thesis
      using assms(2) put touched_refl
      by (auto simp: tool_interrupt_session_def Let_def split: sum.splits prod.splits outcome.splits)
  qed (use assms(2) touched_refl in \<open>auto simp: tool_list_sessions_def tool_get_session_history_def tool_command_guide_def
      tool_list_commands_def run_positron_command_def get_plot_def broker_def Let_def
      split: sum.splits prod.splits option.splits if_splits\<close>)
  then show ?thesis
    by (auto simp: visible_to_def Let_def)
qed

text \<open>
  C37. Every result an agent gets, of any tool and on any path, tells whether a window of its
  workspace is connected, and if not, since when.
\<close>

theorem results_tell_connection:
  assumes "call_tool show_json ho h agent call sv = Some (r, sv')"
  shows "json_index (tr_body r) ''positron_connected'' = JBool (fst (connection_state (ha_workspace_id h) (server_registry sv'))) \<and>
    (\<not> fst (connection_state (ha_workspace_id h) (server_registry sv')) \<longrightarrow>
       json_index (tr_body r) ''positron_disconnected_since'' =
         time_json (snd (connection_state (ha_workspace_id h) (server_registry sv'))))"
proof -
  have "tells_connection h sv' r"
  proof (cases call)
    case (RunCommand c args inp ms)
    then show ?thesis
      using assms
      by (auto simp: run_positron_command_def broker_def Let_def intro!: tells_finish tells_error
          dest: is_object_broker split: sum.splits prod.splits option.splits)
  next
    case (GetPlot inp)
    then show ?thesis
      using assms
      by (auto simp: get_plot_def broker_def Let_def intro!: tells_finish tells_error
          dest: is_object_broker split: sum.splits prod.splits option.splits)
  qed (use assms in \<open>auto simp: tool_list_sessions_def tool_get_session_history_def tool_command_guide_def
      tool_list_commands_def tool_interrupt_session_def execute_code_def evaluate_code_def Let_def
      intro!: tells_finish tells_error dest: tells_run_code is_object_resolve
      split: sum.splits prod.splits option.splits if_splits outcome.splits\<close>)
  then show ?thesis
    by (simp add: tells_connection_def split_def Let_def)
qed


definition sample_kernel :: "string kernel_session" where
  "sample_kernel = \<lparr>kn_model = sample_session\<lparr>ns_workspace_id := Some ''w''\<rparr>,
     kn_connection = \<lparr>kc_session_id = ''s'', kc_username = ''u'', kc_key = None, kc_protocol_version = ''5.3'', kc_hmac_key = None\<rparr>,
     kn_started = 0, kn_ctl = sample_ctl\<rparr>"

definition sample_handler :: handler where
  "sample_handler = \<lparr>ha_workspace_id = ''w'', ha_caller = Some ''s''\<rparr>"

definition sample_running :: "string server" where
  "sample_running = sample_server\<lparr>sv_sessions := [sample_kernel]\<rparr>"

theorem tools_keep_to_workspace_witness:
  "touched (visible_to sample_handler sample_running) (sv_sessions sample_running)
     (sv_sessions (snd (tool_list_sessions sample_handler sample_host sample_running)))"
proof -
  have "call_tool (\<lambda>_. []) sample_host sample_handler (None, None) ListSessions sample_running =
      Some (fst (tool_list_sessions sample_handler sample_host sample_running),
            snd (tool_list_sessions sample_handler sample_host sample_running))"
    by simp
  from tools_keep_to_workspace [OF _ this] show ?thesis
    by (simp add: sample_running_def sample_server_def)
qed

theorem results_tell_connection_witness:
  "json_index (tr_body (fst (tool_list_sessions sample_handler sample_host sample_running))) ''positron_connected'' = JBool False"
proof -
  have "call_tool (\<lambda>_. []) sample_host sample_handler (None, None) ListSessions sample_running =
      Some (fst (tool_list_sessions sample_handler sample_host sample_running),
            snd (tool_list_sessions sample_handler sample_host sample_running))"
    by simp
  from results_tell_connection [OF this] show ?thesis
    by (simp add: tool_list_sessions_def Let_def split_def sample_running_def sample_server_def mcp_new_def server_registry_def
        connection_state_def noted_def note_request_def)
qed

text \<open>
  The session a tool is about is chosen as documented, and only among the visible ones: the
  one the agent names; without a name the one in the foreground; and if none is there, the only one.
\<close>

theorem session_choice_exact:
  assumes "distinct (map session_id (sv_sessions sv))"
  shows "resolve_session h req sv = Inr k \<longleftrightarrow>
    k \<in> set (sv_sessions sv) \<and> visible_to h sv k \<and>
    (case req of
       Some i \<Rightarrow> session_id k = i
     | None \<Rightarrow>
         foreground_session (ha_workspace_id h) (server_registry sv) = Some (session_id k) \<or>
         (\<forall>k' \<in> set (sv_sessions sv). visible_to h sv k' \<longrightarrow>
            k' = k \<and> foreground_session (ha_workspace_id h) (server_registry sv) \<noteq> Some (session_id k')))"
proof -
  let ?vs = "filter (visible_to h sv) (sv_sessions sv)"
  have dist: "distinct (map session_id ?vs)" "distinct ?vs"
    using assms by (auto simp: distinct_map intro: inj_on_subset)
  have find: "List.find (\<lambda>k. session_id k = i) ?vs = Some k \<longleftrightarrow> k \<in> set ?vs \<and> session_id k = i" for i k
    by (rule find_id_iff [OF dist(1)])
  have one: "?vs = [k] \<longleftrightarrow> set ?vs = {k}"
    using dist(2) by (cases ?vs; cases "tl ?vs") auto
  show ?thesis
  proof (cases req)
    case (Some i)
    then show ?thesis
      using find [of i k] by (auto simp: resolve_session_def visible_sessions_def Let_def split: option.splits)
  next
    case None
    let ?fg = "foreground_session (ha_workspace_id h) (server_registry sv)"
    let ?found = "case ?fg of Some fg \<Rightarrow> List.find (\<lambda>k. session_id k = fg) ?vs | None \<Rightarrow> None"
    have found: "?found = Some k' \<longleftrightarrow> k' \<in> set ?vs \<and> ?fg = Some (session_id k')" for k'
      using find [of _ k'] by (auto split: option.splits)
    have res: "resolve_session h None sv = Inr k \<longleftrightarrow> (case ?found of Some k' \<Rightarrow> k' = k | None \<Rightarrow> ?vs = [k])"
      by (auto simp: resolve_session_def visible_sessions_def Let_def split: option.splits list.splits)
    show ?thesis
    proof (cases ?found)
      case (Some k')
      then have k': "k' \<in> set ?vs" "?fg = Some (session_id k')"
        using found [of k'] by blast+
      have same: "k = k'" if "k \<in> set ?vs" "session_id k = session_id k'"
        using that k'(1) dist(1) by (auto simp: distinct_map dest: inj_onD)
      have "resolve_session h None sv = Inr k \<longleftrightarrow> k' = k"
        unfolding res Some by simp
      then show ?thesis
        using k' same \<open>req = None\<close> by auto
    next
      case empty: None
      have "\<forall>k' \<in> set ?vs. ?fg \<noteq> Some (session_id k')"
        using found empty by force
      moreover have "resolve_session h None sv = Inr k \<longleftrightarrow> set ?vs = {k}"
        unfolding res empty one [symmetric] by simp
      ultimately show ?thesis
        using \<open>req = None\<close> by auto
    qed
  qed
qed

theorem session_choice_exact_witness: "resolve_session sample_handler None sample_running = Inr sample_kernel"
proof -
  have d: "distinct (map session_id (sv_sessions sample_running))"
    by (simp add: sample_running_def)
  show ?thesis
    unfolding session_choice_exact [OF d]
    by (simp add: sample_running_def visible_to_def sample_kernel_def sample_handler_def Let_def server_registry_def sample_server_def
        mcp_new_def foreground_session_def)
qed

text \<open>
  A client that runs inside a session cannot run code in it, and an evaluation does not wait
  behind running code unless asked to: both are refused at once with their own error, and nothing
  but the count of requests changes.
\<close>

theorem own_session_never_runs:
  assumes "resolve_session h (xp_session_id params) sv = Inr k"
    and "is_caller h (session_id k) \<or> inspecting \<and> \<not> wait \<and> ks_status (kn_state k) = Busy"
  shows "\<exists>r. run_code show_json os h agent params inspecting wait inp sv = Some (r, noted sv) \<and> tr_is_error r \<and>
    json_index (tr_body r) ''code'' = JString (if is_caller h (session_id k) then ''SESSION_IS_CALLER'' else ''RUNTIME_BUSY'')"
proof -
  let ?code = "if is_caller h (session_id k) then ''SESSION_IS_CALLER'' else ''RUNTIME_BUSY''"
  have "\<exists>extra msg. run_code_begin h agent params inspecting wait (noted sv) = Inl (error_body ?code extra msg)"
    using assms by (cases "is_caller h (session_id k)") (auto simp: run_code_begin_def Let_def)
  then obtain extra msg where "run_code_begin h agent params inspecting wait (noted sv) = Inl (error_body ?code extra msg)"
    by blast
  then have "run_code show_json os h agent params inspecting wait inp sv =
      Some (tool_error h (noted sv) (error_body ?code extra msg), noted sv)"
    by (simp add: run_code_def Let_def)
  moreover have "json_index (tr_body (tool_error h (noted sv) (error_body ?code extra msg))) ''code'' = JString ?code"
    by (simp add: tool_error_def decorate_def json_index_put Let_def split: prod.splits) (simp add: error_body_def)
  ultimately show ?thesis
    by (auto simp: tool_error_def)
qed

theorem own_session_never_runs_witness:
  "\<exists>r. run_code (\<lambda>_. []) sample_os sample_handler (None, None) \<lparr>xp_code = ''1'', xp_session_id = Some ''s'', xp_timeout_s = None\<rparr>
     False False \<lparr>in_polls = [], in_now = 0, in_msg_id = ''m'', in_interrupt_id = ''n'', in_send_error = [], in_before = (\<lambda>s. s),
       in_meanwhile = (\<lambda>s. s), in_events = [], in_stream = None, in_elapsed_ms = 0\<rparr> sample_running = Some (r, noted sample_running) \<and>
     json_index (tr_body r) ''code'' = JString ''SESSION_IS_CALLER''"
proof -
  have "resolve_session sample_handler (Some ''s'') sample_running = Inr sample_kernel"
    by (simp add: resolve_session_def visible_sessions_def sample_running_def visible_to_def sample_kernel_def sample_handler_def
        session_id_def Let_def)
  then show ?thesis
    using own_session_never_runs [of sample_handler
        "\<lparr>xp_code = ''1'', xp_session_id = Some ''s'', xp_timeout_s = None\<rparr>" sample_running sample_kernel False False]
    by (fastforce simp: is_caller_def sample_handler_def session_id_def sample_kernel_def)
qed



definition sample_inputs :: "string code_inputs" where
  "sample_inputs = \<lparr>in_polls = [(Idle, False)], in_now = 0, in_msg_id = ''m'', in_interrupt_id = ''n'', in_send_error = [],
     in_before = (\<lambda>s. s), in_meanwhile = (\<lambda>s. s), in_events = [RpcMessage says_text, RpcMessage says_reply, RpcMessage says_idle],
     in_stream = None, in_elapsed_ms = 0\<rparr>"


end
