(* ===== verification/KC_Bridge.thy ===== *)
theory KC_Bridge
  imports KC_Env KC_Wire KC_Shell
    "HOL-Library.Product_Lexorder" "HOL-Library.Option_ord" "HOL-Library.List_Lexorder" "HOL-Library.Char_ord"
begin

text \<open>
  \<open>mcp/stdio_bridge.rs\<close>: the process an agent starts to reach a workspace. It finds the endpoint of
  the workspace, replays the client's handshake to it, relays each message over HTTP, and answers by
  itself when no endpoint does.

  What the network and the file system answer is an argument, indexed by how many messages the call
  has posted so far. Reading and printing JSON, URLs, and the answers of the protocol library are
  parameters.
\<close>

section \<open>Text that may not be valid\<close>

text \<open>
  \<open>String::from_utf8_lossy\<close>: each longest beginning of a character that does not go on properly is
  replaced by the replacement character. The ranges are those of the bytes after a first byte.
\<close>

definition replacement :: string where "replacement = [CHR 0xEF, CHR 0xBF, CHR 0xBD]"

definition later_bytes :: "char \<Rightarrow> (nat \<times> nat) list option" where
  "later_bytes a =
     (if in_range 0 0x7F a then Some []
      else if in_range 0xC2 0xDF a then Some [(0x80, 0xBF)]
      else if in_range 0xE0 0xEF a then
        Some [(if a = CHR 0xE0 then 0xA0 else 0x80, if a = CHR 0xED then 0x9F else 0xBF), (0x80, 0xBF)]
      else if in_range 0xF0 0xF4 a then
        Some [(if a = CHR 0xF0 then 0x90 else 0x80, if a = CHR 0xF4 then 0x8F else 0xBF), (0x80, 0xBF), (0x80, 0xBF)]
      else None)"

fun matching_bytes :: "(nat \<times> nat) list \<Rightarrow> string \<Rightarrow> nat" where
  "matching_bytes ((lo, hi) # rs) (c # s) = (if in_range lo hi c then Suc (matching_bytes rs s) else 0)"
| "matching_bytes _ _ = 0"

function utf8_lossy :: "string \<Rightarrow> string" where
  "utf8_lossy [] = []"
| "utf8_lossy (a # s) =
     (case later_bytes a of
        None \<Rightarrow> replacement @ utf8_lossy s
      | Some rs \<Rightarrow>
          (let n = matching_bytes rs s in
           (if n = length rs then a # take n s else replacement) @ utf8_lossy (drop n s)))"
  by pat_completeness auto

termination
  by (relation "measure length") auto

section \<open>Server-sent events\<close>

definition sse_end :: string where "sse_end = [CHR 0x0A, CHR 0x0A]"

text \<open>The inner loop of \<open>read_events\<close>: the complete events of a buffer, and what is left.\<close>

lemma split_once_str_shorter: "split_once_str p s = Some (a, b) \<Longrightarrow> p \<noteq> [] \<Longrightarrow> length b < length s"
  by (auto dest!: split_once_str_Some)

function drain_events :: "string \<Rightarrow> string list \<times> string" where
  "drain_events buffer =
     (case split_once_str sse_end buffer of
        None \<Rightarrow> ([], buffer)
      | Some (a, b) \<Rightarrow> (let (es, rest) = drain_events b in ((a @ sse_end) # es, rest)))"
  by pat_completeness auto

termination
  by (relation "measure length") (auto dest: split_once_str_shorter simp: sse_end_def)

declare drain_events.simps [simp del]

definition event_data :: "string \<Rightarrow> string list" where
  "event_data event =
     map (\<lambda>d. case strip_prefix '' '' d of Some d' \<Rightarrow> d' | None \<Rightarrow> d) (List.map_filter (strip_prefix ''data:'') (lines event))"

definition deliver_event :: "(string \<Rightarrow> json option) \<Rightarrow> string \<Rightarrow> json list" where
  "deliver_event parse_json event =
     (let data = event_data event in
      if data = [] then []
      else (case parse_json (join_with nl data) of Some m \<Rightarrow> [m] | None \<Rightarrow> []))"

definition no_cr :: "string \<Rightarrow> string" where
  "no_cr s = filter (\<lambda>c. c \<noteq> CHR 0x0D) s"

text \<open>The frames of a body, and whether an error ends it.\<close>

fun read_frames :: "(string \<Rightarrow> json option) \<Rightarrow> string list \<Rightarrow> string option \<Rightarrow> string \<Rightarrow> json list" where
  "read_frames parse_json [] err buffer = (case err of Some e \<Rightarrow> [] | None \<Rightarrow> deliver_event parse_json buffer)"
| "read_frames parse_json (f # fs) err buffer =
     (let (es, rest) = drain_events (buffer @ no_cr (utf8_lossy f))
      in concat (map (deliver_event parse_json) es) @ read_frames parse_json fs err rest)"

definition read_events :: "(string \<Rightarrow> json option) \<Rightarrow> string list \<Rightarrow> string option \<Rightarrow> json list" where
  "read_events parse_json frames err = read_frames parse_json frames err []"

section \<open>Endpoints\<close>

record mcp_endpoint =
  ep_host :: string
  ep_port :: nat
  ep_path :: string
  ep_token :: string

text \<open>A parsed URL: scheme, host, port and path.\<close>

record url =
  ur_scheme :: "string option"
  ur_host :: "string option"
  ur_port :: "nat option"
  ur_path :: string

definition endpoint_parse :: "(string \<Rightarrow> url option) \<Rightarrow> string \<Rightarrow> string \<Rightarrow> mcp_endpoint option" where
  "endpoint_parse parse_url u token =
     do {
       uri \<leftarrow> parse_url u;
       if ur_scheme uri \<noteq> Some ''http'' then None
       else do {
         host \<leftarrow> ur_host uri;
         port \<leftarrow> ur_port uri;
         Some \<lparr>ep_host = host, ep_port = port, ep_path = ur_path uri, ep_token = token\<rparr>
       }
     }"

text \<open>\<open>split(pat).next()\<close>: what precedes the first occurrence, or everything.\<close>

definition before_str :: "string \<Rightarrow> string \<Rightarrow> string" where
  "before_str pat s = (case split_once_str pat s of Some (a, _) \<Rightarrow> a | None \<Rightarrow> s)"

definition endpoint_workspace :: "mcp_endpoint \<Rightarrow> string option" where
  "endpoint_workspace e =
     do {
       rest \<leftarrow> strip_prefix MCP_PATH_PREFIX (ep_path e);
       let i = trim_end (CHR ''/'') (before_str CALLER_PATH_SEGMENT rest);
       if i \<noteq> [] then Some i else None
     }"

definition caller_suffix :: "mcp_endpoint \<Rightarrow> string option" where
  "caller_suffix e = map_option (\<lambda>(a, b). CALLER_PATH_SEGMENT @ b) (split_once_str CALLER_PATH_SEGMENT (ep_path e))"

definition with_caller :: "string option \<Rightarrow> mcp_endpoint \<Rightarrow> mcp_endpoint" where
  "with_caller sfx e =
     (case sfx of None \<Rightarrow> e | Some s \<Rightarrow> e\<lparr>ep_path := trim_end (CHR ''/'') (ep_path e) @ s\<rparr>)"

section \<open>Finding the endpoint\<close>

definition CONNECTIONS_VERSION :: nat where "CONNECTIONS_VERSION = 1"

record index_entry =
  ie_descriptor :: string
  ie_folders :: "string list"
  ie_last_active :: "string option"

record connections_index =
  ix_version :: nat
  ix_workspaces :: "(string \<times> index_entry) list"

record descriptor =
  ds_version :: nat
  ds_url :: string
  ds_token :: string

text \<open>
  What is on disk: the index in a directory and the descriptors, as read and parsed, if that succeeds;
  and the components of a path with its links resolved.
\<close>

record files =
  fs_index :: "string \<Rightarrow> connections_index option"
  fs_descriptor :: "string \<Rightarrow> descriptor option"
  fs_canonical :: "string \<Rightarrow> string list"

record resolver =
  rs_connections :: "string option"
  rs_workspace :: "string option"
  rs_environment :: "mcp_endpoint option"
  rs_environment_stale :: bool
  rs_working_dir :: "string option"

definition from_environment ::
  "(string \<Rightarrow> url option) \<Rightarrow> env \<Rightarrow> string option \<Rightarrow> string option \<Rightarrow> string option \<Rightarrow> resolver" where
  "from_environment parse_url e connections workspace dir =
     \<lparr>rs_connections = connections, rs_workspace = workspace,
      rs_environment = (case (e MCP_URL_VAR, e MCP_TOKEN_VAR) of
          (Some u, Some token) \<Rightarrow> endpoint_parse parse_url u token
        | _ \<Rightarrow> None),
      rs_environment_stale = False, rs_working_dir = dir\<rparr>"

definition read_index :: "files \<Rightarrow> resolver \<Rightarrow> connections_index option" where
  "read_index fs r =
     do {
       dir \<leftarrow> rs_connections r;
       ix \<leftarrow> fs_index fs dir;
       if ix_version ix = CONNECTIONS_VERSION then Some ix else None
     }"

definition lookup :: "(string \<Rightarrow> url option) \<Rightarrow> files \<Rightarrow> resolver \<Rightarrow> string \<Rightarrow> mcp_endpoint option" where
  "lookup parse_url fs r i =
     do {
       ix \<leftarrow> read_index fs r;
       entry \<leftarrow> map_of (ix_workspaces ix) i;
       d \<leftarrow> fs_descriptor fs (ie_descriptor entry);
       if ds_version d \<noteq> CONNECTIONS_VERSION then None else endpoint_parse parse_url (ds_url d) (ds_token d)
     }"

text \<open>How deep the folders of a workspace are that contain the directory: the greatest depth, if any does.\<close>

definition max_option :: "'a :: linorder list \<Rightarrow> 'a option" where
  "max_option xs = (if xs = [] then None else Some (Max (set xs)))"

definition folder_depth :: "files \<Rightarrow> string list \<Rightarrow> index_entry \<Rightarrow> nat option" where
  "folder_depth fs dir entry = max_option (map length (filter (\<lambda>f. starts_with f dir) (map (fs_canonical fs) (ie_folders entry))))"

definition workspace_for_working_dir :: "files \<Rightarrow> resolver \<Rightarrow> string option" where
  "workspace_for_working_dir fs r =
     do {
       wd \<leftarrow> rs_working_dir r;
       ix \<leftarrow> read_index fs r;
       let found = List.map_filter (\<lambda>(i, entry).
             map_option (\<lambda>depth. (depth, ie_last_active entry, i)) (folder_depth fs (fs_canonical fs wd) entry)) (ix_workspaces ix);
       map_option (\<lambda>(_, _, i). i) (max_option found)
     }"

definition resolve_endpoint ::
  "(string \<Rightarrow> url option) \<Rightarrow> files \<Rightarrow> mcp_endpoint option \<Rightarrow> resolver \<Rightarrow> mcp_endpoint option \<times> resolver" where
  "resolve_endpoint parse_url fs stale r =
     (case rs_workspace r of
        Some i \<Rightarrow> (lookup parse_url fs r i, r)
      | None \<Rightarrow>
          (case rs_environment r of
             Some environment \<Rightarrow>
               (let r = (if stale = Some environment then r\<lparr>rs_environment_stale := True\<rparr> else r);
                    moved = (if rs_environment_stale r
                             then (case endpoint_workspace environment of Some i \<Rightarrow> lookup parse_url fs r i | None \<Rightarrow> None)
                             else None)
                in (case moved of
                      Some m \<Rightarrow> (Some (with_caller (caller_suffix environment) m), r)
                    | None \<Rightarrow> (Some environment, r)))
           | None \<Rightarrow>
               (case workspace_for_working_dir fs r of
                  None \<Rightarrow> (None, r)
                | Some i \<Rightarrow> (lookup parse_url fs r i, r))))"


section \<open>Relaying one message\<close>

record client_info =
  cf_name :: string
  cf_version :: "string option"

definition client_info_of :: "json \<Rightarrow> client_info option" where
  "client_info_of v =
     do {
       n \<leftarrow> json_get ''name'' v;
       name \<leftarrow> as_str n;
       Some \<lparr>cf_name = name, cf_version = (case json_get ''version'' v of Some x \<Rightarrow> as_str x | None \<Rightarrow> None)\<rparr>
     }"

definition META_PROTOCOL_VERSION :: string where "META_PROTOCOL_VERSION = ''io.modelcontextprotocol/protocolVersion''"
definition META_CLIENT_INFO :: string where "META_CLIENT_INFO = ''io.modelcontextprotocol/clientInfo''"
definition RESULT_TYPE_VERSION :: string where "RESULT_TYPE_VERSION = ''2026-07-28''"

definition request_meta :: "string \<Rightarrow> json \<Rightarrow> json option" where
  "request_meta k message =
     do {
       params \<leftarrow> json_get ''params'' message;
       meta \<leftarrow> json_get ''_meta'' params;
       json_get k meta
     }"

definition request_client_info :: "json \<Rightarrow> client_info option" where
  "request_client_info message = do { v \<leftarrow> request_meta META_CLIENT_INFO message; client_info_of v }"

definition request_protocol_version :: "json \<Rightarrow> string option" where
  "request_protocol_version message = do { v \<leftarrow> request_meta META_PROTOCOL_VERSION message; as_str v }"

text \<open>How a request over HTTP fares: the request cannot be built, the listener does not accept, the
  request does not get through, or there is an answer with its status, the session it issues, whether
  it is a stream of events, its frames, and the error that ends it, if one does.\<close>

datatype http_answer =
    CannotBuild string
  | NotConnected string
  | NotDelivered string
  | Answer nat "string option" bool "string list" "string option"

datatype relay_status = RelayDone | RelayRefused string | RelayFailed string

record relay_outcome =
  ro_status :: relay_status
  ro_answered :: bool
  ro_session_id :: "string option"

record bridge_lib =
  lib_json :: "string \<Rightarrow> json option"
  lib_url :: "string \<Rightarrow> url option"
  lib_status_line :: "nat \<Rightarrow> string"
  lib_negotiate :: "string \<Rightarrow> json \<Rightarrow> (int \<times> string) + (string \<times> json)"
  lib_discover :: "string \<Rightarrow> string + json"
  lib_tools :: "string + json"
  lib_tool_error :: "json \<Rightarrow> string + json"

definition REFUSALS :: "nat list" where "REFUSALS = [401, 403, 404, 503]"

definition is_success :: "nat \<Rightarrow> bool" where "is_success st \<longleftrightarrow> 200 \<le> st \<and> st < 300"

definition is_answer :: "json \<Rightarrow> json list \<Rightarrow> bool" where
  "is_answer message replies \<longleftrightarrow>
     (case json_get ''id'' message of None \<Rightarrow> False | Some i \<Rightarrow> list_ex (\<lambda>r. json_get ''id'' r = Some i) replies)"

text \<open>\<open>post\<close>: what it delivers, and the outcome.\<close>

definition relay_post :: "bridge_lib \<Rightarrow> json \<Rightarrow> http_answer \<Rightarrow> json list \<times> relay_outcome" where
  "relay_post lib message answer =
     (let nothing = (\<lambda>st. ([], \<lparr>ro_status = st, ro_answered = False, ro_session_id = None\<rparr>)) in
      case answer of
        CannotBuild e \<Rightarrow> nothing (RelayFailed (''Could not build the request: '' @ e))
      | NotConnected e \<Rightarrow> nothing (RelayRefused e)
      | NotDelivered e \<Rightarrow> nothing (RelayFailed (''Could not deliver the request to Positron: '' @ e))
      | Answer st issued stream frames err \<Rightarrow>
          if st \<in> set REFUSALS then
            nothing (RelayRefused (lib_status_line lib st @ '': '' @
              trim (if err = None then utf8_lossy (concat frames) else [])))
          else
            (let replies =
                   (if stream then read_events (lib_json lib) frames err
                    else if err \<noteq> None then []
                    else (case lib_json lib (utf8_lossy (concat frames)) of Some m \<Rightarrow> [m] | None \<Rightarrow> []));
                 status =
                   (case err of
                      Some e \<Rightarrow> RelayFailed (''The connection to Positron was lost while the request was in progress, '' @
                        ''so it may or may not have run: '' @ e)
                    | None \<Rightarrow>
                        if is_success st then RelayDone
                        else RelayFailed (''Positron's MCP endpoint answered '' @ lib_status_line lib st))
             in (replies, \<lparr>ro_status = status, ro_answered = is_answer message replies, ro_session_id = issued\<rparr>)))"

section \<open>The link\<close>

datatype offline = NoWorkspace | Unreachable

record link =
  lk_resolver :: resolver
  lk_upstream :: "mcp_endpoint option"
  lk_session_id :: "string option"
  lk_generation :: nat
  lk_handshake :: "json option"
  lk_initialized :: bool
  lk_protocol_version :: "string option"
  lk_client_info :: "client_info option"
  lk_offline :: offline

definition link_new :: "resolver \<Rightarrow> link" where
  "link_new r =
     \<lparr>lk_resolver = r, lk_upstream = None, lk_session_id = None, lk_generation = 0, lk_handshake = None,
      lk_initialized = False, lk_protocol_version = None, lk_client_info = None, lk_offline = NoWorkspace\<rparr>"

text \<open>The world as it answers the calls of one task, by how many messages it has posted.\<close>

record world =
  wo_answers :: "nat \<Rightarrow> http_answer"
  wo_files :: "nat \<Rightarrow> files"

definition link_connected :: "mcp_endpoint \<Rightarrow> link \<Rightarrow> link" where
  "link_connected e l = l\<lparr>lk_upstream := Some e, lk_generation := (lk_generation l + 1) mod 2 ^ 64\<rparr>"

definition link_client_info :: "link \<Rightarrow> client_info option" where
  "link_client_info l =
     (case do { hs \<leftarrow> lk_handshake l; params \<leftarrow> json_get ''params'' hs; ci \<leftarrow> json_get ''clientInfo'' params; client_info_of ci } of
        Some ci \<Rightarrow> Some ci
      | None \<Rightarrow> lk_client_info l)"

text \<open>The last version among the replies of a handshake; a reply that has one that is no text clears it.\<close>

definition reply_version :: "json list \<Rightarrow> string option" where
  "reply_version replies =
     fold (\<lambda>m version.
       case do { r \<leftarrow> json_get ''result'' m; json_get ''protocolVersion'' r } of
         Some v \<Rightarrow> as_str v
       | None \<Rightarrow> version) replies None"

text \<open>
  \<open>connect\<close>: the number of posts made so far goes in and comes out; the replies to the handshake are
  those passed on when the client waits for them.
\<close>

fun connect_loop ::
  "bridge_lib \<Rightarrow> world \<Rightarrow> nat \<Rightarrow> nat \<Rightarrow> mcp_endpoint option \<Rightarrow> link \<Rightarrow> (bool \<times> json list) \<times> nat \<times> link" where
  "connect_loop lib w 0 n stale l = ((False, []), n, l\<lparr>lk_offline := Unreachable\<rparr>)"
| "connect_loop lib w (Suc k) n stale l =
     (case resolve_endpoint (lib_url lib) (wo_files w n) stale (lk_resolver l) of
        (None, r) \<Rightarrow> ((False, []), n, l\<lparr>lk_resolver := r, lk_offline := NoWorkspace\<rparr>)
      | (Some e, r) \<Rightarrow>
          (let l = l\<lparr>lk_resolver := r\<rparr> in
           case lk_handshake l of
             None \<Rightarrow> ((False, []), n, link_connected e l)
           | Some hs \<Rightarrow>
               (let (replies, out) = relay_post lib hs (wo_answers w n); n = Suc n in
                case ro_status out of
                  RelayDone \<Rightarrow>
                    (let l = l\<lparr>lk_protocol_version := (case reply_version replies of Some v \<Rightarrow> Some v | None \<Rightarrow> lk_protocol_version l),
                               lk_session_id := ro_session_id out\<rparr>;
                         n = (if lk_initialized l then Suc n else n)
                     in ((ro_answered out, replies), n, link_connected e l))
                | RelayRefused reason \<Rightarrow>
                    (let ((answered, more), n, l) = connect_loop lib w k n (Some e) l in ((answered, replies @ more), n, l))
                | RelayFailed reason \<Rightarrow> ((ro_answered out, replies), n, l\<lparr>lk_offline := Unreachable\<rparr>))))"

definition link_connect :: "bridge_lib \<Rightarrow> world \<Rightarrow> nat \<Rightarrow> link \<Rightarrow> (bool \<times> json list) \<times> nat \<times> link" where
  "link_connect lib w n l = connect_loop lib w 2 n (lk_upstream l) (l\<lparr>lk_upstream := None, lk_session_id := None\<rparr>)"

section \<open>Answering alone\<close>

fun offline_code :: "offline \<Rightarrow> string" where
  "offline_code NoWorkspace = ''NO_WORKSPACE''"
| "offline_code Unreachable = ''POSITRON_NOT_RUNNING''"

fun offline_message :: "offline \<Rightarrow> string" where
  "offline_message NoWorkspace =
     ''No Positron workspace is open for this directory. Ask the user to open this folder in Positron with the '' @
     [CHR 0x27] @ ''ai.mcp.enabled'' @ [CHR 0x27] @ '' setting on, then try again; there is no need to reconnect.''"
| "offline_message Unreachable =
     ''Positron is not reachable: the workspace is closed, or its MCP server is turned off. Ask the user to open the workspace '' @
     ''in Positron, then try again; there is no need to reconnect.''"

definition INSTRUCTIONS :: string where
  "INSTRUCTIONS =
     ''You are attached to one Positron workspace and can reach only its interpreter sessions. Prefer execute_code and '' @
     ''evaluate_code over shelling out to Rscript or python: the user's sessions already have their data and packages loaded. '' @
     ''Call list_sessions first to see what is running and which is in the foreground.'' @ nl @ nl @
     ''Everything you run appears in the user's console, attributed to you. Use evaluate_code to inspect state; it stays out of '' @
     ''the session's history. Use execute_code for anything with side effects. Output can legitimately be empty, so never retry '' @
     ''a state-changing call because nothing came back.'' @ nl @ nl @
     ''For IDE actions, look the command up in get_positron_command_guide before calling run_positron_command. Commands need '' @
     ''Positron connected; the kernel tools do not. No tool starts an interpreter.''"

definition offline_instructions :: "offline \<Rightarrow> string" where
  "offline_instructions off = INSTRUCTIONS @ nl @ nl @ ''Positron is not reachable right now. '' @ offline_message off"

definition error_response :: "json \<Rightarrow> int \<Rightarrow> string \<Rightarrow> json" where
  "error_response i code message = JObject
     [(''jsonrpc'', JString ''2.0''), (''id'', i), (''error'', JObject [(''code'', JInt code), (''message'', JString message)])]"

fun remove_field :: "string \<Rightarrow> json \<Rightarrow> json" where
  "remove_field k (JObject kvs) = JObject (AList.delete k kvs)"
| "remove_field k v = v"

definition offline_reply :: "bridge_lib \<Rightarrow> json \<Rightarrow> offline \<Rightarrow> string option \<Rightarrow> json option \<times> string option" where
  "offline_reply lib message off version =
     (case json_get ''id'' message of
        None \<Rightarrow> (None, version)
      | Some i \<Rightarrow>
          (let finish = (\<lambda>result version.
                 case result of
                   Inl e \<Rightarrow> (Some (error_response i (- 32603) e), version)
                 | Inr v \<Rightarrow>
                     (let ver = (case request_protocol_version message of Some x \<Rightarrow> Some x | None \<Rightarrow> version);
                          v = (if (case ver of None \<Rightarrow> True | Some x \<Rightarrow> x < RESULT_TYPE_VERSION) then remove_field ''resultType'' v else v)
                      in (Some (JObject [(''jsonrpc'', JString ''2.0''), (''id'', i), (''result'', v)]), version)));
               m = (case json_get ''method'' message of Some x \<Rightarrow> as_str x | None \<Rightarrow> None)
           in if m = Some ''initialize'' then
                (case lib_negotiate lib (offline_instructions off) (case json_get ''params'' message of Some p \<Rightarrow> p | None \<Rightarrow> JNull) of
                   Inl (code, e) \<Rightarrow> (Some (error_response i code e), version)
                 | Inr (v, result) \<Rightarrow> finish (Inr result) (Some v))
              else if m = Some ''server/discover'' then finish (lib_discover lib (offline_instructions off)) version
              else if m = Some ''tools/list'' then finish (lib_tools lib) version
              else if m = Some ''tools/call'' then
                finish (lib_tool_error lib (JObject
                  [(''status'', JString ''error''), (''code'', JString (offline_code off)),
                   (''message'', JString (offline_message off))])) version
              else if m = Some ''ping'' then finish (Inr (JObject [])) version
              else (Some (error_response i (- 32603) (offline_message off)), version)))"

section \<open>The bridge\<close>

text \<open>What a task writes to the client, how its own posts of the message fared, and the link it leaves.\<close>

record relayed =
  re_sent :: "json list"
  re_posts :: "relay_status list"
  re_link :: link

definition opt_list :: "'a option \<Rightarrow> 'a list" where
  "opt_list x = (case x of None \<Rightarrow> [] | Some v \<Rightarrow> [v])"

definition bridge_initialize :: "bridge_lib \<Rightarrow> world \<Rightarrow> json \<Rightarrow> link \<Rightarrow> relayed" where
  "bridge_initialize lib w message l =
     (let l = l\<lparr>lk_handshake := Some message, lk_initialized := False, lk_protocol_version := None\<rparr>;
          ((answered, replies), _, l) = link_connect lib w 0 l
      in if answered then \<lparr>re_sent = replies, re_posts = [], re_link = l\<rparr>
         else
           (let (reply, version) = offline_reply lib message (lk_offline l) (lk_protocol_version l)
            in \<lparr>re_sent = replies @ opt_list reply, re_posts = [], re_link = l\<lparr>lk_protocol_version := version\<rparr>\<rparr>))"

definition bridge_notify :: "bridge_lib \<Rightarrow> world \<Rightarrow> json \<Rightarrow> link \<Rightarrow> relayed" where
  "bridge_notify lib w message l =
     (let l = (if (case json_get ''method'' message of Some x \<Rightarrow> as_str x | None \<Rightarrow> None) = Some ''notifications/initialized''
               then l\<lparr>lk_initialized := True\<rparr> else l)
      in \<lparr>re_sent = [],
          re_posts = (case lk_upstream l of None \<Rightarrow> [] | Some e \<Rightarrow> [ro_status (snd (relay_post lib message (wo_answers w 0)))]),
          re_link = l\<rparr>)"

text \<open>
  \<open>request\<close>: at most two attempts, each with the link locked while an endpoint is looked for and free
  while the message is posted; \<open>others\<close> is what other tasks do to the link meanwhile.
\<close>

fun request_loop ::
  "bridge_lib \<Rightarrow> world \<Rightarrow> (nat \<Rightarrow> link \<Rightarrow> link) \<Rightarrow> json \<Rightarrow> nat \<Rightarrow> nat \<Rightarrow> link \<Rightarrow> relayed" where
  "request_loop lib w others message 0 n l =
     (let (reply, version) = offline_reply lib message (lk_offline l) (lk_protocol_version l)
      in \<lparr>re_sent = opt_list reply, re_posts = [], re_link = l\<lparr>lk_protocol_version := version\<rparr>\<rparr>)"
| "request_loop lib w others message (Suc k) n l =
     (let i = (case json_get ''id'' message of Some i \<Rightarrow> i | None \<Rightarrow> JNull);
          (n, l) = (if lk_upstream l = None then snd (link_connect lib w n l) else (n, l))
      in case lk_upstream l of
           None \<Rightarrow> request_loop lib w others message 0 n l
         | Some e \<Rightarrow>
             (let generation = lk_generation l;
                  (replies, out) = relay_post lib message (wo_answers w n);
                  n = Suc n;
                  l = others n l
              in case ro_status out of
                   RelayDone \<Rightarrow>
                     if ro_answered out \<or> json_get ''id'' message = None
                     then \<lparr>re_sent = replies, re_posts = [RelayDone], re_link = l\<rparr>
                     else \<lparr>re_sent = replies @ [error_response i (- 32603)
                              ''Positron's MCP endpoint closed the response without answering.''],
                           re_posts = [RelayDone], re_link = l\<rparr>
                 | RelayRefused reason \<Rightarrow>
                     (let (n, l) = (if lk_generation l = generation then snd (link_connect lib w n l) else (n, l));
                          rest = request_loop lib w others message k n l
                      in rest\<lparr>re_sent := replies @ re_sent rest, re_posts := RelayRefused reason # re_posts rest\<rparr>)
                 | RelayFailed reason \<Rightarrow>
                     \<lparr>re_sent = (if ro_answered out then replies else replies @ [error_response i (- 32603) reason]),
                      re_posts = [RelayFailed reason], re_link = l\<rparr>))"

definition bridge_request ::
  "bridge_lib \<Rightarrow> world \<Rightarrow> (nat \<Rightarrow> link \<Rightarrow> link) \<Rightarrow> json \<Rightarrow> link \<Rightarrow> relayed" where
  "bridge_request lib w others message l = request_loop lib w others message 2 0 l"

text \<open>What \<open>run\<close> does with a line of the client.\<close>

datatype line_action = Ignore | ParseError | Initialize json | Notify json | Request json

definition classify_line :: "bridge_lib \<Rightarrow> string \<Rightarrow> line_action" where
  "classify_line lib line =
     (let line = trim line in
      if line = [] then Ignore
      else (case lib_json lib line of
          None \<Rightarrow> ParseError
        | Some message \<Rightarrow>
            (let m = (case json_get ''method'' message of Some x \<Rightarrow> as_str x | None \<Rightarrow> None);
                 i = json_get ''id'' message
             in if m = Some ''initialize'' \<and> i \<noteq> None then Initialize message
                else if m = None \<or> i = None then Notify message
                else Request message)))"

definition run_line ::
  "bridge_lib \<Rightarrow> (string \<Rightarrow> string) \<Rightarrow> world \<Rightarrow> (nat \<Rightarrow> link \<Rightarrow> link) \<Rightarrow> string \<Rightarrow> link \<Rightarrow> relayed" where
  "run_line lib parse_error w others line l =
     (case classify_line lib line of
        Ignore \<Rightarrow> \<lparr>re_sent = [], re_posts = [], re_link = l\<rparr>
      | ParseError \<Rightarrow>
          \<lparr>re_sent = [error_response JNull (- 32700) (''Parse error: '' @ parse_error (trim line))], re_posts = [], re_link = l\<rparr>
      | Initialize message \<Rightarrow> bridge_initialize lib w message l
      | Notify message \<Rightarrow> bridge_notify lib w message l
      | Request message \<Rightarrow>
          (let l = (case request_client_info message of Some ci \<Rightarrow> l\<lparr>lk_client_info := Some ci\<rparr> | None \<Rightarrow> l)
           in bridge_request lib w others message l))"


definition bridge_close :: "link \<Rightarrow> (mcp_endpoint \<times> string) option" where
  "bridge_close l =
     (case (lk_upstream l, lk_session_id l) of (Some e, Some session) \<Rightarrow> Some (e, session) | _ \<Rightarrow> None)"

section \<open>Presence\<close>

definition PRESENCE_RETRY_MIN :: nat where "PRESENCE_RETRY_MIN = 1"
definition PRESENCE_RETRY_MAX :: nat where "PRESENCE_RETRY_MAX = 30"

text \<open>The path of the presence stream; \<open>encode\<close> is percent encoding.\<close>

definition presence_query :: "string \<Rightarrow> client_info option \<Rightarrow> string option \<Rightarrow> (string \<times> string) list" where
  "presence_query pid info dir =
     [(''pid'', pid)] @
     (case info of
        None \<Rightarrow> []
      | Some ci \<Rightarrow> (''name'', cf_name ci) # (case cf_version ci of None \<Rightarrow> [] | Some v \<Rightarrow> [(''version'', v)])) @
     (case dir of None \<Rightarrow> [] | Some d \<Rightarrow> [(''cwd'', d)])"

definition query_string :: "(string \<Rightarrow> string) \<Rightarrow> (string \<times> string) list \<Rightarrow> string" where
  "query_string encode kvs = join_with ''&'' (map (\<lambda>(k, v). k @ ''='' @ encode v) kvs)"

definition presence_path :: "(string \<Rightarrow> string) \<Rightarrow> mcp_endpoint \<Rightarrow> (string \<times> string) list \<Rightarrow> string" where
  "presence_path encode e kvs = trim_end (CHR ''/'') (ep_path e) @ PRESENCE_PATH_SUFFIX @ ''?'' @ query_string encode kvs"

text \<open>
  One turn of \<open>keep_presence\<close>: the link after it was looked at, what is held on which endpoint, and how
  long to wait. \<open>held\<close> is whether the stream could be opened.
\<close>

record keeper =
  kp_stale :: "nat option"
  kp_delay :: nat

definition presence_turn ::
  "bridge_lib \<Rightarrow> world \<Rightarrow> (mcp_endpoint \<Rightarrow> bool) \<Rightarrow> keeper \<Rightarrow> link \<Rightarrow> nat \<times> keeper \<times> link" where
  "presence_turn lib w hold kp l =
     (let l = (if lk_upstream l = None \<or> kp_stale kp = Some (lk_generation l) then snd (snd (link_connect lib w 0 l)) else l);
          held = (case lk_upstream l of Some e \<Rightarrow> hold e | None \<Rightarrow> False)
      in (if held then PRESENCE_RETRY_MIN else kp_delay kp,
          \<lparr>kp_stale = (case lk_upstream l of Some _ \<Rightarrow> Some (lk_generation l) | None \<Rightarrow> None),
           kp_delay = (if held then PRESENCE_RETRY_MIN else min (kp_delay kp * 2) PRESENCE_RETRY_MAX)\<rparr>,
          l))"

section \<open>Lemmas\<close>

lemma starts_with_long: "length p \<le> length s \<Longrightarrow> starts_with p (s @ t) = starts_with p s"
  by (induction p s rule: starts_with.induct) auto

lemma split_once_str_append: "split_once_str p s = Some (a, b) \<Longrightarrow> split_once_str p (s @ t) = Some (a, b @ t)"
proof (induction s arbitrary: a)
  case (Cons x xs)
  show ?case
  proof (cases "starts_with p (x # xs)")
    case True
    then obtain zs where "x # xs = p @ zs"
      by (auto simp: starts_with_iff)
    then have "length p \<le> length (x # xs)"
      by (metis le_add1 length_append)
    then have "starts_with p (x # xs @ t)" "drop (length p) (x # xs @ t) = drop (length p) (x # xs) @ t"
      using True starts_with_long [of p "x # xs" t] drop_append [of "length p" "x # xs" t] by simp_all
    then show ?thesis
      using Cons.prems True by auto
  next
    case False
    then obtain a' where a': "split_once_str p xs = Some (a', b)" "a = x # a'"
      using Cons.prems by auto
    then have "length p \<le> length (x # xs)"
      by (auto dest: split_once_str_Some)
    then show ?thesis
      using Cons.IH a' False starts_with_long [of p "x # xs" t] by auto
  qed
qed (cases t; auto split: if_splits)

lemma drain_append:
  "drain_events (s @ t) = (let (es, r) = drain_events s; (es', r') = drain_events (r @ t) in (es @ es', r'))"
proof (induction s rule: drain_events.induct)
  case (1 s)
  show ?case
  proof (cases "split_once_str sse_end s")
    case None
    then show ?thesis
      by (simp add: drain_events.simps [of s])
  next
    case (Some ab)
    obtain a b where ab: "ab = (a, b)"
      by fastforce
    show ?thesis
      using 1 [OF Some ab [symmetric]] Some ab split_once_str_append [of sse_end s a b t]
      by (simp add: drain_events.simps [of s] drain_events.simps [of "s @ t"] Let_def split: prod.splits)
  qed
qed

lemma drain_rest: "drain_events s = (es, r) \<Longrightarrow> drain_events r = ([], r)"
proof (induction s arbitrary: es rule: drain_events.induct)
  case (1 s)
  show ?case
  proof (cases "split_once_str sse_end s")
    case None
    then show ?thesis
      using 1(2) drain_events.simps [of s] by (auto simp: drain_events.simps [of r])
  next
    case (Some ab)
    obtain a b where ab: "ab = (a, b)"
      by fastforce
    show ?thesis
      using 1(1) [OF Some ab [symmetric]] 1(2) Some ab by (auto simp: drain_events.simps [of s] Let_def split: prod.splits)
  qed
qed

lemma read_frames_whole:
  assumes "\<forall>f \<in> set fs. utf8_lossy f = f" and "drain_events buf = ([], buf)"
  shows "read_frames pj fs None buf =
    (let (es, r) = drain_events (buf @ no_cr (concat fs)) in concat (map (deliver_event pj) es) @ deliver_event pj r)"
  using assms
proof (induction fs arbitrary: buf)
  case Nil
  then show ?case
    by (simp add: no_cr_def Let_def)
next
  case (Cons f fs)
  obtain es r where d: "drain_events (buf @ no_cr f) = (es, r)"
    by fastforce
  have "no_cr (concat (f # fs)) = no_cr f @ no_cr (concat fs)"
    by (simp add: no_cr_def)
  moreover have "read_frames pj fs None r =
      (let (es, r) = drain_events (r @ no_cr (concat fs)) in concat (map (deliver_event pj) es) @ deliver_event pj r)"
    using Cons drain_rest [OF d] by simp
  ultimately show ?case
    using Cons.prems d drain_append [of "buf @ no_cr f" "no_cr (concat fs)"]
    by (simp add: Let_def split: prod.splits)
qed

definition sse_event :: "(json \<Rightarrow> string) \<Rightarrow> json \<Rightarrow> string" where
  "sse_event show_json m = ''data: '' @ show_json m @ sse_end"

lemma drain_one: "CHR 0x0A \<notin> set d \<Longrightarrow> drain_events (d @ sse_end @ s) = (let (es, r) = drain_events s in ((d @ sse_end) # es, r))"
proof -
  assume d: "CHR 0x0A \<notin> set d"
  have "split_once_str sse_end (d @ sse_end @ s) = Some (d, s)"
    using split_once_str_skip [OF d, of "[CHR 0x0A]" "sse_end @ s"] by (simp add: sse_end_def)
  then show ?thesis
    by (simp add: drain_events.simps [of "d @ sse_end @ s"])
qed

lemma deliver_one:
  assumes "CHR 0x0A \<notin> set t" and "CHR 0x0D \<notin> set t" and "pj t = Some m"
  shows "deliver_event pj (''data: '' @ t @ sse_end) = [m]"
proof -
  have s: "split_on newline (''data: '' @ t @ sse_end) = [''data: '' @ t, [], []]"
    using assms(1) split_on_append [of newline "''data: '' @ t"] by (simp add: newline_def sse_end_def)
  have c: "strip_cr (''data: '' @ t) = ''data: '' @ t"
    using assms(2) by (auto simp: strip_cr_def ends_with_char_def dest!: last_in_set)
  have "lines (''data: '' @ t @ sse_end) = [''data: '' @ t, []]"
    unfolding lines_def s using c by (simp add: strip_cr_def ends_with_char_def)
  then show ?thesis
    using assms(3) by (simp add: deliver_event_def event_data_def strip_prefix_def List.map_filter_def)
qed


lemma drain_stream:
  "\<forall>m \<in> set ms. CHR 0x0A \<notin> set (show_json m) \<Longrightarrow> drain_events (concat (map (sse_event show_json) ms)) = (map (sse_event show_json) ms, [])"
proof (induction ms)
  case Nil
  then show ?case
    by (simp add: drain_events.simps [of "[]"] sse_end_def)
next
  case (Cons m ms)
  have "concat (map (sse_event show_json) (m # ms)) = (''data: '' @ show_json m) @ sse_end @ concat (map (sse_event show_json) ms)"
    by (simp add: sse_event_def)
  moreover have "CHR 0x0A \<notin> set (''data: '' @ show_json m)"
    using Cons.prems by simp
  ultimately show ?case
    using drain_one [of "''data: '' @ show_json m" "concat (map (sse_event show_json) ms)"] Cons
    by (simp add: Let_def sse_event_def [of _ m] del: append.simps)
qed

text \<open>The replies to a request among messages.\<close>

definition replies_to :: "json \<Rightarrow> json list \<Rightarrow> json list" where
  "replies_to i ms = filter (\<lambda>m. json_get ''id'' m = Some i) ms"

lemma replies_to_append [simp]: "replies_to i (xs @ ys) = replies_to i xs @ replies_to i ys"
  by (simp add: replies_to_def)

lemma replies_to_simps [simp]:
  "replies_to i [] = []" "replies_to i [error_response i c t] = [error_response i c t]"
  by (simp_all add: replies_to_def error_response_def)

lemma is_answer_iff: "json_get ''id'' message = Some i \<Longrightarrow> is_answer message ms \<longleftrightarrow> replies_to i ms \<noteq> []"
  by (auto simp: is_answer_def replies_to_def list_ex_iff filter_empty_conv)

lemma relay_post_answered:
  "json_get ''id'' message = Some i \<Longrightarrow> relay_post lib message a = (ms, out) \<Longrightarrow> ro_answered out \<longleftrightarrow> replies_to i ms \<noteq> []"
  by (auto simp: relay_post_def Let_def is_answer_iff split: http_answer.splits if_splits option.splits)

lemma relay_post_refused: "relay_post lib message a = (ms, out) \<Longrightarrow> ro_status out = RelayRefused e \<Longrightarrow> ms = []"
  by (auto simp: relay_post_def Let_def split: http_answer.splits if_splits option.splits)

lemma offline_reply_id:
  "json_get ''id'' message = Some i \<Longrightarrow> \<exists>m v. offline_reply lib message off ver = (Some m, v) \<and> json_get ''id'' m = Some i"
  by (auto simp: offline_reply_def Let_def error_response_def split: sum.splits prod.splits option.splits)

lemma offline_answers_once:
  assumes "json_get ''id'' message = Some i" and "offline_reply lib message off ver = (r, v)"
  shows "length (replies_to i (opt_list r)) = 1"
  using offline_reply_id [OF assms(1), of lib off ver] assms(2) by (auto simp: opt_list_def replies_to_def)

definition answers_at_most_once :: "bridge_lib \<Rightarrow> world \<Rightarrow> json \<Rightarrow> json \<Rightarrow> bool" where
  "answers_at_most_once lib w message i \<longleftrightarrow>
     (\<forall>n. length (replies_to i (fst (relay_post lib message (wo_answers w n)))) \<le> 1)"

text \<open>What was refused can be sent again; anything else ends the call.\<close>

fun refused_until_last :: "relay_status list \<Rightarrow> bool" where
  "refused_until_last (RelayRefused e # p # ps) = refused_until_last (p # ps)"
| "refused_until_last (p # q # ps) = False"
| "refused_until_last ps = True"

lemma refused_until_last_Cons: "refused_until_last ps \<Longrightarrow> refused_until_last (RelayRefused e # ps)"
  by (cases ps) auto

lemma request_loop_posts:
  "length (re_posts (request_loop lib w others message k n l)) \<le> k \<and>
   refused_until_last (re_posts (request_loop lib w others message k n l))"
proof (induction k arbitrary: n l)
  case 0
  then show ?case
    by (simp add: Let_def split: prod.splits)
next
  case (Suc k)
  show ?case
    using Suc.IH
    by (auto simp: Let_def refused_until_last_Cons split: prod.splits option.splits relay_status.splits if_splits)
qed

lemma request_loop_answers:
  assumes "json_get ''id'' message = Some i" and "answers_at_most_once lib w message i"
  shows "length (replies_to i (re_sent (request_loop lib w others message k n l))) = 1"
proof (induction k arbitrary: n l)
  case 0
  then show ?case
    using offline_answers_once [OF assms(1)] by (auto simp: Let_def split: prod.splits)
next
  case (Suc k)
  obtain n1 l1 where one: "(if lk_upstream l = None then snd (link_connect lib w n l) else (n, l)) = (n1, l1)"
    by fastforce
  show ?case
  proof (cases "lk_upstream l1")
    case None
    have "request_loop lib w others message (Suc k) n l = request_loop lib w others message 0 n1 l1"
      using one None by (simp del: request_loop.simps(1) add: Let_def)
    then show ?thesis
      using offline_answers_once [OF assms(1)] by (auto simp: Let_def split: prod.splits)
  next
    case (Some e)
    obtain ms out where post: "relay_post lib message (wo_answers w n1) = (ms, out)"
      by fastforce
    have most: "length (replies_to i ms) \<le> 1"
      using assms(2) post unfolding answers_at_most_once_def by (metis fst_conv)
    have yes: "ro_answered out \<longleftrightarrow> length (replies_to i ms) = 1"
      using relay_post_answered [OF assms(1) post] most by (cases "replies_to i ms") auto
    have no: "replies_to i ms = []" if "\<not> ro_answered out"
      using relay_post_answered [OF assms(1) post] that by simp
    show ?thesis
    proof (cases "ro_status out")
      case RelayDone
      then show ?thesis
        using one Some post assms(1) yes no by (auto simp: Let_def)
    next
      case (RelayRefused reason)
      then show ?thesis
        using one Some post relay_post_refused [OF post RelayRefused] Suc.IH by (simp add: Let_def split: prod.splits)
    next
      case (RelayFailed reason)
      then show ?thesis
        using one Some post assms(1) yes no by (auto simp: Let_def)
    qed
  qed
qed


section \<open>Properties\<close>

text \<open>
  C27. A request is answered exactly once, whatever the network and the other tasks do: by the
  endpoint, or by the bridge. It is posted at most twice, and posted again only after a refusal, so
  it runs at most once. The endpoint is assumed to answer each post at most once.
\<close>

theorem request_answered_once:
  assumes "json_get ''id'' message = Some i" and "answers_at_most_once lib w message i"
  shows "length (replies_to i (re_sent (bridge_request lib w others message l))) = 1 \<and>
    length (re_posts (bridge_request lib w others message l)) \<le> 2 \<and>
    refused_until_last (re_posts (bridge_request lib w others message l))"
  unfolding bridge_request_def using request_loop_answers [OF assms] request_loop_posts by blast

definition demo_lib :: bridge_lib where
  "demo_lib = \<lparr>lib_json = (\<lambda>s. if s = ''ok'' then Some (JObject [(''id'', JInt 1), (''result'', JNull)]) else None),
     lib_url = (\<lambda>u. if u = ''u'' then Some \<lparr>ur_scheme = Some ''http'', ur_host = Some ''h'', ur_port = Some 80, ur_path = ''/mcp/w/a''\<rparr> else None),
     lib_status_line = (\<lambda>_. []), lib_negotiate = (\<lambda>_ _. Inl (0, [])), lib_discover = (\<lambda>_. Inl []),
     lib_tools = Inl [], lib_tool_error = (\<lambda>_. Inl [])\<rparr>"

definition demo_files :: files where
  "demo_files = \<lparr>fs_index = (\<lambda>_. None), fs_descriptor = (\<lambda>_. None), fs_canonical = (\<lambda>p. [p])\<rparr>"

definition demo_world :: world where
  "demo_world = \<lparr>wo_answers = (\<lambda>n. if n = 0 then NotConnected ''x'' else Answer 200 None False [''ok''] None),
     wo_files = (\<lambda>_. demo_files)\<rparr>"

definition demo_resolver :: resolver where
  "demo_resolver = \<lparr>rs_connections = None, rs_workspace = None,
     rs_environment = Some \<lparr>ep_host = ''h'', ep_port = 80, ep_path = ''/mcp/w/a'', ep_token = ''t''\<rparr>,
     rs_environment_stale = False, rs_working_dir = None\<rparr>"

theorem request_answered_once_witness:
  "length (replies_to (JInt 1) (re_sent (bridge_request demo_lib demo_world (\<lambda>_. id)
     (JObject [(''id'', JInt 1), (''method'', JString ''tools/call'')]) (link_new demo_resolver)))) = 1 \<and>
   re_posts (bridge_request demo_lib demo_world (\<lambda>_. id)
     (JObject [(''id'', JInt 1), (''method'', JString ''tools/call'')]) (link_new demo_resolver)) = [RelayRefused ''x'', RelayDone]"
proof -
  let ?m = "JObject [(''id'', JInt 1), (''method'', JString ''tools/call'')]"
  have "answers_at_most_once demo_lib demo_world ?m (JInt 1)"
    by (simp add: answers_at_most_once_def demo_lib_def demo_world_def relay_post_def REFUSALS_def utf8_lossy.simps later_bytes_def
        in_range_def replies_to_def Let_def)
  then have "length (replies_to (JInt 1) (re_sent (bridge_request demo_lib demo_world (\<lambda>_. id) ?m (link_new demo_resolver)))) = 1"
    using request_answered_once [of ?m "JInt 1" demo_lib demo_world "\<lambda>_. id" "link_new demo_resolver"] by simp
  moreover have "re_posts (bridge_request demo_lib demo_world (\<lambda>_. id) ?m (link_new demo_resolver)) = [RelayRefused ''x'', RelayDone]"
    by (simp add: bridge_request_def numeral_2_eq_2 link_connect_def resolve_endpoint_def link_connected_def link_new_def
        demo_resolver_def demo_lib_def demo_world_def relay_post_def REFUSALS_def is_success_def is_answer_def utf8_lossy.simps
        later_bytes_def in_range_def endpoint_workspace_def lookup_def read_index_def Let_def strip_prefix_def MCP_PATH_PREFIX_def
        trim_end_def before_str_def CALLER_PATH_SEGMENT_def)
  ultimately show ?thesis ..
qed

text \<open>
  What the endpoint streams arrives: however the network cuts the stream into frames, as long as
  no frame ends within a character, each message reaches the client once and in order.
\<close>

theorem events_delivered_whole:
  assumes "concat frames = concat (map (sse_event show_json) ms)" and "\<forall>f \<in> set frames. utf8_lossy f = f"
    and "\<forall>m \<in> set ms. parse_json (show_json m) = Some m \<and> CHR 0x0A \<notin> set (show_json m) \<and> CHR 0x0D \<notin> set (show_json m)"
  shows "read_events parse_json frames None = ms"
proof -
  have "no_cr (concat frames) = concat frames"
    unfolding assms(1) no_cr_def filter_id_conv using assms(3) by (auto simp: sse_event_def sse_end_def)
  then have "drain_events (no_cr (concat frames)) = (map (sse_event show_json) ms, [])"
    using drain_stream [of ms show_json] assms(1,3) by simp
  moreover have "drain_events [] = ([], [])"
    by (simp add: drain_events.simps [of "[]"] sse_end_def)
  ultimately have "read_events parse_json frames None =
      concat (map (deliver_event parse_json) (map (sse_event show_json) ms)) @ deliver_event parse_json []"
    using read_frames_whole [of frames "[]" parse_json] assms(2) by (simp add: read_events_def)
  moreover have "deliver_event parse_json [] = []"
    by (simp add: deliver_event_def event_data_def lines_def List.map_filter_def strip_prefix_def)
  moreover have "map (\<lambda>m. deliver_event parse_json (sse_event show_json m)) ms = map (\<lambda>m. [m]) ms"
    using assms(3) deliver_one by (auto simp: sse_event_def)
  ultimately show ?thesis
    by (simp add: o_def)
qed

theorem events_delivered_whole_witness:
  "read_events (\<lambda>s. if s = ''{}'' then Some (JObject []) else None) [''dat'', ''a: {}'' @ [CHR 0x0A], CHR 0x0A # ''data: {}'' @ sse_end] None =
     [JObject [], JObject []]"
proof (rule events_delivered_whole [where show_json = "\<lambda>_. ''{}''"])
  show "concat [''dat'', ''a: {}'' @ [CHR 0x0A], CHR 0x0A # ''data: {}'' @ sse_end] =
      concat (map (sse_event (\<lambda>_. ''{}'')) [JObject [], JObject []])"
    by (simp add: sse_event_def sse_end_def)
  show "\<forall>f \<in> set [''dat'', ''a: {}'' @ [CHR 0x0A], CHR 0x0A # ''data: {}'' @ sse_end]. utf8_lossy f = f"
    by (simp add: utf8_lossy.simps later_bytes_def in_range_def sse_end_def)
qed simp

text \<open>
  A character cut by a frame boundary does not arrive: each of its halves is replaced, so a
  message reaches the client altered although the stream carried it whole.
\<close>

theorem cut_character_altered:
  "read_events (\<lambda>s. Some (JString s)) [''data: '' @ [CHR 0xC3, CHR 0xA9], sse_end] None = [JString [CHR 0xC3, CHR 0xA9]] \<and>
   read_events (\<lambda>s. Some (JString s)) [''data: '' @ [CHR 0xC3], CHR 0xA9 # sse_end] None = [JString (replacement @ replacement)]"
  by code_simp


lemma set_map_filter: "set (List.map_filter f xs) = {y. \<exists>x \<in> set xs. f x = Some y}"
  by (force simp: List.map_filter_def)

lemma max_option_Some: "max_option xs = Some m \<longleftrightarrow> m \<in> set xs \<and> (\<forall>x \<in> set xs. x \<le> m)"
  by (auto simp: max_option_def intro: Max_eqI [symmetric] simp: Max_eq_iff)

lemma max_option_None [simp]: "max_option xs = None \<longleftrightarrow> xs = []"
  by (simp add: max_option_def)

lemma folder_depth_Some:
  "folder_depth fs dir entry = Some d \<longleftrightarrow>
     (\<exists>f \<in> set (ie_folders entry). starts_with (fs_canonical fs f) dir \<and> d = length (fs_canonical fs f)) \<and>
     (\<forall>f \<in> set (ie_folders entry). starts_with (fs_canonical fs f) dir \<longrightarrow> length (fs_canonical fs f) \<le> d)"
  by (auto simp: folder_depth_def max_option_Some)

lemma folder_depth_None:
  "folder_depth fs dir entry = None \<longleftrightarrow> (\<forall>f \<in> set (ie_folders entry). \<not> starts_with (fs_canonical fs f) dir)"
  by (auto simp: folder_depth_def filter_empty_conv)

text \<open>The folders that contain a directory: their depth, and the use and name of their workspace.\<close>

definition folders_containing :: "files \<Rightarrow> connections_index \<Rightarrow> string list \<Rightarrow> (nat \<times> string option \<times> string) set" where
  "folders_containing fs ix dir =
     {(length (fs_canonical fs f), ie_last_active entry, i) | i entry f.
        (i, entry) \<in> set (ix_workspaces ix) \<and> f \<in> set (ie_folders entry) \<and> starts_with (fs_canonical fs f) dir}"

lemma working_dir_found:
  fixes fs ix dir
  defines "found \<equiv> List.map_filter (\<lambda>(i, entry). map_option (\<lambda>depth. (depth, ie_last_active entry, i)) (folder_depth fs dir entry)) (ix_workspaces ix)"
  shows "set found \<subseteq> folders_containing fs ix dir" and "\<forall>x \<in> folders_containing fs ix dir. \<exists>y \<in> set found. x \<le> y"
proof -
  show "set found \<subseteq> folders_containing fs ix dir"
    by (clarsimp simp: found_def folders_containing_def set_map_filter folder_depth_Some) metis
  show "\<forall>x \<in> folders_containing fs ix dir. \<exists>y \<in> set found. x \<le> y"
  proof
    fix x assume "x \<in> folders_containing fs ix dir"
    then obtain i entry f where x: "x = (length (fs_canonical fs f), ie_last_active entry, i)" "(i, entry) \<in> set (ix_workspaces ix)"
        "f \<in> set (ie_folders entry)" "starts_with (fs_canonical fs f) dir"
      by (auto simp: folders_containing_def)
    then obtain d where d: "folder_depth fs dir entry = Some d" "length (fs_canonical fs f) \<le> d"
      by (meson folder_depth_None folder_depth_Some option.exhaust)
    have "(d, ie_last_active entry, i) \<in> set found"
      using x(2) d(1) by (force simp: found_def set_map_filter)
    moreover have "x \<le> (d, ie_last_active entry, i)"
      using x(1) d(2) by (auto simp: less_eq_prod_def)
    ultimately show "\<exists>y \<in> set found. x \<le> y" ..
  qed
qed

text \<open>
  A client started in a directory is attached to the workspace whose folder most closely contains
  it, of several the one used last; and to none just when no folder contains it.
\<close>

theorem working_dir_picks_deepest:
  assumes "rs_working_dir r = Some wd" and "read_index fs r = Some ix"
  shows "case workspace_for_working_dir fs r of
      None \<Rightarrow> folders_containing fs ix (fs_canonical fs wd) = {}
    | Some i \<Rightarrow> \<exists>depth used. (depth, used, i) \<in> folders_containing fs ix (fs_canonical fs wd) \<and>
        (\<forall>(depth', used', i') \<in> folders_containing fs ix (fs_canonical fs wd). depth' < depth \<or> depth' = depth \<and> used' \<le> used)"
proof -
  let ?found = "List.map_filter (\<lambda>(i, entry). map_option (\<lambda>depth. (depth, ie_last_active entry, i))
      (folder_depth fs (fs_canonical fs wd) entry)) (ix_workspaces ix)"
  let ?all = "folders_containing fs ix (fs_canonical fs wd)"
  note found = working_dir_found [where fs = fs and ix = ix and dir = "fs_canonical fs wd"]
  have w: "workspace_for_working_dir fs r = map_option (\<lambda>(_, _, i). i) (max_option ?found)"
    using assms by (simp add: workspace_for_working_dir_def Let_def)
  show ?thesis
  proof (cases "max_option ?found")
    case None
    then show ?thesis
      unfolding w None using found(2) max_option_None [THEN iffD1, OF None] by auto
  next
    case (Some m)
    obtain depth used i where m: "m = (depth, used, i)"
      by (cases m) auto
    have best: "m \<in> set ?found" "\<forall>x \<in> set ?found. x \<le> m"
      using Some max_option_Some by blast+
    have "depth' < depth \<or> depth' = depth \<and> used' \<le> used" if "(depth', used', i') \<in> ?all" for depth' used' i'
    proof -
      have "(depth', used', i') \<le> (depth, used, i)"
        using found(2) that best(2) m by (meson order_trans)
      then show ?thesis
        by (auto simp: less_eq_prod_def)
    qed
    moreover have "(depth, used, i) \<in> ?all"
      using best(1) found(1) m by blast
    ultimately show ?thesis
      using w Some m by fastforce
  qed
qed

definition demo_index :: connections_index where
  "demo_index = \<lparr>ix_version = 1, ix_workspaces =
     [(''outer'', \<lparr>ie_descriptor = ''o'', ie_folders = [''/a''], ie_last_active = Some ''2026-02''\<rparr>),
      (''inner'', \<lparr>ie_descriptor = ''i'', ie_folders = [''/a/b''], ie_last_active = None\<rparr>)]\<rparr>"

definition demo_disk :: files where
  "demo_disk = \<lparr>fs_index = (\<lambda>_. Some demo_index), fs_descriptor = (\<lambda>_. None), fs_canonical = split_on (CHR ''/'')\<rparr>"

definition demo_here :: resolver where
  "demo_here = \<lparr>rs_connections = Some ''c'', rs_workspace = None, rs_environment = None, rs_environment_stale = False,
     rs_working_dir = Some ''/a/b/c''\<rparr>"

theorem working_dir_picks_deepest_witness:
  "workspace_for_working_dir demo_disk demo_here = Some ''inner'' \<and>
   (\<exists>depth used. (depth, used, ''inner'') \<in> folders_containing demo_disk demo_index (fs_canonical demo_disk ''/a/b/c''))"
proof -
  have "workspace_for_working_dir demo_disk demo_here = Some ''inner''"
    by code_simp
  moreover have "rs_working_dir demo_here = Some ''/a/b/c''" "read_index demo_disk demo_here = Some demo_index"
    by (simp_all add: demo_here_def demo_disk_def read_index_def CONNECTIONS_VERSION_def demo_index_def)
  ultimately show ?thesis
    using working_dir_picks_deepest [of demo_here "''/a/b/c''" demo_disk demo_index] by auto
qed


section \<open>The endpoint of a session\<close>

lemma trim_end_no_slash: "CHR ''/'' \<notin> set s \<Longrightarrow> s \<noteq> [] \<Longrightarrow> trim_end (CHR ''/'') (e @ s) = e @ s"
  by (cases s rule: rev_cases) (auto simp: trim_end_def)

lemma split_caller: "is_valid_id i \<Longrightarrow> split_once_str CALLER_PATH_SEGMENT (i @ CALLER_PATH_SEGMENT @ s) = Some (i, s)"
  using split_once_str_skip [OF valid_id_no_slash, of i "''s/''" "CALLER_PATH_SEGMENT @ s"]
  by (simp add: CALLER_PATH_SEGMENT_def starts_with_append)

lemma valid_id_nonempty: "is_valid_id i \<Longrightarrow> i \<noteq> []"
  by (auto simp: is_valid_id_def)

lemma split_caller_path:
  assumes "is_valid_id i" and "i \<noteq> ''s''"
  shows "split_once_str CALLER_PATH_SEGMENT (MCP_PATH_PREFIX @ i @ CALLER_PATH_SEGMENT @ s) = Some (MCP_PATH_PREFIX @ i, s)"
proof -
  obtain c j where i: "i = c # j"
    using valid_id_nonempty [OF assms(1)] by (cases i) auto
  have "\<not> starts_with ''s/'' (i @ CALLER_PATH_SEGMENT @ s)"
    using assms(2) valid_id_no_slash [OF assms(1)] i by (cases j) auto
  then show ?thesis
    using split_caller [OF assms(1), of s] by (simp add: MCP_PATH_PREFIX_def CALLER_PATH_SEGMENT_def)
qed

lemma session_endpoint_parts:
  assumes "is_valid_id i" and "i \<noteq> ''s''" and "ep_path e = MCP_PATH_PREFIX @ i @ CALLER_PATH_SEGMENT @ s"
  shows "endpoint_workspace e = Some i" and "caller_suffix e = Some (CALLER_PATH_SEGMENT @ s)"
proof -
  show "endpoint_workspace e = Some i"
    using assms split_caller [OF assms(1), of s] trim_end_no_slash [OF valid_id_no_slash valid_id_nonempty, of i "[]"]
      valid_id_nonempty [OF assms(1)]
    by (simp add: endpoint_workspace_def strip_prefix_def before_str_def Let_def)
  show "caller_suffix e = Some (CALLER_PATH_SEGMENT @ s)"
    using assms(3) split_caller_path [OF assms(1,2), of s] by (simp add: caller_suffix_def)
qed

text \<open>What is relied on of the parser of URLs, for the URLs the server makes.\<close>

definition parses_endpoints :: "(string \<Rightarrow> url option) \<Rightarrow> bool" where
  "parses_endpoints parse_url \<longleftrightarrow>
     (\<forall>port path. parse_url (''http://127.0.0.1:'' @ show_nat port @ MCP_PATH_PREFIX @ path) =
        Some \<lparr>ur_scheme = Some ''http'', ur_host = Some ''127.0.0.1'', ur_port = Some port, ur_path = MCP_PATH_PREFIX @ path\<rparr>)"

text \<open>
  When the server a session was started under has been replaced, a client in that session finds the
  new one: once the endpoint of its environment has failed, it takes the port and token that are now
  published for the workspace, and still addresses it as the same session.
\<close>

theorem moved_endpoint_keeps_caller:
  assumes "parses_endpoints parse_url" and "is_valid_id i" and "i \<noteq> ''s''" and "s \<noteq> []"
    and "CHR ''/'' \<notin> set s" and "s \<notin> {''server-card'', ''presence''}"
    and "env MCP_URL_VAR = Some (session_endpoint_url port i s)" and "env MCP_TOKEN_VAR = Some t"
    and "r = from_environment parse_url env dir None wd"
    and "lookup parse_url fs r i = endpoint_parse parse_url (endpoint_url port' i) t'"
  shows "case resolve_endpoint parse_url fs (rs_environment r) r of
      (Some e, r') \<Rightarrow> ep_port e = port' \<and> ep_token e = t' \<and> route (ep_path e) = Some (False, False, i, Some s) \<and>
        resolve_endpoint parse_url fs None r' = (Some e, r')
    | (None, _) \<Rightarrow> False"
proof -
  let ?path = "MCP_PATH_PREFIX @ i @ CALLER_PATH_SEGMENT @ s"
  let ?old = "\<lparr>ep_host = ''127.0.0.1'', ep_port = port, ep_path = ?path, ep_token = t\<rparr>"
  let ?new = "\<lparr>ep_host = ''127.0.0.1'', ep_port = port', ep_path = MCP_PATH_PREFIX @ i, ep_token = t'\<rparr>"
  let ?stale = "r\<lparr>rs_environment_stale := True\<rparr>"
  have "endpoint_parse parse_url (session_endpoint_url port i s) t = Some ?old"
    using assms(1) by (simp add: parses_endpoints_def endpoint_parse_def session_endpoint_url_def endpoint_url_def)
  then have env: "rs_environment r = Some ?old" "rs_workspace r = None"
    using assms(7-9) by (simp_all add: from_environment_def)
  have "lookup parse_url fs ?stale i = lookup parse_url fs r i"
    by (simp add: lookup_def read_index_def)
  then have found: "lookup parse_url fs ?stale i = Some ?new"
    using assms(1,10) by (simp add: parses_endpoints_def endpoint_parse_def endpoint_url_def)
  have "with_caller (caller_suffix ?old) ?new = ?new\<lparr>ep_path := ?path\<rparr>"
    using session_endpoint_parts [OF assms(2,3), of ?old s]
      trim_end_no_slash [OF valid_id_no_slash [OF assms(2)] valid_id_nonempty [OF assms(2)], of MCP_PATH_PREFIX]
    by (simp add: with_caller_def)
  moreover have "endpoint_workspace ?old = Some i"
    using session_endpoint_parts [OF assms(2,3), of ?old s] by simp
  ultimately show ?thesis
    using env found route_session [OF assms(2,4-6)] by (simp add: resolve_endpoint_def Let_def)
qed


text \<open>A parser of such URLs: digits up to the next slash.\<close>

definition demo_parse :: "string \<Rightarrow> url option" where
  "demo_parse u =
     (case strip_prefix ''http://127.0.0.1:'' u of
        None \<Rightarrow> None
      | Some rest \<Rightarrow>
          Some \<lparr>ur_scheme = Some ''http'', ur_host = Some ''127.0.0.1'',
            ur_port = Some (number_value 10 (takeWhile (\<lambda>c. c \<noteq> CHR ''/'') rest)), ur_path = dropWhile (\<lambda>c. c \<noteq> CHR ''/'') rest\<rparr>)"


lemma demo_parse_endpoints: "parses_endpoints demo_parse"
proof -
  have "takeWhile (\<lambda>c. c \<noteq> CHR ''/'') (show_nat port @ CHR ''/'' # p) = show_nat port"
      "dropWhile (\<lambda>c. c \<noteq> CHR ''/'') (show_nat port @ CHR ''/'' # p) = CHR ''/'' # p" for port p
    using show_nat_facts [of port]
    by (auto simp: takeWhile_append dropWhile_append list_all_iff is_digit_def code_in_def)
  then show ?thesis
    using show_nat_facts by (simp add: parses_endpoints_def demo_parse_def strip_prefix_def MCP_PATH_PREFIX_def)
qed

definition demo_env :: env where
  "demo_env = [MCP_URL_VAR \<mapsto> session_endpoint_url 4567 ''proj'' ''py-1'', MCP_TOKEN_VAR \<mapsto> ''t'']"

definition moved_disk :: files where
  "moved_disk = \<lparr>fs_index = (\<lambda>_. Some \<lparr>ix_version = 1, ix_workspaces =
       [(''proj'', \<lparr>ie_descriptor = ''d'', ie_folders = [], ie_last_active = None\<rparr>)]\<rparr>),
     fs_descriptor = (\<lambda>_. Some \<lparr>ds_version = 1, ds_url = endpoint_url 9999 ''proj'', ds_token = ''u''\<rparr>), fs_canonical = (\<lambda>p. [p])\<rparr>"

theorem moved_endpoint_keeps_caller_witness:
  "let r = from_environment demo_parse demo_env (Some ''c'') None None
   in case resolve_endpoint demo_parse moved_disk (rs_environment r) r of
        (Some e, _) \<Rightarrow> ep_port e = 9999 \<and> route (ep_path e) = Some (False, False, ''proj'', Some ''py-1'')
      | (None, _) \<Rightarrow> False"
proof -
  let ?r = "from_environment demo_parse demo_env (Some ''c'') None None"
  have "is_valid_id ''proj''"
    by code_simp
  moreover have "lookup demo_parse moved_disk ?r ''proj'' = endpoint_parse demo_parse (endpoint_url 9999 ''proj'') ''u''"
    by (simp add: lookup_def read_index_def from_environment_def moved_disk_def CONNECTIONS_VERSION_def)
  ultimately show ?thesis
    using moved_endpoint_keeps_caller [OF demo_parse_endpoints, of "''proj''" "''py-1''" demo_env 4567 "''t''" ?r "Some ''c''" None
        moved_disk 9999 "''u''"]
    by (auto simp: demo_env_def MCP_URL_VAR_def MCP_TOKEN_VAR_def Let_def split: prod.splits option.splits)
qed

text \<open>
  The workspace whose name is the letter that marks a calling session is misread: the client of such a
  session, once its server has been replaced, addresses a session that does not exist.
\<close>

theorem workspace_s_misaddressed:
  "is_valid_id ''s'' \<and>
   caller_suffix \<lparr>ep_host = h, ep_port = p, ep_path = MCP_PATH_PREFIX @ ''s'' @ CALLER_PATH_SEGMENT @ ''py-1'', ep_token = t\<rparr> =
     Some (CALLER_PATH_SEGMENT @ ''s/py-1'') \<and>
   route (ep_path (with_caller (Some (CALLER_PATH_SEGMENT @ ''s/py-1''))
     \<lparr>ep_host = h, ep_port = p, ep_path = MCP_PATH_PREFIX @ ''s'', ep_token = t\<rparr>)) = Some (False, False, ''s'', Some ''s/py-1'')"
proof -
  have "is_valid_id ''s''"
    by code_simp
  moreover have "split_once_str CALLER_PATH_SEGMENT (MCP_PATH_PREFIX @ ''s'' @ CALLER_PATH_SEGMENT @ ''py-1'') = Some (''/mcp/w'', ''s/py-1'')"
    by code_simp
  moreover have "route (trim_end (CHR ''/'') (MCP_PATH_PREFIX @ ''s'') @ CALLER_PATH_SEGMENT @ ''s/py-1'') = Some (False, False, ''s'', Some ''s/py-1'')"
    by code_simp
  ultimately show ?thesis
    by (simp add: caller_suffix_def with_caller_def)
qed

section \<open>Presence reaches the server\<close>

text \<open>What is relied on of percent encoding: it uses letters, digits and percent signs, and is undone by decoding.\<close>

definition percent_coding :: "(string \<Rightarrow> string) \<Rightarrow> (string \<Rightarrow> string) \<Rightarrow> bool" where
  "percent_coding encode decode \<longleftrightarrow>
     (\<forall>v. decode (encode v) = v \<and> set (encode v) \<inter> {CHR ''&'', CHR ''='', CHR ''+''} = {}) \<and>
     decode ''pid'' = ''pid'' \<and> decode ''name'' = ''name'' \<and> decode ''version'' = ''version'' \<and> decode ''cwd'' = ''cwd''"

lemma query_pairs_back:
  assumes "percent_coding encode (lib_decode lib)"
    and "kvs \<noteq> []" and "\<forall>(k, v) \<in> set kvs. k \<in> {''pid'', ''name'', ''version'', ''cwd''}"
  shows "query_pairs lib (query_string encode kvs) = kvs"
proof -
  let ?enc = "\<lambda>(k, v). k @ CHR ''='' # encode v"
  let ?plus = "map (\<lambda>c. if c = CHR ''+'' then CHR '' '' else c)"
  have enc: "lib_decode lib (encode v) = v" "CHR ''&'' \<notin> set (encode v)" "CHR ''+'' \<notin> set (encode v)" for v
    using assms(1) by (auto simp: percent_coding_def)
  have plus: "?plus (encode v) = encode v" for v
    using enc(3) [of v] by (intro map_idI) auto
  have "\<forall>w \<in> set (map ?enc kvs). CHR ''&'' \<notin> set w"
    using assms(3) enc(2) by auto
  then have "split_on (CHR ''&'') (query_string encode kvs) = map ?enc kvs"
    using assms(2) split_on_words [of "map ?enc kvs"] by (simp add: query_string_def)
  moreover have "filter (\<lambda>pair. pair \<noteq> []) (map ?enc kvs) = map ?enc kvs"
    by (auto simp: filter_id_conv)
  moreover have "map (\<lambda>kv. case split_once (CHR ''='') (?enc kv) of
        Some (k, v) \<Rightarrow> (lib_decode lib (?plus k), lib_decode lib (?plus v)) | None \<Rightarrow> (lib_decode lib (?plus (?enc kv)), [])) kvs = kvs"
  proof (rule map_idI)
    fix kv assume kv_in: "kv \<in> set kvs"
    obtain k v where kv: "kv = (k, v)"
      by fastforce
    then have k: "k \<in> {''pid'', ''name'', ''version'', ''cwd''}"
      using assms(3) kv_in by auto
    then have "split_once (CHR ''='') (k @ CHR ''='' # encode v) = Some (k, encode v)"
      by (intro split_once_append) auto
    moreover have "lib_decode lib (?plus k) = k"
      using k assms(1) by (auto simp: percent_coding_def)
    ultimately show "(case split_once (CHR ''='') (?enc kv) of
        Some (k, v) \<Rightarrow> (lib_decode lib (?plus k), lib_decode lib (?plus v)) | None \<Rightarrow> (lib_decode lib (?plus (?enc kv)), [])) = kv"
      by (simp add: kv plus enc(1))
  qed
  ultimately show ?thesis
    by (simp add: query_pairs_def Let_def o_def)
qed

lemma route_presence_session:
  assumes "is_valid_id i" and "s \<noteq> []" and "CHR ''/'' \<notin> set s"
  shows "route (MCP_PATH_PREFIX @ i @ CALLER_PATH_SEGMENT @ s @ PRESENCE_PATH_SUFFIX) = Some (False, True, i, Some s)"
proof -
  let ?e = "(i @ CALLER_PATH_SEGMENT @ s) @ PRESENCE_PATH_SUFFIX"
  have "trim_end (CHR ''/'') ?e = ?e"
    using trim_end_no_slash [of "''presence''" "(i @ CALLER_PATH_SEGMENT @ s) @ ''/''"] by (simp add: PRESENCE_PATH_SUFFIX_def)
  moreover have "strip_suffix CARD_PATH_SUFFIX ?e = None"
    using strip_suffix_last_segment [of "''presence''" "''server-card''" "i @ CALLER_PATH_SEGMENT @ s"]
    by (simp add: CARD_PATH_SUFFIX_def PRESENCE_PATH_SUFFIX_def)
  moreover have "strip_suffix PRESENCE_PATH_SUFFIX ?e = Some (i @ CALLER_PATH_SEGMENT @ s)"
    by (rule strip_suffix_append)
  ultimately show ?thesis
    using assms(2) split_caller [OF assms(1), of s]
    by (simp add: route_def strip_prefix_def Let_def strip_flag_def CALLER_PATH_SEGMENT_def)
qed

text \<open>
  The presence stream a client opens names it to the server: the path is read back as the presence of
  the same session, and its name, version, process and directory as they were, whatever characters they have.
\<close>

theorem presence_identity_round_trip:
  assumes "percent_coding encode (lib_decode lib)" and "is_valid_id i" and "s \<noteq> []" and "CHR ''/'' \<notin> set s"
    and "ep_path e = MCP_PATH_PREFIX @ i @ CALLER_PATH_SEGMENT @ s"
  shows "\<exists>path q. presence_path encode e (presence_query pid info dir) = path @ ''?'' @ q \<and>
    route path = Some (False, True, i, Some s) \<and>
    read_identity lib (Some s) (query_pairs lib q) =
      \<lparr>ci_name = map_option cf_name info, ci_version = Option.bind info cf_version, ci_pid = lib_parse_pid lib pid,
       ci_working_directory = dir, ci_session_id = Some s\<rparr>"
proof -
  let ?kvs = "presence_query pid info dir"
  have "query_pairs lib (query_string encode ?kvs) = ?kvs"
    using assms(1) by (rule query_pairs_back) (auto simp: presence_query_def split: option.splits)
  moreover have "trim_end (CHR ''/'') (ep_path e) = ep_path e"
    using trim_end_no_slash [OF assms(4,3), of "MCP_PATH_PREFIX @ i @ CALLER_PATH_SEGMENT"] assms(5) by simp
  moreover have "read_identity lib (Some s) ?kvs =
      \<lparr>ci_name = map_option cf_name info, ci_version = Option.bind info cf_version, ci_pid = lib_parse_pid lib pid,
       ci_working_directory = dir, ci_session_id = Some s\<rparr>"
    by (cases info; cases dir) (auto simp: presence_query_def read_identity_def split: option.splits)
  ultimately show ?thesis
    using route_presence_session [OF assms(2-4)] assms(5)
    by (intro exI [of _ "ep_path e @ PRESENCE_PATH_SUFFIX"] exI [of _ "query_string encode ?kvs"]) (simp add: presence_path_def)
qed


text \<open>Percent encoding of every character.\<close>

definition pct_digit :: "nat \<Rightarrow> char" where "pct_digit n = ''0123456789ABCDEF'' ! n"

definition pct_value :: "char \<Rightarrow> nat" where "pct_value c = length (takeWhile (\<lambda>d. d \<noteq> c) ''0123456789ABCDEF'')"

definition demo_encode :: "string \<Rightarrow> string" where
  "demo_encode v = concat (map (\<lambda>c. [CHR ''%'', pct_digit (of_char c div 16), pct_digit (of_char c mod 16)]) v)"

fun demo_decode :: "string \<Rightarrow> string" where
  "demo_decode (a # b # c # s) =
     (if a = CHR ''%'' then char_of (16 * pct_value b + pct_value c) # demo_decode s else a # demo_decode (b # c # s))"
| "demo_decode s = s"

lemma pct_facts:
  assumes "n < 16"
  shows "pct_value (pct_digit n) = n" and "pct_digit n \<notin> {CHR ''&'', CHR ''='', CHR ''+''}"
proof -
  have "list_all (\<lambda>n. pct_value (pct_digit n) = n \<and> pct_digit n \<notin> {CHR ''&'', CHR ''='', CHR ''+''}) [0..<16]"
    by code_simp
  then show "pct_value (pct_digit n) = n" and "pct_digit n \<notin> {CHR ''&'', CHR ''='', CHR ''+''}"
    using assms by (auto simp: list_all_iff)
qed

lemma demo_coding: "percent_coding demo_encode demo_decode"
proof -
  have h: "of_char c div 16 < (16 :: nat)" for c :: char
    using nat_of_char_less_256 [of c] by (simp add: less_mult_imp_div_less)
  have "demo_decode (demo_encode v) = v" for v
  proof (induction v)
    case (Cons c v)
    then show ?case
      using pct_facts(1) [OF h, of c] pct_facts(1) [of "of_char c mod 16"] by (simp add: demo_encode_def)
  qed (simp add: demo_encode_def)
  moreover have "set (demo_encode v) \<inter> {CHR ''&'', CHR ''='', CHR ''+''} = {}" for v
  proof (induction v)
    case (Cons c v)
    then show ?case
      using pct_facts(2) [OF h, of c] pct_facts(2) [of "of_char c mod 16"] by (auto simp: demo_encode_def)
  qed (simp add: demo_encode_def)
  ultimately show ?thesis
    by (simp add: percent_coding_def)
qed

definition demo_http :: http_lib where
  "demo_http = \<lparr>lib_to_str = Some, lib_decode = demo_decode, lib_parse_pid = (\<lambda>s. Some (int (number_value 10 s))),
     lib_show_json = (\<lambda>_. []), lib_hash = id, lib_version = [], lib_protocols = []\<rparr>"

theorem presence_identity_round_trip_witness:
  "\<exists>path q. presence_path demo_encode \<lparr>ep_host = ''h'', ep_port = 80, ep_path = ''/mcp/w/proj/s/py-1'', ep_token = ''t''\<rparr>
       (presence_query ''12'' (Some \<lparr>cf_name = ''a&b=c'', cf_version = None\<rparr>) (Some ''/x y'')) = path @ ''?'' @ q \<and>
     route path = Some (False, True, ''proj'', Some ''py-1'') \<and>
     ci_name (read_identity demo_http (Some ''py-1'') (query_pairs demo_http q)) = Some ''a&b=c''"
proof -
  have "is_valid_id ''proj''"
    by code_simp
  then show ?thesis
    using presence_identity_round_trip [of demo_encode demo_http "''proj''" "''py-1''"
        "\<lparr>ep_host = ''h'', ep_port = 80, ep_path = ''/mcp/w/proj/s/py-1'', ep_token = ''t''\<rparr>" "''12''"
        "Some \<lparr>cf_name = ''a&b=c'', cf_version = None\<rparr>" "Some ''/x y''"] demo_coding
    by (fastforce simp: demo_http_def MCP_PATH_PREFIX_def CALLER_PATH_SEGMENT_def)
qed

text \<open>
  The wait between attempts to open the presence stream stays between one and thirty seconds, doubles
  while they fail, and starts over once one succeeds.
\<close>

theorem presence_delay_bounded:
  assumes "PRESENCE_RETRY_MIN \<le> kp_delay kp" and "kp_delay kp \<le> PRESENCE_RETRY_MAX"
    and "presence_turn lib w hold kp l = (wait, kp', l')"
  shows "PRESENCE_RETRY_MIN \<le> wait \<and> wait \<le> PRESENCE_RETRY_MAX \<and> wait \<le> kp_delay kp' \<and> kp_delay kp' \<le> PRESENCE_RETRY_MAX \<and>
    (kp_delay kp' = PRESENCE_RETRY_MIN \<or> kp_delay kp' = PRESENCE_RETRY_MAX \<or> kp_delay kp' = 2 * kp_delay kp)"
  using assms unfolding presence_turn_def Let_def PRESENCE_RETRY_MIN_def PRESENCE_RETRY_MAX_def
  by (auto simp: min_def)


theorem presence_delay_bounded_witness:
  "fst (presence_turn demo_lib demo_world (\<lambda>_. False) \<lparr>kp_stale = None, kp_delay = 16\<rparr> (link_new demo_resolver)) = 16 \<and>
   kp_delay (fst (snd (presence_turn demo_lib demo_world (\<lambda>_. False) \<lparr>kp_stale = None, kp_delay = 16\<rparr> (link_new demo_resolver)))) = 30"
proof -
  obtain wait kp l where t: "presence_turn demo_lib demo_world (\<lambda>_. False) \<lparr>kp_stale = None, kp_delay = 16\<rparr> (link_new demo_resolver) = (wait, kp, l)"
    using prod_cases3 by blast
  have "wait = 16 \<and> kp_delay kp = 30"
    using t by (auto simp: presence_turn_def PRESENCE_RETRY_MAX_def Let_def split: option.splits)
  moreover have "PRESENCE_RETRY_MIN \<le> wait \<and> kp_delay kp \<le> PRESENCE_RETRY_MAX"
    using presence_delay_bounded [OF _ _ t] by (simp add: PRESENCE_RETRY_MIN_def PRESENCE_RETRY_MAX_def)
  ultimately show ?thesis
    using t by simp
qed

end
