(* ===== verification/KC_Stdio.thy ===== *)
theory KC_Stdio
  imports KC_Bridge
begin

text \<open>
  \<open>run\<close> of \<open>mcp/stdio_bridge.rs\<close>: the bridge from its first line of standard input to the last line of its
  standard output. Lines are taken in order; requests run as tasks of their own, so what they write may come in any
  order that keeps the order of each task.
\<close>

section \<open>The loop\<close>

text \<open>A line, what the tasks still running did to the link before it, and what happens while it is handled.\<close>

record line_turn =
  tu_line :: string
  tu_before :: "link \<Rightarrow> link"
  tu_world :: world
  tu_others :: "nat \<Rightarrow> link \<Rightarrow> link"

fun bridge_lines :: "bridge_lib \<Rightarrow> (string \<Rightarrow> string) \<Rightarrow> line_turn list \<Rightarrow> link \<Rightarrow> relayed list \<times> link" where
  "bridge_lines lib parse_error [] l = ([], l)"
| "bridge_lines lib parse_error (t # ts) l =
     (let r = run_line lib parse_error (tu_world t) (tu_others t) (tu_line t) (tu_before t l);
          (rs, l) = bridge_lines lib parse_error ts (re_link r)
      in (r # rs, l))"

text \<open>The orders in which what several tasks write can reach the one writer.\<close>

fun interleavings :: "'a list list \<Rightarrow> 'a list set" where
  "interleavings [] = {[]}"
| "interleavings (xs # xss) = (\<Union>ys \<in> interleavings xss. shuffles xs ys)"

text \<open>
  At the end of the input everything asked is waited for, then the session at the endpoint is closed. The result is
  the lines that can be written, and the session that is closed.
\<close>

definition bridge_run :: "bridge_lib \<Rightarrow> (string \<Rightarrow> string) \<Rightarrow> line_turn list \<Rightarrow> link \<Rightarrow> json list set \<times> (mcp_endpoint \<times> string) option" where
  "bridge_run lib parse_error ts l =
     (let (rs, l) = bridge_lines lib parse_error ts l in (interleavings (map re_sent rs), bridge_close l))"

section \<open>Lemmas\<close>

lemma interleavings_filter: "out \<in> interleavings xss \<Longrightarrow> length (filter p out) = sum_list (map (\<lambda>xs. length (filter p xs)) xss)"
proof (induction xss arbitrary: out)
  case (Cons xs xss)
  then obtain ys where ys: "ys \<in> interleavings xss" "out \<in> shuffles xs ys"
    by auto
  then have "filter p out \<in> shuffles (filter p xs) (filter p ys)"
    using filter_shuffles [of p xs ys] by blast
  then show ?case
    using Cons.IH [OF ys(1)] by (simp add: length_shuffles)
qed simp

lemma concat_interleaved: "concat xss \<in> interleavings xss"
proof (induction xss)
  case (Cons xs xss)
  have "xs @ concat xss \<in> shuffles xs (concat xss)"
    by (induction xs) (simp_all add: Cons_in_shuffles_leftI)
  then show ?case
    using Cons by auto
qed simp

text \<open>A world that says nothing to a request, and a line that does not ask it.\<close>

definition silent_on :: "bridge_lib \<Rightarrow> world \<Rightarrow> json \<Rightarrow> bool" where
  "silent_on lib w i \<longleftrightarrow> (\<forall>m n. replies_to i (fst (relay_post lib m (wo_answers w n))) = [])"

definition asks :: "bridge_lib \<Rightarrow> json \<Rightarrow> string \<Rightarrow> bool" where
  "asks lib i line \<longleftrightarrow>
     (case classify_line lib line of
        Initialize m \<Rightarrow> json_get ''id'' m = Some i
      | Request m \<Rightarrow> json_get ''id'' m = Some i
      | _ \<Rightarrow> False)"

lemma silent_post: "silent_on lib w i \<Longrightarrow> relay_post lib m (wo_answers w n) = (ms, out) \<Longrightarrow> replies_to i ms = []"
  unfolding silent_on_def by (metis fst_conv)

lemma error_other: "j \<noteq> i \<Longrightarrow> replies_to i [error_response j c t] = []"
  by (simp add: replies_to_def error_response_def)

lemma offline_other:
  assumes "json_get ''id'' message = Some j" and "j \<noteq> i" and "offline_reply lib message off ver = (r, v)"
  shows "replies_to i (opt_list r) = []"
  using offline_reply_id [OF assms(1), of lib off ver] assms(2,3) by (auto simp: opt_list_def replies_to_def)

lemma connect_silent:
  "silent_on lib w i \<Longrightarrow> connect_loop lib w k n up l = ((a, ms), n', l') \<Longrightarrow> replies_to i ms = []"
proof (induction k arbitrary: n up l a ms n' l')
  case (Suc k)
  have post: "replies_to i ms = []" if "relay_post lib m (wo_answers w n) = (ms, out)" for m n ms out
    using silent_post [OF Suc.prems(1) that] .
  show ?case
    using Suc.prems(2) post Suc.IH [OF Suc.prems(1)]
    by (auto simp: Let_def split: prod.splits option.splits relay_status.splits if_splits)
qed simp

lemma request_silent:
  assumes "silent_on lib w i" and "json_get ''id'' message = Some j" and "j \<noteq> i"
  shows "replies_to i (re_sent (request_loop lib w others message k n l)) = []"
proof (induction k arbitrary: n l)
  case 0
  then show ?case
    using offline_other [OF assms(2,3)] by (auto simp: Let_def split: prod.splits)
next
  case (Suc k)
  obtain n1 l1 where one: "(if lk_upstream l = None then snd (link_connect lib w n l) else (n, l)) = (n1, l1)"
    by fastforce
  show ?case
  proof (cases "lk_upstream l1")
    case None
    have "request_loop lib w others message (Suc k) n l = request_loop lib w others message 0 n1 l1"
      using one None by (simp del: request_loop.simps(1) add: Let_def)
    then show ?thesis
      using offline_other [OF assms(2,3)] by (auto simp: Let_def split: prod.splits)
  next
    case (Some e)
    obtain ms out where post: "relay_post lib message (wo_answers w n1) = (ms, out)"
      by fastforce
    note facts = one Some post assms(2) silent_post [OF assms(1) post] error_other [OF assms(3)]
    show ?thesis
      using facts Suc.IH by (cases "ro_status out") (auto simp: Let_def split: prod.splits)
  qed
qed

lemma initialize_silent:
  assumes "silent_on lib w i" and "json_get ''id'' message = Some j" and "j \<noteq> i"
  shows "replies_to i (re_sent (bridge_initialize lib w message l)) = []"
proof -
  let ?l = "l\<lparr>lk_handshake := Some message, lk_initialized := False, lk_protocol_version := None\<rparr>"
  obtain a ms n' l' where c: "link_connect lib w 0 ?l = ((a, ms), n', l')"
    by (metis prod.collapse)
  have "replies_to i ms = []"
    using connect_silent [OF assms(1)] c unfolding link_connect_def by blast
  then show ?thesis
    using c offline_other [OF assms(2,3)] by (auto simp: bridge_initialize_def Let_def split: prod.splits)
qed

lemma classified_id:
  "classify_line lib line = Initialize m \<or> classify_line lib line = Request m \<Longrightarrow> \<exists>j. json_get ''id'' m = Some j"
  by (auto simp: classify_line_def Let_def split: if_splits option.splits)

text \<open>A line that does not ask a request does not have it answered.\<close>

lemma line_silent:
  assumes "silent_on lib w i" and "\<not> asks lib i line" and "i \<noteq> JNull"
  shows "replies_to i (re_sent (run_line lib parse_error w others line l)) = []"
proof (cases "classify_line lib line")
  case (Initialize m)
  then obtain j where "json_get ''id'' m = Some j" "j \<noteq> i"
    using classified_id [of lib line m] assms(2) by (auto simp: asks_def)
  then show ?thesis
    using Initialize initialize_silent [OF assms(1)] by (simp add: run_line_def)
next
  case (Request m)
  then obtain j where "json_get ''id'' m = Some j" "j \<noteq> i"
    using classified_id [of lib line m] assms(2) by (auto simp: asks_def)
  then show ?thesis
    using Request request_silent [OF assms(1)] by (simp add: run_line_def bridge_request_def)
next
  case ParseError
  then show ?thesis
    using error_other [of JNull i] assms(3) by (simp add: run_line_def)
qed (simp_all add: run_line_def bridge_notify_def Let_def)

lemma bridge_lines_Cons:
  "fst (bridge_lines lib parse_error (t # ts) l) =
     (let r = run_line lib parse_error (tu_world t) (tu_others t) (tu_line t) (tu_before t l)
      in r # fst (bridge_lines lib parse_error ts (re_link r)))"
  by (simp add: Let_def split: prod.split)

lemma bridge_lines_append:
  "\<exists>l'. fst (bridge_lines lib parse_error (ts @ us) l) = fst (bridge_lines lib parse_error ts l) @ fst (bridge_lines lib parse_error us l')"
proof (induction ts arbitrary: l)
  case (Cons t ts)
  then show ?case
    by (simp only: append_Cons bridge_lines_Cons Let_def list.inject simp_thms)
qed auto

lemma lines_silent:
  "\<forall>t \<in> set ts. silent_on lib (tu_world t) i \<and> \<not> asks lib i (tu_line t) \<Longrightarrow> i \<noteq> JNull \<Longrightarrow>
     \<forall>r \<in> set (fst (bridge_lines lib parse_error ts l)). replies_to i (re_sent r) = []"
proof (induction ts arbitrary: l)
  case (Cons t ts)
  then show ?case
    using line_silent by (simp add: bridge_lines_Cons Let_def del: bridge_lines.simps)
qed simp

lemma bridge_run_writes: "\<exists>out. out \<in> fst (bridge_run lib parse_error ts l)"
proof (cases "bridge_lines lib parse_error ts l")
  case (Pair rs l')
  then show ?thesis
    using concat_interleaved [of "map re_sent rs"] by (auto simp: bridge_run_def)
qed

section \<open>Properties\<close>

text \<open>
  C28. Of everything the bridge writes, exactly one message answers a given request, whatever else the client asks
  before, meanwhile and after, in whatever order the tasks write, and whether or not an endpoint is there. The request is
  the only one with its identifier, and the endpoint answers it at most once and only where it was asked.
\<close>

theorem request_line_answered_once:
  assumes "classify_line lib (tu_line t) = Request message" and "json_get ''id'' message = Some i" and "i \<noteq> JNull"
    and "answers_at_most_once lib (tu_world t) message i"
    and "\<forall>u \<in> set (before @ later). silent_on lib (tu_world u) i \<and> \<not> asks lib i (tu_line u)"
    and "out \<in> fst (bridge_run lib parse_error (before @ t # later) l)"
  shows "length (replies_to i out) = 1"
proof -
  let ?run = "bridge_lines lib parse_error"
  obtain l1 where one: "fst (?run (before @ t # later) l) = fst (?run before l) @ fst (?run (t # later) l1)"
    using bridge_lines_append by blast
  obtain r l2 where two: "fst (?run (t # later) l1) = r # fst (?run later l2)"
      "r = run_line lib parse_error (tu_world t) (tu_others t) (tu_line t) (tu_before t l1)"
    by (simp add: bridge_lines_Cons Let_def del: bridge_lines.simps)
  have "length (replies_to i (re_sent r)) = 1"
    using request_loop_answers [OF assms(2,4)] assms(1) two(2) by (simp add: run_line_def bridge_request_def)
  moreover have "\<forall>q \<in> set (fst (?run before l)) \<union> set (fst (?run later l2)). replies_to i (re_sent q) = []"
    using lines_silent [of before lib i parse_error l] lines_silent [of later lib i parse_error l2] assms(3,5) by auto
  moreover have "out \<in> interleavings (map re_sent (fst (?run before l) @ r # fst (?run later l2)))"
    using assms(6) one two(1) by (simp add: bridge_run_def split: prod.splits)
  ultimately show ?thesis
    using interleavings_filter [of out _ "\<lambda>m. json_get ''id'' m = Some i"]
    by (simp add: replies_to_def sum_list_eq_0_iff)
qed

definition talk_lib :: bridge_lib where
  "talk_lib = demo_lib\<lparr>lib_json := (\<lambda>s. if s = ''call'' then Some (JObject [(''id'', JInt 1), (''method'', JString ''tools/call'')])
     else if s = ''note'' then Some (JObject [(''method'', JString ''n'')])
     else if s = ''ok'' then Some (JObject [(''id'', JInt 1), (''result'', JNull)]) else None)\<rparr>"

definition quiet_world :: world where
  "quiet_world = demo_world\<lparr>wo_answers := (\<lambda>_. NotConnected ''x'')\<rparr>"

definition turn_of :: "string \<Rightarrow> world \<Rightarrow> line_turn" where
  "turn_of line w = \<lparr>tu_line = line, tu_before = id, tu_world = w, tu_others = (\<lambda>_. id)\<rparr>"

theorem request_line_answered_once_witness:
  "\<exists>out. out \<in> fst (bridge_run talk_lib id [turn_of ''note'' quiet_world, turn_of ''call'' demo_world, turn_of ''?'' quiet_world]
       (link_new demo_resolver)) \<and> length (replies_to (JInt 1) out) = 1"
proof -
  let ?m = "JObject [(''id'', JInt 1), (''method'', JString ''tools/call'')]"
  let ?ts = "[turn_of ''note'' quiet_world] @ turn_of ''call'' demo_world # [turn_of ''?'' quiet_world]"
  obtain out where out: "out \<in> fst (bridge_run talk_lib id ?ts (link_new demo_resolver))"
    using bridge_run_writes by blast
  have call: "classify_line talk_lib (tu_line (turn_of ''call'' demo_world)) = Request ?m"
    by (simp add: classify_line_def turn_of_def talk_lib_def trim_def is_space_def code_in_def Let_def)
  have once: "answers_at_most_once talk_lib (tu_world (turn_of ''call'' demo_world)) ?m (JInt 1)"
    by (simp add: answers_at_most_once_def talk_lib_def turn_of_def demo_world_def relay_post_def REFUSALS_def utf8_lossy.simps later_bytes_def
        in_range_def replies_to_def Let_def)
  have "silent_on talk_lib quiet_world (JInt 1)"
    by (simp add: silent_on_def quiet_world_def relay_post_def)
  moreover have "\<not> asks talk_lib (JInt 1) ''note''" "\<not> asks talk_lib (JInt 1) ''?''"
    by (simp_all add: asks_def classify_line_def talk_lib_def demo_lib_def trim_def is_space_def code_in_def Let_def)
  ultimately have "length (replies_to (JInt 1) out) = 1"
    using request_line_answered_once [OF call _ _ once _ out] by (simp add: turn_of_def)
  then show ?thesis
    using out by auto
qed

end
