(* ===== verification/KC_Attach.thy ===== *)
theory KC_Attach
  imports KC_Server KC_Channel KC_Upgrade
begin

text \<open>
  How a client comes to be attached to a session: the requests taken out of the API because they become
  WebSockets (\<open>websocket_service.rs\<close>), the handlers that upgrade them, and the task that accepts connections
  on the socket of a session (\<open>server.rs\<close>). A session is meant to have one client; a new one replaces
  the old one, which is told to disconnect.

  A request that is upgraded leaves a task that waits for the upgrade. The task is a value of its own, so
  that several may be on their way at the same time; \<open>attach_step\<close> is their interleaving.
\<close>

section \<open>Routing\<close>

datatype websocket_route = SessionChannels string | McpWorkspaceChannel string

text \<open>The expression \<open>^pre([^/?#]+)post$\<close>; \<open>decode\<close> undoes percent encoding and fails if the bytes are not UTF-8.\<close>

definition capture_id :: "(string \<Rightarrow> string option) \<Rightarrow> string \<Rightarrow> string \<Rightarrow> string \<Rightarrow> string option" where
  "capture_id decode pre post path =
     (case strip_prefix pre path of
        None \<Rightarrow> None
      | Some rest \<Rightarrow>
          (case strip_suffix post rest of
             None \<Rightarrow> None
           | Some raw \<Rightarrow>
               if raw = [] \<or> list_ex (\<lambda>c. c \<in> {CHR ''/'', CHR ''?'', CHR ''#''}) raw then None else decode raw))"

definition websocket_route :: "(string \<Rightarrow> string option) \<Rightarrow> string \<Rightarrow> websocket_route option" where
  "websocket_route decode path =
     (case capture_id decode ''/sessions/'' ''/channels'' path of
        Some i \<Rightarrow> Some (SessionChannels i)
      | None \<Rightarrow> map_option McpWorkspaceChannel (capture_id decode ''/mcp/workspaces/'' ''/channel'' path))"

text \<open>Which requests the service handles itself; the others go to the generated one.\<close>

definition intercepted :: "(string \<Rightarrow> string option) \<Rightarrow> bool \<Rightarrow> string \<Rightarrow> string \<Rightarrow> websocket_route option" where
  "intercepted decode intercept_session_channels http_method path =
     (if http_method = ''GET'' then
        (case websocket_route decode path of
           Some (SessionChannels i) \<Rightarrow> if intercept_session_channels then Some (SessionChannels i) else None
         | r \<Rightarrow> r)
      else None)"

section \<open>Replies\<close>

record http_reply =
  hp_status :: nat
  hp_headers :: "(string \<times> string) list"
  hp_body :: string

definition text_response :: "nat \<Rightarrow> string \<Rightarrow> http_reply" where
  "text_response status message = \<lparr>hp_status = status, hp_headers = [], hp_body = message\<rparr>"

definition switching_protocols :: "string \<Rightarrow> http_reply" where
  "switching_protocols accept =
     \<lparr>hp_status = 101, hp_headers = [(''connection'', ''Upgrade''), (''upgrade'', ''websocket''), (''sec-websocket-accept'', accept)],
      hp_body = []\<rparr>"

section \<open>Attaching to a session\<close>

text \<open>The client of a session that is told to disconnect, and those that are left.\<close>

definition disconnect_client :: "string \<Rightarrow> client_entry list \<Rightarrow> client_entry option \<times> client_entry list" where
  "disconnect_client i cs =
     (case remove_first (\<lambda>c. cl_session_id c = i) cs of
        Some rest \<Rightarrow> (List.find (\<lambda>c. cl_session_id c = i) cs, rest)
      | None \<Rightarrow> (None, cs))"

datatype attach_task = SessionTask string | WindowTask string

text \<open>
  \<open>derive\<close> is the derivation of the accept key, \<open>key\<close> the \<open>Sec-WebSocket-Key\<close> of the request. The result
  is the reply, if the handler does not panic, the task left behind, and the client that was told to disconnect.
\<close>

definition handle_channels_websocket_request ::
  "(string \<Rightarrow> string) \<Rightarrow> (api_error \<Rightarrow> string) \<Rightarrow> string option \<Rightarrow> auth_data option \<Rightarrow> string \<Rightarrow> 'm server \<Rightarrow>
     http_reply option \<times> attach_task option \<times> client_entry option \<times> 'm server" where
  "handle_channels_websocket_request derive show_error key auth i sv =
     (if find_session i sv = None then
        (Some \<lparr>hp_status = 400, hp_headers = [],
           hp_body = show_error (to_json (SessionNotFound i)
             (Some ''Establishing a websocket connection requires a valid session ID''))\<rparr>, None, None, sv)
      else
        (let (old, clients) = disconnect_client i (sv_clients sv) in
         (map_option (\<lambda>k. switching_protocols (derive k)) key, Some (SessionTask i), old, sv\<lparr>sv_clients := clients\<rparr>)))"

text \<open>What the task does when the upgrade is over; \<open>None\<close> is the panic of a task that finds no session.\<close>

definition session_upgraded :: "bool \<Rightarrow> string \<Rightarrow> 'm server \<Rightarrow> 'm server option" where
  "session_upgraded ok i sv =
     (if \<not> ok then Some sv
      else if find_session i sv = None then None
      else Some (sv\<lparr>sv_clients := sv_clients sv @ [\<lparr>cl_session_id = i, cl_socket_path = None\<rparr>]\<rparr>))"

text \<open>Then the client is served until it leaves.\<close>

definition serve_client ::
  "(string \<Rightarrow> jupyter_message option) \<Rightarrow> string option \<Rightarrow> client_event list \<Rightarrow> string \<Rightarrow> 'm server \<Rightarrow> client_result \<times> ws_frame list \<times> 'm server" where
  "serve_client parse path es i sv =
     (case find_session i sv of
        None \<Rightarrow> (Leave, [], sv)
      | Some k \<Rightarrow>
          (let (r, c) = handle_websocket_stream parse path es (kn_state k) (ss_zmq_tx (kn_ctl k)) in
           (r, cs_written c, put_session i ((kn_ctl k)\<lparr>ss_state := cs_state c, ss_zmq_tx := cs_zmq_tx c\<rparr>) sv)))"

section \<open>The socket of a session\<close>

text \<open>One connection: the old client goes first, also if the session is no longer there.\<close>

definition socket_accept :: "string \<Rightarrow> string \<Rightarrow> 'm server \<Rightarrow> client_entry option \<times> 'm server" where
  "socket_accept path i sv =
     (let (old, clients) = disconnect_client i (sv_clients sv); sv = sv\<lparr>sv_clients := clients\<rparr> in
      if find_session i sv = None then (old, sv)
      else (old, sv\<lparr>sv_clients := clients @ [\<lparr>cl_session_id = i, cl_socket_path = Some path\<rparr>]\<rparr>))"

text \<open>The loop, with what the other tasks do before each connection; at the end the socket is forgotten.\<close>

fun handle_domain_socket_connections :: "string \<Rightarrow> string \<Rightarrow> ('m server \<Rightarrow> 'm server) list \<Rightarrow> 'm server \<Rightarrow> 'm server" where
  "handle_domain_socket_connections path i [] sv = sv\<lparr>sv_active_sockets := cleanup_domain_socket path (sv_active_sockets sv)\<rparr>"
| "handle_domain_socket_connections path i (meanwhile # ms) sv =
     handle_domain_socket_connections path i ms (snd (socket_accept path i (meanwhile sv)))"

section \<open>The channel of a window\<close>

definition handle_mcp_workspace_channel_request ::
  "(string \<Rightarrow> string) \<Rightarrow> string option \<Rightarrow> auth_data option \<Rightarrow> string \<Rightarrow> 'm server \<Rightarrow> http_reply \<times> attach_task option" where
  "handle_mcp_workspace_channel_request derive key auth i sv =
     (if \<not> validate_token sv auth then (text_response 401 ''Unauthorized'', None)
      else if \<not> registry_contains i (mcp_registry (sv_mcp sv)) then
        (text_response 404 (''No MCP workspace registered with ID '' @ [CHR 0x27] @ i @ [CHR 0x27]), None)
      else
        (case key of
           None \<Rightarrow> (text_response 400 ''The MCP frontend channel requires a WebSocket upgrade'', None)
         | Some k \<Rightarrow> (switching_protocols (derive k), Some (WindowTask i))))"

definition window_upgraded ::
  "(string \<Rightarrow> frontend_message option) \<Rightarrow> instant \<Rightarrow> pump_event list \<Rightarrow> bool \<Rightarrow> string \<Rightarrow> 'm server \<Rightarrow> string list \<times> 'm server" where
  "window_upgraded parse now es ok i sv =
     (if ok then
        (case channel_run parse now i es (mcp_registry (sv_mcp sv)) of
           (out, reg, _) \<Rightarrow> (out, sv\<lparr>sv_mcp := (sv_mcp sv)\<lparr>mcp_registry := reg\<rparr>\<rparr>))
      else ([], sv))"

section \<open>The service\<close>

text \<open>
  \<open>Panicked\<close> is a handler that did not reply; the other outcomes are the reply with the task it leaves,
  and a request that is not for this service.
\<close>

datatype service_outcome = Delegated | Panicked | ServiceReply http_reply "attach_task option"

definition service_call ::
  "(string \<Rightarrow> string option) \<Rightarrow> (string \<Rightarrow> string) \<Rightarrow> (api_error \<Rightarrow> string) \<Rightarrow> bool \<Rightarrow> string \<Rightarrow> string \<Rightarrow> string option \<Rightarrow> auth_data option \<Rightarrow>
     'm server \<Rightarrow> service_outcome \<times> client_entry option \<times> 'm server" where
  "service_call decode derive show_error intercept http_method path key auth sv =
     (case intercepted decode intercept http_method path of
        None \<Rightarrow> (Delegated, None, sv)
      | Some (SessionChannels i) \<Rightarrow>
          (case handle_channels_websocket_request derive show_error key auth i sv of
             (None, _, old, sv) \<Rightarrow> (Panicked, old, sv)
           | (Some reply, t, old, sv) \<Rightarrow> (ServiceReply reply t, old, sv))
      | Some (McpWorkspaceChannel w) \<Rightarrow>
          (case handle_mcp_workspace_channel_request derive key auth w sv of
             (reply, t) \<Rightarrow> (ServiceReply reply t, None, sv)))"

section \<open>Requests on their way\<close>

text \<open>
  The server with the tasks that wait for an upgrade. A task whose request panicked gets an error and ends,
  so it is not among them.
\<close>

inductive attach_step :: "'m server \<times> string list \<Rightarrow> 'm server \<times> string list \<Rightarrow> bool" where
  attach_request:
    "handle_channels_websocket_request derive show_error key auth i sv = (Some reply, Some (SessionTask i), old, sv') \<Longrightarrow>
     attach_step (sv, ts) (sv', i # ts)"
| attach_panic:
    "handle_channels_websocket_request derive show_error key auth i sv = (None, t, old, sv') \<Longrightarrow> attach_step (sv, ts) (sv', ts)"
| attach_upgraded: "i \<in> set ts \<Longrightarrow> session_upgraded ok i sv = Some sv' \<Longrightarrow> attach_step (sv, ts) (sv', remove1 i ts)"
| attach_accepted: "socket_accept path i sv = (old, sv') \<Longrightarrow> attach_step (sv, ts) (sv', ts)"

inductive_cases attach_stepE: "attach_step x y"

section \<open>Lemmas\<close>

declare strip_prefix_append [simp]

lemma capture_id_Some:
  "capture_id decode pre post path = Some i \<longleftrightarrow>
     (\<exists>raw. path = pre @ raw @ post \<and> raw \<noteq> [] \<and> set raw \<inter> {CHR ''/'', CHR ''?'', CHR ''#''} = {} \<and> decode raw = Some i)"
  by (auto simp: capture_id_def strip_prefix_Some strip_suffix_Some list_ex_iff split: option.splits)

lemma remove_first_Some_sel:
  "remove_first p xs = Some ys \<Longrightarrow> \<exists>as x bs. xs = as @ x # bs \<and> ys = as @ bs \<and> p x \<and> (\<forall>a \<in> set as. \<not> p a)"
proof (induction xs arbitrary: ys)
  case (Cons x xs)
  show ?case
  proof (cases "p x")
    case True
    then have "x # xs = [] @ x # xs \<and> ys = [] @ xs \<and> p x \<and> (\<forall>a \<in> set []. \<not> p a)"
      using Cons.prems by simp
    then show ?thesis
      by blast
  next
    case False
    then obtain zs where zs: "remove_first p xs = Some zs" "ys = x # zs"
      using Cons.prems by auto
    obtain as y bs where "xs = as @ y # bs \<and> zs = as @ bs \<and> p y \<and> (\<forall>a \<in> set as. \<not> p a)"
      using Cons.IH [OF zs(1)] by blast
    then have "x # xs = (x # as) @ y # bs \<and> ys = (x # as) @ bs \<and> p y \<and> (\<forall>a \<in> set (x # as). \<not> p a)"
      using zs(2) False by simp
    then show ?thesis
      by blast
  qed
qed simp

lemma remove_first_None_iff: "remove_first p xs = None \<longleftrightarrow> (\<forall>x \<in> set xs. \<not> p x)"
  by (induction xs) auto

text \<open>With one client for each session, what is left are the clients of the other sessions.\<close>

lemma disconnect_client_exact:
  assumes "distinct (map cl_session_id cs)"
  shows "disconnect_client i cs = (List.find (\<lambda>c. cl_session_id c = i) cs, filter (\<lambda>c. cl_session_id c \<noteq> i) cs)"
proof (cases "remove_first (\<lambda>c. cl_session_id c = i) cs")
  case None
  then have "\<forall>c \<in> set cs. cl_session_id c \<noteq> i"
    by (simp add: remove_first_None_iff)
  then show ?thesis
    using None by (simp add: disconnect_client_def find_None_iff [THEN iffD2])
next
  case (Some rest)
  obtain as x bs where "cs = as @ x # bs \<and> rest = as @ bs \<and> cl_session_id x = i \<and> (\<forall>a \<in> set as. cl_session_id a \<noteq> i)"
    using remove_first_Some_sel [OF Some] by blast
  moreover from this have "\<forall>b \<in> set bs. cl_session_id b \<noteq> i"
    using assms by (metis distinct.simps(2) distinct_append image_eqI list.set_map list.simps(9) map_append)
  ultimately show ?thesis
    using Some by (auto simp: disconnect_client_def)
qed

lemma disconnect_client_distinct:
  assumes "distinct (map cl_session_id cs)" and "disconnect_client i cs = (old, rest)"
  shows "distinct (map cl_session_id rest)" and "i \<notin> cl_session_id ` set rest"
  using assms disconnect_client_exact [OF assms(1), of i] by (auto simp: distinct_map_filter)

text \<open>Other fields of the server than its clients do not matter to who can be found.\<close>

lemma find_session_clients [simp]: "find_session i (sv\<lparr>sv_clients := cs\<rparr>) = find_session i sv"
  by (simp add: find_session_def)

lemma serve_client_frame:
  "sv_clients (snd (snd (serve_client parse path es i sv))) = sv_clients sv"
  "ids (snd (snd (serve_client parse path es i sv))) = ids sv"
  by (auto simp: serve_client_def put_session_def ids_def session_id_def Let_def split: option.splits prod.splits intro!: map_update_first)

section \<open>Properties\<close>

text \<open>
  Which requests become WebSockets: exactly the \<open>GET\<close> requests on the channel of a session, if
  sessions are upgraded in place, and on the channel of a workspace; the identifier is the decoded segment of
  the path. A path made from an identifier is therefore routed to it, and no path is both.
\<close>

theorem channel_routes_exact:
  "intercepted decode ic http_method path = Some r \<longleftrightarrow>
     http_method = ''GET'' \<and>
     (\<exists>raw. raw \<noteq> [] \<and> set raw \<inter> {CHR ''/'', CHR ''?'', CHR ''#''} = {} \<and>
        (\<exists>i. decode raw = Some i \<and>
          (path = ''/sessions/'' @ raw @ ''/channels'' \<and> ic \<and> r = SessionChannels i \<or>
           path = ''/mcp/workspaces/'' @ raw @ ''/channel'' \<and> r = McpWorkspaceChannel i)))"
proof -
  let ?s = "capture_id decode ''/sessions/'' ''/channels'' path" and ?w = "capture_id decode ''/mcp/workspaces/'' ''/channel'' path"
  have "?s = None \<or> ?w = None"
    using capture_id_Some [of decode "''/sessions/''" "''/channels''" path]
      capture_id_Some [of decode "''/mcp/workspaces/''" "''/channel''" path] by (cases ?s; cases ?w) auto
  then have "intercepted decode ic http_method path = Some r \<longleftrightarrow>
      http_method = ''GET'' \<and> (\<exists>i. ?s = Some i \<and> ic \<and> r = SessionChannels i \<or> ?w = Some i \<and> r = McpWorkspaceChannel i)"
    by (auto simp: intercepted_def websocket_route_def split: option.splits)
  then show ?thesis
    unfolding capture_id_Some by blast
qed

text \<open>
  A client that asks for the channel of a session gets it: the reply carries the key derived from its own,
  the client the session had is told to disconnect, and after the upgrade the new one is the only client of the
  session; nothing else of the server changes. The credentials of the request do not matter.
\<close>

theorem attach_replaces_client:
  assumes "distinct (map cl_session_id (sv_clients sv))" and "find_session i sv = Some k"
  shows "\<exists>sv'. handle_channels_websocket_request derive show_error (Some key) auth i sv =
      (Some (switching_protocols (derive key)), Some (SessionTask i), List.find (\<lambda>c. cl_session_id c = i) (sv_clients sv), sv') \<and>
    session_upgraded True i sv' =
      Some (sv\<lparr>sv_clients := filter (\<lambda>c. cl_session_id c \<noteq> i) (sv_clients sv) @ [\<lparr>cl_session_id = i, cl_socket_path = None\<rparr>]\<rparr>)"
  using assms(2) disconnect_client_exact [OF assms(1), of i]
  by (simp add: handle_channels_websocket_request_def session_upgraded_def)

definition attached_server :: "string list \<Rightarrow> string server" where
  "attached_server cs =
     sample_server\<lparr>sv_sessions := [\<lparr>kn_model = sample_session, kn_connection = sample_connection (Some ''k''), kn_started = 0,
         kn_ctl = \<lparr>ss_state = sample_state, ss_zmq_tx = chan_new, ss_interrupt_mode = SignalMode\<rparr>\<rparr>],
       sv_clients := map (\<lambda>i. \<lparr>cl_session_id = i, cl_socket_path = None\<rparr>) cs\<rparr>"

lemma attached_session: "find_session ''s'' (attached_server cs) = Some (hd (sv_sessions (attached_server [])))"
  by (simp add: attached_server_def find_session_def session_id_def sample_connection_def)

theorem attach_replaces_client_witness:
  "\<exists>sv'. handle_channels_websocket_request (\<lambda>k. k) (\<lambda>_. []) (Some ''key'') None ''s'' (attached_server [''s'', ''t'']) =
      (Some (switching_protocols ''key''), Some (SessionTask ''s''), Some \<lparr>cl_session_id = ''s'', cl_socket_path = None\<rparr>, sv')"
proof -
  have "distinct (map cl_session_id (sv_clients (attached_server [''s'', ''t''])))"
    by (simp add: attached_server_def)
  from attach_replaces_client [OF this attached_session, of "\<lambda>k. k" "\<lambda>_. []" "''key''" None] show ?thesis
    by (auto simp: attached_server_def)
qed

text \<open>
  C34. A request for the channel of a session that does not come from a WebSocket client has an effect
  nevertheless: without a key the handler panics, but only after the client of the session was disconnected
  and forgotten, so any plain request to the address takes the session away from its client.
\<close>

theorem keyless_request_kicks_client:
  assumes "intercepted decode True ''GET'' path = Some (SessionChannels i)" and "find_session i sv = Some k"
    and "List.find (\<lambda>c. cl_session_id c = i) (sv_clients sv) = Some c" and "distinct (map cl_session_id (sv_clients sv))"
  shows "service_call decode derive show_error True ''GET'' path None auth sv =
    (Panicked, Some c, sv\<lparr>sv_clients := filter (\<lambda>c. cl_session_id c \<noteq> i) (sv_clients sv)\<rparr>)"
  using assms disconnect_client_exact [OF assms(4), of i]
  by (simp add: service_call_def handle_channels_websocket_request_def)

theorem keyless_request_kicks_client_witness:
  "service_call Some (\<lambda>k. k) (\<lambda>_. []) True ''GET'' ''/sessions/s/channels'' None None (attached_server [''s'']) =
    (Panicked, Some \<lparr>cl_session_id = ''s'', cl_socket_path = None\<rparr>, attached_server [])"
proof -
  have r: "intercepted Some True ''GET'' ''/sessions/s/channels'' = Some (SessionChannels ''s'')"
    by code_simp
  show ?thesis
    using keyless_request_kicks_client [OF r attached_session, of "[''s'']"] by (simp add: attached_server_def)
qed

section \<open>One client for each session\<close>

text \<open>
  Attachments that are over before the next one begins, and the requests of the API between them.
\<close>

datatype 'm attach_op =
    WsAttach "string option" "auth_data option" string bool
  | SocketAttach string string
  | ApiRequest "auth_data option" "'m api_request"

fun attach_op_step :: "(string \<Rightarrow> string) \<Rightarrow> (api_error \<Rightarrow> string) \<Rightarrow> 'm attach_op \<Rightarrow> 'm server \<Rightarrow> 'm server" where
  "attach_op_step derive show_error (WsAttach key auth i ok) sv =
     (case handle_channels_websocket_request derive show_error key auth i sv of
        (Some _, Some (SessionTask j), _, sv) \<Rightarrow> (case session_upgraded ok j sv of Some sv \<Rightarrow> sv | None \<Rightarrow> sv)
      | (_, _, _, sv) \<Rightarrow> sv)"
| "attach_op_step derive show_error (SocketAttach path i) sv = snd (socket_accept path i sv)"
| "attach_op_step derive show_error (ApiRequest auth r) sv = api_step (auth, r) sv"

definition clients_ok :: "'m server \<Rightarrow> bool" where
  "clients_ok sv \<longleftrightarrow> server_ok sv \<and> distinct (map cl_session_id (sv_clients sv))"

lemma interrupt_clients: "interrupt_session h auth i sv = Some (r, sv') \<Longrightarrow> sv_clients sv' = sv_clients sv"
  by (auto simp: interrupt_session_def put_session_def Let_def split: if_splits option.splits prod.splits sum.splits outcome.splits)

lemma api_clients [simp]: "sv_clients (api_step ar sv) = sv_clients sv"
proof -
  obtain auth r where ar: "ar = (auth, r)"
    by fastforce
  have "sv_clients (snd y) = sv_clients sv" if call: "api_call auth r sv = Some y" for y
  proof (cases r)
    case (InterruptSession h i)
    then show ?thesis
      using call interrupt_clients by (cases y) auto
  qed (use call in \<open>auto simp: handle_new_session_def insert_session_def delete_session_def cleanup_session_sockets_def
      channels_upgrade_def create_domain_socket_channel_def handle_connection_info_def kill_session_def shutdown_server_def
      set_server_configuration_def set_idle_hours_def set_interval_def client_heartbeat_def put_session_def Let_def
      split: if_splits option.splits prod.splits sum.splits\<close>)
  then show ?thesis
    using ar by (auto split: option.split)
qed

lemma server_ok_clients [simp]: "server_ok (sv\<lparr>sv_clients := cs\<rparr>) = server_ok sv"
  by (simp add: server_ok_def ids_def)

lemma clients_ok_step: "clients_ok sv \<Longrightarrow> clients_ok (attach_op_step derive show_error op sv)"
proof (cases op)
  case (WsAttach key auth i ok)
  assume "clients_ok sv"
  then show ?thesis
    using WsAttach disconnect_client_exact [of "sv_clients sv" i]
    by (auto simp: clients_ok_def handle_channels_websocket_request_def session_upgraded_def distinct_map_filter split: option.splits)
next
  case (SocketAttach path i)
  assume "clients_ok sv"
  then show ?thesis
    using SocketAttach disconnect_client_exact [of "sv_clients sv" i]
    by (auto simp: clients_ok_def socket_accept_def Let_def distinct_map_filter)
next
  case (ApiRequest auth r)
  assume "clients_ok sv"
  then show ?thesis
    using ApiRequest server_ok_step [of sv "(auth, r)"] by (simp add: clients_ok_def del: api_step.simps)
qed

interpretation att: guarded_machine "attach_op_step derive show_error" "\<lambda>_. True" clients_ok for derive show_error
  by unfold_locales (rule clients_ok_step)

text \<open>
  C8. As long as an attachment is over before the next one begins, no session ever has two clients, whatever
  clients ask for in between.
\<close>

theorem one_client_per_session:
  assumes "clients_ok sv"
  shows "distinct (map cl_session_id (sv_clients (fold (attach_op_step derive show_error) ops sv)))"
  using att.run_inv [OF assms, of ops derive show_error] by (simp add: clients_ok_def)

definition two_attachments :: "string attach_op list" where
  "two_attachments = [WsAttach (Some ''a'') None ''s'' True, SocketAttach ''/tmp/s'' ''s'']"

theorem one_client_per_session_witness:
  "let cs = sv_clients (fold (attach_op_step (\<lambda>k. k) (\<lambda>_. [])) two_attachments (attached_server [''s'', ''t''])) in
   distinct (map cl_session_id cs) \<and> map cl_session_id cs = [''t'', ''s'']"
proof -
  have ok: "clients_ok (attached_server [''s'', ''t''])"
    using state_new_ok by (simp add: clients_ok_def server_ok_def ids_def attached_server_def kn_state_def sample_state_def)
  have "map cl_session_id (sv_clients (fold (attach_op_step (\<lambda>k. k) (\<lambda>_. [])) two_attachments (attached_server [''s'', ''t'']))) = [''t'', ''s'']"
    by (simp add: two_attachments_def handle_channels_websocket_request_def session_upgraded_def socket_accept_def disconnect_client_def
        attached_server_def find_session_def session_id_def sample_connection_def)
  then show ?thesis
    using one_client_per_session [OF ok, of "\<lambda>k. k" "\<lambda>_. []" two_attachments] by simp
qed

text \<open>
  Attachments that overlap: the requests and then the upgrades.
\<close>

lemma request_step:
  assumes "find_session i sv \<noteq> None" and "\<forall>c \<in> set (sv_clients sv). cl_session_id c \<noteq> i"
  shows "attach_step (sv, ts) (sv, i # ts)"
proof -
  have "remove_first (\<lambda>c. cl_session_id c = i) (sv_clients sv) = None"
    using assms(2) by (simp add: remove_first_None_iff)
  then have "handle_channels_websocket_request (\<lambda>k. k) (\<lambda>_. []) (Some []) None i sv =
      (Some (switching_protocols []), Some (SessionTask i), None, sv)"
    using assms(1) by (auto simp: handle_channels_websocket_request_def disconnect_client_def)
  then show ?thesis
    by (rule attach_request)
qed

lemma requests_pile_up:
  assumes "find_session i sv \<noteq> None" and "\<forall>c \<in> set (sv_clients sv). cl_session_id c \<noteq> i"
  shows "attach_step\<^sup>*\<^sup>* (sv, []) (sv, replicate n i)"
proof (induction n)
  case (Suc n)
  then show ?case
    using request_step [OF assms, of "replicate n i"] by (auto intro: rtranclp.rtrancl_into_rtrancl)
qed simp

lemma upgrades_pile_up:
  assumes "find_session i sv \<noteq> None"
  shows "attach_step\<^sup>*\<^sup>* (sv, replicate n i) (sv\<lparr>sv_clients := sv_clients sv @ replicate n \<lparr>cl_session_id = i, cl_socket_path = None\<rparr>\<rparr>, [])"
  using assms
proof (induction n arbitrary: sv)
  case (Suc n)
  let ?c = "\<lparr>cl_session_id = i, cl_socket_path = None\<rparr>"
  have "attach_step (sv, replicate (Suc n) i) (sv\<lparr>sv_clients := sv_clients sv @ [?c]\<rparr>, replicate n i)"
    using attach_upgraded [of i "replicate (Suc n) i" True sv] Suc.prems by (simp add: session_upgraded_def)
  then show ?case
    using Suc.IH [of "sv\<lparr>sv_clients := sv_clients sv @ [?c]\<rparr>"] Suc.prems
    by (simp add: converse_rtranclp_into_rtranclp replicate_append_same [symmetric])
qed simp

text \<open>
  Attachments that overlap are not told of each other: if several requests for a session are answered before
  the first of them is upgraded, all of them stay attached, in any number, and share what the session sends.
\<close>

theorem racing_attachments_share_session:
  assumes "find_session i sv \<noteq> None" and "\<forall>c \<in> set (sv_clients sv). cl_session_id c \<noteq> i"
  shows "\<exists>sv'. attach_step\<^sup>*\<^sup>* (sv, []) (sv', []) \<and> length (filter (\<lambda>c. cl_session_id c = i) (sv_clients sv')) = n"
proof -
  let ?sv = "sv\<lparr>sv_clients := sv_clients sv @ replicate n \<lparr>cl_session_id = i, cl_socket_path = None\<rparr>\<rparr>"
  have "attach_step\<^sup>*\<^sup>* (sv, []) (?sv, [])"
    using requests_pile_up [OF assms, of n] upgrades_pile_up [OF assms(1), of n] by (rule rtranclp_trans)
  moreover have "length (filter (\<lambda>c. cl_session_id c = i) (sv_clients ?sv)) = n"
    using assms(2) by (simp add: filter_replicate)
  ultimately show ?thesis
    by blast
qed

theorem racing_attachments_share_session_witness:
  "\<exists>sv'. attach_step\<^sup>*\<^sup>* (attached_server [], []) (sv', []) \<and> length (filter (\<lambda>c. cl_session_id c = ''s'') (sv_clients sv')) = 2"
proof -
  have "find_session ''s'' (attached_server []) \<noteq> None" "\<forall>c \<in> set (sv_clients (attached_server [])). cl_session_id c \<noteq> ''s''"
    using attached_session [of "[]"] by (simp_all add: attached_server_def)
  then show ?thesis
    by (rule racing_attachments_share_session)
qed

text \<open>
  C35. The channel of a window is guarded: a request is upgraded exactly if it carries the server's token, names a
  workspace that is registered and asks for a WebSocket; otherwise it leaves no task, and the server is as it was.
\<close>

theorem window_channel_guarded:
  "(\<exists>reply. service_call decode derive show_error ic ''GET'' (''/mcp/workspaces/'' @ raw @ ''/channel'') key auth sv =
      (ServiceReply reply (Some t), old, sv') \<and> hp_status reply = 101) \<longleftrightarrow>
   (\<exists>i k. raw \<noteq> [] \<and> set raw \<inter> {CHR ''/'', CHR ''?'', CHR ''#''} = {} \<and> decode raw = Some i \<and> key = Some k \<and>
      validate_token sv auth \<and> registry_contains i (mcp_registry (sv_mcp sv)) \<and> t = WindowTask i \<and> old = None \<and> sv' = sv)"
proof -
  let ?p = "''/mcp/workspaces/'' @ raw @ ''/channel''"
  have s: "capture_id decode ''/sessions/'' ''/channels'' ?p = None"
    using capture_id_Some [of decode "''/sessions/''" "''/channels''" ?p] by (auto intro: ccontr)
  have w: "capture_id decode ''/mcp/workspaces/'' ''/channel'' ?p =
      (if raw = [] \<or> set raw \<inter> {CHR ''/'', CHR ''?'', CHR ''#''} \<noteq> {} then None else decode raw)"
    by (simp only: capture_id_def strip_prefix_append option.case strip_suffix_append list_ex_iff) auto
  have "intercepted decode ic ''GET'' ?p =
      map_option McpWorkspaceChannel (if raw = [] \<or> set raw \<inter> {CHR ''/'', CHR ''?'', CHR ''#''} \<noteq> {} then None else decode raw)"
    by (simp only: intercepted_def websocket_route_def s w option.case if_True simp_thms) (auto split: option.splits)
  then show ?thesis
    unfolding service_call_def
    by (auto simp: handle_mcp_workspace_channel_request_def text_response_def switching_protocols_def split: option.splits if_splits)
qed

end
