(* ===== verification/KC_Entry.thy ===== *)
theory KC_Entry
  imports KC_Attach KC_Resource
begin

text \<open>
  The life of the server process: its arguments (\<open>main.rs\<close>), the address it listens on (\<open>transport.rs\<close>), what
  it tells the client that launched it (\<open>handshake_socket.rs\<close>), the server it then creates, and what it removes
  when it is told to end (\<open>server.rs\<close>). The build modelled is the one for Unix. Socket files are kept as the
  set of the paths that exist; what the operating system answers is in \<open>entry_host\<close>.
\<close>

section \<open>Arguments\<close>

record args =
  ar_port :: nat
  ar_token :: "string option"
  ar_log_file :: "string option"
  ar_handshake_socket :: "string option"
  ar_idle_shutdown_hours :: "nat option"
  ar_resource_sample_interval :: "nat option"
  ar_resource_include_children :: bool
  ar_log_level :: "string option"
  ar_socket_dir :: "string option"
  ar_unix_socket :: "string option"
  ar_transport :: "string option"

definition determine_transport :: "args \<Rightarrow> string" where
  "determine_transport a =
     (case ar_transport a of
        Some t \<Rightarrow> t
      | None \<Rightarrow> if ar_unix_socket a \<noteq> None then ''socket'' else ''tcp'')"

definition validate_args :: "args \<Rightarrow> string + unit" where
  "validate_args a =
     (let t = determine_transport a in
      if ar_port a \<noteq> 0 \<and> t \<noteq> ''tcp'' then
        Inl (''The --port argument can only be used with TCP transport. Current transport: '' @ t @
             ''. Either remove --port or use --transport tcp.'')
      else if ar_unix_socket a \<noteq> None \<and> t \<noteq> ''socket'' then
        Inl (''The --unix-socket argument can only be used with socket transport. Current transport: '' @ t @
             ''. Either remove --unix-socket or use --transport socket.'')
      else if ar_transport a = Some ''named-pipe'' then
        Inl ''Named pipes (--transport named-pipe) are not supported on Unix systems. Use --transport socket or --transport tcp instead.''
      else
        (case ar_transport a of
           None \<Rightarrow> Inr ()
         | Some t \<Rightarrow>
             if t \<in> {''tcp'', ''socket'', ''named-pipe''} then Inr ()
             else Inl (''Invalid transport type '' @ [CHR 0x27] @ t @ [CHR 0x27] @
               ''. Valid values are 'tcp', 'socket' (Unix only), and 'named-pipe' (Windows only).'')))"

section \<open>The system\<close>

record entry_host =
  eh_now :: instant
  eh_vars :: env
  eh_temp_dir :: string
  eh_pid :: nat
  eh_exe :: "string option"
  eh_tcp :: "nat \<Rightarrow> string + nat"
  eh_make_dir :: "string \<Rightarrow> string option"
  eh_unix :: "string \<Rightarrow> string option"
  eh_in_use :: string
  eh_removable :: "string \<Rightarrow> bool"
  eh_read :: "string \<Rightarrow> string option"
  eh_log_file :: "string \<Rightarrow> bool"
  eh_log_init :: bool
  eh_random :: "nat list"
  eh_server_id :: string
  eh_report :: "string \<Rightarrow> bool"

definition remove_file :: "entry_host \<Rightarrow> string \<Rightarrow> string set \<Rightarrow> string set" where
  "remove_file h path files = (if path \<in> files \<and> eh_removable h path then files - {path} else files)"

section \<open>Transports\<close>

record transport_config =
  tc_port :: nat
  tc_unix_socket_path :: "string option"
  tc_socket_dir :: "string option"
  tc_server_created :: bool

datatype transport_type = TcpTransport nat string | UnixSocketTransport string bool

definition validate_socket_path_length :: "string \<Rightarrow> string + unit" where
  "validate_socket_path_length path =
     (if length path > UNIX_SOCKET_PATH_MAX then
        Inl (''Unix socket path too long: '' @ show_nat (length path) @ '' characters (maximum: '' @
             show_nat UNIX_SOCKET_PATH_MAX @ ''). Path: '' @ path)
      else Inr ())"

definition get_socket_directory :: "entry_host \<Rightarrow> string option \<Rightarrow> string" where
  "get_socket_directory h socket_dir =
     (case socket_dir of
        Some dir \<Rightarrow> dir
      | None \<Rightarrow> (case eh_vars h ''XDG_RUNTIME_DIR'' of Some dir \<Rightarrow> dir | None \<Rightarrow> eh_temp_dir h))"

definition generate_socket_path :: "entry_host \<Rightarrow> string option \<Rightarrow> string" where
  "generate_socket_path h socket_dir =
     (let dir = get_socket_directory h socket_dir;
          name = ''kc-'' @ show_nat (eh_pid h) @ ''.sock'';
          path = path_join dir name;
          temp = path_join (eh_temp_dir h) name
      in if length path > UNIX_SOCKET_PATH_MAX \<and> socket_dir = None \<and> eh_vars h ''XDG_RUNTIME_DIR'' = Some dir \<and>
            length temp \<le> UNIX_SOCKET_PATH_MAX then temp else path)"

definition tcp_create :: "entry_host \<Rightarrow> transport_config \<Rightarrow> string + transport_type" where
  "tcp_create h cfg =
     map_sum id (\<lambda>port. TcpTransport port (''http://127.0.0.1:'' @ show_nat port)) (eh_tcp h (tc_port cfg))"

text \<open>A path that still exists cannot be bound. Once it is bound the listener works.\<close>

definition unix_socket_create :: "entry_host \<Rightarrow> transport_config \<Rightarrow> string set \<Rightarrow> (string + transport_type) \<times> string set" where
  "unix_socket_create h cfg files =
     (let path = (case tc_unix_socket_path cfg of Some p \<Rightarrow> p | None \<Rightarrow> generate_socket_path h (tc_socket_dir cfg)) in
      case validate_socket_path_length path of
        Inl e \<Rightarrow> (Inl e, files)
      | Inr _ \<Rightarrow>
          (case eh_make_dir h path of
             Some e \<Rightarrow> (Inl e, files)
           | None \<Rightarrow>
               (let files = remove_file h path files in
                if path \<in> files then (Inl (eh_in_use h), files)
                else
                  (case eh_unix h path of
                     Some e \<Rightarrow> (Inl e, files)
                   | None \<Rightarrow> (Inr (UnixSocketTransport path (tc_unix_socket_path cfg = None)), insert path files)))))"

definition transport_create :: "entry_host \<Rightarrow> string \<Rightarrow> transport_config \<Rightarrow> string set \<Rightarrow> (string + transport_type) \<times> string set" where
  "transport_create h t cfg files =
     (if t = ''tcp'' then (tcp_create h cfg, files)
      else if t = ''socket'' then unix_socket_create h cfg files
      else if t = ''named-pipe'' then (Inl ''Named pipes are not supported on Unix systems'', files)
      else (Inl (''Invalid transport type: '' @ t), files))"

definition create_transport :: "entry_host \<Rightarrow> args \<Rightarrow> string \<Rightarrow> string set \<Rightarrow> (string + transport_type) \<times> string set" where
  "create_transport h a t files =
     transport_create h t \<lparr>tc_port = ar_port a, tc_unix_socket_path = ar_unix_socket a, tc_socket_dir = ar_socket_dir a,
       tc_server_created = (ar_unix_socket a = None)\<rparr> files"

definition main_server_socket :: "transport_type \<Rightarrow> string option" where
  "main_server_socket t =
     (case t of UnixSocketTransport path created \<Rightarrow> if created then Some path else None | TcpTransport _ _ \<Rightarrow> None)"

datatype server_connection_type = ConnTcp nat string | ConnSocket string bool

definition to_server_connection_type :: "transport_type \<Rightarrow> server_connection_type" where
  "to_server_connection_type t =
     (case t of TcpTransport port base \<Rightarrow> ConnTcp port base | UnixSocketTransport path created \<Rightarrow> ConnSocket path created)"

section \<open>What the client is told\<close>

record handshake_payload =
  pl_port :: "nat option"
  pl_base_path :: "string option"
  pl_socket_path :: "string option"
  pl_named_pipe :: "string option"
  pl_transport :: string
  pl_server_path :: string
  pl_server_pid :: nat
  pl_bearer_token :: "string option"
  pl_log_path :: "string option"
  pl_server_id :: string

definition handshake_payload_new ::
  "entry_host \<Rightarrow> server_connection_type \<Rightarrow> string option \<Rightarrow> string option \<Rightarrow> string \<Rightarrow> handshake_payload option" where
  "handshake_payload_new h info token log_file server_id =
     map_option (\<lambda>exe.
       let base = \<lparr>pl_port = None, pl_base_path = None, pl_socket_path = None, pl_named_pipe = None, pl_transport = [],
             pl_server_path = exe, pl_server_pid = eh_pid h, pl_bearer_token = token, pl_log_path = log_file, pl_server_id = server_id\<rparr>
       in case info of
            ConnTcp port base_path \<Rightarrow> base\<lparr>pl_port := Some port, pl_base_path := Some base_path, pl_transport := ''tcp''\<rparr>
          | ConnSocket path _ \<Rightarrow> base\<lparr>pl_socket_path := Some path, pl_transport := ''socket''\<rparr>) (eh_exe h)"

text \<open>The derived serialization: the optional fields but the token are left out when they are absent.\<close>

definition optional :: "string \<Rightarrow> ('a \<Rightarrow> json) \<Rightarrow> 'a option \<Rightarrow> (string \<times> json) list" where
  "optional name f x = (case x of Some v \<Rightarrow> [(name, f v)] | None \<Rightarrow> [])"

definition payload_json :: "handshake_payload \<Rightarrow> json" where
  "payload_json p =
     JObject (optional ''port'' (\<lambda>n. JInt (int n)) (pl_port p) @ optional ''base_path'' JString (pl_base_path p) @
       optional ''socket_path'' JString (pl_socket_path p) @ optional ''named_pipe'' JString (pl_named_pipe p) @
       [(''transport'', JString (pl_transport p)), (''server_path'', JString (pl_server_path p)), (''server_pid'', JInt (int (pl_server_pid p))),
        (''bearer_token'', case pl_bearer_token p of Some t \<Rightarrow> JString t | None \<Rightarrow> JNull)] @
       optional ''log_path'' JString (pl_log_path p) @ [(''server_id'', JString (pl_server_id p))])"

definition perform_handshake :: "(json \<Rightarrow> string) \<Rightarrow> handshake_payload \<Rightarrow> string" where
  "perform_handshake show_json p = show_json (payload_json p) @ [CHR 0x0A]"

section \<open>The token\<close>

text \<open>White space as Unicode has it, in UTF-8; a text has at most as many characters of it as bytes.\<close>

definition white_space :: "string list" where
  "white_space =
     [[CHR 0x09], [CHR 0x0A], [CHR 0x0B], [CHR 0x0C], [CHR 0x0D], [CHR 0x20], [CHR 0xC2, CHR 0x85], [CHR 0xC2, CHR 0xA0],
      [CHR 0xE1, CHR 0x9A, CHR 0x80]] @
     map (\<lambda>n. [CHR 0xE2, CHR 0x80, char_of (n :: nat)]) ([128..<139] @ [168, 169, 175]) @
     [[CHR 0xE2, CHR 0x81, CHR 0x9F], [CHR 0xE3, CHR 0x80, CHR 0x80]]"

definition drop_one :: "string list \<Rightarrow> string \<Rightarrow> string" where
  "drop_one ws s = (case List.map_filter (\<lambda>w. strip_prefix w s) ws of r # _ \<Rightarrow> r | [] \<Rightarrow> s)"

definition unicode_trim :: "string \<Rightarrow> string" where
  "unicode_trim s =
     (let s = ((drop_one white_space) ^^ (length s)) s
      in rev (((drop_one (map rev white_space)) ^^ (length s)) (rev s)))"

text \<open>The hexadecimal form of a byte, two digits.\<close>

definition hex_byte :: "nat \<Rightarrow> string" where
  "hex_byte b = [hex_digit (b div 16 mod 16), hex_digit (b mod 16)]"

text \<open>\<open>Inl\<close> is the end of the process with an error.\<close>

definition read_token :: "entry_host \<Rightarrow> string option \<Rightarrow> unit + string option" where
  "read_token h arg =
     (case arg of
        Some file \<Rightarrow>
          if file = ''none'' then Inr None
          else
            (case eh_read h file of
               None \<Rightarrow> Inl ()
             | Some s \<Rightarrow> (let token = unicode_trim s in if length token > 64 then Inl () else Inr (Some token)))
      | None \<Rightarrow> Inr (Some (concat (map hex_byte (take 32 (eh_random h))))))"

section \<open>The server\<close>

text \<open>
  The server with the fields its handlers do not use, the tasks it starts, and whether the channels of
  sessions are upgraded in place.
\<close>

record 'm running_server =
  rs_server :: "'m server"
  rs_socket_dir :: "string option"
  rs_main_socket :: "string option"
  rs_idle :: idle_task
  rs_monitor :: monitor_task
  rs_intercepts :: bool

definition server_new ::
  "instant \<Rightarrow> string \<Rightarrow> string option \<Rightarrow> nat option \<Rightarrow> string option \<Rightarrow> bool \<Rightarrow> nat \<Rightarrow> bool \<Rightarrow> 'm server" where
  "server_new now server_id token idle_hours log_level uses_sockets interval include_children =
     \<lparr>sv_token = token, sv_started = now, sv_server_id = server_id, sv_sessions = [], sv_clients = [], sv_reserved = [],
      sv_idle_hours = idle_hours, sv_log_level = log_level, sv_interval = interval, sv_include_children = include_children,
      sv_uses_sockets = uses_sockets, sv_active_sockets = [], sv_idle_nudge_tx = chan_new, sv_idle_config_tx = chan_new,
      sv_interval_tx = chan_new, sv_mcp = mcp_new chan_new\<rparr>"

record server_config =
  sg_server_id :: string
  sg_token :: "string option"
  sg_idle_shutdown_hours :: "nat option"
  sg_log_level :: "string option"
  sg_uses_domain_sockets :: bool
  sg_interval :: nat
  sg_include_children :: bool
  sg_socket_dir :: "string option"
  sg_main_server_socket :: "string option"

definition effective_log_level :: "entry_host \<Rightarrow> server_config \<Rightarrow> string option" where
  "effective_log_level h g = (case sg_log_level g of Some l \<Rightarrow> Some l | None \<Rightarrow> eh_vars h ''RUST_LOG'')"

definition create_server :: "entry_host \<Rightarrow> bool \<Rightarrow> server_config \<Rightarrow> 'm running_server" where
  "create_server h intercept_session_channels g =
     \<lparr>rs_server = server_new (eh_now h) (sg_server_id g) (sg_token g) (sg_idle_shutdown_hours g) (effective_log_level h g)
        (sg_uses_domain_sockets g) (sg_interval g) (sg_include_children g),
      rs_socket_dir = sg_socket_dir g, rs_main_socket = sg_main_server_socket g,
      rs_idle = idle_task_new (eh_now h) (sg_idle_shutdown_hours g), rs_monitor = monitor_start (sg_interval g) (sg_interval g),
      rs_intercepts = intercept_session_channels\<rparr>"

text \<open>The settings both kinds of server are made with.\<close>

definition base_config :: "entry_host \<Rightarrow> args \<Rightarrow> string option \<Rightarrow> server_config" where
  "base_config h a token =
     \<lparr>sg_server_id = eh_server_id h, sg_token = token, sg_idle_shutdown_hours = ar_idle_shutdown_hours a, sg_log_level = ar_log_level a,
      sg_uses_domain_sockets = False, sg_interval = (case ar_resource_sample_interval a of Some n \<Rightarrow> n | None \<Rightarrow> 1000),
      sg_include_children = ar_resource_include_children a, sg_socket_dir = ar_socket_dir a, sg_main_server_socket = None\<rparr>"

definition create_tcp_server :: "entry_host \<Rightarrow> server_config \<Rightarrow> 'm running_server" where
  "create_tcp_server h g = create_server h True (g\<lparr>sg_uses_domain_sockets := False, sg_main_server_socket := None\<rparr>)"

definition create_unix_server :: "entry_host \<Rightarrow> server_config \<Rightarrow> string option \<Rightarrow> 'm running_server" where
  "create_unix_server h g main_socket =
     create_server h False (g\<lparr>sg_uses_domain_sockets := True, sg_main_server_socket := main_socket\<rparr>)"

definition create_with_listener :: "entry_host \<Rightarrow> args \<Rightarrow> string option \<Rightarrow> transport_type \<Rightarrow> 'm running_server" where
  "create_with_listener h a token t =
     (case t of
        TcpTransport _ _ \<Rightarrow> create_tcp_server h (base_config h a token)
      | UnixSocketTransport _ _ \<Rightarrow> create_unix_server h (base_config h a token) (main_server_socket t))"

lemmas server_defs = create_with_listener_def create_tcp_server_def create_unix_server_def create_server_def base_config_def server_new_def

text \<open>
  \<open>main\<close> up to the point where the server accepts connections: the process ends with an error, panics, or serves
  on a transport, after it has written \<open>reported\<close> to the client's socket.
\<close>

datatype 'm main_outcome =
    ExitFailure
  | MainPanic
  | Serving "'m running_server" transport_type "(string \<times> handshake_payload) option"

definition main_log_level :: "entry_host \<Rightarrow> args \<Rightarrow> log_level" where
  "main_log_level h a =
     (let level = (case ar_log_level a of Some l \<Rightarrow> l | None \<Rightarrow> (case eh_vars h ''RUST_LOG'' of Some l \<Rightarrow> l | None \<Rightarrow> ''info''))
      in case parse_log_level level of Some l \<Rightarrow> l | None \<Rightarrow> LogInfo)"

text \<open>The logger; a log file that cannot be made is a panic.\<close>

definition init_logging :: "entry_host \<Rightarrow> args \<Rightarrow> 'm main_outcome option" where
  "init_logging h a =
     (if (case ar_log_file a of Some f \<Rightarrow> \<not> eh_log_file h f | None \<Rightarrow> False) then Some MainPanic
      else if \<not> eh_log_init h then Some ExitFailure
      else None)"

definition main_run :: "entry_host \<Rightarrow> args \<Rightarrow> string set \<Rightarrow> 'm main_outcome \<times> string set" where
  "main_run h a files =
     (case validate_args a of
        Inl _ \<Rightarrow> (ExitFailure, files)
      | Inr _ \<Rightarrow>
          (case init_logging h a of
             Some out \<Rightarrow> (out, files)
           | None \<Rightarrow>
            (case create_transport h a (determine_transport a) files of
               (Inl _, files) \<Rightarrow> (ExitFailure, files)
             | (Inr t, files) \<Rightarrow>
                 (case read_token h (ar_token a) of
                    Inl _ \<Rightarrow> (ExitFailure, files)
                  | Inr token \<Rightarrow>
                      (case ar_handshake_socket a of
                         None \<Rightarrow> (Serving (create_with_listener h a token t) t None, files)
                       | Some path \<Rightarrow>
                           (case handshake_payload_new h (to_server_connection_type t) token (ar_log_file a) (eh_server_id h) of
                              None \<Rightarrow> (ExitFailure, files)
                            | Some p \<Rightarrow>
                                if eh_report h path then (Serving (create_with_listener h a token t) t (Some (path, p)), files)
                                else (ExitFailure, files)))))))"

section \<open>The end\<close>

definition cleanup_all_domain_sockets :: "entry_host \<Rightarrow> 'm running_server \<Rightarrow> string set \<Rightarrow> 'm running_server \<times> string set" where
  "cleanup_all_domain_sockets h rs files =
     (let files = (case rs_main_socket rs of Some p \<Rightarrow> remove_file h p files | None \<Rightarrow> files);
          files = fold (remove_file h) (sv_active_sockets (rs_server rs)) files
      in (rs\<lparr>rs_server := (rs_server rs)\<lparr>sv_active_sockets := []\<rparr>\<rparr>, files))"

text \<open>The answer is whether the process ends at once, with an error, or waits for its sessions.\<close>

definition handle_shutdown_signal ::
  "entry_host \<Rightarrow> string \<Rightarrow> string \<Rightarrow> 'm running_server \<Rightarrow> string set \<Rightarrow> bool \<times> 'm running_server \<times> string set" where
  "handle_shutdown_signal h fresh err rs files =
     (let (rs, files) = cleanup_all_domain_sockets h rs files;
          (r, ks) = ask_shutdown fresh err (sv_sessions (rs_server rs))
      in (r \<noteq> None, rs\<lparr>rs_server := (rs_server rs)\<lparr>sv_sessions := ks\<rparr>\<rparr>, files))"

text \<open>What the running server waits for; both signals are handled alike.\<close>

datatype server_event = ServerCompleted | SigTerm | SigInt

definition run_server_with_signals ::
  "entry_host \<Rightarrow> string \<Rightarrow> string \<Rightarrow> server_event \<Rightarrow> 'm running_server \<Rightarrow> string set \<Rightarrow> bool \<times> 'm running_server \<times> string set" where
  "run_server_with_signals h fresh err e rs files =
     (case e of
        ServerCompleted \<Rightarrow> (False, rs, files)
      | SigTerm \<Rightarrow> handle_shutdown_signal h fresh err rs files
      | SigInt \<Rightarrow> handle_shutdown_signal h fresh err rs files)"

text \<open>The socket of a session, named after a hash of its identifier and the process.\<close>

fun show_hex :: "nat \<Rightarrow> string" where
  "show_hex n = (if n < 16 then [hex_digit n] else show_hex (n div 16) @ [hex_digit (n mod 16)])"

declare show_hex.simps [simp del]

definition session_socket_path :: "entry_host \<Rightarrow> string option \<Rightarrow> (string \<Rightarrow> nat) \<Rightarrow> string \<Rightarrow> string" where
  "session_socket_path h socket_dir hash i = path_join (get_socket_directory h socket_dir) (''kcs-'' @ show_hex (hash i) @ ''.sock'')"

section \<open>Lemmas\<close>

text \<open>How the client that launched the server reads what it is told.\<close>

definition opt_field :: "(json \<Rightarrow> 'a option) \<Rightarrow> string \<Rightarrow> json \<Rightarrow> 'a option option" where
  "opt_field read name v =
     (case json_get name v of
        None \<Rightarrow> Some None
      | Some x \<Rightarrow> if x = JNull then Some None else map_option Some (read x))"

definition payload_read :: "json \<Rightarrow> handshake_payload option" where
  "payload_read v =
     do {
       port \<leftarrow> opt_field (as_uint 16) ''port'' v;
       base \<leftarrow> opt_field as_str ''base_path'' v;
       path \<leftarrow> opt_field as_str ''socket_path'' v;
       pipe \<leftarrow> opt_field as_str ''named_pipe'' v;
       tr \<leftarrow> Option.bind (json_get ''transport'' v) as_str;
       exe \<leftarrow> Option.bind (json_get ''server_path'' v) as_str;
       pid \<leftarrow> Option.bind (json_get ''server_pid'' v) (as_uint 32);
       token \<leftarrow> opt_field as_str ''bearer_token'' v;
       log \<leftarrow> opt_field as_str ''log_path'' v;
       i \<leftarrow> Option.bind (json_get ''server_id'' v) as_str;
       Some \<lparr>pl_port = port, pl_base_path = base, pl_socket_path = path, pl_named_pipe = pipe, pl_transport = tr,
         pl_server_path = exe, pl_server_pid = pid, pl_bearer_token = token, pl_log_path = log, pl_server_id = i\<rparr>
     }"

lemma map_of_optional:
  "(m ++ map_of (optional name f x)) k = (if k = name then (case x of Some v \<Rightarrow> Some (f v) | None \<Rightarrow> m k) else m k)"
  by (simp add: optional_def map_add_def split: option.split)

lemma payload_read_back:
  assumes "case pl_port p of Some n \<Rightarrow> n < 2 ^ 16 | None \<Rightarrow> True" and "pl_server_pid p < 2 ^ 32"
  shows "payload_read (payload_json p) = Some p"
proof -
  note look = opt_field_def payload_json_def map_of_optional
  have "opt_field (as_uint 16) ''port'' (payload_json p) = Some (pl_port p)"
    using assms(1) by (simp add: look split: option.splits)
  moreover have "opt_field as_str ''base_path'' (payload_json p) = Some (pl_base_path p)"
      "opt_field as_str ''socket_path'' (payload_json p) = Some (pl_socket_path p)"
      "opt_field as_str ''named_pipe'' (payload_json p) = Some (pl_named_pipe p)"
      "opt_field as_str ''bearer_token'' (payload_json p) = Some (pl_bearer_token p)"
      "opt_field as_str ''log_path'' (payload_json p) = Some (pl_log_path p)"
    by (simp_all add: look split: option.split)
  moreover have "Option.bind (json_get ''transport'' (payload_json p)) as_str = Some (pl_transport p)"
      "Option.bind (json_get ''server_path'' (payload_json p)) as_str = Some (pl_server_path p)"
      "Option.bind (json_get ''server_pid'' (payload_json p)) (as_uint 32) = Some (pl_server_pid p)"
      "Option.bind (json_get ''server_id'' (payload_json p)) as_str = Some (pl_server_id p)"
    using assms(2) by (simp_all add: look)
  ultimately show ?thesis
    unfolding payload_read_def by simp
qed

lemma main_run_Serving:
  assumes "main_run h a files = (Serving rs t msg, files')"
  obtains token where "validate_args a = Inr ()" and "create_transport h a (determine_transport a) files = (Inr t, files')"
    and "read_token h (ar_token a) = Inr token" and "rs = create_with_listener h a token t"
    and "case msg of
        None \<Rightarrow> ar_handshake_socket a = None
      | Some (path, p) \<Rightarrow> ar_handshake_socket a = Some path \<and>
          handshake_payload_new h (to_server_connection_type t) token (ar_log_file a) (eh_server_id h) = Some p"
  using assms by (auto simp: main_run_def init_logging_def split: sum.splits if_splits option.splits prod.splits)

lemma unix_socket_create_Inr:
  assumes "unix_socket_create h cfg files = (Inr t, files')"
  shows "\<exists>p. t = UnixSocketTransport p (tc_unix_socket_path cfg = None) \<and> length p \<le> UNIX_SOCKET_PATH_MAX \<and>
    p = (case tc_unix_socket_path cfg of Some p \<Rightarrow> p | None \<Rightarrow> generate_socket_path h (tc_socket_dir cfg)) \<and> files' = insert p files"
  using assms
  by (auto simp: unix_socket_create_def validate_socket_path_length_def remove_file_def Let_def split: if_splits option.splits sum.splits)

lemma listener_token [simp]: "sv_token (rs_server (create_with_listener h a token t)) = token"
  by (cases t) (simp_all add: server_defs)

lemma payload_token: "handshake_payload_new h info token log_file i = Some p \<Longrightarrow> pl_bearer_token p = token"
  by (cases info) (auto simp: handshake_payload_new_def Let_def)

lemma remove_files: "fold (remove_file h) ps files = files - {p \<in> set ps. eh_removable h p}"
  by (induction ps arbitrary: files) (auto simp: remove_file_def)

section \<open>Properties\<close>

text \<open>
  C7. A client that launched the server can reach it with what it is told: the document is read back as it
  was written, the address in it is the one the server listens on, its token is the only credential the server
  accepts, or none is needed if it has none, and its identifier is the one the server reports later.
\<close>

theorem client_is_told_how_to_connect:
  assumes "main_run h a files = (Serving rs t (Some (path, p)), files')" and "eh_pid h < 2 ^ 32"
    and "\<forall>port n. eh_tcp h port = Inr n \<longrightarrow> n < 2 ^ 16"
  shows "payload_read (payload_json p) = Some p \<and> pl_server_id p = sv_server_id (rs_server rs) \<and>
    (\<forall>auth. validate_token (rs_server rs) auth \<longleftrightarrow> (case pl_bearer_token p of None \<Rightarrow> True | Some b \<Rightarrow> auth = Some (Bearer b))) \<and>
    (case t of
       TcpTransport port base \<Rightarrow> pl_port p = Some port \<and> pl_base_path p = Some (''http://127.0.0.1:'' @ show_nat port) \<and>
         pl_socket_path p = None \<and> rs_intercepts rs \<and> \<not> sv_uses_sockets (rs_server rs)
     | UnixSocketTransport sp _ \<Rightarrow> pl_socket_path p = Some sp \<and> pl_port p = None \<and> sp \<in> files' \<and>
         length sp \<le> UNIX_SOCKET_PATH_MAX \<and> \<not> rs_intercepts rs \<and> sv_uses_sockets (rs_server rs))"
proof -
  obtain token where tr: "create_transport h a (determine_transport a) files = (Inr t, files')"
    and rs: "rs = create_with_listener h a token t"
    and p: "handshake_payload_new h (to_server_connection_type t) token (ar_log_file a) (eh_server_id h) = Some p"
    using main_run_Serving [OF assms(1)] by fastforce
  have t: "case t of TcpTransport port base \<Rightarrow> port < 2 ^ 16 \<and> base = ''http://127.0.0.1:'' @ show_nat port
      | UnixSocketTransport sp _ \<Rightarrow> sp \<in> files' \<and> length sp \<le> UNIX_SOCKET_PATH_MAX"
  proof (cases "determine_transport a = ''tcp''")
    case True
    then show ?thesis
      using tr assms(3) by (auto simp: create_transport_def transport_create_def tcp_create_def map_sum_def split: sum.splits)
  next
    case False
    then show ?thesis
      using tr unix_socket_create_Inr [of h _ files t files'] by (force simp: create_transport_def transport_create_def split: if_splits)
  qed
  have auth: "validate_token (rs_server rs) auth \<longleftrightarrow> (case pl_bearer_token p of None \<Rightarrow> True | Some b \<Rightarrow> auth = Some (Bearer b))" for auth
    using payload_token [OF p] by (auto simp: rs validate_token_def split: option.splits auth_data.splits)
  have "payload_read (payload_json p) = Some p"
    using p t assms(2) by (intro payload_read_back) (auto simp: handshake_payload_new_def to_server_connection_type_def Let_def
        split: transport_type.splits)
  then show ?thesis
    using auth t rs p by (auto simp: handshake_payload_new_def to_server_connection_type_def server_defs Let_def
        split: transport_type.splits)
qed

text \<open>
  Arguments are accepted exactly if they agree: the transport is one this system has, a port goes with
  TCP and a socket path with sockets.
\<close>

theorem arguments_checked:
  "validate_args a = Inr () \<longleftrightarrow>
     ar_transport a \<in> {None, Some ''tcp'', Some ''socket''} \<and> (ar_port a = 0 \<or> determine_transport a = ''tcp'') \<and>
     (ar_unix_socket a = None \<or> determine_transport a = ''socket'')"
  by (auto simp: validate_args_def determine_transport_def Let_def split: option.splits)

text \<open>
  When the process is told to end, the socket files it made are removed, as far as the system lets it, and no
  others; in particular a socket given by the user stays.
\<close>

theorem shutdown_removes_own_sockets:
  assumes "e \<noteq> ServerCompleted"
  shows "snd (snd (run_server_with_signals h fresh err e rs files)) =
     files - {p \<in> set_option (rs_main_socket rs) \<union> set (sv_active_sockets (rs_server rs)). eh_removable h p} \<and>
   sv_active_sockets (rs_server (fst (snd (run_server_with_signals h fresh err e rs files)))) = [] \<and>
   rs_main_socket (create_with_listener h a token (UnixSocketTransport p False)) = None"
  using assms
  by (cases e) (auto simp: run_server_with_signals_def handle_shutdown_signal_def cleanup_all_domain_sockets_def remove_files remove_file_def
      server_defs main_server_socket_def Let_def split: option.splits prod.splits)

definition demo_entry :: entry_host where
  "demo_entry =
     \<lparr>eh_now = 0, eh_vars = Map.empty, eh_temp_dir = ''/tmp'', eh_pid = 42, eh_exe = Some ''/bin/kcserver'', eh_tcp = (\<lambda>_. Inr 8080),
      eh_make_dir = (\<lambda>_. None), eh_unix = (\<lambda>_. None), eh_in_use = ''in use'', eh_removable = (\<lambda>_. True), eh_read = (\<lambda>_. Some ''secret''),
      eh_log_file = (\<lambda>_. True), eh_log_init = True, eh_random = replicate 32 7, eh_server_id = ''id'', eh_report = (\<lambda>_. True)\<rparr>"

definition demo_args :: args where
  "demo_args =
     \<lparr>ar_port = 0, ar_token = Some ''none'', ar_log_file = None, ar_handshake_socket = Some ''/tmp/client'', ar_idle_shutdown_hours = None,
      ar_resource_sample_interval = None, ar_resource_include_children = True, ar_log_level = None, ar_socket_dir = None,
      ar_unix_socket = Some ''/tmp/kc'', ar_transport = None\<rparr>"

theorem shutdown_removes_own_sockets_witness:
  "snd (snd (run_server_with_signals demo_entry [] [] SigTerm
     (create_with_listener demo_entry demo_args None (UnixSocketTransport ''/tmp/kc'' True) :: string running_server) {''/tmp/kc'', ''/tmp/x''})) = {''/tmp/x''}"
  using shutdown_removes_own_sockets [of SigTerm demo_entry "[]" "[]"
      "create_with_listener demo_entry demo_args None (UnixSocketTransport ''/tmp/kc'' True) :: string running_server" "{''/tmp/kc'', ''/tmp/x''}"]
  by (auto simp: server_defs main_server_socket_def demo_entry_def)

theorem client_is_told_how_to_connect_witness:
  "\<exists>(rs :: string running_server) t p files. main_run demo_entry demo_args {} = (Serving rs t (Some (''/tmp/client'', p)), files) \<and>
     payload_read (payload_json p) = Some p \<and> pl_socket_path p = Some ''/tmp/kc''"
proof -
  let ?t = "UnixSocketTransport ''/tmp/kc'' False"
  obtain p where run: "main_run demo_entry demo_args {} =
      (Serving (create_with_listener demo_entry demo_args None ?t :: string running_server) ?t (Some (''/tmp/client'', p)), {''/tmp/kc''})"
    by (simp add: main_run_def init_logging_def validate_args_def determine_transport_def create_transport_def transport_create_def unix_socket_create_def
        validate_socket_path_length_def UNIX_SOCKET_PATH_MAX_def remove_file_def read_token_def handshake_payload_new_def
        demo_args_def demo_entry_def Let_def)
  have pid: "eh_pid demo_entry < 2 ^ 32" and tcp: "\<forall>port n. eh_tcp demo_entry port = Inr n \<longrightarrow> n < 2 ^ 16"
    by (simp_all add: demo_entry_def)
  show ?thesis
    using client_is_told_how_to_connect [OF run pid tcp] run by auto
qed

text \<open>
  A token fits the header it is sent in: it has at most 64 bytes, and one made by the server has exactly
  64 hexadecimal digits, the form a workspace's credential has, two for each of its 32 random bytes in order.
\<close>

theorem token_fits_header:
  assumes "read_token h arg = Inr (Some token)" and "32 \<le> length (eh_random h)"
  shows "length token \<le> 64 \<and>
    (arg = None \<longrightarrow> is_valid_token token \<and>
      (\<forall>n < 32. token ! (2 * n) = hex_digit (eh_random h ! n div 16 mod 16) \<and> token ! (2 * n + 1) = hex_digit (eh_random h ! n mod 16)))"
proof -
  have len: "length (concat (map hex_byte bs)) = 2 * length bs" for bs
    by (induction bs) (simp_all add: hex_byte_def)
  have at: "concat (map hex_byte bs) ! (2 * n) = hex_digit (bs ! n div 16 mod 16) \<and> concat (map hex_byte bs) ! (2 * n + 1) = hex_digit (bs ! n mod 16)"
    if "n < length bs" for bs n
    using that
  proof (induction bs arbitrary: n)
    case (Cons b bs)
    then show ?case
      by (cases n) (auto simp: hex_byte_def)
  qed simp
  have digit: "is_hexdigit (hex_digit n)" if "n < 16" for n
    using that by (auto simp: is_hexdigit_def is_digit_def code_in_def hex_digit_def of_char_of)
  have "\<forall>c \<in> set (concat (map hex_byte bs)). is_hexdigit c" for bs
    by (auto simp: hex_byte_def intro!: digit)
  then show ?thesis
    using assms at [of _ "take 32 (eh_random h)"] len [of "take 32 (eh_random h)"]
    by (auto simp: read_token_def Let_def is_valid_token_def TOKEN_LEN_def TOKEN_BYTES_def list_all_iff split: option.splits if_splits)
qed

theorem token_fits_header_witness:
  "\<exists>token. read_token demo_entry None = Inr (Some token) \<and> length token \<le> 64 \<and> is_valid_token token"
proof -
  have r: "read_token demo_entry None = Inr (Some (concat (map hex_byte (replicate 32 7))))" and l: "32 \<le> length (eh_random demo_entry)"
    by (simp_all add: read_token_def demo_entry_def)
  show ?thesis
    using token_fits_header [OF r l] r by blast
qed

text \<open>
  A runtime directory with a long path cuts the sessions off: the server falls back to the temporary
  directory for its own socket and starts, but it keeps naming the sockets of sessions after the runtime
  directory, so every client that asks for the channel of a session is refused.
\<close>

theorem long_runtime_dir_cuts_sessions_off:
  assumes "eh_vars h ''XDG_RUNTIME_DIR'' = Some dir" and "UNIX_SOCKET_PATH_MAX \<le> length dir"
    and "length (path_join (eh_temp_dir h) (''kc-'' @ show_nat (eh_pid h) @ ''.sock'')) \<le> UNIX_SOCKET_PATH_MAX"
    and "tc_unix_socket_path cfg = None" and "tc_socket_dir cfg = None"
    and "h_socket_path hh = session_socket_path h None hash" and "sv_uses_sockets sv" and "validate_token sv auth"
    and "find_session i sv \<noteq> None"
    and "\<forall>p. eh_make_dir h p = None \<and> eh_unix h p = None \<and> eh_removable h p"
  shows "(\<exists>p. fst (unix_socket_create h cfg files) = Inr (UnixSocketTransport p True) \<and> length p \<le> UNIX_SOCKET_PATH_MAX) \<and>
    (\<exists>message. channels_upgrade hh auth i sv = (socket_error ''socket_path_too_long'' message, sv))"
proof -
  have long: "UNIX_SOCKET_PATH_MAX < length (path_join dir (CHR ''k'' # s))" for s
    using assms(2) by (simp add: path_join_def)
  have "generate_socket_path h None = path_join (eh_temp_dir h) (''kc-'' @ show_nat (eh_pid h) @ ''.sock'')"
    using assms(1,3) long [of "''c-'' @ show_nat (eh_pid h) @ ''.sock''"] by (simp add: generate_socket_path_def get_socket_directory_def Let_def)
  then have "fst (unix_socket_create h cfg files) = Inr (UnixSocketTransport (generate_socket_path h None) True) \<and>
      length (generate_socket_path h None) \<le> UNIX_SOCKET_PATH_MAX"
    using assms(3-5,10) by (simp add: unix_socket_create_def validate_socket_path_length_def remove_file_def Let_def)
  moreover have "UNIX_SOCKET_PATH_MAX < length (h_socket_path hh i)"
    using assms(1,6) long [of "''cs-'' @ show_hex (hash i) @ ''.sock''"] by (simp add: session_socket_path_def get_socket_directory_def)
  then have "\<exists>message. channels_upgrade hh auth i sv = (socket_error ''socket_path_too_long'' message, sv)"
    using assms(7-9) by (auto simp: channels_upgrade_def create_domain_socket_channel_def Let_def)
  ultimately show ?thesis
    by blast
qed

theorem long_runtime_dir_cuts_sessions_off_witness:
  "let h = demo_entry\<lparr>eh_vars := [''XDG_RUNTIME_DIR'' \<mapsto> replicate 104 (CHR ''d'')]\<rparr>;
       sv = (attached_server [])\<lparr>sv_uses_sockets := True, sv_token := None\<rparr>
   in \<exists>message. channels_upgrade (sample_host\<lparr>h_socket_path := session_socket_path h None (\<lambda>_. 255)\<rparr>) None ''s'' sv =
        (socket_error ''socket_path_too_long'' message, sv)"
proof -
  let ?h = "demo_entry\<lparr>eh_vars := [''XDG_RUNTIME_DIR'' \<mapsto> replicate 104 (CHR ''d'')]\<rparr>"
  let ?sv = "(attached_server [])\<lparr>sv_uses_sockets := True, sv_token := None\<rparr>"
  let ?cfg = "\<lparr>tc_port = 0, tc_unix_socket_path = None, tc_socket_dir = None, tc_server_created = True\<rparr>"
  have temp: "length (path_join (eh_temp_dir ?h) (''kc-'' @ show_nat (eh_pid ?h) @ ''.sock'')) \<le> UNIX_SOCKET_PATH_MAX"
    by (simp add: demo_entry_def path_join_def UNIX_SOCKET_PATH_MAX_def show_nat.simps)
  have found: "find_session ''s'' ?sv \<noteq> None"
    using attached_session [of "[]"] by (simp add: find_session_def)
  show ?thesis
    unfolding Let_def
    using long_runtime_dir_cuts_sessions_off [of ?h "replicate 104 (CHR ''d'')" ?cfg
        "sample_host\<lparr>h_socket_path := session_socket_path ?h None (\<lambda>_. 255)\<rparr>" "\<lambda>_. 255" ?sv None "''s''" "{}"] temp found
    by (simp add: validate_token_def UNIX_SOCKET_PATH_MAX_def demo_entry_def del: One_nat_def)
qed

end
