(* ===== verification/KC_Output.thy ===== *)
theory KC_Output
  imports KC_Upgrade KC_Lifecycle
begin

text \<open>
  \<open>kernel_session/process.rs\<close>: the tasks that read what a kernel process writes to its two output streams and
  send it on to the client, line by line.
\<close>

section \<open>The task\<close>

text \<open>
  How the task ends: it still waits for the rest of a line, the stream is at its end, what was read is
  not text, or the channel to the client is closed.
\<close>

datatype stream_end = StreamWaits | StreamEnds | StreamFails | StreamPanics

function stream_output :: "output_stream \<Rightarrow> reader \<Rightarrow> kernel_state \<Rightarrow> stream_end \<times> kernel_state" where
  "stream_output kind r s =
     (case read_line r of
        None \<Rightarrow> (StreamWaits, s)
      | Some (None, _) \<Rightarrow> (StreamFails, s)
      | Some (Some line, r') \<Rightarrow>
          if line = [] then (StreamEnds, s)
          else
            (case ws_send (Kernel (Output kind line)) s of
               None \<Rightarrow> (StreamPanics, s)
             | Some s' \<Rightarrow> stream_output kind r' s'))"
  by pat_completeness auto

termination
proof (relation "measure (\<lambda>(kind, r, s). length (unread r))", goal_cases)
  case (2 kind r s x res r' line s')
  then show ?case
    using read_line_unread [of r line r'] by (cases line) auto
qed simp

declare stream_output.simps [simp del]

text \<open>\<open>capture_output_streams\<close>: a task for each of the two streams that was piped.\<close>

definition capture_output_streams :: "reader option \<Rightarrow> reader option \<Rightarrow> (output_stream \<times> reader) list" where
  "capture_output_streams out err =
     (case out of Some r \<Rightarrow> [(Stdout, r)] | None \<Rightarrow> []) @ (case err of Some r \<Rightarrow> [(Stderr, r)] | None \<Rightarrow> [])"

section \<open>Lines\<close>

text \<open>A text cut after each line feed.\<close>

function split_lines :: "string \<Rightarrow> string list" where
  "split_lines s =
     (case split_once LF s of
        Some (a, b) \<Rightarrow> (a @ [LF]) # split_lines b
      | None \<Rightarrow> if s = [] then [] else [s])"
  by pat_completeness auto

termination
  by (relation "measure length") (auto dest!: split_once_Some)

declare split_lines.simps [simp del]

lemma split_lines_Nil [simp]: "split_lines [] = []"
  by (simp add: split_lines.simps)

lemma split_lines_concat: "concat (split_lines s) = s"
  by (induction s rule: split_lines.induct) (subst split_lines.simps, auto split: option.splits dest!: split_once_Some)

text \<open>The lines of a stream: those that are complete, and at the end what is left.\<close>

definition stream_lines :: "bool \<Rightarrow> string \<Rightarrow> string list" where
  "stream_lines is_open s = (if is_open then filter (\<lambda>l. ends_with_char l LF) (split_lines s) else split_lines s)"

lemma stream_lines_rec:
  "stream_lines is_open s =
     (case split_once LF s of
        Some (a, b) \<Rightarrow> (a @ [LF]) # stream_lines is_open b
      | None \<Rightarrow> if s = [] \<or> is_open then [] else [s])"
proof (cases "split_once LF s")
  case None
  then have "\<not> ends_with_char s LF"
    by (metis ends_with_char_def last_in_set split_once_None)
  then show ?thesis
    using None by (simp add: stream_lines_def split_lines.simps [of s])
next
  case (Some ab)
  then show ?thesis
    by (cases ab) (simp add: stream_lines_def split_lines.simps [of s] ends_with_char_def)
qed

lemma split_once_cat:
  "split_once c (x @ y) =
     (case split_once c x of
        Some (a, b) \<Rightarrow> Some (a, b @ y)
      | None \<Rightarrow> map_option (\<lambda>(a, b). (x @ a, b)) (split_once c y))"
proof (induction x)
  case (Cons x xs)
  then show ?case
    by (cases "split_once c y") (auto split: option.splits)
qed (cases "split_once c y", auto)

lemma read_until_split:
  "read_until acc buf cs = (line, b, cs') \<Longrightarrow>
     (case split_once LF (buf @ concat cs) of
        Some (x, y) \<Rightarrow> line = acc @ x @ [LF] \<and> b @ concat cs' = y
      | None \<Rightarrow> line = acc @ buf @ concat cs \<and> b @ concat cs' = [])"
proof (induction acc buf cs rule: read_until.induct)
  case (2 acc buf c cs)
  show ?case
  proof (cases "split_once LF buf")
    case None
    then show ?thesis
      using 2 by (auto simp: split_once_cat split: option.splits)
  next
    case (Some xy)
    then show ?thesis
      using 2 by (cases xy) (auto simp: split_once_cat split: option.splits)
  qed
qed (auto split: option.splits)

text \<open>One line: what is read does not depend on how the stream arrives.\<close>

lemma read_line_cases:
  obtains a b r' where "split_once LF (unread r) = Some (a, b)" and "unread r' = b" and "rd_open r' = rd_open r"
      and "read_line r = Some (if utf8_valid (a @ [LF]) then Some (a @ [LF]) else None, r')"
  | "split_once LF (unread r) = None" and "rd_open r" and "read_line r = None"
  | r' where "split_once LF (unread r) = None" and "\<not> rd_open r" and "unread r' = []" and "rd_open r' = rd_open r"
      and "read_line r = Some (if utf8_valid (unread r) then Some (unread r) else None, r')"
proof -
  obtain line b cs where l: "read_until [] (rd_buffer r) (rd_chunks r) = (line, b, cs)"
    using prod_cases3 by blast
  note s = read_until_split [OF l]
  show ?thesis
  proof (cases "split_once LF (unread r)")
    case (Some xy)
    then show ?thesis
      using that(1) [of "fst xy" "snd xy" "r\<lparr>rd_buffer := b, rd_chunks := cs\<rparr>"] s l
      by (auto simp: unread_def read_line_def ends_with_char_def split: prod.splits)
  next
    case None
    then have line: "line = unread r" "b @ concat cs = []"
      using s by (auto simp: unread_def)
    moreover have "\<not> ends_with_char (unread r) LF"
      using None by (metis ends_with_char_def last_in_set split_once_None)
    ultimately show ?thesis
      using None that(2) that(3) [of "r\<lparr>rd_buffer := b, rd_chunks := cs\<rparr>"] l
      by (cases "rd_open r") (auto simp: unread_def read_line_def)
  qed
qed

text \<open>What the task has sent, and why it stopped, in terms of the lines of the stream.\<close>

lemma stream_output_lines:
  assumes "ch_open (ks_ws_json_tx s)"
  shows "stream_output kind r s =
    (let ls = stream_lines (rd_open r) (unread r) in
     (if \<exists>l \<in> set ls. \<not> utf8_valid l then StreamFails else if rd_open r then StreamWaits else StreamEnds,
      s\<lparr>ks_ws_json_tx := (ks_ws_json_tx s)\<lparr>ch_buf := ch_buf (ks_ws_json_tx s) @ map (\<lambda>l. Kernel (Output kind l)) (takeWhile utf8_valid ls)\<rparr>\<rparr>))"
  using assms
proof (induction kind r s rule: stream_output.induct)
  case (1 kind r s)
  let ?send = "\<lambda>l. s\<lparr>ks_ws_json_tx := (ks_ws_json_tx s)\<lparr>ch_buf := ch_buf (ks_ws_json_tx s) @ [Kernel (Output kind l)]\<rparr>\<rparr>"
  have send: "ws_send (Kernel (Output kind l)) s = Some (?send l)" for l
    using 1(2) by simp
  show ?case
  proof (cases r rule: read_line_cases)
    case (1 a b r')
    have rec: "stream_lines (rd_open r) (unread r) = (a @ [LF]) # stream_lines (rd_open r') (unread r')"
      using 1 by (subst stream_lines_rec) simp
    show ?thesis
    proof (cases "utf8_valid (a @ [LF])")
      case True
      then have "stream_output kind r s = stream_output kind r' (?send (a @ [LF]))"
        using 1 by (subst stream_output.simps) (simp add: send del: ws_send_Some)
      then show ?thesis
        using "1.IH" [of "(Some (a @ [LF]), r')" "Some (a @ [LF])" r' "a @ [LF]" "?send (a @ [LF])"] 1 True send rec "1.prems"
        by (simp add: Let_def)
    next
      case False
      then show ?thesis
        using 1 rec by (subst stream_output.simps) simp
    qed
  next
    case 2
    then show ?thesis
      by (subst stream_output.simps, subst stream_lines_rec) simp
  next
    case (3 r')
    have rec: "stream_lines (rd_open r) (unread r) = (if unread r = [] then [] else [unread r])"
      using 3 by (subst stream_lines_rec) simp
    obtain q where "read_line r' = Some (Some [], q)"
      using 3(2-4) by (cases r' rule: read_line_cases) (auto simp: utf8_valid.simps(1))
    then have last_turn: "stream_output kind r' t = (StreamEnds, t)" for t
      by (simp add: stream_output.simps)
    have nil: "utf8_valid []"
      by (simp add: utf8_valid.simps(1))
    show ?thesis
      unfolding rec using 3 nil by (subst stream_output.simps) (simp add: send last_turn del: ws_send_Some)
  qed
qed

section \<open>Properties\<close>

text \<open>
  What a kernel writes reaches the client: as long as it is text, every line is sent once, whole and in order,
  however the bytes arrive, and at the end of the stream nothing is missing.
\<close>

theorem kernel_output_forwarded:
  assumes "ch_open (ks_ws_json_tx s)" and "\<forall>l \<in> set (stream_lines (rd_open r) (unread r)). utf8_valid l"
  shows "\<exists>s' ls. stream_output kind r s = (if rd_open r then StreamWaits else StreamEnds, s') \<and>
    ch_buf (ks_ws_json_tx s') = ch_buf (ks_ws_json_tx s) @ map (\<lambda>l. Kernel (Output kind l)) ls \<and>
    ls = stream_lines (rd_open r) (unread r) \<and> (concat ls = unread r \<or> rd_open r)"
proof -
  have all: "takeWhile utf8_valid (stream_lines (rd_open r) (unread r)) = stream_lines (rd_open r) (unread r)"
    using assms(2) by simp
  have "concat (stream_lines (rd_open r) (unread r)) = unread r \<or> rd_open r"
    using split_lines_concat by (simp add: stream_lines_def)
  then show ?thesis
    using stream_output_lines [OF assms(1), of kind r, unfolded all] assms(2) by (auto simp: Let_def all)
qed

definition two_chunks :: reader where
  "two_chunks = \<lparr>rd_buffer = ''a'', rd_chunks = [''b'' @ [LF] @ ''c''], rd_open = False\<rparr>"

theorem kernel_output_forwarded_witness:
  "\<exists>s'. stream_output Stdout two_chunks sample_state = (StreamEnds, s') \<and>
     ch_buf (ks_ws_json_tx s') = ch_buf (ks_ws_json_tx sample_state) @ [Kernel (Output Stdout (''ab'' @ [LF])), Kernel (Output Stdout ''c'')]"
proof -
  have o: "ch_open (ks_ws_json_tx sample_state)"
    by (simp add: sample_state_def state_new_def chan_new_def)
  have ls: "stream_lines (rd_open two_chunks) (unread two_chunks) = [''ab'' @ [LF], ''c'']"
    by (simp add: two_chunks_def unread_def stream_lines_def split_lines.simps LF_def)
  have v: "utf8_valid (''ab'' @ [LF])" "utf8_valid ''c''"
    by (code_simp, code_simp)
  show ?thesis
    using kernel_output_forwarded [OF o, of two_chunks Stdout] v unfolding ls by (auto simp: two_chunks_def)
qed

text \<open>
  A line that is not text ends the forwarding for good: what came before it is sent, but neither it nor anything
  the kernel writes afterwards, although the process goes on.
\<close>

theorem bad_line_ends_output:
  assumes "ch_open (ks_ws_json_tx s)" and "stream_lines (rd_open r) (unread r) = good @ bad # rest"
    and "\<forall>l \<in> set good. utf8_valid l" and "\<not> utf8_valid bad"
  shows "\<exists>s'. stream_output kind r s = (StreamFails, s') \<and>
    ch_buf (ks_ws_json_tx s') = ch_buf (ks_ws_json_tx s) @ map (\<lambda>l. Kernel (Output kind l)) good"
  using stream_output_lines [OF assms(1), of kind r] assms(2-4) by (auto simp: Let_def takeWhile_append)

definition latin_chunk :: reader where
  "latin_chunk = \<lparr>rd_buffer = [CHR ''a'', LF, CHR 0xE9, LF, CHR ''b'', LF], rd_chunks = [], rd_open = True\<rparr>"

theorem bad_line_ends_output_witness:
  "\<exists>s'. stream_output Stderr latin_chunk sample_state = (StreamFails, s') \<and>
     ch_buf (ks_ws_json_tx s') = ch_buf (ks_ws_json_tx sample_state) @ [Kernel (Output Stderr [CHR ''a'', LF])]"
proof -
  have o: "ch_open (ks_ws_json_tx sample_state)"
    by (simp add: sample_state_def state_new_def chan_new_def)
  have ls: "stream_lines (rd_open latin_chunk) (unread latin_chunk) = [[CHR ''a'', LF]] @ [CHR 0xE9, LF] # [[CHR ''b'', LF]]"
    by (simp add: latin_chunk_def unread_def stream_lines_def split_lines.simps LF_def ends_with_char_def)
  have v: "\<forall>l \<in> set [[CHR ''a'', LF]]. utf8_valid l" "\<not> utf8_valid [CHR 0xE9, LF]"
    by (simp, code_simp, code_simp)
  show ?thesis
    using bad_line_ends_output [OF o ls v, of Stderr] by simp
qed

end
