(* ===== verification/KC_Control.thy ===== *)
theory KC_Control
  imports KC_Server "HOL-Library.Word"
begin

text \<open>
  \<open>process_control.rs\<close>: signals to processes, addressed by a 32-bit number that is cast to the signed type
  of the system call. The build modelled is the one for Unix. The processes of the system are given with
  their groups and whether the server may signal them.
\<close>

section \<open>The system call\<close>

record process =
  pr_pid :: nat
  pr_group :: nat
  pr_permitted :: bool

record process_table =
  pt_processes :: "process list"
  pt_own_group :: nat

text \<open>Whom \<open>kill\<close> addresses: a process, the group of the caller, every process but the first, or a group.\<close>

definition kill_targets :: "process_table \<Rightarrow> int \<Rightarrow> process list" where
  "kill_targets t p =
     (if p > 0 then filter (\<lambda>x. int (pr_pid x) = p) (pt_processes t)
      else if p = 0 then filter (\<lambda>x. pr_group x = pt_own_group t) (pt_processes t)
      else if p = - 1 then filter (\<lambda>x. pr_pid x > 1) (pt_processes t)
      else filter (\<lambda>x. int (pr_group x) = - p) (pt_processes t))"

datatype kill_result = KillOk | NoSuchProcess | NotPermitted

definition kill :: "process_table \<Rightarrow> int \<Rightarrow> kill_result" where
  "kill t p =
     (let ts = kill_targets t p in
      if ts = [] then NoSuchProcess else if list_ex pr_permitted ts then KillOk else NotPermitted)"

section \<open>Operations\<close>

text \<open>The result, and the processes that get the signal.\<close>

definition signal :: "process_table \<Rightarrow> 32 word \<Rightarrow> bool \<times> nat list" where
  "signal t pid = (kill t (sint pid) = KillOk, map pr_pid (filter pr_permitted (kill_targets t (sint pid))))"

definition terminate :: "process_table \<Rightarrow> 32 word \<Rightarrow> bool \<times> nat list" where
  "terminate t pid = signal t pid"

definition interrupt_process :: "process_table \<Rightarrow> 32 word \<Rightarrow> bool \<times> nat list" where
  "interrupt_process t pid = signal t pid"

text \<open>The signal 0 reaches nobody; only the result counts.\<close>

definition is_running :: "process_table \<Rightarrow> 32 word \<Rightarrow> bool" where
  "is_running t pid \<longleftrightarrow> fst (signal t pid) \<or> kill t (sint pid) = NotPermitted"

section \<open>Properties\<close>

lemma sint_small: "unat (pid :: 32 word) < 2 ^ 31 \<Longrightarrow> sint pid = int (unat pid)"
proof -
  assume "unat pid < 2 ^ 31"
  then have "int (unat pid) < int (2 ^ 31)"
    by (simp only: of_nat_less_iff)
  then have "uint pid < 2 ^ 31"
    by simp
  then have "signed_take_bit 31 (uint pid) = uint pid"
    by (intro signed_take_bit_int_eq_self order_trans [OF _ unsigned_greater_eq]) simp_all
  then show ?thesis
    by (simp add: sint_uint)
qed

lemma kill_targets_process: "0 < n \<Longrightarrow> kill_targets t (int n) = filter (\<lambda>x. pr_pid x = n) (pt_processes t)"
  by (simp add: kill_targets_def)

lemma filter_one: "distinct (map f xs) \<Longrightarrow> length (filter (\<lambda>x. f x = y \<and> p x) xs) \<le> 1"
proof (induction xs)
  case (Cons x xs)
  moreover have "filter (\<lambda>z. f z = f x \<and> p z) xs = []" if "f x \<notin> f ` set xs"
    using that by (force simp: filter_empty_conv image_iff)
  ultimately show ?case
    by auto
qed simp

text \<open>
  A process number below half the range is what it says: a signal goes to that process and to no other,
  succeeds just if the process is there and may be signalled, and a process counts as running just if it is there,
  whoever owns it.
\<close>

theorem process_signals_exact:
  assumes "0 < unat pid" and "unat pid < 2 ^ 31" and "distinct (map pr_pid (pt_processes t))"
  shows "snd (terminate t pid) = map pr_pid (filter (\<lambda>x. pr_pid x = unat pid \<and> pr_permitted x) (pt_processes t)) \<and>
    length (snd (terminate t pid)) \<le> 1 \<and> fst (terminate t pid) = (snd (terminate t pid) \<noteq> []) \<and>
    (is_running t pid \<longleftrightarrow> (\<exists>x \<in> set (pt_processes t). pr_pid x = unat pid))"
proof -
  have targets: "kill_targets t (sint pid) = filter (\<lambda>x. pr_pid x = unat pid) (pt_processes t)"
    unfolding sint_small [OF assms(2)] by (rule kill_targets_process [OF assms(1)])
  have reached: "snd (terminate t pid) = map pr_pid (filter (\<lambda>x. pr_pid x = unat pid \<and> pr_permitted x) (pt_processes t))"
    by (simp add: terminate_def signal_def targets conj_commute)
  then show ?thesis
    using filter_one [OF assms(3), of "unat pid" pr_permitted]
    by (auto simp: terminate_def is_running_def signal_def kill_def targets Let_def list_ex_iff filter_empty_conv)
qed

definition demo_table :: process_table where
  "demo_table = \<lparr>pt_processes = [\<lparr>pr_pid = 1, pr_group = 1, pr_permitted = False\<rparr>, \<lparr>pr_pid = 42, pr_group = 40, pr_permitted = True\<rparr>],
     pt_own_group = 40\<rparr>"

theorem process_signals_exact_witness:
  "snd (terminate demo_table 42) = [42] \<and> is_running demo_table 1 \<and> \<not> is_running demo_table 7"
proof -
  have d: "distinct (map pr_pid (pt_processes demo_table))"
    by (simp add: demo_table_def)
  show ?thesis
    using process_signals_exact [of 42 demo_table] process_signals_exact [of 1 demo_table] process_signals_exact [of 7 demo_table] d
    by (simp add: demo_table_def)
qed

text \<open>
  A client can keep the server from ever shutting down: a heartbeat that names process \<open>-1\<close> is kept as the
  largest 32-bit number, and asking whether that is running asks whether any process is. As long as there is one, a tick of
  the idle task never gets to test the sessions.
\<close>

theorem heartbeat_of_every_process:
  assumes "ch_open (sv_idle_nudge_tx sv)" and "x \<in> set (pt_processes t)" and "pr_pid x > 1"
  shows "\<exists>p. ch_buf (sv_idle_nudge_tx (snd (client_heartbeat (Some (- 1)) sv))) = ch_buf (sv_idle_nudge_tx sv) @ [Some p] \<and>
    (let alive = \<lambda>n. is_running t (word_of_nat n); task' = fst (idle_turn alive ss now (IdleNudge (Some (Some p))) task) in
     snd (idle_turn alive ss' later IdleTick task') = None \<and> it_client_pid (fst (idle_turn alive ss' later IdleTick task')) = p)"
proof -
  have minus: "sint (word_of_nat (2 ^ 32 - 1) :: 32 word) = - 1"
    by simp
  have "kill_targets t (- 1) \<noteq> []"
    using assms(2,3) by (auto simp: kill_targets_def filter_empty_conv)
  then have "is_running t (word_of_nat (2 ^ 32 - 1))"
    unfolding is_running_def signal_def minus kill_def by (auto simp: Let_def)
  then have run: "is_running t (word_of_nat 4294967295)"
    by simp
  have "ch_buf (sv_idle_nudge_tx (snd (client_heartbeat (Some (- 1)) sv))) = ch_buf (sv_idle_nudge_tx sv) @ [Some 4294967295]"
    using assms(1) by (simp add: client_heartbeat_def chan_try_def chan_send_def)
  moreover have "let alive = \<lambda>n. is_running t (word_of_nat n); task' = fst (idle_turn alive ss now (IdleNudge (Some (Some 4294967295))) task) in
     snd (idle_turn alive ss' later IdleTick task') = None \<and> it_client_pid (fst (idle_turn alive ss' later IdleTick task')) = 4294967295"
    using run by (simp add: idle_turn_def take_pid_def Let_def del: of_nat_numeral)
  ultimately show ?thesis
    by blast
qed

theorem heartbeat_of_every_process_witness:
  "\<exists>p. ch_buf (sv_idle_nudge_tx (snd (client_heartbeat (Some (- 1)) sample_server))) = [Some p] \<and>
     snd (idle_turn (\<lambda>n. is_running demo_table (word_of_nat n)) [] 9 IdleTick
       (fst (idle_turn (\<lambda>n. is_running demo_table (word_of_nat n)) [] 0 (IdleNudge (Some (Some p))) (idle_task_new 0 (Some 0))))) = None"
proof -
  have o: "ch_open (sv_idle_nudge_tx sample_server)" "ch_buf (sv_idle_nudge_tx sample_server) = []"
    by (simp_all add: sample_server_def chan_new_def)
  have x: "\<lparr>pr_pid = 42, pr_group = 40, pr_permitted = True\<rparr> \<in> set (pt_processes demo_table)"
    by (simp add: demo_table_def)
  show ?thesis
    using heartbeat_of_every_process [OF o(1) x, of "[]" 0 "idle_task_new 0 (Some 0)" "[]" 9] o(2)
    by (auto simp: Let_def split: prod.splits)
qed

end
