(* ===== verification/KC_Handshake.thy ===== *)
theory KC_Handshake
  imports KC_Wire KC_Ports
begin

text \<open>
  How a kernel and the server agree on ports: \<open>registration_file.rs\<close>, \<open>registration_socket.rs\<close>,
  \<open>kernel_session/handshake.rs\<close> and the reply of \<open>kcshared/handshake_protocol.rs\<close>. The kernel is
  given the address of a socket, picks its ports, sends them in a signed message, and gets a reply.

  The date and the identifier of the reply, the text of a channel error, and what the file system and
  the sockets answer are arguments. Which branch of the \<open>select!\<close> wakes first is a value of
  \<open>handshake_wake\<close>.
\<close>

section \<open>The registration file\<close>

record registration_file =
  rf_transport :: string
  rf_signature_scheme :: string
  rf_ip :: string
  rf_key :: "string option"
  rf_registration_port :: nat

definition registration_file_new :: "string \<Rightarrow> nat \<Rightarrow> string option \<Rightarrow> registration_file" where
  "registration_file_new addr p key =
     \<lparr>rf_transport = ''tcp'', rf_signature_scheme = ''hmac-sha256'', rf_ip = addr, rf_key = key, rf_registration_port = p\<rparr>"

definition registration_json :: "registration_file \<Rightarrow> json" where
  "registration_json rf = JObject
     [(''transport'', JString (rf_transport rf)), (''signature_scheme'', JString (rf_signature_scheme rf)),
      (''ip'', JString (rf_ip rf)), (''key'', (case rf_key rf of Some k \<Rightarrow> JString k | None \<Rightarrow> JNull)),
      (''registration_port'', JInt (int (rf_registration_port rf)))]"

definition handshake_error :: "string \<Rightarrow> string \<Rightarrow> startup_error" where
  "handshake_error i msg = \<lparr>se_exit_code = None, se_output = None, se_error = to_json (HandshakeFailed i msg) None\<rparr>"

text \<open>
  \<open>setup_registration_socket\<close>: the port of the new socket or why there is none, the directory for
  temporary files, and why the file cannot be written, if so. The result is the path of the file and
  what is in it.
\<close>

definition setup_registration_socket ::
  "string \<Rightarrow> string option \<Rightarrow> string + nat \<Rightarrow> string \<Rightarrow> string option \<Rightarrow> startup_error + (string \<times> registration_file)" where
  "setup_registration_socket i key bound tmp write_error =
     (case bound of
        Inl e \<Rightarrow> Inl (handshake_error i (''Failed to create registration socket: '' @ e))
      | Inr p \<Rightarrow>
          (let path = path_join tmp (''registration_'' @ i @ ''.json''); rf = registration_file_new ''127.0.0.1'' p key
           in case write_error of
                Some e \<Rightarrow> Inl (start_failed (''Failed to write registration file: '' @ e))
              | None \<Rightarrow> Inr (path, rf)))"

section \<open>The registration socket\<close>

datatype handshake_status = HandshakeOk | HandshakeError

record handshake_result =
  hs_request :: handshake_request
  hs_status :: handshake_status

definition handshake_reply_json :: "handshake_status \<Rightarrow> string option \<Rightarrow> json" where
  "handshake_reply_json st err = JObject
     ([(''status'', JString (case st of HandshakeOk \<Rightarrow> ''ok'' | HandshakeError \<Rightarrow> ''error''))] @
      (case err of Some e \<Rightarrow> [(''error'', JString e)] | None \<Rightarrow> []) @
      [(''capabilities'', JObject [])])"

definition handshake_reply :: "string \<Rightarrow> jupyter_message \<Rightarrow> jupyter_message" where
  "handshake_reply mid request =
     \<lparr>header = \<lparr>msg_id = mid, msg_type = ''handshake_reply''\<rparr>, parent_header = Some (header request), channel = Registration,
      content = handshake_reply_json HandshakeOk None, metadata = JNull, buffers = []\<rparr>"

text \<open>The result told to the server, and the frames sent to the kernel, if any.\<close>

definition send_successful_handshake ::
  "'m codec \<Rightarrow> string \<Rightarrow> string \<Rightarrow> 'm kernel_connection \<Rightarrow> jupyter_message \<Rightarrow> handshake_request \<Rightarrow>
     handshake_result option \<times> zmq_message option" where
  "send_successful_handshake cd date mid c m request =
     (Some \<lparr>hs_request = request, hs_status = HandshakeOk\<rparr>,
      (case from_jupyter cd date (handshake_reply mid m) c of Done w \<Rightarrow> Some (into_zmq w) | _ \<Rightarrow> None))"

text \<open>\<open>None\<close> is the panic of the task.\<close>

definition handle_handshake_request ::
  "'m codec \<Rightarrow> (wire_error \<Rightarrow> string) \<Rightarrow> string \<Rightarrow> string \<Rightarrow> 'm kernel_connection \<Rightarrow> zmq_message \<Rightarrow>
     (handshake_result option \<times> zmq_message option) option" where
  "handle_handshake_request cd show_error date mid c frames =
     (case to_jupyter cd Registration (kc_hmac_key c) (from_zmq ''registration'' Registration frames) of
        Done m \<Rightarrow>
          (case jupyter_msg_from m of
             HandshakeRequest request \<Rightarrow> Some (send_successful_handshake cd date mid c m request)
           | _ \<Rightarrow> Some (None, None))
      | Fail e \<Rightarrow>
          Some (None, Some [json_to_vec cd (handshake_reply_json HandshakeError (Some (''Failed to parse JupyterMessage: '' @ show_error e)))])
      | Panic \<Rightarrow> None)"

text \<open>
  \<open>listen\<close> on what the socket receives first, or its error. What the server is told: a task that ends
  or panics without a result drops its sender, which the receiver sees as an error.
\<close>

definition registration_listen ::
  "'m codec \<Rightarrow> (wire_error \<Rightarrow> string) \<Rightarrow> string \<Rightarrow> string \<Rightarrow> 'm kernel_connection \<Rightarrow> string + zmq_message \<Rightarrow>
     handshake_result option \<times> zmq_message option" where
  "registration_listen cd show_error date mid c received =
     (case received of
        Inl e \<Rightarrow> (None, None)
      | Inr frames \<Rightarrow>
          (case handle_handshake_request cd show_error date mid c frames of Some r \<Rightarrow> r | None \<Rightarrow> (None, None)))"

section \<open>Waiting for the handshake\<close>

definition key_text :: "string option \<Rightarrow> string" where
  "key_text key = (case key of Some k \<Rightarrow> k | None \<Rightarrow> [])"

text \<open>The task that turns a result into a connection file; \<open>None\<close> when it ends without sending one.\<close>

definition handshake_connection :: "string option \<Rightarrow> handshake_result option \<Rightarrow> connection_file option" where
  "handshake_connection key result =
     (case result of
        None \<Rightarrow> None
      | Some r \<Rightarrow>
          if hs_status r = HandshakeOk then
            Some \<lparr>cf_info =
              \<lparr>control_port = int (hr_control_port (hs_request r)), shell_port = int (hr_shell_port (hs_request r)),
               stdin_port = int (hr_stdin_port (hs_request r)), hb_port = int (hr_hb_port (hs_request r)),
               iopub_port = int (hr_iopub_port (hs_request r)), signature_scheme = ''hmac-sha256'',
               info_key = key_text key, transport = ''tcp'', ip = ''127.0.0.1''\<rparr>\<rparr>
          else None)"

definition handle_handshake_result ::
  "string \<Rightarrow> string option \<Rightarrow> string \<Rightarrow> connection_file option \<Rightarrow> kernel_state \<Rightarrow> (startup_error + connection_file) \<times> kernel_state" where
  "handle_handshake_result i key recv_error received s =
     (case received of
        Some cf \<Rightarrow>
          (let cf = cf\<lparr>cf_info := (cf_info cf)\<lparr>info_key := key_text key\<rparr>\<rparr>
           in (Inr cf, s\<lparr>ks_ws_json_tx := chan_try (Kernel (HandshakeCompleted i (cf_info cf))) (ks_ws_json_tx s)\<rparr>))
      | None \<Rightarrow> (Inl (handshake_error i (''Channel error: '' @ recv_error)), s))"

definition handle_startup_during_handshake :: "coordinator \<Rightarrow> string \<Rightarrow> string + startup_status \<Rightarrow> startup_error" where
  "handle_startup_during_handshake co i status =
     (case status of
        Inr (AbnormalExit code output err) \<Rightarrow>
          \<lparr>se_exit_code = Some code, se_output = Some (strip_startup_markers output),
           se_error = to_json ExitedBeforeConnection
             (Some (context_line ''Shell: '' (co_shell_used co) @ context_line ''Startup command: '' (co_startup_command co) @
                ''The kernel exited before a connection could be established''))\<rparr>
      | Inr _ \<Rightarrow> handshake_error i ''Unexpected startup status''
      | Inl e \<Rightarrow> handshake_error i (''Startup channel error: '' @ e))"

definition handle_handshake_timeout :: "string \<Rightarrow> startup_error" where
  "handle_handshake_timeout i = handshake_error i ''Timeout waiting for handshake''"

datatype handshake_wake =
    HandshakeEnded "handshake_result option"
  | StartupReported "string + startup_status"
  | HandshakeTimedOut

definition wait_for_handshake ::
  "coordinator \<Rightarrow> string \<Rightarrow> string option \<Rightarrow> string \<Rightarrow> handshake_wake \<Rightarrow> kernel_state \<Rightarrow>
     (startup_error + connection_file) \<times> kernel_state" where
  "wait_for_handshake co i key recv_error wake s =
     (case wake of
        HandshakeEnded result \<Rightarrow> handle_handshake_result i key recv_error (handshake_connection key result) s
      | StartupReported status \<Rightarrow> (Inl (handle_startup_during_handshake co i status), s)
      | HandshakeTimedOut \<Rightarrow> (Inl (handle_handshake_timeout i), s))"

section \<open>Properties\<close>

text \<open>The request a kernel makes.\<close>

definition request_json :: "handshake_request \<Rightarrow> json" where
  "request_json r = JObject
     [(''shell_port'', JInt (int (hr_shell_port r))), (''iopub_port'', JInt (int (hr_iopub_port r))),
      (''stdin_port'', JInt (int (hr_stdin_port r))), (''control_port'', JInt (int (hr_control_port r))),
      (''hb_port'', JInt (int (hr_hb_port r)))]"

definition kernel_request :: "string \<Rightarrow> handshake_request \<Rightarrow> jupyter_message" where
  "kernel_request mid r =
     \<lparr>header = \<lparr>msg_id = mid, msg_type = ''handshake_request''\<rparr>, parent_header = None, channel = Registration,
      content = request_json r, metadata = JObject [], buffers = []\<rparr>"

definition ports_fit :: "handshake_request \<Rightarrow> bool" where
  "ports_fit r \<longleftrightarrow> hr_shell_port r < 65536 \<and> hr_iopub_port r < 65536 \<and> hr_stdin_port r < 65536 \<and>
     hr_control_port r < 65536 \<and> hr_hb_port r < 65536"

lemma parse_request_json: "ports_fit r \<Longrightarrow> parse_handshake_request (request_json r) = Some r"
  by (simp add: parse_handshake_request_def request_json_def ports_fit_def)


lemma request_understood: "ports_fit r \<Longrightarrow> jupyter_msg_from (kernel_request mid r) = HandshakeRequest r"
  by (simp add: jupyter_msg_from_def kernel_request_def parse_request_json Let_def)

text \<open>What is relied on of the codec for the two messages of a handshake.\<close>

definition reads_back :: "'m codec \<Rightarrow> string \<Rightarrow> 'm kernel_connection \<Rightarrow> jupyter_message \<Rightarrow> bool" where
  "reads_back cd date c m \<longleftrightarrow>
     (\<forall>v \<in> set (wire_values date m c). json_from_slice cd (json_to_vec cd v) = Some v \<and> utf8_valid (json_to_vec cd v)) \<and>
     (\<forall>p. parent_header m = Some p \<longrightarrow> 5 \<le> length (json_to_vec cd (wire_value date c p)))"

lemma reads_back_trip:
  assumes "reads_back cd date c m" and "json_to_vec cd (JObject []) = ''{}''" and "\<forall>x. utf8_valid (hex_encode cd x)"
    and "kc_session_id c \<noteq> MSG_DELIM" and "buffers m = []" and "channel m = ch"
  shows "\<exists>w. from_jupyter cd date m c = Done w \<and> to_jupyter cd ch (kc_hmac_key c) (from_zmq sid ch (into_zmq w)) = Done m"
proof -
  have "m\<lparr>channel := ch\<rparr> = m"
    using assms(6) by (cases m) simp
  then show ?thesis
    using wire_trip [of date m c cd ch sid] assms(1-5) by (simp add: reads_back_def)
qed

text \<open>
  C13. Kernel and server agree: the ports a kernel announces in a message signed with the key of its
  registration file are the ports the server connects to, with the same key, and the kernel reads the
  reply as an acknowledgement of its own request.
\<close>

theorem handshake_agrees:
  assumes "ports_fit r" and "json_to_vec cd (JObject []) = ''{}''" and "\<forall>x. utf8_valid (hex_encode cd x)"
    and "kc_session_id c \<noteq> MSG_DELIM" and "reads_back cd date c (kernel_request kid r)"
    and "reads_back cd date c (handshake_reply mid (kernel_request kid r))"
    and "from_jupyter cd date (kernel_request kid r) c = Done w"
  shows "\<exists>reply cf. registration_listen cd show_error date mid c (Inr (into_zmq w)) =
      (Some \<lparr>hs_request = r, hs_status = HandshakeOk\<rparr>, Some reply) \<and>
    to_jupyter cd Registration (kc_hmac_key c) (from_zmq sid Registration reply) = Done (handshake_reply mid (kernel_request kid r)) \<and>
    wait_for_handshake co i (kc_key c) e (HandshakeEnded (Some \<lparr>hs_request = r, hs_status = HandshakeOk\<rparr>)) s =
      (Inr cf, s\<lparr>ks_ws_json_tx := chan_try (Kernel (HandshakeCompleted i (cf_info cf))) (ks_ws_json_tx s)\<rparr>) \<and>
    cf_ports cf = map int [hr_control_port r, hr_shell_port r, hr_stdin_port r, hr_iopub_port r, hr_hb_port r] \<and>
    info_key (cf_info cf) = key_text (kc_key c)"
proof -
  let ?m = "kernel_request kid r"
  have "to_jupyter cd Registration (kc_hmac_key c) (from_zmq ''registration'' Registration (into_zmq w)) = Done ?m"
    using reads_back_trip [OF assms(5,2,3,4), of Registration "''registration''"] assms(7) by (simp add: kernel_request_def)
  moreover obtain v where v: "from_jupyter cd date (handshake_reply mid ?m) c = Done v"
      "to_jupyter cd Registration (kc_hmac_key c) (from_zmq sid Registration (into_zmq v)) = Done (handshake_reply mid ?m)"
    using reads_back_trip [OF assms(6,2,3,4), of Registration sid] by (auto simp: handshake_reply_def)
  ultimately have "registration_listen cd show_error date mid c (Inr (into_zmq w)) =
      (Some \<lparr>hs_request = r, hs_status = HandshakeOk\<rparr>, Some (into_zmq v))"
    using request_understood [OF assms(1)]
    by (simp add: registration_listen_def handle_handshake_request_def send_successful_handshake_def)
  then show ?thesis
    using v(2) by (simp add: wait_for_handshake_def handle_handshake_result_def handshake_connection_def Let_def cf_ports_def)
qed

definition demo_request :: handshake_request where
  "demo_request = \<lparr>hr_shell_port = 1, hr_iopub_port = 2, hr_stdin_port = 3, hr_control_port = 4, hr_hb_port = 5\<rparr>"

definition demo_codec :: "string codec" where
  "demo_codec = table_codec
     [(wire_value ''now'' (sample_connection (Some ''k'')) \<lparr>msg_id = ''q'', msg_type = ''handshake_request''\<rparr>, ''{request}''),
      (wire_value ''now'' (sample_connection (Some ''k'')) \<lparr>msg_id = ''a'', msg_type = ''handshake_reply''\<rparr>, ''{reply}''),
      (request_json demo_request, ''{ports}''), (handshake_reply_json HandshakeOk None, ''{ok}''), (JNull, ''null'')]"

theorem handshake_agrees_witness:
  "\<exists>w reply cf. from_jupyter demo_codec ''now'' (kernel_request ''q'' demo_request) (sample_connection (Some ''k'')) = Done w \<and>
    registration_listen demo_codec (\<lambda>_. []) ''now'' ''a'' (sample_connection (Some ''k'')) (Inr (into_zmq w)) =
      (Some \<lparr>hs_request = demo_request, hs_status = HandshakeOk\<rparr>, Some reply) \<and>
    wait_for_handshake \<lparr>co_startup_environment = EnvNone, co_shell_used = None, co_startup_command = None\<rparr> ''s'' (Some ''k'') ''e''
      (HandshakeEnded (Some \<lparr>hs_request = demo_request, hs_status = HandshakeOk\<rparr>)) sample_state = (Inr cf,
        sample_state\<lparr>ks_ws_json_tx := chan_try (Kernel (HandshakeCompleted ''s'' (cf_info cf))) (ks_ws_json_tx sample_state)\<rparr>) \<and>
    cf_ports cf = [4, 1, 3, 2, 5]"
proof -
  let ?c = "sample_connection (Some ''k'')" and ?m = "kernel_request ''q'' demo_request"
  have fit: "ports_fit demo_request"
    by (simp add: ports_fit_def demo_request_def)
  have empty: "json_to_vec demo_codec (JObject []) = ''{}''"
    by code_simp
  have hex: "\<forall>x. utf8_valid (hex_encode demo_codec x)"
    by (simp add: demo_codec_def table_codec_def hex_string_utf8)
  have ident: "kc_session_id ?c \<noteq> MSG_DELIM"
    by code_simp
  have "\<forall>v \<in> set (wire_values ''now'' ?m ?c). json_from_slice demo_codec (json_to_vec demo_codec v) = Some v \<and> utf8_valid (json_to_vec demo_codec v)"
    by code_simp
  then have one: "reads_back demo_codec ''now'' ?c ?m"
    by (simp add: reads_back_def kernel_request_def)
  have "\<forall>v \<in> set (wire_values ''now'' (handshake_reply ''a'' ?m) ?c).
      json_from_slice demo_codec (json_to_vec demo_codec v) = Some v \<and> utf8_valid (json_to_vec demo_codec v)"
    by code_simp
  moreover have "5 \<le> length (json_to_vec demo_codec (wire_value ''now'' ?c (header ?m)))"
    by code_simp
  ultimately have two: "reads_back demo_codec ''now'' ?c (handshake_reply ''a'' ?m)"
    by (simp add: reads_back_def handshake_reply_def)
  obtain w where w: "from_jupyter demo_codec ''now'' ?m ?c = Done w"
    using reads_back_trip [OF one empty hex ident, of Registration "[]"] by (auto simp: kernel_request_def)
  have "kc_key ?c = Some ''k''"
    by (simp add: sample_connection_def)
  then show ?thesis
    using handshake_agrees [OF fit empty hex ident one two w, of "\<lambda>_. []" "[]"
        "\<lparr>co_startup_environment = EnvNone, co_shell_used = None, co_startup_command = None\<rparr>" "''s''" "''e''" sample_state] w
    by (auto simp: demo_request_def)
qed

text \<open>
  A request that is not signed with the session's key does not register a kernel: no ports are
  taken from it, the start fails at once, and the kernel is told so in a reply it cannot read, since the
  text is sent without the frames of a message.
\<close>

theorem forged_handshake_refused:
  assumes "kc_hmac_key c = Some key" and "after_delim frames = Some (signature # p1 # p2 # p3 # p4 # bufs)"
    and "signature \<noteq> []" and "signature \<noteq> sign cd key [p1, p2, p3, p4]" and "\<forall>v. json_to_vec cd v \<noteq> MSG_DELIM"
  shows "\<exists>reply. registration_listen cd show_error date mid c (Inr frames) = (None, Some reply) \<and>
    to_jupyter cd Registration (Some key) (from_zmq sid Registration reply) = Fail NoDelimiter \<and>
    wait_for_handshake co i (kc_key c) e (HandshakeEnded None) s = (Inl (handshake_error i (''Channel error: '' @ e)), s)"
proof -
  have "\<exists>err. to_jupyter cd Registration (Some key) (from_zmq ''registration'' Registration frames) = Fail err"
    using assms(2-4) by (auto simp: to_jupyter_def from_zmq_def check_signature_def ok_or_def)
  moreover have "to_jupyter cd Registration (Some key) (from_zmq sid Registration [json_to_vec cd v]) = Fail NoDelimiter" for v
    using assms(5) by (simp add: to_jupyter_def from_zmq_def ok_or_def)
  ultimately show ?thesis
    using assms(1)
    by (auto simp del: append_Cons simp: registration_listen_def handle_handshake_request_def wait_for_handshake_def handle_handshake_result_def
        handshake_connection_def)
qed

theorem forged_handshake_refused_witness:
  "\<exists>reply. registration_listen demo_codec (\<lambda>_. []) ''now'' ''a'' (sample_connection (Some ''k''))
      (Inr [MSG_DELIM, ''forged'', ''{request}'', ''{}'', ''{}'', ''{ports}'']) = (None, Some reply)"
proof -
  let ?ps = "[''{request}'', ''{}'', ''{}'', ''{ports}'']"
  have key: "kc_hmac_key (sample_connection (Some ''k'')) = Some ''k''"
    by (simp add: sample_connection_def)
  have frames: "after_delim (MSG_DELIM # ''forged'' # ?ps) = Some (''forged'' # ''{request}'' # ''{}'' # ''{}'' # ''{ports}'' # [])"
    by simp
  have forged: "''forged'' \<noteq> []" "''forged'' \<noteq> sign demo_codec ''k'' ?ps"
    by simp code_simp
  have delim: "\<forall>v. json_to_vec demo_codec v \<noteq> MSG_DELIM"
    by (auto simp: demo_codec_def table_codec_def MSG_DELIM_def split: option.splits if_splits)
  show ?thesis
    using forged_handshake_refused [OF key frames forged delim, of "\<lambda>_. []" "''now''" "''a''"] by blast
qed

end
