(* ===== verification/KC_Start.thy ===== *)
theory KC_Start
  imports KC_Server KC_Handshake KC_Execute
begin

text \<open>
  The start of a kernel as a whole: \<open>start\<close>, \<open>restart\<close> and \<open>connect\<close> of \<open>kernel_session/mod.rs\<close> with
  the steps of \<open>kernel_session/startup.rs\<close> they call in turn, and the handlers of \<open>server.rs\<close> that wait
  for them and for executions.

  A call that waits is given what happens meanwhile: what the other tasks do to the state of the session
  (a function on it), which event ends the wait, and what is received. The operating system and the file
  system answer through the fields of \<open>start_host\<close>.
\<close>

section \<open>Starting\<close>

record start_host =
  on_now :: instant
  on_cwd :: "nat \<Rightarrow> string option"
  on_tmp :: string
  on_registration :: "string + nat"
  on_write_error :: "string option"
  on_ports :: bind_answers
  on_vars :: env
  on_shell :: "string option"
  on_metadata :: metadata_fn
  on_is_dir :: "string \<Rightarrow> bool option"
  on_spawn :: "(string \<times> int option) + nat option"
  on_recv_error :: string

text \<open>What the kernel process is started with.\<close>

record launch =
  la_program :: string
  la_args :: "string list"
  la_dir :: "string option"
  la_env :: env

text \<open>The two ways a kernel learns about its ports: the path of the file it is given.\<close>

definition prepare_connection ::
  "start_host \<Rightarrow> 'm kernel_connection \<Rightarrow> int list \<Rightarrow> kernel_state \<Rightarrow> (startup_error + string) \<times> int list \<times> kernel_state" where
  "prepare_connection host c reserved s =
     (if requires_handshaking (kc_protocol_version c) then
        (map_sum id fst (setup_registration_socket (kc_session_id c) (kc_key c) (on_registration host) (on_tmp host)
           (on_write_error host)), reserved, s)
      else
        (case generate (on_ports host) ''127.0.0.1'' (kc_key c) 0 reserved of
           (Inl e, _, reserved) \<Rightarrow> (Inl (start_failed (''Failed to generate connection file: '' @ port_error_text e)), reserved, s)
         | (Inr cf, _, reserved) \<Rightarrow>
             (case on_write_error host of
                Some e \<Rightarrow> (Inl (start_failed (''Failed to write connection file: '' @ e)), reserved, update_connection_file cf s)
              | None \<Rightarrow>
                  (Inr (path_join (on_tmp host) (''connection_'' @ kc_session_id c @ ''.json'')), reserved, update_connection_file cf s))))"

text \<open>\<open>StartupCoordinator::build_command\<close>: what the coordinator remembers, and program, arguments and directory.\<close>

definition kernel_command ::
  "start_host \<Rightarrow> new_session \<Rightarrow> string list \<Rightarrow> string \<Rightarrow> startup_error + (coordinator \<times> string \<times> string list \<times> string option)" where
  "kernel_command host model argv dir =
     (let co = \<lparr>co_startup_environment = ns_startup_environment model, co_shell_used = None, co_startup_command = None\<rparr>;
          cwd = (if dir \<noteq> [] \<and> on_is_dir host dir = Some True then Some dir else None)
      in case build_command (on_shell host) (on_metadata host)
             \<lparr>sb_startup_env = ns_startup_environment model, sb_startup_arg = ns_startup_environment_arg model,
              sb_working_directory = dir\<rparr> argv of
           Inl e \<Rightarrow> Inl e
         | Inr (Some info) \<Rightarrow>
             Inr (co\<lparr>co_shell_used := sh_shell_used info, co_startup_command := sh_startup_arg info\<rparr>, sh_program info, sh_args info, cwd)
         | Inr None \<Rightarrow> Inr (co, hd argv, tl argv, cwd))"

text \<open>The environment of the process: what the server has, without the credential, and over it what was resolved.\<close>

definition process_env :: "start_host \<Rightarrow> env \<Rightarrow> env" where
  "process_env host e = (on_vars host)(MCP_URL_VAR := None, MCP_TOKEN_VAR := None) ++ e"

definition spawn_kernel_process :: "start_host \<Rightarrow> kernel_state \<Rightarrow> (startup_error, unit) outcome \<times> kernel_state" where
  "spawn_kernel_process host s =
     (case on_spawn host of
        Inl (e, code) \<Rightarrow>
          (case set_status (on_cwd host) (on_now host) Exited (Some (''failed to spawn process: '' @ e)) s of
             None \<Rightarrow> (Panic, s)
           | Some s \<Rightarrow> (Fail \<lparr>se_exit_code = code, se_output = None, se_error = to_json (ProcessStartFailed e) None\<rparr>, s))
      | Inr pid \<Rightarrow> (Done (), s\<lparr>ks_process_id := pid\<rparr>))"

text \<open>\<open>start\<close> up to the point where the process runs.\<close>

definition start_begin ::
  "start_host \<Rightarrow> mcp_state option \<Rightarrow> new_session \<Rightarrow> 'm kernel_connection \<Rightarrow> int list \<Rightarrow> kernel_state \<Rightarrow>
     (startup_error, coordinator \<times> launch) outcome \<times> int list \<times> kernel_state" where
  "start_begin host mcp model c reserved s =
     (case validate_startup (ns_argv model) of
        Inl e \<Rightarrow> (Fail e, reserved, s)
      | Inr _ \<Rightarrow>
          (case set_status (on_cwd host) (on_now host) Starting (Some ''start API called'') s of
             None \<Rightarrow> (Panic, reserved, s)
           | Some s \<Rightarrow>
               (let dir = ks_working_directory s in
                case prepare_connection host c reserved s of
                  (Inl e, reserved, s) \<Rightarrow> (Fail e, reserved, s)
                | (Inr path, reserved, s) \<Rightarrow>
                    (let argv = substitute_connection_file (ns_argv model) path;
                         (e, s) = resolve_environment (on_vars host) (kc_session_id c) model mcp s
                     in case kernel_command host model argv dir of
                          Inl err \<Rightarrow> (Fail err, reserved, s)
                        | Inr (co, program, args, cwd) \<Rightarrow>
                            (case spawn_kernel_process host s of
                               (Done _, s) \<Rightarrow>
                                 (Done (co, \<lparr>la_program = program, la_args = args, la_dir = cwd, la_env = process_env host e\<rparr>), reserved, s)
                             | (Fail err, s) \<Rightarrow> (Fail err, reserved, s)
                             | (Panic, s) \<Rightarrow> (Panic, reserved, s))))))"

text \<open>
  What happens while \<open>start\<close> waits: first for the handshake, if the kernel does one, then for the sockets.
\<close>

record start_run =
  sr_meanwhile :: "kernel_state \<Rightarrow> kernel_state"
  sr_wake :: handshake_wake
  sr_later :: "kernel_state \<Rightarrow> kernel_state"
  sr_received :: "string + startup_status"

definition await_handshake ::
  "start_host \<Rightarrow> 'm kernel_connection \<Rightarrow> coordinator \<Rightarrow> start_run \<Rightarrow> kernel_state \<Rightarrow> (startup_error + unit) \<times> kernel_state" where
  "await_handshake host c co r s =
     (if requires_handshaking (kc_protocol_version c) then
        (case wait_for_handshake co (kc_session_id c) (kc_key c) (on_recv_error host) (sr_wake r) (sr_meanwhile r s) of
           (Inl e, s) \<Rightarrow> (Inl e, s)
         | (Inr cf, s) \<Rightarrow> (Inr (), update_connection_file cf s))
      else (Inr (), s))"

definition start_end ::
  "start_host \<Rightarrow> 'm kernel_connection \<Rightarrow> coordinator \<Rightarrow> start_run \<Rightarrow> kernel_state \<Rightarrow> (startup_error, json) outcome \<times> kernel_state" where
  "start_end host c co r s =
     (case await_handshake host c co r s of
        (Inl e, s) \<Rightarrow> (Fail e, s)
      | (Inr _, s) \<Rightarrow>
          (case get_connection_file s of
             None \<Rightarrow> (Fail (start_failed ''Failed to get connection file for ZeroMQ proxy''), s)
           | Some cf \<Rightarrow>
               (let s = sr_later r s in
                case process_startup_result co (sr_received r) of
                  Inl e \<Rightarrow> (Fail e, s)
                | Inr info \<Rightarrow>
                    (case handle_kernel_info (on_cwd host) (on_now host) info s of
                       None \<Rightarrow> (Panic, s)
                     | Some s \<Rightarrow> (Done info, s)))))"

text \<open>The result, what was launched, if anything, the reserved ports and the state.\<close>

definition kernel_start ::
  "start_host \<Rightarrow> mcp_state option \<Rightarrow> new_session \<Rightarrow> 'm kernel_connection \<Rightarrow> start_run \<Rightarrow> int list \<Rightarrow> kernel_state \<Rightarrow>
     (startup_error, json) outcome \<times> launch option \<times> int list \<times> kernel_state" where
  "kernel_start host mcp model c r reserved s =
     (case start_begin host mcp model c reserved s of
        (Fail e, reserved, s) \<Rightarrow> (Fail e, None, reserved, s)
      | (Panic, reserved, s) \<Rightarrow> (Panic, None, reserved, s)
      | (Done (co, la), reserved, s) \<Rightarrow>
          (let (result, s) = start_end host c co r s in (result, Some la, reserved, s)))"

section \<open>Restarting\<close>

text \<open>
  \<open>restart\<close>: the request, then the wait for the exit event (\<open>exited\<close> is what happens to the session until
  it is woken), then a start. \<open>Inl\<close> is an error, as for a start.
\<close>

definition kernel_restart ::
  "start_host \<Rightarrow> os \<Rightarrow> mcp_state option \<Rightarrow> new_session \<Rightarrow> 'm kernel_connection \<Rightarrow> string \<Rightarrow> string option \<Rightarrow> var_action list option \<Rightarrow>
     (session \<Rightarrow> session) \<Rightarrow> start_run \<Rightarrow> int list \<Rightarrow> session \<Rightarrow> (startup_error, unit) outcome \<times> launch option \<times> int list \<times> session" where
  "kernel_restart host os mcp model c mid dir vars exited r reserved ss =
     (case restart_request os mid dir vars ss of
        (Fail e, ss) \<Rightarrow> (Fail e, None, reserved, ss)
      | (Panic, ss) \<Rightarrow> (Panic, None, reserved, ss)
      | (Done _, ss) \<Rightarrow>
          (let ss = exited ss; (go, st) = exit_signalled (ss_state ss); ss = ss\<lparr>ss_state := st\<rparr>
           in if \<not> go then (Done (), None, reserved, ss)
              else
                (case kernel_start host mcp model c r reserved (ss_state ss) of
                   (Done _, la, reserved, st) \<Rightarrow> (Done (), la, reserved, ss\<lparr>ss_state := st\<rparr>)
                 | (Fail e, la, reserved, st) \<Rightarrow> (Fail e, la, reserved, ss\<lparr>ss_state := st\<rparr>)
                 | (Panic, la, reserved, st) \<Rightarrow> (Panic, la, reserved, ss\<lparr>ss_state := st\<rparr>))))"

section \<open>Adopting\<close>

text \<open>\<open>connect\<close> up to its wait: the connection the proxy is to use.\<close>

definition connect_begin ::
  "'m codec \<Rightarrow> string \<Rightarrow> connection_file \<Rightarrow> 'm kernel_connection \<Rightarrow> kernel_state \<Rightarrow> (ks_error + 'm kernel_connection) \<times> kernel_state" where
  "connect_begin cd key_error cf c s =
     (let s = update_connection_file cf s in
      case with_key cd (info_key (cf_info cf)) c of
        None \<Rightarrow> (Inl (SessionConnectionFailed key_error), s)
      | Some c' \<Rightarrow> (Inr c', s))"

text \<open>The end of the task that runs the proxy of an adopted kernel; \<open>None\<close> is a panic.\<close>

definition adopted_proxy_end :: "(nat \<Rightarrow> string option) \<Rightarrow> instant \<Rightarrow> kernel_state \<Rightarrow> kernel_state option" where
  "adopted_proxy_end cwd now s =
     map_option (\<lambda>s. s\<lparr>ks_ws_json_tx := chan_try (Kernel (ExitedMsg 0)) (ks_ws_json_tx s)\<rparr>)
       (set_status cwd now Exited (Some ''all sockets disconnected from an adopted kernel'') s)"

definition connect_end :: "string + startup_status \<Rightarrow> kernel_state \<Rightarrow> (ks_error + json) \<times> kernel_state" where
  "connect_end received s =
     (case received of
        Inr (Connected info) \<Rightarrow> (Inr info, set_kernel_info info s)
      | Inr (ConnectionFailed _ e) \<Rightarrow> (Inl e, s)
      | Inr (AbnormalExit _ _ e) \<Rightarrow> (Inl e, s)
      | Inl e \<Rightarrow> (Inl (SessionConnectionFailed e), s))"

definition kernel_connect ::
  "'m codec \<Rightarrow> string \<Rightarrow> connection_file \<Rightarrow> 'm kernel_connection \<Rightarrow> (kernel_state \<Rightarrow> kernel_state) \<Rightarrow> string + startup_status \<Rightarrow>
     kernel_state \<Rightarrow> (ks_error + json) \<times> kernel_state" where
  "kernel_connect cd key_error cf c meanwhile received s =
     (case connect_begin cd key_error cf c s of
        (Inl e, s) \<Rightarrow> (Inl e, s)
      | (Inr _, s) \<Rightarrow> connect_end received (meanwhile s))"

section \<open>The handlers\<close>

datatype waiting_response =
    WUnauthorised
  | WNoSuchSession
  | Started json
  | WStartFailed startup_error
  | Restarted
  | WRestartFailed startup_error
  | Adopted json
  | AdoptionFailed api_error
  | ExecutionCompleted execute_reply
  | ExecutionTimedOut api_error
  | WInvalidRequest api_error

text \<open>
  A handler up to the call that waits: whether the caller may, and the session it names. \<open>None\<close> as the
  answer of a handler is a panic, or a wait that does not end.
\<close>

definition with_session ::
  "auth_data option \<Rightarrow> string \<Rightarrow> ('m kernel_session \<Rightarrow> 'm server \<Rightarrow> (waiting_response \<times> 'm server) option) \<Rightarrow> 'm server \<Rightarrow>
     (waiting_response \<times> 'm server) option" where
  "with_session auth i go sv =
     (if \<not> validate_token sv auth then Some (WUnauthorised, sv)
      else (case find_session i sv of None \<Rightarrow> Some (WNoSuchSession, sv) | Some k \<Rightarrow> go k sv))"

definition put_state :: "string \<Rightarrow> 'm kernel_session \<Rightarrow> kernel_state \<Rightarrow> 'm server \<Rightarrow> 'm server" where
  "put_state i k st sv = put_session i ((kn_ctl k)\<lparr>ss_state := st\<rparr>) sv"

definition start_session ::
  "start_host \<Rightarrow> auth_data option \<Rightarrow> string \<Rightarrow> start_run \<Rightarrow> 'm server \<Rightarrow> (waiting_response \<times> 'm server) option" where
  "start_session host auth i r = with_session auth i (\<lambda>k sv.
     case kernel_start host (Some (sv_mcp sv)) (kn_model k) (kn_connection k) r (sv_reserved sv) (kn_state k) of
       (Done info, _, reserved, st) \<Rightarrow> Some (Started info, put_state i k st (sv\<lparr>sv_reserved := reserved\<rparr>))
     | (Fail e, _, reserved, st) \<Rightarrow> Some (WStartFailed e, put_state i k st (sv\<lparr>sv_reserved := reserved\<rparr>))
     | (Panic, _) \<Rightarrow> None)"

text \<open>An empty directory and an empty list of variables count as absent.\<close>

definition restart_session ::
  "start_host \<Rightarrow> os \<Rightarrow> auth_data option \<Rightarrow> string \<Rightarrow> string \<Rightarrow> string option \<Rightarrow> var_action list option \<Rightarrow> (session \<Rightarrow> session) \<Rightarrow>
     start_run \<Rightarrow> 'm server \<Rightarrow> (waiting_response \<times> 'm server) option" where
  "restart_session host os auth i mid dir vars exited r = with_session auth i (\<lambda>k sv.
     case kernel_restart host os (Some (sv_mcp sv)) (kn_model k) (kn_connection k) mid
            (if dir = Some [] then None else dir) (if vars = Some [] then None else vars) exited r (sv_reserved sv) (kn_ctl k) of
       (Done _, _, reserved, ctl) \<Rightarrow> Some (Restarted, put_session i ctl (sv\<lparr>sv_reserved := reserved\<rparr>))
     | (Fail e, _, reserved, ctl) \<Rightarrow> Some (WRestartFailed e, put_session i ctl (sv\<lparr>sv_reserved := reserved\<rparr>))
     | (Panic, _) \<Rightarrow> None)"

definition adopt_session ::
  "'m codec \<Rightarrow> string \<Rightarrow> auth_data option \<Rightarrow> string \<Rightarrow> connection_info \<Rightarrow> (kernel_state \<Rightarrow> kernel_state) \<Rightarrow> string + startup_status \<Rightarrow>
     'm server \<Rightarrow> (waiting_response \<times> 'm server) option" where
  "adopt_session cd key_error auth i info meanwhile received = with_session auth i (\<lambda>k sv.
     case kernel_connect cd key_error \<lparr>cf_info = info\<rparr> (kn_connection k) meanwhile received (kn_state k) of
       (Inr v, st) \<Rightarrow> Some (Adopted v, put_state i k st sv)
     | (Inl e, st) \<Rightarrow> Some (AdoptionFailed (to_json e None), put_state i k st sv))"

record execute_request =
  xr_code :: string
  xr_silent :: "bool option"
  xr_store_history :: "bool option"
  xr_stop_on_error :: "bool option"
  xr_timeout_seconds :: "int option"

definition request_options :: "execute_request \<Rightarrow> execute_options" where
  "request_options x =
     \<lparr>eo_code = xr_code x, eo_silent = (xr_silent x = Some True), eo_store_history = (xr_store_history x \<noteq> Some False),
      eo_stop_on_error = (xr_stop_on_error x \<noteq> Some False), eo_attribution = None\<rparr>"

text \<open>A limit is set only if it is positive.\<close>

definition request_timeout :: "execute_request \<Rightarrow> nat option" where
  "request_timeout x = (case xr_timeout_seconds x of Some t \<Rightarrow> if t > 0 then Some (nat t) else None | None \<Rightarrow> None)"

definition show_int :: "int \<Rightarrow> string" where
  "show_int n = (if n < 0 then ''-'' @ show_nat (nat (- n)) else show_nat (nat n))"

text \<open>\<open>None\<close> is the \<open>unreachable!\<close>.\<close>

definition execute_response :: "execute_request \<Rightarrow> execute_error + execute_reply \<Rightarrow> waiting_response option" where
  "execute_response x result =
     (let err = (\<lambda>code message. \<lparr>ae_code = code, ae_message = message, ae_details = None\<rparr>) in
      case result of
        Inr reply \<Rightarrow> Some (ExecutionCompleted reply)
      | Inl (NotReady message) \<Rightarrow> Some (WInvalidRequest (err ''session_not_ready'' message))
      | Inl (SendFailed message) \<Rightarrow>
          Some (WInvalidRequest (err ''send_failed'' (''Failed to send execute request to kernel: '' @ message)))
      | Inl Timeout \<Rightarrow>
          Some (ExecutionTimedOut (err ''timeout'' (''Execution timed out after '' @
            show_int (case xr_timeout_seconds x of Some t \<Rightarrow> t | None \<Rightarrow> 0) @ '' seconds'')))
      | Inl ChannelClosed \<Rightarrow> Some (WInvalidRequest (err ''channel_closed'' ''Kernel message channel closed unexpectedly''))
      | Inl Cancelled \<Rightarrow> None)"

text \<open>
  \<open>execute_collect\<close>: the polls of the status until the kernel is ready, what other tasks do to the session
  before and during the execution, and the events of its listener.
\<close>

record execute_run =
  xc_polls :: "(status \<times> bool) list"
  xc_before :: "session \<Rightarrow> session"
  xc_now :: instant
  xc_msg_id :: string
  xc_send_error :: string
  xc_meanwhile :: "session \<Rightarrow> session"
  xc_events :: "rpc_event list"
  xc_interrupt_id :: string

text \<open>Without a limit nothing times out, and nobody can cancel the execution.\<close>

definition possible_events :: "nat option \<Rightarrow> rpc_event list \<Rightarrow> rpc_event list" where
  "possible_events limit evs = filter (\<lambda>e. e \<noteq> RpcCancelled \<and> (e = RpcTimeout \<longrightarrow> limit \<noteq> None)) evs"

definition execute_collect ::
  "(json \<Rightarrow> string) \<Rightarrow> os \<Rightarrow> execute_options \<Rightarrow> nat option \<Rightarrow> execute_run \<Rightarrow> session \<Rightarrow> ((execute_error + execute_reply) \<times> session) option" where
  "execute_collect show_json os o1 limit x ss =
     (case wait_until_runnable (xc_polls x) of
        None \<Rightarrow> None
      | Some (Inl e) \<Rightarrow> Some (Inl e, xc_before x ss)
      | Some (Inr _) \<Rightarrow>
          (case execute_begin (xc_now x) (xc_msg_id x) (xc_send_error x) o1 (xc_before x ss) of
             (Inl e, ss) \<Rightarrow> Some (Inl e, ss)
           | (Inr _, ss) \<Rightarrow>
               map_option (\<lambda>result. (result, execute_end os (xc_msg_id x) (xc_interrupt_id x) result (xc_meanwhile x ss)))
                 (collect_execution_output show_json (possible_events limit (xc_events x)) (collector_new None))))"

definition handle_execute_code ::
  "(json \<Rightarrow> string) \<Rightarrow> os \<Rightarrow> auth_data option \<Rightarrow> string \<Rightarrow> execute_request \<Rightarrow> execute_run \<Rightarrow> 'm server \<Rightarrow>
     (waiting_response \<times> 'm server) option" where
  "handle_execute_code show_json os auth i q x = with_session auth i (\<lambda>k sv.
     case execute_collect show_json os (request_options q) (request_timeout q) x (kn_ctl k) of
       None \<Rightarrow> None
     | Some (result, ctl) \<Rightarrow> map_option (\<lambda>resp. (resp, put_session i ctl sv)) (execute_response q result))"


section \<open>Lemmas\<close>

lemma set_status_starting:
  assumes "set_status cwd now Starting reason s = Some s'"
  shows "ks_status s' = Starting" and "ks_env_vars s' = ks_env_vars s" and "ks_working_directory s' = ks_working_directory s"
  using assms by (auto simp: set_status_def enter_status_def Let_def split: if_splits option.splits)

lemma prepare_connection_frame:
  assumes "prepare_connection host c reserved s = (x, reserved', s')"
  shows "ks_status s' = ks_status s" and "ks_env_vars s' = ks_env_vars s" and "ks_working_directory s' = ks_working_directory s"
  using assms by (auto simp: prepare_connection_def update_connection_file_def split: if_splits sum.splits prod.splits option.splits)

lemma resolve_environment_frame:
  "resolve_environment vars i model mcp s = (e, s') \<Longrightarrow> ks_status s' = ks_status s \<and> ks_working_directory s' = ks_working_directory s"
  by (auto simp: resolve_environment_def Let_def)

lemma resolve_environment_cong:
  "ks_env_vars s = ks_env_vars t \<Longrightarrow> fst (resolve_environment vars i model mcp s) = fst (resolve_environment vars i model mcp t)"
  by (simp add: resolve_environment_def Let_def)

lemma spawn_frame:
  "spawn_kernel_process host s = (Done u, s') \<Longrightarrow> ks_status s' = ks_status s \<and> (\<exists>pid. on_spawn host = Inr pid \<and> ks_process_id s' = pid)"
  by (auto simp: spawn_kernel_process_def split: sum.splits prod.splits option.splits)

text \<open>The steps of a start that got as far as the process.\<close>

lemma start_begin_Done:
  assumes "start_begin host mcp model c reserved s = (Done (co, la), reserved', s')"
  obtains path argv program args cwd where
    "ns_argv model \<noteq> []" and "argv = substitute_connection_file (ns_argv model) path"
    and "kernel_command host model argv (ks_working_directory s) = Inr (co, program, args, cwd)"
    and "la = \<lparr>la_program = program, la_args = args, la_dir = cwd,
      la_env = process_env host (fst (resolve_environment (on_vars host) (kc_session_id c) model mcp s))\<rparr>"
    and "ks_status s' = Starting" and "\<exists>pid. on_spawn host = Inr pid \<and> ks_process_id s' = pid"
proof -
  have argv: "ns_argv model \<noteq> []"
    using assms by (auto simp: start_begin_def validate_startup_def)
  obtain s1 where s1: "set_status (on_cwd host) (on_now host) Starting (Some ''start API called'') s = Some s1"
    using assms argv by (cases "set_status (on_cwd host) (on_now host) Starting (Some ''start API called'') s")
      (auto simp: start_begin_def validate_startup_def)
  obtain x res2 s2 where s2: "prepare_connection host c reserved s1 = (x, res2, s2)"
    using prod_cases3 by blast
  obtain path where path: "x = Inr path"
    using assms argv s1 s2 by (cases x) (auto simp: start_begin_def validate_startup_def Let_def)
  obtain e s3 where s3: "resolve_environment (on_vars host) (kc_session_id c) model mcp s2 = (e, s3)"
    by fastforce
  let ?argv = "substitute_connection_file (ns_argv model) path"
  obtain co' program args cwd where cmd: "kernel_command host model ?argv (ks_working_directory s1) = Inr (co', program, args, cwd)"
    using assms argv s1 s2 path s3
    by (cases "kernel_command host model ?argv (ks_working_directory s1)") (auto simp: start_begin_def validate_startup_def Let_def)
  obtain y s4 where s4: "spawn_kernel_process host s3 = (y, s4)"
    by fastforce
  have fin: "y = Done ()" "co = co'" "la = \<lparr>la_program = program, la_args = args, la_dir = cwd, la_env = process_env host e\<rparr>" "s' = s4"
    using assms argv s1 s2 path s3 cmd s4 by (cases y; auto simp: start_begin_def validate_startup_def Let_def)+
  have "fst (resolve_environment (on_vars host) (kc_session_id c) model mcp s) = e"
    using resolve_environment_cong [of s2 s] prepare_connection_frame(2) [OF s2] set_status_starting(2) [OF s1] s3 by (metis fst_conv)
  then show ?thesis
    using that [OF argv refl, of path program args cwd] cmd fin set_status_starting [OF s1] prepare_connection_frame [OF s2]
      resolve_environment_frame [OF s3] spawn_frame [of host s3 "()" s4] s4 by auto
qed


lemma start_begin_Fail:
  assumes "start_begin host mcp model c reserved s = (Fail e, reserved', s')" and "ns_argv model \<noteq> []" and "on_spawn host = Inr pid"
  shows "ks_status s' = Starting"
proof -
  obtain s1 where s1: "set_status (on_cwd host) (on_now host) Starting (Some ''start API called'') s = Some s1"
    using assms(1,2) by (cases "set_status (on_cwd host) (on_now host) Starting (Some ''start API called'') s")
      (auto simp: start_begin_def validate_startup_def)
  obtain x res2 s2 where s2: "prepare_connection host c reserved s1 = (x, res2, s2)"
    using prod_cases3 by blast
  obtain env s3 where s3: "resolve_environment (on_vars host) (kc_session_id c) model mcp s2 = (env, s3)"
    by fastforce
  have "ks_status s2 = Starting" "ks_status s3 = Starting"
    using set_status_starting [OF s1] prepare_connection_frame [OF s2] resolve_environment_frame [OF s3] by simp_all
  moreover have "s' = s2 \<or> s' = s3"
    using assms s1 s2 s3
    by (auto simp: start_begin_def validate_startup_def Let_def spawn_kernel_process_def split: sum.splits)
  ultimately show ?thesis
    by auto
qed

lemma await_handshake_status:
  assumes "await_handshake host c co r s = (x, s')" and "\<forall>t. ks_status (sr_meanwhile r t) = ks_status t"
  shows "ks_status s' = ks_status s"
  using assms
  by (auto simp: await_handshake_def wait_for_handshake_def handle_handshake_result_def update_connection_file_def Let_def
      split: if_splits sum.splits handshake_wake.splits option.splits prod.splits)

lemma start_end_Fail:
  assumes "start_end host c co r s = (Fail e, s')" and "\<forall>t. ks_status (sr_meanwhile r t) = ks_status t"
    and "\<forall>t. ks_status (sr_later r t) = ks_status t"
  shows "ks_status s' = ks_status s"
proof -
  obtain x t where t: "await_handshake host c co r s = (x, t)"
    by fastforce
  have "s' = t \<or> s' = sr_later r t"
    using assms(1) t by (auto simp: start_end_def Let_def split: sum.splits option.splits)
  then show ?thesis
    using await_handshake_status [OF t assms(2)] assms(3) by auto
qed

lemma set_kernel_info_frame [simp]: "ks_status (set_kernel_info v s) = ks_status s" "ks_kernel_info (set_kernel_info v s) = Some v"
  by (simp_all add: set_kernel_info_def)

lemma set_prompts_frame [simp]: "ks_status (set_prompts p s) = ks_status s" "ks_kernel_info (set_prompts p s) = ks_kernel_info s"
  by (simp_all add: set_prompts_def Let_def split: option.splits)

lemma handle_kernel_info_Some:
  assumes "handle_kernel_info cwd now info s = Some s'"
  shows "ks_kernel_info s' = Some info \<and>
    ks_status s' = (if ks_status s \<in> {Uninitialized, Starting, Ready} then Idle else ks_status s)"
proof -
  have idle: "ks_status t' = Idle \<and> ks_kernel_info t' = ks_kernel_info t"
    if "set_status cwd now Idle (Some ''kernel_info_reply received'') t = Some t'" "ks_status t \<noteq> Exited" for t t'
    using that by (auto simp: set_status_def enter_status_def nudge_idle_def Let_def split: if_splits option.splits)
  show ?thesis
    using assms idle [of "set_kernel_info info s"]
    by (auto simp: handle_kernel_info_def Let_def split: if_splits option.splits)
qed

section \<open>Properties\<close>

text \<open>
  C12. A start that succeeds has done everything: the kernel has said what it is and this is what the
  session reports, the session has left the starting state, its process is known, and the process was
  given the credential of the session's own workspace and no other.
\<close>

theorem started_kernel_ready:
  assumes "kernel_start host mcp model c r reserved s = (Done info, la, reserved', s')"
  shows "sr_received r = Inr (Connected info) \<and> ks_kernel_info s' = Some info \<and>
    ks_status s' \<notin> {Uninitialized, Starting, Ready} \<and> (\<exists>pid. on_spawn host = Inr pid) \<and>
    (\<exists>l. la = Some l \<and>
       la_env l MCP_URL_VAR = map_option (\<lambda>(port, w, _). session_endpoint_url port w (kc_session_id c)) (own_endpoint (kc_session_id c) model mcp) \<and>
       la_env l MCP_TOKEN_VAR = map_option (\<lambda>(_, _, t). t) (own_endpoint (kc_session_id c) model mcp))"
proof -
  obtain co l s1 where b: "start_begin host mcp model c reserved s = (Done (co, l), reserved', s1)" and la: "la = Some l"
    and e: "start_end host c co r s1 = (Done info, s')"
    using assms by (auto simp: kernel_start_def split: prod.splits outcome.splits)
  obtain t where t: "process_startup_result co (sr_received r) = Inr info"
      "handle_kernel_info (on_cwd host) (on_now host) info t = Some s'"
    using e by (auto simp: start_end_def Let_def split: prod.splits sum.splits option.splits)
  have "sr_received r = Inr (Connected info)"
    using t(1) by (auto simp: process_startup_result_def split: sum.splits startup_status.splits)
  moreover have "la_env l MCP_URL_VAR = map_option (\<lambda>(port, w, _). session_endpoint_url port w (kc_session_id c)) (own_endpoint (kc_session_id c) model mcp)"
      "la_env l MCP_TOKEN_VAR = map_option (\<lambda>(_, _, t). t) (own_endpoint (kc_session_id c) model mcp)"
      "\<exists>pid. on_spawn host = Inr pid"
  proof -
    let ?e = "fst (resolve_environment (on_vars host) (kc_session_id c) model mcp s)"
    have "la_env l = process_env host ?e" and "\<exists>pid. on_spawn host = Inr pid"
      using b by (auto elim!: start_begin_Done)
    moreover have "?e MCP_URL_VAR = map_option (\<lambda>(port, w, _). session_endpoint_url port w (kc_session_id c)) (own_endpoint (kc_session_id c) model mcp)"
        "?e MCP_TOKEN_VAR = map_option (\<lambda>(_, _, t). t) (own_endpoint (kc_session_id c) model mcp)"
      using apply_mcp_endpoint var_names by (simp_all add: resolve_environment_def Let_def)
    ultimately show "la_env l MCP_URL_VAR = map_option (\<lambda>(port, w, _). session_endpoint_url port w (kc_session_id c)) (own_endpoint (kc_session_id c) model mcp)"
        "la_env l MCP_TOKEN_VAR = map_option (\<lambda>(_, _, t). t) (own_endpoint (kc_session_id c) model mcp)"
        "\<exists>pid. on_spawn host = Inr pid"
      using var_names by (auto simp: process_env_def map_add_def split: option.splits)
  qed
  ultimately show ?thesis
    using handle_kernel_info_Some [OF t(2)] la by auto
qed

definition demo_host :: start_host where
  "demo_host = \<lparr>on_now = 5, on_cwd = (\<lambda>_. None), on_tmp = ''/tmp'', on_registration = Inr 7000, on_write_error = None,
     on_ports = (\<lambda>_. (None, None)), on_vars = Map.empty, on_shell = None, on_metadata = (\<lambda>_. Inl []), on_is_dir = (\<lambda>_. Some True),
     on_spawn = Inr (Some 42), on_recv_error = ''closed''\<rparr>"

definition demo_connection :: "string kernel_connection" where
  "demo_connection = (sample_connection (Some ''k''))\<lparr>kc_protocol_version := ''5.5''\<rparr>"

definition demo_run :: "handshake_wake \<Rightarrow> start_run" where
  "demo_run wake = \<lparr>sr_meanwhile = id, sr_wake = wake, sr_later = id, sr_received = Inr (Connected (JObject []))\<rparr>"

definition demo_shaken :: handshake_wake where
  "demo_shaken = HandshakeEnded (Some \<lparr>hs_request = demo_request, hs_status = HandshakeOk\<rparr>)"

lemma demo_shakes: "requires_handshaking (kc_protocol_version demo_connection)"
  by (simp add: demo_connection_def requires_handshaking_def supports_handshaking_def parse_uint_def digit_of_def digits_value_def)

lemmas demo_start_simps =
  demo_shakes kernel_start_def start_begin_def start_end_def validate_startup_def prepare_connection_def
  setup_registration_socket_def await_handshake_def wait_for_handshake_def kernel_command_def build_command_def
  spawn_kernel_process_def resolve_environment_def set_status_def enter_status_def ws_send_def chan_send_def
  demo_host_def demo_run_def sample_session_def sample_state_def state_new_def chan_new_def Let_def

lemma demo_started:
  "\<exists>la res st. kernel_start demo_host mcp sample_session demo_connection (demo_run demo_shaken) [] sample_state = (Done (JObject []), la, res, st)"
proof -
  have "fst (kernel_start demo_host mcp sample_session demo_connection (demo_run demo_shaken) [] sample_state) = Done (JObject [])"
    by (simp add: demo_start_simps demo_shaken_def handle_handshake_result_def handshake_connection_def get_connection_file_def
        update_connection_file_def process_startup_result_def handle_kernel_info_def set_kernel_info_def nudge_idle_def
        chan_try_def split: option.splits)
  then show ?thesis
    by (metis prod_cases4 fst_conv)
qed

theorem started_kernel_ready_witness:
  "\<exists>la res st. kernel_start demo_host None sample_session demo_connection (demo_run demo_shaken) [] sample_state =
     (Done (JObject []), la, res, st) \<and> ks_status st \<notin> {Uninitialized, Starting, Ready} \<and> ks_kernel_info st = Some (JObject [])"
proof -
  obtain la res st where
    k: "kernel_start demo_host None sample_session demo_connection (demo_run demo_shaken) [] sample_state = (Done (JObject []), la, res, st)"
    using demo_started by blast
  show ?thesis
    using started_kernel_ready [OF k] k by auto
qed


definition demo_server :: "kernel_state \<Rightarrow> string server" where
  "demo_server st = sample_server\<lparr>sv_token := None, sv_sessions := [\<lparr>kn_model = sample_session, kn_connection = demo_connection, kn_started = 0,
     kn_ctl = \<lparr>ss_state = st, ss_zmq_tx = chan_new, ss_interrupt_mode = SignalMode\<rparr>\<rparr>]\<rparr>"


text \<open>
  A restart starts the kernel anew with what was asked for: the new process is started in the requested
  directory and with the requested changes to the environment.
\<close>

theorem restart_uses_new_settings:
  assumes "restart_request os mid (Some d) (Some vars) ss = (Done (), ss1)" and "requested_directory os (Some d) = Some dir"
    and "ks_restarting (ss_state (exited ss1))" and "ks_working_directory (ss_state (exited ss1)) = ks_working_directory (ss_state ss1)"
    and "ks_env_vars (ss_state (exited ss1)) = ks_env_vars (ss_state ss1)" and "on_is_dir host dir = Some True" and "dir \<noteq> []"
    and "kernel_restart host os mcp model c mid (Some d) (Some vars) exited r reserved ss = (res, Some l, reserved', ss')"
  shows "la_dir l = Some dir \<and>
    (\<forall>v. v \<noteq> MCP_URL_VAR \<and> v \<noteq> MCP_TOKEN_VAR \<longrightarrow>
       la_env l v = (case var_result vars v (on_vars host v) of Some x \<Rightarrow> Some x | None \<Rightarrow> on_vars host v))"
proof -
  have set1: "ks_working_directory (ss_state ss1) = dir" "ks_env_vars (ss_state ss1) = vars"
    using assms(1,2) by (auto simp: restart_request_def Let_def zmq_send_def split: if_splits option.splits)
  let ?st = "(ss_state (exited ss1))\<lparr>ks_restarting := False\<rparr>"
  obtain x st where start: "kernel_start host mcp model c r reserved ?st = (x, Some l, reserved', st)"
    using assms(1,3,8) by (auto simp: kernel_restart_def exit_signalled_def Let_def split: prod.splits outcome.splits)
  then obtain co s1 where b: "start_begin host mcp model c reserved ?st = (Done (co, l), reserved', s1)"
    by (auto simp: kernel_start_def split: prod.splits outcome.splits)
  have "la_dir l = Some dir \<and> la_env l = process_env host (fst (resolve_environment (on_vars host) (kc_session_id c) model mcp ?st))"
    using b
  proof (rule start_begin_Done)
    fix path argv program args cwd
    assume "kernel_command host model argv (ks_working_directory ?st) = Inr (co, program, args, cwd)"
      and "l = \<lparr>la_program = program, la_args = args, la_dir = cwd,
        la_env = process_env host (fst (resolve_environment (on_vars host) (kc_session_id c) model mcp ?st))\<rparr>"
    then show ?thesis
      using assms(4,6,7) set1(1) by (auto simp: kernel_command_def Let_def split: sum.splits option.splits)
  qed
  then show ?thesis
    using assms(5) set1(2) apply_mcp_endpoint
    by (auto simp: process_env_def resolve_environment_def Let_def resolve_def resolver_new_def apply_var_actions_at map_add_def
        split: option.splits)
qed


definition demo_os :: os where
  "demo_os = \<lparr>os_cwd = (\<lambda>_. None), os_home = None, os_canonicalize = Some, os_is_dir = (\<lambda>_. Some True), os_interrupt = (\<lambda>_. True),
     os_send_error = []\<rparr>"

definition demo_session :: session where
  "demo_session = \<lparr>ss_state = sample_state, ss_zmq_tx = chan_new, ss_interrupt_mode = SignalMode\<rparr>"

definition demo_vars :: "var_action list" where
  "demo_vars = [\<lparr>action = Replace, var_name = ''A'', var_value = ''1''\<rparr>]"

theorem restart_uses_new_settings_witness:
  "\<exists>res l reserved ss. kernel_restart demo_host demo_os None sample_session demo_connection ''m'' (Some ''/w'') (Some demo_vars) id
     (demo_run demo_shaken) [] demo_session = (res, Some l, reserved, ss) \<and> la_dir l = Some ''/w'' \<and> la_env l ''A'' = Some ''1''"
proof -
  let ?k = "kernel_restart demo_host demo_os None sample_session demo_connection ''m'' (Some ''/w'') (Some demo_vars) id (demo_run demo_shaken) [] demo_session"
  let ?r = "restart_request demo_os ''m'' (Some ''/w'') (Some demo_vars) demo_session"
  have dir: "requested_directory demo_os (Some ''/w'') = Some ''/w''"
    by code_simp
  obtain ss1 where r: "?r = (Done (), ss1)" and on: "ks_restarting (ss_state ss1)"
    using dir by (simp add: restart_request_def Let_def zmq_send_def chan_send_def demo_session_def sample_state_def state_new_def chan_new_def)
  have "case ?k of (_, Some l, _, _) \<Rightarrow> True | _ \<Rightarrow> False"
    using dir by (simp add: kernel_restart_def restart_request_def zmq_send_def exit_signalled_def demo_session_def demo_start_simps
        split: prod.splits outcome.splits)
  then obtain res l reserved ss where k: "?k = (res, Some l, reserved, ss)"
    by (auto split: prod.splits option.splits)
  have "on_is_dir demo_host ''/w'' = Some True" "var_result demo_vars ''A'' (on_vars demo_host ''A'') = Some ''1''"
      "''A'' \<noteq> MCP_URL_VAR" "''A'' \<noteq> MCP_TOKEN_VAR"
    by code_simp+
  then show ?thesis
    using restart_uses_new_settings [OF r dir, of id demo_host None sample_session demo_connection "demo_run demo_shaken" "[]"] on k by auto
qed

lemma possible_events_end:
  assumes "collect_execution_output show_json (possible_events limit evs) co = Some (Inl e)"
  shows "e \<noteq> Cancelled \<and> (e = Timeout \<longrightarrow> limit \<noteq> None)"
  using assms
proof (induction evs arbitrary: co)
  case (Cons ev evs)
  then show ?case
    by (cases ev) (auto simp: possible_events_def split: prod.splits bool.splits if_splits)
qed (simp add: possible_events_def)

text \<open>
  An execution asked for over the API is answered as it ended: a reply that came is returned, each way
  to fail has its own answer, and the call is never answered by a panic. Without a limit it does not time out.
\<close>

theorem api_execution_answered:
  assumes "validate_token sv auth" and "find_session i sv = Some k"
    and "execute_collect show_json os (request_options q) (request_timeout q) x (kn_ctl k) = Some (result, ctl)"
  shows "\<exists>resp. handle_execute_code show_json os auth i q x sv = Some (resp, put_session i ctl sv) \<and>
    (\<forall>reply. result = Inr reply \<longleftrightarrow> resp = ExecutionCompleted reply) \<and>
    ((\<exists>e. resp = ExecutionTimedOut e) \<longleftrightarrow> result = Inl Timeout) \<and>
    (result = Inl Timeout \<longrightarrow> xr_timeout_seconds q \<noteq> None)"
proof -
  note collect = possible_events_end [of show_json "request_timeout q"]
  have begin_error: "execute_begin now mid se o1 ss = (Inl e, ss') \<Longrightarrow> e = SendFailed se" for now mid se o1 ss e ss'
    by (auto simp: execute_begin_def Let_def split: option.splits)
  have wait_error: "wait_until_runnable polls = Some (Inl e) \<Longrightarrow> \<exists>t. e = NotReady t" for polls e
    by (induction polls rule: wait_until_runnable.induct) (auto split: if_splits)
  have "result \<noteq> Inl Cancelled \<and> (result = Inl Timeout \<longrightarrow> request_timeout q \<noteq> None)"
    using assms(3)
    by (auto simp: execute_collect_def split: option.splits sum.splits prod.splits dest: collect begin_error wait_error)
  moreover have "request_timeout q \<noteq> None \<longrightarrow> xr_timeout_seconds q \<noteq> None"
    by (auto simp: request_timeout_def split: option.splits)
  ultimately show ?thesis
    using assms by (auto simp: handle_execute_code_def with_session_def execute_response_def Let_def split: sum.splits execute_error.splits)
qed


definition demo_execution :: execute_run where
  "demo_execution = \<lparr>xc_polls = [(Starting, False), (Idle, False)], xc_before = id, xc_now = 3, xc_msg_id = ''m'', xc_send_error = [],
     xc_meanwhile = id, xc_events = [RpcTimeout, RpcClosed], xc_interrupt_id = ''i''\<rparr>"

definition demo_code :: execute_request where
  "demo_code = \<lparr>xr_code = ''1'', xr_silent = None, xr_store_history = None, xr_stop_on_error = None, xr_timeout_seconds = None\<rparr>"

theorem api_execution_answered_witness:
  "\<exists>resp sv. handle_execute_code (\<lambda>_. []) demo_os None ''s'' demo_code demo_execution (demo_server sample_state) = Some (resp, sv) \<and>
     (\<forall>e. resp \<noteq> ExecutionTimedOut e)"
proof -
  let ?k = "hd (sv_sessions (demo_server sample_state))"
  have token: "validate_token (demo_server sample_state) None"
    by (simp add: validate_token_def demo_server_def)
  have found: "find_session ''s'' (demo_server sample_state) = Some ?k"
    by (simp add: find_session_def demo_server_def session_id_def demo_connection_def sample_connection_def)
  have "\<exists>ctl. execute_collect (\<lambda>_. []) demo_os (request_options demo_code) (request_timeout demo_code) demo_execution (kn_ctl ?k) =
      Some (Inl ChannelClosed, ctl)"
    by (simp add: execute_collect_def demo_execution_def possible_events_def request_timeout_def demo_code_def execute_begin_def
        zmq_send_def chan_send_def set_listener_def demo_server_def chan_new_def request_options_def Let_def)
  then obtain ctl where ends: "execute_collect (\<lambda>_. []) demo_os (request_options demo_code) (request_timeout demo_code) demo_execution
      (kn_ctl ?k) = Some (Inl ChannelClosed, ctl)" ..
  show ?thesis
    using api_execution_answered [OF token found ends] by auto
qed

lemma state_ok_frame [simp]:
  "state_ok (s\<lparr>ks_connection_file := a\<rparr>) = state_ok s" "state_ok (s\<lparr>ks_resolved_env := b\<rparr>) = state_ok s"
  "state_ok (s\<lparr>ks_process_id := p\<rparr>) = state_ok s" "state_ok (s\<lparr>ks_ws_json_tx := d\<rparr>) = state_ok s"
  "state_ok (s\<lparr>ks_kernel_info := e\<rparr>) = state_ok s" "state_ok (s\<lparr>ks_input_prompt := f\<rparr>) = state_ok s"
  "state_ok (s\<lparr>ks_continuation_prompt := g\<rparr>) = state_ok s"
  by (simp_all add: state_ok_def timers_ok_def)

lemma prepare_connection_ok: "prepare_connection host c reserved s = (x, reserved', s') \<Longrightarrow> state_ok s' = state_ok s"
  by (auto simp: prepare_connection_def update_connection_file_def split: if_splits sum.splits prod.splits option.splits)

lemma resolve_environment_ok: "resolve_environment vars i model mcp s = (e, s') \<Longrightarrow> state_ok s' = state_ok s"
  by (auto simp: resolve_environment_def Let_def)

lemma spawn_ok: "spawn_kernel_process host s = (x, s') \<Longrightarrow> state_ok s \<Longrightarrow> state_ok s'"
  by (auto simp: spawn_kernel_process_def split: sum.splits prod.splits option.splits intro: set_status_ok)

lemma start_begin_ok:
  assumes "state_ok s" and "start_begin host mcp model c reserved s = (x, reserved', s')"
  shows "state_ok s'"
proof (cases "set_status (on_cwd host) (on_now host) Starting (Some ''start API called'') s")
  case None
  then show ?thesis
    using assms by (auto simp: start_begin_def split: sum.splits)
next
  case (Some s1)
  obtain y res2 s2 where s2: "prepare_connection host c reserved s1 = (y, res2, s2)"
    using prod_cases3 by blast
  obtain e s3 where s3: "resolve_environment (on_vars host) (kc_session_id c) model mcp s2 = (e, s3)"
    by fastforce
  obtain z s4 where s4: "spawn_kernel_process host s3 = (z, s4)"
    by fastforce
  have "s' \<in> {s, s2, s3, s4}"
    using assms(2) Some s2 s3 s4 by (auto simp: start_begin_def Let_def split: sum.splits outcome.splits)
  then show ?thesis
    using assms(1) set_status_ok [OF assms(1) Some] prepare_connection_ok [OF s2] resolve_environment_ok [OF s3] spawn_ok [OF s4] by auto
qed

definition keeps_ok :: "(kernel_state \<Rightarrow> kernel_state) \<Rightarrow> bool" where
  "keeps_ok f \<longleftrightarrow> (\<forall>s. state_ok s \<longrightarrow> state_ok (f s))"

lemma await_handshake_ok:
  "await_handshake host c co r s = (x, s') \<Longrightarrow> state_ok s \<Longrightarrow> keeps_ok (sr_meanwhile r) \<Longrightarrow> state_ok s'"
  by (auto simp: await_handshake_def wait_for_handshake_def handle_handshake_result_def update_connection_file_def Let_def keeps_ok_def
      split: if_splits sum.splits handshake_wake.splits option.splits prod.splits)

lemma set_prompts_ok [simp]: "state_ok (set_prompts p s) = state_ok s"
  by (simp add: set_prompts_def Let_def split: option.splits)

lemma handle_kernel_info_ok: "handle_kernel_info cwd now info s = Some s' \<Longrightarrow> state_ok s \<Longrightarrow> state_ok s'"
  using set_status_ok [of "set_kernel_info info s" cwd now Idle "Some ''kernel_info_reply received''"]
  by (auto simp: handle_kernel_info_def Let_def set_kernel_info_def split: if_splits option.splits)

lemma start_end_ok:
  assumes "start_end host c co r s = (x, s')" and "state_ok s" and "keeps_ok (sr_meanwhile r)" and "keeps_ok (sr_later r)"
  shows "state_ok s'"
proof -
  obtain y t where t: "await_handshake host c co r s = (y, t)"
    by fastforce
  have ok: "state_ok t" "state_ok (sr_later r t)"
    using await_handshake_ok [OF t] assms(2-4) by (auto simp: keeps_ok_def)
  then show ?thesis
    using assms(1) t handle_kernel_info_ok by (auto simp: start_end_def Let_def split: sum.splits option.splits)
qed

text \<open>
  C14. A start keeps the server sound, whatever its outcome and whatever the other tasks do to the session
  while it waits, as long as they keep its state sound.
\<close>

theorem start_keeps_server_sound:
  assumes "server_ok sv" and "keeps_ok (sr_meanwhile r)" and "keeps_ok (sr_later r)"
    and "start_session host auth i r sv = Some (resp, sv')"
  shows "server_ok sv' \<and> ids sv' = ids sv"
proof -
  have start: "state_ok st" if "kernel_start host mcp model c r reserved s = (x, la, reserved', st)" and ok: "state_ok s"
    for mcp model and c :: "'a kernel_connection" and reserved s x la reserved' st
  proof (cases "start_begin host mcp model c reserved s")
    case (fields y res1 s1)
    then have s1: "state_ok s1"
      using start_begin_ok [OF ok] by blast
    show ?thesis
      using that(1) fields s1 start_end_ok assms(2,3)
      by (cases y) (auto simp: kernel_start_def split: prod.splits)
  qed
  have keep: "server_ok (put_state i k st (sv\<lparr>sv_reserved := reserved\<rparr>)) \<and> ids (put_state i k st (sv\<lparr>sv_reserved := reserved\<rparr>)) = ids sv"
    if "state_ok st" for k st reserved
    using server_ok_put [of "sv\<lparr>sv_reserved := reserved\<rparr>" "(kn_ctl k)\<lparr>ss_state := st\<rparr>" i] assms(1) that
    by (auto simp: put_state_def ids_def put_session_def session_id_def intro!: map_update_first)
  show ?thesis
  proof (cases "validate_token sv auth \<and> find_session i sv \<noteq> None")
    case True
    then obtain k where k: "find_session i sv = Some k"
      by auto
    obtain x la reserved st where x: "kernel_start host (Some (sv_mcp sv)) (kn_model k) (kn_connection k) r (sv_reserved sv) (kn_state k) =
        (x, la, reserved, st)"
      using prod_cases4 by blast
    have "state_ok st"
      using start [OF x] assms(1) find_session_Some [OF k] by (auto simp: server_ok_def)
    then have "sv' = put_state i k st (sv\<lparr>sv_reserved := reserved\<rparr>)"
      using assms(4) True k x by (cases x) (auto simp: start_session_def with_session_def)
    then show ?thesis
      using keep \<open>state_ok st\<close> by simp
  next
    case False
    then have "sv' = sv"
      using assms(4) by (auto simp: start_session_def with_session_def split: option.splits if_splits)
    then show ?thesis
      using assms(1) by simp
  qed
qed

theorem start_keeps_server_sound_witness:
  "\<exists>resp sv. start_session demo_host None ''s'' (demo_run demo_shaken) (demo_server sample_state) = Some (resp, sv) \<and> server_ok sv"
proof -
  have ok: "server_ok (demo_server sample_state)"
    using state_new_ok by (simp add: server_ok_def ids_def demo_server_def kn_state_def sample_state_def)
  have keeps: "keeps_ok (sr_meanwhile (demo_run demo_shaken))" "keeps_ok (sr_later (demo_run demo_shaken))"
    by (simp_all add: demo_run_def keeps_ok_def)
  obtain la res st where
    k: "kernel_start demo_host (Some (sv_mcp (demo_server sample_state))) sample_session demo_connection (demo_run demo_shaken) [] sample_state =
      (Done (JObject []), la, res, st)"
    using demo_started by blast
  have "find_session ''s'' (demo_server sample_state) = Some (hd (sv_sessions (demo_server sample_state)))"
    by (simp add: find_session_def demo_server_def session_id_def demo_connection_def sample_connection_def)
  moreover have "validate_token (demo_server sample_state) None" "sv_reserved (demo_server sample_state) = []"
      "kn_model (hd (sv_sessions (demo_server sample_state))) = sample_session" "kn_connection (hd (sv_sessions (demo_server sample_state))) = demo_connection"
      "kn_state (hd (sv_sessions (demo_server sample_state))) = sample_state"
    by (simp_all add: validate_token_def demo_server_def kn_state_def sample_server_def)
  ultimately obtain sv where r: "start_session demo_host None ''s'' (demo_run demo_shaken) (demo_server sample_state) = Some (Started (JObject []), sv)"
    using k by (auto simp: start_session_def with_session_def)
  show ?thesis
    using start_keeps_server_sound [OF ok keeps r] r by auto
qed

text \<open>
  An adopted kernel is spoken to with its own key: the proxy signs and checks with the key of the
  connection the client hands over, never with the one the session was created with, and not at all if
  that key is empty.
\<close>

theorem adopted_kernel_uses_given_key:
  assumes "connect_begin cd err cf c s = (Inr c', s')"
  shows "ks_connection_file s' = Some cf \<and> kc_session_id c' = kc_session_id c \<and>
    (if info_key (cf_info cf) = [] then kc_key c' = None \<and> kc_hmac_key c' = None
     else kc_key c' = Some (info_key (cf_info cf)) \<and> kc_hmac_key c' = mac_new cd (info_key (cf_info cf)) \<and> kc_hmac_key c' \<noteq> None)"
  using assms by (auto simp: connect_begin_def with_key_def update_connection_file_def Let_def split: option.splits if_splits)

theorem adopted_kernel_uses_given_key_witness:
  "\<exists>c'. fst (connect_begin (table_codec []) [] \<lparr>cf_info = \<lparr>control_port = 1, shell_port = 2, stdin_port = 3, hb_port = 4, iopub_port = 5,
       signature_scheme = ''hmac-sha256'', info_key = ''other'', transport = ''tcp'', ip = ''127.0.0.1''\<rparr>\<rparr>
     (sample_connection (Some ''k'')) sample_state) = Inr c' \<and> kc_key c' = Some ''other''"
proof -
  let ?cf = "\<lparr>cf_info = \<lparr>control_port = 1, shell_port = 2, stdin_port = 3, hb_port = 4, iopub_port = 5,
       signature_scheme = ''hmac-sha256'', info_key = ''other'', transport = ''tcp'', ip = ''127.0.0.1''\<rparr>\<rparr>"
  obtain c' s' where c: "connect_begin (table_codec []) [] ?cf (sample_connection (Some ''k'')) sample_state = (Inr c', s')"
    by (simp add: connect_begin_def with_key_def table_codec_def Let_def)
  then show ?thesis
    using adopted_kernel_uses_given_key [OF c] by simp
qed


text \<open>
  However the proxy of an adopted kernel ends, even before it was connected, the session is marked as exited
  and the client is told.
\<close>

lemma adopted_end_reported:
  assumes "ch_open (ks_ws_json_tx s)" and "ks_status s \<noteq> Exited" and "start_zmq_proxy limit cf run tx reserved s = (tx', reserved', s1)"
  shows "\<exists>s2. adopted_proxy_end cwd now s1 = Some s2 \<and> ks_status s2 = Exited \<and> last (ch_buf (ks_ws_json_tx s2)) = Kernel (ExitedMsg 0)"
proof -
  have "ch_open (ks_ws_json_tx s1)" "ks_status s1 \<noteq> Exited"
    using assms by (auto simp: start_zmq_proxy_def consume_output_streams_def Let_def split: proxy_run.splits)
  then show ?thesis
    by (simp add: adopted_proxy_end_def set_status_def ws_send_def chan_send_def chan_try_def enter_status_def nudge_idle_def Let_def)
qed

end
