(* ===== verification/KC_Connect.thy ===== *)
theory KC_Connect
  imports KC_Proxy KC_Start
begin

text \<open>
  \<open>ZmqWsProxy::connect\<close> (\<open>zmq_ws_proxy.rs\<close>): which sockets of a kernel the proxy connects to, in which order,
  and what is left when one of them cannot be reached. The ZeroMQ library answers through \<open>zmq_answers\<close>.
\<close>

section \<open>Connecting\<close>

datatype zmq_op =
    ConnectSocket jupyter_channel string
  | SubscribeAll
  | MonitorHeartbeat string

record zmq_answers =
  za_connect :: "string \<Rightarrow> string option"
  za_subscribe :: "string option"

definition zmq_address :: "connection_info \<Rightarrow> int \<Rightarrow> string" where
  "zmq_address info port = ''tcp://'' @ ip info @ '':'' @ show_int port"

text \<open>The calls \<open>connect\<close> makes when all goes well; the monitor was made with its address by \<open>new\<close>.\<close>

definition connect_calls :: "connection_info \<Rightarrow> zmq_op list" where
  "connect_calls info =
     [ConnectSocket Shell (zmq_address info (shell_port info)), ConnectSocket IOPub (zmq_address info (iopub_port info)),
      SubscribeAll, ConnectSocket Control (zmq_address info (control_port info)),
      ConnectSocket Stdin (zmq_address info (stdin_port info)), MonitorHeartbeat (zmq_address info (hb_port info))]"

fun call_error :: "zmq_answers \<Rightarrow> zmq_op \<Rightarrow> string option" where
  "call_error za (ConnectSocket _ a) = za_connect za a"
| "call_error za SubscribeAll = za_subscribe za"
| "call_error za (MonitorHeartbeat _) = None"

text \<open>The \<open>?\<close> after each call: the calls that succeeded, and the first error.\<close>

fun run_calls :: "zmq_answers \<Rightarrow> zmq_op list \<Rightarrow> zmq_op list \<times> string option" where
  "run_calls za [] = ([], None)"
| "run_calls za (op # ops) =
     (case call_error za op of
        Some e \<Rightarrow> ([], Some e)
      | None \<Rightarrow> (let (done_ops, e) = run_calls za ops in (op # done_ops, e)))"

definition proxy_connect :: "zmq_answers \<Rightarrow> connection_info \<Rightarrow> 'm proxy \<Rightarrow> zmq_op list \<times> string option" where
  "proxy_connect za info p =
     (if px_closed p then ([], Some ''Cannot connect; proxy is closed.'') else run_calls za (connect_calls info))"

section \<open>Properties\<close>

lemma run_calls_ok: "snd (run_calls za ops) = None \<Longrightarrow> fst (run_calls za ops) = ops"
  by (induction ops) (auto split: option.splits prod.splits)

lemma run_calls_error:
  "snd (run_calls za ops) = Some e \<Longrightarrow> \<exists>op rest. ops = fst (run_calls za ops) @ op # rest \<and> call_error za op = Some e"
proof (induction ops)
  case (Cons op ops)
  show ?case
  proof (cases "call_error za op")
    case None
    then show ?thesis
      using Cons by (fastforce split: prod.splits)
  qed (use Cons.prems in simp)
qed simp

text \<open>
  The proxy of a kernel that did the handshake connects to the ports the kernel announced: it either ends with
  all four sockets connected, everything subscribed to and the heartbeat watched at the announced port, or with the
  error of the first call that failed, and then the heartbeat is not watched and the start of the kernel reports the error.
\<close>

theorem proxy_connects_announced_ports:
  assumes "handshake_connection key (Some \<lparr>hs_request = r, hs_status = HandshakeOk\<rparr>) = Some cf" and "\<not> px_closed p"
    and "proxy_connect za (cf_info cf) p = (calls, err)"
  shows "case err of
      None \<Rightarrow> calls = map (\<lambda>(c, n). ConnectSocket c (''tcp://127.0.0.1:'' @ show_nat n)) [(Shell, hr_shell_port r), (IOPub, hr_iopub_port r)] @
        [SubscribeAll] @
        map (\<lambda>(c, n). ConnectSocket c (''tcp://127.0.0.1:'' @ show_nat n)) [(Control, hr_control_port r), (Stdin, hr_stdin_port r)] @
        [MonitorHeartbeat (''tcp://127.0.0.1:'' @ show_nat (hr_hb_port r))]
    | Some e \<Rightarrow> (\<forall>a. MonitorHeartbeat a \<notin> set calls) \<and>
        (\<exists>output s'. start_zmq_proxy limit cf (ConnectError e) tx reserved s =
           (chan_try (ConnectionFailed output (SessionConnectionFailed e)) tx, reserved, s'))"
proof (cases err)
  case None
  have "cf_info cf = \<lparr>control_port = int (hr_control_port r), shell_port = int (hr_shell_port r), stdin_port = int (hr_stdin_port r),
      hb_port = int (hr_hb_port r), iopub_port = int (hr_iopub_port r), signature_scheme = ''hmac-sha256'', info_key = key_text key,
      transport = ''tcp'', ip = ''127.0.0.1''\<rparr>"
    using assms(1) by (auto simp: handshake_connection_def)
  moreover have "calls = connect_calls (cf_info cf)"
    using run_calls_ok [of za "connect_calls (cf_info cf)"] assms(2,3) None by (simp add: proxy_connect_def)
  ultimately show ?thesis
    using None by (simp add: connect_calls_def zmq_address_def show_int_def)
next
  case (Some e)
  obtain op rest where op: "connect_calls (cf_info cf) = calls @ op # rest" "call_error za op = Some e"
    using run_calls_error [of za "connect_calls (cf_info cf)" e] assms(2,3) Some by (auto simp: proxy_connect_def)
  have "MonitorHeartbeat a \<notin> set calls" for a
  proof
    assume "MonitorHeartbeat a \<in> set calls"
    then have "MonitorHeartbeat a \<in> set (butlast (connect_calls (cf_info cf)))"
      using op by (simp add: butlast_append)
    then show False
      by (simp add: connect_calls_def)
  qed
  then show ?thesis
    using Some by (auto simp: start_zmq_proxy_def split: prod.splits)
qed

definition no_control :: zmq_answers where
  "no_control = \<lparr>za_connect = (\<lambda>a. if a = ''tcp://127.0.0.1:3'' then Some ''refused'' else None), za_subscribe = None\<rparr>"

definition five_ports :: handshake_request where
  "five_ports = demo_request\<lparr>hr_shell_port := 1, hr_iopub_port := 2, hr_control_port := 3, hr_stdin_port := 4, hr_hb_port := 5\<rparr>"

theorem proxy_connects_announced_ports_witness:
  "\<exists>cf. handshake_connection None (Some \<lparr>hs_request = five_ports, hs_status = HandshakeOk\<rparr>) = Some cf \<and>
     proxy_connect no_control (cf_info cf) (proxy_new demo_connection sample_state) =
       ([ConnectSocket Shell ''tcp://127.0.0.1:1'', ConnectSocket IOPub ''tcp://127.0.0.1:2'', SubscribeAll], Some ''refused'') \<and>
     (\<exists>output s'. start_zmq_proxy None cf (ConnectError ''refused'') chan_new [] sample_state =
        (chan_try (ConnectionFailed output (SessionConnectionFailed ''refused'')) chan_new, [], s'))"
proof -
  let ?p = "proxy_new demo_connection sample_state"
  obtain cf where cf: "handshake_connection None (Some \<lparr>hs_request = five_ports, hs_status = HandshakeOk\<rparr>) = Some cf"
    by (simp add: handshake_connection_def)
  have digits: "show_nat 1 = ''1''" "show_nat 2 = ''2''" "show_nat 3 = ''3''" "show_nat (Suc 0) = ''1''"
    by code_simp+
  have c: "proxy_connect no_control (cf_info cf) ?p =
      ([ConnectSocket Shell ''tcp://127.0.0.1:1'', ConnectSocket IOPub ''tcp://127.0.0.1:2'', SubscribeAll], Some ''refused'')"
    using cf by (auto simp: handshake_connection_def proxy_connect_def proxy_new_def connect_calls_def zmq_address_def show_int_def
        digits five_ports_def no_control_def)
  have o: "\<not> px_closed ?p"
    by (simp add: proxy_new_def)
  show ?thesis
    using proxy_connects_announced_ports [OF cf o c, of None chan_new "[]" sample_state] cf c by auto
qed

end
