(* ===== verification/KC_Models.thy ===== *)
theory KC_Models
  imports KC_Start
begin

text \<open>
  The models of the API as they travel: what the derived \<open>Serialize\<close> writes for each type of
  \<open>models.rs\<close> and what the derived \<open>Deserialize\<close> accepts, over trees of JSON. A tree is the text before
  it is interpreted: keys in the order of the text, repetitions included. The text itself, the
  rendering of times and the iteration order of hash maps are code outside the repository and are
  fields of \<open>api_lib\<close>.

  Every type has a writer \<open>_ser\<close>, a reader \<open>_de\<close> and the values \<open>_ok\<close> that survive the way: numbers
  within their width, values whose keys are sorted, and no \<open>Some(null)\<close>. Reading back what was written is
  the law of the locale \<open>serde_type\<close>, interpreted for every type.
\<close>

named_theorems serde \<open>reading back what was written, per type\<close>

section \<open>What is outside\<close>

text \<open>What the code asks of a parsed URI.\<close>

record uri_parts =
  up_scheme :: "string option"
  up_host :: "string option"
  up_port :: "nat option"
  up_path :: string

record api_lib =
  al_to_string :: "json \<Rightarrow> string"
  al_from_str :: "string \<Rightarrow> string + json"
  al_from_slice :: "string \<Rightarrow> string + json"
  al_mismatch :: "string \<Rightarrow> string \<Rightarrow> string"
  al_ignored :: "string \<Rightarrow> string \<Rightarrow> string list"
  al_show_time :: "instant \<Rightarrow> string"
  al_parse_time :: "string \<Rightarrow> instant option"
  al_map_order :: "(string \<rightharpoonup> string) \<Rightarrow> (string \<times> string) list"
  al_utf8 :: "string \<Rightarrow> bool"
  al_utf8_error :: "string \<Rightarrow> string"
  al_utf8_debug :: "string \<Rightarrow> string"
  al_percent_encode :: "(char \<Rightarrow> bool) \<Rightarrow> string \<Rightarrow> string"
  al_percent_decode :: "string \<Rightarrow> string option"
  al_uri :: "string \<Rightarrow> string + uri_parts"
  al_header_ok :: "string \<Rightarrow> bool"
  al_header_error :: string
  al_debug :: "string list \<Rightarrow> string"
  al_debug_headers :: "(string \<times> string) list \<Rightarrow> string"
  al_span_id :: "(string \<times> string) list \<Rightarrow> string"
  al_from_headers :: "(string \<times> string) list \<Rightarrow> auth_data option"

section \<open>Values\<close>

text \<open>A \<open>serde_json::Value\<close> keeps the keys of an object sorted by their bytes, the last of equal ones.\<close>

fun str_less :: "string \<Rightarrow> string \<Rightarrow> bool" where
  "str_less _ [] \<longleftrightarrow> False"
| "str_less [] (_ # _) \<longleftrightarrow> True"
| "str_less (a # s) (b # t) \<longleftrightarrow> (of_char a :: nat) < of_char b \<or> a = b \<and> str_less s t"

fun map_insert :: "string \<Rightarrow> json \<Rightarrow> (string \<times> json) list \<Rightarrow> (string \<times> json) list" where
  "map_insert k v [] = [(k, v)]"
| "map_insert k v ((k', v') # kvs) =
     (if k = k' then (k, v) # kvs
      else if str_less k k' then (k, v) # (k', v') # kvs
      else (k', v') # map_insert k v kvs)"

definition map_collect :: "(string \<times> json) list \<Rightarrow> (string \<times> json) list" where
  "map_collect kvs = fold (\<lambda>(k, v). map_insert k v) kvs []"

fun value_de :: "json \<Rightarrow> json" where
  "value_de (JArray xs) = JArray (map value_de xs)"
| "value_de (JObject kvs) = JObject (map_collect (map (\<lambda>p. (fst p, value_de (snd p))) kvs))"
| "value_de JNull = JNull"
| "value_de (JBool b) = JBool b"
| "value_de (JInt n) = JInt n"
| "value_de (JFloat f) = JFloat f"
| "value_de (JString s) = JString s"

text \<open>
  The trees that text carries exactly: integers that fit 64 bits and no floating point numbers. A tree is a
  \<open>Value\<close> when its keys are sorted and occur once.
\<close>

fun json_textual :: "json \<Rightarrow> bool" where
  "json_textual (JArray xs) \<longleftrightarrow> (\<forall>x \<in> set xs. json_textual x)"
| "json_textual (JObject kvs) \<longleftrightarrow> (\<forall>p \<in> set kvs. json_textual (snd p))"
| "json_textual JNull \<longleftrightarrow> True"
| "json_textual (JBool b) \<longleftrightarrow> True"
| "json_textual (JInt n) \<longleftrightarrow> - (2 ^ 63) \<le> n \<and> n < 2 ^ 64"
| "json_textual (JFloat f) \<longleftrightarrow> False"
| "json_textual (JString s) \<longleftrightarrow> True"

definition value_ok :: "json \<Rightarrow> bool" where
  "value_ok v \<longleftrightarrow> json_textual v \<and> value_de v = v"

section \<open>Structs\<close>

text \<open>
  A struct is written field by field; an optional field is left out when it is absent. It is read from an
  object in which no field is repeated (other keys are ignored), or from an array of its fields.
\<close>

type_synonym rows = "(string \<times> json option) list"

definition struct_ser :: "rows \<Rightarrow> json" where
  "struct_ser rows = JObject (List.map_filter (\<lambda>(k, v). map_option (Pair k) v) rows)"

fun struct_de :: "string list \<Rightarrow> json \<Rightarrow> (string \<Rightarrow> json option) option" where
  "struct_de fs (JObject kvs) =
     (if distinct (filter (\<lambda>k. k \<in> set fs) (map fst kvs)) then Some (map_of kvs) else None)"
| "struct_de fs (JArray xs) = (if length xs = length fs then Some (map_of (zip fs xs)) else None)"
| "struct_de fs _ = None"

definition required :: "(json \<Rightarrow> 'a option) \<Rightarrow> json option \<Rightarrow> 'a option" where
  "required de x = Option.bind x de"

fun optional :: "(json \<Rightarrow> 'a option) \<Rightarrow> json option \<Rightarrow> 'a option option" where
  "optional de None = Some None"
| "optional de (Some JNull) = Some None"
| "optional de (Some v) = map_option Some (de v)"

lemma map_of_struct:
  "distinct (map fst rows) \<Longrightarrow>
     map_of (List.map_filter (\<lambda>(k, v). map_option (Pair k) v) rows) k = Option.bind (map_of rows k) id"
proof (induction rows)
  case (Cons r rows)
  obtain k' v where r: "r = (k', v)"
    by (cases r)
  have "k' \<notin> fst ` set rows \<Longrightarrow> map_of rows k' = None"
    by (simp add: map_of_eq_None_iff)
  then show ?case
    using Cons r by (cases v) (auto simp: List.map_filter_simps)
qed (simp add: List.map_filter_simps)

lemma struct_keys: "fst ` set (List.map_filter (\<lambda>(k, v). map_option (Pair k) v) rows) \<subseteq> fst ` set rows"
  by (induction rows) (auto simp: List.map_filter_simps split: option.splits)

lemma struct_keys_distinct:
  "distinct (map fst rows) \<Longrightarrow> distinct (map fst (List.map_filter (\<lambda>(k, v). map_option (Pair k) v) rows))"
proof (induction rows)
  case (Cons r rows)
  then have "fst r \<notin> fst ` set (List.map_filter (\<lambda>(k, v). map_option (Pair k) v) rows)"
    using struct_keys [of rows] by auto
  then show ?case
    using Cons by (cases r; cases "snd r") (auto simp: List.map_filter_simps)
qed (simp add: List.map_filter_simps)

lemma struct_de_ser [simp]:
  "distinct (map fst rows) \<Longrightarrow> struct_de fs (struct_ser rows) = Some (\<lambda>k. Option.bind (map_of rows k) id)"
  by (auto simp: struct_ser_def map_of_struct struct_keys_distinct distinct_filter fun_eq_iff)

lemma struct_textual [simp]:
  "json_textual (struct_ser rows) = list_all (\<lambda>(k, v). pred_option json_textual v) rows"
proof (induction rows)
  case (Cons r rows)
  then show ?case
    by (cases r; cases "snd r") (simp_all add: struct_ser_def List.map_filter_simps)
qed (simp add: struct_ser_def List.map_filter_simps)

lemma struct_not_null [simp]: "struct_ser rows \<noteq> JNull"
  by (simp add: struct_ser_def)

lemma required_Some [simp]: "required de (Some v) = de v"
  by (simp add: required_def)

lemma optional_present [simp]: "v \<noteq> JNull \<Longrightarrow> optional de (Some v) = map_option Some (de v)"
  by (cases v) auto

section \<open>The contract of a type\<close>

locale serde_type =
  fixes ser :: "'a \<Rightarrow> json" and de :: "json \<Rightarrow> 'a option" and ok :: "'a \<Rightarrow> bool"
  assumes roundtrip [serde]: "ok x \<Longrightarrow> de (ser x) = Some x"
    and textual [serde]: "ok x \<Longrightarrow> json_textual (ser x)"
begin

lemma all_some_roundtrip: "list_all ok xs \<Longrightarrow> all_some (map (\<lambda>x. de (ser x)) xs) = Some xs"
  by (induction xs) (auto simp: roundtrip)

lemma list_textual: "list_all ok xs \<Longrightarrow> \<forall>x \<in> set xs. json_textual (ser x)"
  by (induction xs) (auto simp: textual)

end

text \<open>An optional field needs a type that is never written as \<open>null\<close>.\<close>

locale serde_field = serde_type +
  assumes present: "ok x \<Longrightarrow> ser x \<noteq> JNull"
begin

lemma optional_roundtrip [serde]: "pred_option ok x \<Longrightarrow> optional de (map_option ser x) = Some x"
  by (cases x) (auto simp: roundtrip present)

lemma optional_textual [serde]: "pred_option ok x \<Longrightarrow> pred_option json_textual (map_option ser x)"
  by (cases x) (auto simp: textual)

end

section \<open>Vectors, maps and primitive types\<close>

definition vec_ser :: "('a \<Rightarrow> json) \<Rightarrow> 'a list \<Rightarrow> json" where
  "vec_ser ser xs = JArray (map ser xs)"

definition vec_de :: "(json \<Rightarrow> 'a option) \<Rightarrow> json \<Rightarrow> 'a list option" where
  "vec_de de v = Option.bind (as_array v) (\<lambda>xs. all_some (map de xs))"

lemma serde_vec: "serde_type ser de ok \<Longrightarrow> serde_field (vec_ser ser) (vec_de de) (list_all ok)"
  by (rule serde_field.intro, unfold_locales)
     (auto simp: vec_ser_def vec_de_def comp_def serde_type.all_some_roundtrip dest: serde_type.list_textual)

definition i32_ok :: "int \<Rightarrow> bool" where
  "i32_ok n \<longleftrightarrow> - (2 ^ 31) \<le> n \<and> n < 2 ^ 31"

definition i64_ok :: "int \<Rightarrow> bool" where
  "i64_ok n \<longleftrightarrow> - (2 ^ 63) \<le> n \<and> n < 2 ^ 63"

fun i32_de :: "json \<Rightarrow> int option" where
  "i32_de (JInt n) = (if i32_ok n then Some n else None)"
| "i32_de _ = None"

abbreviation any_ok :: "'a \<Rightarrow> bool" where
  "any_ok \<equiv> \<lambda>_. True"

lemma list_any [simp]: "list_all any_ok xs"
  by (simp add: list_all_iff)

lemma option_any [simp]: "pred_option any_ok x"
  by (cases x) simp_all

lemma option_list_any [simp]: "pred_option (list_all any_ok) x"
  by (cases x) simp_all

interpretation string_serde: serde_field JString as_str any_ok
  by unfold_locales auto

interpretation bool_serde: serde_field JBool as_bool any_ok
  by unfold_locales auto

interpretation i32_serde: serde_field JInt i32_de i32_ok
  by unfold_locales (auto simp: i32_ok_def)

interpretation i64_serde: serde_field JInt as_i64 i64_ok
  by unfold_locales (auto simp: i64_ok_def)

interpretation value_serde: serde_type "\<lambda>v. v" "\<lambda>v. Some (value_de v)" value_ok
  by unfold_locales (auto simp: value_ok_def)

text \<open>\<open>Some(Value::Null)\<close> is written as \<open>null\<close> and read back as \<open>None\<close>.\<close>

definition some_value_ok :: "json \<Rightarrow> bool" where
  "some_value_ok v \<longleftrightarrow> value_ok v \<and> v \<noteq> JNull"

interpretation some_value_serde: serde_field "\<lambda>v. v" "\<lambda>v. Some (value_de v)" some_value_ok
  by unfold_locales (auto simp: some_value_ok_def value_ok_def)

interpretation strings_serde: serde_field "vec_ser JString" "vec_de as_str" "list_all any_ok"
  by (rule serde_vec) (rule string_serde.serde_type_axioms)

interpretation values_serde: serde_field "vec_ser (\<lambda>v. v)" "vec_de (\<lambda>v. Some (value_de v))" "list_all value_ok"
  by (rule serde_vec) (rule value_serde.serde_type_axioms)

declare json_textual.simps(5) [simp del] as_i64.simps(1) [simp del] i32_de.simps(1) [simp del]

section \<open>Enumerations\<close>

text \<open>A unit variant is written as its name.\<close>

definition status_names :: "(string \<times> status) list" where
  "status_names = [(''uninitialized'', Uninitialized), (''starting'', Starting), (''ready'', Ready), (''idle'', Idle), (''busy'', Busy), (''offline'', Offline), (''exited'', Exited)]"

definition status_ser :: "status \<Rightarrow> json" where
  "status_ser x = JString (status_name x)"

definition status_de :: "json \<Rightarrow> status option" where
  "status_de v = Option.bind (unit_variant v) (map_of status_names)"

interpretation status_serde: serde_field status_ser status_de any_ok
proof
  fix x
  show "status_de (status_ser x) = Some x"
    by (cases x) (simp_all add: status_ser_def status_de_def status_names_def)
qed (simp_all add: status_ser_def)

definition interrupt_mode_names :: "(string \<times> interrupt_mode) list" where
  "interrupt_mode_names = [(''signal'', SignalMode), (''message'', MessageMode)]"

fun interrupt_mode_name :: "interrupt_mode \<Rightarrow> string" where
  "interrupt_mode_name SignalMode = ''signal''"
| "interrupt_mode_name MessageMode = ''message''"

definition interrupt_mode_ser :: "interrupt_mode \<Rightarrow> json" where
  "interrupt_mode_ser x = JString (interrupt_mode_name x)"

definition interrupt_mode_de :: "json \<Rightarrow> interrupt_mode option" where
  "interrupt_mode_de v = Option.bind (unit_variant v) (map_of interrupt_mode_names)"

interpretation interrupt_mode_serde: serde_field interrupt_mode_ser interrupt_mode_de any_ok
proof
  fix x
  show "interrupt_mode_de (interrupt_mode_ser x) = Some x"
    by (cases x) (simp_all add: interrupt_mode_ser_def interrupt_mode_de_def interrupt_mode_names_def)
qed (simp_all add: interrupt_mode_ser_def)

definition session_mode_names :: "(string \<times> session_mode) list" where
  "session_mode_names = [(''console'', Console), (''notebook'', Notebook), (''background'', Background)]"

definition session_mode_ser :: "session_mode \<Rightarrow> json" where
  "session_mode_ser x = JString (session_mode_name x)"

definition session_mode_de :: "json \<Rightarrow> session_mode option" where
  "session_mode_de v = Option.bind (unit_variant v) (map_of session_mode_names)"

interpretation session_mode_serde: serde_field session_mode_ser session_mode_de any_ok
proof
  fix x
  show "session_mode_de (session_mode_ser x) = Some x"
    by (cases x) (simp_all add: session_mode_ser_def session_mode_de_def session_mode_names_def)
qed (simp_all add: session_mode_ser_def)

definition startup_environment_names :: "(string \<times> startup_environment) list" where
  "startup_environment_names = [(''none'', EnvNone), (''shell'', EnvShell), (''command'', EnvCommand), (''script'', EnvScript)]"

fun startup_environment_name :: "startup_environment \<Rightarrow> string" where
  "startup_environment_name EnvNone = ''none''"
| "startup_environment_name EnvShell = ''shell''"
| "startup_environment_name EnvCommand = ''command''"
| "startup_environment_name EnvScript = ''script''"

definition startup_environment_ser :: "startup_environment \<Rightarrow> json" where
  "startup_environment_ser x = JString (startup_environment_name x)"

definition startup_environment_de :: "json \<Rightarrow> startup_environment option" where
  "startup_environment_de v = Option.bind (unit_variant v) (map_of startup_environment_names)"

interpretation startup_environment_serde: serde_field startup_environment_ser startup_environment_de any_ok
proof
  fix x
  show "startup_environment_de (startup_environment_ser x) = Some x"
    by (cases x) (simp_all add: startup_environment_ser_def startup_environment_de_def startup_environment_names_def)
qed (simp_all add: startup_environment_ser_def)

definition var_action_type_names :: "(string \<times> var_action_type) list" where
  "var_action_type_names = [(''replace'', Replace), (''append'', Append), (''prepend'', Prepend)]"

fun var_action_type_name :: "var_action_type \<Rightarrow> string" where
  "var_action_type_name Replace = ''replace''"
| "var_action_type_name Append = ''append''"
| "var_action_type_name Prepend = ''prepend''"

definition var_action_type_ser :: "var_action_type \<Rightarrow> json" where
  "var_action_type_ser x = JString (var_action_type_name x)"

definition var_action_type_de :: "json \<Rightarrow> var_action_type option" where
  "var_action_type_de v = Option.bind (unit_variant v) (map_of var_action_type_names)"

interpretation var_action_type_serde: serde_field var_action_type_ser var_action_type_de any_ok
proof
  fix x
  show "var_action_type_de (var_action_type_ser x) = Some x"
    by (cases x) (simp_all add: var_action_type_ser_def var_action_type_de_def var_action_type_names_def)
qed (simp_all add: var_action_type_ser_def)

definition output_type_names :: "(string \<times> output_type) list" where
  "output_type_names = [(''stream'', StreamOutput), (''display_data'', DisplayDataOutput), (''error'', ErrorOutput)]"

fun output_type_name :: "output_type \<Rightarrow> string" where
  "output_type_name StreamOutput = ''stream''"
| "output_type_name DisplayDataOutput = ''display_data''"
| "output_type_name ErrorOutput = ''error''"

definition output_type_ser :: "output_type \<Rightarrow> json" where
  "output_type_ser x = JString (output_type_name x)"

definition output_type_de :: "json \<Rightarrow> output_type option" where
  "output_type_de v = Option.bind (unit_variant v) (map_of output_type_names)"

interpretation output_type_serde: serde_field output_type_ser output_type_de any_ok
proof
  fix x
  show "output_type_de (output_type_ser x) = Some x"
    by (cases x) (simp_all add: output_type_ser_def output_type_de_def output_type_names_def)
qed (simp_all add: output_type_ser_def)

definition reply_status_names :: "(string \<times> reply_status) list" where
  "reply_status_names = [(''ok'', ReplyOk), (''error'', ReplyError)]"

fun reply_status_name :: "reply_status \<Rightarrow> string" where
  "reply_status_name ReplyOk = ''ok''"
| "reply_status_name ReplyError = ''error''"

definition reply_status_ser :: "reply_status \<Rightarrow> json" where
  "reply_status_ser x = JString (reply_status_name x)"

definition reply_status_de :: "json \<Rightarrow> reply_status option" where
  "reply_status_de v = Option.bind (unit_variant v) (map_of reply_status_names)"

interpretation reply_status_serde: serde_field reply_status_ser reply_status_de any_ok
proof
  fix x
  show "reply_status_de (reply_status_ser x) = Some x"
    by (cases x) (simp_all add: reply_status_ser_def reply_status_de_def reply_status_names_def)
qed (simp_all add: reply_status_ser_def)

definition log_level_names :: "(string \<times> log_level) list" where
  "log_level_names = [(''trace'', LogTrace), (''debug'', LogDebug), (''info'', LogInfo), (''warn'', LogWarn), (''error'', LogError)]"

fun log_level_name :: "log_level \<Rightarrow> string" where
  "log_level_name LogTrace = ''trace''"
| "log_level_name LogDebug = ''debug''"
| "log_level_name LogInfo = ''info''"
| "log_level_name LogWarn = ''warn''"
| "log_level_name LogError = ''error''"

definition log_level_ser :: "log_level \<Rightarrow> json" where
  "log_level_ser x = JString (log_level_name x)"

definition log_level_de :: "json \<Rightarrow> log_level option" where
  "log_level_de v = Option.bind (unit_variant v) (map_of log_level_names)"

interpretation log_level_serde: serde_field log_level_ser log_level_de any_ok
proof
  fix x
  show "log_level_de (log_level_ser x) = Some x"
    by (cases x) (simp_all add: log_level_ser_def log_level_de_def log_level_names_def)
qed (simp_all add: log_level_ser_def)

section \<open>Hash maps, counters and times\<close>

text \<open>
  A \<open>HashMap\<close> is written entry by entry in its iteration order; of equal keys the last one read wins. The
  list of an output's data stands for such a map.
\<close>

fun last_wins :: "('k \<times> 'v) list \<Rightarrow> ('k \<times> 'v) list" where
  "last_wins [] = []"
| "last_wins ((k, v) # kvs) = (if k \<in> fst ` set kvs then last_wins kvs else (k, v) # last_wins kvs)"

definition hash_ser :: "(string \<times> string) list \<Rightarrow> json" where
  "hash_ser kvs = JObject (map (\<lambda>(k, v). (k, JString v)) kvs)"

definition hash_de :: "json \<Rightarrow> (string \<times> string) list option" where
  "hash_de v = do {
     kvs \<leftarrow> as_object v;
     ps \<leftarrow> all_some (map (\<lambda>(k, v). map_option (Pair k) (as_str v)) kvs);
     Some (last_wins ps)
   }"

definition hash_ok :: "(string \<times> string) list \<Rightarrow> bool" where
  "hash_ok kvs \<longleftrightarrow> distinct (map fst kvs)"

lemma last_wins_distinct: "distinct (map fst kvs) \<Longrightarrow> last_wins kvs = kvs"
  by (induction kvs rule: last_wins.induct) auto

lemma hash_entries: "all_some (map ((\<lambda>(k, v). map_option (Pair k) (as_str v)) \<circ> (\<lambda>(k, v). (k, JString v))) kvs) = Some kvs"
  by (induction kvs) auto

interpretation hash_serde: serde_field hash_ser hash_de hash_ok
  by unfold_locales (auto simp: hash_ser_def hash_de_def hash_ok_def hash_entries last_wins_distinct)

definition word32_ser :: "32 word \<Rightarrow> json" where
  "word32_ser w = JInt (sint w)"

definition word32_de :: "json \<Rightarrow> 32 word option" where
  "word32_de v = map_option word_of_int (i32_de v)"

lemma sint_i32: "i32_ok (sint (w :: 32 word))"
  using sint_greater_eq [of w] sint_less [of w] by (simp add: i32_ok_def)

interpretation word32_serde: serde_field word32_ser word32_de any_ok
proof
  fix w :: "32 word"
  show "word32_de (word32_ser w) = Some w" "json_textual (word32_ser w)" "word32_ser w \<noteq> JNull"
    using sint_i32 [of w] by (auto simp: word32_ser_def word32_de_def serde)
qed

definition time_ser :: "api_lib \<Rightarrow> instant \<Rightarrow> json" where
  "time_ser L t = JString (al_show_time L t)"

definition time_de :: "api_lib \<Rightarrow> json \<Rightarrow> instant option" where
  "time_de L v = Option.bind (as_str v) (al_parse_time L)"

definition env_ser :: "api_lib \<Rightarrow> env \<Rightarrow> json" where
  "env_ser L m = hash_ser (al_map_order L m)"

definition env_de :: "json \<Rightarrow> env option" where
  "env_de v = map_option map_of (hash_de v)"

definition env_ok :: "env \<Rightarrow> bool" where
  "env_ok m \<longleftrightarrow> finite (dom m)"

section \<open>What the code relies on\<close>

text \<open>
  The documented behaviour of the libraries that write and read text: JSON text is read back as the tree it
  was written from and is never empty, and times and hash maps are written without loss.
\<close>

locale api_library =
  fixes L :: api_lib
  assumes from_str: "json_textual v \<Longrightarrow> al_from_str L (al_to_string L v) = Inr v"
    and from_slice: "json_textual v \<Longrightarrow> al_from_slice L (al_to_string L v) = Inr v"
    and text_nonempty: "json_textual v \<Longrightarrow> al_to_string L v \<noteq> []"
    and text_utf8: "json_textual v \<Longrightarrow> al_utf8 L (al_to_string L v)"
    and time: "al_parse_time L (al_show_time L t) = Some t"
    and map_order: "finite (dom m) \<Longrightarrow> map_of (al_map_order L m) = m \<and> distinct (map fst (al_map_order L m))"
begin

lemma time_serde: "serde_field (time_ser L) (time_de L) any_ok"
  by unfold_locales (simp_all add: time_ser_def time_de_def time)

lemma env_serde: "serde_field (env_ser L) env_de env_ok"
proof
  fix m :: env
  assume "env_ok m"
  then have "map_of (al_map_order L m) = m" and "hash_ok (al_map_order L m)"
    using map_order [of m] by (auto simp: env_ok_def hash_ok_def)
  then show "env_de (env_ser L m) = Some m" "json_textual (env_ser L m)" "env_ser L m \<noteq> JNull"
    using hash_serde.roundtrip hash_serde.textual hash_serde.present by (auto simp: env_ser_def env_de_def)
qed

end


section \<open>The models\<close>

text \<open>The models the server has no record of its own for.\<close>

record heartbeat_model =
  hb_process_id :: "int option"

record new_session_id =
  ni_session_id :: string

record restart_session_model =
  rm_working_directory :: "string option"
  rm_env :: "var_action list option"

record mcp_registration =
  mr_workspace_id :: "string option"
  mr_display_name :: string
  mr_preferred_port :: "int option"
  mr_token :: "string option"

record mcp_workspace =
  mw_workspace_id :: string
  mw_token :: string
  mw_port :: int
  mw_url :: string

record session_list =
  sl_total :: int
  sl_sessions :: "active_session list"

definition api_error_ser :: "api_error \<Rightarrow> json" where
  "api_error_ser x = struct_ser [
     (''code'', Some (JString (ae_code x))), (''message'', Some (JString (ae_message x))),
     (''details'', map_option JString (ae_details x))]"

definition api_error_de :: "json \<Rightarrow> api_error option" where
  "api_error_de v = do {
     g \<leftarrow> struct_de [
       ''code'', ''message'', ''details''] v;
     f_ae_code \<leftarrow> required as_str (g ''code'');
     f_ae_message \<leftarrow> required as_str (g ''message'');
     f_ae_details \<leftarrow> optional as_str (g ''details'');
     Some \<lparr>
       ae_code = f_ae_code, ae_message = f_ae_message, ae_details = f_ae_details\<rparr>
   }"

interpretation api_error_serde: serde_field api_error_ser api_error_de any_ok
  by unfold_locales (simp_all add: serde api_error_ser_def api_error_de_def)

definition startup_error_ser :: "startup_error \<Rightarrow> json" where
  "startup_error_ser x = struct_ser [
     (''exit_code'', map_option JInt (se_exit_code x)), (''output'', map_option JString (se_output x)),
     (''error'', Some (api_error_ser (se_error x)))]"

definition startup_error_de :: "json \<Rightarrow> startup_error option" where
  "startup_error_de v = do {
     g \<leftarrow> struct_de [
       ''exit_code'', ''output'', ''error''] v;
     f_se_exit_code \<leftarrow> optional i32_de (g ''exit_code'');
     f_se_output \<leftarrow> optional as_str (g ''output'');
     f_se_error \<leftarrow> required api_error_de (g ''error'');
     Some \<lparr>
       se_exit_code = f_se_exit_code, se_output = f_se_output, se_error = f_se_error\<rparr>
   }"

definition startup_error_ok :: "startup_error \<Rightarrow> bool" where
  "startup_error_ok x \<longleftrightarrow>
     pred_option i32_ok (se_exit_code x)"

interpretation startup_error_serde: serde_field startup_error_ser startup_error_de startup_error_ok
  by unfold_locales (simp_all add: serde startup_error_ser_def startup_error_de_def startup_error_ok_def)

definition heartbeat_ser :: "heartbeat_model \<Rightarrow> json" where
  "heartbeat_ser x = struct_ser [
     (''process_id'', map_option JInt (hb_process_id x))]"

definition heartbeat_de :: "json \<Rightarrow> heartbeat_model option" where
  "heartbeat_de v = do {
     g \<leftarrow> struct_de [
       ''process_id''] v;
     f_hb_process_id \<leftarrow> optional i32_de (g ''process_id'');
     Some \<lparr>
       hb_process_id = f_hb_process_id\<rparr>
   }"

definition heartbeat_ok :: "heartbeat_model \<Rightarrow> bool" where
  "heartbeat_ok x \<longleftrightarrow>
     pred_option i32_ok (hb_process_id x)"

interpretation heartbeat_serde: serde_field heartbeat_ser heartbeat_de heartbeat_ok
  by unfold_locales (simp_all add: serde heartbeat_ser_def heartbeat_de_def heartbeat_ok_def)

definition connection_info_ser :: "connection_info \<Rightarrow> json" where
  "connection_info_ser x = struct_ser [
     (''control_port'', Some (JInt (control_port x))), (''shell_port'', Some (JInt (shell_port x))),
     (''stdin_port'', Some (JInt (stdin_port x))), (''hb_port'', Some (JInt (hb_port x))),
     (''iopub_port'', Some (JInt (iopub_port x))), (''signature_scheme'', Some (JString (signature_scheme x))),
     (''key'', Some (JString (info_key x))), (''transport'', Some (JString (transport x))),
     (''ip'', Some (JString (ip x)))]"

definition connection_info_de :: "json \<Rightarrow> connection_info option" where
  "connection_info_de v = do {
     g \<leftarrow> struct_de [
       ''control_port'', ''shell_port'', ''stdin_port'', ''hb_port'', ''iopub_port'', ''signature_scheme'',
       ''key'', ''transport'', ''ip''] v;
     f_control_port \<leftarrow> required i32_de (g ''control_port'');
     f_shell_port \<leftarrow> required i32_de (g ''shell_port'');
     f_stdin_port \<leftarrow> required i32_de (g ''stdin_port'');
     f_hb_port \<leftarrow> required i32_de (g ''hb_port'');
     f_iopub_port \<leftarrow> required i32_de (g ''iopub_port'');
     f_signature_scheme \<leftarrow> required as_str (g ''signature_scheme'');
     f_info_key \<leftarrow> required as_str (g ''key'');
     f_transport \<leftarrow> required as_str (g ''transport'');
     f_ip \<leftarrow> required as_str (g ''ip'');
     Some \<lparr>
       control_port = f_control_port, shell_port = f_shell_port, stdin_port = f_stdin_port,
       hb_port = f_hb_port, iopub_port = f_iopub_port, signature_scheme = f_signature_scheme,
       info_key = f_info_key, transport = f_transport, ip = f_ip\<rparr>
   }"

definition connection_info_ok :: "connection_info \<Rightarrow> bool" where
  "connection_info_ok x \<longleftrightarrow>
     i32_ok (control_port x) \<and> i32_ok (shell_port x) \<and> i32_ok (stdin_port x) \<and>
     i32_ok (hb_port x) \<and> i32_ok (iopub_port x)"

interpretation connection_info_serde: serde_field connection_info_ser connection_info_de connection_info_ok
  by unfold_locales (simp_all add: serde connection_info_ser_def connection_info_de_def connection_info_ok_def)

definition execute_output_ser :: "execute_output \<Rightarrow> json" where
  "execute_output_ser x = struct_ser [
     (''type'', Some (output_type_ser (out_type x))),
     (''stream_name'', map_option JString (out_stream_name x)), (''text'', map_option JString (out_text x)),
     (''data'', map_option hash_ser (out_data x)), (''metadata'', map_option (\<lambda>v. v) (out_metadata x)),
     (''error_name'', map_option JString (out_error_name x)),
     (''error_message'', map_option JString (out_error_message x)),
     (''error_traceback'', map_option (vec_ser JString) (out_error_traceback x))]"

definition execute_output_de :: "json \<Rightarrow> execute_output option" where
  "execute_output_de v = do {
     g \<leftarrow> struct_de [
       ''type'', ''stream_name'', ''text'', ''data'', ''metadata'', ''error_name'', ''error_message'',
       ''error_traceback''] v;
     f_out_type \<leftarrow> required output_type_de (g ''type'');
     f_out_stream_name \<leftarrow> optional as_str (g ''stream_name'');
     f_out_text \<leftarrow> optional as_str (g ''text'');
     f_out_data \<leftarrow> optional hash_de (g ''data'');
     f_out_metadata \<leftarrow> optional (\<lambda>v. Some (value_de v)) (g ''metadata'');
     f_out_error_name \<leftarrow> optional as_str (g ''error_name'');
     f_out_error_message \<leftarrow> optional as_str (g ''error_message'');
     f_out_error_traceback \<leftarrow> optional (vec_de as_str) (g ''error_traceback'');
     Some \<lparr>
       out_type = f_out_type, out_stream_name = f_out_stream_name, out_text = f_out_text,
       out_data = f_out_data, out_metadata = f_out_metadata, out_error_name = f_out_error_name,
       out_error_message = f_out_error_message, out_error_traceback = f_out_error_traceback\<rparr>
   }"

definition execute_output_ok :: "execute_output \<Rightarrow> bool" where
  "execute_output_ok x \<longleftrightarrow>
     pred_option hash_ok (out_data x) \<and> pred_option some_value_ok (out_metadata x)"

interpretation execute_output_serde: serde_field execute_output_ser execute_output_de execute_output_ok
  by unfold_locales (simp_all add: serde execute_output_ser_def execute_output_de_def execute_output_ok_def)

interpretation execute_outputs_serde: serde_field "vec_ser execute_output_ser" "vec_de execute_output_de" "list_all execute_output_ok"
  by (rule serde_vec) (rule execute_output_serde.serde_type_axioms)

definition execute_reply_ser :: "execute_reply \<Rightarrow> json" where
  "execute_reply_ser x = struct_ser [
     (''status'', Some (reply_status_ser (er_status x))),
     (''execution_count'', Some (word32_ser (er_count x))),
     (''output'', Some ((vec_ser execute_output_ser) (er_output x))),
     (''data'', map_option hash_ser (er_data x)), (''error_name'', map_option JString (er_error_name x)),
     (''error_message'', map_option JString (er_error_message x)),
     (''error_traceback'', map_option (vec_ser JString) (er_error_traceback x))]"

definition execute_reply_de :: "json \<Rightarrow> execute_reply option" where
  "execute_reply_de v = do {
     g \<leftarrow> struct_de [
       ''status'', ''execution_count'', ''output'', ''data'', ''error_name'', ''error_message'',
       ''error_traceback''] v;
     f_er_status \<leftarrow> required reply_status_de (g ''status'');
     f_er_count \<leftarrow> required word32_de (g ''execution_count'');
     f_er_output \<leftarrow> required (vec_de execute_output_de) (g ''output'');
     f_er_data \<leftarrow> optional hash_de (g ''data'');
     f_er_error_name \<leftarrow> optional as_str (g ''error_name'');
     f_er_error_message \<leftarrow> optional as_str (g ''error_message'');
     f_er_error_traceback \<leftarrow> optional (vec_de as_str) (g ''error_traceback'');
     Some \<lparr>
       er_status = f_er_status, er_count = f_er_count, er_output = f_er_output, er_data = f_er_data,
       er_error_name = f_er_error_name, er_error_message = f_er_error_message,
       er_error_traceback = f_er_error_traceback\<rparr>
   }"

definition execute_reply_ok :: "execute_reply \<Rightarrow> bool" where
  "execute_reply_ok x \<longleftrightarrow>
     list_all execute_output_ok (er_output x) \<and> pred_option hash_ok (er_data x)"

interpretation execute_reply_serde: serde_field execute_reply_ser execute_reply_de execute_reply_ok
  by unfold_locales (simp_all add: serde execute_reply_ser_def execute_reply_de_def execute_reply_ok_def)

definition execute_request_ser :: "execute_request \<Rightarrow> json" where
  "execute_request_ser x = struct_ser [
     (''code'', Some (JString (xr_code x))), (''silent'', map_option JBool (xr_silent x)),
     (''store_history'', map_option JBool (xr_store_history x)),
     (''stop_on_error'', map_option JBool (xr_stop_on_error x)),
     (''timeout_seconds'', map_option JInt (xr_timeout_seconds x))]"

definition execute_request_de :: "json \<Rightarrow> execute_request option" where
  "execute_request_de v = do {
     g \<leftarrow> struct_de [
       ''code'', ''silent'', ''store_history'', ''stop_on_error'', ''timeout_seconds''] v;
     f_xr_code \<leftarrow> required as_str (g ''code'');
     f_xr_silent \<leftarrow> optional as_bool (g ''silent'');
     f_xr_store_history \<leftarrow> optional as_bool (g ''store_history'');
     f_xr_stop_on_error \<leftarrow> optional as_bool (g ''stop_on_error'');
     f_xr_timeout_seconds \<leftarrow> optional i32_de (g ''timeout_seconds'');
     Some \<lparr>
       xr_code = f_xr_code, xr_silent = f_xr_silent, xr_store_history = f_xr_store_history,
       xr_stop_on_error = f_xr_stop_on_error, xr_timeout_seconds = f_xr_timeout_seconds\<rparr>
   }"

definition execute_request_ok :: "execute_request \<Rightarrow> bool" where
  "execute_request_ok x \<longleftrightarrow>
     pred_option i32_ok (xr_timeout_seconds x)"

interpretation execute_request_serde: serde_field execute_request_ser execute_request_de execute_request_ok
  by unfold_locales (simp_all add: serde execute_request_ser_def execute_request_de_def execute_request_ok_def)

definition execution_error_ser :: "execution_error \<Rightarrow> json" where
  "execution_error_ser x = struct_ser [
     (''name'', Some (JString (err_name x))), (''message'', Some (JString (err_message x))),
     (''traceback'', Some ((vec_ser JString) (err_traceback x)))]"

definition execution_error_de :: "json \<Rightarrow> execution_error option" where
  "execution_error_de v = do {
     g \<leftarrow> struct_de [
       ''name'', ''message'', ''traceback''] v;
     f_err_name \<leftarrow> required as_str (g ''name'');
     f_err_message \<leftarrow> required as_str (g ''message'');
     f_err_traceback \<leftarrow> required (vec_de as_str) (g ''traceback'');
     Some \<lparr>
       err_name = f_err_name, err_message = f_err_message, err_traceback = f_err_traceback\<rparr>
   }"

interpretation execution_error_serde: serde_field execution_error_ser execution_error_de any_ok
  by unfold_locales (simp_all add: serde execution_error_ser_def execution_error_de_def)

definition history_entry_ser :: "history_entry_model \<Rightarrow> json" where
  "history_entry_ser x = struct_ser [
     (''input'', Some (JString (hm_input x))), (''output'', Some (JString (hm_output x))),
     (''error'', map_option execution_error_ser (hm_error x)), (''timestamp'', Some (JInt (hm_timestamp x))),
     (''source'', map_option JString (hm_source x)), (''agent'', map_option JString (hm_agent x)),
     (''truncated'', Some (JBool (hm_truncated x)))]"

definition history_entry_de :: "json \<Rightarrow> history_entry_model option" where
  "history_entry_de v = do {
     g \<leftarrow> struct_de [
       ''input'', ''output'', ''error'', ''timestamp'', ''source'', ''agent'', ''truncated''] v;
     f_hm_input \<leftarrow> required as_str (g ''input'');
     f_hm_output \<leftarrow> required as_str (g ''output'');
     f_hm_error \<leftarrow> optional execution_error_de (g ''error'');
     f_hm_timestamp \<leftarrow> required as_i64 (g ''timestamp'');
     f_hm_source \<leftarrow> optional as_str (g ''source'');
     f_hm_agent \<leftarrow> optional as_str (g ''agent'');
     f_hm_truncated \<leftarrow> required as_bool (g ''truncated'');
     Some \<lparr>
       hm_input = f_hm_input, hm_output = f_hm_output, hm_error = f_hm_error, hm_timestamp = f_hm_timestamp,
       hm_source = f_hm_source, hm_agent = f_hm_agent, hm_truncated = f_hm_truncated\<rparr>
   }"

definition history_entry_ok :: "history_entry_model \<Rightarrow> bool" where
  "history_entry_ok x \<longleftrightarrow>
     i64_ok (hm_timestamp x)"

interpretation history_entry_serde: serde_field history_entry_ser history_entry_de history_entry_ok
  by unfold_locales (simp_all add: serde history_entry_ser_def history_entry_de_def history_entry_ok_def)

interpretation history_entries_serde: serde_field "vec_ser history_entry_ser" "vec_de history_entry_de" "list_all history_entry_ok"
  by (rule serde_vec) (rule history_entry_serde.serde_type_axioms)

definition execution_queue_ser :: "queue_model \<Rightarrow> json" where
  "execution_queue_ser x = struct_ser [
     (''active'', map_option (\<lambda>v. v) (qm_active x)), (''length'', Some (word32_ser (qm_length x))),
     (''pending'', Some ((vec_ser (\<lambda>v. v)) (qm_pending x)))]"

definition execution_queue_de :: "json \<Rightarrow> queue_model option" where
  "execution_queue_de v = do {
     g \<leftarrow> struct_de [
       ''active'', ''length'', ''pending''] v;
     f_qm_active \<leftarrow> optional (\<lambda>v. Some (value_de v)) (g ''active'');
     f_qm_length \<leftarrow> required word32_de (g ''length'');
     f_qm_pending \<leftarrow> required (vec_de (\<lambda>v. Some (value_de v))) (g ''pending'');
     Some \<lparr>
       qm_active = f_qm_active, qm_length = f_qm_length, qm_pending = f_qm_pending\<rparr>
   }"

definition execution_queue_ok :: "queue_model \<Rightarrow> bool" where
  "execution_queue_ok x \<longleftrightarrow>
     pred_option some_value_ok (qm_active x) \<and> list_all value_ok (qm_pending x)"

interpretation execution_queue_serde: serde_field execution_queue_ser execution_queue_de execution_queue_ok
  by unfold_locales (simp_all add: serde execution_queue_ser_def execution_queue_de_def execution_queue_ok_def)

definition resource_usage_ser :: "resource_usage \<Rightarrow> json" where
  "resource_usage_ser x = struct_ser [
     (''cpu_percent'', Some (JInt (cpu_percent x))), (''memory_bytes'', Some (JInt (memory_bytes x))),
     (''thread_count'', Some (JInt (thread_count x))),
     (''sampling_period_ms'', Some (JInt (sampling_period_ms x))),
     (''timestamp'', Some (JInt (usage_timestamp x)))]"

definition resource_usage_de :: "json \<Rightarrow> resource_usage option" where
  "resource_usage_de v = do {
     g \<leftarrow> struct_de [
       ''cpu_percent'', ''memory_bytes'', ''thread_count'', ''sampling_period_ms'', ''timestamp''] v;
     f_cpu_percent \<leftarrow> required as_i64 (g ''cpu_percent'');
     f_memory_bytes \<leftarrow> required as_i64 (g ''memory_bytes'');
     f_thread_count \<leftarrow> required as_i64 (g ''thread_count'');
     f_sampling_period_ms \<leftarrow> required as_i64 (g ''sampling_period_ms'');
     f_usage_timestamp \<leftarrow> required as_i64 (g ''timestamp'');
     Some \<lparr>
       cpu_percent = f_cpu_percent, memory_bytes = f_memory_bytes, thread_count = f_thread_count,
       sampling_period_ms = f_sampling_period_ms, usage_timestamp = f_usage_timestamp\<rparr>
   }"

definition resource_usage_ok :: "resource_usage \<Rightarrow> bool" where
  "resource_usage_ok x \<longleftrightarrow>
     i64_ok (cpu_percent x) \<and> i64_ok (memory_bytes x) \<and> i64_ok (thread_count x) \<and>
     i64_ok (sampling_period_ms x) \<and> i64_ok (usage_timestamp x)"

interpretation resource_usage_serde: serde_field resource_usage_ser resource_usage_de resource_usage_ok
  by unfold_locales (simp_all add: serde resource_usage_ser_def resource_usage_de_def resource_usage_ok_def)

definition var_action_ser :: "var_action \<Rightarrow> json" where
  "var_action_ser x = struct_ser [
     (''action'', Some (var_action_type_ser (action x))), (''name'', Some (JString (var_name x))),
     (''value'', Some (JString (var_value x)))]"

definition var_action_de :: "json \<Rightarrow> var_action option" where
  "var_action_de v = do {
     g \<leftarrow> struct_de [
       ''action'', ''name'', ''value''] v;
     f_action \<leftarrow> required var_action_type_de (g ''action'');
     f_var_name \<leftarrow> required as_str (g ''name'');
     f_var_value \<leftarrow> required as_str (g ''value'');
     Some \<lparr>
       action = f_action, var_name = f_var_name, var_value = f_var_value\<rparr>
   }"

interpretation var_action_serde: serde_field var_action_ser var_action_de any_ok
  by unfold_locales (simp_all add: serde var_action_ser_def var_action_de_def)

interpretation var_actions_serde: serde_field "vec_ser var_action_ser" "vec_de var_action_de" "list_all any_ok"
  by (rule serde_vec) (rule var_action_serde.serde_type_axioms)

definition new_session_ser :: "new_session \<Rightarrow> json" where
  "new_session_ser x = struct_ser [
     (''session_id'', Some (JString (ns_session_id x))),
     (''display_name'', Some (JString (ns_display_name x))), (''language'', Some (JString (ns_language x))),
     (''username'', Some (JString (ns_username x))), (''input_prompt'', Some (JString (ns_input_prompt x))),
     (''continuation_prompt'', Some (JString (ns_continuation_prompt x))),
     (''argv'', Some ((vec_ser JString) (ns_argv x))),
     (''session_mode'', Some (session_mode_ser (ns_session_mode x))),
     (''working_directory'', Some (JString (ns_working_directory x))),
     (''notebook_uri'', map_option JString (ns_notebook_uri x)),
     (''env'', Some ((vec_ser var_action_ser) (ns_env x))),
     (''connection_timeout'', map_option JInt (ns_connection_timeout x)),
     (''interrupt_mode'', Some (interrupt_mode_ser (ns_interrupt_mode x))),
     (''protocol_version'', map_option JString (ns_protocol_version x)),
     (''startup_environment'', Some (startup_environment_ser (ns_startup_environment x))),
     (''startup_environment_arg'', map_option JString (ns_startup_environment_arg x)),
     (''workspace_id'', map_option JString (ns_workspace_id x))]"

definition new_session_de :: "json \<Rightarrow> new_session option" where
  "new_session_de v = do {
     g \<leftarrow> struct_de [
       ''session_id'', ''display_name'', ''language'', ''username'', ''input_prompt'', ''continuation_prompt'',
       ''argv'', ''session_mode'', ''working_directory'', ''notebook_uri'', ''env'', ''connection_timeout'',
       ''interrupt_mode'', ''protocol_version'', ''startup_environment'', ''startup_environment_arg'',
       ''workspace_id''] v;
     f_ns_session_id \<leftarrow> required as_str (g ''session_id'');
     f_ns_display_name \<leftarrow> required as_str (g ''display_name'');
     f_ns_language \<leftarrow> required as_str (g ''language'');
     f_ns_username \<leftarrow> required as_str (g ''username'');
     f_ns_input_prompt \<leftarrow> required as_str (g ''input_prompt'');
     f_ns_continuation_prompt \<leftarrow> required as_str (g ''continuation_prompt'');
     f_ns_argv \<leftarrow> required (vec_de as_str) (g ''argv'');
     f_ns_session_mode \<leftarrow> required session_mode_de (g ''session_mode'');
     f_ns_working_directory \<leftarrow> required as_str (g ''working_directory'');
     f_ns_notebook_uri \<leftarrow> optional as_str (g ''notebook_uri'');
     f_ns_env \<leftarrow> required (vec_de var_action_de) (g ''env'');
     f_ns_connection_timeout \<leftarrow> optional i32_de (g ''connection_timeout'');
     f_ns_interrupt_mode \<leftarrow> required interrupt_mode_de (g ''interrupt_mode'');
     f_ns_protocol_version \<leftarrow> optional as_str (g ''protocol_version'');
     f_ns_startup_environment \<leftarrow> required startup_environment_de (g ''startup_environment'');
     f_ns_startup_environment_arg \<leftarrow> optional as_str (g ''startup_environment_arg'');
     f_ns_workspace_id \<leftarrow> optional as_str (g ''workspace_id'');
     Some \<lparr>
       ns_session_id = f_ns_session_id, ns_display_name = f_ns_display_name, ns_language = f_ns_language,
       ns_username = f_ns_username, ns_input_prompt = f_ns_input_prompt,
       ns_continuation_prompt = f_ns_continuation_prompt, ns_argv = f_ns_argv,
       ns_session_mode = f_ns_session_mode, ns_working_directory = f_ns_working_directory,
       ns_notebook_uri = f_ns_notebook_uri, ns_env = f_ns_env, ns_connection_timeout = f_ns_connection_timeout,
       ns_interrupt_mode = f_ns_interrupt_mode, ns_protocol_version = f_ns_protocol_version,
       ns_startup_environment = f_ns_startup_environment,
       ns_startup_environment_arg = f_ns_startup_environment_arg, ns_workspace_id = f_ns_workspace_id\<rparr>
   }"

definition new_session_ok :: "new_session \<Rightarrow> bool" where
  "new_session_ok x \<longleftrightarrow>
     pred_option i32_ok (ns_connection_timeout x)"

interpretation new_session_serde: serde_field new_session_ser new_session_de new_session_ok
  by unfold_locales (simp_all add: serde new_session_ser_def new_session_de_def new_session_ok_def)

definition new_session_id_ser :: "new_session_id \<Rightarrow> json" where
  "new_session_id_ser x = struct_ser [
     (''session_id'', Some (JString (ni_session_id x)))]"

definition new_session_id_de :: "json \<Rightarrow> new_session_id option" where
  "new_session_id_de v = do {
     g \<leftarrow> struct_de [
       ''session_id''] v;
     f_ni_session_id \<leftarrow> required as_str (g ''session_id'');
     Some \<lparr>
       ni_session_id = f_ni_session_id\<rparr>
   }"

interpretation new_session_id_serde: serde_field new_session_id_ser new_session_id_de any_ok
  by unfold_locales (simp_all add: serde new_session_id_ser_def new_session_id_de_def)

definition restart_session_ser :: "restart_session_model \<Rightarrow> json" where
  "restart_session_ser x = struct_ser [
     (''working_directory'', map_option JString (rm_working_directory x)),
     (''env'', map_option (vec_ser var_action_ser) (rm_env x))]"

definition restart_session_de :: "json \<Rightarrow> restart_session_model option" where
  "restart_session_de v = do {
     g \<leftarrow> struct_de [
       ''working_directory'', ''env''] v;
     f_rm_working_directory \<leftarrow> optional as_str (g ''working_directory'');
     f_rm_env \<leftarrow> optional (vec_de var_action_de) (g ''env'');
     Some \<lparr>
       rm_working_directory = f_rm_working_directory, rm_env = f_rm_env\<rparr>
   }"

interpretation restart_session_serde: serde_field restart_session_ser restart_session_de any_ok
  by unfold_locales (simp_all add: serde restart_session_ser_def restart_session_de_def)

definition server_configuration_ser :: "server_configuration \<Rightarrow> json" where
  "server_configuration_ser x = struct_ser [
     (''idle_shutdown_hours'', map_option JInt (sc_idle_shutdown_hours x)),
     (''resource_sample_interval_ms'', map_option JInt (sc_resource_sample_interval_ms x)),
     (''resource_include_children'', map_option JBool (sc_resource_include_children x)),
     (''log_level'', map_option log_level_ser (sc_log_level x))]"

definition server_configuration_de :: "json \<Rightarrow> server_configuration option" where
  "server_configuration_de v = do {
     g \<leftarrow> struct_de [
       ''idle_shutdown_hours'', ''resource_sample_interval_ms'', ''resource_include_children'', ''log_level''] v;
     f_sc_idle_shutdown_hours \<leftarrow> optional i32_de (g ''idle_shutdown_hours'');
     f_sc_resource_sample_interval_ms \<leftarrow> optional i32_de (g ''resource_sample_interval_ms'');
     f_sc_resource_include_children \<leftarrow> optional as_bool (g ''resource_include_children'');
     f_sc_log_level \<leftarrow> optional log_level_de (g ''log_level'');
     Some \<lparr>
       sc_idle_shutdown_hours = f_sc_idle_shutdown_hours,
       sc_resource_sample_interval_ms = f_sc_resource_sample_interval_ms,
       sc_resource_include_children = f_sc_resource_include_children, sc_log_level = f_sc_log_level\<rparr>
   }"

definition server_configuration_ok :: "server_configuration \<Rightarrow> bool" where
  "server_configuration_ok x \<longleftrightarrow>
     pred_option i32_ok (sc_idle_shutdown_hours x) \<and> pred_option i32_ok (sc_resource_sample_interval_ms x)"

interpretation server_configuration_serde: serde_field server_configuration_ser server_configuration_de server_configuration_ok
  by unfold_locales (simp_all add: serde server_configuration_ser_def server_configuration_de_def server_configuration_ok_def)

definition mcp_registration_ser :: "mcp_registration \<Rightarrow> json" where
  "mcp_registration_ser x = struct_ser [
     (''workspace_id'', map_option JString (mr_workspace_id x)),
     (''display_name'', Some (JString (mr_display_name x))),
     (''preferred_port'', map_option JInt (mr_preferred_port x)), (''token'', map_option JString (mr_token x))]"

definition mcp_registration_de :: "json \<Rightarrow> mcp_registration option" where
  "mcp_registration_de v = do {
     g \<leftarrow> struct_de [
       ''workspace_id'', ''display_name'', ''preferred_port'', ''token''] v;
     f_mr_workspace_id \<leftarrow> optional as_str (g ''workspace_id'');
     f_mr_display_name \<leftarrow> required as_str (g ''display_name'');
     f_mr_preferred_port \<leftarrow> optional i32_de (g ''preferred_port'');
     f_mr_token \<leftarrow> optional as_str (g ''token'');
     Some \<lparr>
       mr_workspace_id = f_mr_workspace_id, mr_display_name = f_mr_display_name,
       mr_preferred_port = f_mr_preferred_port, mr_token = f_mr_token\<rparr>
   }"

definition mcp_registration_ok :: "mcp_registration \<Rightarrow> bool" where
  "mcp_registration_ok x \<longleftrightarrow>
     pred_option i32_ok (mr_preferred_port x)"

interpretation mcp_registration_serde: serde_field mcp_registration_ser mcp_registration_de mcp_registration_ok
  by unfold_locales (simp_all add: serde mcp_registration_ser_def mcp_registration_de_def mcp_registration_ok_def)

definition mcp_workspace_ser :: "mcp_workspace \<Rightarrow> json" where
  "mcp_workspace_ser x = struct_ser [
     (''workspace_id'', Some (JString (mw_workspace_id x))), (''token'', Some (JString (mw_token x))),
     (''port'', Some (JInt (mw_port x))), (''url'', Some (JString (mw_url x)))]"

definition mcp_workspace_de :: "json \<Rightarrow> mcp_workspace option" where
  "mcp_workspace_de v = do {
     g \<leftarrow> struct_de [
       ''workspace_id'', ''token'', ''port'', ''url''] v;
     f_mw_workspace_id \<leftarrow> required as_str (g ''workspace_id'');
     f_mw_token \<leftarrow> required as_str (g ''token'');
     f_mw_port \<leftarrow> required i32_de (g ''port'');
     f_mw_url \<leftarrow> required as_str (g ''url'');
     Some \<lparr>
       mw_workspace_id = f_mw_workspace_id, mw_token = f_mw_token, mw_port = f_mw_port, mw_url = f_mw_url\<rparr>
   }"

definition mcp_workspace_ok :: "mcp_workspace \<Rightarrow> bool" where
  "mcp_workspace_ok x \<longleftrightarrow>
     i32_ok (mw_port x)"

interpretation mcp_workspace_serde: serde_field mcp_workspace_ser mcp_workspace_de mcp_workspace_ok
  by unfold_locales (simp_all add: serde mcp_workspace_ser_def mcp_workspace_de_def mcp_workspace_ok_def)

definition mcp_client_ser :: "api_lib \<Rightarrow> mcp_client \<Rightarrow> json" where
  "mcp_client_ser L x = struct_ser [
     (''id'', Some (JInt (mc_id x))), (''name'', map_option JString (mc_name x)),
     (''version'', map_option JString (mc_version x)), (''pid'', map_option JInt (mc_pid x)),
     (''working_directory'', map_option JString (mc_working_directory x)),
     (''session_id'', map_option JString (mc_session_id x)),
     (''connected_at'', Some ((time_ser L) (mc_connected_at x)))]"

definition mcp_client_de :: "api_lib \<Rightarrow> json \<Rightarrow> mcp_client option" where
  "mcp_client_de L v = do {
     g \<leftarrow> struct_de [
       ''id'', ''name'', ''version'', ''pid'', ''working_directory'', ''session_id'', ''connected_at''] v;
     f_mc_id \<leftarrow> required i32_de (g ''id'');
     f_mc_name \<leftarrow> optional as_str (g ''name'');
     f_mc_version \<leftarrow> optional as_str (g ''version'');
     f_mc_pid \<leftarrow> optional i32_de (g ''pid'');
     f_mc_working_directory \<leftarrow> optional as_str (g ''working_directory'');
     f_mc_session_id \<leftarrow> optional as_str (g ''session_id'');
     f_mc_connected_at \<leftarrow> required (time_de L) (g ''connected_at'');
     Some \<lparr>
       mc_id = f_mc_id, mc_name = f_mc_name, mc_version = f_mc_version, mc_pid = f_mc_pid,
       mc_working_directory = f_mc_working_directory, mc_session_id = f_mc_session_id,
       mc_connected_at = f_mc_connected_at\<rparr>
   }"

definition mcp_client_ok :: "mcp_client \<Rightarrow> bool" where
  "mcp_client_ok x \<longleftrightarrow>
     i32_ok (mc_id x) \<and> pred_option i32_ok (mc_pid x)"

lemma mcp_client_serde: "api_library L \<Longrightarrow> serde_field (mcp_client_ser L) (mcp_client_de L) mcp_client_ok"
  by (rule serde_field.intro, unfold_locales) (simp_all add: serde mcp_client_ser_def mcp_client_de_def mcp_client_ok_def
       serde_type.roundtrip [OF serde_field.axioms(1) [OF api_library.time_serde]]
       serde_type.textual [OF serde_field.axioms(1) [OF api_library.time_serde]])

lemma mcp_clients_serde:
  "api_library L \<Longrightarrow> serde_field (vec_ser (mcp_client_ser L)) (vec_de (mcp_client_de L)) (list_all mcp_client_ok)"
  by (rule serde_vec) (rule serde_field.axioms(1) [OF mcp_client_serde])

definition workspace_status_ser :: "api_lib \<Rightarrow> workspace_status \<Rightarrow> json" where
  "workspace_status_ser L x = struct_ser [
     (''id'', Some (JString (wt_id x))), (''display_name'', Some (JString (wt_display_name x))),
     (''connected'', Some (JBool (wt_connected x))),
     (''clients'', Some ((vec_ser (mcp_client_ser L)) (wt_clients x)))]"

definition workspace_status_de :: "api_lib \<Rightarrow> json \<Rightarrow> workspace_status option" where
  "workspace_status_de L v = do {
     g \<leftarrow> struct_de [
       ''id'', ''display_name'', ''connected'', ''clients''] v;
     f_wt_id \<leftarrow> required as_str (g ''id'');
     f_wt_display_name \<leftarrow> required as_str (g ''display_name'');
     f_wt_connected \<leftarrow> required as_bool (g ''connected'');
     f_wt_clients \<leftarrow> required (vec_de (mcp_client_de L)) (g ''clients'');
     Some \<lparr>
       wt_id = f_wt_id, wt_display_name = f_wt_display_name, wt_connected = f_wt_connected,
       wt_clients = f_wt_clients\<rparr>
   }"

definition workspace_status_ok :: "workspace_status \<Rightarrow> bool" where
  "workspace_status_ok x \<longleftrightarrow>
     list_all mcp_client_ok (wt_clients x)"

lemma workspace_status_serde: "api_library L \<Longrightarrow> serde_field (workspace_status_ser L) (workspace_status_de L) workspace_status_ok"
  by (rule serde_field.intro, unfold_locales) (simp_all add: serde workspace_status_ser_def workspace_status_de_def workspace_status_ok_def
       serde_type.roundtrip [OF serde_field.axioms(1) [OF mcp_clients_serde]]
       serde_type.textual [OF serde_field.axioms(1) [OF mcp_clients_serde]])

lemma workspace_statuses_serde:
  "api_library L \<Longrightarrow> serde_field (vec_ser (workspace_status_ser L)) (vec_de (workspace_status_de L)) (list_all workspace_status_ok)"
  by (rule serde_vec) (rule serde_field.axioms(1) [OF workspace_status_serde])

definition mcp_status_ser :: "api_lib \<Rightarrow> mcp_status \<Rightarrow> json" where
  "mcp_status_ser L x = struct_ser [
     (''active'', Some (JBool (mt_active x))), (''port'', Some (JInt (mt_port x))),
     (''request_count'', Some (JInt (mt_request_count x))),
     (''workspaces'', Some ((vec_ser (workspace_status_ser L)) (mt_workspaces x)))]"

definition mcp_status_de :: "api_lib \<Rightarrow> json \<Rightarrow> mcp_status option" where
  "mcp_status_de L v = do {
     g \<leftarrow> struct_de [
       ''active'', ''port'', ''request_count'', ''workspaces''] v;
     f_mt_active \<leftarrow> required as_bool (g ''active'');
     f_mt_port \<leftarrow> required i32_de (g ''port'');
     f_mt_request_count \<leftarrow> required i32_de (g ''request_count'');
     f_mt_workspaces \<leftarrow> required (vec_de (workspace_status_de L)) (g ''workspaces'');
     Some \<lparr>
       mt_active = f_mt_active, mt_port = f_mt_port, mt_request_count = f_mt_request_count,
       mt_workspaces = f_mt_workspaces\<rparr>
   }"

definition mcp_status_ok :: "mcp_status \<Rightarrow> bool" where
  "mcp_status_ok x \<longleftrightarrow>
     i32_ok (mt_port x) \<and> i32_ok (mt_request_count x) \<and> list_all workspace_status_ok (mt_workspaces x)"

lemma mcp_status_serde: "api_library L \<Longrightarrow> serde_field (mcp_status_ser L) (mcp_status_de L) mcp_status_ok"
  by (rule serde_field.intro, unfold_locales) (simp_all add: serde mcp_status_ser_def mcp_status_de_def mcp_status_ok_def
       serde_type.roundtrip [OF serde_field.axioms(1) [OF workspace_statuses_serde]]
       serde_type.textual [OF serde_field.axioms(1) [OF workspace_statuses_serde]])

definition server_status_ser :: "api_lib \<Rightarrow> server_status \<Rightarrow> json" where
  "server_status_ser L x = struct_ser [
     (''sessions'', Some (JInt (st_sessions x))), (''active'', Some (JInt (st_active x))),
     (''busy'', Some (JBool (st_busy x))), (''idle_seconds'', Some (JInt (st_idle_seconds x))),
     (''busy_seconds'', Some (JInt (st_busy_seconds x))),
     (''uptime_seconds'', Some (JInt (st_uptime_seconds x))), (''version'', Some (JString (st_version x))),
     (''process_id'', Some (JInt (st_process_id x))), (''started'', Some ((time_ser L) (st_started x))),
     (''server_id'', map_option JString (st_server_id x)), (''mcp'', map_option (mcp_status_ser L) (st_mcp x))]"

definition server_status_de :: "api_lib \<Rightarrow> json \<Rightarrow> server_status option" where
  "server_status_de L v = do {
     g \<leftarrow> struct_de [
       ''sessions'', ''active'', ''busy'', ''idle_seconds'', ''busy_seconds'', ''uptime_seconds'', ''version'',
       ''process_id'', ''started'', ''server_id'', ''mcp''] v;
     f_st_sessions \<leftarrow> required i32_de (g ''sessions'');
     f_st_active \<leftarrow> required i32_de (g ''active'');
     f_st_busy \<leftarrow> required as_bool (g ''busy'');
     f_st_idle_seconds \<leftarrow> required i32_de (g ''idle_seconds'');
     f_st_busy_seconds \<leftarrow> required i32_de (g ''busy_seconds'');
     f_st_uptime_seconds \<leftarrow> required i32_de (g ''uptime_seconds'');
     f_st_version \<leftarrow> required as_str (g ''version'');
     f_st_process_id \<leftarrow> required i32_de (g ''process_id'');
     f_st_started \<leftarrow> required (time_de L) (g ''started'');
     f_st_server_id \<leftarrow> optional as_str (g ''server_id'');
     f_st_mcp \<leftarrow> optional (mcp_status_de L) (g ''mcp'');
     Some \<lparr>
       st_sessions = f_st_sessions, st_active = f_st_active, st_busy = f_st_busy,
       st_idle_seconds = f_st_idle_seconds, st_busy_seconds = f_st_busy_seconds,
       st_uptime_seconds = f_st_uptime_seconds, st_version = f_st_version, st_process_id = f_st_process_id,
       st_started = f_st_started, st_server_id = f_st_server_id, st_mcp = f_st_mcp\<rparr>
   }"

definition server_status_ok :: "server_status \<Rightarrow> bool" where
  "server_status_ok x \<longleftrightarrow>
     i32_ok (st_sessions x) \<and> i32_ok (st_active x) \<and> i32_ok (st_idle_seconds x) \<and>
     i32_ok (st_busy_seconds x) \<and> i32_ok (st_uptime_seconds x) \<and> i32_ok (st_process_id x) \<and>
     pred_option mcp_status_ok (st_mcp x)"

lemma server_status_serde: "api_library L \<Longrightarrow> serde_field (server_status_ser L) (server_status_de L) server_status_ok"
  by (rule serde_field.intro, unfold_locales) (simp_all add: serde server_status_ser_def server_status_de_def server_status_ok_def
       serde_type.roundtrip [OF serde_field.axioms(1) [OF api_library.time_serde]]
       serde_field.optional_roundtrip [OF mcp_status_serde]
       serde_type.textual [OF serde_field.axioms(1) [OF api_library.time_serde]]
       serde_field.optional_textual [OF mcp_status_serde])

definition active_session_ser :: "api_lib \<Rightarrow> active_session \<Rightarrow> json" where
  "active_session_ser L x = struct_ser [
     (''session_id'', Some (JString (as_session_id x))), (''argv'', Some ((vec_ser JString) (as_argv x))),
     (''process_id'', map_option JInt (as_process_id x)), (''username'', Some (JString (as_username x))),
     (''display_name'', Some (JString (as_display_name x))), (''language'', Some (JString (as_language x))),
     (''interrupt_mode'', Some (interrupt_mode_ser (as_interrupt_mode x))),
     (''initial_env'', map_option (env_ser L) (as_initial_env x)),
     (''connected'', Some (JBool (as_connected x))), (''started'', Some ((time_ser L) (as_started x))),
     (''session_mode'', Some (session_mode_ser (as_session_mode x))),
     (''working_directory'', Some (JString (as_working_directory x))),
     (''notebook_uri'', map_option JString (as_notebook_uri x)),
     (''input_prompt'', Some (JString (as_input_prompt x))),
     (''continuation_prompt'', Some (JString (as_continuation_prompt x))),
     (''execution_queue'', Some (execution_queue_ser (as_execution_queue x))),
     (''status'', Some (status_ser (as_status x))), (''kernel_info'', Some (as_kernel_info x)),
     (''resource_usage'', map_option resource_usage_ser (as_resource_usage x)),
     (''idle_seconds'', Some (JInt (as_idle_seconds x))), (''busy_seconds'', Some (JInt (as_busy_seconds x))),
     (''socket_path'', map_option JString (as_socket_path x)),
     (''history'', map_option (vec_ser history_entry_ser) (as_history x))]"

definition active_session_de :: "api_lib \<Rightarrow> json \<Rightarrow> active_session option" where
  "active_session_de L v = do {
     g \<leftarrow> struct_de [
       ''session_id'', ''argv'', ''process_id'', ''username'', ''display_name'', ''language'',
       ''interrupt_mode'', ''initial_env'', ''connected'', ''started'', ''session_mode'',
       ''working_directory'', ''notebook_uri'', ''input_prompt'', ''continuation_prompt'', ''execution_queue'',
       ''status'', ''kernel_info'', ''resource_usage'', ''idle_seconds'', ''busy_seconds'', ''socket_path'',
       ''history''] v;
     f_as_session_id \<leftarrow> required as_str (g ''session_id'');
     f_as_argv \<leftarrow> required (vec_de as_str) (g ''argv'');
     f_as_process_id \<leftarrow> optional i32_de (g ''process_id'');
     f_as_username \<leftarrow> required as_str (g ''username'');
     f_as_display_name \<leftarrow> required as_str (g ''display_name'');
     f_as_language \<leftarrow> required as_str (g ''language'');
     f_as_interrupt_mode \<leftarrow> required interrupt_mode_de (g ''interrupt_mode'');
     f_as_initial_env \<leftarrow> optional env_de (g ''initial_env'');
     f_as_connected \<leftarrow> required as_bool (g ''connected'');
     f_as_started \<leftarrow> required (time_de L) (g ''started'');
     f_as_session_mode \<leftarrow> required session_mode_de (g ''session_mode'');
     f_as_working_directory \<leftarrow> required as_str (g ''working_directory'');
     f_as_notebook_uri \<leftarrow> optional as_str (g ''notebook_uri'');
     f_as_input_prompt \<leftarrow> required as_str (g ''input_prompt'');
     f_as_continuation_prompt \<leftarrow> required as_str (g ''continuation_prompt'');
     f_as_execution_queue \<leftarrow> required execution_queue_de (g ''execution_queue'');
     f_as_status \<leftarrow> required status_de (g ''status'');
     f_as_kernel_info \<leftarrow> required (\<lambda>v. Some (value_de v)) (g ''kernel_info'');
     f_as_resource_usage \<leftarrow> optional resource_usage_de (g ''resource_usage'');
     f_as_idle_seconds \<leftarrow> required i32_de (g ''idle_seconds'');
     f_as_busy_seconds \<leftarrow> required i32_de (g ''busy_seconds'');
     f_as_socket_path \<leftarrow> optional as_str (g ''socket_path'');
     f_as_history \<leftarrow> optional (vec_de history_entry_de) (g ''history'');
     Some \<lparr>
       as_session_id = f_as_session_id, as_argv = f_as_argv, as_process_id = f_as_process_id,
       as_username = f_as_username, as_display_name = f_as_display_name, as_language = f_as_language,
       as_interrupt_mode = f_as_interrupt_mode, as_initial_env = f_as_initial_env,
       as_connected = f_as_connected, as_started = f_as_started, as_session_mode = f_as_session_mode,
       as_working_directory = f_as_working_directory, as_notebook_uri = f_as_notebook_uri,
       as_input_prompt = f_as_input_prompt, as_continuation_prompt = f_as_continuation_prompt,
       as_execution_queue = f_as_execution_queue, as_status = f_as_status, as_kernel_info = f_as_kernel_info,
       as_resource_usage = f_as_resource_usage, as_idle_seconds = f_as_idle_seconds,
       as_busy_seconds = f_as_busy_seconds, as_socket_path = f_as_socket_path, as_history = f_as_history\<rparr>
   }"

definition active_session_ok :: "active_session \<Rightarrow> bool" where
  "active_session_ok x \<longleftrightarrow>
     pred_option i32_ok (as_process_id x) \<and> pred_option env_ok (as_initial_env x) \<and>
     execution_queue_ok (as_execution_queue x) \<and> value_ok (as_kernel_info x) \<and>
     pred_option resource_usage_ok (as_resource_usage x) \<and> i32_ok (as_idle_seconds x) \<and>
     i32_ok (as_busy_seconds x) \<and> pred_option (list_all history_entry_ok) (as_history x)"

lemma active_session_serde: "api_library L \<Longrightarrow> serde_field (active_session_ser L) (active_session_de L) active_session_ok"
  by (rule serde_field.intro, unfold_locales) (simp_all add: serde active_session_ser_def active_session_de_def active_session_ok_def
       serde_field.optional_roundtrip [OF api_library.env_serde]
       serde_type.roundtrip [OF serde_field.axioms(1) [OF api_library.time_serde]]
       serde_field.optional_textual [OF api_library.env_serde]
       serde_type.textual [OF serde_field.axioms(1) [OF api_library.time_serde]])

lemma active_sessions_serde:
  "api_library L \<Longrightarrow> serde_field (vec_ser (active_session_ser L)) (vec_de (active_session_de L)) (list_all active_session_ok)"
  by (rule serde_vec) (rule serde_field.axioms(1) [OF active_session_serde])

definition session_list_ser :: "api_lib \<Rightarrow> session_list \<Rightarrow> json" where
  "session_list_ser L x = struct_ser [
     (''total'', Some (JInt (sl_total x))),
     (''sessions'', Some ((vec_ser (active_session_ser L)) (sl_sessions x)))]"

definition session_list_de :: "api_lib \<Rightarrow> json \<Rightarrow> session_list option" where
  "session_list_de L v = do {
     g \<leftarrow> struct_de [
       ''total'', ''sessions''] v;
     f_sl_total \<leftarrow> required i32_de (g ''total'');
     f_sl_sessions \<leftarrow> required (vec_de (active_session_de L)) (g ''sessions'');
     Some \<lparr>
       sl_total = f_sl_total, sl_sessions = f_sl_sessions\<rparr>
   }"

definition session_list_ok :: "session_list \<Rightarrow> bool" where
  "session_list_ok x \<longleftrightarrow>
     i32_ok (sl_total x) \<and> list_all active_session_ok (sl_sessions x)"

lemma session_list_serde: "api_library L \<Longrightarrow> serde_field (session_list_ser L) (session_list_de L) session_list_ok"
  by (rule serde_field.intro, unfold_locales) (simp_all add: serde session_list_ser_def session_list_de_def session_list_ok_def
       serde_type.roundtrip [OF serde_field.axioms(1) [OF active_sessions_serde]]
       serde_type.textual [OF serde_field.axioms(1) [OF active_sessions_serde]])

end
