(* ===== verification/KC_Api.thy ===== *)
theory KC_Api
  imports KC_Models
begin

text \<open>
  The generated API crate on the server's side: the responses an operation may give (\<open>lib.rs\<close>), the
  trait \<open>Api\<close> as a record of operations, the router of \<open>server/mod.rs\<close> with its path patterns, the reading of
  path and body parameters, the encoding of each response, and \<open>AddContext\<close> of \<open>context.rs\<close>.

  An operation changes a state of any type, so that the same router serves the model of the server or any
  other implementation. A panic is the result \<open>None\<close>, next to the state it leaves behind. Of a request the
  router sees the method, the path of the URI, the headers and the body, whose collection may fail.
\<close>

section \<open>Responses\<close>

datatype client_heartbeat_response =
    ClientHeartbeat_HeartbeatReceived json

datatype get_server_configuration_response =
    GetServerConfiguration_TheCurrentServerConfiguration server_configuration
  | GetServerConfiguration_FailedToGetConfiguration api_error

datatype list_sessions_response =
    ListSessions_ListOfActiveSessions session_list

datatype new_session_response =
    NewSession_TheSessionID new_session_id
  | NewSession_InvalidRequest api_error
  | NewSession_Unauthorized

datatype register_mcp_workspace_response =
    RegisterMcpWorkspace_WorkspaceRegistered mcp_workspace
  | RegisterMcpWorkspace_InvalidRequest api_error
  | RegisterMcpWorkspace_Unauthorized

datatype server_status_response =
    ServerStatus_ServerStatusAndInformation server_status
  | ServerStatus_Error api_error

datatype set_server_configuration_response =
    SetServerConfiguration_ConfigurationUpdated json
  | SetServerConfiguration_Error api_error

datatype shutdown_server_response =
    ShutdownServer_ShuttingDown json
  | ShutdownServer_ShutdownFailed api_error
  | ShutdownServer_Unauthorized

datatype adopt_session_response =
    AdoptSession_Adopted json
  | AdoptSession_AdoptionFailed api_error
  | AdoptSession_SessionNotFound
  | AdoptSession_Unauthorized

datatype channels_upgrade_response =
    ChannelsUpgrade_UpgradedConnection string
  | ChannelsUpgrade_InvalidRequest api_error
  | ChannelsUpgrade_Unauthorized
  | ChannelsUpgrade_SessionNotFound

datatype connection_info_response =
    ConnectionInfo_ConnectionInfo connection_info
  | ConnectionInfo_Failed api_error
  | ConnectionInfo_Unauthorized
  | ConnectionInfo_SessionNotFound

datatype delete_session_response =
    DeleteSession_SessionDeleted json
  | DeleteSession_FailedToDeleteSession api_error
  | DeleteSession_Unauthorized
  | DeleteSession_SessionNotFound

datatype deregister_mcp_workspace_response =
    DeregisterMcpWorkspace_WorkspaceDeregistered
  | DeregisterMcpWorkspace_Unauthorized
  | DeregisterMcpWorkspace_WorkspaceNotFound

datatype execute_code_response =
    ExecuteCode_ExecutionCompleted execute_reply
  | ExecuteCode_InvalidRequest api_error
  | ExecuteCode_Unauthorized
  | ExecuteCode_SessionNotFound
  | ExecuteCode_ExecutionTimedOut api_error

datatype get_session_response =
    GetSession_SessionDetails active_session
  | GetSession_FailedToGetSession api_error
  | GetSession_SessionNotFound

datatype get_session_history_response =
    GetSessionHistory_ExecutionHistory "history_entry_model list"
  | GetSessionHistory_Unauthorized
  | GetSessionHistory_SessionNotFound

datatype interrupt_session_response =
    InterruptSession_Interrupted json
  | InterruptSession_InterruptFailed api_error
  | InterruptSession_Unauthorized
  | InterruptSession_SessionNotFound

datatype kill_session_response =
    KillSession_Killed json
  | KillSession_KillFailed api_error
  | KillSession_Unauthorized
  | KillSession_SessionNotFound

datatype mcp_workspace_channel_response =
    McpWorkspaceChannel_UpgradedConnection
  | McpWorkspaceChannel_InvalidRequest api_error
  | McpWorkspaceChannel_Unauthorized
  | McpWorkspaceChannel_WorkspaceNotFound

datatype restart_session_response =
    RestartSession_Restarted json
  | RestartSession_RestartFailed startup_error
  | RestartSession_Unauthorized
  | RestartSession_SessionNotFound

datatype start_session_response =
    StartSession_Started json
  | StartSession_StartFailed startup_error
  | StartSession_SessionNotFound
  | StartSession_Unauthorized

section \<open>The interface\<close>

record api_context =
  cx_span_id :: string
  cx_auth :: "auth_data option"

type_synonym ('r, 's) answer = "(string + 'r) option \<times> 's"

text \<open>The trait \<open>Api\<close>: an operation gives a response, an error or a panic.\<close>

record 's api =
  api_client_heartbeat :: "heartbeat_model \<Rightarrow> api_context \<Rightarrow> 's \<Rightarrow> (client_heartbeat_response, 's) answer"
  api_get_server_configuration :: "api_context \<Rightarrow> 's \<Rightarrow> (get_server_configuration_response, 's) answer"
  api_list_sessions :: "api_context \<Rightarrow> 's \<Rightarrow> (list_sessions_response, 's) answer"
  api_new_session :: "new_session \<Rightarrow> api_context \<Rightarrow> 's \<Rightarrow> (new_session_response, 's) answer"
  api_register_mcp_workspace :: "mcp_registration \<Rightarrow> api_context \<Rightarrow> 's \<Rightarrow> (register_mcp_workspace_response, 's) answer"
  api_server_status :: "api_context \<Rightarrow> 's \<Rightarrow> (server_status_response, 's) answer"
  api_set_server_configuration :: "server_configuration \<Rightarrow> api_context \<Rightarrow> 's \<Rightarrow> (set_server_configuration_response, 's) answer"
  api_shutdown_server :: "api_context \<Rightarrow> 's \<Rightarrow> (shutdown_server_response, 's) answer"
  api_adopt_session :: "string \<Rightarrow> connection_info \<Rightarrow> api_context \<Rightarrow> 's \<Rightarrow> (adopt_session_response, 's) answer"
  api_channels_upgrade :: "string \<Rightarrow> api_context \<Rightarrow> 's \<Rightarrow> (channels_upgrade_response, 's) answer"
  api_connection_info :: "string \<Rightarrow> api_context \<Rightarrow> 's \<Rightarrow> (connection_info_response, 's) answer"
  api_delete_session :: "string \<Rightarrow> api_context \<Rightarrow> 's \<Rightarrow> (delete_session_response, 's) answer"
  api_deregister_mcp_workspace :: "string \<Rightarrow> api_context \<Rightarrow> 's \<Rightarrow> (deregister_mcp_workspace_response, 's) answer"
  api_execute_code :: "string \<Rightarrow> execute_request \<Rightarrow> api_context \<Rightarrow> 's \<Rightarrow> (execute_code_response, 's) answer"
  api_get_session :: "string \<Rightarrow> api_context \<Rightarrow> 's \<Rightarrow> (get_session_response, 's) answer"
  api_get_session_history :: "string \<Rightarrow> api_context \<Rightarrow> 's \<Rightarrow> (get_session_history_response, 's) answer"
  api_interrupt_session :: "string \<Rightarrow> api_context \<Rightarrow> 's \<Rightarrow> (interrupt_session_response, 's) answer"
  api_kill_session :: "string \<Rightarrow> api_context \<Rightarrow> 's \<Rightarrow> (kill_session_response, 's) answer"
  api_mcp_workspace_channel :: "string \<Rightarrow> api_context \<Rightarrow> 's \<Rightarrow> (mcp_workspace_channel_response, 's) answer"
  api_restart_session :: "string \<Rightarrow> restart_session_model option \<Rightarrow> api_context \<Rightarrow> 's \<Rightarrow> (restart_session_response, 's) answer"
  api_start_session :: "string \<Rightarrow> api_context \<Rightarrow> 's \<Rightarrow> (start_session_response, 's) answer"

section \<open>Paths\<close>

text \<open>The expressions \<open>^path$\<close> and \<open>^pre(?P<name>[^/?#]*)post$\<close>. The captured part may be empty.\<close>

datatype path_pattern = Exact string | Captured string string

fun captures :: "path_pattern \<Rightarrow> string \<Rightarrow> string option" where
  "captures (Exact p) path = (if path = p then Some [] else None)"
| "captures (Captured pre post) path =
     (case strip_prefix pre path of
        None \<Rightarrow> None
      | Some rest \<Rightarrow>
          (case strip_suffix post rest of
             None \<Rightarrow> None
           | Some raw \<Rightarrow> if list_ex (\<lambda>c. c \<in> {CHR ''/'', CHR ''?'', CHR ''#''}) raw then None else Some raw))"

definition GLOBAL_REGEX_SET :: "path_pattern list" where
  "GLOBAL_REGEX_SET = [
     Exact ''/client_heartbeat'',
     Exact ''/mcp/workspaces'',
     Captured ''/mcp/workspaces/'' [],
     Captured ''/mcp/workspaces/'' ''/channel'',
     Exact ''/server_configuration'',
     Exact ''/sessions'',
     Captured ''/sessions/'' [],
     Captured ''/sessions/'' ''/adopt'',
     Captured ''/sessions/'' ''/channels'',
     Captured ''/sessions/'' ''/connection_info'',
     Captured ''/sessions/'' ''/execute'',
     Captured ''/sessions/'' ''/history'',
     Captured ''/sessions/'' ''/interrupt'',
     Captured ''/sessions/'' ''/kill'',
     Captured ''/sessions/'' ''/restart'',
     Captured ''/sessions/'' ''/start'',
     Exact ''/shutdown'',
     Exact ''/status'']"

definition ID_CLIENT_HEARTBEAT :: nat where "ID_CLIENT_HEARTBEAT = 0"
definition ID_MCP_WORKSPACES :: nat where "ID_MCP_WORKSPACES = 1"
definition ID_MCP_WORKSPACES_WORKSPACE_ID :: nat where "ID_MCP_WORKSPACES_WORKSPACE_ID = 2"
definition ID_MCP_WORKSPACES_WORKSPACE_ID_CHANNEL :: nat where "ID_MCP_WORKSPACES_WORKSPACE_ID_CHANNEL = 3"
definition ID_SERVER_CONFIGURATION :: nat where "ID_SERVER_CONFIGURATION = 4"
definition ID_SESSIONS :: nat where "ID_SESSIONS = 5"
definition ID_SESSIONS_SESSION_ID :: nat where "ID_SESSIONS_SESSION_ID = 6"
definition ID_SESSIONS_SESSION_ID_ADOPT :: nat where "ID_SESSIONS_SESSION_ID_ADOPT = 7"
definition ID_SESSIONS_SESSION_ID_CHANNELS :: nat where "ID_SESSIONS_SESSION_ID_CHANNELS = 8"
definition ID_SESSIONS_SESSION_ID_CONNECTION_INFO :: nat where "ID_SESSIONS_SESSION_ID_CONNECTION_INFO = 9"
definition ID_SESSIONS_SESSION_ID_EXECUTE :: nat where "ID_SESSIONS_SESSION_ID_EXECUTE = 10"
definition ID_SESSIONS_SESSION_ID_HISTORY :: nat where "ID_SESSIONS_SESSION_ID_HISTORY = 11"
definition ID_SESSIONS_SESSION_ID_INTERRUPT :: nat where "ID_SESSIONS_SESSION_ID_INTERRUPT = 12"
definition ID_SESSIONS_SESSION_ID_KILL :: nat where "ID_SESSIONS_SESSION_ID_KILL = 13"
definition ID_SESSIONS_SESSION_ID_RESTART :: nat where "ID_SESSIONS_SESSION_ID_RESTART = 14"
definition ID_SESSIONS_SESSION_ID_START :: nat where "ID_SESSIONS_SESSION_ID_START = 15"
definition ID_SHUTDOWN :: nat where "ID_SHUTDOWN = 16"
definition ID_STATUS :: nat where "ID_STATUS = 17"

definition REGEX_MCP_WORKSPACES_WORKSPACE_ID :: path_pattern where
  "REGEX_MCP_WORKSPACES_WORKSPACE_ID = Captured ''/mcp/workspaces/'' []"
definition REGEX_MCP_WORKSPACES_WORKSPACE_ID_CHANNEL :: path_pattern where
  "REGEX_MCP_WORKSPACES_WORKSPACE_ID_CHANNEL = Captured ''/mcp/workspaces/'' ''/channel''"
definition REGEX_SESSIONS_SESSION_ID :: path_pattern where
  "REGEX_SESSIONS_SESSION_ID = Captured ''/sessions/'' []"
definition REGEX_SESSIONS_SESSION_ID_ADOPT :: path_pattern where
  "REGEX_SESSIONS_SESSION_ID_ADOPT = Captured ''/sessions/'' ''/adopt''"
definition REGEX_SESSIONS_SESSION_ID_CHANNELS :: path_pattern where
  "REGEX_SESSIONS_SESSION_ID_CHANNELS = Captured ''/sessions/'' ''/channels''"
definition REGEX_SESSIONS_SESSION_ID_CONNECTION_INFO :: path_pattern where
  "REGEX_SESSIONS_SESSION_ID_CONNECTION_INFO = Captured ''/sessions/'' ''/connection_info''"
definition REGEX_SESSIONS_SESSION_ID_EXECUTE :: path_pattern where
  "REGEX_SESSIONS_SESSION_ID_EXECUTE = Captured ''/sessions/'' ''/execute''"
definition REGEX_SESSIONS_SESSION_ID_HISTORY :: path_pattern where
  "REGEX_SESSIONS_SESSION_ID_HISTORY = Captured ''/sessions/'' ''/history''"
definition REGEX_SESSIONS_SESSION_ID_INTERRUPT :: path_pattern where
  "REGEX_SESSIONS_SESSION_ID_INTERRUPT = Captured ''/sessions/'' ''/interrupt''"
definition REGEX_SESSIONS_SESSION_ID_KILL :: path_pattern where
  "REGEX_SESSIONS_SESSION_ID_KILL = Captured ''/sessions/'' ''/kill''"
definition REGEX_SESSIONS_SESSION_ID_RESTART :: path_pattern where
  "REGEX_SESSIONS_SESSION_ID_RESTART = Captured ''/sessions/'' ''/restart''"
definition REGEX_SESSIONS_SESSION_ID_START :: path_pattern where
  "REGEX_SESSIONS_SESSION_ID_START = Captured ''/sessions/'' ''/start''"

definition matched :: "nat \<Rightarrow> string \<Rightarrow> bool" where
  "matched i path \<longleftrightarrow> captures (GLOBAL_REGEX_SET ! i) path \<noteq> None"

section \<open>Requests and responses\<close>

record http_call =
  hc_method :: string
  hc_path :: string
  hc_headers :: "(string \<times> string) list"
  hc_body :: "string + string"

record http_response =
  hx_status :: nat
  hx_headers :: "(string \<times> string) list"
  hx_body :: "string + string"

type_synonym 's served = "http_response option \<times> 's"

definition bad_request :: "string \<Rightarrow> http_response" where
  "bad_request message = \<lparr>hx_status = 400, hx_headers = [], hx_body = Inr message\<rparr>"

definition method_not_allowed :: http_response where
  "method_not_allowed = \<lparr>hx_status = 405, hx_headers = [], hx_body = Inr []\<rparr>"

definition route_not_found :: http_response where
  "route_not_found = \<lparr>hx_status = 404, hx_headers = [], hx_body = Inr []\<rparr>"

text \<open>
  A path parameter. The set matched the path, so the pattern on its own must match too; otherwise the code
  panics. The parameter is decoded from its percent encoding.
\<close>

definition with_path_param ::
  "api_lib \<Rightarrow> path_pattern \<Rightarrow> string \<Rightarrow> 's \<Rightarrow> (string \<Rightarrow> 's served) \<Rightarrow> 's served" where
  "with_path_param L pattern path s k =
     (case captures pattern path of
        None \<Rightarrow> (None, s)
      | Some raw \<Rightarrow>
          (case al_percent_decode L raw of
             None \<Rightarrow> (Some (bad_request (''Couldn'' @ [CHR 0x27] @ ''t percent-decode path parameter as UTF-8: '' @ raw)), s)
           | Some param \<Rightarrow> k param))"

text \<open>
  A body is read as an optional model: an empty body and \<open>null\<close> are both absent. Text after the value is
  not looked at.
\<close>

definition read_body :: "api_lib \<Rightarrow> string \<Rightarrow> (json \<Rightarrow> 'a option) \<Rightarrow> string \<Rightarrow> string + 'a option" where
  "read_body L name de body =
     (if body = [] then Inr None
      else
        (case al_from_slice L body of
           Inl e \<Rightarrow> Inl e
         | Inr JNull \<Rightarrow> Inr None
         | Inr v \<Rightarrow> (case de v of None \<Rightarrow> Inl (al_mismatch L name body) | Some x \<Rightarrow> Inr (Some x))))"

definition with_required_body ::
  "api_lib \<Rightarrow> string \<Rightarrow> (json \<Rightarrow> 'a option) \<Rightarrow> string + string \<Rightarrow> 's \<Rightarrow> (string list \<Rightarrow> 'a \<Rightarrow> 's served) \<Rightarrow> 's served" where
  "with_required_body L name de body s k =
     (case body of
        Inl e \<Rightarrow> (Some (bad_request (''Unable to read body: '' @ e)), s)
      | Inr b \<Rightarrow>
          (case read_body L name de b of
             Inl e \<Rightarrow> (Some (bad_request (''Couldn'' @ [CHR 0x27] @ ''t parse body parameter '' @ name @ '' - doesn'' @ [CHR 0x27] @
                        ''t match schema: '' @ e)), s)
           | Inr None \<Rightarrow> (Some (bad_request (''Missing required body parameter '' @ name)), s)
           | Inr (Some x) \<Rightarrow> k (al_ignored L name b) x))"

text \<open>An optional body that does not parse is absent.\<close>

definition with_optional_body ::
  "api_lib \<Rightarrow> string \<Rightarrow> (json \<Rightarrow> 'a option) \<Rightarrow> string + string \<Rightarrow> 's \<Rightarrow> (string list \<Rightarrow> 'a option \<Rightarrow> 's served) \<Rightarrow> 's served" where
  "with_optional_body L name de body s k =
     (case body of
        Inl e \<Rightarrow> (Some (bad_request (''Unable to read body: '' @ e)), s)
      | Inr b \<Rightarrow>
          (if b = [] then k [] None
           else k (al_ignored L name b) (case read_body L name de b of Inr x \<Rightarrow> x | Inl _ \<Rightarrow> None)))"

text \<open>
  The answer of an operation as a response, with the headers in the order in which they are set. The text of
  a header that is not valid in one is a panic, after the operation has run.
\<close>

definition warning_text :: "api_lib \<Rightarrow> string list \<Rightarrow> string" where
  "warning_text L unused = ''Ignoring unknown fields in body: '' @ al_debug L unused"

definition respond ::
  "api_lib \<Rightarrow> api_context \<Rightarrow> string list \<Rightarrow> ('r \<Rightarrow> nat \<times> json option) \<Rightarrow> ('r, 's) answer \<Rightarrow> 's served" where
  "respond L cx unused wire answer =
     (case answer of
        (None, s) \<Rightarrow> (None, s)
      | (Some result, s) \<Rightarrow>
          if \<not> al_header_ok L (cx_span_id cx) \<or> unused \<noteq> [] \<and> \<not> al_header_ok L (warning_text L unused) then (None, s)
          else
            (let hs = (''x-span-id'', cx_span_id cx) # (if unused = [] then [] else [(''warning'', warning_text L unused)]) in
             case result of
               Inl _ \<Rightarrow> (Some \<lparr>hx_status = 500, hx_headers = hs, hx_body = Inr ''An internal error occurred''\<rparr>, s)
             | Inr rsp \<Rightarrow>
                 (case wire rsp of
                    (code, None) \<Rightarrow> (Some \<lparr>hx_status = code, hx_headers = hs, hx_body = Inr []\<rparr>, s)
                  | (code, Some j) \<Rightarrow>
                      (Some \<lparr>hx_status = code, hx_headers = hs @ [(''content-type'', ''application/json'')],
                         hx_body = Inr (al_to_string L j)\<rparr>, s))))"

section \<open>The arms of the router\<close>

fun client_heartbeat_wire :: "client_heartbeat_response \<Rightarrow> nat \<times> json option" where
  "client_heartbeat_wire (ClientHeartbeat_HeartbeatReceived x) = (200, Some x)"

definition serve_client_heartbeat :: "api_lib \<Rightarrow> 's api \<Rightarrow> api_context \<Rightarrow> http_call \<Rightarrow> 's \<Rightarrow> 's served" where
  "serve_client_heartbeat L a cx rq s =
     with_required_body L ''ClientHeartbeat'' heartbeat_de (hc_body rq) s (\<lambda>unused x.
       respond L cx unused client_heartbeat_wire (api_client_heartbeat a x cx s))"

fun get_server_configuration_wire :: "get_server_configuration_response \<Rightarrow> nat \<times> json option" where
  "get_server_configuration_wire (GetServerConfiguration_TheCurrentServerConfiguration x) = (200, Some (server_configuration_ser x))"
| "get_server_configuration_wire (GetServerConfiguration_FailedToGetConfiguration x) = (400, Some (api_error_ser x))"

definition serve_get_server_configuration :: "api_lib \<Rightarrow> 's api \<Rightarrow> api_context \<Rightarrow> http_call \<Rightarrow> 's \<Rightarrow> 's served" where
  "serve_get_server_configuration L a cx rq s =
     respond L cx [] get_server_configuration_wire (api_get_server_configuration a cx s)"

fun list_sessions_wire :: "api_lib \<Rightarrow> list_sessions_response \<Rightarrow> nat \<times> json option" where
  "list_sessions_wire L (ListSessions_ListOfActiveSessions x) = (200, Some (session_list_ser L x))"

definition serve_list_sessions :: "api_lib \<Rightarrow> 's api \<Rightarrow> api_context \<Rightarrow> http_call \<Rightarrow> 's \<Rightarrow> 's served" where
  "serve_list_sessions L a cx rq s =
     respond L cx [] (list_sessions_wire L) (api_list_sessions a cx s)"

fun new_session_wire :: "new_session_response \<Rightarrow> nat \<times> json option" where
  "new_session_wire (NewSession_TheSessionID x) = (200, Some (new_session_id_ser x))"
| "new_session_wire (NewSession_InvalidRequest x) = (400, Some (api_error_ser x))"
| "new_session_wire NewSession_Unauthorized = (401, None)"

definition serve_new_session :: "api_lib \<Rightarrow> 's api \<Rightarrow> api_context \<Rightarrow> http_call \<Rightarrow> 's \<Rightarrow> 's served" where
  "serve_new_session L a cx rq s =
     with_required_body L ''NewSession'' new_session_de (hc_body rq) s (\<lambda>unused x.
       respond L cx unused new_session_wire (api_new_session a x cx s))"

fun register_mcp_workspace_wire :: "register_mcp_workspace_response \<Rightarrow> nat \<times> json option" where
  "register_mcp_workspace_wire (RegisterMcpWorkspace_WorkspaceRegistered x) = (200, Some (mcp_workspace_ser x))"
| "register_mcp_workspace_wire (RegisterMcpWorkspace_InvalidRequest x) = (400, Some (api_error_ser x))"
| "register_mcp_workspace_wire RegisterMcpWorkspace_Unauthorized = (401, None)"

definition serve_register_mcp_workspace :: "api_lib \<Rightarrow> 's api \<Rightarrow> api_context \<Rightarrow> http_call \<Rightarrow> 's \<Rightarrow> 's served" where
  "serve_register_mcp_workspace L a cx rq s =
     with_required_body L ''McpWorkspaceRegistration'' mcp_registration_de (hc_body rq) s (\<lambda>unused x.
       respond L cx unused register_mcp_workspace_wire (api_register_mcp_workspace a x cx s))"

fun server_status_wire :: "api_lib \<Rightarrow> server_status_response \<Rightarrow> nat \<times> json option" where
  "server_status_wire L (ServerStatus_ServerStatusAndInformation x) = (200, Some (server_status_ser L x))"
| "server_status_wire L (ServerStatus_Error x) = (400, Some (api_error_ser x))"

definition serve_server_status :: "api_lib \<Rightarrow> 's api \<Rightarrow> api_context \<Rightarrow> http_call \<Rightarrow> 's \<Rightarrow> 's served" where
  "serve_server_status L a cx rq s =
     respond L cx [] (server_status_wire L) (api_server_status a cx s)"

fun set_server_configuration_wire :: "set_server_configuration_response \<Rightarrow> nat \<times> json option" where
  "set_server_configuration_wire (SetServerConfiguration_ConfigurationUpdated x) = (200, Some x)"
| "set_server_configuration_wire (SetServerConfiguration_Error x) = (400, Some (api_error_ser x))"

definition serve_set_server_configuration :: "api_lib \<Rightarrow> 's api \<Rightarrow> api_context \<Rightarrow> http_call \<Rightarrow> 's \<Rightarrow> 's served" where
  "serve_set_server_configuration L a cx rq s =
     with_required_body L ''ServerConfiguration'' server_configuration_de (hc_body rq) s (\<lambda>unused x.
       respond L cx unused set_server_configuration_wire (api_set_server_configuration a x cx s))"

fun shutdown_server_wire :: "shutdown_server_response \<Rightarrow> nat \<times> json option" where
  "shutdown_server_wire (ShutdownServer_ShuttingDown x) = (200, Some x)"
| "shutdown_server_wire (ShutdownServer_ShutdownFailed x) = (400, Some (api_error_ser x))"
| "shutdown_server_wire ShutdownServer_Unauthorized = (401, None)"

definition serve_shutdown_server :: "api_lib \<Rightarrow> 's api \<Rightarrow> api_context \<Rightarrow> http_call \<Rightarrow> 's \<Rightarrow> 's served" where
  "serve_shutdown_server L a cx rq s =
     respond L cx [] shutdown_server_wire (api_shutdown_server a cx s)"

fun adopt_session_wire :: "adopt_session_response \<Rightarrow> nat \<times> json option" where
  "adopt_session_wire (AdoptSession_Adopted x) = (200, Some x)"
| "adopt_session_wire (AdoptSession_AdoptionFailed x) = (500, Some (api_error_ser x))"
| "adopt_session_wire AdoptSession_SessionNotFound = (404, None)"
| "adopt_session_wire AdoptSession_Unauthorized = (401, None)"

definition serve_adopt_session :: "api_lib \<Rightarrow> 's api \<Rightarrow> api_context \<Rightarrow> http_call \<Rightarrow> 's \<Rightarrow> 's served" where
  "serve_adopt_session L a cx rq s =
     with_path_param L REGEX_SESSIONS_SESSION_ID_ADOPT (hc_path rq) s (\<lambda>i.
       with_required_body L ''ConnectionInfo'' connection_info_de (hc_body rq) s (\<lambda>unused x.
       respond L cx unused adopt_session_wire (api_adopt_session a i x cx s)))"

fun channels_upgrade_wire :: "channels_upgrade_response \<Rightarrow> nat \<times> json option" where
  "channels_upgrade_wire (ChannelsUpgrade_UpgradedConnection x) = (200, Some (JString x))"
| "channels_upgrade_wire (ChannelsUpgrade_InvalidRequest x) = (400, Some (api_error_ser x))"
| "channels_upgrade_wire ChannelsUpgrade_Unauthorized = (401, None)"
| "channels_upgrade_wire ChannelsUpgrade_SessionNotFound = (404, None)"

definition serve_channels_upgrade :: "api_lib \<Rightarrow> 's api \<Rightarrow> api_context \<Rightarrow> http_call \<Rightarrow> 's \<Rightarrow> 's served" where
  "serve_channels_upgrade L a cx rq s =
     with_path_param L REGEX_SESSIONS_SESSION_ID_CHANNELS (hc_path rq) s (\<lambda>i.
       respond L cx [] channels_upgrade_wire (api_channels_upgrade a i cx s))"

fun connection_info_wire :: "connection_info_response \<Rightarrow> nat \<times> json option" where
  "connection_info_wire (ConnectionInfo_ConnectionInfo x) = (200, Some (connection_info_ser x))"
| "connection_info_wire (ConnectionInfo_Failed x) = (500, Some (api_error_ser x))"
| "connection_info_wire ConnectionInfo_Unauthorized = (401, None)"
| "connection_info_wire ConnectionInfo_SessionNotFound = (404, None)"

definition serve_connection_info :: "api_lib \<Rightarrow> 's api \<Rightarrow> api_context \<Rightarrow> http_call \<Rightarrow> 's \<Rightarrow> 's served" where
  "serve_connection_info L a cx rq s =
     with_path_param L REGEX_SESSIONS_SESSION_ID_CONNECTION_INFO (hc_path rq) s (\<lambda>i.
       respond L cx [] connection_info_wire (api_connection_info a i cx s))"

fun delete_session_wire :: "delete_session_response \<Rightarrow> nat \<times> json option" where
  "delete_session_wire (DeleteSession_SessionDeleted x) = (200, Some x)"
| "delete_session_wire (DeleteSession_FailedToDeleteSession x) = (400, Some (api_error_ser x))"
| "delete_session_wire DeleteSession_Unauthorized = (401, None)"
| "delete_session_wire DeleteSession_SessionNotFound = (404, None)"

definition serve_delete_session :: "api_lib \<Rightarrow> 's api \<Rightarrow> api_context \<Rightarrow> http_call \<Rightarrow> 's \<Rightarrow> 's served" where
  "serve_delete_session L a cx rq s =
     with_path_param L REGEX_SESSIONS_SESSION_ID (hc_path rq) s (\<lambda>i.
       respond L cx [] delete_session_wire (api_delete_session a i cx s))"

fun deregister_mcp_workspace_wire :: "deregister_mcp_workspace_response \<Rightarrow> nat \<times> json option" where
  "deregister_mcp_workspace_wire DeregisterMcpWorkspace_WorkspaceDeregistered = (200, None)"
| "deregister_mcp_workspace_wire DeregisterMcpWorkspace_Unauthorized = (401, None)"
| "deregister_mcp_workspace_wire DeregisterMcpWorkspace_WorkspaceNotFound = (404, None)"

definition serve_deregister_mcp_workspace :: "api_lib \<Rightarrow> 's api \<Rightarrow> api_context \<Rightarrow> http_call \<Rightarrow> 's \<Rightarrow> 's served" where
  "serve_deregister_mcp_workspace L a cx rq s =
     with_path_param L REGEX_MCP_WORKSPACES_WORKSPACE_ID (hc_path rq) s (\<lambda>i.
       respond L cx [] deregister_mcp_workspace_wire (api_deregister_mcp_workspace a i cx s))"

fun execute_code_wire :: "execute_code_response \<Rightarrow> nat \<times> json option" where
  "execute_code_wire (ExecuteCode_ExecutionCompleted x) = (200, Some (execute_reply_ser x))"
| "execute_code_wire (ExecuteCode_InvalidRequest x) = (400, Some (api_error_ser x))"
| "execute_code_wire ExecuteCode_Unauthorized = (401, None)"
| "execute_code_wire ExecuteCode_SessionNotFound = (404, None)"
| "execute_code_wire (ExecuteCode_ExecutionTimedOut x) = (408, Some (api_error_ser x))"

definition serve_execute_code :: "api_lib \<Rightarrow> 's api \<Rightarrow> api_context \<Rightarrow> http_call \<Rightarrow> 's \<Rightarrow> 's served" where
  "serve_execute_code L a cx rq s =
     with_path_param L REGEX_SESSIONS_SESSION_ID_EXECUTE (hc_path rq) s (\<lambda>i.
       with_required_body L ''ExecuteRequest'' execute_request_de (hc_body rq) s (\<lambda>unused x.
       respond L cx unused execute_code_wire (api_execute_code a i x cx s)))"

fun get_session_wire :: "api_lib \<Rightarrow> get_session_response \<Rightarrow> nat \<times> json option" where
  "get_session_wire L (GetSession_SessionDetails x) = (200, Some (active_session_ser L x))"
| "get_session_wire L (GetSession_FailedToGetSession x) = (400, Some (api_error_ser x))"
| "get_session_wire L GetSession_SessionNotFound = (404, None)"

definition serve_get_session :: "api_lib \<Rightarrow> 's api \<Rightarrow> api_context \<Rightarrow> http_call \<Rightarrow> 's \<Rightarrow> 's served" where
  "serve_get_session L a cx rq s =
     with_path_param L REGEX_SESSIONS_SESSION_ID (hc_path rq) s (\<lambda>i.
       respond L cx [] (get_session_wire L) (api_get_session a i cx s))"

fun get_session_history_wire :: "get_session_history_response \<Rightarrow> nat \<times> json option" where
  "get_session_history_wire (GetSessionHistory_ExecutionHistory x) = (200, Some (vec_ser history_entry_ser x))"
| "get_session_history_wire GetSessionHistory_Unauthorized = (401, None)"
| "get_session_history_wire GetSessionHistory_SessionNotFound = (404, None)"

definition serve_get_session_history :: "api_lib \<Rightarrow> 's api \<Rightarrow> api_context \<Rightarrow> http_call \<Rightarrow> 's \<Rightarrow> 's served" where
  "serve_get_session_history L a cx rq s =
     with_path_param L REGEX_SESSIONS_SESSION_ID_HISTORY (hc_path rq) s (\<lambda>i.
       respond L cx [] get_session_history_wire (api_get_session_history a i cx s))"

fun interrupt_session_wire :: "interrupt_session_response \<Rightarrow> nat \<times> json option" where
  "interrupt_session_wire (InterruptSession_Interrupted x) = (200, Some x)"
| "interrupt_session_wire (InterruptSession_InterruptFailed x) = (400, Some (api_error_ser x))"
| "interrupt_session_wire InterruptSession_Unauthorized = (401, None)"
| "interrupt_session_wire InterruptSession_SessionNotFound = (404, None)"

definition serve_interrupt_session :: "api_lib \<Rightarrow> 's api \<Rightarrow> api_context \<Rightarrow> http_call \<Rightarrow> 's \<Rightarrow> 's served" where
  "serve_interrupt_session L a cx rq s =
     with_path_param L REGEX_SESSIONS_SESSION_ID_INTERRUPT (hc_path rq) s (\<lambda>i.
       respond L cx [] interrupt_session_wire (api_interrupt_session a i cx s))"

fun kill_session_wire :: "kill_session_response \<Rightarrow> nat \<times> json option" where
  "kill_session_wire (KillSession_Killed x) = (200, Some x)"
| "kill_session_wire (KillSession_KillFailed x) = (400, Some (api_error_ser x))"
| "kill_session_wire KillSession_Unauthorized = (401, None)"
| "kill_session_wire KillSession_SessionNotFound = (404, None)"

definition serve_kill_session :: "api_lib \<Rightarrow> 's api \<Rightarrow> api_context \<Rightarrow> http_call \<Rightarrow> 's \<Rightarrow> 's served" where
  "serve_kill_session L a cx rq s =
     with_path_param L REGEX_SESSIONS_SESSION_ID_KILL (hc_path rq) s (\<lambda>i.
       respond L cx [] kill_session_wire (api_kill_session a i cx s))"

fun mcp_workspace_channel_wire :: "mcp_workspace_channel_response \<Rightarrow> nat \<times> json option" where
  "mcp_workspace_channel_wire McpWorkspaceChannel_UpgradedConnection = (200, None)"
| "mcp_workspace_channel_wire (McpWorkspaceChannel_InvalidRequest x) = (400, Some (api_error_ser x))"
| "mcp_workspace_channel_wire McpWorkspaceChannel_Unauthorized = (401, None)"
| "mcp_workspace_channel_wire McpWorkspaceChannel_WorkspaceNotFound = (404, None)"

definition serve_mcp_workspace_channel :: "api_lib \<Rightarrow> 's api \<Rightarrow> api_context \<Rightarrow> http_call \<Rightarrow> 's \<Rightarrow> 's served" where
  "serve_mcp_workspace_channel L a cx rq s =
     with_path_param L REGEX_MCP_WORKSPACES_WORKSPACE_ID_CHANNEL (hc_path rq) s (\<lambda>i.
       respond L cx [] mcp_workspace_channel_wire (api_mcp_workspace_channel a i cx s))"

fun restart_session_wire :: "restart_session_response \<Rightarrow> nat \<times> json option" where
  "restart_session_wire (RestartSession_Restarted x) = (200, Some x)"
| "restart_session_wire (RestartSession_RestartFailed x) = (500, Some (startup_error_ser x))"
| "restart_session_wire RestartSession_Unauthorized = (401, None)"
| "restart_session_wire RestartSession_SessionNotFound = (404, None)"

definition serve_restart_session :: "api_lib \<Rightarrow> 's api \<Rightarrow> api_context \<Rightarrow> http_call \<Rightarrow> 's \<Rightarrow> 's served" where
  "serve_restart_session L a cx rq s =
     with_path_param L REGEX_SESSIONS_SESSION_ID_RESTART (hc_path rq) s (\<lambda>i.
       with_optional_body L ''RestartSession'' restart_session_de (hc_body rq) s (\<lambda>unused x.
       respond L cx unused restart_session_wire (api_restart_session a i x cx s)))"

fun start_session_wire :: "start_session_response \<Rightarrow> nat \<times> json option" where
  "start_session_wire (StartSession_Started x) = (200, Some x)"
| "start_session_wire (StartSession_StartFailed x) = (500, Some (startup_error_ser x))"
| "start_session_wire StartSession_SessionNotFound = (404, None)"
| "start_session_wire StartSession_Unauthorized = (401, None)"

definition serve_start_session :: "api_lib \<Rightarrow> 's api \<Rightarrow> api_context \<Rightarrow> http_call \<Rightarrow> 's \<Rightarrow> 's served" where
  "serve_start_session L a cx rq s =
     with_path_param L REGEX_SESSIONS_SESSION_ID_START (hc_path rq) s (\<lambda>i.
       respond L cx [] start_session_wire (api_start_session a i cx s))"

section \<open>The router\<close>

text \<open>The arms in their order; a known path with another method is refused, and any other path is not found.\<close>

definition service_run :: "api_lib \<Rightarrow> 's api \<Rightarrow> api_context \<Rightarrow> http_call \<Rightarrow> 's \<Rightarrow> 's served" where
  "service_run L a cx rq s =
     (let m = hc_method rq; hit = (\<lambda>i. matched i (hc_path rq)) in
      if m = ''POST'' \<and> hit ID_CLIENT_HEARTBEAT then serve_client_heartbeat L a cx rq s
      else if m = ''GET'' \<and> hit ID_SERVER_CONFIGURATION then serve_get_server_configuration L a cx rq s
      else if m = ''GET'' \<and> hit ID_SESSIONS then serve_list_sessions L a cx rq s
      else if m = ''PUT'' \<and> hit ID_SESSIONS then serve_new_session L a cx rq s
      else if m = ''POST'' \<and> hit ID_MCP_WORKSPACES then serve_register_mcp_workspace L a cx rq s
      else if m = ''GET'' \<and> hit ID_STATUS then serve_server_status L a cx rq s
      else if m = ''POST'' \<and> hit ID_SERVER_CONFIGURATION then serve_set_server_configuration L a cx rq s
      else if m = ''POST'' \<and> hit ID_SHUTDOWN then serve_shutdown_server L a cx rq s
      else if m = ''PUT'' \<and> hit ID_SESSIONS_SESSION_ID_ADOPT then serve_adopt_session L a cx rq s
      else if m = ''GET'' \<and> hit ID_SESSIONS_SESSION_ID_CHANNELS then serve_channels_upgrade L a cx rq s
      else if m = ''GET'' \<and> hit ID_SESSIONS_SESSION_ID_CONNECTION_INFO then serve_connection_info L a cx rq s
      else if m = ''DELETE'' \<and> hit ID_SESSIONS_SESSION_ID then serve_delete_session L a cx rq s
      else if m = ''DELETE'' \<and> hit ID_MCP_WORKSPACES_WORKSPACE_ID then serve_deregister_mcp_workspace L a cx rq s
      else if m = ''POST'' \<and> hit ID_SESSIONS_SESSION_ID_EXECUTE then serve_execute_code L a cx rq s
      else if m = ''GET'' \<and> hit ID_SESSIONS_SESSION_ID then serve_get_session L a cx rq s
      else if m = ''GET'' \<and> hit ID_SESSIONS_SESSION_ID_HISTORY then serve_get_session_history L a cx rq s
      else if m = ''POST'' \<and> hit ID_SESSIONS_SESSION_ID_INTERRUPT then serve_interrupt_session L a cx rq s
      else if m = ''POST'' \<and> hit ID_SESSIONS_SESSION_ID_KILL then serve_kill_session L a cx rq s
      else if m = ''GET'' \<and> hit ID_MCP_WORKSPACES_WORKSPACE_ID_CHANNEL then serve_mcp_workspace_channel L a cx rq s
      else if m = ''POST'' \<and> hit ID_SESSIONS_SESSION_ID_RESTART then serve_restart_session L a cx rq s
      else if m = ''POST'' \<and> hit ID_SESSIONS_SESSION_ID_START then serve_start_session L a cx rq s
      else if list_ex hit [0..<length GLOBAL_REGEX_SET] then (Some method_not_allowed, s)
      else (Some route_not_found, s))"

definition parse_operation_id :: "string \<Rightarrow> string \<Rightarrow> string option" where
  "parse_operation_id m path =
     (let hit = (\<lambda>i. matched i path) in
      if m = ''POST'' \<and> hit ID_CLIENT_HEARTBEAT then Some ''ClientHeartbeat''
      else if m = ''GET'' \<and> hit ID_SERVER_CONFIGURATION then Some ''GetServerConfiguration''
      else if m = ''GET'' \<and> hit ID_SESSIONS then Some ''ListSessions''
      else if m = ''PUT'' \<and> hit ID_SESSIONS then Some ''NewSession''
      else if m = ''POST'' \<and> hit ID_MCP_WORKSPACES then Some ''RegisterMcpWorkspace''
      else if m = ''GET'' \<and> hit ID_STATUS then Some ''ServerStatus''
      else if m = ''POST'' \<and> hit ID_SERVER_CONFIGURATION then Some ''SetServerConfiguration''
      else if m = ''POST'' \<and> hit ID_SHUTDOWN then Some ''ShutdownServer''
      else if m = ''PUT'' \<and> hit ID_SESSIONS_SESSION_ID_ADOPT then Some ''AdoptSession''
      else if m = ''GET'' \<and> hit ID_SESSIONS_SESSION_ID_CHANNELS then Some ''ChannelsUpgrade''
      else if m = ''GET'' \<and> hit ID_SESSIONS_SESSION_ID_CONNECTION_INFO then Some ''ConnectionInfo''
      else if m = ''DELETE'' \<and> hit ID_SESSIONS_SESSION_ID then Some ''DeleteSession''
      else if m = ''DELETE'' \<and> hit ID_MCP_WORKSPACES_WORKSPACE_ID then Some ''DeregisterMcpWorkspace''
      else if m = ''POST'' \<and> hit ID_SESSIONS_SESSION_ID_EXECUTE then Some ''ExecuteCode''
      else if m = ''GET'' \<and> hit ID_SESSIONS_SESSION_ID then Some ''GetSession''
      else if m = ''GET'' \<and> hit ID_SESSIONS_SESSION_ID_HISTORY then Some ''GetSessionHistory''
      else if m = ''POST'' \<and> hit ID_SESSIONS_SESSION_ID_INTERRUPT then Some ''InterruptSession''
      else if m = ''POST'' \<and> hit ID_SESSIONS_SESSION_ID_KILL then Some ''KillSession''
      else if m = ''GET'' \<and> hit ID_MCP_WORKSPACES_WORKSPACE_ID_CHANNEL then Some ''McpWorkspaceChannel''
      else if m = ''POST'' \<and> hit ID_SESSIONS_SESSION_ID_RESTART then Some ''RestartSession''
      else if m = ''POST'' \<and> hit ID_SESSIONS_SESSION_ID_START then Some ''StartSession''
      else None)"

text \<open>\<open>AddContext\<close>: the span of the request and its credentials, if it has any.\<close>

definition add_context :: "api_lib \<Rightarrow> http_call \<Rightarrow> api_context" where
  "add_context L rq =
     (let cx = \<lparr>cx_span_id = al_span_id L (hc_headers rq), cx_auth = None\<rparr> in
      case al_from_headers L (hc_headers rq) of
        Some auth \<Rightarrow> cx\<lparr>cx_auth := Some auth\<rparr>
      | None \<Rightarrow> cx)"

definition serve :: "api_lib \<Rightarrow> 's api \<Rightarrow> http_call \<Rightarrow> 's \<Rightarrow> 's served" where
  "serve L a rq s = service_run L a (add_context L rq) rq s"

section \<open>Paths by their segments\<close>

text \<open>
  What the patterns mean: a path is cut at its slashes and compared segment by segment, a parameter
  standing for any segment without a query or a fragment.
\<close>

definition plain :: "string \<Rightarrow> bool" where
  "plain raw \<longleftrightarrow> CHR ''?'' \<notin> set raw \<and> CHR ''#'' \<notin> set raw"

abbreviation segments :: "string \<Rightarrow> string list" where
  "segments path \<equiv> split_on (CHR ''/'') path"

lemma split_on_sep: "split_on c (x @ c # y) = split_on c x @ split_on c y"
proof (induction x)
  case (Cons a x)
  obtain p ps where "split_on c x = p # ps"
    by (cases "split_on c x") auto
  then show ?case
    using Cons by simp
qed simp

lemma split_on_inject: "split_on c x = split_on c y \<longleftrightarrow> x = y"
  by (metis join_split_on)

lemma split_on_member: "raw \<in> set (split_on c x) \<Longrightarrow> c \<notin> set raw"
proof (induction x arbitrary: raw)
  case (Cons a x)
  obtain p ps where "split_on c x = p # ps"
    by (cases "split_on c x") auto
  then show ?case
    using Cons by (auto split: if_splits)
qed simp

fun template :: "path_pattern \<Rightarrow> string option list" where
  "template (Exact p) = map Some (segments p)"
| "template (Captured pre post) =
     map Some (segments (butlast pre)) @ [None] @ (if post = [] then [] else map Some (segments (tl post)))"

fun fits :: "string option list \<Rightarrow> string list \<Rightarrow> bool" where
  "fits [] [] \<longleftrightarrow> True"
| "fits (Some s # ts) (x # xs) \<longleftrightarrow> x = s \<and> fits ts xs"
| "fits (None # ts) (x # xs) \<longleftrightarrow> plain x \<and> fits ts xs"
| "fits _ _ \<longleftrightarrow> False"

fun wf_pattern :: "path_pattern \<Rightarrow> bool" where
  "wf_pattern (Exact p) \<longleftrightarrow> True"
| "wf_pattern (Captured pre post) \<longleftrightarrow>
     pre \<noteq> [] \<and> last pre = CHR ''/'' \<and> (post = [] \<or> hd post = CHR ''/'')"

lemma fits_literal: "fits (map Some ss @ ts) xs \<longleftrightarrow> (\<exists>ys. xs = ss @ ys \<and> fits ts ys)"
proof (induction ss arbitrary: xs)
  case (Cons s ss)
  then show ?case
    by (cases xs) auto
qed simp

lemma fits_literal_end: "fits (map Some ss) xs \<longleftrightarrow> xs = ss"
  using fits_literal [of ss "[]" xs] by (auto elim: fits.elims)

lemma captures_raw:
  assumes "CHR ''/'' \<notin> set raw" and "plain raw"
  shows "captures (Captured pre post) (pre @ raw @ post) = Some raw"
  using assms by (auto simp: list_ex_iff plain_def strip_prefix_append)

lemma captures_cases:
  assumes "captures (Captured pre post) path = Some raw"
  shows "path = pre @ raw @ post \<and> CHR ''/'' \<notin> set raw \<and> plain raw"
  using assms
  by (auto simp: strip_prefix_Some strip_suffix_Some list_ex_iff plain_def split: option.splits if_splits)

lemma captures_fits:
  assumes "wf_pattern P"
  shows "captures P path \<noteq> None \<longleftrightarrow> fits (template P) (segments path)"
proof (cases P)
  case (Exact p)
  then show ?thesis
    by (simp add: fits_literal_end split_on_inject)
next
  case (Captured pre post)
  obtain x where x: "pre = x @ ''/''"
    using assms Captured by (cases pre rule: rev_cases) auto
  define after where "after = (if post = [] then [] else segments (tl post))"
  have segs: "segments (pre @ raw @ post) = segments x @ raw # after" if "CHR ''/'' \<notin> set raw" for raw
    using that assms Captured x by (cases post) (auto simp: after_def split_on_sep split_on_no_sep)
  have "fits (template P) (segments path) \<longleftrightarrow> (\<exists>raw. segments path = segments x @ raw # after \<and> plain raw)"
  proof -
    have "template P = map Some (segments x) @ None # map Some after"
      using Captured x by (simp add: after_def)
    moreover have "fits (None # map Some after) ys \<longleftrightarrow> (\<exists>raw. ys = raw # after \<and> plain raw)" for ys
      by (cases ys) (auto simp: fits_literal_end)
    ultimately show ?thesis
      by (auto simp: fits_literal)
  qed
  also have "\<dots> \<longleftrightarrow> (\<exists>raw. path = pre @ raw @ post \<and> CHR ''/'' \<notin> set raw \<and> plain raw)"
  proof
    assume "\<exists>raw. segments path = segments x @ raw # after \<and> plain raw"
    then obtain raw where raw: "segments path = segments x @ raw # after" "plain raw"
      by auto
    then have "CHR ''/'' \<notin> set raw"
      using split_on_member [of raw "CHR ''/''" path] by simp
    moreover from this have "path = pre @ raw @ post"
      using raw segs split_on_inject by metis
    ultimately show "\<exists>raw. path = pre @ raw @ post \<and> CHR ''/'' \<notin> set raw \<and> plain raw"
      using raw by auto
  qed (use segs in auto)
  also have "\<dots> \<longleftrightarrow> captures P path \<noteq> None"
    using captures_raw captures_cases Captured by (metis option.exhaust option.distinct(1))
  finally show ?thesis
    by simp
qed

text \<open>The templates of the API description.\<close>

definition TEMPLATES :: "string option list list" where
  "TEMPLATES = map template GLOBAL_REGEX_SET"

lemma TEMPLATES_eq:
  "TEMPLATES =
    [[Some [], Some ''client_heartbeat''], [Some [], Some ''mcp'', Some ''workspaces''],
     [Some [], Some ''mcp'', Some ''workspaces'', None], [Some [], Some ''mcp'', Some ''workspaces'', None, Some ''channel''],
     [Some [], Some ''server_configuration''], [Some [], Some ''sessions''], [Some [], Some ''sessions'', None],
     [Some [], Some ''sessions'', None, Some ''adopt''], [Some [], Some ''sessions'', None, Some ''channels''],
     [Some [], Some ''sessions'', None, Some ''connection_info''], [Some [], Some ''sessions'', None, Some ''execute''],
     [Some [], Some ''sessions'', None, Some ''history''], [Some [], Some ''sessions'', None, Some ''interrupt''],
     [Some [], Some ''sessions'', None, Some ''kill''], [Some [], Some ''sessions'', None, Some ''restart''],
     [Some [], Some ''sessions'', None, Some ''start''], [Some [], Some ''shutdown''], [Some [], Some ''status'']]"
  by (simp add: TEMPLATES_def GLOBAL_REGEX_SET_def)

lemma patterns_wf: "list_all wf_pattern GLOBAL_REGEX_SET"
  by (simp add: GLOBAL_REGEX_SET_def)

lemma matched_fits: "i < length GLOBAL_REGEX_SET \<Longrightarrow> matched i path \<longleftrightarrow> fits (TEMPLATES ! i) (segments path)"
  using patterns_wf captures_fits [of "GLOBAL_REGEX_SET ! i" path]
  by (auto simp: matched_def TEMPLATES_def list_all_length)


definition known_path :: "string list \<Rightarrow> bool" where
  "known_path segs \<longleftrightarrow> list_ex (\<lambda>t. fits t segs) TEMPLATES"

lemma matched_ids:
  "matched ID_CLIENT_HEARTBEAT path \<longleftrightarrow> fits [Some [], Some ''client_heartbeat''] (segments path)"
  "matched ID_MCP_WORKSPACES path \<longleftrightarrow> fits [Some [], Some ''mcp'', Some ''workspaces''] (segments path)"
  "matched ID_MCP_WORKSPACES_WORKSPACE_ID path \<longleftrightarrow> fits [Some [], Some ''mcp'', Some ''workspaces'', None] (segments path)"
  "matched ID_MCP_WORKSPACES_WORKSPACE_ID_CHANNEL path \<longleftrightarrow> fits [Some [], Some ''mcp'', Some ''workspaces'', None, Some ''channel''] (segments path)"
  "matched ID_SERVER_CONFIGURATION path \<longleftrightarrow> fits [Some [], Some ''server_configuration''] (segments path)"
  "matched ID_SESSIONS path \<longleftrightarrow> fits [Some [], Some ''sessions''] (segments path)"
  "matched ID_SESSIONS_SESSION_ID path \<longleftrightarrow> fits [Some [], Some ''sessions'', None] (segments path)"
  "matched ID_SESSIONS_SESSION_ID_ADOPT path \<longleftrightarrow> fits [Some [], Some ''sessions'', None, Some ''adopt''] (segments path)"
  "matched ID_SESSIONS_SESSION_ID_CHANNELS path \<longleftrightarrow> fits [Some [], Some ''sessions'', None, Some ''channels''] (segments path)"
  "matched ID_SESSIONS_SESSION_ID_CONNECTION_INFO path \<longleftrightarrow> fits [Some [], Some ''sessions'', None, Some ''connection_info''] (segments path)"
  "matched ID_SESSIONS_SESSION_ID_EXECUTE path \<longleftrightarrow> fits [Some [], Some ''sessions'', None, Some ''execute''] (segments path)"
  "matched ID_SESSIONS_SESSION_ID_HISTORY path \<longleftrightarrow> fits [Some [], Some ''sessions'', None, Some ''history''] (segments path)"
  "matched ID_SESSIONS_SESSION_ID_INTERRUPT path \<longleftrightarrow> fits [Some [], Some ''sessions'', None, Some ''interrupt''] (segments path)"
  "matched ID_SESSIONS_SESSION_ID_KILL path \<longleftrightarrow> fits [Some [], Some ''sessions'', None, Some ''kill''] (segments path)"
  "matched ID_SESSIONS_SESSION_ID_RESTART path \<longleftrightarrow> fits [Some [], Some ''sessions'', None, Some ''restart''] (segments path)"
  "matched ID_SESSIONS_SESSION_ID_START path \<longleftrightarrow> fits [Some [], Some ''sessions'', None, Some ''start''] (segments path)"
  "matched ID_SHUTDOWN path \<longleftrightarrow> fits [Some [], Some ''shutdown''] (segments path)"
  "matched ID_STATUS path \<longleftrightarrow> fits [Some [], Some ''status''] (segments path)"
  by (simp_all add: matched_fits TEMPLATES_eq GLOBAL_REGEX_SET_def ID_CLIENT_HEARTBEAT_def ID_MCP_WORKSPACES_def ID_MCP_WORKSPACES_WORKSPACE_ID_def
       ID_MCP_WORKSPACES_WORKSPACE_ID_CHANNEL_def ID_SERVER_CONFIGURATION_def ID_SESSIONS_def
       ID_SESSIONS_SESSION_ID_def ID_SESSIONS_SESSION_ID_ADOPT_def ID_SESSIONS_SESSION_ID_CHANNELS_def
       ID_SESSIONS_SESSION_ID_CONNECTION_INFO_def ID_SESSIONS_SESSION_ID_EXECUTE_def ID_SESSIONS_SESSION_ID_HISTORY_def
       ID_SESSIONS_SESSION_ID_INTERRUPT_def ID_SESSIONS_SESSION_ID_KILL_def ID_SESSIONS_SESSION_ID_RESTART_def
       ID_SESSIONS_SESSION_ID_START_def ID_SHUTDOWN_def ID_STATUS_def)

lemma any_matched: "list_ex (\<lambda>i. matched i path) [0..<length GLOBAL_REGEX_SET] \<longleftrightarrow> known_path (segments path)"
proof -
  have "length TEMPLATES = length GLOBAL_REGEX_SET"
    by (simp add: TEMPLATES_def)
  then show ?thesis
    by (auto simp: known_path_def list_ex_iff matched_fits in_set_conv_nth Bex_def)
qed

text \<open>The operations of the API with their methods and templates, as its description lists them.\<close>

datatype operation =
    ClientHeartbeatOp
  | GetServerConfigurationOp
  | ListSessionsOp
  | NewSessionOp
  | RegisterMcpWorkspaceOp
  | ServerStatusOp
  | SetServerConfigurationOp
  | ShutdownServerOp
  | AdoptSessionOp
  | ChannelsUpgradeOp
  | ConnectionInfoOp
  | DeleteSessionOp
  | DeregisterMcpWorkspaceOp
  | ExecuteCodeOp
  | GetSessionOp
  | GetSessionHistoryOp
  | InterruptSessionOp
  | KillSessionOp
  | McpWorkspaceChannelOp
  | RestartSessionOp
  | StartSessionOp

fun operation_id :: "operation \<Rightarrow> string" where
  "operation_id ClientHeartbeatOp = ''ClientHeartbeat''"
| "operation_id GetServerConfigurationOp = ''GetServerConfiguration''"
| "operation_id ListSessionsOp = ''ListSessions''"
| "operation_id NewSessionOp = ''NewSession''"
| "operation_id RegisterMcpWorkspaceOp = ''RegisterMcpWorkspace''"
| "operation_id ServerStatusOp = ''ServerStatus''"
| "operation_id SetServerConfigurationOp = ''SetServerConfiguration''"
| "operation_id ShutdownServerOp = ''ShutdownServer''"
| "operation_id AdoptSessionOp = ''AdoptSession''"
| "operation_id ChannelsUpgradeOp = ''ChannelsUpgrade''"
| "operation_id ConnectionInfoOp = ''ConnectionInfo''"
| "operation_id DeleteSessionOp = ''DeleteSession''"
| "operation_id DeregisterMcpWorkspaceOp = ''DeregisterMcpWorkspace''"
| "operation_id ExecuteCodeOp = ''ExecuteCode''"
| "operation_id GetSessionOp = ''GetSession''"
| "operation_id GetSessionHistoryOp = ''GetSessionHistory''"
| "operation_id InterruptSessionOp = ''InterruptSession''"
| "operation_id KillSessionOp = ''KillSession''"
| "operation_id McpWorkspaceChannelOp = ''McpWorkspaceChannel''"
| "operation_id RestartSessionOp = ''RestartSession''"
| "operation_id StartSessionOp = ''StartSession''"

fun serve_operation :: "operation \<Rightarrow> api_lib \<Rightarrow> 's api \<Rightarrow> api_context \<Rightarrow> http_call \<Rightarrow> 's \<Rightarrow> 's served" where
  "serve_operation ClientHeartbeatOp = serve_client_heartbeat"
| "serve_operation GetServerConfigurationOp = serve_get_server_configuration"
| "serve_operation ListSessionsOp = serve_list_sessions"
| "serve_operation NewSessionOp = serve_new_session"
| "serve_operation RegisterMcpWorkspaceOp = serve_register_mcp_workspace"
| "serve_operation ServerStatusOp = serve_server_status"
| "serve_operation SetServerConfigurationOp = serve_set_server_configuration"
| "serve_operation ShutdownServerOp = serve_shutdown_server"
| "serve_operation AdoptSessionOp = serve_adopt_session"
| "serve_operation ChannelsUpgradeOp = serve_channels_upgrade"
| "serve_operation ConnectionInfoOp = serve_connection_info"
| "serve_operation DeleteSessionOp = serve_delete_session"
| "serve_operation DeregisterMcpWorkspaceOp = serve_deregister_mcp_workspace"
| "serve_operation ExecuteCodeOp = serve_execute_code"
| "serve_operation GetSessionOp = serve_get_session"
| "serve_operation GetSessionHistoryOp = serve_get_session_history"
| "serve_operation InterruptSessionOp = serve_interrupt_session"
| "serve_operation KillSessionOp = serve_kill_session"
| "serve_operation McpWorkspaceChannelOp = serve_mcp_workspace_channel"
| "serve_operation RestartSessionOp = serve_restart_session"
| "serve_operation StartSessionOp = serve_start_session"

definition API_TABLE :: "(string \<times> string option list \<times> operation) list" where
  "API_TABLE = [
     (''POST'', [Some [], Some ''client_heartbeat''], ClientHeartbeatOp),
     (''GET'', [Some [], Some ''server_configuration''], GetServerConfigurationOp),
     (''GET'', [Some [], Some ''sessions''], ListSessionsOp),
     (''PUT'', [Some [], Some ''sessions''], NewSessionOp),
     (''POST'', [Some [], Some ''mcp'', Some ''workspaces''], RegisterMcpWorkspaceOp),
     (''GET'', [Some [], Some ''status''], ServerStatusOp),
     (''POST'', [Some [], Some ''server_configuration''], SetServerConfigurationOp),
     (''POST'', [Some [], Some ''shutdown''], ShutdownServerOp),
     (''PUT'', [Some [], Some ''sessions'', None, Some ''adopt''], AdoptSessionOp),
     (''GET'', [Some [], Some ''sessions'', None, Some ''channels''], ChannelsUpgradeOp),
     (''GET'', [Some [], Some ''sessions'', None, Some ''connection_info''], ConnectionInfoOp),
     (''DELETE'', [Some [], Some ''sessions'', None], DeleteSessionOp),
     (''DELETE'', [Some [], Some ''mcp'', Some ''workspaces'', None], DeregisterMcpWorkspaceOp),
     (''POST'', [Some [], Some ''sessions'', None, Some ''execute''], ExecuteCodeOp),
     (''GET'', [Some [], Some ''sessions'', None], GetSessionOp),
     (''GET'', [Some [], Some ''sessions'', None, Some ''history''], GetSessionHistoryOp),
     (''POST'', [Some [], Some ''sessions'', None, Some ''interrupt''], InterruptSessionOp),
     (''POST'', [Some [], Some ''sessions'', None, Some ''kill''], KillSessionOp),
     (''GET'', [Some [], Some ''mcp'', Some ''workspaces'', None, Some ''channel''], McpWorkspaceChannelOp),
     (''POST'', [Some [], Some ''sessions'', None, Some ''restart''], RestartSessionOp),
     (''POST'', [Some [], Some ''sessions'', None, Some ''start''], StartSessionOp)]"

definition operation_of :: "string \<Rightarrow> string list \<Rightarrow> operation option" where
  "operation_of m segs = map_option (snd \<circ> snd) (find (\<lambda>(m', t, _). m' = m \<and> fits t segs) API_TABLE)"

lemma operation_of_unfold:
  "operation_of m segs =
     (if m = ''POST'' \<and> fits [Some [], Some ''client_heartbeat''] segs then Some ClientHeartbeatOp
      else if m = ''GET'' \<and> fits [Some [], Some ''server_configuration''] segs then Some GetServerConfigurationOp
      else if m = ''GET'' \<and> fits [Some [], Some ''sessions''] segs then Some ListSessionsOp
      else if m = ''PUT'' \<and> fits [Some [], Some ''sessions''] segs then Some NewSessionOp
      else if m = ''POST'' \<and> fits [Some [], Some ''mcp'', Some ''workspaces''] segs then Some RegisterMcpWorkspaceOp
      else if m = ''GET'' \<and> fits [Some [], Some ''status''] segs then Some ServerStatusOp
      else if m = ''POST'' \<and> fits [Some [], Some ''server_configuration''] segs then Some SetServerConfigurationOp
      else if m = ''POST'' \<and> fits [Some [], Some ''shutdown''] segs then Some ShutdownServerOp
      else if m = ''PUT'' \<and> fits [Some [], Some ''sessions'', None, Some ''adopt''] segs then Some AdoptSessionOp
      else if m = ''GET'' \<and> fits [Some [], Some ''sessions'', None, Some ''channels''] segs then Some ChannelsUpgradeOp
      else if m = ''GET'' \<and> fits [Some [], Some ''sessions'', None, Some ''connection_info''] segs then Some ConnectionInfoOp
      else if m = ''DELETE'' \<and> fits [Some [], Some ''sessions'', None] segs then Some DeleteSessionOp
      else if m = ''DELETE'' \<and> fits [Some [], Some ''mcp'', Some ''workspaces'', None] segs then Some DeregisterMcpWorkspaceOp
      else if m = ''POST'' \<and> fits [Some [], Some ''sessions'', None, Some ''execute''] segs then Some ExecuteCodeOp
      else if m = ''GET'' \<and> fits [Some [], Some ''sessions'', None] segs then Some GetSessionOp
      else if m = ''GET'' \<and> fits [Some [], Some ''sessions'', None, Some ''history''] segs then Some GetSessionHistoryOp
      else if m = ''POST'' \<and> fits [Some [], Some ''sessions'', None, Some ''interrupt''] segs then Some InterruptSessionOp
      else if m = ''POST'' \<and> fits [Some [], Some ''sessions'', None, Some ''kill''] segs then Some KillSessionOp
      else if m = ''GET'' \<and> fits [Some [], Some ''mcp'', Some ''workspaces'', None, Some ''channel''] segs then Some McpWorkspaceChannelOp
      else if m = ''POST'' \<and> fits [Some [], Some ''sessions'', None, Some ''restart''] segs then Some RestartSessionOp
      else if m = ''POST'' \<and> fits [Some [], Some ''sessions'', None, Some ''start''] segs then Some StartSessionOp
      else None)"
  by (simp add: operation_of_def API_TABLE_def)

lemma case_if:
  "(case if b then x else y of None \<Rightarrow> u | Some z \<Rightarrow> f z) =
     (if b then (case x of None \<Rightarrow> u | Some z \<Rightarrow> f z) else (case y of None \<Rightarrow> u | Some z \<Rightarrow> f z))"
  by simp

lemma service_run_operation:
  "service_run L a cx rq s =
     (case operation_of (hc_method rq) (segments (hc_path rq)) of
        Some oper \<Rightarrow> serve_operation oper L a cx rq s
      | None \<Rightarrow> (Some (if known_path (segments (hc_path rq)) then method_not_allowed else route_not_found), s))"
  unfolding service_run_def any_matched Let_def matched_ids operation_of_unfold
  by (simp only: case_if option.case serve_operation.simps) simp

lemma parse_operation_id_operation:
  "parse_operation_id m path = map_option operation_id (operation_of m (segments path))"
  unfolding parse_operation_id_def Let_def matched_ids operation_of_unfold
  by (simp only: map_option_case case_if option.case operation_id.simps)

end
