(* ===== verification/KC_ApiClient.thy ===== *)
theory KC_ApiClient
  imports KC_Api
begin

text \<open>
  The generated API crate on the client's side (\<open>client/mod.rs\<close>): the base of its URLs, the request each
  operation builds, and the reading of the response by its status. A transport takes a request to a
  server and brings back a response or an error; \<open>direct\<close> is the transport that ends at the router.

  The client implements the same interface as the server. Over the direct transport it is the server: an
  operation called through it has the effect and the response of the operation itself. That holds for
  identifiers without the characters that neither the encode set escapes nor a path segment may hold.
\<close>

section \<open>The base of the URLs\<close>

datatype client_init_error = InvalidScheme | InvalidUri string | MissingHost

definition into_base_path :: "api_lib \<Rightarrow> string \<Rightarrow> string option \<Rightarrow> client_init_error + string" where
  "into_base_path L input correct_scheme =
     (case al_uri L input of
        Inl e \<Rightarrow> Inl (InvalidUri e)
      | Inr u \<Rightarrow>
          (case up_scheme u of
             None \<Rightarrow> Inl InvalidScheme
           | Some scheme \<Rightarrow>
               if correct_scheme \<noteq> None \<and> correct_scheme \<noteq> Some scheme then Inl InvalidScheme
               else
                 (case up_host u of
                    None \<Rightarrow> Inl MissingHost
                  | Some host_name \<Rightarrow>
                      Inr (scheme @ ''://'' @ host_name @ (case up_port u of Some p \<Rightarrow> '':'' @ show_nat p | None \<Rightarrow> []) @
                           trim_end (CHR ''/'') (up_path u)))))"

text \<open>The constructors of a client; the one that chooses the connector ignores the case of the scheme.\<close>

definition try_new_with_connector :: "api_lib \<Rightarrow> string \<Rightarrow> string option \<Rightarrow> client_init_error + string" where
  "try_new_with_connector L base_path protocol = into_base_path L base_path protocol"

definition try_new :: "api_lib \<Rightarrow> string \<Rightarrow> client_init_error + string" where
  "try_new L base_path =
     (case al_uri L base_path of
        Inl e \<Rightarrow> Inl (InvalidUri e)
      | Inr u \<Rightarrow>
          (case up_scheme u of
             None \<Rightarrow> Inl InvalidScheme
           | Some scheme \<Rightarrow> if map to_lower scheme = ''http'' then into_base_path L base_path None else Inl InvalidScheme))"

definition try_new_http :: "api_lib \<Rightarrow> string \<Rightarrow> client_init_error + string" where
  "try_new_http L base_path = try_new_with_connector L base_path (Some ''http'')"

definition try_new_with_client_service :: "api_lib \<Rightarrow> string \<Rightarrow> client_init_error + string" where
  "try_new_with_client_service L base_path = into_base_path L base_path None"

section \<open>Encode sets\<close>

definition CONTROLS :: "char \<Rightarrow> bool" where
  "CONTROLS c \<longleftrightarrow> (of_char c :: nat) < 32 \<or> (of_char c :: nat) = 127"

definition FRAGMENT_ENCODE_SET :: "char \<Rightarrow> bool" where
  "FRAGMENT_ENCODE_SET c \<longleftrightarrow> CONTROLS c \<or> c \<in> {CHR '' '', CHR 0x22, CHR ''<'', CHR ''>'', CHR 0x60}"

definition ID_ENCODE_SET :: "char \<Rightarrow> bool" where
  "ID_ENCODE_SET c \<longleftrightarrow> FRAGMENT_ENCODE_SET c \<or> c = CHR ''|''"

section \<open>Calls\<close>

type_synonym 's transport = "http_call \<Rightarrow> 's \<Rightarrow> (string + http_response) \<times> 's"

text \<open>
  The part all operations share: the URI, the body and the headers of the request, and the call. An
  operation with a body sets its type even when the body is optional and absent. The query string is always
  empty and adds nothing to the URI.
\<close>

definition client_call ::
  "api_lib \<Rightarrow> string \<Rightarrow> string \<Rightarrow> json option option \<Rightarrow> (http_response \<Rightarrow> string + 'r) \<Rightarrow> 's transport \<Rightarrow>
     api_context \<Rightarrow> 's \<Rightarrow> ('r, 's) answer" where
  "client_call L m uri body decode net cx s =
     (case al_uri L uri of
        Inl e \<Rightarrow> (Some (Inl (''Unable to build URI: '' @ e)), s)
      | Inr u \<Rightarrow>
          (let text_body = (case body of Some (Some j) \<Rightarrow> al_to_string L j | _ \<Rightarrow> []);
               hs = (case body of Some _ \<Rightarrow> [(''content-type'', ''application/json'')] | None \<Rightarrow> [])
           in
             if \<not> al_header_ok L (cx_span_id cx) then
               (Some (Inl (''Unable to create X-Span ID header value: '' @ al_header_error L)), s)
             else
               (case net \<lparr>hc_method = m, hc_path = up_path u, hc_headers = hs @ [(''x-span-id'', cx_span_id cx)],
                       hc_body = Inr text_body\<rparr> s of
                  (Inl e, s) \<Rightarrow> (Some (Inl (''No response received: '' @ e)), s)
                | (Inr rsp, s) \<Rightarrow> (Some (decode rsp), s))))"

definition read_response :: "api_lib \<Rightarrow> string \<Rightarrow> (json \<Rightarrow> 'a option) \<Rightarrow> ('a \<Rightarrow> 'r) \<Rightarrow> http_response \<Rightarrow> string + 'r" where
  "read_response L name de variant rsp =
     (case hx_body rsp of
        Inl e \<Rightarrow> Inl (''Failed to read response: '' @ e)
      | Inr b \<Rightarrow>
          if \<not> al_utf8 L b then Inl (''Response was not valid UTF8: '' @ al_utf8_error L b)
          else
            (case al_from_str L b of
               Inl e \<Rightarrow> Inl (''Response body did not match the schema: '' @ e)
             | Inr v \<Rightarrow>
                 (case de v of
                    None \<Rightarrow> Inl (''Response body did not match the schema: '' @ al_mismatch L name b)
                  | Some x \<Rightarrow> Inr (variant x))))"

definition unexpected :: "api_lib \<Rightarrow> http_response \<Rightarrow> string + 'r" where
  "unexpected L rsp =
     Inl (''Unexpected response code '' @ show_nat (hx_status rsp) @ '':'' @ nl @ al_debug_headers L (hx_headers rsp) @ nl @ nl @
          (case hx_body rsp of
             Inr b \<Rightarrow> if al_utf8 L b then b else ''<Body was not UTF8: '' @ al_utf8_debug L b @ ''>''
           | Inl e \<Rightarrow> ''<Failed to read body: '' @ e @ ''>''))"

definition with_id :: "api_lib \<Rightarrow> string \<Rightarrow> string \<Rightarrow> string" where
  "with_id L i rest = al_percent_encode L ID_ENCODE_SET i @ rest"

section \<open>The operations\<close>

definition client_heartbeat_decode :: "api_lib \<Rightarrow> http_response \<Rightarrow> string + client_heartbeat_response" where
  "client_heartbeat_decode L rsp =
     (if hx_status rsp = 200 then read_response L ''Value'' (\<lambda>v. Some (value_de v)) ClientHeartbeat_HeartbeatReceived rsp
      else unexpected L rsp)"

definition client_client_heartbeat ::
  "api_lib \<Rightarrow> string \<Rightarrow> 's transport \<Rightarrow> heartbeat_model \<Rightarrow> api_context \<Rightarrow> 's \<Rightarrow> (client_heartbeat_response, 's) answer" where
  "client_client_heartbeat L base net x cx s =
     client_call L ''POST'' (base @ ''/client_heartbeat'') (Some (Some (heartbeat_ser x))) (client_heartbeat_decode L) net cx s"

definition get_server_configuration_decode :: "api_lib \<Rightarrow> http_response \<Rightarrow> string + get_server_configuration_response" where
  "get_server_configuration_decode L rsp =
     (if hx_status rsp = 200 then read_response L ''ServerConfiguration'' server_configuration_de GetServerConfiguration_TheCurrentServerConfiguration rsp
      else if hx_status rsp = 400 then read_response L ''Error'' api_error_de GetServerConfiguration_FailedToGetConfiguration rsp
      else unexpected L rsp)"

definition client_get_server_configuration ::
  "api_lib \<Rightarrow> string \<Rightarrow> 's transport \<Rightarrow> api_context \<Rightarrow> 's \<Rightarrow> (get_server_configuration_response, 's) answer" where
  "client_get_server_configuration L base net cx s =
     client_call L ''GET'' (base @ ''/server_configuration'') None (get_server_configuration_decode L) net cx s"

definition list_sessions_decode :: "api_lib \<Rightarrow> http_response \<Rightarrow> string + list_sessions_response" where
  "list_sessions_decode L rsp =
     (if hx_status rsp = 200 then read_response L ''SessionList'' (session_list_de L) ListSessions_ListOfActiveSessions rsp
      else unexpected L rsp)"

definition client_list_sessions ::
  "api_lib \<Rightarrow> string \<Rightarrow> 's transport \<Rightarrow> api_context \<Rightarrow> 's \<Rightarrow> (list_sessions_response, 's) answer" where
  "client_list_sessions L base net cx s =
     client_call L ''GET'' (base @ ''/sessions'') None (list_sessions_decode L) net cx s"

definition new_session_decode :: "api_lib \<Rightarrow> http_response \<Rightarrow> string + new_session_response" where
  "new_session_decode L rsp =
     (if hx_status rsp = 200 then read_response L ''NewSession200Response'' new_session_id_de NewSession_TheSessionID rsp
      else if hx_status rsp = 400 then read_response L ''Error'' api_error_de NewSession_InvalidRequest rsp
      else if hx_status rsp = 401 then Inr NewSession_Unauthorized
      else unexpected L rsp)"

definition client_new_session ::
  "api_lib \<Rightarrow> string \<Rightarrow> 's transport \<Rightarrow> new_session \<Rightarrow> api_context \<Rightarrow> 's \<Rightarrow> (new_session_response, 's) answer" where
  "client_new_session L base net x cx s =
     client_call L ''PUT'' (base @ ''/sessions'') (Some (Some (new_session_ser x))) (new_session_decode L) net cx s"

definition register_mcp_workspace_decode :: "api_lib \<Rightarrow> http_response \<Rightarrow> string + register_mcp_workspace_response" where
  "register_mcp_workspace_decode L rsp =
     (if hx_status rsp = 200 then read_response L ''McpWorkspace'' mcp_workspace_de RegisterMcpWorkspace_WorkspaceRegistered rsp
      else if hx_status rsp = 400 then read_response L ''Error'' api_error_de RegisterMcpWorkspace_InvalidRequest rsp
      else if hx_status rsp = 401 then Inr RegisterMcpWorkspace_Unauthorized
      else unexpected L rsp)"

definition client_register_mcp_workspace ::
  "api_lib \<Rightarrow> string \<Rightarrow> 's transport \<Rightarrow> mcp_registration \<Rightarrow> api_context \<Rightarrow> 's \<Rightarrow> (register_mcp_workspace_response, 's) answer" where
  "client_register_mcp_workspace L base net x cx s =
     client_call L ''POST'' (base @ ''/mcp/workspaces'') (Some (Some (mcp_registration_ser x))) (register_mcp_workspace_decode L) net cx s"

definition server_status_decode :: "api_lib \<Rightarrow> http_response \<Rightarrow> string + server_status_response" where
  "server_status_decode L rsp =
     (if hx_status rsp = 200 then read_response L ''ServerStatus'' (server_status_de L) ServerStatus_ServerStatusAndInformation rsp
      else if hx_status rsp = 400 then read_response L ''Error'' api_error_de ServerStatus_Error rsp
      else unexpected L rsp)"

definition client_server_status ::
  "api_lib \<Rightarrow> string \<Rightarrow> 's transport \<Rightarrow> api_context \<Rightarrow> 's \<Rightarrow> (server_status_response, 's) answer" where
  "client_server_status L base net cx s =
     client_call L ''GET'' (base @ ''/status'') None (server_status_decode L) net cx s"

definition set_server_configuration_decode :: "api_lib \<Rightarrow> http_response \<Rightarrow> string + set_server_configuration_response" where
  "set_server_configuration_decode L rsp =
     (if hx_status rsp = 200 then read_response L ''Value'' (\<lambda>v. Some (value_de v)) SetServerConfiguration_ConfigurationUpdated rsp
      else if hx_status rsp = 400 then read_response L ''Error'' api_error_de SetServerConfiguration_Error rsp
      else unexpected L rsp)"

definition client_set_server_configuration ::
  "api_lib \<Rightarrow> string \<Rightarrow> 's transport \<Rightarrow> server_configuration \<Rightarrow> api_context \<Rightarrow> 's \<Rightarrow> (set_server_configuration_response, 's) answer" where
  "client_set_server_configuration L base net x cx s =
     client_call L ''POST'' (base @ ''/server_configuration'') (Some (Some (server_configuration_ser x))) (set_server_configuration_decode L) net cx s"

definition shutdown_server_decode :: "api_lib \<Rightarrow> http_response \<Rightarrow> string + shutdown_server_response" where
  "shutdown_server_decode L rsp =
     (if hx_status rsp = 200 then read_response L ''Value'' (\<lambda>v. Some (value_de v)) ShutdownServer_ShuttingDown rsp
      else if hx_status rsp = 400 then read_response L ''Error'' api_error_de ShutdownServer_ShutdownFailed rsp
      else if hx_status rsp = 401 then Inr ShutdownServer_Unauthorized
      else unexpected L rsp)"

definition client_shutdown_server ::
  "api_lib \<Rightarrow> string \<Rightarrow> 's transport \<Rightarrow> api_context \<Rightarrow> 's \<Rightarrow> (shutdown_server_response, 's) answer" where
  "client_shutdown_server L base net cx s =
     client_call L ''POST'' (base @ ''/shutdown'') None (shutdown_server_decode L) net cx s"

definition adopt_session_decode :: "api_lib \<Rightarrow> http_response \<Rightarrow> string + adopt_session_response" where
  "adopt_session_decode L rsp =
     (if hx_status rsp = 200 then read_response L ''Value'' (\<lambda>v. Some (value_de v)) AdoptSession_Adopted rsp
      else if hx_status rsp = 500 then read_response L ''Error'' api_error_de AdoptSession_AdoptionFailed rsp
      else if hx_status rsp = 404 then Inr AdoptSession_SessionNotFound
      else if hx_status rsp = 401 then Inr AdoptSession_Unauthorized
      else unexpected L rsp)"

definition client_adopt_session ::
  "api_lib \<Rightarrow> string \<Rightarrow> 's transport \<Rightarrow> string \<Rightarrow> connection_info \<Rightarrow> api_context \<Rightarrow> 's \<Rightarrow> (adopt_session_response, 's) answer" where
  "client_adopt_session L base net i x cx s =
     client_call L ''PUT'' (base @ ''/sessions/'' @ with_id L i ''/adopt'') (Some (Some (connection_info_ser x))) (adopt_session_decode L) net cx s"

definition channels_upgrade_decode :: "api_lib \<Rightarrow> http_response \<Rightarrow> string + channels_upgrade_response" where
  "channels_upgrade_decode L rsp =
     (if hx_status rsp = 200 then read_response L ''String'' as_str ChannelsUpgrade_UpgradedConnection rsp
      else if hx_status rsp = 400 then read_response L ''Error'' api_error_de ChannelsUpgrade_InvalidRequest rsp
      else if hx_status rsp = 401 then Inr ChannelsUpgrade_Unauthorized
      else if hx_status rsp = 404 then Inr ChannelsUpgrade_SessionNotFound
      else unexpected L rsp)"

definition client_channels_upgrade ::
  "api_lib \<Rightarrow> string \<Rightarrow> 's transport \<Rightarrow> string \<Rightarrow> api_context \<Rightarrow> 's \<Rightarrow> (channels_upgrade_response, 's) answer" where
  "client_channels_upgrade L base net i cx s =
     client_call L ''GET'' (base @ ''/sessions/'' @ with_id L i ''/channels'') None (channels_upgrade_decode L) net cx s"

definition connection_info_decode :: "api_lib \<Rightarrow> http_response \<Rightarrow> string + connection_info_response" where
  "connection_info_decode L rsp =
     (if hx_status rsp = 200 then read_response L ''ConnectionInfo'' connection_info_de ConnectionInfo_ConnectionInfo rsp
      else if hx_status rsp = 500 then read_response L ''Error'' api_error_de ConnectionInfo_Failed rsp
      else if hx_status rsp = 401 then Inr ConnectionInfo_Unauthorized
      else if hx_status rsp = 404 then Inr ConnectionInfo_SessionNotFound
      else unexpected L rsp)"

definition client_connection_info ::
  "api_lib \<Rightarrow> string \<Rightarrow> 's transport \<Rightarrow> string \<Rightarrow> api_context \<Rightarrow> 's \<Rightarrow> (connection_info_response, 's) answer" where
  "client_connection_info L base net i cx s =
     client_call L ''GET'' (base @ ''/sessions/'' @ with_id L i ''/connection_info'') None (connection_info_decode L) net cx s"

definition delete_session_decode :: "api_lib \<Rightarrow> http_response \<Rightarrow> string + delete_session_response" where
  "delete_session_decode L rsp =
     (if hx_status rsp = 200 then read_response L ''Value'' (\<lambda>v. Some (value_de v)) DeleteSession_SessionDeleted rsp
      else if hx_status rsp = 400 then read_response L ''Error'' api_error_de DeleteSession_FailedToDeleteSession rsp
      else if hx_status rsp = 401 then Inr DeleteSession_Unauthorized
      else if hx_status rsp = 404 then Inr DeleteSession_SessionNotFound
      else unexpected L rsp)"

definition client_delete_session ::
  "api_lib \<Rightarrow> string \<Rightarrow> 's transport \<Rightarrow> string \<Rightarrow> api_context \<Rightarrow> 's \<Rightarrow> (delete_session_response, 's) answer" where
  "client_delete_session L base net i cx s =
     client_call L ''DELETE'' (base @ ''/sessions/'' @ with_id L i []) None (delete_session_decode L) net cx s"

definition deregister_mcp_workspace_decode :: "api_lib \<Rightarrow> http_response \<Rightarrow> string + deregister_mcp_workspace_response" where
  "deregister_mcp_workspace_decode L rsp =
     (if hx_status rsp = 200 then Inr DeregisterMcpWorkspace_WorkspaceDeregistered
      else if hx_status rsp = 401 then Inr DeregisterMcpWorkspace_Unauthorized
      else if hx_status rsp = 404 then Inr DeregisterMcpWorkspace_WorkspaceNotFound
      else unexpected L rsp)"

definition client_deregister_mcp_workspace ::
  "api_lib \<Rightarrow> string \<Rightarrow> 's transport \<Rightarrow> string \<Rightarrow> api_context \<Rightarrow> 's \<Rightarrow> (deregister_mcp_workspace_response, 's) answer" where
  "client_deregister_mcp_workspace L base net i cx s =
     client_call L ''DELETE'' (base @ ''/mcp/workspaces/'' @ with_id L i []) None (deregister_mcp_workspace_decode L) net cx s"

definition execute_code_decode :: "api_lib \<Rightarrow> http_response \<Rightarrow> string + execute_code_response" where
  "execute_code_decode L rsp =
     (if hx_status rsp = 200 then read_response L ''ExecuteReply'' execute_reply_de ExecuteCode_ExecutionCompleted rsp
      else if hx_status rsp = 400 then read_response L ''Error'' api_error_de ExecuteCode_InvalidRequest rsp
      else if hx_status rsp = 401 then Inr ExecuteCode_Unauthorized
      else if hx_status rsp = 404 then Inr ExecuteCode_SessionNotFound
      else if hx_status rsp = 408 then read_response L ''Error'' api_error_de ExecuteCode_ExecutionTimedOut rsp
      else unexpected L rsp)"

definition client_execute_code ::
  "api_lib \<Rightarrow> string \<Rightarrow> 's transport \<Rightarrow> string \<Rightarrow> execute_request \<Rightarrow> api_context \<Rightarrow> 's \<Rightarrow> (execute_code_response, 's) answer" where
  "client_execute_code L base net i x cx s =
     client_call L ''POST'' (base @ ''/sessions/'' @ with_id L i ''/execute'') (Some (Some (execute_request_ser x))) (execute_code_decode L) net cx s"

definition get_session_decode :: "api_lib \<Rightarrow> http_response \<Rightarrow> string + get_session_response" where
  "get_session_decode L rsp =
     (if hx_status rsp = 200 then read_response L ''ActiveSession'' (active_session_de L) GetSession_SessionDetails rsp
      else if hx_status rsp = 400 then read_response L ''Error'' api_error_de GetSession_FailedToGetSession rsp
      else if hx_status rsp = 404 then Inr GetSession_SessionNotFound
      else unexpected L rsp)"

definition client_get_session ::
  "api_lib \<Rightarrow> string \<Rightarrow> 's transport \<Rightarrow> string \<Rightarrow> api_context \<Rightarrow> 's \<Rightarrow> (get_session_response, 's) answer" where
  "client_get_session L base net i cx s =
     client_call L ''GET'' (base @ ''/sessions/'' @ with_id L i []) None (get_session_decode L) net cx s"

definition get_session_history_decode :: "api_lib \<Rightarrow> http_response \<Rightarrow> string + get_session_history_response" where
  "get_session_history_decode L rsp =
     (if hx_status rsp = 200 then read_response L ''Vec<ExecutionHistoryEntry>'' (vec_de history_entry_de) GetSessionHistory_ExecutionHistory rsp
      else if hx_status rsp = 401 then Inr GetSessionHistory_Unauthorized
      else if hx_status rsp = 404 then Inr GetSessionHistory_SessionNotFound
      else unexpected L rsp)"

definition client_get_session_history ::
  "api_lib \<Rightarrow> string \<Rightarrow> 's transport \<Rightarrow> string \<Rightarrow> api_context \<Rightarrow> 's \<Rightarrow> (get_session_history_response, 's) answer" where
  "client_get_session_history L base net i cx s =
     client_call L ''GET'' (base @ ''/sessions/'' @ with_id L i ''/history'') None (get_session_history_decode L) net cx s"

definition interrupt_session_decode :: "api_lib \<Rightarrow> http_response \<Rightarrow> string + interrupt_session_response" where
  "interrupt_session_decode L rsp =
     (if hx_status rsp = 200 then read_response L ''Value'' (\<lambda>v. Some (value_de v)) InterruptSession_Interrupted rsp
      else if hx_status rsp = 400 then read_response L ''Error'' api_error_de InterruptSession_InterruptFailed rsp
      else if hx_status rsp = 401 then Inr InterruptSession_Unauthorized
      else if hx_status rsp = 404 then Inr InterruptSession_SessionNotFound
      else unexpected L rsp)"

definition client_interrupt_session ::
  "api_lib \<Rightarrow> string \<Rightarrow> 's transport \<Rightarrow> string \<Rightarrow> api_context \<Rightarrow> 's \<Rightarrow> (interrupt_session_response, 's) answer" where
  "client_interrupt_session L base net i cx s =
     client_call L ''POST'' (base @ ''/sessions/'' @ with_id L i ''/interrupt'') None (interrupt_session_decode L) net cx s"

definition kill_session_decode :: "api_lib \<Rightarrow> http_response \<Rightarrow> string + kill_session_response" where
  "kill_session_decode L rsp =
     (if hx_status rsp = 200 then read_response L ''Value'' (\<lambda>v. Some (value_de v)) KillSession_Killed rsp
      else if hx_status rsp = 400 then read_response L ''Error'' api_error_de KillSession_KillFailed rsp
      else if hx_status rsp = 401 then Inr KillSession_Unauthorized
      else if hx_status rsp = 404 then Inr KillSession_SessionNotFound
      else unexpected L rsp)"

definition client_kill_session ::
  "api_lib \<Rightarrow> string \<Rightarrow> 's transport \<Rightarrow> string \<Rightarrow> api_context \<Rightarrow> 's \<Rightarrow> (kill_session_response, 's) answer" where
  "client_kill_session L base net i cx s =
     client_call L ''POST'' (base @ ''/sessions/'' @ with_id L i ''/kill'') None (kill_session_decode L) net cx s"

definition mcp_workspace_channel_decode :: "api_lib \<Rightarrow> http_response \<Rightarrow> string + mcp_workspace_channel_response" where
  "mcp_workspace_channel_decode L rsp =
     (if hx_status rsp = 200 then Inr McpWorkspaceChannel_UpgradedConnection
      else if hx_status rsp = 400 then read_response L ''Error'' api_error_de McpWorkspaceChannel_InvalidRequest rsp
      else if hx_status rsp = 401 then Inr McpWorkspaceChannel_Unauthorized
      else if hx_status rsp = 404 then Inr McpWorkspaceChannel_WorkspaceNotFound
      else unexpected L rsp)"

definition client_mcp_workspace_channel ::
  "api_lib \<Rightarrow> string \<Rightarrow> 's transport \<Rightarrow> string \<Rightarrow> api_context \<Rightarrow> 's \<Rightarrow> (mcp_workspace_channel_response, 's) answer" where
  "client_mcp_workspace_channel L base net i cx s =
     client_call L ''GET'' (base @ ''/mcp/workspaces/'' @ with_id L i ''/channel'') None (mcp_workspace_channel_decode L) net cx s"

definition restart_session_decode :: "api_lib \<Rightarrow> http_response \<Rightarrow> string + restart_session_response" where
  "restart_session_decode L rsp =
     (if hx_status rsp = 200 then read_response L ''Value'' (\<lambda>v. Some (value_de v)) RestartSession_Restarted rsp
      else if hx_status rsp = 500 then read_response L ''StartupError'' startup_error_de RestartSession_RestartFailed rsp
      else if hx_status rsp = 401 then Inr RestartSession_Unauthorized
      else if hx_status rsp = 404 then Inr RestartSession_SessionNotFound
      else unexpected L rsp)"

definition client_restart_session ::
  "api_lib \<Rightarrow> string \<Rightarrow> 's transport \<Rightarrow> string \<Rightarrow> restart_session_model option \<Rightarrow> api_context \<Rightarrow> 's \<Rightarrow> (restart_session_response, 's) answer" where
  "client_restart_session L base net i x cx s =
     client_call L ''POST'' (base @ ''/sessions/'' @ with_id L i ''/restart'') (Some (map_option restart_session_ser x)) (restart_session_decode L) net cx s"

definition start_session_decode :: "api_lib \<Rightarrow> http_response \<Rightarrow> string + start_session_response" where
  "start_session_decode L rsp =
     (if hx_status rsp = 200 then read_response L ''Value'' (\<lambda>v. Some (value_de v)) StartSession_Started rsp
      else if hx_status rsp = 500 then read_response L ''StartupError'' startup_error_de StartSession_StartFailed rsp
      else if hx_status rsp = 404 then Inr StartSession_SessionNotFound
      else if hx_status rsp = 401 then Inr StartSession_Unauthorized
      else unexpected L rsp)"

definition client_start_session ::
  "api_lib \<Rightarrow> string \<Rightarrow> 's transport \<Rightarrow> string \<Rightarrow> api_context \<Rightarrow> 's \<Rightarrow> (start_session_response, 's) answer" where
  "client_start_session L base net i cx s =
     client_call L ''POST'' (base @ ''/sessions/'' @ with_id L i ''/start'') None (start_session_decode L) net cx s"

text \<open>The client as an implementation of the interface.\<close>

definition api_client :: "api_lib \<Rightarrow> string \<Rightarrow> 's transport \<Rightarrow> 's api" where
  "api_client L base net = \<lparr>
     api_client_heartbeat = client_client_heartbeat L base net,
     api_get_server_configuration = client_get_server_configuration L base net,
     api_list_sessions = client_list_sessions L base net,
     api_new_session = client_new_session L base net,
     api_register_mcp_workspace = client_register_mcp_workspace L base net,
     api_server_status = client_server_status L base net,
     api_set_server_configuration = client_set_server_configuration L base net,
     api_shutdown_server = client_shutdown_server L base net,
     api_adopt_session = client_adopt_session L base net,
     api_channels_upgrade = client_channels_upgrade L base net,
     api_connection_info = client_connection_info L base net,
     api_delete_session = client_delete_session L base net,
     api_deregister_mcp_workspace = client_deregister_mcp_workspace L base net,
     api_execute_code = client_execute_code L base net,
     api_get_session = client_get_session L base net,
     api_get_session_history = client_get_session_history L base net,
     api_interrupt_session = client_interrupt_session L base net,
     api_kill_session = client_kill_session L base net,
     api_mcp_workspace_channel = client_mcp_workspace_channel L base net,
     api_restart_session = client_restart_session L base net,
     api_start_session = client_start_session L base net\<rparr>"

section \<open>The transport to the router\<close>

text \<open>
  A panic of the server closes the connection; \<open>closed\<close> is how the client's library words that. In front of the
  router the server has a service that takes the requests for WebSockets away; it is modelled with the attaching
  clients.
\<close>

definition direct :: "api_lib \<Rightarrow> string \<Rightarrow> 's api \<Rightarrow> 's transport" where
  "direct L closed a rq s =
     (case serve L a rq s of
        (Some rsp, s) \<Rightarrow> (Inr rsp, s)
      | (None, s) \<Rightarrow> (Inl closed, s))"

section \<open>What the transport relies on\<close>

text \<open>
  The documented behaviour of the libraries between the client and the router: percent encoding keeps a
  character outside its set and escapes one inside it or beyond ASCII, and decoding undoes it; a URI is cut at
  the query and the fragment; a header may hold visible ASCII; the span of a request is the one in its header; a
  request without an authorization header carries no credentials; and a body that a writer of the models produced
  has no field its reader does not know. The text of an internal error is not JSON.
\<close>

definition pchar :: "char \<Rightarrow> bool" where
  "pchar c \<longleftrightarrow> is_alnum c \<or> c \<in> set ''-._~!$&()*+,;=:@%/'' \<or> c = CHR 0x27"

definition visible :: "string \<Rightarrow> bool" where
  "visible s \<longleftrightarrow> list_all (\<lambda>c. 32 \<le> (of_char c :: nat) \<and> (of_char c :: nat) < 127) s"

definition cut_path :: "string \<Rightarrow> string" where
  "cut_path p = takeWhile (\<lambda>c. c \<noteq> CHR ''?'' \<and> c \<noteq> CHR ''#'') p"

definition base_url :: "string \<Rightarrow> nat option \<Rightarrow> string" where
  "base_url host_name port = ''http://'' @ host_name @ (case port of Some p \<Rightarrow> '':'' @ show_nat p | None \<Rightarrow> [])"

definition base_ok :: "string \<Rightarrow> nat option \<Rightarrow> bool" where
  "base_ok host_name port \<longleftrightarrow> host_name \<noteq> [] \<and> list_all (\<lambda>c. is_alnum c \<or> c = CHR ''.'' \<or> c = CHR ''-'') host_name \<and>
     pred_option (\<lambda>p. p < 65536) port"

definition sent_body :: "string \<Rightarrow> json \<Rightarrow> bool" where
  "sent_body name v \<longleftrightarrow> json_textual v \<and>
     (name = ''ClientHeartbeat'' \<and> v \<in> range heartbeat_ser \<or>
      name = ''NewSession'' \<and> v \<in> range new_session_ser \<or>
      name = ''McpWorkspaceRegistration'' \<and> v \<in> range mcp_registration_ser \<or>
      name = ''ServerConfiguration'' \<and> v \<in> range server_configuration_ser \<or>
      name = ''ConnectionInfo'' \<and> v \<in> range connection_info_ser \<or>
      name = ''ExecuteRequest'' \<and> v \<in> range execute_request_ser \<or>
      name = ''RestartSession'' \<and> v \<in> range restart_session_ser)"

text \<open>The identifiers that reach the server unchanged.\<close>

definition name_char :: "char \<Rightarrow> bool" where
  "name_char c \<longleftrightarrow> pchar c \<and> c \<noteq> CHR ''/'' \<and> c \<noteq> CHR ''%'' \<or> ID_ENCODE_SET c \<or> 128 \<le> (of_char c :: nat)"

definition id_ok :: "api_lib \<Rightarrow> string \<Rightarrow> bool" where
  "id_ok L i \<longleftrightarrow> al_utf8 L i \<and> list_all name_char i"

definition anonymous :: "api_context \<Rightarrow> api_context" where
  "anonymous cx = cx\<lparr>cx_auth := None\<rparr>"

text \<open>A response as the router sends it, and the contract of an operation's reader with its writer.\<close>

definition encoded :: "api_lib \<Rightarrow> (string \<times> string) list \<Rightarrow> nat \<times> json option \<Rightarrow> http_response" where
  "encoded L hs w =
     (case w of
        (code, None) \<Rightarrow> \<lparr>hx_status = code, hx_headers = hs, hx_body = Inr []\<rparr>
      | (code, Some j) \<Rightarrow> \<lparr>hx_status = code, hx_headers = hs @ [(''content-type'', ''application/json'')], hx_body = Inr (al_to_string L j)\<rparr>)"

locale response_codec =
  fixes L :: api_lib and wire :: "'r \<Rightarrow> nat \<times> json option" and decode_rsp :: "http_response \<Rightarrow> string + 'r"
    and ok :: "'r \<Rightarrow> bool"
  assumes decode_wire: "ok r \<Longrightarrow> decode_rsp (encoded L hs (wire r)) = Inr r"
    and internal_error:
      "\<exists>e. decode_rsp \<lparr>hx_status = 500, hx_headers = hs, hx_body = Inr ''An internal error occurred''\<rparr> = Inl e"

text \<open>
  A remote answer mirrors a local one: the same response and state; an error or a panic of the operation is an
  error of the call, with the state the operation left.
\<close>

definition mirrors :: "('r \<Rightarrow> bool) \<Rightarrow> ('r, 's) answer \<Rightarrow> ('r, 's) answer \<Rightarrow> bool" where
  "mirrors ok loc rem \<longleftrightarrow>
     (case loc of
        (Some (Inr r), s) \<Rightarrow> ok r \<longrightarrow> rem = (Some (Inr r), s)
      | (_, s) \<Rightarrow> (\<exists>e. rem = (Some (Inl e), s)))"

lemma pchar_literals: "pchar (CHR ''%'')" "\<not> pchar (CHR ''?'')" "\<not> pchar (CHR ''#'')"
  by code_simp+

lemma name_char_literals: "\<not> name_char (CHR ''/'')" "\<not> name_char (CHR ''%'')"
  by code_simp+

lemma pchar_not_cut: "pchar c \<Longrightarrow> c \<noteq> CHR ''?'' \<and> c \<noteq> CHR ''#''"
  using pchar_literals by blast

lemma name_chars:
  assumes "id_ok L i"
  shows "list_all (\<lambda>c. pchar c \<or> ID_ENCODE_SET c \<or> 128 \<le> (of_char c :: nat)) i" "CHR ''/'' \<notin> set i" "CHR ''%'' \<notin> set i"
proof -
  have "\<forall>c \<in> set i. name_char c"
    using assms by (simp add: id_ok_def list_all_iff)
  then show "CHR ''/'' \<notin> set i" "CHR ''%'' \<notin> set i"
    using name_char_literals by blast+
  show "list_all (\<lambda>c. pchar c \<or> ID_ENCODE_SET c \<or> 128 \<le> (of_char c :: nat)) i"
    using \<open>\<forall>c \<in> set i. name_char c\<close> unfolding list_all_iff name_char_def by blast
qed

lemma hex_pchar: "is_hexdigit h \<Longrightarrow> pchar h \<and> h \<noteq> CHR ''/''"
proof -
  assume hex: "is_hexdigit h"
  then have "is_alnum h"
    by (auto simp: is_hexdigit_def is_alnum_def is_digit_def is_upper_def is_lower_def code_in_def)
  moreover have "\<not> is_hexdigit (CHR ''/'')"
    by code_simp
  ultimately show "pchar h \<and> h \<noteq> CHR ''/''"
    using hex unfolding pchar_def by blast
qed

locale api_transport = api_library +
  assumes encode_nil: "al_percent_encode L S [] = []"
    and encode_kept: "\<not> S c \<Longrightarrow> (of_char c :: nat) < 128 \<Longrightarrow>
      al_percent_encode L S (c # s) = c # al_percent_encode L S s"
    and encode_escaped: "S c \<or> 128 \<le> (of_char c :: nat) \<Longrightarrow>
      \<exists>h l. is_hexdigit h \<and> is_hexdigit l \<and>
        (\<forall>s. al_percent_encode L S (c # s) = CHR ''%'' # h # l # al_percent_encode L S s)"
    and decode: "al_utf8 L s \<Longrightarrow> CHR ''%'' \<notin> set s \<Longrightarrow> al_percent_decode L (al_percent_encode L S s) = Some s"
    and uri: "base_ok host_name port \<Longrightarrow> list_all (\<lambda>c. pchar c \<or> c = CHR ''?'' \<or> c = CHR ''#'') p \<Longrightarrow>
      al_uri L (base_url host_name port @ CHR ''/'' # p) =
        Inr \<lparr>up_scheme = Some ''http'', up_host = Some host_name, up_port = port, up_path = cut_path (CHR ''/'' # p)\<rparr>"
    and uri_base: "base_ok host_name port \<Longrightarrow> al_uri L (base_url host_name port) =
        Inr \<lparr>up_scheme = Some ''http'', up_host = Some host_name, up_port = port, up_path = ''/''\<rparr>"
    and header_ok: "visible s \<Longrightarrow> al_header_ok L s"
    and span_id: "visible s \<Longrightarrow> (''x-span-id'', s) \<in> set hs \<Longrightarrow> distinct (map fst hs) \<Longrightarrow> al_span_id L hs = s"
    and no_credentials: "''authorization'' \<notin> fst ` set hs \<Longrightarrow> al_from_headers L hs = None"
    and not_json: "\<exists>e. al_from_str L ''An internal error occurred'' = Inl e"
    and known_fields: "sent_body name v \<Longrightarrow> al_ignored L name (al_to_string L v) = []"
begin

text \<open>The encoding of an identifier stays within one segment.\<close>

lemma encoded_chars:
  assumes "list_all (\<lambda>c. pchar c \<or> S c \<or> 128 \<le> (of_char c :: nat)) i" and "CHR ''/'' \<notin> set i" and "CHR ''%'' \<notin> set i"
  shows "list_all pchar (al_percent_encode L S i) \<and> CHR ''/'' \<notin> set (al_percent_encode L S i)"
  using assms
proof (induction i)
  case Nil
  then show ?case
    by (simp add: encode_nil)
next
  case (Cons c i)
  then have IH: "list_all pchar (al_percent_encode L S i)" "CHR ''/'' \<notin> set (al_percent_encode L S i)"
    by simp_all
  show ?case
  proof (cases "S c \<or> 128 \<le> (of_char c :: nat)")
    case True
    then obtain h l where hl: "is_hexdigit h" "is_hexdigit l" "al_percent_encode L S (c # i) = CHR ''%'' # h # l # al_percent_encode L S i"
      using encode_escaped by blast
    then show ?thesis
      using IH hex_pchar [of h] hex_pchar [of l] pchar_literals(1) by auto
  next
    case False
    then show ?thesis
      using encode_kept [of S c i] IH Cons.prems by auto
  qed
qed

lemma encoded_id:
  assumes "id_ok L i"
  shows "list_all pchar (al_percent_encode L ID_ENCODE_SET i)" "CHR ''/'' \<notin> set (al_percent_encode L ID_ENCODE_SET i)"
  using encoded_chars [OF name_chars [OF assms]] by blast+

lemma encode_append: "al_percent_encode L S (i @ t) = al_percent_encode L S i @ al_percent_encode L S t"
proof (induction i)
  case (Cons c i)
  show ?case
  proof (cases "S c \<or> 128 \<le> (of_char c :: nat)")
    case True
    then show ?thesis
      using encode_escaped [of S c] Cons by auto
  next
    case False
    then show ?thesis
      using encode_kept [of S c] Cons by simp
  qed
qed (simp add: encode_nil)

lemma encode_kept_all: "list_all (\<lambda>c. \<not> S c \<and> (of_char c :: nat) < 128) t \<Longrightarrow> al_percent_encode L S t = t"
  by (induction t) (auto simp: encode_nil encode_kept)

lemma path_param:
  assumes "id_ok L i"
  shows "with_path_param L (Captured pre post) (pre @ with_id L i post) s k = k i"
proof -
  let ?e = "al_percent_encode L ID_ENCODE_SET i"
  have "CHR ''/'' \<notin> set ?e" and "plain ?e"
    using encoded_id [OF assms] pchar_not_cut by (auto simp: plain_def list_all_iff)
  then have "captures (Captured pre post) (pre @ with_id L i post) = Some ?e"
    unfolding with_id_def by (rule captures_raw)
  moreover have "al_percent_decode L ?e = Some i"
    using decode name_chars(3) [OF assms] assms by (simp add: id_ok_def)
  ultimately show ?thesis
    by (simp add: with_path_param_def)
qed

lemma read_sent:
  assumes "serde_field ser de ok" and "ok x"
  shows "read_body L name de (al_to_string L (ser x)) = Inr (Some x)"
proof -
  note props = serde_field.present [OF assms] serde_type.roundtrip [OF serde_field.axioms(1) [OF assms(1)] assms(2)]
    serde_type.textual [OF serde_field.axioms(1) [OF assms(1)] assms(2)]
  then show ?thesis
    using text_nonempty [of "ser x"] from_slice [of "ser x"] by (cases "ser x") (auto simp: read_body_def)
qed

lemma body_param:
  assumes "serde_field ser de ok" and "ok x" and "sent_body name (ser x)"
  shows "with_required_body L name de (Inr (al_to_string L (ser x))) s k = k [] x"
  using read_sent [OF assms(1,2)] known_fields [OF assms(3)] by (simp add: with_required_body_def)

lemma optional_body_param:
  assumes "serde_field ser de ok" and "pred_option ok x" and "\<And>y. x = Some y \<Longrightarrow> sent_body name (ser y)"
  shows "with_optional_body L name de (Inr (case map_option ser x of Some j \<Rightarrow> al_to_string L j | None \<Rightarrow> [])) s k = k [] x"
  using read_sent [OF assms(1)] known_fields assms(2,3) text_nonempty serde_type.textual [OF serde_field.axioms(1) [OF assms(1)]]
  by (cases x) (auto simp: with_optional_body_def)

text \<open>What the router knows of a request of the client: its span, and no credentials.\<close>

lemma client_context:
  assumes "visible (cx_span_id cx)"
    and "hs = (case body of Some _ \<Rightarrow> [(''content-type'', ''application/json'')] | None \<Rightarrow> []) @ [(''x-span-id'', cx_span_id cx)]"
  shows "add_context L \<lparr>hc_method = m, hc_path = p, hc_headers = hs, hc_body = b\<rparr> = anonymous cx"
proof -
  have "al_span_id L hs = cx_span_id cx"
    using span_id [OF assms(1), of hs] assms(2) by (auto split: option.splits)
  moreover have "al_from_headers L hs = None"
    using no_credentials [of hs] assms(2) by (auto split: option.splits)
  ultimately show ?thesis
    by (simp add: add_context_def anonymous_def)
qed

text \<open>A call arrives at the router as it was made, and the router's response is read back.\<close>

lemma call_arrives:
  assumes "base_ok host_name port" and "visible (cx_span_id cx)" and "list_all pchar q"
    and "body_text = (case body of Some (Some j) \<Rightarrow> al_to_string L j | _ \<Rightarrow> [])"
    and "\<And>hs. service_run L a (anonymous cx) \<lparr>hc_method = m, hc_path = CHR ''/'' # q, hc_headers = hs,
           hc_body = Inr body_text\<rparr> s = respond L (anonymous cx) [] wire answer"
    and "response_codec L wire decode_rsp ok"
  shows "mirrors ok answer
           (client_call L m (base_url host_name port @ CHR ''/'' # q) body decode_rsp (direct L closed a) cx s)"
proof -
  define hs where "hs = (case body of Some _ \<Rightarrow> [(''content-type'', ''application/json'')] | None \<Rightarrow> []) @ [(''x-span-id'', cx_span_id cx)]"
  have path: "cut_path (CHR ''/'' # q) = CHR ''/'' # q"
    unfolding cut_path_def
    using assms(3) pchar_not_cut by (auto simp: takeWhile_eq_all_conv list_all_iff)
  have "al_uri L (base_url host_name port @ CHR ''/'' # q) =
      Inr \<lparr>up_scheme = Some ''http'', up_host = Some host_name, up_port = port, up_path = CHR ''/'' # q\<rparr>"
    using uri [OF assms(1), of q] assms(3) path by (auto simp: list_all_iff)
  moreover have "al_header_ok L (cx_span_id cx)"
    using header_ok assms(2) by blast
  ultimately have call: "client_call L m (base_url host_name port @ CHR ''/'' # q) body decode_rsp (direct L closed a) cx s =
      (case respond L (anonymous cx) [] wire answer of
         (None, s) \<Rightarrow> (Some (Inl (''No response received: '' @ closed)), s)
       | (Some rsp, s) \<Rightarrow> (Some (decode_rsp rsp), s))"
    using assms(5) client_context [OF assms(2) hs_def] assms(4)
    by (auto simp: client_call_def direct_def serve_def hs_def Let_def split: option.splits prod.splits)
  show ?thesis
  proof (cases answer)
    case (Pair result s')
    show ?thesis
    proof (cases result)
      case None
      then show ?thesis
        using Pair call by (simp add: respond_def mirrors_def)
    next
      case (Some outcome)
      have span: "al_header_ok L (cx_span_id (anonymous cx))"
        using header_ok assms(2) by (simp add: anonymous_def)
      show ?thesis
      proof (cases outcome)
        case (Inl e)
        then show ?thesis
          using Pair Some call span response_codec.internal_error [OF assms(6)]
          by (auto simp: respond_def mirrors_def Let_def)
      next
        case (Inr r)
        then have "respond L (anonymous cx) [] wire answer =
            (Some (encoded L [(''x-span-id'', cx_span_id (anonymous cx))] (wire r)), s')"
          using Pair Some span by (auto simp: respond_def encoded_def Let_def split: prod.splits option.splits)
        then show ?thesis
          using Pair Some Inr call response_codec.decode_wire [OF assms(6)] by (simp add: mirrors_def)
      qed
    qed
  qed
qed

end

section \<open>Responses survive the way\<close>

fun client_heartbeat_response_ok :: "client_heartbeat_response \<Rightarrow> bool" where
  "client_heartbeat_response_ok (ClientHeartbeat_HeartbeatReceived x) \<longleftrightarrow> value_ok x"

fun get_server_configuration_response_ok :: "get_server_configuration_response \<Rightarrow> bool" where
  "get_server_configuration_response_ok (GetServerConfiguration_TheCurrentServerConfiguration x) \<longleftrightarrow> server_configuration_ok x"
| "get_server_configuration_response_ok (GetServerConfiguration_FailedToGetConfiguration x) \<longleftrightarrow> True"

fun list_sessions_response_ok :: "list_sessions_response \<Rightarrow> bool" where
  "list_sessions_response_ok (ListSessions_ListOfActiveSessions x) \<longleftrightarrow> session_list_ok x"

fun new_session_response_ok :: "new_session_response \<Rightarrow> bool" where
  "new_session_response_ok (NewSession_TheSessionID x) \<longleftrightarrow> True"
| "new_session_response_ok (NewSession_InvalidRequest x) \<longleftrightarrow> True"
| "new_session_response_ok NewSession_Unauthorized \<longleftrightarrow> True"

fun register_mcp_workspace_response_ok :: "register_mcp_workspace_response \<Rightarrow> bool" where
  "register_mcp_workspace_response_ok (RegisterMcpWorkspace_WorkspaceRegistered x) \<longleftrightarrow> mcp_workspace_ok x"
| "register_mcp_workspace_response_ok (RegisterMcpWorkspace_InvalidRequest x) \<longleftrightarrow> True"
| "register_mcp_workspace_response_ok RegisterMcpWorkspace_Unauthorized \<longleftrightarrow> True"

fun server_status_response_ok :: "server_status_response \<Rightarrow> bool" where
  "server_status_response_ok (ServerStatus_ServerStatusAndInformation x) \<longleftrightarrow> server_status_ok x"
| "server_status_response_ok (ServerStatus_Error x) \<longleftrightarrow> True"

fun set_server_configuration_response_ok :: "set_server_configuration_response \<Rightarrow> bool" where
  "set_server_configuration_response_ok (SetServerConfiguration_ConfigurationUpdated x) \<longleftrightarrow> value_ok x"
| "set_server_configuration_response_ok (SetServerConfiguration_Error x) \<longleftrightarrow> True"

fun shutdown_server_response_ok :: "shutdown_server_response \<Rightarrow> bool" where
  "shutdown_server_response_ok (ShutdownServer_ShuttingDown x) \<longleftrightarrow> value_ok x"
| "shutdown_server_response_ok (ShutdownServer_ShutdownFailed x) \<longleftrightarrow> True"
| "shutdown_server_response_ok ShutdownServer_Unauthorized \<longleftrightarrow> True"

fun adopt_session_response_ok :: "adopt_session_response \<Rightarrow> bool" where
  "adopt_session_response_ok (AdoptSession_Adopted x) \<longleftrightarrow> value_ok x"
| "adopt_session_response_ok (AdoptSession_AdoptionFailed x) \<longleftrightarrow> True"
| "adopt_session_response_ok AdoptSession_SessionNotFound \<longleftrightarrow> True"
| "adopt_session_response_ok AdoptSession_Unauthorized \<longleftrightarrow> True"

fun channels_upgrade_response_ok :: "channels_upgrade_response \<Rightarrow> bool" where
  "channels_upgrade_response_ok (ChannelsUpgrade_UpgradedConnection x) \<longleftrightarrow> True"
| "channels_upgrade_response_ok (ChannelsUpgrade_InvalidRequest x) \<longleftrightarrow> True"
| "channels_upgrade_response_ok ChannelsUpgrade_Unauthorized \<longleftrightarrow> True"
| "channels_upgrade_response_ok ChannelsUpgrade_SessionNotFound \<longleftrightarrow> True"

fun connection_info_response_ok :: "connection_info_response \<Rightarrow> bool" where
  "connection_info_response_ok (ConnectionInfo_ConnectionInfo x) \<longleftrightarrow> connection_info_ok x"
| "connection_info_response_ok (ConnectionInfo_Failed x) \<longleftrightarrow> True"
| "connection_info_response_ok ConnectionInfo_Unauthorized \<longleftrightarrow> True"
| "connection_info_response_ok ConnectionInfo_SessionNotFound \<longleftrightarrow> True"

fun delete_session_response_ok :: "delete_session_response \<Rightarrow> bool" where
  "delete_session_response_ok (DeleteSession_SessionDeleted x) \<longleftrightarrow> value_ok x"
| "delete_session_response_ok (DeleteSession_FailedToDeleteSession x) \<longleftrightarrow> True"
| "delete_session_response_ok DeleteSession_Unauthorized \<longleftrightarrow> True"
| "delete_session_response_ok DeleteSession_SessionNotFound \<longleftrightarrow> True"

fun deregister_mcp_workspace_response_ok :: "deregister_mcp_workspace_response \<Rightarrow> bool" where
  "deregister_mcp_workspace_response_ok DeregisterMcpWorkspace_WorkspaceDeregistered \<longleftrightarrow> True"
| "deregister_mcp_workspace_response_ok DeregisterMcpWorkspace_Unauthorized \<longleftrightarrow> True"
| "deregister_mcp_workspace_response_ok DeregisterMcpWorkspace_WorkspaceNotFound \<longleftrightarrow> True"

fun execute_code_response_ok :: "execute_code_response \<Rightarrow> bool" where
  "execute_code_response_ok (ExecuteCode_ExecutionCompleted x) \<longleftrightarrow> execute_reply_ok x"
| "execute_code_response_ok (ExecuteCode_InvalidRequest x) \<longleftrightarrow> True"
| "execute_code_response_ok ExecuteCode_Unauthorized \<longleftrightarrow> True"
| "execute_code_response_ok ExecuteCode_SessionNotFound \<longleftrightarrow> True"
| "execute_code_response_ok (ExecuteCode_ExecutionTimedOut x) \<longleftrightarrow> True"

fun get_session_response_ok :: "get_session_response \<Rightarrow> bool" where
  "get_session_response_ok (GetSession_SessionDetails x) \<longleftrightarrow> active_session_ok x"
| "get_session_response_ok (GetSession_FailedToGetSession x) \<longleftrightarrow> True"
| "get_session_response_ok GetSession_SessionNotFound \<longleftrightarrow> True"

fun get_session_history_response_ok :: "get_session_history_response \<Rightarrow> bool" where
  "get_session_history_response_ok (GetSessionHistory_ExecutionHistory x) \<longleftrightarrow> list_all history_entry_ok x"
| "get_session_history_response_ok GetSessionHistory_Unauthorized \<longleftrightarrow> True"
| "get_session_history_response_ok GetSessionHistory_SessionNotFound \<longleftrightarrow> True"

fun interrupt_session_response_ok :: "interrupt_session_response \<Rightarrow> bool" where
  "interrupt_session_response_ok (InterruptSession_Interrupted x) \<longleftrightarrow> value_ok x"
| "interrupt_session_response_ok (InterruptSession_InterruptFailed x) \<longleftrightarrow> True"
| "interrupt_session_response_ok InterruptSession_Unauthorized \<longleftrightarrow> True"
| "interrupt_session_response_ok InterruptSession_SessionNotFound \<longleftrightarrow> True"

fun kill_session_response_ok :: "kill_session_response \<Rightarrow> bool" where
  "kill_session_response_ok (KillSession_Killed x) \<longleftrightarrow> value_ok x"
| "kill_session_response_ok (KillSession_KillFailed x) \<longleftrightarrow> True"
| "kill_session_response_ok KillSession_Unauthorized \<longleftrightarrow> True"
| "kill_session_response_ok KillSession_SessionNotFound \<longleftrightarrow> True"

fun mcp_workspace_channel_response_ok :: "mcp_workspace_channel_response \<Rightarrow> bool" where
  "mcp_workspace_channel_response_ok McpWorkspaceChannel_UpgradedConnection \<longleftrightarrow> True"
| "mcp_workspace_channel_response_ok (McpWorkspaceChannel_InvalidRequest x) \<longleftrightarrow> True"
| "mcp_workspace_channel_response_ok McpWorkspaceChannel_Unauthorized \<longleftrightarrow> True"
| "mcp_workspace_channel_response_ok McpWorkspaceChannel_WorkspaceNotFound \<longleftrightarrow> True"

fun restart_session_response_ok :: "restart_session_response \<Rightarrow> bool" where
  "restart_session_response_ok (RestartSession_Restarted x) \<longleftrightarrow> value_ok x"
| "restart_session_response_ok (RestartSession_RestartFailed x) \<longleftrightarrow> startup_error_ok x"
| "restart_session_response_ok RestartSession_Unauthorized \<longleftrightarrow> True"
| "restart_session_response_ok RestartSession_SessionNotFound \<longleftrightarrow> True"

fun start_session_response_ok :: "start_session_response \<Rightarrow> bool" where
  "start_session_response_ok (StartSession_Started x) \<longleftrightarrow> value_ok x"
| "start_session_response_ok (StartSession_StartFailed x) \<longleftrightarrow> startup_error_ok x"
| "start_session_response_ok StartSession_SessionNotFound \<longleftrightarrow> True"
| "start_session_response_ok StartSession_Unauthorized \<longleftrightarrow> True"

lemma read_written:
  assumes "api_library L" and "serde_type ser de ok" and "ok x"
  shows "read_response L name de variant \<lparr>hx_status = c, hx_headers = hs, hx_body = Inr (al_to_string L (ser x))\<rparr> = Inr (variant x)"
  using api_library.from_str [OF assms(1) serde_type.textual [OF assms(2,3)]] api_library.text_utf8 [OF assms(1) serde_type.textual [OF assms(2,3)]]
    serde_type.roundtrip [OF assms(2,3)]
  by (simp add: read_response_def)

lemma read_error:
  assumes "api_transport L"
  shows "\<exists>e. read_response L name de variant \<lparr>hx_status = c, hx_headers = hs, hx_body = Inr ''An internal error occurred''\<rparr> = Inl e"
  using api_transport.not_json [OF assms] by (auto simp: read_response_def)

lemma unexpected_error: "\<exists>e. unexpected L rsp = Inl e"
  by (simp add: unexpected_def)

lemmas reads =
  read_written [OF _ value_serde.serde_type_axioms]
  read_written [OF _ string_serde.serde_type_axioms, simplified]
  read_written [OF _ api_error_serde.serde_type_axioms, simplified]
  read_written [OF _ startup_error_serde.serde_type_axioms]
  read_written [OF _ server_configuration_serde.serde_type_axioms]
  read_written [OF _ new_session_id_serde.serde_type_axioms, simplified]
  read_written [OF _ mcp_workspace_serde.serde_type_axioms]
  read_written [OF _ connection_info_serde.serde_type_axioms]
  read_written [OF _ execute_reply_serde.serde_type_axioms]
  read_written [OF _ history_entries_serde.serde_type_axioms]
  read_written [OF _ serde_field.axioms(1) [OF session_list_serde]]
  read_written [OF _ serde_field.axioms(1) [OF server_status_serde]]
  read_written [OF _ serde_field.axioms(1) [OF active_session_serde]]

text \<open>Every reader of the client understands the writer of the router.\<close>

lemma client_heartbeat_codec: "api_transport L \<Longrightarrow> response_codec L client_heartbeat_wire (client_heartbeat_decode L) client_heartbeat_response_ok"
proof
  assume lib: "api_transport L"
  show "client_heartbeat_decode L (encoded L hs (client_heartbeat_wire r)) = Inr r" if "client_heartbeat_response_ok r" for r hs
    using that by (cases r) (simp_all add: client_heartbeat_decode_def encoded_def reads api_transport.axioms(1) [OF lib])
  show "\<exists>e. client_heartbeat_decode L \<lparr>hx_status = 500, hx_headers = hs, hx_body = Inr ''An internal error occurred''\<rparr> = Inl e" for hs
    by (simp add: client_heartbeat_decode_def read_error [OF lib] unexpected_error)
qed

lemma get_server_configuration_codec: "api_transport L \<Longrightarrow> response_codec L get_server_configuration_wire (get_server_configuration_decode L) get_server_configuration_response_ok"
proof
  assume lib: "api_transport L"
  show "get_server_configuration_decode L (encoded L hs (get_server_configuration_wire r)) = Inr r" if "get_server_configuration_response_ok r" for r hs
    using that by (cases r) (simp_all add: get_server_configuration_decode_def encoded_def reads api_transport.axioms(1) [OF lib])
  show "\<exists>e. get_server_configuration_decode L \<lparr>hx_status = 500, hx_headers = hs, hx_body = Inr ''An internal error occurred''\<rparr> = Inl e" for hs
    by (simp add: get_server_configuration_decode_def read_error [OF lib] unexpected_error)
qed

lemma list_sessions_codec: "api_transport L \<Longrightarrow> response_codec L (list_sessions_wire L) (list_sessions_decode L) list_sessions_response_ok"
proof
  assume lib: "api_transport L"
  show "list_sessions_decode L (encoded L hs ((list_sessions_wire L) r)) = Inr r" if "list_sessions_response_ok r" for r hs
    using that by (cases r) (simp_all add: list_sessions_decode_def encoded_def reads api_transport.axioms(1) [OF lib])
  show "\<exists>e. list_sessions_decode L \<lparr>hx_status = 500, hx_headers = hs, hx_body = Inr ''An internal error occurred''\<rparr> = Inl e" for hs
    by (simp add: list_sessions_decode_def read_error [OF lib] unexpected_error)
qed

lemma new_session_codec: "api_transport L \<Longrightarrow> response_codec L new_session_wire (new_session_decode L) new_session_response_ok"
proof
  assume lib: "api_transport L"
  show "new_session_decode L (encoded L hs (new_session_wire r)) = Inr r" if "new_session_response_ok r" for r hs
    using that by (cases r) (simp_all add: new_session_decode_def encoded_def reads api_transport.axioms(1) [OF lib])
  show "\<exists>e. new_session_decode L \<lparr>hx_status = 500, hx_headers = hs, hx_body = Inr ''An internal error occurred''\<rparr> = Inl e" for hs
    by (simp add: new_session_decode_def read_error [OF lib] unexpected_error)
qed

lemma register_mcp_workspace_codec: "api_transport L \<Longrightarrow> response_codec L register_mcp_workspace_wire (register_mcp_workspace_decode L) register_mcp_workspace_response_ok"
proof
  assume lib: "api_transport L"
  show "register_mcp_workspace_decode L (encoded L hs (register_mcp_workspace_wire r)) = Inr r" if "register_mcp_workspace_response_ok r" for r hs
    using that by (cases r) (simp_all add: register_mcp_workspace_decode_def encoded_def reads api_transport.axioms(1) [OF lib])
  show "\<exists>e. register_mcp_workspace_decode L \<lparr>hx_status = 500, hx_headers = hs, hx_body = Inr ''An internal error occurred''\<rparr> = Inl e" for hs
    by (simp add: register_mcp_workspace_decode_def read_error [OF lib] unexpected_error)
qed

lemma server_status_codec: "api_transport L \<Longrightarrow> response_codec L (server_status_wire L) (server_status_decode L) server_status_response_ok"
proof
  assume lib: "api_transport L"
  show "server_status_decode L (encoded L hs ((server_status_wire L) r)) = Inr r" if "server_status_response_ok r" for r hs
    using that by (cases r) (simp_all add: server_status_decode_def encoded_def reads api_transport.axioms(1) [OF lib])
  show "\<exists>e. server_status_decode L \<lparr>hx_status = 500, hx_headers = hs, hx_body = Inr ''An internal error occurred''\<rparr> = Inl e" for hs
    by (simp add: server_status_decode_def read_error [OF lib] unexpected_error)
qed

lemma set_server_configuration_codec: "api_transport L \<Longrightarrow> response_codec L set_server_configuration_wire (set_server_configuration_decode L) set_server_configuration_response_ok"
proof
  assume lib: "api_transport L"
  show "set_server_configuration_decode L (encoded L hs (set_server_configuration_wire r)) = Inr r" if "set_server_configuration_response_ok r" for r hs
    using that by (cases r) (simp_all add: set_server_configuration_decode_def encoded_def reads api_transport.axioms(1) [OF lib])
  show "\<exists>e. set_server_configuration_decode L \<lparr>hx_status = 500, hx_headers = hs, hx_body = Inr ''An internal error occurred''\<rparr> = Inl e" for hs
    by (simp add: set_server_configuration_decode_def read_error [OF lib] unexpected_error)
qed

lemma shutdown_server_codec: "api_transport L \<Longrightarrow> response_codec L shutdown_server_wire (shutdown_server_decode L) shutdown_server_response_ok"
proof
  assume lib: "api_transport L"
  show "shutdown_server_decode L (encoded L hs (shutdown_server_wire r)) = Inr r" if "shutdown_server_response_ok r" for r hs
    using that by (cases r) (simp_all add: shutdown_server_decode_def encoded_def reads api_transport.axioms(1) [OF lib])
  show "\<exists>e. shutdown_server_decode L \<lparr>hx_status = 500, hx_headers = hs, hx_body = Inr ''An internal error occurred''\<rparr> = Inl e" for hs
    by (simp add: shutdown_server_decode_def read_error [OF lib] unexpected_error)
qed

lemma adopt_session_codec: "api_transport L \<Longrightarrow> response_codec L adopt_session_wire (adopt_session_decode L) adopt_session_response_ok"
proof
  assume lib: "api_transport L"
  show "adopt_session_decode L (encoded L hs (adopt_session_wire r)) = Inr r" if "adopt_session_response_ok r" for r hs
    using that by (cases r) (simp_all add: adopt_session_decode_def encoded_def reads api_transport.axioms(1) [OF lib])
  show "\<exists>e. adopt_session_decode L \<lparr>hx_status = 500, hx_headers = hs, hx_body = Inr ''An internal error occurred''\<rparr> = Inl e" for hs
    by (simp add: adopt_session_decode_def read_error [OF lib] unexpected_error)
qed

lemma channels_upgrade_codec: "api_transport L \<Longrightarrow> response_codec L channels_upgrade_wire (channels_upgrade_decode L) channels_upgrade_response_ok"
proof
  assume lib: "api_transport L"
  show "channels_upgrade_decode L (encoded L hs (channels_upgrade_wire r)) = Inr r" if "channels_upgrade_response_ok r" for r hs
    using that by (cases r) (simp_all add: channels_upgrade_decode_def encoded_def reads api_transport.axioms(1) [OF lib])
  show "\<exists>e. channels_upgrade_decode L \<lparr>hx_status = 500, hx_headers = hs, hx_body = Inr ''An internal error occurred''\<rparr> = Inl e" for hs
    by (simp add: channels_upgrade_decode_def read_error [OF lib] unexpected_error)
qed

lemma connection_info_codec: "api_transport L \<Longrightarrow> response_codec L connection_info_wire (connection_info_decode L) connection_info_response_ok"
proof
  assume lib: "api_transport L"
  show "connection_info_decode L (encoded L hs (connection_info_wire r)) = Inr r" if "connection_info_response_ok r" for r hs
    using that by (cases r) (simp_all add: connection_info_decode_def encoded_def reads api_transport.axioms(1) [OF lib])
  show "\<exists>e. connection_info_decode L \<lparr>hx_status = 500, hx_headers = hs, hx_body = Inr ''An internal error occurred''\<rparr> = Inl e" for hs
    by (simp add: connection_info_decode_def read_error [OF lib] unexpected_error)
qed

lemma delete_session_codec: "api_transport L \<Longrightarrow> response_codec L delete_session_wire (delete_session_decode L) delete_session_response_ok"
proof
  assume lib: "api_transport L"
  show "delete_session_decode L (encoded L hs (delete_session_wire r)) = Inr r" if "delete_session_response_ok r" for r hs
    using that by (cases r) (simp_all add: delete_session_decode_def encoded_def reads api_transport.axioms(1) [OF lib])
  show "\<exists>e. delete_session_decode L \<lparr>hx_status = 500, hx_headers = hs, hx_body = Inr ''An internal error occurred''\<rparr> = Inl e" for hs
    by (simp add: delete_session_decode_def read_error [OF lib] unexpected_error)
qed

lemma deregister_mcp_workspace_codec: "api_transport L \<Longrightarrow> response_codec L deregister_mcp_workspace_wire (deregister_mcp_workspace_decode L) deregister_mcp_workspace_response_ok"
proof
  assume lib: "api_transport L"
  show "deregister_mcp_workspace_decode L (encoded L hs (deregister_mcp_workspace_wire r)) = Inr r" if "deregister_mcp_workspace_response_ok r" for r hs
    using that by (cases r) (simp_all add: deregister_mcp_workspace_decode_def encoded_def reads api_transport.axioms(1) [OF lib])
  show "\<exists>e. deregister_mcp_workspace_decode L \<lparr>hx_status = 500, hx_headers = hs, hx_body = Inr ''An internal error occurred''\<rparr> = Inl e" for hs
    by (simp add: deregister_mcp_workspace_decode_def read_error [OF lib] unexpected_error)
qed

lemma execute_code_codec: "api_transport L \<Longrightarrow> response_codec L execute_code_wire (execute_code_decode L) execute_code_response_ok"
proof
  assume lib: "api_transport L"
  show "execute_code_decode L (encoded L hs (execute_code_wire r)) = Inr r" if "execute_code_response_ok r" for r hs
    using that by (cases r) (simp_all add: execute_code_decode_def encoded_def reads api_transport.axioms(1) [OF lib])
  show "\<exists>e. execute_code_decode L \<lparr>hx_status = 500, hx_headers = hs, hx_body = Inr ''An internal error occurred''\<rparr> = Inl e" for hs
    by (simp add: execute_code_decode_def read_error [OF lib] unexpected_error)
qed

lemma get_session_codec: "api_transport L \<Longrightarrow> response_codec L (get_session_wire L) (get_session_decode L) get_session_response_ok"
proof
  assume lib: "api_transport L"
  show "get_session_decode L (encoded L hs ((get_session_wire L) r)) = Inr r" if "get_session_response_ok r" for r hs
    using that by (cases r) (simp_all add: get_session_decode_def encoded_def reads api_transport.axioms(1) [OF lib])
  show "\<exists>e. get_session_decode L \<lparr>hx_status = 500, hx_headers = hs, hx_body = Inr ''An internal error occurred''\<rparr> = Inl e" for hs
    by (simp add: get_session_decode_def read_error [OF lib] unexpected_error)
qed

lemma get_session_history_codec: "api_transport L \<Longrightarrow> response_codec L get_session_history_wire (get_session_history_decode L) get_session_history_response_ok"
proof
  assume lib: "api_transport L"
  show "get_session_history_decode L (encoded L hs (get_session_history_wire r)) = Inr r" if "get_session_history_response_ok r" for r hs
    using that by (cases r) (simp_all add: get_session_history_decode_def encoded_def reads api_transport.axioms(1) [OF lib])
  show "\<exists>e. get_session_history_decode L \<lparr>hx_status = 500, hx_headers = hs, hx_body = Inr ''An internal error occurred''\<rparr> = Inl e" for hs
    by (simp add: get_session_history_decode_def read_error [OF lib] unexpected_error)
qed

lemma interrupt_session_codec: "api_transport L \<Longrightarrow> response_codec L interrupt_session_wire (interrupt_session_decode L) interrupt_session_response_ok"
proof
  assume lib: "api_transport L"
  show "interrupt_session_decode L (encoded L hs (interrupt_session_wire r)) = Inr r" if "interrupt_session_response_ok r" for r hs
    using that by (cases r) (simp_all add: interrupt_session_decode_def encoded_def reads api_transport.axioms(1) [OF lib])
  show "\<exists>e. interrupt_session_decode L \<lparr>hx_status = 500, hx_headers = hs, hx_body = Inr ''An internal error occurred''\<rparr> = Inl e" for hs
    by (simp add: interrupt_session_decode_def read_error [OF lib] unexpected_error)
qed

lemma kill_session_codec: "api_transport L \<Longrightarrow> response_codec L kill_session_wire (kill_session_decode L) kill_session_response_ok"
proof
  assume lib: "api_transport L"
  show "kill_session_decode L (encoded L hs (kill_session_wire r)) = Inr r" if "kill_session_response_ok r" for r hs
    using that by (cases r) (simp_all add: kill_session_decode_def encoded_def reads api_transport.axioms(1) [OF lib])
  show "\<exists>e. kill_session_decode L \<lparr>hx_status = 500, hx_headers = hs, hx_body = Inr ''An internal error occurred''\<rparr> = Inl e" for hs
    by (simp add: kill_session_decode_def read_error [OF lib] unexpected_error)
qed

lemma mcp_workspace_channel_codec: "api_transport L \<Longrightarrow> response_codec L mcp_workspace_channel_wire (mcp_workspace_channel_decode L) mcp_workspace_channel_response_ok"
proof
  assume lib: "api_transport L"
  show "mcp_workspace_channel_decode L (encoded L hs (mcp_workspace_channel_wire r)) = Inr r" if "mcp_workspace_channel_response_ok r" for r hs
    using that by (cases r) (simp_all add: mcp_workspace_channel_decode_def encoded_def reads api_transport.axioms(1) [OF lib])
  show "\<exists>e. mcp_workspace_channel_decode L \<lparr>hx_status = 500, hx_headers = hs, hx_body = Inr ''An internal error occurred''\<rparr> = Inl e" for hs
    by (simp add: mcp_workspace_channel_decode_def read_error [OF lib] unexpected_error)
qed

lemma restart_session_codec: "api_transport L \<Longrightarrow> response_codec L restart_session_wire (restart_session_decode L) restart_session_response_ok"
proof
  assume lib: "api_transport L"
  show "restart_session_decode L (encoded L hs (restart_session_wire r)) = Inr r" if "restart_session_response_ok r" for r hs
    using that by (cases r) (simp_all add: restart_session_decode_def encoded_def reads api_transport.axioms(1) [OF lib])
  show "\<exists>e. restart_session_decode L \<lparr>hx_status = 500, hx_headers = hs, hx_body = Inr ''An internal error occurred''\<rparr> = Inl e" for hs
    by (simp add: restart_session_decode_def read_error [OF lib] unexpected_error)
qed

lemma start_session_codec: "api_transport L \<Longrightarrow> response_codec L start_session_wire (start_session_decode L) start_session_response_ok"
proof
  assume lib: "api_transport L"
  show "start_session_decode L (encoded L hs (start_session_wire r)) = Inr r" if "start_session_response_ok r" for r hs
    using that by (cases r) (simp_all add: start_session_decode_def encoded_def reads api_transport.axioms(1) [OF lib])
  show "\<exists>e. start_session_decode L \<lparr>hx_status = 500, hx_headers = hs, hx_body = Inr ''An internal error occurred''\<rparr> = Inl e" for hs
    by (simp add: start_session_decode_def read_error [OF lib] unexpected_error)
qed

section \<open>Operations survive the way\<close>

lemma segments_id:
  assumes "api_transport L" and "id_ok L i"
  shows "segments (with_id L i []) = [al_percent_encode L ID_ENCODE_SET i]"
    and "segments (with_id L i (CHR ''/'' # rest)) = al_percent_encode L ID_ENCODE_SET i # segments rest"
    and "plain (al_percent_encode L ID_ENCODE_SET i)"
  using api_transport.encoded_id [OF assms] pchar_not_cut
  by (auto simp: with_id_def split_on_no_sep split_on_append plain_def list_all_iff)

lemma with_id_pchar:
  "api_transport L \<Longrightarrow> id_ok L i \<Longrightarrow> list_all pchar (with_id L i rest) \<longleftrightarrow> list_all pchar rest"
  by (simp add: with_id_def api_transport.encoded_id(1))

text \<open>The characters of the fixed parts of the paths.\<close>

lemma pchar_words:
  "pchar (CHR ''/'')" "pchar (CHR ''_'')" "pchar (CHR ''a'')" "pchar (CHR ''b'')" "pchar (CHR ''c'')" "pchar (CHR ''d'')"
  "pchar (CHR ''e'')" "pchar (CHR ''f'')" "pchar (CHR ''g'')" "pchar (CHR ''h'')" "pchar (CHR ''i'')" "pchar (CHR ''k'')"
  "pchar (CHR ''l'')" "pchar (CHR ''m'')" "pchar (CHR ''n'')" "pchar (CHR ''o'')" "pchar (CHR ''p'')" "pchar (CHR ''r'')"
  "pchar (CHR ''s'')" "pchar (CHR ''t'')" "pchar (CHR ''u'')" "pchar (CHR ''v'')" "pchar (CHR ''w'')" "pchar (CHR ''x'')"
  "pchar (CHR ''y'')"
  by code_simp+

lemma remote_client_heartbeat:
  assumes "api_transport L" and "base_ok host_name port" and "visible (cx_span_id cx)" and "heartbeat_ok x"
  shows "mirrors client_heartbeat_response_ok (api_client_heartbeat a x (anonymous cx) s)
           (client_client_heartbeat L (base_url host_name port) (direct L closed a) x cx s)"
proof -
  have "sent_body ''ClientHeartbeat'' (heartbeat_ser x)"
    using heartbeat_serde.textual [OF assms(4)] by (simp add: sent_body_def)
  note param = api_transport.body_param [OF assms(1) heartbeat_serde.serde_field_axioms assms(4) this]
  have "service_run L a (anonymous cx) \<lparr>hc_method = ''POST'', hc_path = CHR ''/'' # ''client_heartbeat'',
      hc_headers = hs, hc_body = Inr (al_to_string L (heartbeat_ser x))\<rparr> s =
      respond L (anonymous cx) [] client_heartbeat_wire (api_client_heartbeat a x (anonymous cx) s)" for hs
    by (simp add: service_run_operation operation_of_unfold serve_client_heartbeat_def param)
  from api_transport.call_arrives [OF assms(1,2,3) _ _ this client_heartbeat_codec [OF assms(1)], of "Some (Some (heartbeat_ser x))"]
  show ?thesis
    by (simp add: client_client_heartbeat_def pchar_words)
qed

lemma remote_get_server_configuration:
  assumes "api_transport L" and "base_ok host_name port" and "visible (cx_span_id cx)"
  shows "mirrors get_server_configuration_response_ok (api_get_server_configuration a (anonymous cx) s)
           (client_get_server_configuration L (base_url host_name port) (direct L closed a) cx s)"
proof -
  have "service_run L a (anonymous cx) \<lparr>hc_method = ''GET'', hc_path = CHR ''/'' # ''server_configuration'',
      hc_headers = hs, hc_body = Inr []\<rparr> s =
      respond L (anonymous cx) [] get_server_configuration_wire (api_get_server_configuration a (anonymous cx) s)" for hs
    by (simp add: service_run_operation operation_of_unfold serve_get_server_configuration_def)
  from api_transport.call_arrives [OF assms(1,2,3) _ _ this get_server_configuration_codec [OF assms(1)], of "None"]
  show ?thesis
    by (simp add: client_get_server_configuration_def pchar_words)
qed

lemma remote_list_sessions:
  assumes "api_transport L" and "base_ok host_name port" and "visible (cx_span_id cx)"
  shows "mirrors list_sessions_response_ok (api_list_sessions a (anonymous cx) s)
           (client_list_sessions L (base_url host_name port) (direct L closed a) cx s)"
proof -
  have "service_run L a (anonymous cx) \<lparr>hc_method = ''GET'', hc_path = CHR ''/'' # ''sessions'',
      hc_headers = hs, hc_body = Inr []\<rparr> s =
      respond L (anonymous cx) [] (list_sessions_wire L) (api_list_sessions a (anonymous cx) s)" for hs
    by (simp add: service_run_operation operation_of_unfold serve_list_sessions_def)
  from api_transport.call_arrives [OF assms(1,2,3) _ _ this list_sessions_codec [OF assms(1)], of "None"]
  show ?thesis
    by (simp add: client_list_sessions_def pchar_words)
qed

lemma remote_new_session:
  assumes "api_transport L" and "base_ok host_name port" and "visible (cx_span_id cx)" and "new_session_ok x"
  shows "mirrors new_session_response_ok (api_new_session a x (anonymous cx) s)
           (client_new_session L (base_url host_name port) (direct L closed a) x cx s)"
proof -
  have "sent_body ''NewSession'' (new_session_ser x)"
    using new_session_serde.textual [OF assms(4)] by (simp add: sent_body_def)
  note param = api_transport.body_param [OF assms(1) new_session_serde.serde_field_axioms assms(4) this]
  have "service_run L a (anonymous cx) \<lparr>hc_method = ''PUT'', hc_path = CHR ''/'' # ''sessions'',
      hc_headers = hs, hc_body = Inr (al_to_string L (new_session_ser x))\<rparr> s =
      respond L (anonymous cx) [] new_session_wire (api_new_session a x (anonymous cx) s)" for hs
    by (simp add: service_run_operation operation_of_unfold serve_new_session_def param)
  from api_transport.call_arrives [OF assms(1,2,3) _ _ this new_session_codec [OF assms(1)], of "Some (Some (new_session_ser x))"]
  show ?thesis
    by (simp add: client_new_session_def pchar_words)
qed

lemma remote_register_mcp_workspace:
  assumes "api_transport L" and "base_ok host_name port" and "visible (cx_span_id cx)" and "mcp_registration_ok x"
  shows "mirrors register_mcp_workspace_response_ok (api_register_mcp_workspace a x (anonymous cx) s)
           (client_register_mcp_workspace L (base_url host_name port) (direct L closed a) x cx s)"
proof -
  have "sent_body ''McpWorkspaceRegistration'' (mcp_registration_ser x)"
    using mcp_registration_serde.textual [OF assms(4)] by (simp add: sent_body_def)
  note param = api_transport.body_param [OF assms(1) mcp_registration_serde.serde_field_axioms assms(4) this]
  have "service_run L a (anonymous cx) \<lparr>hc_method = ''POST'', hc_path = CHR ''/'' # ''mcp/workspaces'',
      hc_headers = hs, hc_body = Inr (al_to_string L (mcp_registration_ser x))\<rparr> s =
      respond L (anonymous cx) [] register_mcp_workspace_wire (api_register_mcp_workspace a x (anonymous cx) s)" for hs
    by (simp add: service_run_operation operation_of_unfold serve_register_mcp_workspace_def param)
  from api_transport.call_arrives [OF assms(1,2,3) _ _ this register_mcp_workspace_codec [OF assms(1)], of "Some (Some (mcp_registration_ser x))"]
  show ?thesis
    by (simp add: client_register_mcp_workspace_def pchar_words)
qed

lemma remote_server_status:
  assumes "api_transport L" and "base_ok host_name port" and "visible (cx_span_id cx)"
  shows "mirrors server_status_response_ok (api_server_status a (anonymous cx) s)
           (client_server_status L (base_url host_name port) (direct L closed a) cx s)"
proof -
  have "service_run L a (anonymous cx) \<lparr>hc_method = ''GET'', hc_path = CHR ''/'' # ''status'',
      hc_headers = hs, hc_body = Inr []\<rparr> s =
      respond L (anonymous cx) [] (server_status_wire L) (api_server_status a (anonymous cx) s)" for hs
    by (simp add: service_run_operation operation_of_unfold serve_server_status_def)
  from api_transport.call_arrives [OF assms(1,2,3) _ _ this server_status_codec [OF assms(1)], of "None"]
  show ?thesis
    by (simp add: client_server_status_def pchar_words)
qed

lemma remote_set_server_configuration:
  assumes "api_transport L" and "base_ok host_name port" and "visible (cx_span_id cx)" and "server_configuration_ok x"
  shows "mirrors set_server_configuration_response_ok (api_set_server_configuration a x (anonymous cx) s)
           (client_set_server_configuration L (base_url host_name port) (direct L closed a) x cx s)"
proof -
  have "sent_body ''ServerConfiguration'' (server_configuration_ser x)"
    using server_configuration_serde.textual [OF assms(4)] by (simp add: sent_body_def)
  note param = api_transport.body_param [OF assms(1) server_configuration_serde.serde_field_axioms assms(4) this]
  have "service_run L a (anonymous cx) \<lparr>hc_method = ''POST'', hc_path = CHR ''/'' # ''server_configuration'',
      hc_headers = hs, hc_body = Inr (al_to_string L (server_configuration_ser x))\<rparr> s =
      respond L (anonymous cx) [] set_server_configuration_wire (api_set_server_configuration a x (anonymous cx) s)" for hs
    by (simp add: service_run_operation operation_of_unfold serve_set_server_configuration_def param)
  from api_transport.call_arrives [OF assms(1,2,3) _ _ this set_server_configuration_codec [OF assms(1)], of "Some (Some (server_configuration_ser x))"]
  show ?thesis
    by (simp add: client_set_server_configuration_def pchar_words)
qed

lemma remote_shutdown_server:
  assumes "api_transport L" and "base_ok host_name port" and "visible (cx_span_id cx)"
  shows "mirrors shutdown_server_response_ok (api_shutdown_server a (anonymous cx) s)
           (client_shutdown_server L (base_url host_name port) (direct L closed a) cx s)"
proof -
  have "service_run L a (anonymous cx) \<lparr>hc_method = ''POST'', hc_path = CHR ''/'' # ''shutdown'',
      hc_headers = hs, hc_body = Inr []\<rparr> s =
      respond L (anonymous cx) [] shutdown_server_wire (api_shutdown_server a (anonymous cx) s)" for hs
    by (simp add: service_run_operation operation_of_unfold serve_shutdown_server_def)
  from api_transport.call_arrives [OF assms(1,2,3) _ _ this shutdown_server_codec [OF assms(1)], of "None"]
  show ?thesis
    by (simp add: client_shutdown_server_def pchar_words)
qed

lemma remote_adopt_session:
  assumes "api_transport L" and "base_ok host_name port" and "visible (cx_span_id cx)" and "id_ok L i" and "connection_info_ok x"
  shows "mirrors adopt_session_response_ok (api_adopt_session a i x (anonymous cx) s)
           (client_adopt_session L (base_url host_name port) (direct L closed a) i x cx s)"
proof -
  have "sent_body ''ConnectionInfo'' (connection_info_ser x)"
    using connection_info_serde.textual [OF assms(5)] by (simp add: sent_body_def)
  note param = api_transport.body_param [OF assms(1) connection_info_serde.serde_field_axioms assms(5) this]
  have "service_run L a (anonymous cx) \<lparr>hc_method = ''PUT'', hc_path = CHR ''/'' # ''sessions/'' @ with_id L i ''/adopt'',
      hc_headers = hs, hc_body = Inr (al_to_string L (connection_info_ser x))\<rparr> s =
      respond L (anonymous cx) [] adopt_session_wire (api_adopt_session a i x (anonymous cx) s)" for hs
    using api_transport.path_param [OF assms(1,4), of "''/sessions/''" "''/adopt''"]
    by (simp add: service_run_operation operation_of_unfold serve_adopt_session_def REGEX_SESSIONS_SESSION_ID_ADOPT_def segments_id [OF assms(1,4)] param)
  from api_transport.call_arrives [OF assms(1,2,3) _ _ this adopt_session_codec [OF assms(1)], of "Some (Some (connection_info_ser x))"]
  show ?thesis
    by (simp add: client_adopt_session_def pchar_words with_id_pchar [OF assms(1,4)])
qed

lemma remote_channels_upgrade:
  assumes "api_transport L" and "base_ok host_name port" and "visible (cx_span_id cx)" and "id_ok L i"
  shows "mirrors channels_upgrade_response_ok (api_channels_upgrade a i (anonymous cx) s)
           (client_channels_upgrade L (base_url host_name port) (direct L closed a) i cx s)"
proof -
  have "service_run L a (anonymous cx) \<lparr>hc_method = ''GET'', hc_path = CHR ''/'' # ''sessions/'' @ with_id L i ''/channels'',
      hc_headers = hs, hc_body = Inr []\<rparr> s =
      respond L (anonymous cx) [] channels_upgrade_wire (api_channels_upgrade a i (anonymous cx) s)" for hs
    using api_transport.path_param [OF assms(1,4), of "''/sessions/''" "''/channels''"]
    by (simp add: service_run_operation operation_of_unfold serve_channels_upgrade_def REGEX_SESSIONS_SESSION_ID_CHANNELS_def segments_id [OF assms(1,4)])
  from api_transport.call_arrives [OF assms(1,2,3) _ _ this channels_upgrade_codec [OF assms(1)], of "None"]
  show ?thesis
    by (simp add: client_channels_upgrade_def pchar_words with_id_pchar [OF assms(1,4)])
qed

lemma remote_connection_info:
  assumes "api_transport L" and "base_ok host_name port" and "visible (cx_span_id cx)" and "id_ok L i"
  shows "mirrors connection_info_response_ok (api_connection_info a i (anonymous cx) s)
           (client_connection_info L (base_url host_name port) (direct L closed a) i cx s)"
proof -
  have "service_run L a (anonymous cx) \<lparr>hc_method = ''GET'', hc_path = CHR ''/'' # ''sessions/'' @ with_id L i ''/connection_info'',
      hc_headers = hs, hc_body = Inr []\<rparr> s =
      respond L (anonymous cx) [] connection_info_wire (api_connection_info a i (anonymous cx) s)" for hs
    using api_transport.path_param [OF assms(1,4), of "''/sessions/''" "''/connection_info''"]
    by (simp add: service_run_operation operation_of_unfold serve_connection_info_def REGEX_SESSIONS_SESSION_ID_CONNECTION_INFO_def segments_id [OF assms(1,4)])
  from api_transport.call_arrives [OF assms(1,2,3) _ _ this connection_info_codec [OF assms(1)], of "None"]
  show ?thesis
    by (simp add: client_connection_info_def pchar_words with_id_pchar [OF assms(1,4)])
qed

lemma remote_delete_session:
  assumes "api_transport L" and "base_ok host_name port" and "visible (cx_span_id cx)" and "id_ok L i"
  shows "mirrors delete_session_response_ok (api_delete_session a i (anonymous cx) s)
           (client_delete_session L (base_url host_name port) (direct L closed a) i cx s)"
proof -
  have "service_run L a (anonymous cx) \<lparr>hc_method = ''DELETE'', hc_path = CHR ''/'' # ''sessions/'' @ with_id L i [],
      hc_headers = hs, hc_body = Inr []\<rparr> s =
      respond L (anonymous cx) [] delete_session_wire (api_delete_session a i (anonymous cx) s)" for hs
    using api_transport.path_param [OF assms(1,4), of "''/sessions/''" "[]"]
    by (simp add: service_run_operation operation_of_unfold serve_delete_session_def REGEX_SESSIONS_SESSION_ID_def segments_id [OF assms(1,4)])
  from api_transport.call_arrives [OF assms(1,2,3) _ _ this delete_session_codec [OF assms(1)], of "None"]
  show ?thesis
    by (simp add: client_delete_session_def pchar_words with_id_pchar [OF assms(1,4)])
qed

lemma remote_deregister_mcp_workspace:
  assumes "api_transport L" and "base_ok host_name port" and "visible (cx_span_id cx)" and "id_ok L i"
  shows "mirrors deregister_mcp_workspace_response_ok (api_deregister_mcp_workspace a i (anonymous cx) s)
           (client_deregister_mcp_workspace L (base_url host_name port) (direct L closed a) i cx s)"
proof -
  have "service_run L a (anonymous cx) \<lparr>hc_method = ''DELETE'', hc_path = CHR ''/'' # ''mcp/workspaces/'' @ with_id L i [],
      hc_headers = hs, hc_body = Inr []\<rparr> s =
      respond L (anonymous cx) [] deregister_mcp_workspace_wire (api_deregister_mcp_workspace a i (anonymous cx) s)" for hs
    using api_transport.path_param [OF assms(1,4), of "''/mcp/workspaces/''" "[]"]
    by (simp add: service_run_operation operation_of_unfold serve_deregister_mcp_workspace_def REGEX_MCP_WORKSPACES_WORKSPACE_ID_def segments_id [OF assms(1,4)])
  from api_transport.call_arrives [OF assms(1,2,3) _ _ this deregister_mcp_workspace_codec [OF assms(1)], of "None"]
  show ?thesis
    by (simp add: client_deregister_mcp_workspace_def pchar_words with_id_pchar [OF assms(1,4)])
qed

lemma remote_execute_code:
  assumes "api_transport L" and "base_ok host_name port" and "visible (cx_span_id cx)" and "id_ok L i" and "execute_request_ok x"
  shows "mirrors execute_code_response_ok (api_execute_code a i x (anonymous cx) s)
           (client_execute_code L (base_url host_name port) (direct L closed a) i x cx s)"
proof -
  have "sent_body ''ExecuteRequest'' (execute_request_ser x)"
    using execute_request_serde.textual [OF assms(5)] by (simp add: sent_body_def)
  note param = api_transport.body_param [OF assms(1) execute_request_serde.serde_field_axioms assms(5) this]
  have "service_run L a (anonymous cx) \<lparr>hc_method = ''POST'', hc_path = CHR ''/'' # ''sessions/'' @ with_id L i ''/execute'',
      hc_headers = hs, hc_body = Inr (al_to_string L (execute_request_ser x))\<rparr> s =
      respond L (anonymous cx) [] execute_code_wire (api_execute_code a i x (anonymous cx) s)" for hs
    using api_transport.path_param [OF assms(1,4), of "''/sessions/''" "''/execute''"]
    by (simp add: service_run_operation operation_of_unfold serve_execute_code_def REGEX_SESSIONS_SESSION_ID_EXECUTE_def segments_id [OF assms(1,4)] param)
  from api_transport.call_arrives [OF assms(1,2,3) _ _ this execute_code_codec [OF assms(1)], of "Some (Some (execute_request_ser x))"]
  show ?thesis
    by (simp add: client_execute_code_def pchar_words with_id_pchar [OF assms(1,4)])
qed

lemma remote_get_session:
  assumes "api_transport L" and "base_ok host_name port" and "visible (cx_span_id cx)" and "id_ok L i"
  shows "mirrors get_session_response_ok (api_get_session a i (anonymous cx) s)
           (client_get_session L (base_url host_name port) (direct L closed a) i cx s)"
proof -
  have "service_run L a (anonymous cx) \<lparr>hc_method = ''GET'', hc_path = CHR ''/'' # ''sessions/'' @ with_id L i [],
      hc_headers = hs, hc_body = Inr []\<rparr> s =
      respond L (anonymous cx) [] (get_session_wire L) (api_get_session a i (anonymous cx) s)" for hs
    using api_transport.path_param [OF assms(1,4), of "''/sessions/''" "[]"]
    by (simp add: service_run_operation operation_of_unfold serve_get_session_def REGEX_SESSIONS_SESSION_ID_def segments_id [OF assms(1,4)])
  from api_transport.call_arrives [OF assms(1,2,3) _ _ this get_session_codec [OF assms(1)], of "None"]
  show ?thesis
    by (simp add: client_get_session_def pchar_words with_id_pchar [OF assms(1,4)])
qed

lemma remote_get_session_history:
  assumes "api_transport L" and "base_ok host_name port" and "visible (cx_span_id cx)" and "id_ok L i"
  shows "mirrors get_session_history_response_ok (api_get_session_history a i (anonymous cx) s)
           (client_get_session_history L (base_url host_name port) (direct L closed a) i cx s)"
proof -
  have "service_run L a (anonymous cx) \<lparr>hc_method = ''GET'', hc_path = CHR ''/'' # ''sessions/'' @ with_id L i ''/history'',
      hc_headers = hs, hc_body = Inr []\<rparr> s =
      respond L (anonymous cx) [] get_session_history_wire (api_get_session_history a i (anonymous cx) s)" for hs
    using api_transport.path_param [OF assms(1,4), of "''/sessions/''" "''/history''"]
    by (simp add: service_run_operation operation_of_unfold serve_get_session_history_def REGEX_SESSIONS_SESSION_ID_HISTORY_def segments_id [OF assms(1,4)])
  from api_transport.call_arrives [OF assms(1,2,3) _ _ this get_session_history_codec [OF assms(1)], of "None"]
  show ?thesis
    by (simp add: client_get_session_history_def pchar_words with_id_pchar [OF assms(1,4)])
qed

lemma remote_interrupt_session:
  assumes "api_transport L" and "base_ok host_name port" and "visible (cx_span_id cx)" and "id_ok L i"
  shows "mirrors interrupt_session_response_ok (api_interrupt_session a i (anonymous cx) s)
           (client_interrupt_session L (base_url host_name port) (direct L closed a) i cx s)"
proof -
  have "service_run L a (anonymous cx) \<lparr>hc_method = ''POST'', hc_path = CHR ''/'' # ''sessions/'' @ with_id L i ''/interrupt'',
      hc_headers = hs, hc_body = Inr []\<rparr> s =
      respond L (anonymous cx) [] interrupt_session_wire (api_interrupt_session a i (anonymous cx) s)" for hs
    using api_transport.path_param [OF assms(1,4), of "''/sessions/''" "''/interrupt''"]
    by (simp add: service_run_operation operation_of_unfold serve_interrupt_session_def REGEX_SESSIONS_SESSION_ID_INTERRUPT_def segments_id [OF assms(1,4)])
  from api_transport.call_arrives [OF assms(1,2,3) _ _ this interrupt_session_codec [OF assms(1)], of "None"]
  show ?thesis
    by (simp add: client_interrupt_session_def pchar_words with_id_pchar [OF assms(1,4)])
qed

lemma remote_kill_session:
  assumes "api_transport L" and "base_ok host_name port" and "visible (cx_span_id cx)" and "id_ok L i"
  shows "mirrors kill_session_response_ok (api_kill_session a i (anonymous cx) s)
           (client_kill_session L (base_url host_name port) (direct L closed a) i cx s)"
proof -
  have "service_run L a (anonymous cx) \<lparr>hc_method = ''POST'', hc_path = CHR ''/'' # ''sessions/'' @ with_id L i ''/kill'',
      hc_headers = hs, hc_body = Inr []\<rparr> s =
      respond L (anonymous cx) [] kill_session_wire (api_kill_session a i (anonymous cx) s)" for hs
    using api_transport.path_param [OF assms(1,4), of "''/sessions/''" "''/kill''"]
    by (simp add: service_run_operation operation_of_unfold serve_kill_session_def REGEX_SESSIONS_SESSION_ID_KILL_def segments_id [OF assms(1,4)])
  from api_transport.call_arrives [OF assms(1,2,3) _ _ this kill_session_codec [OF assms(1)], of "None"]
  show ?thesis
    by (simp add: client_kill_session_def pchar_words with_id_pchar [OF assms(1,4)])
qed

lemma remote_mcp_workspace_channel:
  assumes "api_transport L" and "base_ok host_name port" and "visible (cx_span_id cx)" and "id_ok L i"
  shows "mirrors mcp_workspace_channel_response_ok (api_mcp_workspace_channel a i (anonymous cx) s)
           (client_mcp_workspace_channel L (base_url host_name port) (direct L closed a) i cx s)"
proof -
  have "service_run L a (anonymous cx) \<lparr>hc_method = ''GET'', hc_path = CHR ''/'' # ''mcp/workspaces/'' @ with_id L i ''/channel'',
      hc_headers = hs, hc_body = Inr []\<rparr> s =
      respond L (anonymous cx) [] mcp_workspace_channel_wire (api_mcp_workspace_channel a i (anonymous cx) s)" for hs
    using api_transport.path_param [OF assms(1,4), of "''/mcp/workspaces/''" "''/channel''"]
    by (simp add: service_run_operation operation_of_unfold serve_mcp_workspace_channel_def REGEX_MCP_WORKSPACES_WORKSPACE_ID_CHANNEL_def segments_id [OF assms(1,4)])
  from api_transport.call_arrives [OF assms(1,2,3) _ _ this mcp_workspace_channel_codec [OF assms(1)], of "None"]
  show ?thesis
    by (simp add: client_mcp_workspace_channel_def pchar_words with_id_pchar [OF assms(1,4)])
qed

lemma remote_restart_session:
  assumes "api_transport L" and "base_ok host_name port" and "visible (cx_span_id cx)" and "id_ok L i"
  shows "mirrors restart_session_response_ok (api_restart_session a i x (anonymous cx) s)
           (client_restart_session L (base_url host_name port) (direct L closed a) i x cx s)"
proof -
  have "sent_body ''RestartSession'' (restart_session_ser y)" for y
    using restart_session_serde.textual [of y] by (simp add: sent_body_def)
  note param = api_transport.optional_body_param [OF assms(1) restart_session_serde.serde_field_axioms option_any this]
  have "service_run L a (anonymous cx) \<lparr>hc_method = ''POST'', hc_path = CHR ''/'' # ''sessions/'' @ with_id L i ''/restart'',
      hc_headers = hs, hc_body = Inr (case map_option restart_session_ser x of Some j \<Rightarrow> al_to_string L j | None \<Rightarrow> [])\<rparr> s =
      respond L (anonymous cx) [] restart_session_wire (api_restart_session a i x (anonymous cx) s)" for hs
    using api_transport.path_param [OF assms(1,4), of "''/sessions/''" "''/restart''"]
    by (simp add: service_run_operation operation_of_unfold serve_restart_session_def REGEX_SESSIONS_SESSION_ID_RESTART_def segments_id [OF assms(1,4)] param del: case_map_option)
  from api_transport.call_arrives [OF assms(1,2,3) _ _ this restart_session_codec [OF assms(1)], of "Some (map_option restart_session_ser x)"]
  show ?thesis
    by (simp add: client_restart_session_def pchar_words with_id_pchar [OF assms(1,4)] del: case_map_option)
qed

lemma remote_start_session:
  assumes "api_transport L" and "base_ok host_name port" and "visible (cx_span_id cx)" and "id_ok L i"
  shows "mirrors start_session_response_ok (api_start_session a i (anonymous cx) s)
           (client_start_session L (base_url host_name port) (direct L closed a) i cx s)"
proof -
  have "service_run L a (anonymous cx) \<lparr>hc_method = ''POST'', hc_path = CHR ''/'' # ''sessions/'' @ with_id L i ''/start'',
      hc_headers = hs, hc_body = Inr []\<rparr> s =
      respond L (anonymous cx) [] start_session_wire (api_start_session a i (anonymous cx) s)" for hs
    using api_transport.path_param [OF assms(1,4), of "''/sessions/''" "''/start''"]
    by (simp add: service_run_operation operation_of_unfold serve_start_session_def REGEX_SESSIONS_SESSION_ID_START_def segments_id [OF assms(1,4)])
  from api_transport.call_arrives [OF assms(1,2,3) _ _ this start_session_codec [OF assms(1)], of "None"]
  show ?thesis
    by (simp add: client_start_session_def pchar_words with_id_pchar [OF assms(1,4)])
qed


section \<open>The client is the server\<close>

text \<open>
  An implementation \<open>c\<close> of the interface stands for another one \<open>a\<close>, operation by operation, for the
  parameters that survive the way.
\<close>

definition faithful :: "api_lib \<Rightarrow> 's api \<Rightarrow> 's api \<Rightarrow> bool" where
  "faithful L a c \<longleftrightarrow> (\<forall>cx s. visible (cx_span_id cx) \<longrightarrow>
     (\<forall>x. heartbeat_ok x \<longrightarrow>
        mirrors client_heartbeat_response_ok (api_client_heartbeat a x (anonymous cx) s) (api_client_heartbeat c x cx s)) \<and>
     mirrors get_server_configuration_response_ok (api_get_server_configuration a (anonymous cx) s) (api_get_server_configuration c cx s) \<and>
     mirrors list_sessions_response_ok (api_list_sessions a (anonymous cx) s) (api_list_sessions c cx s) \<and>
     (\<forall>x. new_session_ok x \<longrightarrow>
        mirrors new_session_response_ok (api_new_session a x (anonymous cx) s) (api_new_session c x cx s)) \<and>
     (\<forall>x. mcp_registration_ok x \<longrightarrow>
        mirrors register_mcp_workspace_response_ok (api_register_mcp_workspace a x (anonymous cx) s) (api_register_mcp_workspace c x cx s)) \<and>
     mirrors server_status_response_ok (api_server_status a (anonymous cx) s) (api_server_status c cx s) \<and>
     (\<forall>x. server_configuration_ok x \<longrightarrow>
        mirrors set_server_configuration_response_ok (api_set_server_configuration a x (anonymous cx) s) (api_set_server_configuration c x cx s)) \<and>
     mirrors shutdown_server_response_ok (api_shutdown_server a (anonymous cx) s) (api_shutdown_server c cx s) \<and>
     (\<forall>i x. id_ok L i \<and> connection_info_ok x \<longrightarrow>
        mirrors adopt_session_response_ok (api_adopt_session a i x (anonymous cx) s) (api_adopt_session c i x cx s)) \<and>
     (\<forall>i. id_ok L i \<longrightarrow>
        mirrors channels_upgrade_response_ok (api_channels_upgrade a i (anonymous cx) s) (api_channels_upgrade c i cx s)) \<and>
     (\<forall>i. id_ok L i \<longrightarrow>
        mirrors connection_info_response_ok (api_connection_info a i (anonymous cx) s) (api_connection_info c i cx s)) \<and>
     (\<forall>i. id_ok L i \<longrightarrow>
        mirrors delete_session_response_ok (api_delete_session a i (anonymous cx) s) (api_delete_session c i cx s)) \<and>
     (\<forall>i. id_ok L i \<longrightarrow>
        mirrors deregister_mcp_workspace_response_ok (api_deregister_mcp_workspace a i (anonymous cx) s) (api_deregister_mcp_workspace c i cx s)) \<and>
     (\<forall>i x. id_ok L i \<and> execute_request_ok x \<longrightarrow>
        mirrors execute_code_response_ok (api_execute_code a i x (anonymous cx) s) (api_execute_code c i x cx s)) \<and>
     (\<forall>i. id_ok L i \<longrightarrow>
        mirrors get_session_response_ok (api_get_session a i (anonymous cx) s) (api_get_session c i cx s)) \<and>
     (\<forall>i. id_ok L i \<longrightarrow>
        mirrors get_session_history_response_ok (api_get_session_history a i (anonymous cx) s) (api_get_session_history c i cx s)) \<and>
     (\<forall>i. id_ok L i \<longrightarrow>
        mirrors interrupt_session_response_ok (api_interrupt_session a i (anonymous cx) s) (api_interrupt_session c i cx s)) \<and>
     (\<forall>i. id_ok L i \<longrightarrow>
        mirrors kill_session_response_ok (api_kill_session a i (anonymous cx) s) (api_kill_session c i cx s)) \<and>
     (\<forall>i. id_ok L i \<longrightarrow>
        mirrors mcp_workspace_channel_response_ok (api_mcp_workspace_channel a i (anonymous cx) s) (api_mcp_workspace_channel c i cx s)) \<and>
     (\<forall>i x. id_ok L i \<longrightarrow>
        mirrors restart_session_response_ok (api_restart_session a i x (anonymous cx) s) (api_restart_session c i x cx s)) \<and>
     (\<forall>i. id_ok L i \<longrightarrow>
        mirrors start_session_response_ok (api_start_session a i (anonymous cx) s) (api_start_session c i cx s)))"

lemma client_faithful:
  assumes "api_transport L" and "base_ok host_name port"
  shows "faithful L a (api_client L (base_url host_name port) (direct L closed a))"
  using assms by (auto simp: faithful_def api_client_def
      intro: remote_client_heartbeat
      intro: remote_get_server_configuration
      intro: remote_list_sessions
      intro: remote_new_session
      intro: remote_register_mcp_workspace
      intro: remote_server_status
      intro: remote_set_server_configuration
      intro: remote_shutdown_server
      intro: remote_adopt_session
      intro: remote_channels_upgrade
      intro: remote_connection_info
      intro: remote_delete_session
      intro: remote_deregister_mcp_workspace
      intro: remote_execute_code
      intro: remote_get_session
      intro: remote_get_session_history
      intro: remote_interrupt_session
      intro: remote_kill_session
      intro: remote_mcp_workspace_channel
      intro: remote_restart_session
      intro: remote_start_session)

end
