(* ===== verification/KC_JsonText.thy ===== *)
theory KC_JsonText
  imports KC_ApiClient "HOL-Library.List_Lexorder" "HOL-Library.Char_ord"
begin

text \<open>
  A library that satisfies the laws of \<open>api_transport\<close>: compact JSON text with a recursive descent reader,
  percent encoding, the splitting of a URL, and what else \<open>api_lib\<close> asks for. It shows that the laws can hold
  together and lets the theorems on the API be applied to concrete requests. Strings are read as ASCII; a byte
  beyond it is written as an escape.
\<close>

section \<open>JSON text\<close>

definition hex_upper :: "nat \<Rightarrow> char" where
  "hex_upper n = (if n < 10 then char_of (48 + n) else char_of (55 + n))"

definition printable :: "char \<Rightarrow> bool" where
  "printable c \<longleftrightarrow> 32 \<le> (of_char c :: nat) \<and> (of_char c :: nat) < 127 \<and> c \<noteq> CHR 0x22 \<and> c \<noteq> CHR 0x5C"

definition escape_char :: "char \<Rightarrow> string" where
  "escape_char c =
     (if printable c then [c]
      else CHR 0x5C # ''u00'' @ [hex_upper (of_char c div 16), hex_upper (of_char c mod 16)])"

definition print_string :: "string \<Rightarrow> string" where
  "print_string s = CHR 0x22 # concat (map escape_char s) @ [CHR 0x22]"

fun print_json :: "json \<Rightarrow> string" where
  "print_json JNull = ''null''"
| "print_json (JBool b) = (if b then ''true'' else ''false'')"
| "print_json (JInt n) = show_int n"
| "print_json (JFloat f) = f"
| "print_json (JString s) = print_string s"
| "print_json (JArray xs) = ''['' @ join_with '','' (map print_json xs) @ '']''"
| "print_json (JObject kvs) =
     ''{'' @ join_with '','' (map (\<lambda>p. print_string (fst p) @ '':'' @ print_json (snd p)) kvs) @ ''}''"

definition hex_value :: "char \<Rightarrow> nat" where
  "hex_value c = (if is_digit c then of_char c - 48 else of_char c - 55)"

fun parse_chars :: "string \<Rightarrow> (string \<times> string) option" where
  "parse_chars (c # s) =
     (if c = CHR 0x22 then Some ([], s)
      else if printable c then map_option (\<lambda>(t, r). (c # t, r)) (parse_chars s)
      else
        (case s of
           u # z # z' # h # l # r \<Rightarrow>
             if c = CHR 0x5C \<and> [u, z, z'] = ''u00'' then
               map_option (\<lambda>(t, r). (char_of (16 * hex_value h + hex_value l) # t, r)) (parse_chars r)
             else None
         | _ \<Rightarrow> None))"
| "parse_chars [] = None"

definition parse_number :: "string \<Rightarrow> (json \<times> string) option" where
  "parse_number s =
     (let neg = starts_with ''-'' s; t = (if neg then tl s else s);
          ds = takeWhile is_digit t; n = int (number_value 10 ds) in
      if ds = [] then None else Some (JInt (if neg then - n else n), dropWhile is_digit t))"

text \<open>The reader, with fuel that every call consumes; the length of the text is enough.\<close>

fun parse_json :: "nat \<Rightarrow> string \<Rightarrow> (json \<times> string) option"
  and parse_items :: "nat \<Rightarrow> string \<Rightarrow> (json list \<times> string) option"
  and parse_fields :: "nat \<Rightarrow> string \<Rightarrow> ((string \<times> json) list \<times> string) option" where
  "parse_json 0 s = None"
| "parse_json (Suc n) s =
     (case s of
        [] \<Rightarrow> None
      | c # r \<Rightarrow>
          if c = CHR ''n'' then map_option (Pair JNull) (strip_prefix ''ull'' r)
          else if c = CHR ''t'' then map_option (Pair (JBool True)) (strip_prefix ''rue'' r)
          else if c = CHR ''f'' then map_option (Pair (JBool False)) (strip_prefix ''alse'' r)
          else if c = CHR 0x22 then map_option (\<lambda>(t, r). (JString t, r)) (parse_chars r)
          else if c = CHR ''['' then
            (if starts_with '']'' r then Some (JArray [], tl r)
             else map_option (\<lambda>(xs, r). (JArray xs, r)) (parse_items n r))
          else if c = CHR ''{'' then
            (if starts_with ''}'' r then Some (JObject [], tl r)
             else map_option (\<lambda>(kvs, r). (JObject kvs, r)) (parse_fields n r))
          else parse_number s)"
| "parse_items 0 s = None"
| "parse_items (Suc n) s =
     (case parse_json n s of
        None \<Rightarrow> None
      | Some (v, r) \<Rightarrow>
          if starts_with '','' r then map_option (\<lambda>(vs, r). (v # vs, r)) (parse_items n (tl r))
          else if starts_with '']'' r then Some ([v], tl r)
          else None)"
| "parse_fields 0 s = None"
| "parse_fields (Suc n) s =
     (if \<not> starts_with [CHR 0x22] s then None
      else
        (case parse_chars (tl s) of
           None \<Rightarrow> None
         | Some (k, t) \<Rightarrow>
             if \<not> starts_with '':'' t then None
             else
               (case parse_json n (tl t) of
                  None \<Rightarrow> None
                | Some (v, r) \<Rightarrow>
                    if starts_with '','' r then map_option (\<lambda>(kvs, r). ((k, v) # kvs, r)) (parse_fields n (tl r))
                    else if starts_with ''}'' r then Some ([(k, v)], tl r)
                    else None)))"

section \<open>Reading back what was printed\<close>

lemma hex_value_digit: "n < 16 \<Longrightarrow> hex_value (hex_upper n) = n"
  by (auto simp: hex_value_def hex_upper_def is_digit_def code_in_def of_char_of)

lemma hex_pair: "char_of (16 * hex_value (hex_upper (of_char c div 16)) + hex_value (hex_upper (of_char c mod 16))) = c"
proof -
  have "(of_char c :: nat) < 256"
    using of_char_mod_256 [of c] mod_less_divisor [of 256 "of_char c :: nat"] by simp
  then have "(of_char c :: nat) div 16 < 16"
    using less_mult_imp_div_less [of "of_char c :: nat" 16 16] by simp
  then show ?thesis
    by (simp add: hex_value_digit)
qed

lemma parse_chars_print: "parse_chars (concat (map escape_char s) @ CHR 0x22 # r) = Some (s, r)"
proof (induction s)
  case (Cons c s)
  have "\<not> printable (CHR 0x5C)" "\<not> printable (CHR 0x22)"
    by code_simp+
  then show ?case
    using Cons hex_pair [of c] by (auto simp: escape_char_def)
qed simp

lemma int_text:
  assumes "no_digit_next r"
  shows "parse_number (show_int n @ r) = Some (JInt n, r)"
proof -
  have digits: "takeWhile is_digit (show_nat m @ r) = show_nat m" "dropWhile is_digit (show_nat m @ r) = r" for m
    using show_nat_facts [of m] assms
    by (cases r; auto simp: no_digit_next_def list_all_iff takeWhile_append dropWhile_append)+
  have minus: "\<not> starts_with ''-'' (show_nat m @ r)" for m
  proof -
    have "\<not> is_digit (CHR ''-'')"
      by code_simp
    then show ?thesis
      using show_nat_facts [of m] by (cases "show_nat m") auto
  qed
  show ?thesis
    using minus digits show_nat_facts by (simp add: parse_number_def show_int_def Let_def)
qed

definition opens :: "char \<Rightarrow> bool" where
  "opens c \<longleftrightarrow> is_digit c \<or> c \<in> set ''-ntf[{'' \<or> c = CHR 0x22"

lemma int_first: "\<exists>c t. show_int n = c # t \<and> (is_digit c \<or> c = CHR ''-'')"
  using show_nat_facts [of "nat n"] by (cases "show_nat (nat n)") (auto simp: show_int_def)

lemma print_first: "json_textual v \<Longrightarrow> \<exists>c t. print_json v = c # t \<and> opens c"
proof (cases v)
  case (JInt n)
  then show ?thesis
    using int_first [of n] by (auto simp: opens_def)
qed (auto simp: opens_def print_string_def)

text \<open>Lists of values and of fields, given that their elements are read back.\<close>

definition parses_back :: "json \<Rightarrow> bool" where
  "parses_back v \<longleftrightarrow> (\<forall>n r. length (print_json v) \<le> n \<longrightarrow> no_digit_next r \<longrightarrow> parse_json n (print_json v @ r) = Some (v, r))"

lemma parse_items_print:
  assumes "\<forall>x \<in> set xs. parses_back x" and "xs \<noteq> []" and "length (join_with '','' (map print_json xs)) < n"
  shows "parse_items n (join_with '','' (map print_json xs) @ CHR '']'' # r) = Some (xs, r)"
  using assms
proof (induction xs arbitrary: n)
  case (Cons x xs)
  obtain m where m: "n = Suc m"
    using Cons.prems(3) by (cases n) auto
  have x: "parse_json m (print_json x @ c # t) = Some (x, c # t)" if "\<not> is_digit c" for c t
    using Cons.prems m that by (cases xs) (auto simp: parses_back_def no_digit_next_def)
  have "\<not> is_digit (CHR '','')" "\<not> is_digit (CHR '']'')"
    by code_simp+
  then show ?case
    using Cons m x by (cases xs) (auto)
qed simp

definition print_field :: "string \<times> json \<Rightarrow> string" where
  "print_field p = print_string (fst p) @ '':'' @ print_json (snd p)"

lemma parse_fields_print:
  assumes "\<forall>p \<in> set kvs. parses_back (snd p)" and "kvs \<noteq> []" and "length (join_with '','' (map print_field kvs)) < n"
  shows "parse_fields n (join_with '','' (map print_field kvs) @ CHR ''}'' # r) = Some (kvs, r)"
  using assms
proof (induction kvs arbitrary: n)
  case (Cons p kvs)
  obtain k v where p: "p = (k, v)"
    by (cases p)
  obtain m where m: "n = Suc m"
    using Cons.prems(3) by (cases n) auto
  have v: "parse_json m (print_json v @ c # t) = Some (v, c # t)" if "\<not> is_digit c" for c t
    using Cons.prems m that p by (cases kvs) (auto simp: parses_back_def no_digit_next_def print_field_def)
  have key: "parse_chars (concat (map escape_char k) @ CHR 0x22 # t) = Some (k, t)" for t
    by (rule parse_chars_print)
  have "\<not> is_digit (CHR '','')" "\<not> is_digit (CHR ''}'')"
    by code_simp+
  then show ?case
    using Cons m p v key by (cases kvs) (auto simp: print_field_def print_string_def)
qed simp

lemma parses_backI:
  assumes "\<And>n r. length (print_json v) \<le> Suc n \<Longrightarrow> no_digit_next r \<Longrightarrow> parse_json (Suc n) (print_json v @ r) = Some (v, r)"
    and "print_json v \<noteq> []"
  shows "parses_back v"
  unfolding parses_back_def
proof (intro allI impI)
  fix n r
  assume "length (print_json v) \<le> n" and "no_digit_next r"
  then show "parse_json n (print_json v @ r) = Some (v, r)"
    using assms by (cases n) auto
qed

lemma opens_not_closing: "opens c \<Longrightarrow> c \<noteq> CHR '']'' \<and> c \<noteq> CHR ''}''"
proof -
  have "\<not> opens (CHR '']'')" "\<not> opens (CHR ''}'')"
    by code_simp+
  then show "opens c \<Longrightarrow> c \<noteq> CHR '']'' \<and> c \<noteq> CHR ''}''"
    by auto
qed

lemma join_first: "join_with sep ((c # t) # xs) = c # join_with sep (t # xs)"
  by (cases xs) auto

lemma parse_print: "json_textual v \<Longrightarrow> parses_back v"
proof (induction v rule: print_json.induct)
  case (3 k)
  obtain c t where "show_int k = c # t" and "is_digit c \<or> c = CHR ''-''"
    using int_first by blast
  moreover have "\<not> is_digit (CHR ''n'')" "\<not> is_digit (CHR ''t'')" "\<not> is_digit (CHR ''f'')" "\<not> is_digit (CHR 0x22)"
      "\<not> is_digit (CHR ''['')" "\<not> is_digit (CHR ''{'')"
    by code_simp+
  ultimately show ?case
    using int_text [of _ k] by (intro parses_backI) auto
next
  case (5 s)
  show ?case
    by (intro parses_backI) (auto simp: print_string_def parse_chars_print)
next
  case (6 xs)
  show ?case
  proof (cases xs)
    case (Cons x ys)
    then obtain c t where first: "print_json x = c # t" "c \<noteq> CHR '']''"
      using 6(2) print_first [of x] opens_not_closing by auto
    have items: "\<forall>x \<in> set xs. parses_back x"
      using 6 by auto
    show ?thesis
      using parse_items_print [OF items] first Cons
      by (intro parses_backI) (auto simp: join_first)
  qed (auto intro!: parses_backI)
next
  case (7 kvs)
  have print: "print_json (JObject kvs) = ''{'' @ join_with '','' (map print_field kvs) @ ''}''"
    by (simp add: print_field_def [abs_def])
  show ?case
  proof (cases kvs)
    case (Cons p ys)
    have vals: "\<forall>p \<in> set kvs. parses_back (snd p)"
      using 7 by auto
    obtain t where "print_field p = CHR 0x22 # t"
      by (simp add: print_field_def print_string_def)
    then show ?thesis
      using parse_fields_print [OF vals] Cons print
      by (intro parses_backI) (auto simp: join_first simp del: print_json.simps)
  qed (auto intro!: parses_backI)
qed (auto intro!: parses_backI simp: strip_prefix_def split: if_splits)

section \<open>Percent encoding\<close>

definition pct_encode :: "(char \<Rightarrow> bool) \<Rightarrow> string \<Rightarrow> string" where
  "pct_encode S s = concat (map (\<lambda>c.
     if S c \<or> 128 \<le> (of_char c :: nat) then [CHR ''%'', hex_upper (of_char c div 16), hex_upper (of_char c mod 16)] else [c]) s)"

fun pct_bytes :: "string \<Rightarrow> string" where
  "pct_bytes (c # h # l # s) =
     (if c = CHR ''%'' \<and> is_hexdigit h \<and> is_hexdigit l then char_of (16 * hex_value h + hex_value l) # pct_bytes s
      else c # pct_bytes (h # l # s))"
| "pct_bytes s = s"

definition ascii :: "string \<Rightarrow> bool" where
  "ascii s \<longleftrightarrow> list_all (\<lambda>c. (of_char c :: nat) < 128) s"

definition pct_decode :: "string \<Rightarrow> string option" where
  "pct_decode s = (if ascii (pct_bytes s) then Some (pct_bytes s) else None)"

lemma hex_upper_hex: "n < 16 \<Longrightarrow> is_hexdigit (hex_upper n)"
  by (auto simp: is_hexdigit_def hex_upper_def is_digit_def code_in_def of_char_of)

lemma char_nibbles: "(of_char (c :: char) :: nat) div 16 < 16" "(of_char c :: nat) mod 16 < 16"
proof -
  have "(of_char c :: nat) < 16 * 16"
    using of_char_mod_256 [of c] mod_less_divisor [of 256 "of_char c :: nat"] by simp
  then show "(of_char c :: nat) div 16 < 16"
    by (rule less_mult_imp_div_less)
qed simp

lemma pct_bytes_kept: "c \<noteq> CHR ''%'' \<Longrightarrow> pct_bytes (c # s) = c # pct_bytes s"
  by (cases s rule: pct_bytes.cases) auto

lemma pct_bytes_encode: "CHR ''%'' \<notin> set s \<Longrightarrow> pct_bytes (pct_encode S s) = s"
proof (induction s)
  case (Cons c s)
  then show ?case
    using hex_upper_hex char_nibbles [of c] hex_pair [of c] by (auto simp: pct_encode_def pct_bytes_kept)
qed (simp add: pct_encode_def)

section \<open>URLs\<close>

definition split_uri :: "string \<Rightarrow> string + uri_parts" where
  "split_uri s =
     (case strip_prefix ''http://'' s of
        None \<Rightarrow> Inl ''invalid scheme''
      | Some rest \<Rightarrow>
          (let authority = takeWhile (\<lambda>c. c \<noteq> CHR ''/'') rest; path = dropWhile (\<lambda>c. c \<noteq> CHR ''/'') rest;
               path = (if path = [] then ''/'' else path) in
           case split_once (CHR '':'') authority of
             None \<Rightarrow> Inr \<lparr>up_scheme = Some ''http'', up_host = Some authority, up_port = None, up_path = cut_path path\<rparr>
           | Some (host_name, port) \<Rightarrow>
               (case parse_uint 16 port of
                  None \<Rightarrow> Inl ''invalid port''
                | Some p \<Rightarrow> Inr \<lparr>up_scheme = Some ''http'', up_host = Some host_name, up_port = Some p, up_path = cut_path path\<rparr>)))"

lemma host_chars:
  assumes "base_ok host_name port"
  shows "CHR ''/'' \<notin> set host_name" "CHR '':'' \<notin> set host_name"
proof -
  have "\<not> is_alnum (CHR ''/'')" "\<not> is_alnum (CHR '':'')"
    by code_simp+
  then show "CHR ''/'' \<notin> set host_name" "CHR '':'' \<notin> set host_name"
    using assms by (auto simp: base_ok_def list_all_iff)
qed

lemma port_chars: "CHR ''/'' \<notin> set (show_nat p)"
proof -
  have "\<not> is_digit (CHR ''/'')"
    by code_simp
  then show ?thesis
    using show_nat_facts [of p] by (auto simp: list_all_iff)
qed

lemma split_uri_base:
  assumes "base_ok host_name port" and "rest = [] \<or> hd rest = CHR ''/''"
  shows "split_uri (base_url host_name port @ rest) =
    Inr \<lparr>up_scheme = Some ''http'', up_host = Some host_name, up_port = port, up_path = cut_path (if rest = [] then ''/'' else rest)\<rparr>"
proof -
  define auth where "auth = host_name @ (case port of Some p \<Rightarrow> '':'' @ show_nat p | None \<Rightarrow> [])"
  have auth: "CHR ''/'' \<notin> set auth"
    using host_chars [OF assms(1)] port_chars by (auto simp: auth_def split: option.splits)
  have "takeWhile (\<lambda>c. c \<noteq> CHR ''/'') (auth @ rest) = auth" "dropWhile (\<lambda>c. c \<noteq> CHR ''/'') (auth @ rest) = rest"
    using auth assms(2) by (cases rest; auto simp: takeWhile_append dropWhile_append)+
  moreover have "split_once (CHR '':'') auth = (case port of Some p \<Rightarrow> Some (host_name, show_nat p) | None \<Rightarrow> None)"
    using host_chars(2) [OF assms(1)] split_once_append [of "CHR '':''" host_name]
    by (auto simp: auth_def split_once_None split: option.splits)
  moreover have "parse_uint 16 (show_nat p) = Some p" if "port = Some p" for p
    using that assms(1) parse_show_nat [of p 16] by (simp add: base_ok_def)
  moreover have "strip_prefix ''http://'' (base_url host_name port @ rest) = Some (auth @ rest)"
    using strip_prefix_append [of "''http://''" "auth @ rest"] by (simp add: base_url_def auth_def)
  moreover have "auth = host_name" if "port = None"
    using that by (simp add: auth_def)
  ultimately show ?thesis
    by (auto simp: split_uri_def Let_def split: option.splits)
qed

section \<open>The library\<close>

text \<open>The fields the readers of the bodies know.\<close>

definition model_fields :: "string \<Rightarrow> string list" where
  "model_fields name =
     (case map_of
        [(''ClientHeartbeat'', [''process_id'']),
         (''NewSession'', [''session_id'', ''display_name'', ''language'', ''username'', ''input_prompt'',
            ''continuation_prompt'', ''argv'', ''session_mode'', ''working_directory'', ''notebook_uri'', ''env'',
            ''connection_timeout'', ''interrupt_mode'', ''protocol_version'', ''startup_environment'',
            ''startup_environment_arg'', ''workspace_id'']),
         (''McpWorkspaceRegistration'', [''workspace_id'', ''display_name'', ''preferred_port'', ''token'']),
         (''ServerConfiguration'', [''idle_shutdown_hours'', ''resource_sample_interval_ms'',
            ''resource_include_children'', ''log_level'']),
         (''ConnectionInfo'', [''control_port'', ''shell_port'', ''stdin_port'', ''hb_port'', ''iopub_port'',
            ''signature_scheme'', ''key'', ''transport'', ''ip'']),
         (''ExecuteRequest'', [''code'', ''silent'', ''store_history'', ''stop_on_error'', ''timeout_seconds'']),
         (''RestartSession'', [''working_directory'', ''env''])] name of
        Some fs \<Rightarrow> fs
      | None \<Rightarrow> [])"

definition read_text :: "string \<Rightarrow> string + json" where
  "read_text s = (case parse_json (length s) s of Some (v, _) \<Rightarrow> Inr v | None \<Rightarrow> Inl ''expected value'')"

definition read_all_text :: "string \<Rightarrow> string + json" where
  "read_all_text s = (case parse_json (length s) s of Some (v, []) \<Rightarrow> Inr v | _ \<Rightarrow> Inl ''expected value'')"

definition unknown_fields :: "string \<Rightarrow> string \<Rightarrow> string list" where
  "unknown_fields name body =
     (case read_text body of
        Inr (JObject kvs) \<Rightarrow> filter (\<lambda>k. k \<notin> set (model_fields name)) (map fst kvs)
      | _ \<Rightarrow> [])"

definition text_lib :: api_lib where
  "text_lib =
     \<lparr>al_to_string = print_json, al_from_str = read_all_text, al_from_slice = read_text,
      al_mismatch = (\<lambda>name _. ''expected '' @ name), al_ignored = unknown_fields,
      al_show_time = show_nat, al_parse_time = (\<lambda>s. if show_nat (number_value 10 s) = s then Some (number_value 10 s) else None),
      al_map_order = (\<lambda>m. map (\<lambda>k. (k, the (m k))) (sorted_list_of_set (dom m))),
      al_utf8 = ascii, al_utf8_error = (\<lambda>_. ''invalid utf-8 sequence''), al_utf8_debug = (\<lambda>_. ''Utf8Error''),
      al_percent_encode = pct_encode, al_percent_decode = pct_decode, al_uri = split_uri,
      al_header_ok = visible, al_header_error = ''failed to parse header value'',
      al_debug = (\<lambda>ss. ''['' @ join_with '', '' (map print_string ss) @ '']''),
      al_debug_headers = (\<lambda>hs. join_with '', '' (map (\<lambda>(k, v). k @ '': '' @ v) hs)),
      al_span_id = (\<lambda>hs. case map_of hs ''x-span-id'' of Some s \<Rightarrow> s | None \<Rightarrow> ''generated''),
      al_from_headers = (\<lambda>hs. map_option (\<lambda>h. case strip_prefix ''Bearer '' h of Some t \<Rightarrow> Bearer t | None \<Rightarrow> OtherAuth)
        (map_of hs ''authorization''))\<rparr>"

lemma read_back:
  assumes "json_textual v"
  shows "parse_json (length (print_json v)) (print_json v) = Some (v, [])"
  using parse_print [OF assms] unfolding parses_back_def
  by (metis append_Nil2 no_digit_next_def order_refl)

lemma escape_visible: "c \<in> set (escape_char d) \<Longrightarrow> (of_char c :: nat) < 128"
proof -
  have "(of_char (CHR 0x5C) :: nat) < 128" "(of_char (CHR ''u'') :: nat) < 128" "(of_char (CHR ''0'') :: nat) < 128"
    by code_simp+
  moreover have "(of_char (hex_upper n) :: nat) < 128" if "n < 16" for n
    using that by (auto simp: hex_upper_def of_char_of)
  ultimately show "c \<in> set (escape_char d) \<Longrightarrow> (of_char c :: nat) < 128"
    using char_nibbles [of d] by (auto simp: escape_char_def printable_def split: if_splits)
qed

lemma unknown_fields_struct:
  assumes "json_textual (struct_ser rows)" and "set (map fst rows) \<subseteq> set (model_fields name)"
  shows "unknown_fields name (print_json (struct_ser rows)) = []"
proof -
  have "fst ` set (List.map_filter (\<lambda>(k, v). map_option (Pair k) v) rows) \<subseteq> set (model_fields name)"
    using assms(2) struct_keys [of rows] by auto
  then have "\<forall>k \<in> fst ` set (List.map_filter (\<lambda>(k, v). map_option (Pair k) v) rows). k \<in> set (model_fields name)"
    by blast
  then show ?thesis
    using read_back [OF assms(1)]
    by (simp add: unknown_fields_def read_text_def struct_ser_def filter_empty_conv del: print_json.simps)
qed

lemma set_join: "c \<in> set (join_with sep xs) \<Longrightarrow> c \<in> set sep \<or> (\<exists>x \<in> set xs. c \<in> set x)"
  by (induction sep xs rule: join_with.induct) auto

lemma string_ascii: "c \<in> set (print_string s) \<Longrightarrow> (of_char c :: nat) < 128"
  using escape_visible by (auto simp: print_string_def)

lemma int_ascii: "c \<in> set (show_int n) \<Longrightarrow> (of_char c :: nat) < 128"
  using show_nat_facts
  by (force simp: show_int_def list_all_iff is_digit_def code_in_def split: if_splits)

lemma print_ascii: "json_textual v \<Longrightarrow> c \<in> set (print_json v) \<Longrightarrow> (of_char c :: nat) < 128"
proof (induction v arbitrary: c rule: print_json.induct)
  case (6 xs)
  then show ?case
    using set_join [of c "'',''" "map print_json xs"] by auto
next
  case (7 kvs)
  let ?f = "\<lambda>p. print_string (fst p) @ '':'' @ print_json (snd p)"
  have "c \<in> set ''{},'' \<or> (\<exists>p \<in> set kvs. c \<in> set (?f p))"
    using 7(3) set_join [of c "'',''" "map ?f kvs"] by auto
  then show ?case
    using 7 string_ascii by auto
qed (auto simp: int_ascii string_ascii split: if_splits)

lemma internal_error_text: "read_all_text ''An internal error occurred'' = Inl ''expected value''"
  by code_simp

lemma sent_known: "sent_body name v \<Longrightarrow> unknown_fields name (print_json v) = []"
  unfolding sent_body_def
  by (elim conjE disjE rangeE;
      simp only: heartbeat_ser_def new_session_ser_def mcp_registration_ser_def server_configuration_ser_def
        connection_info_ser_def execute_request_ser_def restart_session_ser_def;
      rule unknown_fields_struct; (assumption | simp add: model_fields_def))

interpretation sample: api_transport text_lib
proof
  show "al_from_str text_lib (al_to_string text_lib v) = Inr v" if "json_textual v" for v
    using read_back [OF that] by (simp add: text_lib_def read_all_text_def)
  show "al_from_slice text_lib (al_to_string text_lib v) = Inr v" if "json_textual v" for v
    using read_back [OF that] by (simp add: text_lib_def read_text_def)
  show "al_to_string text_lib v \<noteq> []" if "json_textual v" for v
    using print_first [OF that] by (auto simp: text_lib_def)
  show "al_utf8 text_lib (al_to_string text_lib v)" if "json_textual v" for v
    using print_ascii [OF that] by (simp add: text_lib_def ascii_def list_all_iff)
  show "al_parse_time text_lib (al_show_time text_lib t) = Some t" for t
    using show_nat_facts [of t] by (simp add: text_lib_def)
  show "map_of (al_map_order text_lib m) = m \<and> distinct (map fst (al_map_order text_lib m))" if "finite (dom m)" for m
    using that by (auto simp: text_lib_def comp_def fun_eq_iff map_of_map_restrict restrict_map_def domIff)
  show "al_percent_encode text_lib S [] = []" for S
    by (simp add: text_lib_def pct_encode_def)
  show "al_percent_encode text_lib S (c # s) = c # al_percent_encode text_lib S s"
    if "\<not> S c" "(of_char c :: nat) < 128" for S c s
    using that by (simp add: text_lib_def pct_encode_def)
  show "\<exists>h l. is_hexdigit h \<and> is_hexdigit l \<and>
      (\<forall>s. al_percent_encode text_lib S (c # s) = CHR ''%'' # h # l # al_percent_encode text_lib S s)"
    if "S c \<or> 128 \<le> (of_char c :: nat)" for S c
    using that hex_upper_hex char_nibbles [of c] by (auto simp: text_lib_def pct_encode_def)
  show "al_percent_decode text_lib (al_percent_encode text_lib S s) = Some s"
    if "al_utf8 text_lib s" "CHR ''%'' \<notin> set s" for S s
    using that pct_bytes_encode [of s S] by (simp add: text_lib_def pct_decode_def)
  show "al_uri text_lib (base_url host_name port @ CHR ''/'' # p) =
      Inr \<lparr>up_scheme = Some ''http'', up_host = Some host_name, up_port = port, up_path = cut_path (CHR ''/'' # p)\<rparr>"
    if "base_ok host_name port" for host_name port p
    using split_uri_base [OF that, of "CHR ''/'' # p"] by (simp add: text_lib_def)
  show "al_uri text_lib (base_url host_name port) =
      Inr \<lparr>up_scheme = Some ''http'', up_host = Some host_name, up_port = port, up_path = ''/''\<rparr>"
    if "base_ok host_name port" for host_name port
    using split_uri_base [OF that, of "[]"] by (simp add: text_lib_def cut_path_def)
  show "al_header_ok text_lib s" if "visible s" for s
    using that by (simp add: text_lib_def)
  show "al_span_id text_lib hs = s" if "(''x-span-id'', s) \<in> set hs" "distinct (map fst hs)" for s hs
    using that by (simp add: text_lib_def)
  show "al_from_headers text_lib hs = None" if "''authorization'' \<notin> fst ` set hs" for hs
    using that by (simp add: text_lib_def map_of_eq_None_iff)
  show "\<exists>e. al_from_str text_lib ''An internal error occurred'' = Inl e"
    using internal_error_text by (simp add: text_lib_def)
  show "al_ignored text_lib name (al_to_string text_lib v) = []" if "sent_body name v" for name v
    using sent_known [OF that] by (simp add: text_lib_def)
qed

end
