(* ===== verification/KC_Remote.thy ===== *)
theory KC_Remote
  imports KC_JsonText
begin

text \<open>
  The server behind its API: the handlers of \<open>server.rs\<close> as an implementation of the trait \<open>Api\<close>, and what a
  program that calls the server through the generated client can rely on.

  The handlers are those of the theories on the server, on starting a session and on the endpoint; here each
  is given the response type of its operation. What the outside world contributes to a call is the record
  \<open>api_world\<close>. A handler that panics leaves the state \<open>aw_lost\<close> says.
\<close>

section \<open>The outside world\<close>

record 'm api_world =
  aw_codec :: "'m codec"
  aw_host :: host
  aw_key_error :: string
  aw_ports :: bind_answers
  aw_port_tries :: nat
  aw_config_error :: string
  aw_start_host :: start_host
  aw_start_run :: start_run
  aw_restart_id :: string
  aw_exited :: "session \<Rightarrow> session"
  aw_show_json :: "json \<Rightarrow> string"
  aw_execute_run :: execute_run
  aw_meanwhile :: "kernel_state \<Rightarrow> kernel_state"
  aw_received :: "string + startup_status"
  aw_bind :: "nat \<Rightarrow> nat option"
  aw_suffixes :: "string list"
  aw_fresh_token :: string
  aw_listener_error :: string
  aw_lost :: "'m server \<Rightarrow> 'm server"

text \<open>An answer in the response type of its operation; \<open>None\<close> stands for a response the handler does not give.\<close>

definition replied :: "('x \<Rightarrow> 'r option) \<Rightarrow> 'x \<times> 's \<Rightarrow> ('r, 's) answer" where
  "replied conv p = (map_option Inr (conv (fst p)), snd p)"

definition waited :: "('m server \<Rightarrow> 'm server) \<Rightarrow> ('x \<Rightarrow> 'r option) \<Rightarrow> 'm server \<Rightarrow> ('x \<times> 'm server) option \<Rightarrow> ('r, 'm server) answer" where
  "waited lost conv sv p = (case p of None \<Rightarrow> (None, lost sv) | Some p \<Rightarrow> replied conv p)"

section \<open>The server itself\<close>

fun heartbeat_reply :: "response \<Rightarrow> client_heartbeat_response option" where
  "heartbeat_reply HeartbeatReceived = Some (ClientHeartbeat_HeartbeatReceived JNull)"
| "heartbeat_reply _ = None"

definition kc_client_heartbeat :: "heartbeat_model \<Rightarrow> api_context \<Rightarrow> 'm server \<Rightarrow> (client_heartbeat_response, 'm server) answer" where
  "kc_client_heartbeat x cx sv = replied heartbeat_reply (client_heartbeat (hb_process_id x) sv)"

fun get_configuration_reply :: "response \<Rightarrow> get_server_configuration_response option" where
  "get_configuration_reply (TheConfiguration c) = Some (GetServerConfiguration_TheCurrentServerConfiguration c)"
| "get_configuration_reply _ = None"

definition kc_get_server_configuration :: "api_context \<Rightarrow> 'm server \<Rightarrow> (get_server_configuration_response, 'm server) answer" where
  "kc_get_server_configuration cx sv = replied get_configuration_reply (get_server_configuration sv, sv)"

fun set_configuration_reply :: "response \<Rightarrow> set_server_configuration_response option" where
  "set_configuration_reply ConfigurationUpdated = Some (SetServerConfiguration_ConfigurationUpdated JNull)"
| "set_configuration_reply (ConfigurationError e) = Some (SetServerConfiguration_Error e)"
| "set_configuration_reply _ = None"

definition kc_set_server_configuration ::
  "'m api_world \<Rightarrow> server_configuration \<Rightarrow> api_context \<Rightarrow> 'm server \<Rightarrow> (set_server_configuration_response, 'm server) answer" where
  "kc_set_server_configuration W c cx sv = replied set_configuration_reply (set_server_configuration (aw_config_error W) c sv)"

fun status_reply :: "response \<Rightarrow> server_status_response option" where
  "status_reply (TheStatus s) = Some (ServerStatus_ServerStatusAndInformation s)"
| "status_reply _ = None"

definition kc_server_status :: "'m api_world \<Rightarrow> api_context \<Rightarrow> 'm server \<Rightarrow> (server_status_response, 'm server) answer" where
  "kc_server_status W cx sv = replied status_reply (handle_server_status (aw_host W) sv, sv)"

fun shutdown_reply :: "response \<Rightarrow> shutdown_server_response option" where
  "shutdown_reply ShuttingDown = Some (ShutdownServer_ShuttingDown JNull)"
| "shutdown_reply (ShutdownFailed e) = Some (ShutdownServer_ShutdownFailed e)"
| "shutdown_reply Unauthorised = Some ShutdownServer_Unauthorized"
| "shutdown_reply _ = None"

definition kc_shutdown_server :: "'m api_world \<Rightarrow> api_context \<Rightarrow> 'm server \<Rightarrow> (shutdown_server_response, 'm server) answer" where
  "kc_shutdown_server W cx sv = replied shutdown_reply (shutdown_server (aw_host W) (cx_auth cx) sv)"

section \<open>Sessions\<close>

fun list_reply :: "response \<Rightarrow> list_sessions_response option" where
  "list_reply (SessionList n xs) = Some (ListSessions_ListOfActiveSessions \<lparr>sl_total = n, sl_sessions = xs\<rparr>)"
| "list_reply _ = None"

definition kc_list_sessions :: "'m api_world \<Rightarrow> api_context \<Rightarrow> 'm server \<Rightarrow> (list_sessions_response, 'm server) answer" where
  "kc_list_sessions W cx sv = replied list_reply (list_sessions (aw_host W) sv, sv)"

fun new_session_reply :: "response \<Rightarrow> new_session_response option" where
  "new_session_reply (SessionCreated i) = Some (NewSession_TheSessionID \<lparr>ni_session_id = i\<rparr>)"
| "new_session_reply (InvalidRequest e) = Some (NewSession_InvalidRequest e)"
| "new_session_reply Unauthorised = Some NewSession_Unauthorized"
| "new_session_reply _ = None"

definition kc_new_session ::
  "'m api_world \<Rightarrow> new_session \<Rightarrow> api_context \<Rightarrow> 'm server \<Rightarrow> (new_session_response, 'm server) answer" where
  "kc_new_session W m cx sv =
     replied new_session_reply (handle_new_session (aw_codec W) (aw_host W) (cx_auth cx) m (aw_key_error W) sv)"

fun get_session_reply :: "response \<Rightarrow> get_session_response option" where
  "get_session_reply (SessionDetails x) = Some (GetSession_SessionDetails x)"
| "get_session_reply NoSuchSession = Some GetSession_SessionNotFound"
| "get_session_reply _ = None"

definition kc_get_session :: "'m api_world \<Rightarrow> string \<Rightarrow> api_context \<Rightarrow> 'm server \<Rightarrow> (get_session_response, 'm server) answer" where
  "kc_get_session W i cx sv = replied get_session_reply (get_session (aw_host W) i sv, sv)"

fun history_reply :: "response \<Rightarrow> get_session_history_response option" where
  "history_reply (SessionHistory es) = Some (GetSessionHistory_ExecutionHistory es)"
| "history_reply Unauthorised = Some GetSessionHistory_Unauthorized"
| "history_reply NoSuchSession = Some GetSessionHistory_SessionNotFound"
| "history_reply _ = None"

definition kc_get_session_history :: "string \<Rightarrow> api_context \<Rightarrow> 'm server \<Rightarrow> (get_session_history_response, 'm server) answer" where
  "kc_get_session_history i cx sv = replied history_reply (get_session_history (cx_auth cx) i sv, sv)"

fun delete_reply :: "response \<Rightarrow> delete_session_response option" where
  "delete_reply SessionDeleted = Some (DeleteSession_SessionDeleted JNull)"
| "delete_reply (DeleteFailed e) = Some (DeleteSession_FailedToDeleteSession e)"
| "delete_reply Unauthorised = Some DeleteSession_Unauthorized"
| "delete_reply NoSuchSession = Some DeleteSession_SessionNotFound"
| "delete_reply _ = None"

definition kc_delete_session :: "string \<Rightarrow> api_context \<Rightarrow> 'm server \<Rightarrow> (delete_session_response, 'm server) answer" where
  "kc_delete_session i cx sv = replied delete_reply (delete_session (cx_auth cx) i sv)"

fun channels_reply :: "response \<Rightarrow> channels_upgrade_response option" where
  "channels_reply (UpgradedConnection x) = Some (ChannelsUpgrade_UpgradedConnection x)"
| "channels_reply (InvalidRequest e) = Some (ChannelsUpgrade_InvalidRequest e)"
| "channels_reply Unauthorised = Some ChannelsUpgrade_Unauthorized"
| "channels_reply NoSuchSession = Some ChannelsUpgrade_SessionNotFound"
| "channels_reply _ = None"

definition kc_channels_upgrade :: "'m api_world \<Rightarrow> string \<Rightarrow> api_context \<Rightarrow> 'm server \<Rightarrow> (channels_upgrade_response, 'm server) answer" where
  "kc_channels_upgrade W i cx sv = replied channels_reply (channels_upgrade (aw_host W) (cx_auth cx) i sv)"

fun connection_info_reply :: "response \<Rightarrow> connection_info_response option" where
  "connection_info_reply (TheConnectionInfo c) = Some (ConnectionInfo_ConnectionInfo c)"
| "connection_info_reply (NoConnection e) = Some (ConnectionInfo_Failed e)"
| "connection_info_reply Unauthorised = Some ConnectionInfo_Unauthorized"
| "connection_info_reply NoSuchSession = Some ConnectionInfo_SessionNotFound"
| "connection_info_reply _ = None"

definition kc_connection_info :: "'m api_world \<Rightarrow> string \<Rightarrow> api_context \<Rightarrow> 'm server \<Rightarrow> (connection_info_response, 'm server) answer" where
  "kc_connection_info W i cx sv =
     replied connection_info_reply (handle_connection_info (aw_ports W) (aw_port_tries W) (cx_auth cx) i sv)"

fun kill_reply :: "response \<Rightarrow> kill_session_response option" where
  "kill_reply Killed = Some (KillSession_Killed JNull)"
| "kill_reply (KillFailed e) = Some (KillSession_KillFailed e)"
| "kill_reply Unauthorised = Some KillSession_Unauthorized"
| "kill_reply NoSuchSession = Some KillSession_SessionNotFound"
| "kill_reply _ = None"

definition kc_kill_session :: "'m api_world \<Rightarrow> string \<Rightarrow> api_context \<Rightarrow> 'm server \<Rightarrow> (kill_session_response, 'm server) answer" where
  "kc_kill_session W i cx sv = replied kill_reply (kill_session (aw_host W) (cx_auth cx) i sv)"

fun interrupt_reply :: "response \<Rightarrow> interrupt_session_response option" where
  "interrupt_reply Interrupted = Some (InterruptSession_Interrupted JNull)"
| "interrupt_reply (InterruptFailed e) = Some (InterruptSession_InterruptFailed e)"
| "interrupt_reply Unauthorised = Some InterruptSession_Unauthorized"
| "interrupt_reply NoSuchSession = Some InterruptSession_SessionNotFound"
| "interrupt_reply _ = None"

definition kc_interrupt_session :: "'m api_world \<Rightarrow> string \<Rightarrow> api_context \<Rightarrow> 'm server \<Rightarrow> (interrupt_session_response, 'm server) answer" where
  "kc_interrupt_session W i cx sv =
     waited (aw_lost W) interrupt_reply sv (interrupt_session (aw_host W) (cx_auth cx) i sv)"

section \<open>Operations that wait\<close>

fun start_reply :: "waiting_response \<Rightarrow> start_session_response option" where
  "start_reply (Started info) = Some (StartSession_Started info)"
| "start_reply (WStartFailed e) = Some (StartSession_StartFailed e)"
| "start_reply WUnauthorised = Some StartSession_Unauthorized"
| "start_reply WNoSuchSession = Some StartSession_SessionNotFound"
| "start_reply _ = None"

definition kc_start_session :: "'m api_world \<Rightarrow> string \<Rightarrow> api_context \<Rightarrow> 'm server \<Rightarrow> (start_session_response, 'm server) answer" where
  "kc_start_session W i cx sv =
     waited (aw_lost W) start_reply sv (start_session (aw_start_host W) (cx_auth cx) i (aw_start_run W) sv)"

fun restart_reply :: "waiting_response \<Rightarrow> restart_session_response option" where
  "restart_reply Restarted = Some (RestartSession_Restarted JNull)"
| "restart_reply (WRestartFailed e) = Some (RestartSession_RestartFailed e)"
| "restart_reply WUnauthorised = Some RestartSession_Unauthorized"
| "restart_reply WNoSuchSession = Some RestartSession_SessionNotFound"
| "restart_reply _ = None"

definition kc_restart_session ::
  "'m api_world \<Rightarrow> string \<Rightarrow> restart_session_model option \<Rightarrow> api_context \<Rightarrow> 'm server \<Rightarrow> (restart_session_response, 'm server) answer" where
  "kc_restart_session W i body cx sv =
     waited (aw_lost W) restart_reply sv
       (restart_session (aw_start_host W) (h_os (aw_host W)) (cx_auth cx) i (aw_restart_id W)
          (Option.bind body rm_working_directory) (Option.bind body rm_env) (aw_exited W) (aw_start_run W) sv)"

fun adopt_reply :: "waiting_response \<Rightarrow> adopt_session_response option" where
  "adopt_reply (Adopted v) = Some (AdoptSession_Adopted v)"
| "adopt_reply (AdoptionFailed e) = Some (AdoptSession_AdoptionFailed e)"
| "adopt_reply WUnauthorised = Some AdoptSession_Unauthorized"
| "adopt_reply WNoSuchSession = Some AdoptSession_SessionNotFound"
| "adopt_reply _ = None"

definition kc_adopt_session ::
  "'m api_world \<Rightarrow> string \<Rightarrow> connection_info \<Rightarrow> api_context \<Rightarrow> 'm server \<Rightarrow> (adopt_session_response, 'm server) answer" where
  "kc_adopt_session W i info cx sv =
     waited (aw_lost W) adopt_reply sv
       (adopt_session (aw_codec W) (aw_key_error W) (cx_auth cx) i info (aw_meanwhile W) (aw_received W) sv)"

fun execute_code_reply :: "waiting_response \<Rightarrow> execute_code_response option" where
  "execute_code_reply (ExecutionCompleted r) = Some (ExecuteCode_ExecutionCompleted r)"
| "execute_code_reply (WInvalidRequest e) = Some (ExecuteCode_InvalidRequest e)"
| "execute_code_reply (ExecutionTimedOut e) = Some (ExecuteCode_ExecutionTimedOut e)"
| "execute_code_reply WUnauthorised = Some ExecuteCode_Unauthorized"
| "execute_code_reply WNoSuchSession = Some ExecuteCode_SessionNotFound"
| "execute_code_reply _ = None"

definition kc_execute_code ::
  "'m api_world \<Rightarrow> string \<Rightarrow> execute_request \<Rightarrow> api_context \<Rightarrow> 'm server \<Rightarrow> (execute_code_response, 'm server) answer" where
  "kc_execute_code W i q cx sv =
     waited (aw_lost W) execute_code_reply sv
       (handle_execute_code (aw_show_json W) (h_os (aw_host W)) (cx_auth cx) i q (aw_execute_run W) sv)"

section \<open>Windows\<close>

definition kc_register_mcp_workspace ::
  "'m api_world \<Rightarrow> mcp_registration \<Rightarrow> api_context \<Rightarrow> 'm server \<Rightarrow> (register_mcp_workspace_response, 'm server) answer" where
  "kc_register_mcp_workspace W r cx sv =
     (case register_mcp_workspace (aw_bind W) (aw_suffixes W) (aw_fresh_token W) (validate_token sv (cx_auth cx)) (mr_preferred_port r)
             \<lparr>rg_workspace_id = mr_workspace_id r, rg_display_name = mr_display_name r, rg_token = mr_token r\<rparr> (sv_mcp sv) of
        None \<Rightarrow> (None, aw_lost W sv)
      | Some (reply, m) \<Rightarrow>
          (Some (Inr (case reply of
             RegisterUnauthorized \<Rightarrow> RegisterMcpWorkspace_Unauthorized
           | RegisterFailed \<Rightarrow> RegisterMcpWorkspace_InvalidRequest
               \<lparr>ae_code = ''mcp_listener_failed'', ae_message = ''Failed to start the MCP listener: '' @ aw_listener_error W,
                ae_details = None\<rparr>
           | WorkspaceRegistered url i token port \<Rightarrow> RegisterMcpWorkspace_WorkspaceRegistered
               \<lparr>mw_workspace_id = i, mw_token = token, mw_port = int port, mw_url = url\<rparr>)),
           sv\<lparr>sv_mcp := m\<rparr>))"

definition kc_deregister_mcp_workspace ::
  "string \<Rightarrow> api_context \<Rightarrow> 'm server \<Rightarrow> (deregister_mcp_workspace_response, 'm server) answer" where
  "kc_deregister_mcp_workspace i cx sv =
     (case deregister_mcp_workspace (validate_token sv (cx_auth cx)) i (sv_mcp sv) of
        (reply, m) \<Rightarrow>
          (Some (Inr (case reply of
             DeregisterUnauthorized \<Rightarrow> DeregisterMcpWorkspace_Unauthorized
           | WorkspaceNotFound \<Rightarrow> DeregisterMcpWorkspace_WorkspaceNotFound
           | WorkspaceDeregistered \<Rightarrow> DeregisterMcpWorkspace_WorkspaceDeregistered)),
           sv\<lparr>sv_mcp := m\<rparr>))"

text \<open>A window's channel is upgraded before the router sees it; a request that asks for no upgrade ends here.\<close>

definition kc_mcp_workspace_channel :: "string \<Rightarrow> api_context \<Rightarrow> 'm server \<Rightarrow> (mcp_workspace_channel_response, 'm server) answer" where
  "kc_mcp_workspace_channel i cx sv =
     (Some (Inr
        (if \<not> validate_token sv (cx_auth cx) then McpWorkspaceChannel_Unauthorized
         else if \<not> registry_contains i (mcp_registry (sv_mcp sv)) then McpWorkspaceChannel_WorkspaceNotFound
         else McpWorkspaceChannel_InvalidRequest
           \<lparr>ae_code = ''upgrade_required'', ae_message = ''The MCP frontend channel requires a WebSocket upgrade'',
            ae_details = None\<rparr>)), sv)"

section \<open>The implementation of the interface\<close>

definition kc_api :: "'m api_world \<Rightarrow> 'm server api" where
  "kc_api W = \<lparr>
     api_client_heartbeat = kc_client_heartbeat,
     api_get_server_configuration = kc_get_server_configuration,
     api_list_sessions = kc_list_sessions W,
     api_new_session = kc_new_session W,
     api_register_mcp_workspace = kc_register_mcp_workspace W,
     api_server_status = kc_server_status W,
     api_set_server_configuration = kc_set_server_configuration W,
     api_shutdown_server = kc_shutdown_server W,
     api_adopt_session = kc_adopt_session W,
     api_channels_upgrade = kc_channels_upgrade W,
     api_connection_info = kc_connection_info W,
     api_delete_session = kc_delete_session,
     api_deregister_mcp_workspace = kc_deregister_mcp_workspace,
     api_execute_code = kc_execute_code W,
     api_get_session = kc_get_session W,
     api_get_session_history = kc_get_session_history,
     api_interrupt_session = kc_interrupt_session W,
     api_kill_session = kc_kill_session W,
     api_mcp_workspace_channel = kc_mcp_workspace_channel,
     api_restart_session = kc_restart_session W,
     api_start_session = kc_start_session W\<rparr>"

text \<open>A client of the server at the other end of a connection.\<close>

definition kc_client :: "api_lib \<Rightarrow> string \<Rightarrow> nat option \<Rightarrow> string \<Rightarrow> 'm api_world \<Rightarrow> 'm server api" where
  "kc_client L host_name port closed W = api_client L (base_url host_name port) (direct L closed (kc_api W))"

section \<open>Answers through the client\<close>

text \<open>An answer that survives the way is the same at both ends.\<close>

definition settled :: "('r \<Rightarrow> bool) \<Rightarrow> ('r, 's) answer \<Rightarrow> bool" where
  "settled ok answer \<longleftrightarrow> (\<exists>r s. answer = (Some (Inr r), s) \<and> ok r)"

lemma mirrors_settled: "mirrors ok loc rem \<Longrightarrow> settled ok loc \<Longrightarrow> rem = loc"
  by (auto simp: mirrors_def settled_def)

lemma settled_Inr [simp]: "settled ok (Some (Inr r), s) \<longleftrightarrow> ok r"
  by (simp add: settled_def)

lemmas remote_settled =
  remote_client_heartbeat [THEN mirrors_settled]
  remote_get_server_configuration [THEN mirrors_settled]
  remote_list_sessions [THEN mirrors_settled]
  remote_new_session [THEN mirrors_settled]
  remote_register_mcp_workspace [THEN mirrors_settled]
  remote_server_status [THEN mirrors_settled]
  remote_set_server_configuration [THEN mirrors_settled]
  remote_shutdown_server [THEN mirrors_settled]
  remote_adopt_session [THEN mirrors_settled]
  remote_channels_upgrade [THEN mirrors_settled]
  remote_connection_info [THEN mirrors_settled]
  remote_delete_session [THEN mirrors_settled]
  remote_deregister_mcp_workspace [THEN mirrors_settled]
  remote_execute_code [THEN mirrors_settled]
  remote_get_session [THEN mirrors_settled]
  remote_get_session_history [THEN mirrors_settled]
  remote_interrupt_session [THEN mirrors_settled]
  remote_kill_session [THEN mirrors_settled]
  remote_mcp_workspace_channel [THEN mirrors_settled]
  remote_restart_session [THEN mirrors_settled]
  remote_start_session [THEN mirrors_settled]

lemma settled_replied: "conv (fst p) = Some r \<Longrightarrow> ok r \<Longrightarrow> settled ok (replied conv p)"
  by (simp add: settled_def replied_def)

lemma null_ok [simp]: "value_ok JNull"
  by (simp add: value_ok_def)

lemma heartbeat_settled: "settled client_heartbeat_response_ok (kc_client_heartbeat x cx sv)"
  by (simp add: settled_def kc_client_heartbeat_def replied_def client_heartbeat_def)

lemma set_idle_hours_error: "set_idle_hours err hours sv = (Inl r, sv') \<Longrightarrow> \<exists>e. r = ConfigurationError e"
  by (cases hours) (auto simp: set_idle_hours_def config_error_def Let_def split: if_splits option.splits)

lemma set_interval_error: "set_interval err n sv = (Inl r, sv') \<Longrightarrow> \<exists>e. r = ConfigurationError e"
  by (cases n) (auto simp: set_interval_def config_error_def Let_def split: if_splits option.splits)

lemma set_configuration_settled: "settled set_server_configuration_response_ok (kc_set_server_configuration W c cx sv)"
  by (auto simp: settled_def kc_set_server_configuration_def replied_def set_server_configuration_def
      split: prod.splits sum.splits dest!: set_idle_hours_error set_interval_error)

lemma shutdown_settled: "settled shutdown_server_response_ok (kc_shutdown_server W cx sv)"
  by (auto simp: settled_def kc_shutdown_server_def replied_def shutdown_server_def Let_def split: option.splits prod.splits)

lemma new_session_settled: "settled new_session_response_ok (kc_new_session W m cx sv)"
  by (auto simp: settled_def kc_new_session_def replied_def handle_new_session_def refuse_session_def insert_session_def
      split: option.splits)

lemma delete_settled: "settled delete_session_response_ok (kc_delete_session i cx sv)"
  by (auto simp: settled_def kc_delete_session_def replied_def delete_session_def Let_def split: option.splits)

lemma channels_settled: "settled channels_upgrade_response_ok (kc_channels_upgrade W i cx sv)"
  by (auto simp: settled_def kc_channels_upgrade_def replied_def channels_upgrade_def create_domain_socket_channel_def
      socket_error_def Let_def split: option.splits sum.splits)

lemma kill_settled: "settled kill_session_response_ok (kc_kill_session W i cx sv)"
  by (auto simp: settled_def kc_kill_session_def replied_def kill_session_def Let_def split: option.splits)

lemma deregister_settled: "settled deregister_mcp_workspace_response_ok (kc_deregister_mcp_workspace i cx sv)"
  by (auto simp: settled_def kc_deregister_mcp_workspace_def split: prod.splits deregister_response.splits)

lemma channel_settled: "settled mcp_workspace_channel_response_ok (kc_mcp_workspace_channel i cx sv)"
  by (simp add: settled_def kc_mcp_workspace_channel_def)

lemmas all_settled = heartbeat_settled set_configuration_settled shutdown_settled new_session_settled delete_settled
  channels_settled kill_settled deregister_settled channel_settled

text \<open>The operations of the client and of the server, in one view.\<close>

lemma kc_client_faithful:
  "api_transport L \<Longrightarrow> base_ok host_name port \<Longrightarrow> faithful L (kc_api W) (kc_client L host_name port closed W)"
  unfolding kc_client_def by (rule client_faithful)

lemma kc_api_simps [simp]:
  "api_client_heartbeat (kc_api W) = kc_client_heartbeat"
  "api_new_session (kc_api W) = kc_new_session W"
  "api_register_mcp_workspace (kc_api W) = kc_register_mcp_workspace W"
  "api_server_status (kc_api W) = kc_server_status W"
  "api_set_server_configuration (kc_api W) = kc_set_server_configuration W"
  "api_shutdown_server (kc_api W) = kc_shutdown_server W"
  "api_adopt_session (kc_api W) = kc_adopt_session W"
  "api_channels_upgrade (kc_api W) = kc_channels_upgrade W"
  "api_connection_info (kc_api W) = kc_connection_info W"
  "api_delete_session (kc_api W) = kc_delete_session"
  "api_deregister_mcp_workspace (kc_api W) = kc_deregister_mcp_workspace"
  "api_execute_code (kc_api W) = kc_execute_code W"
  "api_get_session_history (kc_api W) = kc_get_session_history"
  "api_interrupt_session (kc_api W) = kc_interrupt_session W"
  "api_kill_session (kc_api W) = kc_kill_session W"
  "api_mcp_workspace_channel (kc_api W) = kc_mcp_workspace_channel"
  "api_restart_session (kc_api W) = kc_restart_session W"
  "api_start_session (kc_api W) = kc_start_session W"
  by (simp_all add: kc_api_def)

text \<open>
  Every operation that needs no other process to answer is the same through the client as on the server, with the
  credentials left out: it is replied, with the response of the handler, and has its effect. It does not matter
  which session or window it names, as long as the name survives the way.
\<close>

lemma client_controls_server_aux:
  assumes "api_transport L" and "base_ok host_name port" and "visible (cx_span_id cx)"
    and "C = kc_client L host_name port closed W"
  shows "heartbeat_ok hb \<Longrightarrow> api_client_heartbeat C hb cx sv = kc_client_heartbeat hb (anonymous cx) sv"
    and "new_session_ok m \<Longrightarrow> api_new_session C m cx sv = kc_new_session W m (anonymous cx) sv"
    and "server_configuration_ok c \<Longrightarrow> api_set_server_configuration C c cx sv = kc_set_server_configuration W c (anonymous cx) sv"
    and "api_shutdown_server C cx sv = kc_shutdown_server W (anonymous cx) sv"
    and "id_ok L i \<Longrightarrow> api_channels_upgrade C i cx sv = kc_channels_upgrade W i (anonymous cx) sv"
    and "id_ok L i \<Longrightarrow> api_delete_session C i cx sv = kc_delete_session i (anonymous cx) sv"
    and "id_ok L i \<Longrightarrow> api_deregister_mcp_workspace C i cx sv = kc_deregister_mcp_workspace i (anonymous cx) sv"
    and "id_ok L i \<Longrightarrow> api_kill_session C i cx sv = kc_kill_session W i (anonymous cx) sv"
    and "id_ok L i \<Longrightarrow> api_mcp_workspace_channel C i cx sv = kc_mcp_workspace_channel i (anonymous cx) sv"
  using assms by (simp_all add: kc_client_def api_client_def remote_settled all_settled)

text \<open>A request without credentials that the server accepts is refused by every guarded operation.\<close>

lemma refused_locally:
  "\<not> validate_token sv (cx_auth cx) \<Longrightarrow> api_new_session (kc_api W) m cx sv = (Some (Inr NewSession_Unauthorized), sv)"
  "\<not> validate_token sv (cx_auth cx) \<Longrightarrow> api_register_mcp_workspace (kc_api W) r cx sv = (Some (Inr RegisterMcpWorkspace_Unauthorized), sv)"
  "\<not> validate_token sv (cx_auth cx) \<Longrightarrow> api_shutdown_server (kc_api W) cx sv = (Some (Inr ShutdownServer_Unauthorized), sv)"
  "\<not> validate_token sv (cx_auth cx) \<Longrightarrow> api_adopt_session (kc_api W) i info cx sv = (Some (Inr AdoptSession_Unauthorized), sv)"
  "\<not> validate_token sv (cx_auth cx) \<Longrightarrow> api_channels_upgrade (kc_api W) i cx sv = (Some (Inr ChannelsUpgrade_Unauthorized), sv)"
  "\<not> validate_token sv (cx_auth cx) \<Longrightarrow> api_connection_info (kc_api W) i cx sv = (Some (Inr ConnectionInfo_Unauthorized), sv)"
  "\<not> validate_token sv (cx_auth cx) \<Longrightarrow> api_delete_session (kc_api W) i cx sv = (Some (Inr DeleteSession_Unauthorized), sv)"
  "\<not> validate_token sv (cx_auth cx) \<Longrightarrow> api_deregister_mcp_workspace (kc_api W) i cx sv = (Some (Inr DeregisterMcpWorkspace_Unauthorized), sv)"
  "\<not> validate_token sv (cx_auth cx) \<Longrightarrow> api_execute_code (kc_api W) i q cx sv = (Some (Inr ExecuteCode_Unauthorized), sv)"
  "\<not> validate_token sv (cx_auth cx) \<Longrightarrow> api_get_session_history (kc_api W) i cx sv = (Some (Inr GetSessionHistory_Unauthorized), sv)"
  "\<not> validate_token sv (cx_auth cx) \<Longrightarrow> api_interrupt_session (kc_api W) i cx sv = (Some (Inr InterruptSession_Unauthorized), sv)"
  "\<not> validate_token sv (cx_auth cx) \<Longrightarrow> api_kill_session (kc_api W) i cx sv = (Some (Inr KillSession_Unauthorized), sv)"
  "\<not> validate_token sv (cx_auth cx) \<Longrightarrow> api_mcp_workspace_channel (kc_api W) i cx sv = (Some (Inr McpWorkspaceChannel_Unauthorized), sv)"
  "\<not> validate_token sv (cx_auth cx) \<Longrightarrow> api_restart_session (kc_api W) i body cx sv = (Some (Inr RestartSession_Unauthorized), sv)"
  "\<not> validate_token sv (cx_auth cx) \<Longrightarrow> api_start_session (kc_api W) i cx sv = (Some (Inr StartSession_Unauthorized), sv)"
  by (simp_all add: kc_new_session_def kc_register_mcp_workspace_def kc_shutdown_server_def kc_adopt_session_def
      kc_channels_upgrade_def kc_connection_info_def kc_delete_session_def kc_deregister_mcp_workspace_def kc_execute_code_def
      kc_get_session_history_def kc_interrupt_session_def kc_kill_session_def kc_mcp_workspace_channel_def
      kc_restart_session_def kc_start_session_def replied_def waited_def handle_new_session_def refuse_session_def
      register_mcp_workspace_def shutdown_server_def adopt_session_def channels_upgrade_def handle_connection_info_def
      delete_session_def deregister_mcp_workspace_def handle_execute_code_def get_session_history_def interrupt_session_def
      kill_session_def restart_session_def start_session_def with_session_def)

section \<open>One template for a path\<close>

fun apart :: "string option list \<Rightarrow> string option list \<Rightarrow> bool" where
  "apart [] [] \<longleftrightarrow> False"
| "apart (Some x # ts) (Some y # us) \<longleftrightarrow> x \<noteq> y \<or> apart ts us"
| "apart (_ # ts) (_ # us) \<longleftrightarrow> apart ts us"
| "apart _ _ \<longleftrightarrow> True"

lemma fits_parts:
  "fits [] xs \<longleftrightarrow> xs = []"
  "fits (Some s # ts) xs \<longleftrightarrow> (\<exists>ys. xs = s # ys \<and> fits ts ys)"
  "fits (None # ts) xs \<longleftrightarrow> (\<exists>x ys. xs = x # ys \<and> plain x \<and> fits ts ys)"
  "fits (p # ts) (x # ys) \<Longrightarrow> fits ts ys"
  by (cases xs; auto)+ (cases p; auto)

lemma apart_fits: "apart t u \<Longrightarrow> \<not> (fits t segs \<and> fits u segs)"
  by (induction t u arbitrary: segs rule: apart.induct) (auto simp: fits_parts(1-3) dest: fits_parts(4))

lemma templates_apart: "sorted_wrt apart TEMPLATES"
  unfolding TEMPLATES_eq by code_simp

lemma one_of_apart:
  assumes "sorted_wrt R xs" and "\<And>x y. R x y \<Longrightarrow> \<not> (P x \<and> P y)"
  shows "length (filter P xs) \<le> 1"
  using assms(1)
proof (induction xs)
  case (Cons x xs)
  then show ?case
    using assms(2) by (cases "P x") (auto simp: filter_empty_conv)
qed simp

lemma table_complete:
  "distinct (map (\<lambda>(m, t, _). (m, t)) API_TABLE)" "set (map (\<lambda>(_, t, _). t) API_TABLE) = set TEMPLATES"
  unfolding TEMPLATES_eq API_TABLE_def by code_simp+

section \<open>What a response of the router says\<close>

text \<open>
  A response is the router's own, without headers, and then nothing ran; or it is an operation's, and then it
  carries the span of the request.
\<close>

definition accounted :: "api_context \<Rightarrow> 's \<Rightarrow> 's served \<Rightarrow> bool" where
  "accounted cx s reply \<longleftrightarrow>
     (case reply of
        (None, _) \<Rightarrow> True
      | (Some rsp, s') \<Rightarrow>
          hx_headers rsp = [] \<and> hx_status rsp \<in> {400, 404, 405} \<and> s' = s \<or>
          (\<exists>hs. hx_headers rsp = (''x-span-id'', cx_span_id cx) # hs))"

lemma accounted_respond: "accounted cx s (respond L cx unused wire answer)"
  by (auto simp: accounted_def respond_def Let_def split: option.splits prod.splits sum.splits)

lemma accounted_bad: "accounted cx s (Some (bad_request message), s)"
  by (simp add: accounted_def bad_request_def)

lemma accounted_path: "(\<And>i. accounted cx s (k i)) \<Longrightarrow> accounted cx s (with_path_param L pattern path s k)"
  by (auto simp: with_path_param_def accounted_bad split: option.splits) (simp add: accounted_def)

lemma accounted_required: "(\<And>u x. accounted cx s (k u x)) \<Longrightarrow> accounted cx s (with_required_body L name de body s k)"
  by (auto simp: with_required_body_def accounted_bad split: option.splits sum.splits)

lemma accounted_optional: "(\<And>u x. accounted cx s (k u x)) \<Longrightarrow> accounted cx s (with_optional_body L name de body s k)"
  by (auto simp: with_optional_body_def accounted_bad split: option.splits sum.splits)

lemma serve_accounted: "accounted cx s (serve_operation oper L a cx rq s)"
  by (cases oper)
    (simp_all add: accounted_respond accounted_path accounted_required accounted_optional
      serve_client_heartbeat_def serve_get_server_configuration_def serve_list_sessions_def serve_new_session_def
      serve_register_mcp_workspace_def serve_server_status_def serve_set_server_configuration_def
      serve_shutdown_server_def serve_adopt_session_def serve_channels_upgrade_def serve_connection_info_def
      serve_delete_session_def serve_deregister_mcp_workspace_def serve_execute_code_def serve_get_session_def
      serve_get_session_history_def serve_interrupt_session_def serve_kill_session_def
      serve_mcp_workspace_channel_def serve_restart_session_def serve_start_session_def)

lemma router_accounted: "accounted cx s (service_run L a cx rq s)"
  by (simp add: service_run_operation serve_accounted split: option.split)
    (simp add: accounted_def method_not_allowed_def route_not_found_def)

section \<open>Identifiers that do not survive the way\<close>

text \<open>Only the URI that the library reads matters of the text of a call.\<close>

lemma same_uri: "al_uri L u = al_uri L v \<Longrightarrow> client_call L m u body dec net cx s = client_call L m v body dec net cx s"
  by (simp add: client_call_def)

lemma call_state: "snd (client_call L m u body dec net cx s) = snd (client_call L m u body dec' net cx s)"
  by (simp add: client_call_def Let_def split: sum.splits prod.splits)

lemma unreserved_literals:
  "list_all (\<lambda>c. \<not> CONTROLS c \<and> (of_char c :: nat) < 128) ''-._~!$&()*+,;=:@%/''"
  "\<not> CONTROLS (CHR 0x27) \<and> (of_char (CHR 0x27) :: nat) < 128"
  "\<not> pchar (CHR '' '')" "\<not> pchar (CHR 0x22)" "\<not> pchar (CHR ''<'')" "\<not> pchar (CHR ''>'')" "\<not> pchar (CHR 0x60)" "\<not> pchar (CHR ''|'')"
  by code_simp+

lemma pchar_kept:
  assumes "pchar c"
  shows "\<not> ID_ENCODE_SET c \<and> (of_char c :: nat) < 128"
proof -
  have "\<not> CONTROLS c \<and> (of_char c :: nat) < 128"
  proof (cases "is_alnum c")
    case True
    then show ?thesis
      by (auto simp: is_alnum_def is_digit_def is_upper_def is_lower_def code_in_def CONTROLS_def)
  next
    case False
    then have "c = CHR 0x27 \<or> c \<in> set ''-._~!$&()*+,;=:@%/''"
      using assms unfolding pchar_def by blast
    then show ?thesis
      using unreserved_literals(1,2) unfolding list_all_iff by blast
  qed
  moreover have "c \<notin> {CHR '' '', CHR 0x22, CHR ''<'', CHR ''>'', CHR 0x60}" "c \<noteq> CHR ''|''"
    using assms unreserved_literals(3-8) by blast+
  ultimately show ?thesis
    unfolding ID_ENCODE_SET_def FRAGMENT_ENCODE_SET_def by blast
qed

lemma cut_kept: "list_all pchar p \<Longrightarrow> cut_path (p @ CHR ''?'' # q) = p"
  unfolding cut_path_def
proof -
  assume "list_all pchar p"
  then have "\<forall>c \<in> set p. c \<noteq> CHR ''?'' \<and> c \<noteq> CHR ''#''"
    using pchar_not_cut unfolding list_all_iff by blast
  then show "takeWhile (\<lambda>c. c \<noteq> CHR ''?'' \<and> c \<noteq> CHR ''#'') (p @ CHR ''?'' # q) = p"
    by (simp add: takeWhile_append2)
qed

text \<open>A name with a question mark is cut there, and what follows the name in the path is lost with it.\<close>

lemma cut_uri:
  assumes "api_transport L" and "base_ok host_name port" and "id_ok L i" and "list_all pchar rest" and "list_all pchar q" and "list_all pchar after"
  shows "al_uri L (base_url host_name port @ ''/sessions/'' @ with_id L (i @ rest @ ''?'' @ q) after) =
    al_uri L (base_url host_name port @ ''/sessions/'' @ with_id L i rest)"
proof -
  let ?e = "al_percent_encode L ID_ENCODE_SET i"
  let ?p = "''sessions/'' @ ?e @ rest"
  have kept: "al_percent_encode L ID_ENCODE_SET t = t" if "list_all pchar t" for t
    using that pchar_kept by (intro api_transport.encode_kept_all [OF assms(1)]) (auto simp: list_all_iff)
  have mark: "al_percent_encode L ID_ENCODE_SET ''?'' = ''?''"
    by (rule api_transport.encode_kept_all [OF assms(1)]) code_simp
  have enc: "with_id L (i @ rest @ ''?'' @ q) after = ?e @ rest @ CHR ''?'' # q @ after"
    unfolding with_id_def api_transport.encode_append [OF assms(1)] by (simp add: kept assms mark)
  have p: "list_all pchar ?p"
    using api_transport.encoded_id(1) [OF assms(1,3)] assms(4) by (simp add: pchar_words)
  have wide: "list_all (\<lambda>c. pchar c \<or> c = CHR ''?'' \<or> c = CHR ''#'') t" if "list_all pchar t" for t
    using that by (simp add: list_all_iff)
  have all: "list_all (\<lambda>c. pchar c \<or> c = CHR ''?'' \<or> c = CHR ''#'') (?p @ CHR ''?'' # q @ after)"
    using wide [OF p] wide [OF assms(5)] wide [OF assms(6)] by (simp only: list_all_append list.pred_inject) blast
  have "cut_path (CHR ''/'' # ?p) = CHR ''/'' # ?p"
    unfolding cut_path_def takeWhile_eq_all_conv using p pchar_not_cut pchar_words(1) by (auto simp: list_all_iff)
  moreover have "cut_path (CHR ''/'' # ?p @ CHR ''?'' # q @ after) = CHR ''/'' # ?p"
    using cut_kept [of "CHR ''/'' # ?p" "q @ after"] p pchar_words(1) by simp
  ultimately have "al_uri L (base_url host_name port @ CHR ''/'' # ?p @ CHR ''?'' # q @ after) = al_uri L (base_url host_name port @ CHR ''/'' # ?p)"
    by (simp only: api_transport.uri [OF assms(1,2) all] api_transport.uri [OF assms(1,2) wide [OF p]])
  then show ?thesis
    unfolding enc unfolding with_id_def by (simp only: append_assoc append.simps)
qed

text \<open>The client's kill request, sent by a start of a name that ends it early.\<close>

lemma killed_reads_started:
  "kill_session_decode L rsp = Inr (KillSession_Killed v) \<Longrightarrow> start_session_decode L rsp = Inr (StartSession_Started v)"
  by (auto simp: kill_session_decode_def start_session_decode_def read_response_def unexpected_def
      split: if_splits sum.splits option.splits)

lemma call_decode:
  assumes "client_call L m u body dec net cx s = (Some (Inr r), s')" and "\<And>rsp. dec rsp = Inr r \<Longrightarrow> dec' rsp = Inr r'"
  shows "client_call L m u body dec' net cx s = (Some (Inr r'), s')"
  using assms by (auto simp: client_call_def Let_def split: sum.splits prod.splits if_splits)

section \<open>Properties\<close>

definition remote_world :: "string api_world" where
  "remote_world = \<lparr>aw_codec = sample_codec, aw_host = sample_host, aw_key_error = [], aw_ports = (\<lambda>_. (None, None)), aw_port_tries = 1,
     aw_config_error = [], aw_start_host = demo_host, aw_start_run = demo_run demo_shaken, aw_restart_id = ''r'', aw_exited = id,
     aw_show_json = (\<lambda>_. []), aw_execute_run = demo_execution, aw_meanwhile = id, aw_received = Inl ''closed'',
     aw_bind = Some, aw_suffixes = [''a''], aw_fresh_token = ''t'', aw_listener_error = [], aw_lost = id\<rparr>"

definition demo_context :: api_context where
  "demo_context = \<lparr>cx_span_id = ''span'', cx_auth = Some (Bearer ''secret'')\<rparr>"

definition demo_client :: "string server api" where
  "demo_client = kc_client text_lib ''localhost'' (Some 8182) ''closed'' remote_world"

lemma demo_base: "base_ok ''localhost'' (Some 8182)"
proof -
  have "list_all (\<lambda>c. is_alnum c \<or> c = CHR ''.'' \<or> c = CHR ''-'') ''localhost''"
    by code_simp
  then show ?thesis
    unfolding base_ok_def by (simp only: option.pred_inject) simp
qed

lemma demo_span: "visible (cx_span_id demo_context)"
  by code_simp

lemma demo_id: "id_ok text_lib ''s''"
proof -
  have "ascii ''s''" "list_all name_char ''s''"
    by code_simp+
  then show ?thesis
    by (simp only: id_ok_def text_lib_def api_lib.simps simp_thms)
qed

lemmas demo_way = sample.api_transport_axioms demo_base demo_span







text \<open>
  C18. The router is the table of the API: a request runs the operation whose method and template fit its path
  cut at the slashes, and the identifier of the operation in the logs is that operation's. At most one template
  fits a path, so the order of the arms does not matter. A path no template fits is not found, and a path that fits
  under another method only is refused; neither changes anything.
\<close>

theorem routes_by_table:
  "service_run L a cx rq s =
     (case operation_of (hc_method rq) (segments (hc_path rq)) of
        Some oper \<Rightarrow> serve_operation oper L a cx rq s
      | None \<Rightarrow> (Some (if known_path (segments (hc_path rq)) then method_not_allowed else route_not_found), s)) \<and>
   parse_operation_id (hc_method rq) (hc_path rq) = map_option operation_id (operation_of (hc_method rq) (segments (hc_path rq))) \<and>
   length (filter (\<lambda>t. fits t (segments (hc_path rq))) TEMPLATES) \<le> 1 \<and>
   distinct (map (\<lambda>(m, t, _). (m, t)) API_TABLE) \<and> set (map (\<lambda>(_, t, _). t) API_TABLE) = set TEMPLATES"
  by (intro conjI service_run_operation parse_operation_id_operation one_of_apart [OF templates_apart] apart_fits table_complete)

text \<open>
  C19. A response says whether anything ran: one without headers is the router's own refusal, with the status
  400, 404 or 405, and the state is as it was; every other one carries the span of the request as its first header.
\<close>

theorem router_refusals_change_nothing:
  "case serve L a rq s of
     (None, _) \<Rightarrow> True
   | (Some rsp, s') \<Rightarrow>
       hx_headers rsp = [] \<and> hx_status rsp \<in> {400, 404, 405} \<and> s' = s \<or>
       (\<exists>hs. hx_headers rsp = (''x-span-id'', cx_span_id (add_context L rq)) # hs)"
  using router_accounted [of "add_context L rq" s L a rq] by (simp add: accounted_def serve_def)

text \<open>
  The characters that end a path are not escaped in a name, so a call may reach another session or another
  operation than it names: deleting \<open>i?q\<close> deletes \<open>i\<close>, and starting \<open>i/kill?q\<close> kills \<open>i\<close>, and is reported
  as started.
\<close>

theorem names_reach_other_operations:
  assumes "api_transport L" and "base_ok host_name port" and "visible (cx_span_id cx)" and "id_ok L i" and "list_all pchar q"
    and "C = api_client L (base_url host_name port) (direct L closed a)"
  shows "api_delete_session C (i @ ''?'' @ q) cx s = api_delete_session C i cx s \<and>
    (\<forall>v s'. api_kill_session a i (anonymous cx) s = (Some (Inr (KillSession_Killed v)), s') \<and> value_ok v \<longrightarrow>
       api_start_session C (i @ ''/kill?'' @ q) cx s = (Some (Inr (StartSession_Started v)), s'))"
proof -
  note uri = cut_uri [OF assms(1,2,4) _ assms(5)]
  have "api_delete_session C (i @ ''?'' @ q) cx s = api_delete_session C i cx s"
    using same_uri [OF uri [of "[]" "[]"]] by (simp add: assms(6) api_client_def client_delete_session_def)
  moreover have "api_start_session C (i @ ''/kill?'' @ q) cx s = (Some (Inr (StartSession_Started v)), s')"
    if "api_kill_session a i (anonymous cx) s = (Some (Inr (KillSession_Killed v)), s')" and "value_ok v" for v s'
  proof -
    have "client_kill_session L (base_url host_name port) (direct L closed a) i cx s = (Some (Inr (KillSession_Killed v)), s')"
      using assms that by (simp add: remote_settled)
    then have called: "client_call L ''POST'' (base_url host_name port @ ''/sessions/'' @ with_id L i ''/kill'') None (start_session_decode L)
        (direct L closed a) cx s = (Some (Inr (StartSession_Started v)), s')"
      unfolding client_kill_session_def by (rule call_decode) (rule killed_reads_started)
    have early: "al_uri L (base_url host_name port @ ''/sessions/'' @ with_id L (i @ ''/kill'' @ ''?'' @ q) ''/start'') =
        al_uri L (base_url host_name port @ ''/sessions/'' @ with_id L i ''/kill'')"
      by (rule uri) (simp_all add: pchar_words)
    show ?thesis
      using called by (simp add: assms(6) api_client_def client_start_session_def same_uri [OF early, simplified])
  qed
  ultimately show ?thesis
    by blast
qed

theorem names_reach_other_operations_witness:
  "\<exists>sv. kill_session sample_host None ''s'' (demo_server (sample_state\<lparr>ks_process_id := Some 42\<rparr>)) = (Killed, sv) \<and>
     api_start_session demo_client ''s/kill?'' demo_context (demo_server (sample_state\<lparr>ks_process_id := Some 42\<rparr>)) =
       (Some (Inr (StartSession_Started JNull)), sv)"
proof -
  let ?sv = "demo_server (sample_state\<lparr>ks_process_id := Some 42\<rparr>)"
  obtain sv where killed: "kill_session sample_host None ''s'' ?sv = (Killed, sv)"
    by (simp add: kill_session_def validate_token_def demo_server_def find_session_def session_id_def kn_state_def demo_connection_def
        sample_connection_def sample_state_def state_new_def sample_host_def Let_def)
  then have "api_kill_session (kc_api remote_world) ''s'' (anonymous demo_context) ?sv = (Some (Inr (KillSession_Killed JNull)), sv)"
    by (simp add: kc_kill_session_def remote_world_def anonymous_def replied_def)
  moreover have "demo_client = api_client text_lib (base_url ''localhost'' (Some 8182)) (direct text_lib ''closed'' (kc_api remote_world))"
    by (simp add: demo_client_def kc_client_def)
  moreover have "list_all pchar []"
    by simp
  ultimately have "api_start_session demo_client (''s'' @ ''/kill?'' @ []) demo_context ?sv = (Some (Inr (StartSession_Started JNull)), sv)"
    using names_reach_other_operations [OF demo_way demo_id] by (metis null_ok)
  then show ?thesis
    using killed by auto
qed



text \<open>
  A request whose body has a field the model does not know runs its operation and then fails, if the name of the
  field cannot stand in a header: the warning that names it stops the request, and the caller gets no response.
\<close>

theorem unknown_field_loses_response:
  assumes "hc_method rq = ''PUT''" and "hc_path rq = ''/sessions''" and "hc_body rq = Inr b"
    and "read_body L ''NewSession'' new_session_de b = Inr (Some m)" and "al_ignored L ''NewSession'' b = unused" and "unused \<noteq> []"
    and "\<not> al_header_ok L (warning_text L unused)"
  shows "serve L a rq s = (None, snd (api_new_session a m (add_context L rq) s))"
  using assms
  by (simp add: serve_def service_run_operation operation_of_unfold serve_new_session_def with_required_body_def respond_def
      split: prod.split option.split)

text \<open>The base of a client's URLs is the one it was made with.\<close>

lemma http_lower: "to_lower (CHR ''h'') = CHR ''h''" "to_lower (CHR ''t'') = CHR ''t''" "to_lower (CHR ''p'') = CHR ''p''"
  by code_simp+

lemma base_kept:
  assumes "api_transport L" and "base_ok host_name port"
  shows "try_new_http L (base_url host_name port) = Inr (base_url host_name port)"
    and "try_new L (base_url host_name port) = Inr (base_url host_name port)"
  using api_transport.uri_base [OF assms] http_lower
  by (auto simp: try_new_http_def try_new_def try_new_with_connector_def into_base_path_def base_url_def trim_end_def split: option.splits)

end
