(* ===== verification/KC_Cli.thy ===== *)
theory KC_Cli
  imports KC_Remote
begin

text \<open>
  The command line client (\<open>kcclient/src/main.rs\<close>): its commands, the session a command falls back on, what it
  sends over the API and over a WebSocket, and what it prints. The trait \<open>ApiNoContext\<close> with its wrapper, through
  which it calls the API, is that of the generated crate (\<open>lib.rs\<close>).

  A run is the list of what it printed, sent and closed, whether it panicked, and the state of the other
  side. What the model does not know of is the record \<open>cli_lib\<close>: the text of JSON and of debug output, the
  clock, the kernel specifications on disk, and the WebSockets that the server opens, each with the frames that
  come out of it.
\<close>

section \<open>A client with its context\<close>

record 's api_no_context =
  nc_context :: api_context
  nc_client_heartbeat :: "heartbeat_model \<Rightarrow> 's \<Rightarrow> (client_heartbeat_response, 's) answer"
  nc_get_server_configuration :: "'s \<Rightarrow> (get_server_configuration_response, 's) answer"
  nc_list_sessions :: "'s \<Rightarrow> (list_sessions_response, 's) answer"
  nc_new_session :: "new_session \<Rightarrow> 's \<Rightarrow> (new_session_response, 's) answer"
  nc_register_mcp_workspace :: "mcp_registration \<Rightarrow> 's \<Rightarrow> (register_mcp_workspace_response, 's) answer"
  nc_server_status :: "'s \<Rightarrow> (server_status_response, 's) answer"
  nc_set_server_configuration :: "server_configuration \<Rightarrow> 's \<Rightarrow> (set_server_configuration_response, 's) answer"
  nc_shutdown_server :: "'s \<Rightarrow> (shutdown_server_response, 's) answer"
  nc_adopt_session :: "string \<Rightarrow> connection_info \<Rightarrow> 's \<Rightarrow> (adopt_session_response, 's) answer"
  nc_channels_upgrade :: "string \<Rightarrow> 's \<Rightarrow> (channels_upgrade_response, 's) answer"
  nc_connection_info :: "string \<Rightarrow> 's \<Rightarrow> (connection_info_response, 's) answer"
  nc_delete_session :: "string \<Rightarrow> 's \<Rightarrow> (delete_session_response, 's) answer"
  nc_deregister_mcp_workspace :: "string \<Rightarrow> 's \<Rightarrow> (deregister_mcp_workspace_response, 's) answer"
  nc_execute_code :: "string \<Rightarrow> execute_request \<Rightarrow> 's \<Rightarrow> (execute_code_response, 's) answer"
  nc_get_session :: "string \<Rightarrow> 's \<Rightarrow> (get_session_response, 's) answer"
  nc_get_session_history :: "string \<Rightarrow> 's \<Rightarrow> (get_session_history_response, 's) answer"
  nc_interrupt_session :: "string \<Rightarrow> 's \<Rightarrow> (interrupt_session_response, 's) answer"
  nc_kill_session :: "string \<Rightarrow> 's \<Rightarrow> (kill_session_response, 's) answer"
  nc_mcp_workspace_channel :: "string \<Rightarrow> 's \<Rightarrow> (mcp_workspace_channel_response, 's) answer"
  nc_restart_session :: "string \<Rightarrow> restart_session_model option \<Rightarrow> 's \<Rightarrow> (restart_session_response, 's) answer"
  nc_start_session :: "string \<Rightarrow> 's \<Rightarrow> (start_session_response, 's) answer"

definition with_context :: "'s api \<Rightarrow> api_context \<Rightarrow> 's api_no_context" where
  "with_context a cx = \<lparr>
     nc_context = cx,
     nc_client_heartbeat = (\<lambda>x. api_client_heartbeat a x cx),
     nc_get_server_configuration = api_get_server_configuration a cx,
     nc_list_sessions = api_list_sessions a cx,
     nc_new_session = (\<lambda>x. api_new_session a x cx),
     nc_register_mcp_workspace = (\<lambda>x. api_register_mcp_workspace a x cx),
     nc_server_status = api_server_status a cx,
     nc_set_server_configuration = (\<lambda>x. api_set_server_configuration a x cx),
     nc_shutdown_server = api_shutdown_server a cx,
     nc_adopt_session = (\<lambda>x y. api_adopt_session a x y cx),
     nc_channels_upgrade = (\<lambda>x. api_channels_upgrade a x cx),
     nc_connection_info = (\<lambda>x. api_connection_info a x cx),
     nc_delete_session = (\<lambda>x. api_delete_session a x cx),
     nc_deregister_mcp_workspace = (\<lambda>x. api_deregister_mcp_workspace a x cx),
     nc_execute_code = (\<lambda>x y. api_execute_code a x y cx),
     nc_get_session = (\<lambda>x. api_get_session a x cx),
     nc_get_session_history = (\<lambda>x. api_get_session_history a x cx),
     nc_interrupt_session = (\<lambda>x. api_interrupt_session a x cx),
     nc_kill_session = (\<lambda>x. api_kill_session a x cx),
     nc_mcp_workspace_channel = (\<lambda>x. api_mcp_workspace_channel a x cx),
     nc_restart_session = (\<lambda>x y. api_restart_session a x y cx),
     nc_start_session = (\<lambda>x. api_start_session a x cx)\<rparr>"

section \<open>Commands\<close>

datatype command =
    ListSessions
  | Status
  | Configuration
  | Start string
  | Info "string option"
  | Execute "string option" string bool
  | Restart "string option"
  | Listen "string option"
  | Shutdown "string option"
  | Interrupt "string option"
  | Kill "string option"
  | Run "string option" string "int option"
  | Delete string
  | IdleTimeoutHours int

text \<open>The command line: a URL, with a default, and the command.\<close>

record cli_args =
  ca_url :: string
  ca_command :: "command option"

definition DEFAULT_URL :: string where "DEFAULT_URL = ''http://localhost:8182''"

section \<open>What the client does\<close>

datatype cli_event = Print string | EPrint string | WsSent json | WsClosed

type_synonym cli_run = "cli_event list \<times> bool"

text \<open>A frame of a WebSocket is its data, or an error; the connection ends with the list.\<close>

record ws_link =
  wl_send_ok :: bool
  wl_frames :: "(string + string) list"
  wl_close_ok :: bool

record spec_file =
  sp_argv :: "string list"
  sp_display_name :: string
  sp_language :: string
  sp_env :: "(string \<times> json) list option"

record cli_lib =
  cb_pretty :: "json \<Rightarrow> string"
  cb_pretty_message :: "websocket_message \<Rightarrow> string"
  cb_debug_error :: "string \<Rightarrow> string"
  cb_debug_model :: "api_error \<Rightarrow> string"
  cb_parse :: "string \<Rightarrow> websocket_message option"
  cb_clock :: "nat \<Rightarrow> string"
  cb_authority :: "string \<Rightarrow> string option"
  cb_connect :: "string \<Rightarrow> ws_link option"
  cb_msg_id :: string
  cb_jupyter_dir :: string
  cb_kernel_spec :: "string \<Rightarrow> spec_file option"
  cb_current_dir :: string
  cb_random :: nat

definition line :: "string \<Rightarrow> cli_event" where
  "line s = Print (s @ nl)"

definition eline :: "string \<Rightarrow> cli_event" where
  "eline s = EPrint (s @ nl)"

section \<open>WebSockets\<close>

definition connect_to_session :: "cli_lib \<Rightarrow> string \<Rightarrow> string \<Rightarrow> ws_link option" where
  "connect_to_session B url i =
     (case cb_authority B url of
        None \<Rightarrow> None
      | Some authority \<Rightarrow> cb_connect B (''ws://'' @ authority @ ''/sessions/'' @ i @ ''/channels''))"

definition client_message :: "cli_lib \<Rightarrow> string \<Rightarrow> jupyter_channel \<Rightarrow> json \<Rightarrow> jupyter_message" where
  "client_message B ty ch body =
     \<lparr>header = \<lparr>msg_id = cb_msg_id B, msg_type = ty\<rparr>, parent_header = None, channel = ch, content = body,
      metadata = JObject [], buffers = []\<rparr>"

text \<open>Writing to a connection, and then going on.\<close>

definition ws_write :: "ws_link \<Rightarrow> jupyter_message \<Rightarrow> cli_run \<Rightarrow> cli_run" where
  "ws_write w m rest = (if wl_send_ok w then (WsSent (message_json m) # fst rest, snd rest) else ([], True))"

definition ws_close :: "ws_link \<Rightarrow> cli_run" where
  "ws_close w = (if wl_close_ok w then ([WsClosed], False) else ([], True))"

definition followed_by :: "cli_run \<Rightarrow> cli_run \<Rightarrow> cli_run" where
  "followed_by r q = (if snd r then r else (fst r @ fst q, snd q))"

definition request_shutdown :: "cli_lib \<Rightarrow> ws_link \<Rightarrow> cli_run" where
  "request_shutdown B w =
     ws_write w (client_message B ''shutdown_request'' Control (JObject [(''restart'', JBool False)])) ([], False)"

fun cli_listen :: "cli_lib \<Rightarrow> nat \<Rightarrow> (string + string) list \<Rightarrow> cli_run" where
  "cli_listen B n [] = ([], False)"
| "cli_listen B n (Inl e # fs) = ([], True)"
| "cli_listen B n (Inr d # fs) =
     (case cb_parse B d of
        None \<Rightarrow> ([], True)
      | Some m \<Rightarrow> followed_by ([line (''['' @ cb_clock B n @ ''] '' @ cb_pretty_message B m)], False) (cli_listen B (n + 1) fs))"

fun kernel_info_loop :: "cli_lib \<Rightarrow> (string + string) list \<Rightarrow> cli_run" where
  "kernel_info_loop B [] = ([], False)"
| "kernel_info_loop B (Inl e # fs) = ([], True)"
| "kernel_info_loop B (Inr d # fs) =
     (case cb_parse B d of
        None \<Rightarrow> ([], True)
      | Some (Jupyter m) \<Rightarrow>
          if msg_type (header m) = ''kernel_info_reply'' then ([line (cb_pretty B (content m))], False)
          else kernel_info_loop B fs
      | Some (Kernel _) \<Rightarrow> kernel_info_loop B fs)"

definition cli_kernel_info :: "cli_lib \<Rightarrow> ws_link \<Rightarrow> cli_run" where
  "cli_kernel_info B w =
     ws_write w (client_message B ''kernel_info_request'' Shell (JObject []))
       (followed_by (kernel_info_loop B (wl_frames w)) (ws_close w))"

fun channel_debug :: "jupyter_channel \<Rightarrow> string" where
  "channel_debug jupyter_channel.Shell = ''Shell''"
| "channel_debug Control = ''Control''"
| "channel_debug Stdin = ''Stdin''"
| "channel_debug IOPub = ''IOPub''"
| "channel_debug jupyter_channel.Heartbeat = ''Heartbeat''"
| "channel_debug Registration = ''Registration''"

definition show_message :: "cli_lib \<Rightarrow> jupyter_message \<Rightarrow> cli_event" where
  "show_message B m =
     line (''--- '' @ channel_debug (channel m) @ '': '' @ msg_type (header m) @ '' ---'' @ nl @ cb_pretty B (content m))"

definition answers_to :: "string \<Rightarrow> jupyter_message \<Rightarrow> bool" where
  "answers_to i m \<longleftrightarrow> (case parent_header m of Some p \<Rightarrow> msg_id p = i | None \<Rightarrow> False)"

definition says_done :: "jupyter_message \<Rightarrow> bool" where
  "says_done m \<longleftrightarrow> msg_type (header m) = ''status'' \<and> json_index (content m) ''execution_state'' = JString ''idle''"

fun execute_loop :: "cli_lib \<Rightarrow> string \<Rightarrow> (string + string) list \<Rightarrow> cli_run" where
  "execute_loop B i [] = ([], False)"
| "execute_loop B i (Inl e # fs) = ([], True)"
| "execute_loop B i (Inr d # fs) =
     (case cb_parse B d of
        None \<Rightarrow> ([], True)
      | Some (Jupyter m) \<Rightarrow>
          if answers_to i m then
            (if says_done m then ([show_message B m], False)
             else followed_by ([show_message B m], False) (execute_loop B i fs))
          else execute_loop B i fs
      | Some (Kernel _) \<Rightarrow> execute_loop B i fs)"

definition execute_request_message :: "cli_lib \<Rightarrow> string \<Rightarrow> jupyter_message" where
  "execute_request_message B code =
     client_message B ''execute_request'' Shell (JObject
       [(''allow_stdin'', JBool True), (''code'', JString code), (''silent'', JBool False),
        (''stop_on_error'', JBool True), (''store_history'', JBool True), (''user_expressions'', JObject [])])"

definition ws_execute_request :: "cli_lib \<Rightarrow> ws_link \<Rightarrow> string \<Rightarrow> bool \<Rightarrow> cli_run" where
  "ws_execute_request B w code wait =
     ws_write w (execute_request_message B code)
       (if \<not> wait then ([], False)
        else followed_by (execute_loop B (cb_msg_id B) (wl_frames w)) (ws_close w))"

section \<open>The session of a command\<close>

text \<open>The session that was named, or else the first one the server lists; \<open>Inl\<close> is the message to give up with.\<close>

definition cli_session ::
  "'s api_no_context \<Rightarrow> string option \<Rightarrow> string \<Rightarrow> 's \<Rightarrow> (string + string) option \<times> 's" where
  "cli_session C named what s =
     (case named of
        Some i \<Rightarrow> (Some (Inr i), s)
      | None \<Rightarrow>
          (case nc_list_sessions C s of
             (None, s) \<Rightarrow> (None, s)
           | (Some (Inr (ListSessions_ListOfActiveSessions l)), s) \<Rightarrow>
               (case sl_sessions l of
                  x # _ \<Rightarrow> (Some (Inr (as_session_id x)), s)
                | [] \<Rightarrow> (Some (Inl (''No sessions available to '' @ what)), s))
           | (Some (Inl _), s) \<Rightarrow> (Some (Inl ''Failed to list sessions''), s)))"

definition with_resolved ::
  "'s api_no_context \<Rightarrow> string option \<Rightarrow> string \<Rightarrow> (string \<Rightarrow> 's \<Rightarrow> cli_run \<times> 's) \<Rightarrow> 's \<Rightarrow> cli_run \<times> 's" where
  "with_resolved C named what go s =
     (case cli_session C named what s of
        (None, s) \<Rightarrow> (([], True), s)
      | (Some (Inl message), s) \<Rightarrow> (([eline message], False), s)
      | (Some (Inr i), s) \<Rightarrow> go i s)"

text \<open>A call of the API, whose answer is \<open>None\<close> when it does not return.\<close>

definition on_answer :: "('r, 's) answer \<Rightarrow> (string + 'r \<Rightarrow> cli_run) \<Rightarrow> cli_run \<times> 's" where
  "on_answer answer go = (case answer of (None, s) \<Rightarrow> (([], True), s) | (Some x, s) \<Rightarrow> (go x, s))"

section \<open>Showing results\<close>

definition print_data :: "string \<Rightarrow> (string \<times> string) list \<Rightarrow> cli_event list" where
  "print_data what kvs = concat (map (\<lambda>(mime, body). [line (''--- '' @ what @ '' ('' @ mime @ '') ---''), line body]) kvs)"

definition print_error :: "string \<Rightarrow> string option \<Rightarrow> string option \<Rightarrow> string list option \<Rightarrow> cli_event list" where
  "print_error before name message trace =
     (case name of
        Some n \<Rightarrow> EPrint (before @ n) # (case message of Some m \<Rightarrow> [EPrint ('': '' @ m)] | None \<Rightarrow> []) @ [EPrint nl]
      | None \<Rightarrow> []) @
     (case trace of Some ls \<Rightarrow> map eline ls | None \<Rightarrow> [])"

definition print_output :: "execute_output \<Rightarrow> cli_event list" where
  "print_output x =
     (case out_type x of
        StreamOutput \<Rightarrow>
          (let name = (case out_stream_name x of Some n \<Rightarrow> n | None \<Rightarrow> ''stdout'');
               t = (case out_text x of Some t \<Rightarrow> t | None \<Rightarrow> [])
           in if name = ''stderr'' then [EPrint t] else [Print t])
      | DisplayDataOutput \<Rightarrow> (case out_data x of Some kvs \<Rightarrow> print_data ''display_data'' kvs | None \<Rightarrow> [])
      | ErrorOutput \<Rightarrow> print_error [] (out_error_name x) (out_error_message x) (out_error_traceback x))"

definition print_reply :: "execute_reply \<Rightarrow> cli_event list" where
  "print_reply r =
     concat (map print_output (er_output r)) @
     (case er_data r of Some kvs \<Rightarrow> print_data ''result'' kvs | None \<Rightarrow> []) @
     (if er_status r = ReplyError then print_error ''Error: '' (er_error_name r) (er_error_message r) (er_error_traceback r) else []) @
     [line (''[execution_count: '' @ show_int (sint (er_count r)) @ '', status: '' @
        (case er_status r of ReplyOk \<Rightarrow> ''Ok'' | ReplyError \<Rightarrow> ''Error'') @ '']'')]"

text \<open>The derived \<open>Serialize\<close> of the response with a session's details.\<close>

fun get_session_response_json :: "api_lib \<Rightarrow> get_session_response \<Rightarrow> json" where
  "get_session_response_json L (GetSession_SessionDetails x) = JObject [(''SessionDetails'', active_session_ser L x)]"
| "get_session_response_json L (GetSession_FailedToGetSession e) = JObject [(''FailedToGetSession'', api_error_ser e)]"
| "get_session_response_json L GetSession_SessionNotFound = JString ''SessionNotFound''"

section \<open>The commands\<close>

definition run_status :: "api_lib \<Rightarrow> cli_lib \<Rightarrow> 's api_no_context \<Rightarrow> 's \<Rightarrow> cli_run \<times> 's" where
  "run_status L B C s = on_answer (nc_server_status C s) (\<lambda>x. case x of
     Inr (ServerStatus_ServerStatusAndInformation st) \<Rightarrow> ([line (cb_pretty B (server_status_ser L st))], False)
   | _ \<Rightarrow> ([], False))"

definition run_configuration :: "cli_lib \<Rightarrow> 's api_no_context \<Rightarrow> 's \<Rightarrow> cli_run \<times> 's" where
  "run_configuration B C s = on_answer (nc_get_server_configuration C s) (\<lambda>x. case x of
     Inr (GetServerConfiguration_TheCurrentServerConfiguration c) \<Rightarrow> ([line (cb_pretty B (server_configuration_ser c))], False)
   | Inr (GetServerConfiguration_FailedToGetConfiguration e) \<Rightarrow>
       ([eline (''Failed to get server configuration: '' @ cb_pretty B (api_error_ser e))], False)
   | Inl _ \<Rightarrow> ([eline ''Failed to get server configuration''], False))"

definition run_list :: "api_lib \<Rightarrow> cli_lib \<Rightarrow> 's api_no_context \<Rightarrow> 's \<Rightarrow> cli_run \<times> 's" where
  "run_list L B C s = on_answer (nc_list_sessions C s) (\<lambda>x. case x of
     Inr (ListSessions_ListOfActiveSessions l) \<Rightarrow> ([line (cb_pretty B (session_list_ser L l))], False)
   | Inl _ \<Rightarrow> ([], False))"

text \<open>The identifier of a new session, eight hexadecimal digits of a random number of 32 bits.\<close>

definition hex8 :: "nat \<Rightarrow> string" where
  "hex8 n = map (\<lambda>k. hex_digit (n div 16 ^ k mod 16)) [7, 6, 5, 4, 3, 2, 1, 0]"

definition spec_env :: "spec_file \<Rightarrow> var_action list" where
  "spec_env spec =
     concat (map (\<lambda>(k, v). case v of JString t \<Rightarrow> [\<lparr>action = Replace, var_name = k, var_value = t\<rparr>] | _ \<Rightarrow> [])
       (case sp_env spec of Some kvs \<Rightarrow> kvs | None \<Rightarrow> []))"

text \<open>
  The session a start creates. The literal of the source leaves out the workspace of the session, which the
  model of the API has; here it is absent.
\<close>

definition spec_session :: "cli_lib \<Rightarrow> string \<Rightarrow> spec_file \<Rightarrow> new_session" where
  "spec_session B i spec =
     \<lparr>ns_session_id = i, ns_display_name = sp_display_name spec @ '' - '' @ i, ns_language = sp_language spec,
      ns_username = ''testuser'', ns_input_prompt = ''In> '', ns_continuation_prompt = ''...'', ns_argv = sp_argv spec,
      ns_session_mode = Console, ns_working_directory = cb_current_dir B, ns_notebook_uri = None, ns_env = spec_env spec,
      ns_connection_timeout = Some 30, ns_interrupt_mode = MessageMode, ns_protocol_version = Some ''5.3'',
      ns_startup_environment = EnvNone, ns_startup_environment_arg = None, ns_workspace_id = None\<rparr>"

text \<open>The new session is started whatever became of its creation.\<close>

definition run_start :: "cli_lib \<Rightarrow> 's api_no_context \<Rightarrow> string \<Rightarrow> 's \<Rightarrow> cli_run \<times> 's" where
  "run_start B C kname s =
     (let i = hex8 (cb_random B) in
      case cb_kernel_spec B (path_join (path_join (path_join (cb_jupyter_dir B) ''kernels'') kname) ''kernel.json'') of
        None \<Rightarrow> (([], True), s)
      | Some spec \<Rightarrow>
          (case on_answer (nc_new_session C (spec_session B i spec) s) (\<lambda>x. case x of
                 Inr (NewSession_TheSessionID y) \<Rightarrow> ([line (cb_pretty B (new_session_id_ser y))], False)
               | Inr (NewSession_InvalidRequest e) \<Rightarrow> ([line (cb_pretty B (api_error_ser e))], False)
               | _ \<Rightarrow> ([], False)) of
             (r, s) \<Rightarrow>
               if snd r then (r, s)
               else (case on_answer (nc_start_session C i s) (\<lambda>_. ([], False)) of (q, s) \<Rightarrow> (followed_by r q, s))))"

definition over_socket :: "cli_lib \<Rightarrow> string \<Rightarrow> string \<Rightarrow> (ws_link \<Rightarrow> cli_run) \<Rightarrow> cli_run" where
  "over_socket B url i go = (case connect_to_session B url i of None \<Rightarrow> ([], True) | Some w \<Rightarrow> go w)"

definition run_execute ::
  "cli_lib \<Rightarrow> string \<Rightarrow> 's api_no_context \<Rightarrow> string option \<Rightarrow> string \<Rightarrow> bool \<Rightarrow> 's \<Rightarrow> cli_run \<times> 's" where
  "run_execute B url C named code wait = with_resolved C named ''execute code'' (\<lambda>i s.
     (over_socket B url i (\<lambda>w. ws_execute_request B w code wait), s))"

definition run_run ::
  "cli_lib \<Rightarrow> 's api_no_context \<Rightarrow> string option \<Rightarrow> string \<Rightarrow> int option \<Rightarrow> 's \<Rightarrow> cli_run \<times> 's" where
  "run_run B C named code timeout = with_resolved C named ''execute code'' (\<lambda>i s.
     let request = \<lparr>xr_code = code, xr_silent = Some False, xr_store_history = Some True, xr_stop_on_error = Some True,
                    xr_timeout_seconds = timeout\<rparr>
     in on_answer (nc_execute_code C i request s) (\<lambda>x. case x of
          Inr (ExecuteCode_ExecutionCompleted r) \<Rightarrow> (print_reply r, False)
        | Inr (ExecuteCode_InvalidRequest e) \<Rightarrow> ([eline (''Invalid request: '' @ cb_pretty B (api_error_ser e))], False)
        | Inr ExecuteCode_Unauthorized \<Rightarrow> ([eline ''Access token is missing or invalid''], False)
        | Inr ExecuteCode_SessionNotFound \<Rightarrow> ([eline (''Session '' @ [CHR 0x27] @ i @ [CHR 0x27] @ '' not found'')], False)
        | Inr (ExecuteCode_ExecutionTimedOut e) \<Rightarrow> ([eline (''Execution timed out: '' @ cb_pretty B (api_error_ser e))], False)
        | Inl e \<Rightarrow> ([eline (''Failed to execute code: '' @ cb_debug_error B e)], False)))"

definition run_kill :: "'s api_no_context \<Rightarrow> string option \<Rightarrow> 's \<Rightarrow> cli_run \<times> 's" where
  "run_kill C named = with_resolved C named ''kill'' (\<lambda>i s. on_answer (nc_kill_session C i s) (\<lambda>_. ([], False)))"

definition run_info :: "api_lib \<Rightarrow> cli_lib \<Rightarrow> string \<Rightarrow> 's api_no_context \<Rightarrow> string option \<Rightarrow> 's \<Rightarrow> cli_run \<times> 's" where
  "run_info L B url C named = with_resolved C named ''connect to'' (\<lambda>i s.
     on_answer (nc_get_session C i s) (\<lambda>x. followed_by
       (case x of
          Inr details \<Rightarrow> ([line (cb_pretty B (get_session_response_json L details))], False)
        | Inl e \<Rightarrow> ([eline (''Failed to get session details: '' @ cb_debug_error B e)], False))
       (over_socket B url i (cli_kernel_info B))))"

definition run_shutdown :: "cli_lib \<Rightarrow> string \<Rightarrow> 's api_no_context \<Rightarrow> string option \<Rightarrow> 's \<Rightarrow> cli_run \<times> 's" where
  "run_shutdown B url C named s =
     (case named of
        Some i \<Rightarrow>
          (followed_by (over_socket B url i (request_shutdown B))
             ([line (''Shutdown requested for session '' @ i @ '' '')], False), s)
      | None \<Rightarrow> on_answer (nc_shutdown_server C s) (\<lambda>_. ([line ''Server shutdown requested''], False)))"

definition run_listen :: "cli_lib \<Rightarrow> string \<Rightarrow> 's api_no_context \<Rightarrow> string option \<Rightarrow> 's \<Rightarrow> cli_run \<times> 's" where
  "run_listen B url C named = with_resolved C named ''listen to'' (\<lambda>i s.
     (over_socket B url i (\<lambda>w.
        followed_by ([line (''Listening to session '' @ i @ '' (^C to exit)'')], False) (cli_listen B 0 (wl_frames w))), s))"

definition run_restart :: "cli_lib \<Rightarrow> 's api_no_context \<Rightarrow> string option \<Rightarrow> 's \<Rightarrow> cli_run \<times> 's" where
  "run_restart B C named = with_resolved C named ''restart'' (\<lambda>i s.
     on_answer (nc_restart_session C i (Some \<lparr>rm_working_directory = None, rm_env = None\<rparr>) s) (\<lambda>x. case x of
       Inr (RestartSession_Restarted _) \<Rightarrow> ([line (''Session '' @ i @ '' restarted'')], False)
     | Inr RestartSession_SessionNotFound \<Rightarrow> ([line (''Session '' @ i @ '' doesn'' @ [CHR 0x27] @ ''t exist'')], False)
     | Inr (RestartSession_RestartFailed e) \<Rightarrow> ([line (cb_pretty B (startup_error_ser e))], False)
     | Inr RestartSession_Unauthorized \<Rightarrow> ([line ''Access token is missing or invalid''], False)
     | Inl e \<Rightarrow> ([eline (''Failed to restart session: '' @ cb_debug_error B e)], False)))"

definition run_delete :: "cli_lib \<Rightarrow> 's api_no_context \<Rightarrow> string \<Rightarrow> 's \<Rightarrow> cli_run \<times> 's" where
  "run_delete B C i s = on_answer (nc_delete_session C i s) (\<lambda>x. case x of
     Inr (DeleteSession_SessionDeleted _) \<Rightarrow> ([line (''Session '' @ i @ '' deleted'')], False)
   | Inr DeleteSession_SessionNotFound \<Rightarrow> ([line (''Session '' @ i @ '' doesn'' @ [CHR 0x27] @ ''t exist'')], False)
   | Inr (DeleteSession_FailedToDeleteSession e) \<Rightarrow> ([line (''Failed to delete session '' @ i @ '': '' @ cb_debug_model B e)], False)
   | Inr DeleteSession_Unauthorized \<Rightarrow> ([line ''Access token is missing or invalid''], False)
   | Inl e \<Rightarrow> ([eline (''Failed to delete session: '' @ cb_debug_error B e)], False))"

definition run_idle_timeout :: "cli_lib \<Rightarrow> 's api_no_context \<Rightarrow> int \<Rightarrow> 's \<Rightarrow> cli_run \<times> 's" where
  "run_idle_timeout B C hours s =
     (let config = \<lparr>sc_idle_shutdown_hours = Some hours, sc_resource_sample_interval_ms = None, sc_resource_include_children = None,
                    sc_log_level = None\<rparr>
      in on_answer (nc_set_server_configuration C config s) (\<lambda>x. case x of
           Inr (SetServerConfiguration_ConfigurationUpdated _) \<Rightarrow> ([line (''Idle timeout hours set to '' @ show_int hours)], False)
         | Inr (SetServerConfiguration_Error e) \<Rightarrow>
             ([line (''Failed to set idle timeout hours: '' @ cb_pretty B (api_error_ser e))], False)
         | Inl e \<Rightarrow> ([eline (''Failed to set idle timeout hours: '' @ cb_debug_error B e)], False)))"

definition run_interrupt :: "cli_lib \<Rightarrow> 's api_no_context \<Rightarrow> string option \<Rightarrow> 's \<Rightarrow> cli_run \<times> 's" where
  "run_interrupt B C named = with_resolved C named ''interrupt'' (\<lambda>i s.
     on_answer (nc_interrupt_session C i s) (\<lambda>x. case x of
       Inr (InterruptSession_Interrupted _) \<Rightarrow> ([line (''Session '' @ i @ '' interrupted'')], False)
     | Inr InterruptSession_SessionNotFound \<Rightarrow> ([line (''Session '' @ i @ '' doesn'' @ [CHR 0x27] @ ''t exist'')], False)
     | Inr (InterruptSession_InterruptFailed e) \<Rightarrow> ([line (cb_pretty B (api_error_ser e))], False)
     | Inr InterruptSession_Unauthorized \<Rightarrow> ([line ''Access token is missing or invalid''], False)
     | Inl e \<Rightarrow> ([eline (''Failed to interrupt session: '' @ cb_debug_error B e)], False)))"

fun cli_command :: "api_lib \<Rightarrow> cli_lib \<Rightarrow> string \<Rightarrow> 's api_no_context \<Rightarrow> command option \<Rightarrow> 's \<Rightarrow> cli_run \<times> 's" where
  "cli_command L B url C (Some Status) s = run_status L B C s"
| "cli_command L B url C (Some Configuration) s = run_configuration B C s"
| "cli_command L B url C (Some ListSessions) s = run_list L B C s"
| "cli_command L B url C (Some (Start kname)) s = run_start B C kname s"
| "cli_command L B url C (Some (Execute i code wait)) s = run_execute B url C i code wait s"
| "cli_command L B url C (Some (Run i code timeout)) s = run_run B C i code timeout s"
| "cli_command L B url C (Some (Kill i)) s = run_kill C i s"
| "cli_command L B url C (Some (Info i)) s = run_info L B url C i s"
| "cli_command L B url C (Some (Shutdown i)) s = run_shutdown B url C i s"
| "cli_command L B url C (Some (Listen i)) s = run_listen B url C i s"
| "cli_command L B url C (Some (Restart i)) s = run_restart B C i s"
| "cli_command L B url C (Some (Delete i)) s = run_delete B C i s"
| "cli_command L B url C (Some (IdleTimeoutHours n)) s = run_idle_timeout B C n s"
| "cli_command L B url C (Some (Interrupt i)) s = run_interrupt B C i s"
| "cli_command L B url C None s = (([eline ''No command specified''], False), s)"

definition cli_main :: "api_lib \<Rightarrow> cli_lib \<Rightarrow> 's transport \<Rightarrow> string \<Rightarrow> cli_args \<Rightarrow> 's \<Rightarrow> cli_run \<times> 's" where
  "cli_main L B net span args s =
     (case try_new_http L (ca_url args) of
        Inl _ \<Rightarrow> (([], True), s)
      | Inr base \<Rightarrow>
          cli_command L B (ca_url args) (with_context (api_client L base net) \<lparr>cx_span_id = span, cx_auth = None\<rparr>)
            (ca_command args) s)"

section \<open>The client and the server\<close>

text \<open>The client of a command line whose URL is that of the server.\<close>

definition cli_client :: "api_lib \<Rightarrow> string \<Rightarrow> nat option \<Rightarrow> string \<Rightarrow> 'm api_world \<Rightarrow> string \<Rightarrow> 'm server api_no_context" where
  "cli_client L host_name port closed W span = with_context (kc_client L host_name port closed W) \<lparr>cx_span_id = span, cx_auth = None\<rparr>"

definition kc_cli ::
  "api_lib \<Rightarrow> cli_lib \<Rightarrow> string \<Rightarrow> nat option \<Rightarrow> string \<Rightarrow> 'm api_world \<Rightarrow> string \<Rightarrow> command option \<Rightarrow> 'm server \<Rightarrow> cli_run \<times> 'm server" where
  "kc_cli L B host_name port closed W span c sv =
     cli_main L B (direct L closed (kc_api W)) span \<lparr>ca_url = base_url host_name port, ca_command = c\<rparr> sv"

lemma kc_cli_command:
  assumes "api_transport L" and "base_ok host_name port"
  shows "kc_cli L B host_name port closed W span c sv =
    cli_command L B (base_url host_name port) (cli_client L host_name port closed W span) c sv"
  by (simp add: kc_cli_def cli_main_def base_kept [OF assms] cli_client_def kc_client_def)

lemma anonymous_bare [simp]: "anonymous \<lparr>cx_span_id = span, cx_auth = None\<rparr> = \<lparr>cx_span_id = span, cx_auth = None\<rparr>"
  by (simp add: anonymous_def)

lemma cli_client_simps:
  "nc_list_sessions (cli_client L host_name port closed W span) =
     api_list_sessions (kc_client L host_name port closed W) \<lparr>cx_span_id = span, cx_auth = None\<rparr>"
  "nc_kill_session (cli_client L host_name port closed W span) i =
     api_kill_session (kc_client L host_name port closed W) i \<lparr>cx_span_id = span, cx_auth = None\<rparr>"
  "nc_delete_session (cli_client L host_name port closed W span) i =
     api_delete_session (kc_client L host_name port closed W) i \<lparr>cx_span_id = span, cx_auth = None\<rparr>"
  "nc_set_server_configuration (cli_client L host_name port closed W span) c =
     api_set_server_configuration (kc_client L host_name port closed W) c \<lparr>cx_span_id = span, cx_auth = None\<rparr>"
  "nc_shutdown_server (cli_client L host_name port closed W span) =
     api_shutdown_server (kc_client L host_name port closed W) \<lparr>cx_span_id = span, cx_auth = None\<rparr>"
  by (simp_all add: cli_client_def with_context_def)

text \<open>Each command that changes the server, on a server at the other end of the line.\<close>

lemma run_delete_remote:
  assumes "api_transport L" and "base_ok host_name port" and "visible span" and "id_ok L i"
  shows "run_delete B (cli_client L host_name port closed W span) i sv =
    (([line (case fst (delete_session None i sv) of
        SessionDeleted \<Rightarrow> ''Session '' @ i @ '' deleted''
      | NoSuchSession \<Rightarrow> ''Session '' @ i @ '' doesn'' @ [CHR 0x27] @ ''t exist''
      | DeleteFailed e \<Rightarrow> ''Failed to delete session '' @ i @ '': '' @ cb_debug_model B e
      | _ \<Rightarrow> ''Access token is missing or invalid'')], False), snd (delete_session None i sv))"
  using client_controls_server_aux(6) [OF assms(1,2) _ refl assms(4), of "\<lparr>cx_span_id = span, cx_auth = None\<rparr>" closed W sv] assms(3)
  by (auto simp: run_delete_def on_answer_def cli_client_simps kc_delete_session_def replied_def delete_session_def Let_def split: option.splits)

lemma run_kill_remote:
  assumes "api_transport L" and "base_ok host_name port" and "visible span" and "id_ok L i"
  shows "run_kill (cli_client L host_name port closed W span) (Some i) sv = (([], False), snd (kill_session (aw_host W) None i sv))"
proof -
  have "settled kill_session_response_ok (kc_kill_session W i \<lparr>cx_span_id = span, cx_auth = None\<rparr> sv)"
    by (rule kill_settled)
  then show ?thesis
    using client_controls_server_aux(8) [OF assms(1,2) _ refl assms(4), of "\<lparr>cx_span_id = span, cx_auth = None\<rparr>" closed W sv] assms(3)
    by (auto simp: run_kill_def with_resolved_def cli_session_def on_answer_def cli_client_simps settled_def kc_kill_session_def replied_def)
qed

lemma run_idle_timeout_remote:
  assumes "api_transport L" and "base_ok host_name port" and "visible span" and "i32_ok hours"
    and "set_server_configuration (aw_config_error W) \<lparr>sc_idle_shutdown_hours = Some hours, sc_resource_sample_interval_ms = None,
      sc_resource_include_children = None, sc_log_level = None\<rparr> sv = (r, sv')"
  shows "run_idle_timeout B (cli_client L host_name port closed W span) hours sv =
    (([line (case r of
        ConfigurationError e \<Rightarrow> ''Failed to set idle timeout hours: '' @ cb_pretty B (api_error_ser e)
      | _ \<Rightarrow> ''Idle timeout hours set to '' @ show_int hours)], False), sv')"
proof -
  let ?c = "\<lparr>sc_idle_shutdown_hours = Some hours, sc_resource_sample_interval_ms = None,
      sc_resource_include_children = None, sc_log_level = None\<rparr>"
  have "server_configuration_ok ?c"
    using assms(4) by (simp add: server_configuration_ok_def)
  then have "api_set_server_configuration (kc_client L host_name port closed W) ?c \<lparr>cx_span_id = span, cx_auth = None\<rparr> sv =
      replied set_configuration_reply (r, sv')"
    using client_controls_server_aux(3) [OF assms(1,2) _ refl, of "\<lparr>cx_span_id = span, cx_auth = None\<rparr>" ?c closed W sv] assms(3,5)
    by (simp add: kc_set_server_configuration_def)
  moreover have "r = ConfigurationUpdated \<or> (\<exists>e. r = ConfigurationError e)"
    using assms(5) by (auto simp: set_server_configuration_def split: prod.splits sum.splits dest!: set_idle_hours_error set_interval_error)
  ultimately show ?thesis
    by (auto simp: run_idle_timeout_def on_answer_def cli_client_simps replied_def Let_def)
qed

lemma list_sessions_remote:
  assumes "api_transport L" and "base_ok host_name port" and "visible span"
    and "list_all active_session_ok (map (as_active_session (h_now (aw_host W))) (sv_sessions sv))"
  shows "api_list_sessions (kc_client L host_name port closed W) \<lparr>cx_span_id = span, cx_auth = None\<rparr> sv =
    (Some (Inr (ListSessions_ListOfActiveSessions
      \<lparr>sl_total = as_i32 (int (length (sv_sessions sv))), sl_sessions = map (as_active_session (h_now (aw_host W))) (sv_sessions sv)\<rparr>)), sv)"
proof -
  let ?cx = "\<lparr>cx_span_id = span, cx_auth = None\<rparr>"
  have here: "api_list_sessions (kc_api W) ?cx sv = (Some (Inr (ListSessions_ListOfActiveSessions
      \<lparr>sl_total = as_i32 (int (length (sv_sessions sv))), sl_sessions = map (as_active_session (h_now (aw_host W))) (sv_sessions sv)\<rparr>)), sv)"
    by (simp add: kc_api_def kc_list_sessions_def replied_def list_sessions_def Let_def)
  have "i32_ok (as_i32 n)" for n
    using pos_mod_bound [of "2 ^ 32" "n + 2 ^ 31"] pos_mod_sign [of "2 ^ 32" "n + 2 ^ 31"] by (auto simp: i32_ok_def as_i32_def)
  then have "settled list_sessions_response_ok (api_list_sessions (kc_api W) ?cx sv)"
    using assms(4) by (simp add: here session_list_ok_def)
  with mirrors_settled [OF remote_list_sessions [OF assms(1,2), of ?cx "kc_api W" sv closed]] show ?thesis
    using assms(3) here by (simp add: kc_client_def api_client_def)
qed

section \<open>Watching an execution\<close>

text \<open>What an execution shows, of all the messages that come: the answers to its request, to the first that says the kernel is idle.\<close>

definition own_messages :: "string \<Rightarrow> websocket_message list \<Rightarrow> jupyter_message list" where
  "own_messages i ms = filter (answers_to i) (concat (map (\<lambda>m. case m of Jupyter j \<Rightarrow> [j] | Kernel _ \<Rightarrow> []) ms))"

definition shown :: "string \<Rightarrow> websocket_message list \<Rightarrow> jupyter_message list" where
  "shown i ms = take (Suc (length (takeWhile (\<lambda>m. \<not> says_done m) (own_messages i ms)))) (own_messages i ms)"

lemma shown_simps:
  "shown i [] = []"
  "shown i (Kernel k # ms) = shown i ms"
  "shown i (Jupyter m # ms) = (if answers_to i m then m # (if says_done m then [] else shown i ms) else shown i ms)"
  by (simp_all add: shown_def own_messages_def)

lemma execute_loop_shown:
  assumes "map (cb_parse B) ds = map Some ms"
  shows "execute_loop B i (map Inr ds) = (map (show_message B) (shown i ms), False)"
  using assms
proof (induction ds arbitrary: ms)
  case Nil
  then show ?case
    by (simp add: shown_simps)
next
  case (Cons d ds)
  then obtain m ms' where m: "ms = m # ms'" "cb_parse B d = Some m" "map (cb_parse B) ds = map Some ms'"
    by (cases ms) auto
  then show ?case
    using Cons.IH [OF m(3)] by (cases m) (auto simp: shown_simps followed_by_def)
qed

section \<open>Properties of the command line\<close>

definition demo_idle :: jupyter_message where
  "demo_idle = \<lparr>header = \<lparr>msg_id = ''k'', msg_type = ''status''\<rparr>, parent_header = Some \<lparr>msg_id = ''m'', msg_type = []\<rparr>,
     channel = IOPub, content = JObject [(''execution_state'', JString ''idle'')], metadata = JNull, buffers = []\<rparr>"

definition demo_cli :: cli_lib where
  "demo_cli = \<lparr>cb_pretty = print_json, cb_pretty_message = (\<lambda>_. []), cb_debug_error = id, cb_debug_model = ae_code,
     cb_parse = (\<lambda>d. Some (if d = ''idle'' then Jupyter demo_idle else Kernel (ExitedMsg 0))),
     cb_clock = (\<lambda>_. []), cb_authority = (\<lambda>_. None), cb_connect = (\<lambda>_. None), cb_msg_id = ''m'', cb_jupyter_dir = [],
     cb_kernel_spec = (\<lambda>_. None), cb_current_dir = [], cb_random = 0\<rparr>"

lemma demo_cli_simps:
  "cb_debug_model demo_cli = ae_code" "cb_msg_id demo_cli = ''m''"
  "cb_parse demo_cli = (\<lambda>d. Some (if d = ''idle'' then Jupyter demo_idle else Kernel (ExitedMsg 0)))"
  "answers_to ''m'' demo_idle" "says_done demo_idle"
  by (simp_all add: demo_cli_def demo_idle_def answers_to_def says_done_def)



text \<open>
  Without a session, a command takes the first that the server lists, whether it runs or not, although its
  help says that it takes the first that is running: if the first has exited, a kill does nothing and says nothing,
  whatever other sessions run.
\<close>

theorem default_session_may_have_exited:
  assumes "api_transport L" and "base_ok host_name port" and "visible span" and "sv_sessions sv = k # ks" and "id_ok L (session_id k)"
    and "list_all active_session_ok (map (as_active_session (h_now (aw_host W))) (sv_sessions sv))" and "ks_status (kn_state k) = Exited"
  shows "kc_cli L B host_name port closed W span (Some (Kill None)) sv = (([], False), sv)"
proof -
  have "run_kill (cli_client L host_name port closed W span) None sv = run_kill (cli_client L host_name port closed W span) (Some (session_id k)) sv"
    using assms(4) by (simp add: run_kill_def with_resolved_def cli_session_def cli_client_simps list_sessions_remote [OF assms(1-3,6)]
        as_active_session_def Let_def)
  moreover have "snd (kill_session (aw_host W) None (session_id k) sv) = sv"
    using assms(4,7) by (auto simp: kill_session_def find_session_def)
  ultimately show ?thesis
    by (simp add: kc_cli_command [OF assms(1,2)] run_kill_remote [OF assms(1-3,5)])
qed

theorem default_session_may_have_exited_witness:
  "kc_cli text_lib demo_cli ''localhost'' (Some 8182) ''closed'' remote_world ''span'' (Some (Kill None))
     (demo_server (sample_state\<lparr>ks_status := Exited, ks_process_id := Some 42\<rparr>)) =
   (([], False), demo_server (sample_state\<lparr>ks_status := Exited, ks_process_id := Some 42\<rparr>))"
proof -
  let ?st = "sample_state\<lparr>ks_status := Exited, ks_process_id := Some 42\<rparr>"
  define k where "k = hd (sv_sessions (demo_server ?st))"
  have k: "sv_sessions (demo_server ?st) = k # []" "session_id k = ''s''" "ks_status (kn_state k) = Exited"
    by (simp_all add: k_def demo_server_def session_id_def demo_connection_def sample_connection_def kn_state_def)
  have "list_all active_session_ok (map (as_active_session (h_now (aw_host remote_world))) (sv_sessions (demo_server ?st)))"
    by (simp add: demo_server_def as_active_session_def active_session_ok_def sample_state_def state_new_def kn_state_def i32_ok_def
        seconds_since_def as_i32_def env_ok_def execution_queue_ok_def queue_to_json_def remote_world_def sample_host_def
        queue_new_def value_ok_def map_collect_def history_recent_def)
  moreover have "visible ''span''"
    using demo_span by (simp add: demo_context_def)
  ultimately show ?thesis
    using default_session_may_have_exited [OF demo_way(1,2) _ k(1), of "''span''" remote_world demo_cli "''closed''"] demo_id k(2,3) by simp
qed

text \<open>
  The command line says that it has requested the shutdown of the server whatever the answer was: on a server
  with a token it always does, and the server has refused.
\<close>

theorem shutdown_reported_despite_refusal:
  assumes "api_transport L" and "base_ok host_name port" and "visible span" and "sv_token sv = Some token"
  shows "kc_cli L B host_name port closed W span (Some (Shutdown None)) sv = (([line ''Server shutdown requested''], False), sv) \<and>
    shutdown_server (aw_host W) None sv = (Unauthorised, sv)"
proof -
  have "shutdown_server (aw_host W) None sv = (Unauthorised, sv)"
    using assms(4) by (simp add: shutdown_server_def validate_token_def)
  then show ?thesis
    using client_controls_server_aux(4) [OF assms(1,2) _ refl, of "\<lparr>cx_span_id = span, cx_auth = None\<rparr>" closed W sv] assms(3)
    by (simp add: kc_cli_command [OF assms(1,2)] run_shutdown_def on_answer_def cli_client_simps kc_shutdown_server_def replied_def)
qed

theorem shutdown_reported_despite_refusal_witness:
  "kc_cli text_lib demo_cli ''localhost'' (Some 8182) ''closed'' remote_world ''span'' (Some (Shutdown None)) sample_server =
     (([Print (''Server shutdown requested'' @ nl)], False), sample_server)"
  using shutdown_reported_despite_refusal [OF demo_way(1,2), of "''span''" sample_server "''secret''"] demo_span
  by (simp add: sample_server_def demo_context_def line_def)

text \<open>
  An execution that is waited for shows the messages that answer its request, in their order, up to the first
  that reports the kernel idle, and no message of any other request; then it closes the connection.
\<close>

theorem execution_shows_own_messages:
  assumes "wl_frames w = map Inr ds" and "map (cb_parse B) ds = map Some ms" and "wl_send_ok w" and "wl_close_ok w"
  shows "ws_execute_request B w code True =
    (WsSent (message_json (execute_request_message B code)) #
       map (show_message B) (shown (cb_msg_id B) ms) @ [WsClosed], False)"
  using assms by (simp add: ws_execute_request_def ws_write_def ws_close_def followed_by_def execute_loop_shown)

theorem execution_shows_own_messages_witness:
  "\<exists>sent message. ws_execute_request demo_cli
     \<lparr>wl_send_ok = True, wl_frames = [Inr ''other'', Inr ''idle'', Inr ''idle''], wl_close_ok = True\<rparr> ''1'' True =
     ([WsSent sent, show_message demo_cli message, WsClosed], False)"
  using execution_shows_own_messages [of "\<lparr>wl_send_ok = True, wl_frames = [Inr ''other'', Inr ''idle'', Inr ''idle''], wl_close_ok = True\<rparr>"
      "[''other'', ''idle'', ''idle'']" demo_cli "map (\<lambda>d. the (cb_parse demo_cli d)) [''other'', ''idle'', ''idle'']" "''1''"]
  by (simp add: demo_cli_simps shown_simps) blast

end
