(* ===== verification/Spec2Isabelle.thy ===== *)
theory Spec2Isabelle
  imports KC_Proxy KC_Execute KC_Heartbeat KC_Server KC_Channel KC_Upgrade KC_Resource KC_Handler KC_Stdio KC_Entry KC_Output KC_Control KC_Connect
    KC_Attach KC_Cli
begin

text \<open>
  A verification library for Kallichore, a server that supervises Jupyter kernels for Positron.

  \<^bold>\<open>The program.\<close> The server keeps a table of kernel sessions. For each session it starts a
  kernel process, connects to it over ZeroMQ sockets, relays messages between those sockets and
  a client's WebSocket, queues execute requests so that the kernel runs one at a time, watches
  the process and its heartbeat, and reports the session's status. Agents reach sessions through
  an MCP endpoint, which runs code in them and brokers commands to the windows of a workspace.

  \<^bold>\<open>The theories\<close>, each naming the source it models (paths under \<open>src/crates/\<close>):

  \<^item> \<open>KC_Prelude\<close>: results with errors and panics, channels, clocks, text helpers, and the
    lemma collections the components share.
  \<^item> \<open>KC_Json\<close>, \<open>KC_Messages\<close>: JSON values and the messages of \<open>kcshared\<close>
    (\<open>jupyter_message.rs\<close>, \<open>kernel_message.rs\<close>, \<open>websocket_message.rs\<close>) with their
    classification (\<open>kcserver/src/jupyter_messages.rs\<close>).
  \<^item> \<open>KC_Fifo\<close>: the contract of a queue of execute requests, as a locale.
    \<open>KC_Queue\<close> (\<open>execution_queue.rs\<close>) interprets it.
  \<^item> \<open>KC_Clip\<close>, \<open>KC_History\<close> (\<open>execution_history.rs\<close>): text clipped to its two ends, and the
    bounded history of executions built from it.
  \<^item> \<open>KC_State\<close> (\<open>kernel_state.rs\<close>): the state shared by the tasks of a session, and the
    status machine.
  \<^item> \<open>KC_Wire\<close> (\<open>wire_message.rs\<close>, \<open>wire_message_header.rs\<close>, \<open>kernel_connection.rs\<close>): Jupyter
    messages as signed ZeroMQ frames.
  \<^item> \<open>KC_Proxy\<close> (\<open>zmq_ws_proxy.rs\<close>): the relay, with an abstract specification it refines.
  \<^item> \<open>KC_Heartbeat\<close> (\<open>heartbeat.rs\<close>): the heartbeat monitor.
  \<^item> \<open>KC_Errors\<close> (\<open>error.rs\<close>, \<open>startup_status.rs\<close>): errors and startup outcomes.
  \<^item> \<open>KC_Shell\<close> (\<open>kernel_session/utils.rs\<close>, \<open>kernel_session/shell_wrapper.rs\<close>): wrapping a
    kernel's command line in a shell, and how a shell reads it back.
  \<^item> \<open>KC_Lifecycle\<close> (\<open>kernel_session/\<close> \<open>startup.rs\<close>, \<open>process.rs\<close>, \<open>lifecycle.rs\<close>,
    \<open>working_dir.rs\<close>): start results, exit, shutdown, restart and interrupt; the restart as a
    step relation between the restarting task and the process.
  \<^item> \<open>KC_Execute\<close> (\<open>kernel_session/execute.rs\<close>): running code and collecting its output.
  \<^item> \<open>KC_Ports\<close> (\<open>connection_file.rs\<close>, \<open>kernel_session/connection.rs\<close>, \<open>port_picker.rs\<close>):
    picking, reserving and releasing ports; the handshake version test.
  \<^item> \<open>KC_Machines\<close>: two contracts as locales. \<open>guarded_machine\<close> is an invariant kept by every
    permitted operation; the history, the registry, the MCP endpoint, the server and the attachment of
    clients interpret it.
    \<open>status_cell\<close> is a status whose changes are announced; the kernel state interprets it.
  \<^item> \<open>KC_Ids\<close>, \<open>KC_Workspaces\<close> (\<open>mcp/workspaces.rs\<close>): workspace identifiers and tokens, and
    the registry of workspaces with its windows, agents and pending commands.
  \<^item> \<open>KC_Channel\<close> (\<open>mcp/channel.rs\<close>, \<open>run_command\<close> of \<open>mcp/workspaces.rs\<close>): the pump behind a
    window's WebSocket, and a command that waits for a window and then for its reply.
  \<^item> \<open>KC_Auth\<close> (\<open>mcp/auth.rs\<close>): the guards of the MCP endpoint against remote callers, with the
    parser for IP addresses of the Rust library they rest on.
  \<^item> \<open>KC_Endpoint\<close> (\<open>mcp/listener.rs\<close>, \<open>mcp/card.rs\<close>, \<open>mcp/mod.rs\<close>, and the two handlers of
    \<open>server.rs\<close> that register and deregister a workspace): routing, authorisation, services, and
    when the listener runs.
  \<^item> \<open>KC_Env\<close> (\<open>kernel_session/environment.rs\<close>, the environment steps of
    \<open>kernel_session/startup.rs\<close>): the variables of a kernel process and the credential among them.
  \<^item> \<open>KC_Idle\<close> (\<open>server.rs\<close>): the idle task, the test for idle sessions, the end of the process.
  \<^item> \<open>KC_Server\<close> (\<open>server.rs\<close>, \<open>kernel_session/mod.rs\<close>): the server's state, the handlers that
    answer at once, and the machine of API requests.
  \<^item> \<open>KC_Client\<close>, \<open>KC_Upgrade\<close> (\<open>client_session.rs\<close>): the loop of an attached client, and how a
    connection on a Unix socket is told apart and upgraded.
  \<^item> \<open>KC_Resource\<close> (\<open>resource_monitor.rs\<close>, \<open>process_tree.rs\<close>, \<open>process_metrics.rs\<close>): the processes
    of a session, their samples, and the monitor that reports them.
  \<^item> \<open>KC_Render\<close>, \<open>KC_Handler\<close> (\<open>mcp/handler.rs\<close>): what an agent is told, written within a budget
    of bytes that a state monad carries, and the tools: sessions, history, running code, commands.
  \<^item> \<open>KC_Bridge\<close> (\<open>mcp/stdio_bridge.rs\<close>): the process between an agent and the endpoint: finding the
    workspace, replaying the handshake, relaying requests, answering alone, and presence; \<open>KC_Stdio\<close>
    is its loop over standard input, with the tasks it starts interleaved.
  \<^item> \<open>KC_Handshake\<close> (\<open>kernel_session/handshake.rs\<close>, \<open>registration_socket.rs\<close>, \<open>registration_file.rs\<close>):
    how a new kernel announces its ports.
  \<^item> \<open>KC_Start\<close> (\<open>kernel_session/mod.rs\<close>, \<open>kernel_session/startup.rs\<close>, the handlers of \<open>server.rs\<close> that
    wait): starting, restarting and adopting a kernel as a whole, and executing code over the API.
  \<^item> \<open>KC_Attach\<close> (\<open>websocket_service.rs\<close>, \<open>server.rs\<close>): which requests become WebSockets, the upgrade, the
    socket of a session, and attachments on their way as a step relation.
  \<^item> \<open>KC_Entry\<close> (\<open>main.rs\<close>, \<open>transport.rs\<close>, \<open>handshake_socket.rs\<close>, \<open>server.rs\<close>): the process from its
    arguments to the server it creates, and its end by a signal.
  \<^item> \<open>KC_Output\<close> (\<open>kernel_session/process.rs\<close>): forwarding what a kernel process writes.
  \<^item> \<open>KC_Control\<close> (\<open>process_control.rs\<close>): signals to processes, with the casts of their numbers.
  \<^item> \<open>KC_Connect\<close> (\<open>zmq_ws_proxy.rs\<close>): connecting the proxy to the sockets of a kernel.
  \<^item> \<open>KC_Models\<close> (\<open>kallichore_api/src/models.rs\<close>): the models of the API and their derived JSON form,
    field by field. \<open>serde_type\<close> and \<open>serde_field\<close> are the contract of a writer with its reader, which every
    model interprets; \<open>api_library\<close> is what the code relies on of the libraries for text, times and maps.
  \<^item> \<open>KC_Api\<close> (\<open>kallichore_api/src/\<close> \<open>lib.rs\<close>, \<open>server/mod.rs\<close>, \<open>context.rs\<close>): the responses, the
    trait \<open>Api\<close> as a record of operations over any state, and the router in front of it.
  \<^item> \<open>KC_ApiClient\<close> (\<open>kallichore_api/src/client/mod.rs\<close>): the client, another implementation of the
    same interface. \<open>response_codec\<close> is the contract between the two ends of an operation, \<open>api_transport\<close> what
    lies between them.
  \<^item> \<open>KC_JsonText\<close>: a concrete library that satisfies these laws, with a JSON printer and reader.
  \<^item> \<open>KC_Remote\<close> (\<open>kcserver/src/server.rs\<close>): the handlers of the server as an implementation of the
    interface, and the server as its client sees it.
  \<^item> \<open>KC_Cli\<close> (\<open>kcclient/src/main.rs\<close>): the command line client, with the wrapper of \<open>lib.rs\<close> that binds
    an interface to a context.

  \<^bold>\<open>State and effects.\<close> A struct behind a lock is a record passed and returned. An unbounded
  channel is its buffer and whether a receiver is left; a closed one makes the send fail where the
  code handles that, and panic where it does not. Tasks that run at the same time are either a
  sequence of inputs (the events a \<open>select!\<close> loop wakes on) or an inductive step relation where
  the claim is about their interleaving: \<open>restart_step\<close>, \<open>port_step\<close>, \<open>exit_step\<close>,
  \<open>attach_step\<close>, and the parts of \<open>mcp_part_step\<close>. Panics are values (\<open>Panic\<close>, or \<open>None\<close> of an option type), so a claim that an
  operation returns excludes them.

  \<^bold>\<open>What is shown.\<close> The relay refines a specification in which requests reach the kernel in order
  and each at most once, and delivers to clients what the kernel says (\<open>KC_Proxy\<close>, \<open>KC_Queue\<close>). A
  message survives encoding and decoding, and what is accepted was signed (\<open>KC_Wire\<close>). The status
  a client last heard is the session's status (\<open>KC_State\<close>). An execution returns exactly when it is
  complete, whatever the order of its messages (\<open>KC_Execute\<close>). The history stays within its bounds
  (\<open>KC_Clip\<close>, \<open>KC_History\<close>). Commands go to the focused window, survive windows that close, and
  leave nothing behind (\<open>KC_Workspaces\<close>, \<open>KC_Channel\<close>). Only local callers with the token of the
  workspace they address are served (\<open>KC_Auth\<close>, \<open>KC_Endpoint\<close>), and the credential a kernel is
  given is the one that works for it (\<open>KC_Env\<close>). The server exits when, and only when, it has been
  idle (\<open>KC_Idle\<close>), and keeps its sessions sound (\<open>KC_Server\<close>). An attached client gets what the
  session sends and nothing else (\<open>KC_Client\<close>). The tools of an agent touch only sessions of its
  workspace, run code as asked, and reply within their budget (\<open>KC_Handler\<close>, \<open>KC_Render\<close>); through
  the bridge each request is answered once and runs at most once (\<open>KC_Bridge\<close>). Kernel and server
  agree on ports (\<open>KC_Handshake\<close>), a start that succeeds leaves a session that is ready
  (\<open>KC_Start\<close>), a session has one client as long as attachments do not overlap (\<open>KC_Attach\<close>), and
  the client that launched the server is told how to reach it (\<open>KC_Entry\<close>). What a kernel writes reaches
  the client line by line (\<open>KC_Output\<close>). The models of the API survive their JSON form (\<open>KC_Models\<close>); the
  router is the table of operations the API describes, and its refusals change nothing (\<open>KC_Api\<close>); and the
  generated client is the server at a distance, operation by operation (\<open>KC_ApiClient\<close>, \<open>KC_Remote\<close>), so what the
  command line prints is what the server did (\<open>KC_Cli\<close>). Several theorems state
  where the code falls short: lost restarts, failed starts that wedge a session, shared ports, an unquoted
  argument, stranded workspaces, stuck sessions, an unguarded configuration, clients thrown out by a
  plain request, sessions cut off by a long path, characters lost between frames, names that reach another
  operation, credentials that are never sent, a default session that has exited.

  \<^bold>\<open>Bounds and fuel.\<close> No definition that models code uses fuel; the JSON reader of \<open>KC_JsonText\<close> does, and
  the length of its text is shown to be enough. Recursion that is not structural has a termination
  proof: the search for a port counts its at most ten attempts, dispatching a command shortens the
  list of windows, replacing text, reading address groups, removing escape sequences, reading
  headers, draining events shorten the text, the walk over processes shortens the list of those
  not yet seen. The loops that wait
  for events are structural on the list of events; running out of events is a value of its own.
  Machine integers keep their width where it shows: ports are 16 bits, the casts to \<open>i32\<close> in
  reports and to \<open>u32\<close> in heartbeats wrap, the request counter wraps at 64 bits, token comparison
  works on 8-bit words.

  \<^bold>\<open>Not modelled.\<close> Third-party code is a parameter: JSON text, HMAC, hexadecimal and Base64 coding,
  ZeroMQ, hyper, and the MCP protocol library. The operating system answers through arguments (ports,
  processes, paths, clocks). Windows builds are left out, and with them \<open>named_pipe_connection.rs\<close> and
  the job objects, as are the samples of the macOS process table. Of the generated API crate the forms of the
  models for query strings and headers are left out, which no operation of the API uses, the conversions for a
  feature that is off, and its example programs. The loops that accept connections hand each one to hyper.
\<close>

end
